(* ===== verification/Prelude.thy ===== *)
theory Prelude
  imports Main "HOL-Library.Word" "HOL-Library.AList" "HOL-Library.Char_ord"
    "HOL-Library.List_Lexorder" "HOL-Library.Product_Lexorder" "HOL-Library.Sublist"
begin

text \<open>
  Shared ground of the development: the machine integers and standard-library routines the
  Rust sources use (saturating arithmetic, byte strings with the UTF-8 encoding of Unicode
  white space, ordered and hashed maps), the interface of a keyed store that both kinds of map
  satisfy, the interface of a transition system with an invariant that every stateful component
  instantiates, and the generic lemmas their proofs share.

  A Rust \<open>String\<close> is its list of UTF-8 bytes, a HOL \<open>string\<close>; \<open>len\<close> counts bytes in both.
  An \<open>Instant\<close> or a \<open>Duration\<close> is a number of nanoseconds.
\<close>

named_theorems step_simps \<open>definitions of the operations of a component, for proofs about one step\<close>
named_theorems inv_simps \<open>the conjuncts of a component's invariant\<close>

section \<open>Machine integers\<close>

type_synonym u32 = "32 word"
type_synonym u64 = "64 word"
type_synonym instant = nat
type_synonym duration = nat

abbreviation nanos_per_second :: nat where
  "nanos_per_second \<equiv> 1000000000"

definition from_secs :: "nat \<Rightarrow> duration" where
  "from_secs s = s * nanos_per_second"

definition saturating_add :: "'a::len word \<Rightarrow> 'a word \<Rightarrow> 'a word" where
  "saturating_add x y = (if unat x + unat y < 2 ^ LENGTH('a) then x + y else - 1)"

definition saturating_sub :: "'a::len word \<Rightarrow> 'a word \<Rightarrow> 'a word" where
  "saturating_sub x y = (if y \<le> x then x - y else 0)"

lemma unat_minus_one_max: "unat (- 1 :: 'a::len word) = 2 ^ LENGTH('a) - 1"
  by (simp only: unsigned_minus_1_eq_mask mask_eq_exp_minus_1)

lemma unat_saturating_add:
  "unat (saturating_add x y) = min (unat x + unat y) (2 ^ LENGTH('a) - 1)"
  for x y :: "'a::len word"
proof (cases "unat x + unat y < 2 ^ LENGTH('a)")
  case True
  then show ?thesis by (simp add: saturating_add_def unat_word_ariths)
next
  case False
  then show ?thesis by (simp add: saturating_add_def unat_minus_one_max)
qed

lemma unat_saturating_sub: "unat (saturating_sub x y) = unat x - unat y"
  by (simp add: saturating_sub_def unat_sub word_le_nat_alt)

lemma saturating_add_ge: "x \<le> saturating_add x y"
  for x y :: "'a::len word"
proof -
  have "unat x \<le> 2 ^ LENGTH('a) - 1"
    using unsigned_less [of x] by (metis Suc_leI Suc_le_D diff_Suc_1 not_less_eq_eq unsigned_less)
  then show ?thesis by (simp add: word_le_nat_alt unat_saturating_add)
qed

section \<open>Byte strings\<close>

fun str_contains :: "string \<Rightarrow> string \<Rightarrow> bool" where
  "str_contains [] p = (p = [])"
| "str_contains (c # cs) p = (prefix p (c # cs) \<or> str_contains cs p)"

definition contains_any :: "string \<Rightarrow> string list \<Rightarrow> bool" where
  "contains_any s ps = list_ex (str_contains s) ps"

lemma str_contains_sublist: "str_contains s p \<longleftrightarrow> sublist p s"
  by (induction s) (auto simp: sublist_Cons_right)

definition strip_prefix :: "string \<Rightarrow> string \<Rightarrow> string option" where
  "strip_prefix p s = (if prefix p s then Some (drop (length p) s) else None)"

lemma strip_prefix_Some: "strip_prefix p s = Some r \<longleftrightarrow> s = p @ r"
  by (auto simp: strip_prefix_def elim!: prefixE)

definition ascii_lower :: "char \<Rightarrow> char" where
  "ascii_lower c =
     (if 65 \<le> (of_char c :: nat) \<and> (of_char c :: nat) \<le> 90 then char_of ((of_char c :: nat) + 32) else c)"

definition to_ascii_lowercase :: "string \<Rightarrow> string" where
  "to_ascii_lowercase s = map ascii_lower s"

lemma ascii_lower_idem [simp]: "ascii_lower (ascii_lower c) = ascii_lower c"
  by (simp add: ascii_lower_def of_char_of)

lemma to_ascii_lowercase_idem [simp]: "to_ascii_lowercase (to_ascii_lowercase s) = to_ascii_lowercase s"
  by (simp add: to_ascii_lowercase_def)

lemma length_to_ascii_lowercase [simp]: "length (to_ascii_lowercase s) = length s"
  by (simp add: to_ascii_lowercase_def)

text \<open>The decimal digits \<open>format!\<close> prints for an unsigned integer.\<close>

fun dec :: "nat \<Rightarrow> string" where
  "dec n = (if n < 10 then [char_of (48 + n)] else dec (n div 10) @ [char_of (48 + n mod 10)])"

declare dec.simps [simp del]

text \<open>\<open>str::split\<close> with a character predicate, and \<open>Iterator::find_map\<close>.\<close>

fun split_on :: "('a \<Rightarrow> bool) \<Rightarrow> 'a list \<Rightarrow> 'a list list" where
  "split_on P [] = [[]]"
| "split_on P (c # cs) =
     (if P c then [] # split_on P cs
      else (case split_on P cs of [] \<Rightarrow> [[c]] | w # ws \<Rightarrow> (c # w) # ws))"

fun find_map :: "('a \<Rightarrow> 'b option) \<Rightarrow> 'a list \<Rightarrow> 'b option" where
  "find_map f [] = None"
| "find_map f (x # xs) = (case f x of Some y \<Rightarrow> Some y | None \<Rightarrow> find_map f xs)"

definition is_ascii_digit :: "char \<Rightarrow> bool" where
  "is_ascii_digit c = (48 \<le> (of_char c :: nat) \<and> (of_char c :: nat) \<le> 57)"

definition is_ascii_alphanumeric :: "char \<Rightarrow> bool" where
  "is_ascii_alphanumeric c =
     (is_ascii_digit c \<or> (65 \<le> (of_char c :: nat) \<and> (of_char c :: nat) \<le> 90)
      \<or> (97 \<le> (of_char c :: nat) \<and> (of_char c :: nat) \<le> 122))"

definition digits_value :: "string \<Rightarrow> nat" where
  "digits_value s = fold (\<lambda>c n. 10 * n + (of_char c - 48)) s 0"

text \<open>\<open>str::parse::<u64>\<close> on a string without sign; the value is kept below \<open>2 ^ 64\<close>.\<close>

definition parse_u64 :: "string \<Rightarrow> nat option" where
  "parse_u64 s =
     (if s \<noteq> [] \<and> list_all is_ascii_digit s \<and> digits_value s < 2 ^ 64
      then Some (digits_value s) else None)"

text \<open>What \<open>format!\<close> prints can be read back.\<close>

lemma is_ascii_digit_char_of: "(m :: nat) < 10 \<Longrightarrow> is_ascii_digit (char_of (48 + m))"
  by (simp add: is_ascii_digit_def)

lemma dec_digits: "list_all is_ascii_digit (dec n) \<and> dec n \<noteq> []"
proof (induction n rule: dec.induct)
  case (1 n)
  show ?case
  proof (cases "n < 10")
    case True
    then show ?thesis by (subst (1 2) dec.simps) (simp add: is_ascii_digit_char_of)
  next
    case False
    with 1 show ?thesis by (subst (1 2) dec.simps) (simp add: is_ascii_digit_char_of)
  qed
qed

lemma digits_value_snoc: "digits_value (s @ [c]) = 10 * digits_value s + (of_char c - 48)"
  by (simp add: digits_value_def)

lemma digits_value_dec: "digits_value (dec n) = n"
proof (induction n rule: dec.induct)
  case (1 n)
  show ?case
  proof (cases "n < 10")
    case True
    then show ?thesis by (subst dec.simps) (simp add: digits_value_def)
  next
    case False
    with 1 have "digits_value (dec (n div 10)) = n div 10" by simp
    moreover have "dec n = dec (n div 10) @ [char_of (48 + n mod 10)]"
      using False by (subst dec.simps) simp
    ultimately show ?thesis by (simp add: digits_value_snoc)
  qed
qed

lemma dec_length: "0 < n \<Longrightarrow> m < 10 ^ n \<Longrightarrow> length (dec m) \<le> n"
proof (induction n arbitrary: m)
  case (Suc n)
  show ?case
  proof (cases "m < 10")
    case True
    then show ?thesis by (subst dec.simps) simp
  next
    case False
    then have "m div 10 < 10 ^ n" "n \<noteq> 0" using Suc.prems by (cases n; auto simp: div_less_iff_less_mult)+
    with Suc.IH [of "m div 10"] False show ?thesis by (subst dec.simps) simp
  qed
qed simp

lemma parse_u64_dec: "n < 2 ^ 64 \<Longrightarrow> parse_u64 (dec n) = Some n"
  by (simp add: parse_u64_def dec_digits digits_value_dec)

lemma split_on_none: "list_all (\<lambda>c. \<not> P c) s \<Longrightarrow> split_on P s = [s]"
  by (induction s) auto

lemma set_split_on: "w \<in> set (split_on P s) \<Longrightarrow> set w \<subseteq> {c \<in> set s. \<not> P c}"
  by (induction s arbitrary: w) (fastforce split: if_splits list.splits)+

lemma split_on_sep:
  "list_all (\<lambda>c. \<not> P c) s \<Longrightarrow> P d \<Longrightarrow> split_on P (s @ d # t) = s # split_on P t"
  by (induction s) auto

lemma find_map_Some: "find_map f xs = Some y \<Longrightarrow> \<exists>x \<in> set xs. f x = Some y"
  by (induction xs) (auto split: option.splits)

lemma find_map_None: "find_map f xs = None \<longleftrightarrow> (\<forall>x \<in> set xs. f x = None)"
  by (induction xs) (auto split: option.splits)

text \<open>
  \<open>char::is_whitespace\<close> holds of the 25 code points of Unicode's property White\_Space; here are
  their UTF-8 encodings. In well-formed UTF-8 none of them can begin or end inside the encoding of
  another character, so stripping them bytewise is what \<open>str::trim\<close> does.
\<close>

definition utf8_white_space :: "string list" where
  "utf8_white_space =
     [[CHR 0x09], [CHR 0x0A], [CHR 0x0B], [CHR 0x0C], [CHR 0x0D], [CHR 0x20],
      [CHR 0xC2, CHR 0x85], [CHR 0xC2, CHR 0xA0], [CHR 0xE1, CHR 0x9A, CHR 0x80],
      [CHR 0xE2, CHR 0x80, CHR 0x80], [CHR 0xE2, CHR 0x80, CHR 0x81], [CHR 0xE2, CHR 0x80, CHR 0x82],
      [CHR 0xE2, CHR 0x80, CHR 0x83], [CHR 0xE2, CHR 0x80, CHR 0x84], [CHR 0xE2, CHR 0x80, CHR 0x85],
      [CHR 0xE2, CHR 0x80, CHR 0x86], [CHR 0xE2, CHR 0x80, CHR 0x87], [CHR 0xE2, CHR 0x80, CHR 0x88],
      [CHR 0xE2, CHR 0x80, CHR 0x89], [CHR 0xE2, CHR 0x80, CHR 0x8A], [CHR 0xE2, CHR 0x80, CHR 0xA8],
      [CHR 0xE2, CHR 0x80, CHR 0xA9], [CHR 0xE2, CHR 0x80, CHR 0xAF], [CHR 0xE2, CHR 0x81, CHR 0x9F],
      [CHR 0xE3, CHR 0x80, CHR 0x80]]"

definition leading_white :: "string \<Rightarrow> nat" where
  "leading_white s = (case find (\<lambda>w. prefix w s) utf8_white_space of None \<Rightarrow> 0 | Some w \<Rightarrow> length w)"

definition trailing_white :: "string \<Rightarrow> nat" where
  "trailing_white s = (case find (\<lambda>w. suffix w s) utf8_white_space of None \<Rightarrow> 0 | Some w \<Rightarrow> length w)"

lemma leading_white_le: "leading_white s \<le> length s"
proof (cases "find (\<lambda>w. prefix w s) utf8_white_space")
  case None
  then show ?thesis by (simp add: leading_white_def)
next
  case (Some w)
  then have "prefix w s" by (auto simp: find_Some_iff)
  then show ?thesis using Some by (simp add: leading_white_def prefix_length_le)
qed

lemma trailing_white_le: "trailing_white s \<le> length s"
proof (cases "find (\<lambda>w. suffix w s) utf8_white_space")
  case None
  then show ?thesis by (simp add: trailing_white_def)
next
  case (Some w)
  then have "suffix w s" by (auto simp: find_Some_iff)
  then show ?thesis using Some by (simp add: trailing_white_def suffix_length_le)
qed

function trim_start :: "string \<Rightarrow> string" where
  "trim_start s = (if leading_white s = 0 then s else trim_start (drop (leading_white s) s))"
  by pat_completeness auto
termination
proof (relation "measure length")
  fix s :: string
  assume "leading_white s \<noteq> 0"
  with leading_white_le [of s] show "(drop (leading_white s) s, s) \<in> measure length"
    by (simp add: diff_less)
qed simp

function trim_end :: "string \<Rightarrow> string" where
  "trim_end s =
     (if trailing_white s = 0 then s else trim_end (take (length s - trailing_white s) s))"
  by pat_completeness auto
termination
proof (relation "measure length")
  fix s :: string
  assume "trailing_white s \<noteq> 0"
  with trailing_white_le [of s] show "(take (length s - trailing_white s) s, s) \<in> measure length"
    by (simp add: diff_less)
qed simp

declare trim_start.simps [simp del] trim_end.simps [simp del]

definition trim :: "string \<Rightarrow> string" where
  "trim s = trim_end (trim_start s)"

section \<open>Ordered and hashed maps\<close>

text \<open>
  A \<open>BTreeMap\<close> iterates in key order: it is an association list with strictly increasing keys.
  A \<open>HashMap\<close> promises no order: it is an association list with distinct keys, and a definition
  may only ask it questions whose answer does not depend on the order of the list.
\<close>

definition bm_ok :: "('k::linorder \<times> 'v) list \<Rightarrow> bool" where
  "bm_ok m = sorted_wrt (<) (map fst m)"

definition bm_insert :: "'k::linorder \<Rightarrow> 'v \<Rightarrow> ('k \<times> 'v) list \<Rightarrow> ('k \<times> 'v) list" where
  "bm_insert k v m = takeWhile (\<lambda>e. fst e < k) m @ (k, v) # dropWhile (\<lambda>e. fst e \<le> k) m"

definition bm_remove :: "'k \<Rightarrow> ('k \<times> 'v) list \<Rightarrow> ('k \<times> 'v) list" where
  "bm_remove k m = filter (\<lambda>e. fst e \<noteq> k) m"

definition hm_ok :: "('k \<times> 'v) list \<Rightarrow> bool" where
  "hm_ok m = distinct (map fst m)"

locale keyed_store =
  fixes ok :: "'m \<Rightarrow> bool"
    and empty :: 'm
    and get :: "'m \<Rightarrow> 'k \<Rightarrow> 'v option"
    and put :: "'k \<Rightarrow> 'v \<Rightarrow> 'm \<Rightarrow> 'm"
    and del :: "'k \<Rightarrow> 'm \<Rightarrow> 'm"
  assumes ok_empty: "ok empty"
    and get_empty: "get empty k = None"
    and ok_put: "ok m \<Longrightarrow> ok (put k v m)"
    and ok_del: "ok m \<Longrightarrow> ok (del k m)"
    and get_put: "ok m \<Longrightarrow> get (put k v m) k' = (if k' = k then Some v else get m k')"
    and get_del: "ok m \<Longrightarrow> get (del k m) k' = (if k' = k then None else get m k')"
begin

lemma get_put_same: "ok m \<Longrightarrow> get (put k v m) k = Some v"
  by (simp add: get_put)

lemma get_put_other: "ok m \<Longrightarrow> k' \<noteq> k \<Longrightarrow> get (put k v m) k' = get m k'"
  by (simp add: get_put)

lemma get_del_same: "ok m \<Longrightarrow> get (del k m) k = None"
  by (simp add: get_del)

lemma del_put: "ok m \<Longrightarrow> get (del k (put k v m)) k' = get (del k m) k'"
  by (simp add: get_del get_put ok_put)

lemma put_put: "ok m \<Longrightarrow> get (put k w (put k v m)) k' = get (put k w m) k'"
  by (simp add: get_put ok_put)

end

lemma bm_ok_remove: "bm_ok m \<Longrightarrow> bm_ok (bm_remove k m)"
  by (simp add: bm_ok_def bm_remove_def sorted_wrt_map sorted_wrt_filter)

lemma bm_ok_Cons: "bm_ok ((k, v) # m) \<longleftrightarrow> (\<forall>x \<in> fst ` set m. k < x) \<and> bm_ok m"
  by (auto simp: bm_ok_def)

lemma bm_ok_insert: "bm_ok m \<Longrightarrow> bm_ok (bm_insert k v m)"
proof (induction m)
  case Nil
  then show ?case by (simp add: bm_ok_def bm_insert_def)
next
  case (Cons e m)
  obtain k' v' where e: "e = (k', v')" by (cases e)
  have set_ins: "fst ` set (bm_insert k v m) \<subseteq> insert k (fst ` set m)"
    by (auto simp: bm_insert_def dest!: set_takeWhileD set_dropWhileD)
  consider "k' < k" | "k' = k" | "k < k'" by (rule linorder_cases)
  then show ?case
  proof cases
    case 1
    then have "bm_insert k v (e # m) = e # bm_insert k v m" by (simp add: bm_insert_def e)
    moreover have "\<forall>x \<in> fst ` set (bm_insert k v m). k' < x"
    proof -
      have "\<forall>x \<in> insert k (fst ` set m). k' < x" using Cons.prems 1 by (auto simp: e bm_ok_Cons)
      with set_ins show ?thesis by blast
    qed
    moreover have "bm_ok (bm_insert k v m)" using Cons by (simp add: e bm_ok_Cons)
    ultimately show ?thesis by (simp add: e bm_ok_Cons)
  next
    case 2
    have "dropWhile (\<lambda>e. fst e \<le> k) m = m"
      using Cons.prems 2 by (cases m) (auto simp: e bm_ok_Cons)
    then have "bm_insert k v (e # m) = (k, v) # m" using 2 by (simp add: bm_insert_def e)
    then show ?thesis using Cons.prems 2 by (simp add: e bm_ok_Cons)
  next
    case 3
    then have "bm_insert k v (e # m) = (k, v) # e # m" by (auto simp: bm_insert_def e)
    then show ?thesis using Cons.prems 3 by (fastforce simp: e bm_ok_Cons)
  qed
qed

lemma map_of_bm_remove: "map_of (bm_remove k m) k' = (if k' = k then None else map_of m k')"
  by (induction m) (auto simp: bm_remove_def)

lemma map_of_less_None: "bm_ok m \<Longrightarrow> (\<And>x. x \<in> fst ` set m \<Longrightarrow> k < x) \<Longrightarrow> map_of m k = None"
  by (fastforce simp: map_of_eq_None_iff)

lemma map_of_bm_insert: "bm_ok m \<Longrightarrow> map_of (bm_insert k v m) k' = (if k' = k then Some v else map_of m k')"
proof (induction m)
  case Nil
  then show ?case by (simp add: bm_insert_def)
next
  case (Cons e m)
  obtain l w where e: "e = (l, w)" by (cases e)
  consider "l < k" | "l = k" | "k < l" by (rule linorder_cases)
  then show ?case
  proof cases
    case 1
    then have "bm_insert k v (e # m) = e # bm_insert k v m" by (simp add: bm_insert_def e)
    then show ?thesis using Cons 1 by (auto simp: e bm_ok_Cons)
  next
    case 2
    have "dropWhile (\<lambda>e. fst e \<le> k) m = m"
      using Cons.prems 2 by (cases m) (auto simp: e bm_ok_Cons)
    then have "bm_insert k v (e # m) = (k, v) # m" using 2 by (simp add: bm_insert_def e)
    then show ?thesis using 2 by (simp add: e)
  next
    case 3
    then have "bm_insert k v (e # m) = (k, v) # e # m" by (auto simp: bm_insert_def e)
    then show ?thesis by simp
  qed
qed

interpretation bm: keyed_store bm_ok "[]" map_of bm_insert bm_remove
  by unfold_locales
    (simp_all add: bm_ok_insert bm_ok_remove map_of_bm_insert map_of_bm_remove, simp add: bm_ok_def)

interpretation hm: keyed_store hm_ok "[]" map_of AList.update AList.delete
  by unfold_locales
    (simp_all add: hm_ok_def distinct_update distinct_delete update_conv' delete_conv')

lemma bm_ok_distinct: "bm_ok m \<Longrightarrow> distinct (map fst m)"
  by (simp add: bm_ok_def strict_sorted_iff)

text \<open>Updating every value in place (\<open>values_mut\<close>) keeps the keys and their order.\<close>

definition map_values :: "('v \<Rightarrow> 'v) \<Rightarrow> ('k \<times> 'v) list \<Rightarrow> ('k \<times> 'v) list" where
  "map_values f m = map (\<lambda>(k, v). (k, f v)) m"

lemma map_fst_map_values [simp]: "map fst (map_values f m) = map fst m"
  by (simp add: map_values_def case_prod_unfold)

lemma map_of_map_values [simp]: "map_of (map_values f m) k = map_option f (map_of m k)"
  by (simp add: map_values_def map_of_map)

lemma bm_ok_map_values [simp]: "bm_ok (map_values f m) = bm_ok m"
  by (simp add: bm_ok_def)

lemma hm_ok_map_values [simp]: "hm_ok (map_values f m) = hm_ok m"
  by (simp add: hm_ok_def)

lemma map_of_hm_SomeD: "map_of m k = Some v \<Longrightarrow> (k, v) \<in> set m"
  by (rule map_of_SomeD)

lemma hm_ok_map_of: "hm_ok m \<Longrightarrow> (k, v) \<in> set m \<longleftrightarrow> map_of m k = Some v"
  by (simp add: hm_ok_def)

lemma bm_ok_map_of: "bm_ok m \<Longrightarrow> (k, v) \<in> set m \<longleftrightarrow> map_of m k = Some v"
  by (simp add: bm_ok_distinct)

section \<open>Transition systems with an invariant\<close>

text \<open>
  The contract every stateful component states about itself: an invariant of its start states that
  every step keeps. What follows from it for whole executions is proved here once.
\<close>

locale invariant_system =
  fixes init :: "'s \<Rightarrow> bool"
    and step :: "'s \<Rightarrow> 's \<Rightarrow> bool"
    and inv :: "'s \<Rightarrow> bool"
  assumes inv_init: "init s \<Longrightarrow> inv s"
    and inv_step: "step s t \<Longrightarrow> inv s \<Longrightarrow> inv t"
begin

lemma inv_steps: "rtranclp step s t \<Longrightarrow> inv s \<Longrightarrow> inv t"
  by (induction rule: rtranclp_induct) (auto intro: inv_step)

lemma inv_reachable: "init s \<Longrightarrow> rtranclp step s t \<Longrightarrow> inv t"
  by (blast intro: inv_init inv_steps)

end

text \<open>A quantity that no step from a state of the invariant lets fall, such as a phase or an epoch.\<close>

locale monotone_system = invariant_system +
  fixes rank :: "'s \<Rightarrow> 'r::preorder"
  assumes rank_step: "step s t \<Longrightarrow> inv s \<Longrightarrow> rank s \<le> rank t"
begin

lemma rank_steps: "rtranclp step s t \<Longrightarrow> inv s \<Longrightarrow> rank s \<le> rank t"
proof (induction rule: rtranclp_induct)
  case base
  show ?case by simp
next
  case (step t u)
  then have "inv t" by (blast intro: inv_steps)
  with step show ?case by (blast intro: rank_step order_trans)
qed

end

text \<open>An enumeration with a wire name for each of its values: what is written can be read back.\<close>

locale wire_enum =
  fixes as_text :: "'e \<Rightarrow> string"
    and of_text :: "string \<Rightarrow> 'e option"
  assumes of_as_text: "of_text (as_text e) = Some e"
    and as_of_text: "of_text s = Some e \<Longrightarrow> as_text e = s"
begin

lemma as_text_inject: "as_text a = as_text b \<longleftrightarrow> a = b"
  by (metis of_as_text option.inject)

lemma of_text_iff: "of_text s = Some e \<longleftrightarrow> s = as_text e"
  by (metis of_as_text as_of_text)

end

end
