(* ===== verification/Net_Failure.thy ===== *)
theory Net_Failure
  imports Prelude
begin

text \<open>
  The first half of \<^verbatim>\<open>crates/rovai-core/src/network_recovery.rs\<close>: which failures of an agent run
  count as a transient loss of the network (\<open>classify_network_failure\<close> with its lists of
  signals), the names of the categories, and the back-off delay of a recovery attempt.
\<close>

section \<open>Categories and their names\<close>

datatype NetworkFailureCategory =
  ConnectionFailed | ConnectionReset | DnsTemporaryFailure | NetworkTimeout

fun category_as_str :: "NetworkFailureCategory \<Rightarrow> string" where
  "category_as_str ConnectionFailed = ''connection_failed''"
| "category_as_str ConnectionReset = ''connection_reset''"
| "category_as_str DnsTemporaryFailure = ''dns_temporary_failure''"
| "category_as_str NetworkTimeout = ''network_timeout''"

definition category_parse :: "string \<Rightarrow> NetworkFailureCategory option" where
  "category_parse value =
     (if value = ''connection_failed'' then Some ConnectionFailed
      else if value = ''connection_reset'' then Some ConnectionReset
      else if value = ''dns_temporary_failure'' then Some DnsTemporaryFailure
      else if value = ''network_timeout'' then Some NetworkTimeout
      else None)"

interpretation category: wire_enum category_as_str category_parse
proof
  show "category_parse (category_as_str e) = Some e" for e
    by (cases e) (simp_all add: category_parse_def)
  show "category_parse s = Some e \<Longrightarrow> category_as_str e = s" for s e
    by (auto simp: category_parse_def split: if_splits)
qed

section \<open>Back-off\<close>

definition NETWORK_RECOVERY_DELAYS_SECONDS :: "nat list" where
  "NETWORK_RECOVERY_DELAYS_SECONDS = [1, 2, 3, 5, 10, 15, 30]"

definition network_recovery_delay :: "u32 \<Rightarrow> duration" where
  "network_recovery_delay attempt =
     (let index = unat (saturating_sub attempt 1)
      in from_secs (NETWORK_RECOVERY_DELAYS_SECONDS ! min index (length NETWORK_RECOVERY_DELAYS_SECONDS - 1)))"

lemma sorted_delays: "sorted NETWORK_RECOVERY_DELAYS_SECONDS"
  by (simp add: NETWORK_RECOVERY_DELAYS_SECONDS_def)

lemma length_delays: "length NETWORK_RECOVERY_DELAYS_SECONDS = 7"
  by (simp add: NETWORK_RECOVERY_DELAYS_SECONDS_def)

lemma delay_at:
  assumes "i \<le> j" and "j < 7"
  shows "NETWORK_RECOVERY_DELAYS_SECONDS ! i \<le> NETWORK_RECOVERY_DELAYS_SECONDS ! j"
  using assms sorted_delays by (simp add: sorted_nth_mono length_delays)

lemma network_recovery_delay_mono:
  "a \<le> b \<Longrightarrow> network_recovery_delay a \<le> network_recovery_delay b"
  by (simp add: network_recovery_delay_def Let_def unat_saturating_sub from_secs_def length_delays
      word_le_nat_alt delay_at diff_le_mono min.coboundedI1)

lemma network_recovery_delay_bounds:
  "from_secs 1 \<le> network_recovery_delay a \<and> network_recovery_delay a \<le> from_secs 30"
proof -
  let ?i = "min (unat (saturating_sub a 1)) 6"
  have "NETWORK_RECOVERY_DELAYS_SECONDS ! 0 \<le> NETWORK_RECOVERY_DELAYS_SECONDS ! ?i"
    and "NETWORK_RECOVERY_DELAYS_SECONDS ! ?i \<le> NETWORK_RECOVERY_DELAYS_SECONDS ! 6"
    by (rule delay_at, simp, simp)+
  then show ?thesis
    by (simp add: network_recovery_delay_def Let_def from_secs_def length_delays)
       (simp add: NETWORK_RECOVERY_DELAYS_SECONDS_def)
qed

section \<open>Classification\<close>

definition is_explicitly_non_network_failure_code :: "string \<Rightarrow> bool" where
  "is_explicitly_non_network_failure_code code =
     List.member
       [''runtime_authentication_required'', ''runtime_rate_limited'', ''runtime_server_overloaded'',
        ''runtime_quota_exceeded'', ''runtime_model_unavailable'', ''runtime_permission_denied'',
        ''runtime_cancelled'', ''runtime_configuration_invalid''] code"

definition contains_http_status :: "string \<Rightarrow> nat list \<Rightarrow> bool" where
  "contains_http_status value statuses =
     list_ex (\<lambda>status.
       list_ex (str_contains value)
         [''http '' @ dec status, ''http status '' @ dec status, ''status '' @ dec status,
          ''status code '' @ dec status, ''status code: '' @ dec status]) statuses"

definition contains_http_server_status :: "string \<Rightarrow> bool" where
  "contains_http_server_status value = contains_http_status value [500..<600]"

definition non_network_signals :: "string list" where
  "non_network_signals =
     [''not logged in'', ''not authenticated'', ''authentication failed'', ''unauthorized'',
      ''forbidden'', ''invalid api key'', ''api key is invalid'', ''token expired'',
      ''permission denied'', ''access denied'', ''proxy authentication required'', ''rate limit'',
      ''too many requests'', ''http 429'', ''status 429'', ''quota exceeded'',
      ''insufficient quota'', ''insufficient credits'', ''billing limit'', ''server overloaded'',
      ''at capacity'', ''invalid configuration'', ''configuration error'',
      ''certificate verify failed'', ''invalid certificate'', ''cancelled by user'',
      ''canceled by user'']"

definition contains_explicitly_non_network_signal :: "string \<Rightarrow> bool" where
  "contains_explicitly_non_network_signal value =
     (contains_any value non_network_signals
      \<or> contains_http_status value [401, 403, 407, 429]
      \<or> contains_http_server_status value)"

definition structured_category :: "string \<Rightarrow> NetworkFailureCategory option" where
  "structured_category code =
     (if code \<in> {''econnrefused'', ''enetdown'', ''enetunreach'', ''ehostunreach''}
      then Some ConnectionFailed
      else if code \<in> {''econnreset'', ''econnaborted''} then Some ConnectionReset
      else if code \<in> {''eai_again'', ''enotfound'', ''dns_not_found'', ''dns_temporary_failure''}
      then Some DnsTemporaryFailure
      else if code \<in> {''etimedout'', ''connect_timeout'', ''network_timeout''}
      then Some NetworkTimeout
      else None)"

definition text_category :: "string \<Rightarrow> NetworkFailureCategory option" where
  "text_category lower =
     (if lower = [] then None
      else if contains_any lower
        [''econnreset'', ''econnaborted'', ''connection reset by peer'', ''connection was reset'',
         ''socket hang up'']
      then Some ConnectionReset
      else if contains_any lower
        [''eai_again'', ''enotfound'', ''temporary failure in name resolution'',
         ''name or service not known'', ''could not resolve host'', ''dns lookup failed'',
         ''failed to lookup address'', ''nodename nor servname provided'']
      then Some DnsTemporaryFailure
      else if contains_any lower
        [''econnrefused'', ''enetdown'', ''enetunreach'', ''ehostunreach'', ''connection refused'',
         ''failed to connect to'', ''network is unreachable'', ''network unreachable'',
         ''no route to host'', ''tcp connect error'', ''client error (connect)'']
      then Some ConnectionFailed
      else if contains_any lower [''etimedout'', ''connect timeout'', ''connection timed out'']
        \<or> (str_contains lower ''timed out''
            \<and> contains_any lower [''network'', ''socket'', ''dns'', ''connect''])
      then Some NetworkTimeout
      else None)"

definition unwrap_or_default :: "string option \<Rightarrow> string" where
  "unwrap_or_default s = (case s of None \<Rightarrow> [] | Some t \<Rightarrow> t)"

definition classify_network_failure ::
    "string option \<Rightarrow> string option \<Rightarrow> string option \<Rightarrow> NetworkFailureCategory option" where
  "classify_network_failure structured_code public_failure_code detail =
     (if (case public_failure_code of None \<Rightarrow> False
          | Some code \<Rightarrow> is_explicitly_non_network_failure_code code)
      then None
      else
        let lower = to_ascii_lowercase (unwrap_or_default detail)
        in if contains_explicitly_non_network_signal lower then None
           else
             let code = to_ascii_lowercase (trim (unwrap_or_default structured_code))
             in if code \<noteq> [] then structured_category code else text_category lower)"

lemma http_status_denied:
  assumes "n \<in> set [401, 403, 407, 429] \<or> 500 \<le> n \<and> n < 600"
    and "str_contains lower (''http '' @ dec n)"
  shows "contains_explicitly_non_network_signal lower"
proof -
  have "contains_http_status lower ns" if "n \<in> set ns" for ns
    using that assms(2) by (auto simp: contains_http_status_def list_ex_iff)
  moreover have "n \<in> set [401, 403, 407, 429] \<or> n \<in> set [500..<600]"
    using assms(1) by (simp only: set_upt atLeastLessThan_iff)
  ultimately show ?thesis
    unfolding contains_explicitly_non_network_signal_def contains_http_server_status_def by blast
qed

text \<open>
  A failure is called a network failure only if nothing says otherwise: the public failure
  code is not one of those that name another cause, the detail shows none of the signals of
  another cause, and when a structured code is present the answer is the one its table gives,
  whatever the detail says.
\<close>

theorem classify_network_failure_sound:
  assumes "classify_network_failure structured_code public_failure_code detail = Some category"
  shows "(\<forall>code. public_failure_code = Some code \<longrightarrow> \<not> is_explicitly_non_network_failure_code code)
    \<and> \<not> contains_explicitly_non_network_signal (to_ascii_lowercase (unwrap_or_default detail))
    \<and> (let code = to_ascii_lowercase (trim (unwrap_or_default structured_code))
       in (if code \<noteq> [] then structured_category code = Some category
           else text_category (to_ascii_lowercase (unwrap_or_default detail)) = Some category))"
  using assms
  by (auto simp: classify_network_failure_def Let_def split: if_splits option.splits)

theorem classify_network_failure_sound_witness:
  "structured_category (to_ascii_lowercase (trim '' ECONNRESET'')) = Some ConnectionReset"
proof -
  have "classify_network_failure (Some '' ECONNRESET'') None (Some ''timeout'') = Some ConnectionReset"
    and ne: "to_ascii_lowercase (trim '' ECONNRESET'') \<noteq> []"
    by code_simp+
  from classify_network_failure_sound [OF this(1)] ne show ?thesis
    by (simp add: Let_def unwrap_or_default_def)
qed

end
