(* ===== verification/Net_Recovery.thy ===== *)
theory Net_Recovery
  imports Net_Failure
begin

text \<open>
  The second half of \<^verbatim>\<open>crates/rovai-core/src/network_recovery.rs\<close>: the queue that holds the agent
  runs waiting for the network to come back. Each operation of \<open>NetworkRecoveryQueue\<close> is one
  definition; \<open>queue_step\<close> collects those that change the queue, and the theorems speak about
  one step or, through \<open>invariant_system\<close>, about whole executions.
\<close>

section \<open>State\<close>

record NetworkRecoveryRegistration =
  agent_run_id :: string
  camp_id :: string
  camp_turn_id :: string
  execution_epoch :: int
  adapter_kind :: string
  category :: NetworkFailureCategory
  source :: string

datatype NetworkRecoveryAttempt =
  NetworkRecoveryAttempt (attempt_registration: NetworkRecoveryRegistration) (attempt_number: u32)

datatype NetworkRecoveryRegistrationOutcome = Scheduled u32 duration | Duplicate | Stale

record NetworkRecoveryEntry =
  registration :: NetworkRecoveryRegistration
  attempt :: u32
  due_at :: instant
  in_flight :: bool
  wake_consumed :: bool

record NetworkRecoveryQueue =
  entries :: "(string \<times> NetworkRecoveryEntry) list"

definition empty_queue :: NetworkRecoveryQueue where
  "empty_queue = \<lparr>entries = []\<rparr>"

abbreviation lookup :: "NetworkRecoveryQueue \<Rightarrow> string \<Rightarrow> NetworkRecoveryEntry option" where
  "lookup q run \<equiv> map_of (entries q) run"

abbreviation epoch_of :: "NetworkRecoveryEntry \<Rightarrow> int" where
  "epoch_of e \<equiv> execution_epoch (registration e)"

definition attempt_of :: "NetworkRecoveryEntry \<Rightarrow> NetworkRecoveryAttempt" where
  "attempt_of e = NetworkRecoveryAttempt (registration e) (attempt e)"

section \<open>Operations\<close>

definition register ::
    "NetworkRecoveryQueue \<Rightarrow> NetworkRecoveryRegistration \<Rightarrow> instant \<Rightarrow>
     NetworkRecoveryQueue \<times> NetworkRecoveryRegistrationOutcome" where
  "register q r attempt_completed_at =
     (let insert_with = (\<lambda>att wake.
        (let delay = network_recovery_delay att
         in (q\<lparr>entries := bm_insert (agent_run_id r)
                \<lparr>registration = r, attempt = att, due_at = attempt_completed_at + delay,
                 in_flight = False, wake_consumed = wake\<rparr> (entries q)\<rparr>,
             Scheduled att delay)))
      in case map_of (entries q) (agent_run_id r) of
           Some entry \<Rightarrow>
             if execution_epoch (registration entry) > execution_epoch r then (q, Stale)
             else if execution_epoch (registration entry) = execution_epoch r then (q, Duplicate)
             else insert_with (saturating_add (attempt entry) 1) (wake_consumed entry)
         | None \<Rightarrow> insert_with 1 False)"

definition next_deadline :: "NetworkRecoveryQueue \<Rightarrow> instant option" where
  "next_deadline q =
     (case map due_at (filter (\<lambda>e. \<not> in_flight e) (map snd (entries q))) of
        [] \<Rightarrow> None
      | d # ds \<Rightarrow> Some (fold min ds d))"

definition is_due :: "instant \<Rightarrow> NetworkRecoveryEntry \<Rightarrow> bool" where
  "is_due now e = (\<not> in_flight e \<and> due_at e \<le> now)"

definition take_due ::
    "NetworkRecoveryQueue \<Rightarrow> instant \<Rightarrow> NetworkRecoveryQueue \<times> NetworkRecoveryAttempt list" where
  "take_due q now =
     (q\<lparr>entries := map_values (\<lambda>e. if is_due now e then e\<lparr>in_flight := True\<rparr> else e) (entries q)\<rparr>,
      sort_key (\<lambda>a. agent_run_id (attempt_registration a))
        (map attempt_of (filter (is_due now) (map snd (entries q)))))"

definition wakes :: "instant \<Rightarrow> NetworkRecoveryEntry \<Rightarrow> bool" where
  "wakes now e = (\<not> in_flight e \<and> \<not> wake_consumed e \<and> due_at e > now)"

definition wake_waiting :: "NetworkRecoveryQueue \<Rightarrow> instant \<Rightarrow> NetworkRecoveryQueue \<times> nat" where
  "wake_waiting q now =
     (q\<lparr>entries := map_values
          (\<lambda>e. if wakes now e then e\<lparr>due_at := now, wake_consumed := True\<rparr> else e) (entries q)\<rparr>,
      length (filter (wakes now) (map snd (entries q))))"

definition contains :: "NetworkRecoveryQueue \<Rightarrow> string \<Rightarrow> int \<Rightarrow> bool" where
  "contains q run epoch =
     (case map_of (entries q) run of None \<Rightarrow> False | Some entry \<Rightarrow> epoch_of entry \<le> epoch)"

definition remove_entry ::
    "NetworkRecoveryQueue \<Rightarrow> string \<Rightarrow> NetworkRecoveryQueue \<times> NetworkRecoveryAttempt option" where
  "remove_entry q run =
     (q\<lparr>entries := bm_remove run (entries q)\<rparr>, map_option attempt_of (map_of (entries q) run))"

definition complete ::
    "NetworkRecoveryQueue \<Rightarrow> string \<Rightarrow> int \<Rightarrow> NetworkRecoveryQueue \<times> NetworkRecoveryAttempt option" where
  "complete q run through_execution_epoch =
     (if \<not> contains q run through_execution_epoch then (q, None) else remove_entry q run)"

definition complete_after_terminal ::
    "NetworkRecoveryQueue \<Rightarrow> string \<Rightarrow> int \<Rightarrow> NetworkRecoveryQueue \<times> NetworkRecoveryAttempt option" where
  "complete_after_terminal q run terminal_execution_epoch =
     (case map_of (entries q) run of
        None \<Rightarrow> (q, None)
      | Some entry \<Rightarrow>
          if epoch_of entry \<ge> terminal_execution_epoch then (q, None) else remove_entry q run)"

definition defer_check ::
    "NetworkRecoveryQueue \<Rightarrow> string \<Rightarrow> int \<Rightarrow> instant \<Rightarrow>
     NetworkRecoveryQueue \<times> (NetworkRecoveryAttempt \<times> duration) option" where
  "defer_check q run epoch completed_at =
     (case map_of (entries q) run of
        None \<Rightarrow> (q, None)
      | Some entry \<Rightarrow>
          if epoch_of entry \<noteq> epoch \<or> \<not> in_flight entry then (q, None)
          else
            (let delay = network_recovery_delay (attempt entry);
                 entry' = entry\<lparr>due_at := completed_at + delay, in_flight := False\<rparr>
             in (q\<lparr>entries := bm_insert run entry' (entries q)\<rparr>, Some (attempt_of entry', delay))))"

definition drain :: "NetworkRecoveryQueue \<Rightarrow> NetworkRecoveryQueue \<times> NetworkRecoveryAttempt list" where
  "drain q =
     (empty_queue,
      sort_key (\<lambda>a. agent_run_id (attempt_registration a)) (map attempt_of (map snd (entries q))))"

definition queue_len :: "NetworkRecoveryQueue \<Rightarrow> nat" where
  "queue_len q = length (entries q)"

definition queue_is_empty :: "NetworkRecoveryQueue \<Rightarrow> bool" where
  "queue_is_empty q = (entries q = [])"

datatype queue_op =
  Register NetworkRecoveryRegistration instant
| TakeDue instant
| WakeWaiting instant
| Complete string int
| CompleteAfterTerminal string int
| DeferCheck string int instant
| Drain

fun queue_step :: "NetworkRecoveryQueue \<Rightarrow> queue_op \<Rightarrow> NetworkRecoveryQueue" where
  "queue_step q (Register r t) = fst (register q r t)"
| "queue_step q (TakeDue now) = fst (take_due q now)"
| "queue_step q (WakeWaiting now) = fst (wake_waiting q now)"
| "queue_step q (Complete run epoch) = fst (complete q run epoch)"
| "queue_step q (CompleteAfterTerminal run epoch) = fst (complete_after_terminal q run epoch)"
| "queue_step q (DeferCheck run epoch t) = fst (defer_check q run epoch t)"
| "queue_step q Drain = fst (drain q)"

fun queue_run :: "NetworkRecoveryQueue \<Rightarrow> queue_op list \<Rightarrow> NetworkRecoveryQueue" where
  "queue_run q [] = q"
| "queue_run q (op # ops) = queue_run (queue_step q op) ops"

section \<open>Invariant\<close>

definition entry_ok :: "string \<Rightarrow> NetworkRecoveryEntry \<Rightarrow> bool" where
  "entry_ok run e = (agent_run_id (registration e) = run \<and> attempt e \<noteq> 0)"

definition queue_ok :: "NetworkRecoveryQueue \<Rightarrow> bool" where
  "queue_ok q = (bm_ok (entries q) \<and> (\<forall>run e. map_of (entries q) run = Some e \<longrightarrow> entry_ok run e))"

lemmas queue_ops [step_simps] =
  register_def take_due_def wake_waiting_def complete_def complete_after_terminal_def
  defer_check_def drain_def remove_entry_def empty_queue_def

lemma saturating_add_1_neq_0: "x \<noteq> 0 \<Longrightarrow> saturating_add x 1 \<noteq> 0" for x :: "'a::len word"
  using saturating_add_ge [of x 1] by (metis word_le_0_iff)

lemma empty_queue_ok: "queue_ok empty_queue"
  by (simp add: queue_ok_def empty_queue_def bm.ok_empty)

lemma queue_step_ok: "queue_ok q \<Longrightarrow> queue_ok (queue_step q op)"
proof (cases op)
  case (Register r t)
  assume "queue_ok q"
  then show ?thesis
    unfolding Register
    by (auto simp: queue_ok_def entry_ok_def register_def Let_def bm.ok_put bm.get_put
        saturating_add_1_neq_0 split: option.splits if_splits)
qed (auto simp: queue_ok_def entry_ok_def step_simps Let_def bm.ok_put bm.get_put bm.ok_del
    bm.get_del bm.ok_empty contains_def split: option.splits if_splits)

interpretation queue: invariant_system "\<lambda>q. q = empty_queue" "\<lambda>q q'. \<exists>op. q' = queue_step q op" queue_ok
  by unfold_locales (auto intro: empty_queue_ok queue_step_ok)

lemma queue_run_ok: "queue_ok q \<Longrightarrow> queue_ok (queue_run q ops)"
  by (induction ops arbitrary: q) (simp_all add: queue_step_ok)

section \<open>One step, seen from one run\<close>

lemma lookup_queue_ok: "queue_ok q \<Longrightarrow> lookup q run = Some e \<Longrightarrow> agent_run_id (registration e) = run"
  by (simp add: queue_ok_def entry_ok_def)

lemma lookup_register:
  "queue_ok q \<Longrightarrow> agent_run_id r \<noteq> run \<Longrightarrow> lookup (fst (register q r t)) run = lookup q run"
  by (auto simp: register_def Let_def bm.get_put queue_ok_def split: option.splits)

lemma lookup_register_same:
  assumes "queue_ok q" and "lookup q (agent_run_id r) = Some e"
  shows "lookup (fst (register q r t)) (agent_run_id r) =
    (if execution_epoch r \<le> epoch_of e then Some e
     else Some \<lparr>registration = r, attempt = saturating_add (attempt e) 1,
                due_at = t + network_recovery_delay (saturating_add (attempt e) 1),
                in_flight = False, wake_consumed = wake_consumed e\<rparr>)"
  using assms by (auto simp: register_def Let_def bm.get_put queue_ok_def)

lemma lookup_take_due:
  "lookup (fst (take_due q now)) run =
     map_option (\<lambda>e. if is_due now e then e\<lparr>in_flight := True\<rparr> else e) (lookup q run)"
  by (simp add: take_due_def)

lemma lookup_wake_waiting:
  "lookup (fst (wake_waiting q now)) run =
     map_option (\<lambda>e. if wakes now e then e\<lparr>due_at := now, wake_consumed := True\<rparr> else e) (lookup q run)"
  by (simp add: wake_waiting_def)

lemma lookup_remove_entry:
  "queue_ok q \<Longrightarrow> lookup (fst (remove_entry q run')) run = (if run = run' then None else lookup q run)"
  by (simp add: remove_entry_def bm.get_del queue_ok_def)

lemma lookup_complete:
  "queue_ok q \<Longrightarrow> lookup (fst (complete q run' epoch)) run =
     (if run = run' \<and> contains q run epoch then None else lookup q run)"
  by (auto simp: complete_def lookup_remove_entry)

lemma lookup_complete_after_terminal:
  "queue_ok q \<Longrightarrow> lookup (fst (complete_after_terminal q run' epoch)) run =
     (if run = run' \<and> (\<forall>e. lookup q run = Some e \<longrightarrow> epoch_of e < epoch) then None else lookup q run)"
  by (auto simp: complete_after_terminal_def lookup_remove_entry split: option.splits)

lemma lookup_defer_check:
  "queue_ok q \<Longrightarrow> lookup (fst (defer_check q run' epoch t)) run =
     (if run = run' then
        map_option (\<lambda>e. if epoch_of e = epoch \<and> in_flight e
                        then e\<lparr>due_at := t + network_recovery_delay (attempt e), in_flight := False\<rparr>
                        else e) (lookup q run)
      else lookup q run)"
  by (auto simp: defer_check_def Let_def bm.get_put queue_ok_def split: option.splits)

lemma lookup_drain: "lookup (fst (drain q)) run = None"
  by (simp add: drain_def empty_queue_def)

lemmas lookup_ops = lookup_take_due lookup_wake_waiting lookup_complete
  lookup_complete_after_terminal lookup_defer_check lookup_drain

text \<open>
  How an entry may change while its run stays in the queue: \<open>later e e'\<close> says that the epoch and
  the attempt count move together and only forward, and that a spent wake-up stays spent.
\<close>

definition later :: "NetworkRecoveryEntry \<Rightarrow> NetworkRecoveryEntry \<Rightarrow> bool" where
  "later e e' =
     (epoch_of e \<le> epoch_of e'
      \<and> (epoch_of e = epoch_of e' \<longrightarrow> attempt e' = attempt e)
      \<and> (epoch_of e < epoch_of e' \<longrightarrow> attempt e' = saturating_add (attempt e) 1)
      \<and> (wake_consumed e \<longrightarrow> wake_consumed e'))"

lemma later_refl [simp]: "later e e"
  by (simp add: later_def)

lemma later_updates [simp]:
  "later e (e\<lparr>in_flight := b\<rparr>)"
  "later e (e\<lparr>due_at := t, in_flight := b\<rparr>)"
  "later e (e\<lparr>due_at := t, wake_consumed := True\<rparr>)"
  by (simp_all add: later_def)

lemma later_register:
  assumes "queue_ok q" and "lookup q run = Some e" and "lookup (fst (register q r t)) run = Some e'"
  shows "later e e'"
proof (cases "agent_run_id r = run")
  case True
  then show ?thesis using assms by (auto simp: lookup_register_same later_def split: if_splits)
next
  case False
  then show ?thesis using assms by (simp add: lookup_register)
qed

text \<open>
  C2: the epoch fence. Whatever operation runs next, an entry that stays in the queue keeps its
  epoch and its attempt number, or is replaced by the registration of a strictly newer epoch with
  the next attempt number; a spent wake-up is never restored by it.
\<close>

theorem queue_step_later:
  assumes "queue_ok q" and "lookup q run = Some e" and "lookup (queue_step q op) run = Some e'"
  shows "later e e'"
proof (cases op)
  case (Register r t)
  then show ?thesis using assms later_register by simp
next
  case (TakeDue now)
  then show ?thesis using assms by (auto simp: lookup_take_due split: if_splits)
next
  case (WakeWaiting now)
  then show ?thesis using assms by (auto simp: lookup_wake_waiting split: if_splits)
next
  case (Complete run' epoch)
  then show ?thesis using assms by (simp add: lookup_complete split: if_splits)
next
  case (CompleteAfterTerminal run' epoch)
  then show ?thesis using assms by (simp add: lookup_complete_after_terminal split: if_splits)
next
  case (DeferCheck run' epoch t)
  then show ?thesis using assms by (auto simp: lookup_defer_check split: if_splits)
next
  case Drain
  then show ?thesis using assms by (simp add: lookup_drain)
qed

definition sample_registration :: "int \<Rightarrow> NetworkRecoveryRegistration" where
  "sample_registration epoch =
     \<lparr>agent_run_id = ''run-1'', camp_id = ''camp'', camp_turn_id = ''turn'', execution_epoch = epoch,
      adapter_kind = ''codex-cli'', category = ConnectionReset, source = ''transport''\<rparr>"

definition sample_queue :: NetworkRecoveryQueue where
  "sample_queue = queue_step empty_queue (Register (sample_registration 1) 0)"

lemma sample_queue_ok: "queue_ok sample_queue"
  by (simp only: sample_queue_def queue_step_ok empty_queue_ok)

lemmas sample_simps = sample_queue_def sample_registration_def empty_queue_def register_def
  bm_insert_def Let_def network_recovery_delay_def NETWORK_RECOVERY_DELAYS_SECONDS_def
  from_secs_def saturating_sub_def saturating_add_def

theorem queue_step_later_witness:
  "\<exists>e e'. lookup sample_queue ''run-1'' = Some e
     \<and> lookup (queue_step sample_queue (Register (sample_registration 2) 5)) ''run-1'' = Some e'
     \<and> attempt e = 1 \<and> attempt e' = 2 \<and> later e e'"
proof -
  obtain e where e: "lookup sample_queue ''run-1'' = Some e" and a: "attempt e = 1"
    by (simp add: sample_simps)
  obtain e' where e': "lookup (queue_step sample_queue (Register (sample_registration 2) 5)) ''run-1'' = Some e'"
    and a': "attempt e' = 2"
    by (simp add: sample_simps)
  from queue_step_later [OF sample_queue_ok e e'] show ?thesis using e e' a a' by blast
qed

section \<open>At most one wake-up per failure cycle\<close>

text \<open>A run is tracked through a list of operations if no state on the way has dropped it.\<close>

fun tracked :: "string \<Rightarrow> NetworkRecoveryQueue \<Rightarrow> queue_op list \<Rightarrow> bool" where
  "tracked run q [] = (lookup q run \<noteq> None)"
| "tracked run q (op # ops) = (lookup q run \<noteq> None \<and> tracked run (queue_step q op) ops)"

text \<open>How often a connectivity hint brings the run's next check forward.\<close>

fun wake_ups :: "string \<Rightarrow> NetworkRecoveryQueue \<Rightarrow> queue_op list \<Rightarrow> nat" where
  "wake_ups run q [] = 0"
| "wake_ups run q (op # ops) =
     (case (op, lookup q run) of
        (WakeWaiting now, Some e) \<Rightarrow> (if wakes now e then 1 else 0)
      | _ \<Rightarrow> 0) + wake_ups run (queue_step q op) ops"

lemma wake_ups_bound:
  "queue_ok q \<Longrightarrow> tracked run q ops \<Longrightarrow> lookup q run = Some e \<Longrightarrow>
   wake_ups run q ops \<le> (if wake_consumed e then 0 else 1)"
proof (induction ops arbitrary: q e)
  case Nil
  then show ?case by simp
next
  case (Cons op ops)
  from Cons.prems(2) obtain e' where e': "lookup (queue_step q op) run = Some e'"
    by (cases ops) auto
  from Cons.prems e' have later: "later e e'" by (blast intro: queue_step_later)
  have rest: "wake_ups run (queue_step q op) ops \<le> (if wake_consumed e' then 0 else 1)"
    by (rule Cons.IH [OF queue_step_ok _ e']) (use Cons.prems in simp_all)
  show ?case
  proof (cases op)
    case (WakeWaiting now)
    then show ?thesis using rest e' Cons.prems later
      by (auto simp: lookup_wake_waiting later_def wakes_def split: if_splits)
  qed (use rest later Cons.prems in \<open>auto simp: later_def split: if_splits\<close>)
qed

text \<open>
  C1: connectivity hints cannot bypass the back-off. From any sound queue, however many hints and
  other operations follow, a run that stays in the queue is woken early at most once, and not at
  all if its wake-up was already spent.
\<close>

theorem woken_at_most_once:
  assumes "queue_ok q" and "tracked run q ops" and "lookup q run = Some e"
  shows "wake_ups run q ops \<le> (if wake_consumed e then 0 else 1)"
  using assms by (rule wake_ups_bound)

definition hint_ops :: "queue_op list" where
  "hint_ops = [WakeWaiting 1, WakeWaiting 2, TakeDue 3, Register (sample_registration 2) 5, WakeWaiting 6]"

theorem woken_at_most_once_witness:
  "\<exists>e. lookup sample_queue ''run-1'' = Some e \<and> \<not> wake_consumed e
     \<and> tracked ''run-1'' sample_queue hint_ops \<and> wake_ups ''run-1'' sample_queue hint_ops \<le> 1"
proof -
  obtain e where e: "lookup sample_queue ''run-1'' = Some e" and w: "\<not> wake_consumed e"
    by (simp add: sample_simps)
  have t: "tracked ''run-1'' sample_queue hint_ops"
    by (simp add: hint_ops_def sample_simps wake_waiting_def take_due_def map_values_def
        wakes_def is_due_def)
  from woken_at_most_once [OF sample_queue_ok t e] show ?thesis using e w t by auto
qed

section \<open>Taking the due checks\<close>

lemma fold_min_Min: "fold min xs (x :: 'a::linorder) = Min (set (x # xs))"
  by (rule Min.set_eq_fold [symmetric])

lemma next_deadline_Some:
  "next_deadline q = Some d \<longleftrightarrow>
     (\<exists>e \<in> set (map snd (entries q)). \<not> in_flight e \<and> due_at e = d)
     \<and> (\<forall>e \<in> set (map snd (entries q)). \<not> in_flight e \<longrightarrow> d \<le> due_at e)"
proof -
  define ds where "ds = map due_at (filter (\<lambda>e. \<not> in_flight e) (map snd (entries q)))"
  have "next_deadline q = (if ds = [] then None else Some (Min (set ds)))"
    by (cases ds) (auto simp: next_deadline_def ds_def [symmetric] fold_min_Min)
  moreover have "ds \<noteq> [] \<and> Min (set ds) = d \<longleftrightarrow> d \<in> set ds \<and> (\<forall>d' \<in> set ds. d \<le> d')"
    by (auto intro: Min_eqI)
  moreover have "d \<in> set ds \<longleftrightarrow> (\<exists>e \<in> set (map snd (entries q)). \<not> in_flight e \<and> due_at e = d)"
    by (auto simp: ds_def)
  moreover have "(\<forall>d' \<in> set ds. d \<le> d') \<longleftrightarrow> (\<forall>e \<in> set (map snd (entries q)). \<not> in_flight e \<longrightarrow> d \<le> due_at e)"
    by (auto simp: ds_def)
  ultimately show ?thesis by auto
qed

lemma set_entries:
  "queue_ok q \<Longrightarrow> e \<in> set (map snd (entries q)) \<longleftrightarrow> (\<exists>run. lookup q run = Some e)"
  by (force simp: queue_ok_def bm_ok_map_of [symmetric])

lemma take_due_ids:
  assumes "queue_ok q"
  shows "map (\<lambda>a. agent_run_id (attempt_registration a)) (snd (take_due q now)) =
    map fst (filter (\<lambda>(k, e). is_due now e) (entries q))"
proof -
  let ?id = "\<lambda>a. agent_run_id (attempt_registration a)"
  have key: "?id (attempt_of e) = k" if "(k, e) \<in> set (entries q)" for k e
    using that assms by (auto simp: queue_ok_def entry_ok_def bm_ok_map_of attempt_of_def)
  have ids: "map ?id (map attempt_of (filter (is_due now) (map snd m))) =
      map fst (filter (\<lambda>(k, e). is_due now e) m)" if "set m \<subseteq> set (entries q)" for m
    using that by (induction m) (auto simp: key)
  have "sorted (map fst (entries q))"
    using assms by (simp add: queue_ok_def bm_ok_def strict_sorted_iff)
  then have "sorted (map fst (filter (\<lambda>(k, e). is_due now e) (entries q)))"
    by (rule sorted_filter)
  then show ?thesis
    by (simp add: take_due_def sort_key_id_if_sorted ids del: map_map)
qed

lemma set_take_due:
  assumes "queue_ok q"
  shows "set (snd (take_due q now)) = {attempt_of e | run e. lookup q run = Some e \<and> is_due now e}"
  using set_entries [OF assms] by (auto simp: take_due_def image_iff)

text \<open>
  \<open>take_due\<close> hands out exactly the attempts that are due, once each and in the order of
  their run ids, and marks them in flight: asked again at the same moment or earlier it hands out
  nothing, so no run has two workers.
\<close>

theorem take_due_exact:
  assumes "queue_ok q"
  shows "set (snd (take_due q now)) = {attempt_of e | run e. lookup q run = Some e \<and> is_due now e}
    \<and> sorted_wrt (<) (map (\<lambda>a. agent_run_id (attempt_registration a)) (snd (take_due q now)))
    \<and> (\<forall>now'\<le>now. snd (take_due (fst (take_due q now)) now') = [])"
proof (intro conjI allI impI)
  show "set (snd (take_due q now)) = {attempt_of e | run e. lookup q run = Some e \<and> is_due now e}"
    by (rule set_take_due [OF assms])
  have "sorted_wrt (<) (map fst (entries q))" using assms by (simp add: queue_ok_def bm_ok_def)
  then have "sorted_wrt (<) (map fst (filter (\<lambda>(k, e). is_due now e) (entries q)))"
    by (simp add: sorted_wrt_map sorted_wrt_filter)
  then show "sorted_wrt (<) (map (\<lambda>a. agent_run_id (attempt_registration a)) (snd (take_due q now)))"
    by (simp add: take_due_ids [OF assms])
  fix now' assume "now' \<le> now"
  then have "filter (is_due now') (map snd (entries (fst (take_due q now)))) = []"
    by (auto simp: take_due_def map_values_def filter_empty_conv is_due_def split: if_splits)
  then show "snd (take_due (fst (take_due q now)) now') = []"
    unfolding take_due_def [of "fst (take_due q now)"] by simp
qed

theorem take_due_exact_witness:
  "snd (take_due sample_queue 1000000000) \<noteq> []
   \<and> snd (take_due (fst (take_due sample_queue 1000000000)) 1000000000) = []"
proof
  show "snd (take_due sample_queue 1000000000) \<noteq> []"
    by (simp add: sample_simps take_due_def is_due_def)
  show "snd (take_due (fst (take_due sample_queue 1000000000)) 1000000000) = []"
    using take_due_exact [OF sample_queue_ok, of 1000000000] by blast
qed

text \<open>
  The deadline the coordinator sleeps until is the right one: before \<open>next_deadline\<close> nothing
  is handed out, at or after it something is, and with no deadline nothing ever is.
\<close>

theorem next_deadline_exact:
  assumes "queue_ok q"
  shows "snd (take_due q now) \<noteq> [] \<longleftrightarrow> (\<exists>d. next_deadline q = Some d \<and> d \<le> now)"
proof -
  have "set (snd (take_due q now)) = attempt_of ` {e \<in> set (map snd (entries q)). is_due now e}"
    by (auto simp: take_due_def)
  then have "snd (take_due q now) \<noteq> [] \<longleftrightarrow> (\<exists>e \<in> set (map snd (entries q)). is_due now e)"
    by (metis (no_types, lifting) empty_Collect_eq image_is_empty set_empty)
  also have "\<dots> \<longleftrightarrow> (\<exists>d. next_deadline q = Some d \<and> d \<le> now)" (is "?L = ?R")
  proof
    assume ?L
    then obtain e where e: "e \<in> set (map snd (entries q))" "\<not> in_flight e" "due_at e \<le> now"
      by (auto simp: is_due_def)
    let ?D = "due_at ` {e \<in> set (map snd (entries q)). \<not> in_flight e}"
    have D: "finite ?D" "due_at e \<in> ?D" using e by auto
    then have "Min ?D \<in> ?D" and "\<forall>d \<in> ?D. Min ?D \<le> d" by (blast intro: Min_in, simp)
    then have "next_deadline q = Some (Min ?D)" unfolding next_deadline_Some by auto
    moreover have "Min ?D \<le> now" using D e(3) by (meson Min_le order_trans)
    ultimately show ?R by blast
  qed (auto simp: next_deadline_Some is_due_def)
  finally show ?thesis .
qed

theorem next_deadline_exact_witness:
  "next_deadline sample_queue = Some 1000000000 \<and> snd (take_due sample_queue 1000000000) \<noteq> []"
proof -
  have d: "next_deadline sample_queue = Some 1000000000"
    by (simp add: sample_simps next_deadline_def)
  then show ?thesis using next_deadline_exact [OF sample_queue_ok] by auto
qed

end
