(* ===== verification/Adapter.thy ===== *)
theory Adapter
  imports Prelude
begin

text \<open>
  The catalogue of agent runtimes: \<open>AdapterKind\<close> and its tables from
  \<^verbatim>\<open>crates/rovai-core/src/agent_profile.rs\<close>, the parser of reported versions from
  \<^verbatim>\<open>crates/rovai-core/src/agent_runtime_adapter.rs\<close>, and the policy of
  \<^verbatim>\<open>crates/rovai-core/src/steer.rs\<close> that says which runtime releases accept input while a run
  is in progress.
\<close>

section \<open>The kinds of adapter\<close>

datatype AdapterKind =
  CodexCli
| Pi
| OpencodeCli
| CopilotCli
| ClaudeCodeCli
| ClineCli
| CommandCodeCli
| KiroCli
| QoderCli
| CodebuddyCli
| QwenCode
| TraeCnCli
| CursorAgent
| KimiCodeCli
| MinimaxCodeCli
| HermesCli
| GrokBuild
| DeepseekHarness
| ZcodeApp
| AntigravityApp

definition ALL_adapters :: "AdapterKind list" where
  "ALL_adapters =
     [CodexCli, Pi, OpencodeCli, CopilotCli, ClaudeCodeCli,
      ClineCli, CommandCodeCli, AntigravityApp, KiroCli, QoderCli,
      CodebuddyCli, QwenCode, TraeCnCli, CursorAgent, KimiCodeCli,
      MinimaxCodeCli, HermesCli, GrokBuild, DeepseekHarness, ZcodeApp]"

fun as_str :: "AdapterKind \<Rightarrow> string" where
  "as_str CodexCli = ''codex-cli''"
| "as_str Pi = ''pi''"
| "as_str OpencodeCli = ''opencode-cli''"
| "as_str CopilotCli = ''copilot-cli''"
| "as_str ClaudeCodeCli = ''claude-code-cli''"
| "as_str ClineCli = ''cline-cli''"
| "as_str CommandCodeCli = ''command-code-cli''"
| "as_str KiroCli = ''kiro-cli''"
| "as_str QoderCli = ''qoder-cli''"
| "as_str CodebuddyCli = ''codebuddy-cli''"
| "as_str QwenCode = ''qwen-code''"
| "as_str TraeCnCli = ''trae-cn-cli''"
| "as_str CursorAgent = ''cursor-agent''"
| "as_str KimiCodeCli = ''kimi-code-cli''"
| "as_str MinimaxCodeCli = ''minimax-code-cli''"
| "as_str HermesCli = ''hermes-cli''"
| "as_str GrokBuild = ''grok-build''"
| "as_str DeepseekHarness = ''deepseek-harness''"
| "as_str ZcodeApp = ''zcode-app''"
| "as_str AntigravityApp = ''antigravity-app''"

fun command_name :: "AdapterKind \<Rightarrow> string" where
  "command_name CodexCli = ''codex''"
| "command_name Pi = ''pi''"
| "command_name OpencodeCli = ''opencode''"
| "command_name CopilotCli = ''copilot''"
| "command_name ClaudeCodeCli = ''claude''"
| "command_name ClineCli = ''cline''"
| "command_name CommandCodeCli = ''command-code''"
| "command_name KiroCli = ''kiro-cli''"
| "command_name QoderCli = ''qodercli''"
| "command_name CodebuddyCli = ''codebuddy''"
| "command_name QwenCode = ''qwen''"
| "command_name TraeCnCli = ''traecli''"
| "command_name CursorAgent = ''cursor-agent''"
| "command_name KimiCodeCli = ''kimi''"
| "command_name MinimaxCodeCli = ''mcode''"
| "command_name HermesCli = ''hermes''"
| "command_name GrokBuild = ''grok''"
| "command_name DeepseekHarness = ''dsh''"
| "command_name ZcodeApp = ''ZCode''"
| "command_name AntigravityApp = ''agy''"

fun command_names :: "AdapterKind \<Rightarrow> string list" where
  "command_names CursorAgent = [''cursor-agent'', ''agent'']"
| "command_names Pi = [''pi'']"
| "command_names KimiCodeCli = [''kimi'']"
| "command_names MinimaxCodeCli = [''mcode'']"
| "command_names HermesCli = [''hermes'']"
| "command_names GrokBuild = [''grok'']"
| "command_names DeepseekHarness = [''dsh'']"
| "command_names ZcodeApp = [''ZCode'']"
| "command_names CodexCli = [''codex'']"
| "command_names OpencodeCli = [''opencode'']"
| "command_names CopilotCli = [''copilot'']"
| "command_names ClaudeCodeCli = [''claude'']"
| "command_names ClineCli = [''cline'']"
| "command_names CommandCodeCli = [''command-code'', ''cmdc'']"
| "command_names KiroCli = [''kiro-cli'']"
| "command_names QoderCli = [''qodercli'']"
| "command_names CodebuddyCli = [''codebuddy'']"
| "command_names QwenCode = [''qwen'']"
| "command_names TraeCnCli = [''traecli'']"
| "command_names AntigravityApp = [''agy'']"

fun display_name :: "AdapterKind \<Rightarrow> string" where
  "display_name CodexCli = ''Codex CLI''"
| "display_name Pi = ''Pi Coding Agent''"
| "display_name OpencodeCli = ''OpenCode''"
| "display_name CopilotCli = ''GitHub Copilot''"
| "display_name ClaudeCodeCli = ''Claude Code''"
| "display_name ClineCli = ''Cline''"
| "display_name CommandCodeCli = ''Command Code''"
| "display_name KiroCli = ''Kiro''"
| "display_name QoderCli = ''Qoder''"
| "display_name CodebuddyCli = ''CodeBuddy''"
| "display_name QwenCode = ''Qwen Code''"
| "display_name TraeCnCli = ''TRAE CLI''"
| "display_name CursorAgent = ''Cursor Agent''"
| "display_name KimiCodeCli = ''Kimi Code''"
| "display_name MinimaxCodeCli = ''MiniMax Code''"
| "display_name HermesCli = ''Hermes Agent''"
| "display_name GrokBuild = ''Grok Build''"
| "display_name DeepseekHarness = ''DeepSeek Harness''"
| "display_name ZcodeApp = ''ZCode''"
| "display_name AntigravityApp = ''Antigravity''"

fun override_environment_key :: "AdapterKind \<Rightarrow> string" where
  "override_environment_key CodexCli = ''ROVAI_CODEX_BIN''"
| "override_environment_key Pi = ''ROVAI_PI_BIN''"
| "override_environment_key OpencodeCli = ''ROVAI_OPENCODE_BIN''"
| "override_environment_key CopilotCli = ''ROVAI_COPILOT_BIN''"
| "override_environment_key ClaudeCodeCli = ''ROVAI_CLAUDE_CODE_BIN''"
| "override_environment_key ClineCli = ''ROVAI_CLINE_BIN''"
| "override_environment_key CommandCodeCli = ''ROVAI_COMMAND_CODE_BIN''"
| "override_environment_key KiroCli = ''ROVAI_KIRO_BIN''"
| "override_environment_key QoderCli = ''ROVAI_QODER_BIN''"
| "override_environment_key CodebuddyCli = ''ROVAI_CODEBUDDY_BIN''"
| "override_environment_key QwenCode = ''ROVAI_QWEN_BIN''"
| "override_environment_key TraeCnCli = ''ROVAI_TRAE_CN_BIN''"
| "override_environment_key CursorAgent = ''ROVAI_CURSOR_BIN''"
| "override_environment_key KimiCodeCli = ''ROVAI_KIMI_BIN''"
| "override_environment_key MinimaxCodeCli = ''ROVAI_MINIMAX_CODE_BIN''"
| "override_environment_key HermesCli = ''ROVAI_HERMES_BIN''"
| "override_environment_key GrokBuild = ''ROVAI_GROK_BIN''"
| "override_environment_key DeepseekHarness = ''ROVAI_DEEPSEEK_HARNESS_BIN''"
| "override_environment_key ZcodeApp = ''ROVAI_ZCODE_BIN''"
| "override_environment_key AntigravityApp = ''ROVAI_ANTIGRAVITY_BIN''"

definition uses_acp :: "AdapterKind \<Rightarrow> bool" where
  "uses_acp kind =
     List.member
       [OpencodeCli, CopilotCli, CommandCodeCli, ClineCli, KiroCli,
        QoderCli, CodebuddyCli, QwenCode, TraeCnCli, CursorAgent,
        KimiCodeCli, MinimaxCodeCli, HermesCli, GrokBuild, DeepseekHarness,
        ZcodeApp] kind"

definition reuses_process :: "AdapterKind \<Rightarrow> bool" where
  "reuses_process kind =
     (List.member [CodexCli, Pi] kind
      \<or> (uses_acp kind \<and> \<not> List.member [KiroCli, CursorAgent, HermesCli] kind))"

datatype PublicOutputMode = ExplicitSendOnly | AssistantFinalVisible

fun public_output_mode_as_str :: "PublicOutputMode \<Rightarrow> string" where
  "public_output_mode_as_str ExplicitSendOnly = ''explicit_send_only''"
| "public_output_mode_as_str AssistantFinalVisible = ''assistant_final_visible''"

datatype MissingSendRecoveryMode = Disabled | IfNoAcceptedSend

fun missing_send_recovery_mode_as_str :: "MissingSendRecoveryMode \<Rightarrow> string" where
  "missing_send_recovery_mode_as_str Disabled = ''disabled''"
| "missing_send_recovery_mode_as_str IfNoAcceptedSend = ''if_no_accepted_send''"

fun public_output_mode :: "AdapterKind \<Rightarrow> PublicOutputMode" where
  "public_output_mode CodexCli = ExplicitSendOnly"
| "public_output_mode Pi = ExplicitSendOnly"
| "public_output_mode OpencodeCli = ExplicitSendOnly"
| "public_output_mode CopilotCli = ExplicitSendOnly"
| "public_output_mode CommandCodeCli = ExplicitSendOnly"
| "public_output_mode ClineCli = ExplicitSendOnly"
| "public_output_mode ClaudeCodeCli = ExplicitSendOnly"
| "public_output_mode KiroCli = ExplicitSendOnly"
| "public_output_mode QoderCli = ExplicitSendOnly"
| "public_output_mode CodebuddyCli = ExplicitSendOnly"
| "public_output_mode QwenCode = ExplicitSendOnly"
| "public_output_mode TraeCnCli = ExplicitSendOnly"
| "public_output_mode CursorAgent = ExplicitSendOnly"
| "public_output_mode KimiCodeCli = ExplicitSendOnly"
| "public_output_mode MinimaxCodeCli = ExplicitSendOnly"
| "public_output_mode HermesCli = ExplicitSendOnly"
| "public_output_mode GrokBuild = ExplicitSendOnly"
| "public_output_mode DeepseekHarness = ExplicitSendOnly"
| "public_output_mode ZcodeApp = ExplicitSendOnly"
| "public_output_mode AntigravityApp = ExplicitSendOnly"

fun missing_send_recovery_mode :: "AdapterKind \<Rightarrow> MissingSendRecoveryMode" where
  "missing_send_recovery_mode CodexCli = IfNoAcceptedSend"
| "missing_send_recovery_mode Pi = IfNoAcceptedSend"
| "missing_send_recovery_mode OpencodeCli = IfNoAcceptedSend"
| "missing_send_recovery_mode CopilotCli = IfNoAcceptedSend"
| "missing_send_recovery_mode CommandCodeCli = IfNoAcceptedSend"
| "missing_send_recovery_mode ClineCli = IfNoAcceptedSend"
| "missing_send_recovery_mode ClaudeCodeCli = IfNoAcceptedSend"
| "missing_send_recovery_mode KiroCli = IfNoAcceptedSend"
| "missing_send_recovery_mode QoderCli = IfNoAcceptedSend"
| "missing_send_recovery_mode CodebuddyCli = IfNoAcceptedSend"
| "missing_send_recovery_mode QwenCode = IfNoAcceptedSend"
| "missing_send_recovery_mode TraeCnCli = IfNoAcceptedSend"
| "missing_send_recovery_mode KimiCodeCli = IfNoAcceptedSend"
| "missing_send_recovery_mode MinimaxCodeCli = IfNoAcceptedSend"
| "missing_send_recovery_mode HermesCli = IfNoAcceptedSend"
| "missing_send_recovery_mode GrokBuild = IfNoAcceptedSend"
| "missing_send_recovery_mode DeepseekHarness = IfNoAcceptedSend"
| "missing_send_recovery_mode ZcodeApp = IfNoAcceptedSend"
| "missing_send_recovery_mode AntigravityApp = IfNoAcceptedSend"
| "missing_send_recovery_mode CursorAgent = Disabled"

definition adapter_from_str :: "string \<Rightarrow> AdapterKind option" where
  "adapter_from_str value =
     (if value = ''codex-cli'' then Some CodexCli
      else if value = ''pi'' then Some Pi
      else if value = ''opencode-cli'' then Some OpencodeCli
      else if value = ''copilot-cli'' then Some CopilotCli
      else if value = ''claude-code-cli'' then Some ClaudeCodeCli
      else if value = ''cline-cli'' then Some ClineCli
      else if value = ''command-code-cli'' then Some CommandCodeCli
      else if value = ''kiro-cli'' then Some KiroCli
      else if value = ''qoder-cli'' then Some QoderCli
      else if value = ''codebuddy-cli'' then Some CodebuddyCli
      else if value = ''qwen-code'' then Some QwenCode
      else if value = ''trae-cn-cli'' then Some TraeCnCli
      else if value = ''cursor-agent'' then Some CursorAgent
      else if value = ''kimi-code-cli'' then Some KimiCodeCli
      else if value = ''minimax-code-cli'' then Some MinimaxCodeCli
      else if value = ''hermes-cli'' then Some HermesCli
      else if value = ''grok-build'' then Some GrokBuild
      else if value = ''deepseek-harness'' then Some DeepseekHarness
      else if value = ''zcode-app'' then Some ZcodeApp
      else if value = ''antigravity-app'' then Some AntigravityApp
      else None)"

interpretation adapter: wire_enum as_str adapter_from_str
proof
  show "adapter_from_str (as_str e) = Some e" for e
    by (cases e) (simp_all add: adapter_from_str_def)
  show "adapter_from_str s = Some e \<Longrightarrow> as_str e = s" for s e
    by (auto simp: adapter_from_str_def split: if_splits)
qed

lemma set_ALL_adapters: "kind \<in> set ALL_adapters"
  by (cases kind) (simp_all add: ALL_adapters_def)

lemma distinct_ALL_adapters: "distinct ALL_adapters"
  by (simp add: ALL_adapters_def)

end
