(* ===== verification/Steer_Policy.thy ===== *)
theory Steer_Policy
  imports Adapter
begin

text \<open>
  Which runs accept input while they are in progress: the policy half of
  \<^verbatim>\<open>crates/rovai-core/src/steer.rs\<close> (\<open>supports_active_input\<close>, \<open>protocol_unavailable\<close>,
  \<open>active_input_availability\<close>) and the version parser it calls,
  \<open>parse_reported_runtime_version\<close> of \<^verbatim>\<open>agent_runtime_adapter.rs\<close>. The row that
  \<open>active_input_availability\<close> reads from the database is an argument.
\<close>

section \<open>Reported versions\<close>

type_synonym version = "nat \<times> nat \<times> nat"

definition version_separator :: "char \<Rightarrow> bool" where
  "version_separator c = (\<not> (is_ascii_alphanumeric c \<or> c \<in> {CHR ''.'', CHR ''-'', CHR ''+'', CHR ''_''}))"

definition parse_version_part :: "string \<Rightarrow> (version \<times> bool) option" where
  "parse_version_part part =
     (case dropWhile (\<lambda>c. \<not> is_ascii_digit c) part of
        [] \<Rightarrow> None
      | version \<Rightarrow>
          let numeric = takeWhile (\<lambda>c. is_ascii_digit c \<or> c = CHR ''.'') version;
              tail = dropWhile (\<lambda>c. is_ascii_digit c \<or> c = CHR ''.'') version
          in case split_on (\<lambda>c. c = CHR ''.'') numeric of
               [a, b, c] \<Rightarrow>
                 (case (parse_u64 a, parse_u64 b, parse_u64 c) of
                    (Some x, Some y, Some z) \<Rightarrow> Some ((x, y, z), prefix ''-'' tail)
                  | _ \<Rightarrow> None)
             | _ \<Rightarrow> None)"

definition parse_reported_runtime_version :: "string \<Rightarrow> (version \<times> bool) option" where
  "parse_reported_runtime_version value =
     find_map parse_version_part (filter (\<lambda>part. part \<noteq> []) (split_on version_separator value))"

section \<open>Compatibility of a release with the active-input protocol\<close>

definition supports_active_input :: "string \<Rightarrow> bool" where
  "supports_active_input adapter =
     List.member
       [''codex-cli'', ''claude-code-cli'', ''pi'', ''codebuddy-cli'', ''qwen-code'',
        ''minimax-code-cli'', ''grok-build'', ''kiro-cli'', ''zcode-app'', ''trae-cn-cli'',
        ''hermes-cli''] adapter"

datatype SteerUnavailableReason =
  RuntimeUnsupported | ExecutionNotReady | ExecutionChanged | InputOutcomeUnknown
| RuntimeIdentityUnknown | ProtocolIncompatible | VersionIncompatible | VersionUnverified

definition expected_protocol :: "string \<Rightarrow> string" where
  "expected_protocol adapter =
     (if adapter = ''codex-cli'' then ''codex-app-server-v2''
      else if adapter = ''claude-code-cli'' then ''claude-code-print-v1''
      else if adapter = ''pi'' then ''pi-jsonl-rpc-v1''
      else if adapter = ''zcode-app'' then ''zcode-app-server-v1''
      else ''acp-v1'')"

definition version_window :: "string \<Rightarrow> version \<Rightarrow> (version \<times> nat) option" where
  "version_window adapter v =
     (if adapter = ''codex-cli'' then Some ((0, 162, 1), 0)
      else if adapter = ''claude-code-cli'' then Some ((2, 1, 83), 2)
      else if adapter = ''pi'' then Some ((0, 99, 0), min (fst v) 1)
      else if adapter = ''qwen-code'' then Some ((0, 18, 4), 0)
      else if adapter = ''minimax-code-cli'' then Some ((0, 6, 12), 0)
      else if adapter = ''grok-build'' then Some ((1, 0, 14), 1)
      else if adapter = ''kiro-cli'' then Some ((2, 21, 1), 2)
      else if adapter = ''zcode-app'' then Some ((0, 16, 5), 0)
      else if adapter = ''trae-cn-cli'' then Some ((0, 207, 1), 0)
      else if adapter = ''hermes-cli'' then Some ((0, 22, 4), 0)
      else if adapter = ''codebuddy-cli'' then Some ((2, 109, 1), fst v)
      else None)"

definition protocol_unavailable ::
    "string \<Rightarrow> string option \<Rightarrow> string \<Rightarrow> SteerUnavailableReason option" where
  "protocol_unavailable adapter version protocol =
     (if \<not> supports_active_input adapter then Some RuntimeUnsupported
      else if protocol \<noteq> expected_protocol adapter then Some ProtocolIncompatible
      else case Option.bind version parse_reported_runtime_version of
             None \<Rightarrow> Some RuntimeIdentityUnknown
           | Some (v, prerelease) \<Rightarrow>
               if prerelease then Some VersionUnverified
               else case version_window adapter v of
                      None \<Rightarrow> Some RuntimeUnsupported
                    | Some (minimum, major) \<Rightarrow>
                        if fst v \<noteq> major then Some VersionUnverified
                        else if v < minimum then Some VersionIncompatible
                        else None)"

section \<open>Availability of one run\<close>

record ActiveInputRow =
  row_adapter :: "string option"
  row_version :: "string option"
  row_protocol :: "string option"
  row_fingerprint :: "string option"
  row_installation :: "string option"
  row_generation :: "int option"
  row_path :: "string option"
  row_epoch :: int
  row_status :: string
  row_cancel :: "string option"
  row_kind :: string
  row_binding :: "string option"
  row_accepted :: bool
  row_unknown :: bool

record ActiveInputAvailability =
  can_steer :: bool
  ready :: bool
  unavailable_reason :: "SteerUnavailableReason option"

definition unavailable :: "SteerUnavailableReason \<Rightarrow> ActiveInputAvailability" where
  "unavailable reason = \<lparr>can_steer = False, ready = False, unavailable_reason = Some reason\<rparr>"

definition blank :: "string option \<Rightarrow> bool" where
  "blank v = (case v of None \<Rightarrow> True | Some s \<Rightarrow> trim s = [])"

definition unavailable_because :: "ActiveInputRow \<Rightarrow> int \<Rightarrow> SteerUnavailableReason option" where
  "unavailable_because row epoch =
     (if row_epoch row \<noteq> epoch then Some ExecutionChanged
      else if row_kind row \<noteq> ''batch''
        \<or> \<not> List.member [''queued'', ''running'', ''waiting''] (row_status row)
        \<or> row_cancel row \<noteq> None
      then Some ExecutionNotReady
      else if row_unknown row then Some InputOutcomeUnknown
      else if list_ex blank [row_fingerprint row, row_installation row, row_path row]
        \<or> (case row_generation row of None \<Rightarrow> True | Some g \<Rightarrow> g \<le> 0)
        \<or> (row_adapter row \<noteq> Some ''hermes-cli'' \<and> blank (row_binding row))
      then Some RuntimeIdentityUnknown
      else protocol_unavailable (case row_adapter row of None \<Rightarrow> [] | Some a \<Rightarrow> a) (row_version row)
             (case row_protocol row of None \<Rightarrow> [] | Some p \<Rightarrow> p))"

definition active_input_availability :: "ActiveInputRow option \<Rightarrow> int \<Rightarrow> ActiveInputAvailability" where
  "active_input_availability row epoch =
     (case row of
        None \<Rightarrow> unavailable ExecutionChanged
      | Some r \<Rightarrow>
          let reason = unavailable_because r epoch
          in \<lparr>can_steer = (reason = None),
              ready = (reason = None \<and> row_accepted r \<and> row_status r \<noteq> ''queued''),
              unavailable_reason = reason\<rparr>)"

section \<open>Printing and reading a version\<close>

definition print_version :: "version \<Rightarrow> string" where
  "print_version v = (case v of (a, b, c) \<Rightarrow> dec a @ ''.'' @ dec b @ ''.'' @ dec c)"

definition version_char :: "char \<Rightarrow> bool" where
  "version_char c = (is_ascii_digit c \<or> c = CHR ''.'')"

lemma print_version_chars: "list_all version_char (print_version v)"
proof -
  have "list_all version_char (dec n)" for n
    using dec_digits [of n] by (auto simp: list_all_iff version_char_def)
  then show ?thesis by (simp add: print_version_def version_char_def split: prod.split)
qed

lemma dec_not_dot: "list_all (\<lambda>c. c \<noteq> CHR ''.'') (dec n)"
  using dec_digits [of n] by (auto simp: list_all_iff is_ascii_digit_def)

lemma split_print_version:
  "split_on (\<lambda>c. c = CHR ''.'') (print_version (a, b, c)) = [dec a, dec b, dec c]"
  by (simp add: print_version_def split_on_sep split_on_none dec_not_dot)

lemma dropWhile_print_version:
  "dropWhile (\<lambda>c. \<not> is_ascii_digit c) (print_version (a, b, c)) = print_version (a, b, c)"
  using dec_digits [of a] by (cases "dec a") (auto simp: print_version_def)

lemma split_on_append_sep: "P d \<Longrightarrow> split_on P (s @ d # t) = split_on P s @ split_on P t"
proof (induction s)
  case (Cons c s)
  have "split_on P s \<noteq> []" for s :: "'a list" by (induction s) (auto split: list.splits)
  with Cons show ?case by (auto split: list.splits)
qed simp

lemma parse_version_part_no_digit:
  "\<forall>c \<in> set w. \<not> is_ascii_digit c \<Longrightarrow> parse_version_part w = None"
proof -
  assume "\<forall>c \<in> set w. \<not> is_ascii_digit c"
  then have "dropWhile (\<lambda>c. \<not> is_ascii_digit c) w = []" by simp
  then show ?thesis by (simp only: parse_version_part_def list.case)
qed

lemma parse_version_part_print:
  assumes "a < 2 ^ 64" and "b < 2 ^ 64" and "c < 2 ^ 64" and "rest = [] \<or> \<not> version_char (hd rest)"
  shows "parse_version_part (print_version (a, b, c) @ rest) = Some ((a, b, c), prefix ''-'' rest)"
proof -
  let ?v = "print_version (a, b, c)"
  obtain x v where v: "?v = x # v" and x: "is_ascii_digit x"
    using dec_digits [of a] by (cases "dec a") (auto simp: print_version_def)
  have P: "(\<lambda>c. is_ascii_digit c \<or> c = CHR ''.'') = version_char" by (auto simp: version_char_def)
  have all: "\<forall>y \<in> set ?v. version_char y" using print_version_chars by (simp add: list_all_iff)
  then have "takeWhile version_char (?v @ rest) = ?v @ takeWhile version_char rest"
    and "dropWhile version_char (?v @ rest) = dropWhile version_char rest"
    by (simp_all add: takeWhile_append2 dropWhile_append2)
  moreover have "takeWhile version_char rest = []" "dropWhile version_char rest = rest"
    using assms(4) by (cases rest; simp)+
  ultimately have tw: "takeWhile version_char (?v @ rest) = ?v" "dropWhile version_char (?v @ rest) = rest"
    by simp_all
  have dw: "dropWhile (\<lambda>c. \<not> is_ascii_digit c) (?v @ rest) = x # v @ rest" using x by (simp add: v)
  have "parse_version_part (?v @ rest) =
      (case split_on (\<lambda>c. c = CHR ''.'') ?v of
         [a, b, c] \<Rightarrow>
           (case (parse_u64 a, parse_u64 b, parse_u64 c) of
              (Some x, Some y, Some z) \<Rightarrow> Some ((x, y, z), prefix ''-'' rest)
            | _ \<Rightarrow> None)
       | _ \<Rightarrow> None)"
    using tw unfolding parse_version_part_def dw P list.case Let_def by (simp only: v append_Cons)
  then show ?thesis using assms(1-3) by (simp add: split_print_version parse_u64_dec)
qed

lemma version_char_not_separator: "version_char c \<Longrightarrow> \<not> version_separator c"
  by (auto simp: version_char_def version_separator_def is_ascii_alphanumeric_def)

lemma find_map_append_None:
  "\<forall>x \<in> set xs. f x = None \<Longrightarrow> find_map f (xs @ ys) = find_map f ys"
  by (induction xs) auto

text \<open>
  The parser reads back what a runtime prints: from any three numbers of 64 bits joined by
  dots, alone or after a name without digits and before a suffix, it recovers exactly these
  numbers, and calls the release a pre-release exactly if the suffix starts with a hyphen.
\<close>

theorem parse_print_version:
  assumes "a < 2 ^ 64" and "b < 2 ^ 64" and "c < 2 ^ 64"
    and "\<forall>x \<in> set rest. \<not> version_separator x" and "rest = [] \<or> \<not> version_char (hd rest)"
    and "\<forall>x \<in> set name. \<not> is_ascii_digit x" and "name = [] \<or> version_separator (last name)"
  shows "parse_reported_runtime_version (name @ print_version (a, b, c) @ rest) =
    Some ((a, b, c), prefix ''-'' rest)"
proof -
  let ?t = "print_version (a, b, c) @ rest" and ?f = "filter (\<lambda>part. part \<noteq> [])"
  have t: "list_all (\<lambda>c. \<not> version_separator c) ?t"
    using print_version_chars [of "(a, b, c)"] assms(4)
    by (auto simp: list_all_iff version_char_not_separator)
  have ne: "?t \<noteq> []" using dec_digits [of a] by (simp add: print_version_def)
  have part: "find_map parse_version_part [?t] = Some ((a, b, c), prefix ''-'' rest)"
    using assms(1-3,5) by (simp add: parse_version_part_print)
  show ?thesis
  proof (cases "name = []")
    case True
    then show ?thesis using split_on_none [OF t] ne part
      by (simp only: parse_reported_runtime_version_def append.simps filter.simps if_True not_False_eq_True)
  next
    case False
    then obtain n d where n: "name = n @ [d]" and d: "version_separator d"
      using assms(7) by (cases name rule: rev_cases) auto
    have "split_on version_separator (name @ ?t) = split_on version_separator n @ [?t]"
      using split_on_append_sep [of version_separator d n ?t] d split_on_none [OF t] by (simp add: n)
    moreover have "\<forall>w \<in> set (?f (split_on version_separator n)). parse_version_part w = None"
      using set_split_on assms(6) by (fastforce simp: n intro!: parse_version_part_no_digit)
    ultimately show ?thesis
      using ne part by (simp only: parse_reported_runtime_version_def filter_append
          find_map_append_None filter.simps if_True simp_thms)
  qed
qed

theorem parse_print_version_witness:
  "parse_reported_runtime_version (''codex-cli '' @ print_version (0, 162, 1) @ ''-beta'') = Some ((0, 162, 1), True)"
proof -
  have "parse_reported_runtime_version (''codex-cli '' @ print_version (0, 162, 1) @ ''-beta'') =
      Some ((0, 162, 1), prefix ''-'' ''-beta'')"
    by (rule parse_print_version)
      (simp_all add: version_separator_def version_char_def is_ascii_alphanumeric_def is_ascii_digit_def)
  then show ?thesis by simp
qed

section \<open>What an admitted run satisfies\<close>

lemma protocol_unavailable_None:
  "protocol_unavailable adapter version protocol = None \<longleftrightarrow>
     supports_active_input adapter \<and> protocol = expected_protocol adapter
     \<and> (\<exists>text v minimum major. version = Some text
          \<and> parse_reported_runtime_version text = Some (v, False)
          \<and> version_window adapter v = Some (minimum, major) \<and> fst v = major \<and> minimum \<le> v)"
  by (auto simp: protocol_unavailable_def bind_eq_Some_conv not_less split: option.splits prod.splits if_splits)

lemma blank_iff: "\<not> blank v \<longleftrightarrow> (\<exists>s. v = Some s \<and> trim s \<noteq> [])"
  by (cases v) (simp_all add: blank_def)

text \<open>
  The releases that take input, as a table: the protocol, the first release, and the last major version, if one is set.
\<close>

definition steerable_releases :: "(string \<times> string \<times> version \<times> nat option) list" where
  "steerable_releases =
     [(''codex-cli'', ''codex-app-server-v2'', (0, 162, 1), Some 0),
      (''claude-code-cli'', ''claude-code-print-v1'', (2, 1, 83), Some 2),
      (''pi'', ''pi-jsonl-rpc-v1'', (0, 99, 0), Some 1),
      (''codebuddy-cli'', ''acp-v1'', (2, 109, 1), None),
      (''qwen-code'', ''acp-v1'', (0, 18, 4), Some 0),
      (''minimax-code-cli'', ''acp-v1'', (0, 6, 12), Some 0),
      (''grok-build'', ''acp-v1'', (1, 0, 14), Some 1),
      (''kiro-cli'', ''acp-v1'', (2, 21, 1), Some 2),
      (''zcode-app'', ''zcode-app-server-v1'', (0, 16, 5), Some 0),
      (''trae-cn-cli'', ''acp-v1'', (0, 207, 1), Some 0),
      (''hermes-cli'', ''acp-v1'', (0, 22, 4), Some 0)]"

definition steerable_release :: "string \<Rightarrow> string \<Rightarrow> version \<Rightarrow> bool" where
  "steerable_release adapter protocol v =
     list_ex (\<lambda>(a, p, least, newest). adapter = a \<and> protocol = p \<and> least \<le> v \<and> (case newest of None \<Rightarrow> True | Some m \<Rightarrow> fst v \<le> m))
       steerable_releases"

lemma steerable_release_iff:
  "steerable_release adapter protocol v \<longleftrightarrow>
     supports_active_input adapter \<and> protocol = expected_protocol adapter
     \<and> (\<exists>least. version_window adapter v = Some (least, fst v) \<and> least \<le> v)"
proof (cases "supports_active_input adapter")
  case True
  obtain a b c where v: "v = (a, b, c)" by (cases v)
  from True have "adapter \<in> {''codex-cli'', ''claude-code-cli'', ''pi'', ''codebuddy-cli'', ''qwen-code'', ''minimax-code-cli'',
      ''grok-build'', ''kiro-cli'', ''zcode-app'', ''trae-cn-cli'', ''hermes-cli''}"
    by (auto simp: supports_active_input_def)
  then show ?thesis
    by (elim insertE emptyE; simp add: steerable_release_def steerable_releases_def supports_active_input_def
        expected_protocol_def version_window_def v; safe; simp)
next
  case False
  then show ?thesis by (auto simp: steerable_release_def steerable_releases_def supports_active_input_def)
qed

lemma admitted_iff:
  assumes "row_adapter r = Some adapter" and "row_version r = Some reported"
    and "parse_reported_runtime_version reported = Some (v, prerelease)"
  shows "protocol_unavailable adapter (row_version r) (case row_protocol r of None \<Rightarrow> [] | Some p \<Rightarrow> p) = None \<longleftrightarrow>
    \<not> prerelease \<and> (\<exists>protocol. row_protocol r = Some protocol \<and> steerable_release adapter protocol v)"
proof -
  have "expected_protocol adapter \<noteq> []" by (simp add: expected_protocol_def)
  then show ?thesis
    using assms unfolding protocol_unavailable_None steerable_release_iff
    by (cases "row_protocol r") (auto simp del: split_paired_Ex less_eq_prod_simp)
qed

text \<open>
  C3: input is steered into a run exactly if the run is the addressed one at the addressed epoch, is a batch run still
  in progress and not being cancelled, has no input whose outcome is unknown, has a complete frozen identity (with a
  session binding for every runtime but Hermes), and speaks the protocol of its adapter in a release of the table
  that is no pre-release; it is ready for it exactly if moreover its first input was accepted and it has left the
  queue. The version is one that is reported as three numbers of 64 bits joined by dots, alone or after a name without
  digits and before a suffix.
\<close>

theorem steerable_exactly:
  assumes "row_adapter r = Some adapter" and "row_version r = Some (name @ print_version (a, b, c) @ rest)"
    and "a < 2 ^ 64" and "b < 2 ^ 64" and "c < 2 ^ 64"
    and "\<forall>x \<in> set rest. \<not> version_separator x" and "rest = [] \<or> \<not> version_char (hd rest)"
    and "\<forall>x \<in> set name. \<not> is_ascii_digit x" and "name = [] \<or> version_separator (last name)"
  shows "can_steer (active_input_availability (Some r) epoch) = (row_epoch r = epoch \<and> row_kind r = ''batch'' \<and> row_cancel r = None
    \<and> row_status r \<in> {''queued'', ''running'', ''waiting''} \<and> \<not> row_unknown r
    \<and> (\<exists>f. row_fingerprint r = Some f \<and> trim f \<noteq> []) \<and> (\<exists>i. row_installation r = Some i \<and> trim i \<noteq> [])
    \<and> (\<exists>p. row_path r = Some p \<and> trim p \<noteq> []) \<and> (\<exists>g. row_generation r = Some g \<and> 0 < g)
    \<and> (adapter = ''hermes-cli'' \<or> (\<exists>s. row_binding r = Some s \<and> trim s \<noteq> []))
    \<and> \<not> prefix ''-'' rest \<and> (\<exists>p. row_protocol r = Some p \<and> steerable_release adapter p (a, b, c)))
    \<and> ready (active_input_availability (Some r) epoch) =
      (can_steer (active_input_availability (Some r) epoch) \<and> row_accepted r \<and> row_status r \<noteq> ''queued'')"
proof -
  note version = parse_print_version [OF assms(3-9)]
  have "unavailable_because r epoch = None \<longleftrightarrow> row_epoch r = epoch \<and> row_kind r = ''batch'' \<and> row_cancel r = None
      \<and> row_status r \<in> {''queued'', ''running'', ''waiting''} \<and> \<not> row_unknown r
      \<and> \<not> blank (row_fingerprint r) \<and> \<not> blank (row_installation r) \<and> \<not> blank (row_path r)
      \<and> (\<exists>g. row_generation r = Some g \<and> 0 < g) \<and> (adapter = ''hermes-cli'' \<or> \<not> blank (row_binding r))
      \<and> protocol_unavailable adapter (row_version r) (case row_protocol r of None \<Rightarrow> [] | Some p \<Rightarrow> p) = None"
    using assms(1) by (cases "row_generation r") (auto simp: unavailable_because_def)
  then show ?thesis
    unfolding admitted_iff [OF assms(1,2) version] blank_iff by (simp add: active_input_availability_def Let_def)
qed

definition sample_row :: ActiveInputRow where
  "sample_row =
     \<lparr>row_adapter = Some ''codex-cli'', row_version = Some ''codex-cli 0.170.0'',
      row_protocol = Some ''codex-app-server-v2'', row_fingerprint = Some ''f'',
      row_installation = Some ''i'', row_generation = Some 1, row_path = Some ''/bin/codex'',
      row_epoch = 3, row_status = ''running'', row_cancel = None, row_kind = ''batch'',
      row_binding = Some ''b'', row_accepted = True, row_unknown = False\<rparr>"

theorem steerable_exactly_witness:
  "can_steer (active_input_availability (Some sample_row) 3)
    \<and> \<not> can_steer (active_input_availability (Some (sample_row\<lparr>row_generation := Some 0\<rparr>)) 3)"
proof -
  have texts: "trim ''f'' = ''f''" "trim ''i'' = ''i''" "trim ''/bin/codex'' = ''/bin/codex''" "trim ''b'' = ''b''"
    by code_simp+
  have version: "''codex-cli 0.170.0'' = ''codex-cli '' @ print_version (0, 170, 0) @ []"
    by code_simp
  have separator: "version_separator (last ''codex-cli '')" "\<forall>x \<in> set ''codex-cli ''. \<not> is_ascii_digit x"
    by (simp_all add: version_separator_def is_ascii_alphanumeric_def is_ascii_digit_def)
  have "row_version r = Some ''codex-cli 0.170.0'' \<Longrightarrow> row_adapter r = Some ''codex-cli'' \<Longrightarrow>
      can_steer (active_input_availability (Some r) 3) \<longleftrightarrow> row_epoch r = 3 \<and> row_kind r = ''batch'' \<and> row_cancel r = None
    \<and> row_status r \<in> {''queued'', ''running'', ''waiting''} \<and> \<not> row_unknown r
    \<and> (\<exists>f. row_fingerprint r = Some f \<and> trim f \<noteq> []) \<and> (\<exists>i. row_installation r = Some i \<and> trim i \<noteq> [])
    \<and> (\<exists>p. row_path r = Some p \<and> trim p \<noteq> []) \<and> (\<exists>g. row_generation r = Some g \<and> 0 < g)
    \<and> (\<exists>s. row_binding r = Some s \<and> trim s \<noteq> [])
    \<and> (\<exists>p. row_protocol r = Some p \<and> steerable_release ''codex-cli'' p (0, 170, 0))" for r
    using steerable_exactly [of r "''codex-cli''" "''codex-cli ''" 0 170 0 "[]" 3] separator
    by (simp add: version)
  then show ?thesis by (simp add: sample_row_def texts steerable_release_def steerable_releases_def)
qed

end
