(* ===== verification/Shutdown.thy ===== *)
theory Shutdown
  imports Adapter
begin

text \<open>
  The planned shutdown of \<^verbatim>\<open>crates/rovai-core/src/planned_shutdown.rs\<close>: the coordinator that
  admits launches, terminal observations and runtime callbacks while the host runs, and closes
  these three admissions in order when it stops. This theory holds the coordinator's state and the
  operations on it; every stretch of a method between two suspension points is one definition, so
  that \<open>Shutdown_World\<close> can interleave them.

  An \<open>Arc\<close> to a pair of atomic flags is an index into the coordinator's list
  \<open>cancellations\<close>. A gate (\<open>tokio::sync::RwLock<()>\<close>) is the set of the readers' guards and
  the writer's, each named by the task that holds it; that a reader waits for the writer and the
  writer for all others is what its documentation promises.
\<close>

section \<open>State\<close>

datatype ActiveExecutionKey =
  ActiveExecutionKey (key_agent_run_id: string) (key_execution_epoch: int)

record RuntimeRouteBinding =
  route_identity :: string
  adapter_turn_correlation :: string
  provider_turn_id :: "string option"

datatype RuntimeTerminalOutcome = Succeeded | Failed | Cancelled | Interrupted

fun outcome_as_str :: "RuntimeTerminalOutcome \<Rightarrow> string" where
  "outcome_as_str Succeeded = ''succeeded''"
| "outcome_as_str Failed = ''failed''"
| "outcome_as_str Cancelled = ''cancelled''"
| "outcome_as_str Interrupted = ''interrupted''"

record RuntimeTerminalObservation =
  obs_key :: ActiveExecutionKey
  obs_binding :: RuntimeRouteBinding
  obs_outcome :: RuntimeTerminalOutcome
  obs_fingerprint :: string

record ActiveExecutionSnapshot =
  snapshot_key :: ActiveExecutionKey
  snapshot_adapter_kind :: AdapterKind
  snapshot_binding :: "RuntimeRouteBinding option"
  snapshot_planned_stop_requested :: bool

record ExecutionCancellation =
  cancelled :: bool
  launching :: bool

record ActiveExecution =
  adapter_kind :: AdapterKind
  binding :: "RuntimeRouteBinding option"
  planned_stop_requested :: bool
  terminal_fingerprint :: "string option"
  terminal_outcome :: "RuntimeTerminalOutcome option"
  cancellation :: nat

record SettledExecution =
  settled_binding :: RuntimeRouteBinding
  settled_planned_stop_requested :: bool
  settled_terminal_fingerprint :: string
  settled_terminal_outcome :: RuntimeTerminalOutcome

record ExecutionLaunchPermit =
  permit_generation :: string
  permit_guard :: "nat option"
  permit_cancellation :: nat

record TerminalSettlementPermit =
  settlement_generation :: string
  observation :: RuntimeTerminalObservation
  settlement_planned_stop_requested :: bool
  settlement_guard :: "nat option"

datatype TerminalAdmissionError =
  Closed | ExecutionNotActive | RouteMismatch | PlannedStopNotRequested | ConflictingTerminal

datatype RuntimeTerminalAdmission = Ordinary "nat option" | Planned TerminalSettlementPermit

datatype ShutdownPhase = Accepting | ClosingLaunch | Draining | TerminalClosed

fun phase_as_u8 :: "ShutdownPhase \<Rightarrow> nat" where
  "phase_as_u8 Accepting = 0"
| "phase_as_u8 ClosingLaunch = 1"
| "phase_as_u8 Draining = 2"
| "phase_as_u8 TerminalClosed = 3"

text \<open>The phases in the order of their codes.\<close>

instantiation ShutdownPhase :: linorder
begin

definition less_eq_ShutdownPhase :: "ShutdownPhase \<Rightarrow> ShutdownPhase \<Rightarrow> bool" where
  "less_eq_ShutdownPhase p q = (phase_as_u8 p \<le> phase_as_u8 q)"

definition less_ShutdownPhase :: "ShutdownPhase \<Rightarrow> ShutdownPhase \<Rightarrow> bool" where
  "less_ShutdownPhase p q = (phase_as_u8 p < phase_as_u8 q)"

instance
proof
  fix p q :: ShutdownPhase
  show "p \<le> q \<Longrightarrow> q \<le> p \<Longrightarrow> p = q" by (cases p; cases q) (simp_all add: less_eq_ShutdownPhase_def)
qed (auto simp: less_eq_ShutdownPhase_def less_ShutdownPhase_def)

end

definition phase_from_u8 :: "nat \<Rightarrow> ShutdownPhase" where
  "phase_from_u8 value =
     (if value = 0 then Accepting else if value = 1 then ClosingLaunch
      else if value = 2 then Draining else TerminalClosed)"

record gate =
  readers :: "nat set"
  writer :: "nat option"

record PlannedShutdownCoordinator =
  generation :: string
  phase :: ShutdownPhase
  launch_gate :: gate
  terminal_gate :: gate
  runtime_routes_open :: bool
  runtime_route_gate :: gate
  active :: "(ActiveExecutionKey \<times> ActiveExecution) list"
  settled :: "(ActiveExecutionKey \<times> SettledExecution) list"
  cancellations :: "ExecutionCancellation list"

section \<open>Gates\<close>

definition open_gate :: gate where
  "open_gate = \<lparr>readers = {}, writer = None\<rparr>"

definition can_read :: "gate \<Rightarrow> bool" where
  "can_read g = (writer g = None)"

definition can_write :: "gate \<Rightarrow> bool" where
  "can_write g = (readers g = {} \<and> writer g = None)"

definition enter_read :: "nat \<Rightarrow> gate \<Rightarrow> gate" where
  "enter_read t g = g\<lparr>readers := insert t (readers g)\<rparr>"

definition leave_read :: "nat option \<Rightarrow> gate \<Rightarrow> gate" where
  "leave_read t g = (case t of None \<Rightarrow> g | Some i \<Rightarrow> g\<lparr>readers := readers g - {i}\<rparr>)"

definition enter_write :: "nat \<Rightarrow> gate \<Rightarrow> gate" where
  "enter_write t g = g\<lparr>writer := Some t\<rparr>"

definition leave_write :: "gate \<Rightarrow> gate" where
  "leave_write g = g\<lparr>writer := None\<rparr>"

lemmas gate_simps = open_gate_def can_read_def can_write_def enter_read_def leave_read_def
  enter_write_def leave_write_def

section \<open>Admission of launches\<close>

definition new_coordinator :: "string \<Rightarrow> PlannedShutdownCoordinator" where
  "new_coordinator g =
     \<lparr>generation = g, phase = Accepting, launch_gate = open_gate, terminal_gate = open_gate,
      runtime_routes_open = True, runtime_route_gate = open_gate, active = [], settled = [],
      cancellations = []\<rparr>"

definition shutdown_started :: "PlannedShutdownCoordinator \<Rightarrow> bool" where
  "shutdown_started c = (phase c \<noteq> Accepting)"

text \<open>
  \<open>enter_launch\<close>: the check before the gate, and what happens once task \<open>t\<close> holds its guard.
\<close>

definition enter_launch_check :: "PlannedShutdownCoordinator \<Rightarrow> bool" where
  "enter_launch_check c = (phase c = Accepting)"

definition enter_launch_guarded ::
    "PlannedShutdownCoordinator \<Rightarrow> nat \<Rightarrow> PlannedShutdownCoordinator \<times> ExecutionLaunchPermit option" where
  "enter_launch_guarded c t =
     (if phase c \<noteq> Accepting then (c\<lparr>launch_gate := leave_read (Some t) (launch_gate c)\<rparr>, None)
      else
        (c\<lparr>cancellations := cancellations c @ [\<lparr>cancelled = False, launching = True\<rparr>]\<rparr>,
         Some \<lparr>permit_generation = generation c, permit_guard = Some t,
               permit_cancellation = length (cancellations c)\<rparr>))"

definition check_cancelled :: "PlannedShutdownCoordinator \<Rightarrow> ExecutionLaunchPermit \<Rightarrow> bool" where
  "check_cancelled c p = cancelled (cancellations c ! permit_cancellation p)"

definition finish_launch :: "PlannedShutdownCoordinator \<Rightarrow> ExecutionLaunchPermit \<Rightarrow> PlannedShutdownCoordinator" where
  "finish_launch c p =
     c\<lparr>cancellations := (cancellations c)
         [permit_cancellation p := (cancellations c ! permit_cancellation p)\<lparr>launching := False\<rparr>]\<rparr>"

definition drop_permit :: "PlannedShutdownCoordinator \<Rightarrow> ExecutionLaunchPermit \<Rightarrow> PlannedShutdownCoordinator" where
  "drop_permit c p =
     (let c' = finish_launch c p in c'\<lparr>launch_gate := leave_read (permit_guard p) (launch_gate c')\<rparr>)"

definition close_launch_admission :: "PlannedShutdownCoordinator \<Rightarrow> PlannedShutdownCoordinator" where
  "close_launch_admission c = (if phase c = Accepting then c\<lparr>phase := ClosingLaunch\<rparr> else c)"

text \<open>
  \<open>finish_launch_closure_until\<close>: the part before the gate (an answer at once, or none and the
  task waits for the write guard), and the part under the write guard.
\<close>

definition finish_launch_closure_begin ::
    "PlannedShutdownCoordinator \<Rightarrow> PlannedShutdownCoordinator \<times> bool option" where
  "finish_launch_closure_begin c =
     (let c' = close_launch_admission c
      in (c', if phase c' = Draining then Some True
              else if phase c' = TerminalClosed then Some False else None))"

definition finish_launch_closure_barrier ::
    "PlannedShutdownCoordinator \<Rightarrow> PlannedShutdownCoordinator \<times> bool" where
  "finish_launch_closure_barrier c =
     (let c' = (if phase c = ClosingLaunch then c\<lparr>phase := Draining\<rparr> else c);
          transitioned = (phase c = ClosingLaunch \<or> phase c' = Draining)
      in (c'\<lparr>launch_gate := leave_write (launch_gate c')\<rparr>, transitioned))"

section \<open>Active executions\<close>

definition register_active ::
    "PlannedShutdownCoordinator \<Rightarrow> ExecutionLaunchPermit \<Rightarrow> ActiveExecutionKey \<Rightarrow> AdapterKind \<Rightarrow>
     PlannedShutdownCoordinator \<times> bool" where
  "register_active c permit key kind =
     (if permit_generation permit \<noteq> generation c \<or> permit_guard permit = None then (c, False)
      else if map_of (active c) key \<noteq> None then (c, False)
      else
        (c\<lparr>active := AList.update key
             \<lparr>adapter_kind = kind, binding = None, planned_stop_requested = False,
              terminal_fingerprint = None, terminal_outcome = None,
              cancellation = permit_cancellation permit\<rparr> (active c)\<rparr>, True))"

definition is_cancelled :: "PlannedShutdownCoordinator \<Rightarrow> ActiveExecution \<Rightarrow> bool" where
  "is_cancelled c e = cancelled (cancellations c ! cancellation e)"

definition is_launching :: "PlannedShutdownCoordinator \<Rightarrow> ActiveExecution \<Rightarrow> bool" where
  "is_launching c e = launching (cancellations c ! cancellation e)"

definition is_some_and :: "'a option \<Rightarrow> ('a \<Rightarrow> bool) \<Rightarrow> bool" where
  "is_some_and x P = (case x of None \<Rightarrow> False | Some y \<Rightarrow> P y)"

definition cancel_active ::
    "PlannedShutdownCoordinator \<Rightarrow> ActiveExecutionKey \<Rightarrow> PlannedShutdownCoordinator" where
  "cancel_active c key =
     (case map_of (active c) key of
        None \<Rightarrow> c
      | Some e \<Rightarrow>
          c\<lparr>cancellations := (cancellations c)
              [cancellation e := (cancellations c ! cancellation e)\<lparr>cancelled := True\<rparr>]\<rparr>)"

definition launch_in_progress :: "PlannedShutdownCoordinator \<Rightarrow> ActiveExecutionKey \<Rightarrow> bool" where
  "launch_in_progress c key = is_some_and (map_of (active c) key) (is_launching c)"

definition launch_finished_without_route :: "PlannedShutdownCoordinator \<Rightarrow> ActiveExecutionKey \<Rightarrow> bool" where
  "launch_finished_without_route c key =
     is_some_and (map_of (active c) key) (\<lambda>e. \<not> is_launching c e \<and> binding e = None)"

definition owns_unbound_launch :: "PlannedShutdownCoordinator \<Rightarrow> ActiveExecutionKey \<Rightarrow> bool" where
  "owns_unbound_launch c key =
     is_some_and (map_of (active c) key) (\<lambda>e. is_launching c e \<and> binding e = None)"

definition bind_route ::
    "PlannedShutdownCoordinator \<Rightarrow> ActiveExecutionKey \<Rightarrow> RuntimeRouteBinding \<Rightarrow>
     PlannedShutdownCoordinator \<times> bool" where
  "bind_route c key b =
     (case map_of (active c) key of
        None \<Rightarrow> (c, False)
      | Some e \<Rightarrow>
          (case binding e of
             Some existing \<Rightarrow> (c, existing = b)
           | None \<Rightarrow> (c\<lparr>active := AList.update key (e\<lparr>binding := Some b\<rparr>) (active c)\<rparr>, True)))"

definition complete_handoff ::
    "PlannedShutdownCoordinator \<Rightarrow> ExecutionLaunchPermit \<Rightarrow> ActiveExecutionKey \<Rightarrow> RuntimeRouteBinding \<Rightarrow>
     PlannedShutdownCoordinator \<times> ExecutionLaunchPermit \<times> bool" where
  "complete_handoff c permit key b =
     (if permit_generation permit \<noteq> generation c \<or> permit_guard permit = None
      then (c, permit, False)
      else case bind_route c key b of
             (c', False) \<Rightarrow> (c', permit, False)
           | (c', True) \<Rightarrow>
               (c'\<lparr>launch_gate := leave_read (permit_guard permit) (launch_gate c')\<rparr>,
                permit\<lparr>permit_guard := None\<rparr>, True))"

definition mark_planned_stop_requested ::
    "PlannedShutdownCoordinator \<Rightarrow> ActiveExecutionKey \<Rightarrow> PlannedShutdownCoordinator \<times> bool" where
  "mark_planned_stop_requested c key =
     (case map_of (active c) key of
        None \<Rightarrow> (c, False)
      | Some e \<Rightarrow>
          (c\<lparr>active := AList.update key (e\<lparr>planned_stop_requested := True\<rparr>) (active c)\<rparr>, True))"

definition active_snapshots :: "PlannedShutdownCoordinator \<Rightarrow> ActiveExecutionSnapshot list" where
  "active_snapshots c =
     map (\<lambda>(key, e). \<lparr>snapshot_key = key, snapshot_adapter_kind = adapter_kind e,
                       snapshot_binding = binding e,
                       snapshot_planned_stop_requested = planned_stop_requested e\<rparr>) (active c)"

definition must_preserve_unresolved_after_nonterminal_error ::
    "PlannedShutdownCoordinator \<Rightarrow> ActiveExecutionKey \<Rightarrow> bool" where
  "must_preserve_unresolved_after_nonterminal_error c key =
     is_some_and (map_of (active c) key) (\<lambda>e. binding e \<noteq> None \<or> is_cancelled c e)"

text \<open>
  \<open>remove_active_inner\<close> takes the entry out of \<open>active\<close> under one lock and files it in
  \<open>settled\<close> under another; the two parts are separate.
\<close>

definition take_active ::
    "PlannedShutdownCoordinator \<Rightarrow> ActiveExecutionKey \<Rightarrow> bool \<Rightarrow>
     PlannedShutdownCoordinator \<times> ActiveExecution option" where
  "take_active c key cleanup =
     (if \<not> cleanup \<and> is_some_and (map_of (active c) key) (is_cancelled c) then (c, None)
      else (c\<lparr>active := AList.delete key (active c)\<rparr>, map_of (active c) key))"

definition file_settled ::
    "PlannedShutdownCoordinator \<Rightarrow> ActiveExecutionKey \<Rightarrow> ActiveExecution \<Rightarrow> PlannedShutdownCoordinator" where
  "file_settled c key e =
     (case (binding e, terminal_fingerprint e, terminal_outcome e) of
        (Some b, Some fp, Some outcome) \<Rightarrow>
          c\<lparr>settled := AList.update key
              \<lparr>settled_binding = b, settled_planned_stop_requested = planned_stop_requested e,
               settled_terminal_fingerprint = fp, settled_terminal_outcome = outcome\<rparr> (settled c)\<rparr>
      | _ \<Rightarrow> c)"

definition remove_active_inner ::
    "PlannedShutdownCoordinator \<Rightarrow> ActiveExecutionKey \<Rightarrow> bool \<Rightarrow> PlannedShutdownCoordinator \<times> bool" where
  "remove_active_inner c key cleanup =
     (case take_active c key cleanup of
        (c', None) \<Rightarrow> (c', False)
      | (c', Some e) \<Rightarrow> (file_settled c' key e, True))"

definition remove_active ::
    "PlannedShutdownCoordinator \<Rightarrow> ActiveExecutionKey \<Rightarrow> PlannedShutdownCoordinator \<times> bool" where
  "remove_active c key = remove_active_inner c key False"

definition cleanup_completed ::
    "PlannedShutdownCoordinator \<Rightarrow> ActiveExecutionKey \<Rightarrow> PlannedShutdownCoordinator \<times> bool" where
  "cleanup_completed c key = remove_active_inner c key True"

definition remove_active_if_unbound ::
    "PlannedShutdownCoordinator \<Rightarrow> ActiveExecutionKey \<Rightarrow> PlannedShutdownCoordinator \<times> bool" where
  "remove_active_if_unbound c key =
     (case map_of (active c) key of
        None \<Rightarrow> (c, False)
      | Some e \<Rightarrow>
          if binding e \<noteq> None \<or> is_cancelled c e then (c, False)
          else (c\<lparr>active := AList.delete key (active c)\<rparr>, True))"

section \<open>Admission of terminal observations\<close>

text \<open>
  \<open>admit_terminal\<close>: the check before the gate; the branch on the phase once the guard is held
  (\<open>None\<close>: go on under the rules of a planned shutdown); the look at \<open>active\<close> (\<open>None\<close>: the
  key is not there); the look at \<open>settled\<close>. The last two answer with the value of
  \<open>planned_stop_requested\<close> or with the error.
\<close>

definition admit_terminal_check :: "PlannedShutdownCoordinator \<Rightarrow> bool" where
  "admit_terminal_check c = (phase c \<noteq> TerminalClosed)"

definition admit_terminal_route ::
    "PlannedShutdownCoordinator \<Rightarrow> nat \<Rightarrow> (TerminalAdmissionError + RuntimeTerminalAdmission) option" where
  "admit_terminal_route c t =
     (case phase c of
        Accepting \<Rightarrow> Some (Inr (Ordinary (Some t)))
      | ClosingLaunch \<Rightarrow> Some (Inr (Ordinary (Some t)))
      | Draining \<Rightarrow> None
      | TerminalClosed \<Rightarrow> Some (Inl Closed))"

definition admit_terminal_active ::
    "PlannedShutdownCoordinator \<Rightarrow> RuntimeTerminalObservation \<Rightarrow>
     PlannedShutdownCoordinator \<times> (TerminalAdmissionError + bool) option" where
  "admit_terminal_active c obs =
     (case map_of (active c) (obs_key obs) of
        None \<Rightarrow> (c, None)
      | Some e \<Rightarrow>
          if binding e \<noteq> Some (obs_binding obs) then (c, Some (Inl RouteMismatch))
          else if obs_outcome obs = Cancelled \<and> \<not> planned_stop_requested e
          then (c, Some (Inl PlannedStopNotRequested))
          else
            (case (terminal_fingerprint e, terminal_outcome e) of
               (Some existing, Some existing_outcome) \<Rightarrow>
                 if existing \<noteq> obs_fingerprint obs \<or> existing_outcome \<noteq> obs_outcome obs
                 then (c, Some (Inl ConflictingTerminal))
                 else (c, Some (Inr (planned_stop_requested e)))
             | (None, None) \<Rightarrow>
                 (c\<lparr>active := AList.update (obs_key obs)
                      (e\<lparr>terminal_fingerprint := Some (obs_fingerprint obs),
                         terminal_outcome := Some (obs_outcome obs)\<rparr>) (active c)\<rparr>,
                  Some (Inr (planned_stop_requested e)))
             | _ \<Rightarrow> (c, Some (Inl ConflictingTerminal))))"

definition admit_terminal_settled ::
    "PlannedShutdownCoordinator \<Rightarrow> RuntimeTerminalObservation \<Rightarrow> TerminalAdmissionError + bool" where
  "admit_terminal_settled c obs =
     (case map_of (settled c) (obs_key obs) of
        None \<Rightarrow> Inl ExecutionNotActive
      | Some e \<Rightarrow>
          if settled_binding e \<noteq> obs_binding obs then Inl RouteMismatch
          else if settled_terminal_fingerprint e \<noteq> obs_fingerprint obs
            \<or> settled_terminal_outcome e \<noteq> obs_outcome obs
          then Inl ConflictingTerminal
          else if obs_outcome obs = Cancelled \<and> \<not> settled_planned_stop_requested e
          then Inl PlannedStopNotRequested
          else Inr (settled_planned_stop_requested e))"

definition planned_permit ::
    "PlannedShutdownCoordinator \<Rightarrow> nat \<Rightarrow> RuntimeTerminalObservation \<Rightarrow> bool \<Rightarrow> TerminalSettlementPermit" where
  "planned_permit c t obs stop =
     \<lparr>settlement_generation = generation c, observation = obs,
      settlement_planned_stop_requested = stop, settlement_guard = Some t\<rparr>"

definition authorizes ::
    "TerminalSettlementPermit \<Rightarrow> string \<Rightarrow> int \<Rightarrow> RuntimeTerminalOutcome \<Rightarrow> bool" where
  "authorizes p run epoch outcome =
     (settlement_generation p \<noteq> []
      \<and> key_agent_run_id (obs_key (observation p)) = run
      \<and> key_execution_epoch (obs_key (observation p)) = epoch
      \<and> obs_outcome (observation p) = outcome
      \<and> (outcome \<noteq> Cancelled \<or> settlement_planned_stop_requested p))"

definition admission_guard :: "RuntimeTerminalAdmission \<Rightarrow> nat option" where
  "admission_guard a = (case a of Ordinary g \<Rightarrow> g | Planned p \<Rightarrow> settlement_guard p)"

definition admission_complete :: "RuntimeTerminalAdmission \<Rightarrow> RuntimeTerminalAdmission" where
  "admission_complete a =
     (case a of Ordinary g \<Rightarrow> Ordinary None | Planned p \<Rightarrow> Planned (p\<lparr>settlement_guard := None\<rparr>))"

definition complete_settlement ::
    "PlannedShutdownCoordinator \<Rightarrow> RuntimeTerminalAdmission \<Rightarrow>
     PlannedShutdownCoordinator \<times> RuntimeTerminalAdmission" where
  "complete_settlement c a =
     (c\<lparr>terminal_gate := leave_read (admission_guard a) (terminal_gate c)\<rparr>, admission_complete a)"

section \<open>Admission of runtime callbacks, and the cutoff\<close>

definition enter_runtime_route_check :: "PlannedShutdownCoordinator \<Rightarrow> bool" where
  "enter_runtime_route_check c = runtime_routes_open c"

definition enter_runtime_route_guarded ::
    "PlannedShutdownCoordinator \<Rightarrow> nat \<Rightarrow> PlannedShutdownCoordinator \<times> nat option option" where
  "enter_runtime_route_guarded c t =
     (if \<not> runtime_routes_open c
      then (c\<lparr>runtime_route_gate := leave_read (Some t) (runtime_route_gate c)\<rparr>, None)
      else (c, Some (Some t)))"

definition complete_callback ::
    "PlannedShutdownCoordinator \<Rightarrow> nat option \<Rightarrow> PlannedShutdownCoordinator" where
  "complete_callback c g = c\<lparr>runtime_route_gate := leave_read g (runtime_route_gate c)\<rparr>"

definition close_terminal_phase :: "PlannedShutdownCoordinator \<Rightarrow> PlannedShutdownCoordinator" where
  "close_terminal_phase c = c\<lparr>phase := TerminalClosed\<rparr>"

definition close_runtime_routes :: "PlannedShutdownCoordinator \<Rightarrow> PlannedShutdownCoordinator" where
  "close_runtime_routes c = c\<lparr>runtime_routes_open := False\<rparr>"

definition close_terminal_and_runtime_route_admission ::
    "PlannedShutdownCoordinator \<Rightarrow> PlannedShutdownCoordinator" where
  "close_terminal_and_runtime_route_admission c = close_runtime_routes (close_terminal_phase c)"

definition drained_terminal_and_runtime_routes :: "PlannedShutdownCoordinator \<Rightarrow> bool \<times> bool" where
  "drained_terminal_and_runtime_routes c = (can_write (terminal_gate c), can_write (runtime_route_gate c))"

definition no_active :: "PlannedShutdownCoordinator \<Rightarrow> bool" where
  "no_active c = (active c = [])"

end
