(* ===== verification/Shutdown_World.thy ===== *)
theory Shutdown_World
  imports Shutdown
begin

text \<open>
  The coordinator of \<open>Shutdown\<close> under concurrency. Any number of tasks launch runs, close the
  launch admission, deliver terminal observations and callbacks, and remove executions; a step of
  the world is one stretch of one task between two suspension points, and which task moves next is
  not determined. A task that waits for a gate moves only when the gate lets it. A deadline may
  pass at any time, so a waiting closer may always give up.
\<close>

section \<open>The world and its steps\<close>

datatype launch_task = LaunchIdle | LaunchWaiting | LaunchGuarded | LaunchHolds ExecutionLaunchPermit | LaunchOver

datatype closer_task = CloserIdle | CloserWaiting | CloserHolds | CloserOver bool

datatype terminal_task =
  TerminalIdle
| TerminalWaiting RuntimeTerminalObservation
| TerminalGuarded RuntimeTerminalObservation
| TerminalDraining RuntimeTerminalObservation
| TerminalSettled RuntimeTerminalObservation
| TerminalAdmitted RuntimeTerminalAdmission
| TerminalRejected TerminalAdmissionError

datatype route_task = RouteIdle | RouteWaiting | RouteGuarded | RouteHolds "nat option" | RouteOver

record World =
  coord :: PlannedShutdownCoordinator
  launches :: "nat \<Rightarrow> launch_task"
  closers :: "nat \<Rightarrow> closer_task"
  terminals :: "nat \<Rightarrow> terminal_task"
  routes :: "nat \<Rightarrow> route_task"
  settling :: "(ActiveExecutionKey \<times> ActiveExecution) list"

definition start_world :: "string \<Rightarrow> World" where
  "start_world g =
     \<lparr>coord = new_coordinator g, launches = (\<lambda>_. LaunchIdle), closers = (\<lambda>_. CloserIdle),
      terminals = (\<lambda>_. TerminalIdle), routes = (\<lambda>_. RouteIdle), settling = []\<rparr>"

definition set_launch :: "nat \<Rightarrow> launch_task \<Rightarrow> PlannedShutdownCoordinator \<Rightarrow> World \<Rightarrow> World" where
  "set_launch i t c w = w\<lparr>coord := c, launches := (launches w)(i := t)\<rparr>"

definition set_closer :: "nat \<Rightarrow> closer_task \<Rightarrow> PlannedShutdownCoordinator \<Rightarrow> World \<Rightarrow> World" where
  "set_closer i t c w = w\<lparr>coord := c, closers := (closers w)(i := t)\<rparr>"

definition set_terminal :: "nat \<Rightarrow> terminal_task \<Rightarrow> PlannedShutdownCoordinator \<Rightarrow> World \<Rightarrow> World" where
  "set_terminal i t c w = w\<lparr>coord := c, terminals := (terminals w)(i := t)\<rparr>"

definition set_route :: "nat \<Rightarrow> route_task \<Rightarrow> PlannedShutdownCoordinator \<Rightarrow> World \<Rightarrow> World" where
  "set_route i t c w = w\<lparr>coord := c, routes := (routes w)(i := t)\<rparr>"

definition leave_terminal :: "nat \<Rightarrow> PlannedShutdownCoordinator \<Rightarrow> PlannedShutdownCoordinator" where
  "leave_terminal i c = c\<lparr>terminal_gate := leave_read (Some i) (terminal_gate c)\<rparr>"

text \<open>The answer of the two looks at the executions, with the guard kept or dropped.\<close>

definition terminal_answer ::
    "nat \<Rightarrow> RuntimeTerminalObservation \<Rightarrow> PlannedShutdownCoordinator \<Rightarrow> TerminalAdmissionError + bool \<Rightarrow>
     World \<Rightarrow> World" where
  "terminal_answer i obs c r w =
     (case r of
        Inl err \<Rightarrow> set_terminal i (TerminalRejected err) (leave_terminal i c) w
      | Inr stop \<Rightarrow> set_terminal i (TerminalAdmitted (Planned (planned_permit c i obs stop))) c w)"

inductive world_step :: "World \<Rightarrow> World \<Rightarrow> bool" where
  launch_check:
    "launches w i = LaunchIdle \<Longrightarrow>
     world_step w (set_launch i (if enter_launch_check (coord w) then LaunchWaiting else LaunchOver) (coord w) w)"
| launch_guard:
    "launches w i = LaunchWaiting \<Longrightarrow> can_read (launch_gate (coord w)) \<Longrightarrow>
     world_step w (set_launch i LaunchGuarded
       ((coord w)\<lparr>launch_gate := enter_read i (launch_gate (coord w))\<rparr>) w)"
| launch_admit:
    "launches w i = LaunchGuarded \<Longrightarrow> enter_launch_guarded (coord w) i = (c, r) \<Longrightarrow>
     world_step w (set_launch i (case r of None \<Rightarrow> LaunchOver | Some p \<Rightarrow> LaunchHolds p) c w)"
| launch_register:
    "launches w i = LaunchHolds p \<Longrightarrow>
     world_step w (w\<lparr>coord := fst (register_active (coord w) p key kind)\<rparr>)"
| launch_handoff:
    "launches w i = LaunchHolds p \<Longrightarrow> complete_handoff (coord w) p key b = (c, p', ok) \<Longrightarrow>
     world_step w (set_launch i (LaunchHolds p') c w)"
| launch_finish:
    "launches w i = LaunchHolds p \<Longrightarrow> world_step w (w\<lparr>coord := finish_launch (coord w) p\<rparr>)"
| launch_drop:
    "launches w i = LaunchHolds p \<Longrightarrow> world_step w (set_launch i LaunchOver (drop_permit (coord w) p) w)"
| close_launch:
    "world_step w (w\<lparr>coord := close_launch_admission (coord w)\<rparr>)"
| closure_begin:
    "closers w i = CloserIdle \<Longrightarrow> finish_launch_closure_begin (coord w) = (c, r) \<Longrightarrow>
     world_step w (set_closer i (case r of None \<Rightarrow> CloserWaiting | Some b \<Rightarrow> CloserOver b) c w)"
| closure_guard:
    "closers w i = CloserWaiting \<Longrightarrow> can_write (launch_gate (coord w)) \<Longrightarrow>
     world_step w (set_closer i CloserHolds
       ((coord w)\<lparr>launch_gate := enter_write i (launch_gate (coord w))\<rparr>) w)"
| closure_timeout:
    "closers w i = CloserWaiting \<Longrightarrow> world_step w (set_closer i (CloserOver False) (coord w) w)"
| closure_barrier:
    "closers w i = CloserHolds \<Longrightarrow> finish_launch_closure_barrier (coord w) = (c, ok) \<Longrightarrow>
     world_step w (set_closer i (CloserOver ok) c w)"
| cancel:
    "world_step w (w\<lparr>coord := cancel_active (coord w) key\<rparr>)"
| bind:
    "world_step w (w\<lparr>coord := fst (bind_route (coord w) key b)\<rparr>)"
| mark:
    "world_step w (w\<lparr>coord := fst (mark_planned_stop_requested (coord w) key)\<rparr>)"
| take:
    "take_active (coord w) key cleanup = (c, Some e) \<Longrightarrow>
     world_step w (w\<lparr>coord := c, settling := (key, e) # settling w\<rparr>)"
| settle:
    "(key, e) \<in> set (settling w) \<Longrightarrow>
     world_step w (w\<lparr>coord := file_settled (coord w) key e, settling := remove1 (key, e) (settling w)\<rparr>)"
| remove_unbound:
    "world_step w (w\<lparr>coord := fst (remove_active_if_unbound (coord w) key)\<rparr>)"
| terminal_check:
    "terminals w i = TerminalIdle \<Longrightarrow>
     world_step w (set_terminal i
       (if admit_terminal_check (coord w) then TerminalWaiting obs else TerminalRejected Closed) (coord w) w)"
| terminal_guard:
    "terminals w i = TerminalWaiting obs \<Longrightarrow> can_read (terminal_gate (coord w)) \<Longrightarrow>
     world_step w (set_terminal i (TerminalGuarded obs)
       ((coord w)\<lparr>terminal_gate := enter_read i (terminal_gate (coord w))\<rparr>) w)"
| terminal_ordinary:
    "terminals w i = TerminalGuarded obs \<Longrightarrow> admit_terminal_route (coord w) i = Some (Inr a) \<Longrightarrow>
     world_step w (set_terminal i (TerminalAdmitted a) (coord w) w)"
| terminal_closed:
    "terminals w i = TerminalGuarded obs \<Longrightarrow> admit_terminal_route (coord w) i = Some (Inl err) \<Longrightarrow>
     world_step w (set_terminal i (TerminalRejected err) (leave_terminal i (coord w)) w)"
| terminal_planned:
    "terminals w i = TerminalGuarded obs \<Longrightarrow> admit_terminal_route (coord w) i = None \<Longrightarrow>
     world_step w (set_terminal i (TerminalDraining obs) (coord w) w)"
| terminal_active:
    "terminals w i = TerminalDraining obs \<Longrightarrow> admit_terminal_active (coord w) obs = (c, Some r) \<Longrightarrow>
     world_step w (terminal_answer i obs c r w)"
| terminal_not_active:
    "terminals w i = TerminalDraining obs \<Longrightarrow> admit_terminal_active (coord w) obs = (c, None) \<Longrightarrow>
     world_step w (set_terminal i (TerminalSettled obs) c w)"
| terminal_settled:
    "terminals w i = TerminalSettled obs \<Longrightarrow>
     world_step w (terminal_answer i obs (coord w) (admit_terminal_settled (coord w) obs) w)"
| terminal_complete:
    "terminals w i = TerminalAdmitted a \<Longrightarrow> complete_settlement (coord w) a = (c, a') \<Longrightarrow>
     world_step w (set_terminal i (TerminalAdmitted a') c w)"
| route_check:
    "routes w i = RouteIdle \<Longrightarrow>
     world_step w (set_route i (if enter_runtime_route_check (coord w) then RouteWaiting else RouteOver) (coord w) w)"
| route_guard:
    "routes w i = RouteWaiting \<Longrightarrow> can_read (runtime_route_gate (coord w)) \<Longrightarrow>
     world_step w (set_route i RouteGuarded
       ((coord w)\<lparr>runtime_route_gate := enter_read i (runtime_route_gate (coord w))\<rparr>) w)"
| route_admit:
    "routes w i = RouteGuarded \<Longrightarrow> enter_runtime_route_guarded (coord w) i = (c, r) \<Longrightarrow>
     world_step w (set_route i (case r of None \<Rightarrow> RouteOver | Some g \<Rightarrow> RouteHolds g) c w)"
| route_complete:
    "routes w i = RouteHolds g \<Longrightarrow>
     world_step w (set_route i (RouteHolds None) (complete_callback (coord w) g) w)"
| close_phase:
    "world_step w (w\<lparr>coord := close_terminal_phase (coord w)\<rparr>)"
| close_routes:
    "world_step w (w\<lparr>coord := close_runtime_routes (coord w)\<rparr>)"

lemmas set_task_simps = set_launch_def set_closer_def set_terminal_def set_route_def
  leave_terminal_def terminal_answer_def

lemma set_task_sels [simp]:
  "coord (set_launch i t c w) = c" "launches (set_launch i t c w) = (launches w)(i := t)"
  "closers (set_launch i t c w) = closers w" "terminals (set_launch i t c w) = terminals w"
  "routes (set_launch i t c w) = routes w" "settling (set_launch i t c w) = settling w"
  "coord (set_closer i u c w) = c" "launches (set_closer i u c w) = launches w"
  "closers (set_closer i u c w) = (closers w)(i := u)" "terminals (set_closer i u c w) = terminals w"
  "routes (set_closer i u c w) = routes w" "settling (set_closer i u c w) = settling w"
  "coord (set_terminal i v c w) = c" "launches (set_terminal i v c w) = launches w"
  "closers (set_terminal i v c w) = closers w" "terminals (set_terminal i v c w) = (terminals w)(i := v)"
  "routes (set_terminal i v c w) = routes w" "settling (set_terminal i v c w) = settling w"
  "coord (set_route i x c w) = c" "launches (set_route i x c w) = launches w"
  "closers (set_route i x c w) = closers w" "terminals (set_route i x c w) = terminals w"
  "routes (set_route i x c w) = (routes w)(i := x)" "settling (set_route i x c w) = settling w"
  by (simp_all add: set_launch_def set_closer_def set_terminal_def set_route_def)

lemma terminal_answer_sels [simp]:
  "launches (terminal_answer i obs c r w) = launches w" "closers (terminal_answer i obs c r w) = closers w"
  "routes (terminal_answer i obs c r w) = routes w" "settling (terminal_answer i obs c r w) = settling w"
  "phase (coord (terminal_answer i obs c r w)) = phase c"
  "active (coord (terminal_answer i obs c r w)) = active c"
  "settled (coord (terminal_answer i obs c r w)) = settled c"
  "generation (coord (terminal_answer i obs c r w)) = generation c"
  "launch_gate (coord (terminal_answer i obs c r w)) = launch_gate c"
  "runtime_route_gate (coord (terminal_answer i obs c r w)) = runtime_route_gate c"
  "runtime_routes_open (coord (terminal_answer i obs c r w)) = runtime_routes_open c"
  by (simp_all add: terminal_answer_def leave_terminal_def split: sum.splits)

lemmas coord_simps = enter_launch_check_def enter_launch_guarded_def register_active_def
  complete_handoff_def finish_launch_def drop_permit_def close_launch_admission_def
  finish_launch_closure_begin_def finish_launch_closure_barrier_def cancel_active_def
  bind_route_def mark_planned_stop_requested_def take_active_def file_settled_def
  remove_active_if_unbound_def admit_terminal_check_def admit_terminal_route_def
  admit_terminal_active_def admit_terminal_settled_def planned_permit_def complete_settlement_def
  enter_runtime_route_check_def enter_runtime_route_guarded_def complete_callback_def
  close_terminal_phase_def close_runtime_routes_def

section \<open>What each operation leaves alone\<close>

definition same_gates :: "PlannedShutdownCoordinator \<Rightarrow> PlannedShutdownCoordinator \<Rightarrow> bool" where
  "same_gates c c' =
     (phase c' = phase c \<and> launch_gate c' = launch_gate c \<and> terminal_gate c' = terminal_gate c
      \<and> runtime_route_gate c' = runtime_route_gate c \<and> runtime_routes_open c' = runtime_routes_open c)"

lemma same_gates_ops:
  "same_gates c (fst (register_active c p key kind))"
  "same_gates c (finish_launch c p)"
  "same_gates c (cancel_active c key)"
  "same_gates c (fst (bind_route c key b))"
  "same_gates c (fst (mark_planned_stop_requested c key))"
  "same_gates c (fst (take_active c key cleanup))"
  "same_gates c (file_settled c key e)"
  "same_gates c (fst (remove_active_if_unbound c key))"
  "same_gates c (fst (admit_terminal_active c obs))"
  by (simp_all add: same_gates_def coord_simps split: option.splits)

lemma same_gates_eqs:
  "take_active c key cleanup = (c', r) \<Longrightarrow> same_gates c c'"
  "admit_terminal_active c obs = (c', s) \<Longrightarrow> same_gates c c'"
  using same_gates_ops(6) [of c key cleanup] same_gates_ops(9) [of c obs] by simp_all

lemmas gate_frame = same_gates_ops [unfolded same_gates_def] same_gates_eqs [unfolded same_gates_def]

text \<open>The operations that touch one gate or the phase only leave the executions alone.\<close>

lemma complete_handoff_cases:
  assumes "complete_handoff c p key b = (c', p', ok)"
  shows "(c' = fst (bind_route c key b) \<or> c' = c) \<and> p' = p
    \<or> permit_guard p \<noteq> None \<and> p' = p\<lparr>permit_guard := None\<rparr>
      \<and> c' = (fst (bind_route c key b))\<lparr>launch_gate := leave_read (permit_guard p) (launch_gate c)\<rparr>"
proof (cases "bind_route c key b")
  case (Pair c1 r)
  have "launch_gate c1 = launch_gate c"
    using same_gates_ops(4) [of c key b] Pair by (simp add: same_gates_def)
  with assms Pair show ?thesis
    by (cases r) (auto simp: complete_handoff_def split: if_splits)
qed

section \<open>Gates and their holders\<close>

text \<open>
  A gate is used well when whoever believes to hold a guard of it is on its list, and a writer
  excludes all readers.
\<close>

definition gate_inv :: "gate \<Rightarrow> (nat \<Rightarrow> nat option) \<Rightarrow> (nat \<Rightarrow> bool) \<Rightarrow> bool" where
  "gate_inv g rd wr =
     ((\<forall>i x. rd i = Some x \<longrightarrow> x = i \<and> i \<in> readers g)
      \<and> (\<forall>i. wr i \<longrightarrow> writer g = Some i)
      \<and> (writer g = None \<or> readers g = {}))"

lemma gate_inv_read: "gate_inv g rd wr \<Longrightarrow> can_read g \<Longrightarrow> gate_inv (enter_read i g) (rd(i := Some i)) wr"
  by (simp add: gate_inv_def gate_simps)

lemma gate_inv_leave: "gate_inv g rd wr \<Longrightarrow> rd i = x \<Longrightarrow> gate_inv (leave_read x g) (rd(i := None)) wr"
  by (cases x) (auto simp: gate_inv_def gate_simps)

lemma gate_inv_write: "gate_inv g rd wr \<Longrightarrow> can_write g \<Longrightarrow> gate_inv (enter_write i g) rd (wr(i := True))"
  by (simp add: gate_inv_def gate_simps)

lemma gate_inv_leave_write: "gate_inv g rd wr \<Longrightarrow> wr i \<Longrightarrow> gate_inv (leave_write g) rd (wr(i := False))"
  by (simp add: gate_inv_def gate_simps) (metis option.inject)

lemma gate_inv_writer: "gate_inv g rd wr \<Longrightarrow> wr i \<Longrightarrow> rd j = None"
  by (cases "rd j") (auto simp: gate_inv_def)

lemma gate_inv_drained: "gate_inv g rd wr \<Longrightarrow> can_write g \<Longrightarrow> rd j = None"
  by (cases "rd j") (auto simp: gate_inv_def gate_simps)

fun launch_guard_of :: "nat \<Rightarrow> launch_task \<Rightarrow> nat option" where
  "launch_guard_of i LaunchGuarded = Some i"
| "launch_guard_of i (LaunchHolds p) = permit_guard p"
| "launch_guard_of i _ = None"

fun terminal_guard_of :: "nat \<Rightarrow> terminal_task \<Rightarrow> nat option" where
  "terminal_guard_of i (TerminalGuarded obs) = Some i"
| "terminal_guard_of i (TerminalDraining obs) = Some i"
| "terminal_guard_of i (TerminalSettled obs) = Some i"
| "terminal_guard_of i (TerminalAdmitted a) = admission_guard a"
| "terminal_guard_of i _ = None"

fun route_guard_of :: "nat \<Rightarrow> route_task \<Rightarrow> nat option" where
  "route_guard_of i RouteGuarded = Some i"
| "route_guard_of i (RouteHolds g) = g"
| "route_guard_of i _ = None"

text \<open>The guards held once task \<open>i\<close> has moved on.\<close>

definition guards_of :: "(nat \<Rightarrow> 'a \<Rightarrow> nat option) \<Rightarrow> (nat \<Rightarrow> 'a) \<Rightarrow> nat \<Rightarrow> nat option" where
  "guards_of h f = (\<lambda>j. h j (f j))"

definition writers :: "(nat \<Rightarrow> closer_task) \<Rightarrow> nat \<Rightarrow> bool" where
  "writers f = (\<lambda>j. f j = CloserHolds)"

lemma guards_of_upd [simp]:
  "guards_of h (f(i := t)) = (guards_of h f)(i := h i t)" "guards_of h f i = h i (f i)"
  "writers (f'(i := u)) = (writers f')(i := (u = CloserHolds))" "writers f' i = (f' i = CloserHolds)"
  by (auto simp: guards_of_def writers_def)

definition launch_inv :: "World \<Rightarrow> bool" where
  "launch_inv w =
     gate_inv (launch_gate (coord w)) (guards_of launch_guard_of (launches w)) (writers (closers w))"

definition terminal_inv :: "World \<Rightarrow> bool" where
  "terminal_inv w =
     gate_inv (terminal_gate (coord w)) (guards_of terminal_guard_of (terminals w)) (\<lambda>_. False)"

definition route_inv :: "World \<Rightarrow> bool" where
  "route_inv w =
     gate_inv (runtime_route_gate (coord w)) (guards_of route_guard_of (routes w)) (\<lambda>_. False)"

lemmas world_invs = launch_inv_def terminal_inv_def route_inv_def

lemma world_invs_start: "launch_inv (start_world g)" "terminal_inv (start_world g)" "route_inv (start_world g)"
  by (simp_all add: world_invs gate_inv_def start_world_def new_coordinator_def open_gate_def)

lemma launch_inv_step: "world_step w w' \<Longrightarrow> launch_inv w \<Longrightarrow> launch_inv w'"
proof (induction rule: world_step.induct)
  case (launch_guard w i)
  then show ?case using gate_inv_read [where i = i] by (simp add: launch_inv_def)
next
  case (launch_admit w i c r)
  then show ?case
    using gate_inv_leave [of "launch_gate (coord w)" "guards_of launch_guard_of (launches w)" _ i "Some i"]
    by (auto simp: launch_inv_def enter_launch_guarded_def fun_upd_idem split: if_splits)
next
  case (launch_handoff w i p key b c p' ok)
  then show ?case
    using complete_handoff_cases [OF launch_handoff(2)]
      gate_inv_leave [of "launch_gate (coord w)" "guards_of launch_guard_of (launches w)" _ i "permit_guard p"]
    by (auto simp: launch_inv_def gate_frame fun_upd_idem)
next
  case (launch_drop w i p)
  then show ?case
    using gate_inv_leave [of "launch_gate (coord w)" "guards_of launch_guard_of (launches w)" _ i "permit_guard p"]
    by (simp add: launch_inv_def drop_permit_def finish_launch_def Let_def)
next
  case (closure_begin w i c r)
  then have "launch_gate c = launch_gate (coord w)"
    by (auto simp: finish_launch_closure_begin_def close_launch_admission_def Let_def)
  with closure_begin show ?case by (simp add: launch_inv_def fun_upd_idem split: option.splits)
next
  case (closure_guard w i)
  then show ?case using gate_inv_write [where i = i] by (simp add: launch_inv_def)
next
  case (closure_barrier w i c ok)
  then have "launch_gate c = leave_write (launch_gate (coord w))"
    by (auto simp: finish_launch_closure_barrier_def Let_def)
  with closure_barrier show ?case using gate_inv_leave_write [where i = i] by (simp add: launch_inv_def)
next
  case (route_admit w i c r)
  then show ?case by (auto simp: launch_inv_def enter_runtime_route_guarded_def split: if_splits)
next
  case (terminal_complete w i a c a')
  then show ?case by (auto simp: launch_inv_def complete_settlement_def)
qed (simp_all add: launch_inv_def gate_frame close_launch_admission_def leave_terminal_def fun_upd_idem
  finish_launch_def complete_callback_def close_terminal_phase_def close_runtime_routes_def
  complete_settlement_def)

lemma leave_terminal_gates [simp]:
  "terminal_gate (leave_terminal i c) = leave_read (Some i) (terminal_gate c)"
  "runtime_route_gate (leave_terminal i c) = runtime_route_gate c"
  "launch_gate (leave_terminal i c) = launch_gate c" "phase (leave_terminal i c) = phase c"
  "active (leave_terminal i c) = active c" "settled (leave_terminal i c) = settled c"
  "runtime_routes_open (leave_terminal i c) = runtime_routes_open c"
  "generation (leave_terminal i c) = generation c"
  by (simp_all add: leave_terminal_def)

lemma complete_handoff_frame:
  assumes "complete_handoff c p key b = (c', p', ok)"
  shows "terminal_gate c' = terminal_gate c" "runtime_route_gate c' = runtime_route_gate c"
    "phase c' = phase c" "runtime_routes_open c' = runtime_routes_open c"
    "settled c' = settled c"
  using complete_handoff_cases [OF assms] same_gates_ops(4) [of c key b]
  by (auto simp: same_gates_def bind_route_def split: option.splits)

lemma complete_handoff_guard:
  assumes "complete_handoff c p key b = (c', p', ok)" and "permit_guard p = None"
  shows "permit_guard p' = None"
  using assms by (simp add: complete_handoff_def)

lemma terminal_answer_inv:
  assumes "terminal_inv w" and "terminal_gate c = terminal_gate (coord w)"
    and "terminal_guard_of i (terminals w i) = Some i"
  shows "terminal_inv (terminal_answer i obs c r w)"
proof (cases r)
  case (Inl err)
  then show ?thesis
    using assms gate_inv_leave [of "terminal_gate (coord w)" "guards_of terminal_guard_of (terminals w)" _ i "Some i"]
    by (simp add: terminal_inv_def terminal_answer_def)
next
  case (Inr stop)
  then show ?thesis
    using assms by (simp add: terminal_inv_def terminal_answer_def planned_permit_def admission_guard_def fun_upd_idem)
qed

lemma terminal_inv_step: "world_step w w' \<Longrightarrow> terminal_inv w \<Longrightarrow> terminal_inv w'"
proof (induction rule: world_step.induct)
  case (terminal_guard w i obs)
  then show ?case using gate_inv_read [where i = i] by (simp add: terminal_inv_def)
next
  case (terminal_ordinary w i obs a)
  then have "admission_guard a = Some i"
    by (auto simp: admit_terminal_route_def admission_guard_def split: ShutdownPhase.splits)
  with terminal_ordinary show ?case by (simp add: terminal_inv_def fun_upd_idem)
next
  case (terminal_closed w i obs err)
  then show ?case
    using gate_inv_leave [of "terminal_gate (coord w)" "guards_of terminal_guard_of (terminals w)" _ i "Some i"]
    by (simp add: terminal_inv_def)
next
  case (terminal_active w i obs c r)
  then show ?case by (intro terminal_answer_inv) (simp_all add: gate_frame)
next
  case (terminal_settled w i obs)
  then show ?case by (intro terminal_answer_inv) simp_all
next
  case (terminal_complete w i a c a')
  then show ?case
    using gate_inv_leave [of "terminal_gate (coord w)" "guards_of terminal_guard_of (terminals w)" _ i "admission_guard a"]
    by (auto simp: terminal_inv_def complete_settlement_def admission_complete_def admission_guard_def
      split: RuntimeTerminalAdmission.splits)
next
  case (launch_admit w i c r)
  then show ?case by (auto simp: terminal_inv_def enter_launch_guarded_def split: if_splits)
next
  case (route_admit w i c r)
  then show ?case by (auto simp: terminal_inv_def enter_runtime_route_guarded_def split: if_splits)
next
  case (closure_begin w i c r)
  then have "terminal_gate c = terminal_gate (coord w)"
    by (auto simp: finish_launch_closure_begin_def close_launch_admission_def Let_def)
  with closure_begin show ?case by (simp add: terminal_inv_def)
next
  case (closure_barrier w i c ok)
  then have "terminal_gate c = terminal_gate (coord w)"
    by (auto simp: finish_launch_closure_barrier_def Let_def)
  with closure_barrier show ?case by (simp add: terminal_inv_def)
qed (simp_all add: terminal_inv_def gate_frame complete_handoff_frame close_launch_admission_def fun_upd_idem
  drop_permit_def finish_launch_def complete_callback_def close_terminal_phase_def close_runtime_routes_def Let_def)

lemma route_inv_step: "world_step w w' \<Longrightarrow> route_inv w \<Longrightarrow> route_inv w'"
proof (induction rule: world_step.induct)
  case (route_guard w i)
  then show ?case using gate_inv_read [where i = i] by (simp add: route_inv_def)
next
  case (route_admit w i c r)
  then show ?case
    using gate_inv_leave [of "runtime_route_gate (coord w)" "guards_of route_guard_of (routes w)" _ i "Some i"]
    by (auto simp: route_inv_def enter_runtime_route_guarded_def fun_upd_idem split: if_splits)
next
  case (route_complete w i g)
  then show ?case
    using gate_inv_leave [of "runtime_route_gate (coord w)" "guards_of route_guard_of (routes w)" _ i g]
    by (simp add: route_inv_def complete_callback_def)
next
  case (launch_admit w i c r)
  then show ?case by (auto simp: route_inv_def enter_launch_guarded_def split: if_splits)
next
  case (closure_begin w i c r)
  then have "runtime_route_gate c = runtime_route_gate (coord w)"
    by (auto simp: finish_launch_closure_begin_def close_launch_admission_def Let_def)
  with closure_begin show ?case by (simp add: route_inv_def)
next
  case (closure_barrier w i c ok)
  then have "runtime_route_gate c = runtime_route_gate (coord w)"
    by (auto simp: finish_launch_closure_barrier_def Let_def)
  with closure_barrier show ?case by (simp add: route_inv_def)
next
  case (terminal_complete w i a c a')
  then show ?case by (auto simp: route_inv_def complete_settlement_def)
qed (simp_all add: route_inv_def gate_frame complete_handoff_frame close_launch_admission_def fun_upd_idem
  drop_permit_def finish_launch_def close_terminal_phase_def close_runtime_routes_def Let_def)

section \<open>The phase only moves forward\<close>

lemma phase_step: "world_step w w' \<Longrightarrow> phase_as_u8 (phase (coord w)) \<le> phase_as_u8 (phase (coord w'))"
proof (induction rule: world_step.induct)
  case (launch_admit w i c r)
  then show ?case by (auto simp: enter_launch_guarded_def split: if_splits)
next
  case (closure_begin w i c r)
  then show ?case by (auto simp: finish_launch_closure_begin_def close_launch_admission_def Let_def)
next
  case (closure_barrier w i c ok)
  then show ?case by (auto simp: finish_launch_closure_barrier_def Let_def split: if_splits)
next
  case (route_admit w i c r)
  then show ?case by (auto simp: enter_runtime_route_guarded_def split: if_splits)
next
  case (terminal_complete w i a c a')
  then show ?case by (auto simp: complete_settlement_def)
next
  case (close_phase w)
  then show ?case by (cases "phase (coord w)") (simp_all add: close_terminal_phase_def)
qed (simp_all add: gate_frame complete_handoff_frame close_launch_admission_def
  drop_permit_def finish_launch_def complete_callback_def close_runtime_routes_def Let_def)

section \<open>The launch barrier\<close>

text \<open>
  The barrier is behind a world in which no launch can be admitted any more and no launch that was
  admitted still holds its guard.
\<close>

definition past_barrier :: "World \<Rightarrow> bool" where
  "past_barrier w =
     (phase (coord w) \<in> {Draining, TerminalClosed}
      \<and> (\<forall>i p. launches w i = LaunchHolds p \<longrightarrow> permit_guard p = None))"

lemma past_barrier_frame:
  "past_barrier w \<Longrightarrow> phase (coord w') = phase (coord w) \<Longrightarrow> launches w' = launches w \<Longrightarrow> past_barrier w'"
  by (simp add: past_barrier_def)

lemma past_barrier_upd:
  "past_barrier w \<Longrightarrow> phase (coord w') = phase (coord w) \<Longrightarrow> launches w' = (launches w)(i := t) \<Longrightarrow>
   (\<And>p. t = LaunchHolds p \<Longrightarrow> permit_guard p = None) \<Longrightarrow> past_barrier w'"
  by (simp add: past_barrier_def)

lemma past_barrier_step: "world_step w w' \<Longrightarrow> past_barrier w \<Longrightarrow> past_barrier w'"
proof (induction rule: world_step.induct)
  case (launch_check w i)
  then show ?case by - (rule past_barrier_upd [of w _ i], auto split: if_splits)
next
  case (launch_guard w i)
  then show ?case by - (rule past_barrier_upd [of w _ i], auto split: if_splits)
next
  case (launch_admit w i c r)
  then show ?case
    by - (rule past_barrier_upd [of w _ i],
      auto simp: enter_launch_guarded_def past_barrier_def split: if_splits)
next
  case (launch_handoff w i p key b c p' ok)
  moreover have "permit_guard p' = None"
    using launch_handoff(1,3) by (intro complete_handoff_guard [OF launch_handoff(2)]) (simp add: past_barrier_def)
  ultimately show ?case
    using complete_handoff_frame(3) [OF launch_handoff(2)] by - (rule past_barrier_upd [of w _ i], auto)
next
  case (launch_drop w i p)
  then show ?case
    by - (rule past_barrier_upd [of w _ i], (auto simp: drop_permit_def finish_launch_def Let_def))
next
  case (closure_begin w i c r)
  then have "phase c = phase (coord w)"
    by (auto simp: past_barrier_def finish_launch_closure_begin_def close_launch_admission_def Let_def)
  with closure_begin show ?case by - (rule past_barrier_frame [of w], simp_all)
next
  case (closure_barrier w i c ok)
  then have "phase c = phase (coord w)"
    by (auto simp: past_barrier_def finish_launch_closure_barrier_def Let_def)
  with closure_barrier show ?case by - (rule past_barrier_frame [of w], simp_all)
next
  case (route_admit w i c r)
  then have "phase c = phase (coord w)" by (auto simp: enter_runtime_route_guarded_def split: if_splits)
  with route_admit show ?case by - (rule past_barrier_frame [of w], simp_all)
next
  case (terminal_complete w i a c a')
  then show ?case by - (rule past_barrier_frame [of w], (auto simp: complete_settlement_def))
next
  case (close_phase w)
  then show ?case by (simp add: past_barrier_def close_terminal_phase_def)
next
  case (close_launch w)
  then show ?case by (auto simp: past_barrier_def close_launch_admission_def)
qed (erule past_barrier_frame; simp add: gate_frame finish_launch_def complete_callback_def close_runtime_routes_def)+

text \<open>A world that admits planned settlements is past the barrier.\<close>

definition barrier_inv :: "World \<Rightarrow> bool" where
  "barrier_inv w =
     ((phase (coord w) = Draining \<longrightarrow> past_barrier w)
      \<and> (\<forall>i obs. terminals w i = TerminalDraining obs \<or> terminals w i = TerminalSettled obs \<longrightarrow> past_barrier w))"

lemma barrier_inv_frame:
  assumes "barrier_inv w" and "world_step w w'"
    and "phase (coord w') = Draining \<longrightarrow> phase (coord w) = Draining"
    and "\<And>i obs. terminals w' i = TerminalDraining obs \<or> terminals w' i = TerminalSettled obs \<Longrightarrow>
      past_barrier w \<or> (\<exists>obs. terminals w i = TerminalDraining obs \<or> terminals w i = TerminalSettled obs)"
  shows "barrier_inv w'"
proof -
  have "past_barrier w'" if "past_barrier w" using past_barrier_step assms(2) that by blast
  then show ?thesis using assms(1,3,4) unfolding barrier_inv_def by blast
qed

lemma terminal_answer_not_draining:
  "terminals (terminal_answer i obs c r w) j = TerminalDraining x \<or>
   terminals (terminal_answer i obs c r w) j = TerminalSettled x \<Longrightarrow>
   terminals w j = TerminalDraining x \<or> terminals w j = TerminalSettled x"
  by (auto simp: terminal_answer_def split: sum.splits if_splits)

lemma phase_frames:
  "enter_launch_guarded c i = (c', r) \<Longrightarrow> phase c' = phase c"
  "finish_launch_closure_begin c = (c', b) \<Longrightarrow> phase c' = Draining \<longleftrightarrow> phase c = Draining"
  "enter_runtime_route_guarded c i = (c', x) \<Longrightarrow> phase c' = phase c"
  "complete_settlement c a = (c', a') \<Longrightarrow> phase c' = phase c"
  by (auto simp: enter_launch_guarded_def finish_launch_closure_begin_def close_launch_admission_def
    enter_runtime_route_guarded_def complete_settlement_def Let_def split: if_splits)

lemma barrier_inv_step:
  assumes "world_step w w'" and "launch_inv w" and "barrier_inv w"
  shows "barrier_inv w'"
  using assms(1)
proof (cases rule: world_step.cases)
  case (closure_barrier i c ok)
  have "launch_guard_of j (launches w j) = None" for j
    using gate_inv_writer [of "launch_gate (coord w)" "guards_of launch_guard_of (launches w)" "writers (closers w)" i j]
      assms(2) closure_barrier by (simp add: launch_inv_def guards_of_def)
  then have none: "permit_guard p = None" if "launches w j = LaunchHolds p" for j p
    using that by (metis launch_guard_of.simps(2))
  have "past_barrier w'" if "phase (coord w) = ClosingLaunch"
    using closure_barrier none that by (auto simp: past_barrier_def finish_launch_closure_barrier_def Let_def)
  moreover have "phase (coord w) \<noteq> ClosingLaunch \<Longrightarrow> phase c = phase (coord w)"
    using closure_barrier by (auto simp: finish_launch_closure_barrier_def Let_def)
  ultimately show ?thesis
    using closure_barrier barrier_inv_frame [OF assms(3,1)] by (cases "phase (coord w) = ClosingLaunch")
      (auto simp: barrier_inv_def)
next
  case (terminal_planned i obs)
  then have "phase (coord w) = Draining"
    by (auto simp: admit_terminal_route_def split: ShutdownPhase.splits)
  then have "past_barrier w" using assms(3) by (simp add: barrier_inv_def)
  with terminal_planned show ?thesis by (intro barrier_inv_frame [OF assms(3,1)]) auto
next
  case (terminal_active i obs c r)
  then show ?thesis
    using terminal_answer_not_draining [of i obs c r w]
    by (intro barrier_inv_frame [OF assms(3,1)]) (auto simp: gate_frame)
next
  case (terminal_settled i obs)
  then show ?thesis
    using terminal_answer_not_draining [of i obs "coord w" "admit_terminal_settled (coord w) obs" w]
    by (intro barrier_inv_frame [OF assms(3,1)]) auto
next
  case (close_launch)
  then show ?thesis
    by (intro barrier_inv_frame [OF assms(3,1)]) (auto simp: close_launch_admission_def)
next
  case (launch_drop i p)
  then show ?thesis
    by (intro barrier_inv_frame [OF assms(3,1)]) (auto simp: drop_permit_def finish_launch_def Let_def)
qed (rule barrier_inv_frame [OF assms(3,1)];
  auto simp: gate_frame phase_frames complete_handoff_frame finish_launch_def complete_callback_def
    close_terminal_phase_def close_runtime_routes_def split: if_splits)+

section \<open>One record of the outcome per execution\<close>

text \<open>
  The outcome the coordinator has on record for an execution: its route, fingerprint and outcome.
  The record is in \<open>active\<close>, then with the task that removed the execution, then in
  \<open>settled\<close>.
\<close>

type_synonym outcome_record = "RuntimeRouteBinding \<times> string \<times> RuntimeTerminalOutcome"

definition finished_of :: "ActiveExecution \<Rightarrow> outcome_record set" where
  "finished_of e =
     (case (binding e, terminal_fingerprint e, terminal_outcome e) of
        (Some b, Some f, Some x) \<Rightarrow> {(b, f, x)} | _ \<Rightarrow> {})"

definition settled_record :: "SettledExecution \<Rightarrow> outcome_record" where
  "settled_record s = (settled_binding s, settled_terminal_fingerprint s, settled_terminal_outcome s)"

definition active_records :: "PlannedShutdownCoordinator \<Rightarrow> ActiveExecutionKey \<Rightarrow> outcome_record set" where
  "active_records c k = (case map_of (active c) k of None \<Rightarrow> {} | Some e \<Rightarrow> finished_of e)"

definition filed_records ::
    "PlannedShutdownCoordinator \<Rightarrow> (ActiveExecutionKey \<times> ActiveExecution) list \<Rightarrow> ActiveExecutionKey \<Rightarrow>
     outcome_record set" where
  "filed_records c stl k =
     {x. \<exists>e. (k, e) \<in> set stl \<and> x \<in> finished_of e} \<union> settled_record ` set_option (map_of (settled c) k)"

definition bound_finish :: "PlannedShutdownCoordinator \<Rightarrow> bool" where
  "bound_finish c = (\<forall>k e. map_of (active c) k = Some e \<and> terminal_fingerprint e \<noteq> None \<longrightarrow> binding e \<noteq> None)"

definition at_most_one :: "'a set \<Rightarrow> bool" where
  "at_most_one S = (\<forall>x\<in>S. \<forall>y\<in>S. x = y)"

definition records_ok ::
    "PlannedShutdownCoordinator \<Rightarrow> (ActiveExecutionKey \<times> ActiveExecution) list \<Rightarrow> bool" where
  "records_ok c stl =
     (bound_finish c
      \<and> (\<forall>k. map_of (active c) k \<noteq> None \<longrightarrow> filed_records c stl k = {})
      \<and> (\<forall>k. at_most_one (filed_records c stl k)))"

lemma finished_of_unique: "at_most_one (finished_of e)"
  by (simp add: finished_of_def at_most_one_def split: option.splits)

text \<open>The record of each execution after an operation, under the invariant.\<close>

definition all_records ::
    "PlannedShutdownCoordinator \<Rightarrow> (ActiveExecutionKey \<times> ActiveExecution) list \<Rightarrow> ActiveExecutionKey \<Rightarrow>
     outcome_record set" where
  "all_records c stl k = active_records c k \<union> filed_records c stl k"

lemma all_records_unique: "records_ok c stl \<Longrightarrow> at_most_one (all_records c stl k)"
  by (cases "map_of (active c) k")
    (auto simp: records_ok_def all_records_def active_records_def finished_of_unique)

lemma records_frame:
  assumes "active c' = active c" and "settled c' = settled c"
  shows "records_ok c' stl = records_ok c stl" "all_records c' stl = all_records c stl"
  using assms by (simp_all add: records_ok_def bound_finish_def filed_records_def all_records_def active_records_def fun_eq_iff)

text \<open>An entry rewritten in place.\<close>

lemma records_update_same:
  assumes "records_ok c stl" and "map_of (active c) k = Some e"
    and "finished_of e' = finished_of e" and "terminal_fingerprint e' \<noteq> None \<longrightarrow> binding e' \<noteq> None"
    and "active c' = AList.update k e' (active c)" and "settled c' = settled c"
  shows "records_ok c' stl" "all_records c' stl = all_records c stl"
  using assms by (auto simp: records_ok_def bound_finish_def filed_records_def all_records_def active_records_def
    update_conv' fun_eq_iff)

lemma finished_of_unbound: "binding e = None \<Longrightarrow> finished_of e = {}"
  and finished_of_blank: "terminal_fingerprint e = None \<Longrightarrow> finished_of e = {}"
  by (auto simp: finished_of_def split: option.splits)

lemma records_bind:
  assumes "records_ok c stl"
  shows "records_ok (fst (bind_route c k b)) stl" "all_records (fst (bind_route c k b)) stl = all_records c stl"
proof -
  have same: "records_ok c' stl \<and> all_records c' stl = all_records c stl"
    if e: "map_of (active c) k = Some e" "binding e = None"
      and c': "c' = c\<lparr>active := AList.update k (e\<lparr>binding := Some b\<rparr>) (active c)\<rparr>" for e c'
  proof -
    have "terminal_fingerprint e = None" using assms e unfolding records_ok_def bound_finish_def by blast
    then have "finished_of (e\<lparr>binding := Some b\<rparr>) = finished_of e" by (simp add: finished_of_blank)
    then show ?thesis
      using records_update_same [OF assms e(1), of "e\<lparr>binding := Some b\<rparr>" c'] c' by simp
  qed
  show "records_ok (fst (bind_route c k b)) stl"
    using assms same by (auto simp: bind_route_def split: option.splits)
  show "all_records (fst (bind_route c k b)) stl = all_records c stl"
    using same by (auto simp: bind_route_def split: option.splits)
qed

lemma records_mark:
  assumes "records_ok c stl"
  shows "records_ok (fst (mark_planned_stop_requested c k)) stl"
    "all_records (fst (mark_planned_stop_requested c k)) stl = all_records c stl"
proof -
  have same: "records_ok c' stl \<and> all_records c' stl = all_records c stl"
    if e: "map_of (active c) k = Some e"
      and c': "c' = c\<lparr>active := AList.update k (e\<lparr>planned_stop_requested := True\<rparr>) (active c)\<rparr>" for e c'
    using records_update_same [OF assms e, of "e\<lparr>planned_stop_requested := True\<rparr>" c'] c' assms e
    by (auto simp: finished_of_def records_ok_def bound_finish_def)
  show "records_ok (fst (mark_planned_stop_requested c k)) stl"
    using assms same by (auto simp: mark_planned_stop_requested_def split: option.splits)
  show "all_records (fst (mark_planned_stop_requested c k)) stl = all_records c stl"
    using same by (auto simp: mark_planned_stop_requested_def split: option.splits)
qed

lemma records_register:
  assumes "records_ok c stl" and "permit_guard p \<noteq> None \<Longrightarrow> all_records c stl k = {}"
  shows "records_ok (fst (register_active c p k kind)) stl"
    "all_records (fst (register_active c p k kind)) stl = all_records c stl"
  using assms
  by (auto simp: register_active_def records_ok_def bound_finish_def filed_records_def all_records_def
    active_records_def update_conv' fun_eq_iff finished_of_blank split: if_splits)

lemma records_remove_unbound:
  assumes "records_ok c stl"
  shows "records_ok (fst (remove_active_if_unbound c k)) stl"
    "all_records (fst (remove_active_if_unbound c k)) stl = all_records c stl"
  using assms
  by (auto simp: remove_active_if_unbound_def records_ok_def bound_finish_def filed_records_def all_records_def
    active_records_def delete_conv' fun_eq_iff finished_of_unbound split: option.splits)

lemma records_take:
  assumes "records_ok c stl" and "take_active c k cleanup = (c', Some e)"
  shows "records_ok c' ((k, e) # stl)" "all_records c' ((k, e) # stl) = all_records c stl"
proof -
  have e: "map_of (active c) k = Some e" and c': "active c' = AList.delete k (active c)" "settled c' = settled c"
    using assms(2) by (auto simp: take_active_def split: if_splits)
  have "filed_records c stl k = {}" using assms(1) e by (simp add: records_ok_def)
  then have filed: "filed_records c' ((k, e) # stl) j = (if j = k then finished_of e else filed_records c stl j)" for j
    using c' by (auto simp: filed_records_def)
  show "records_ok c' ((k, e) # stl)"
    using assms(1) c' filed by (auto simp: records_ok_def bound_finish_def delete_conv' finished_of_unique)
  show "all_records c' ((k, e) # stl) = all_records c stl"
    using filed e c' \<open>filed_records c stl k = {}\<close>
    by (auto simp: all_records_def active_records_def delete_conv' fun_eq_iff)
qed

lemma finished_of_file:
  assumes "finished_of e = {x}"
  shows "\<exists>s. settled (file_settled c k e) = AList.update k s (settled c) \<and> settled_record s = x"
  using assms by (auto simp: finished_of_def file_settled_def settled_record_def split: option.splits)

lemma file_settled_unfinished: "finished_of e = {} \<Longrightarrow> file_settled c k e = c"
  by (auto simp: finished_of_def file_settled_def split: option.splits)

lemma file_settled_active: "active (file_settled c k e) = active c"
  by (simp add: file_settled_def split: option.splits)

lemma finished_of_cases: obtains "finished_of e = {}" | x where "finished_of e = {x}"
  by (cases "binding e"; cases "terminal_fingerprint e"; cases "terminal_outcome e") (auto simp: finished_of_def)

lemma filed_records_settle:
  assumes "at_most_one (filed_records c stl k)" and "(k, e) \<in> set stl"
  shows "filed_records (file_settled c k e) (remove1 (k, e) stl) j = filed_records c stl j"
proof (cases rule: finished_of_cases [of e])
  case 1
  have "(j, e') \<in> set (remove1 (k, e) stl) \<and> x \<in> finished_of e' \<longleftrightarrow> (j, e') \<in> set stl \<and> x \<in> finished_of e'" for x e'
    using 1 by (cases "(j, e') = (k, e)") (auto simp: in_set_remove1)
  then show ?thesis using 1 unfolding filed_records_def by (simp only: file_settled_unfinished)
next
  case (2 x)
  then obtain s where s: "settled (file_settled c k e) = AList.update k s (settled c)" "settled_record s = x"
    using finished_of_file by blast
  have x: "x \<in> filed_records c stl k" using 2 assms(2) by (auto simp: filed_records_def)
  show ?thesis
  proof (cases "j = k")
    case True
    have "filed_records c stl k = {x}" using assms(1) x by (auto simp: at_most_one_def)
    moreover have "x \<in> filed_records (file_settled c k e) (remove1 (k, e) stl) k"
      using s by (simp add: filed_records_def update_conv')
    moreover have "filed_records (file_settled c k e) (remove1 (k, e) stl) k \<subseteq> insert x (filed_records c stl k)"
      using s set_remove1_subset [of "(k, e)" stl] by (auto simp: filed_records_def update_conv' subset_iff)
    ultimately have "filed_records (file_settled c k e) (remove1 (k, e) stl) k = {x}" by (simp add: subset_singleton_iff) auto
    then show ?thesis using True \<open>filed_records c stl k = {x}\<close> by simp
  next
    case False
    then have "(j, e') \<in> set (remove1 (k, e) stl) \<longleftrightarrow> (j, e') \<in> set stl" for e'
      by (simp add: in_set_remove1)
    then show ?thesis using False s by (simp add: filed_records_def update_conv')
  qed
qed

lemma records_settle:
  assumes "records_ok c stl" and "(k, e) \<in> set stl"
  shows "records_ok (file_settled c k e) (remove1 (k, e) stl)"
    "all_records (file_settled c k e) (remove1 (k, e) stl) = all_records c stl"
proof -
  have filed: "filed_records (file_settled c k e) (remove1 (k, e) stl) = filed_records c stl"
    using filed_records_settle assms by (auto simp: records_ok_def)
  have "bound_finish (file_settled c k e) = bound_finish c"
    unfolding bound_finish_def file_settled_active ..
  with filed show "records_ok (file_settled c k e) (remove1 (k, e) stl)"
    using assms(1) by (simp add: records_ok_def file_settled_active)
  show "all_records (file_settled c k e) (remove1 (k, e) stl) = all_records c stl"
    using filed by (simp add: all_records_def active_records_def file_settled_active fun_eq_iff)
qed

text \<open>A terminal observation that is admitted is the record; no other record is touched.\<close>

definition obs_record :: "RuntimeTerminalObservation \<Rightarrow> outcome_record" where
  "obs_record obs = (obs_binding obs, obs_fingerprint obs, obs_outcome obs)"

lemma admit_active_cases:
  assumes "admit_terminal_active c obs = (c', Some r)"
  obtains err where "r = Inl err" and "c' = c"
  | e where "map_of (active c) (obs_key obs) = Some e" and "r = Inr (planned_stop_requested e)"
    and "binding e = Some (obs_binding obs)" and "obs_outcome obs = Cancelled \<longrightarrow> planned_stop_requested e"
    and "finished_of e = {obs_record obs}" and "c' = c"
  | e where "map_of (active c) (obs_key obs) = Some e" and "r = Inr (planned_stop_requested e)"
    and "binding e = Some (obs_binding obs)" and "obs_outcome obs = Cancelled \<longrightarrow> planned_stop_requested e"
    and "finished_of e = {}"
    and "c' = c\<lparr>active := AList.update (obs_key obs)
                (e\<lparr>terminal_fingerprint := Some (obs_fingerprint obs),
                   terminal_outcome := Some (obs_outcome obs)\<rparr>) (active c)\<rparr>"
  using assms
  by (auto simp: admit_terminal_active_def finished_of_def obs_record_def split: option.splits if_splits)

lemma records_admit:
  assumes "records_ok c stl" and "admit_terminal_active c obs = (c', Some r)"
  shows "records_ok c' stl"
    and "\<And>j. j \<noteq> obs_key obs \<Longrightarrow> all_records c' stl j = all_records c stl j"
    and "all_records c stl (obs_key obs) \<subseteq> all_records c' stl (obs_key obs)"
    and "r = Inr stop \<Longrightarrow> obs_record obs \<in> all_records c' stl (obs_key obs)
      \<and> (obs_outcome obs = Cancelled \<longrightarrow> stop)"
proof -
  have "records_ok c' stl \<and> (\<forall>j. j \<noteq> obs_key obs \<longrightarrow> all_records c' stl j = all_records c stl j)
    \<and> all_records c stl (obs_key obs) \<subseteq> all_records c' stl (obs_key obs)
    \<and> (r = Inr stop \<longrightarrow> obs_record obs \<in> all_records c' stl (obs_key obs)
      \<and> (obs_outcome obs = Cancelled \<longrightarrow> stop))"
    using assms(2)
  proof (cases rule: admit_active_cases)
    case (1 err)
    then show ?thesis using assms(1) by simp
  next
    case (2 e)
    then show ?thesis using assms(1) by (auto simp: all_records_def active_records_def)
  next
    case (3 e)
    have e': "finished_of (e\<lparr>terminal_fingerprint := Some (obs_fingerprint obs),
        terminal_outcome := Some (obs_outcome obs)\<rparr>) = {obs_record obs}"
      using 3 by (simp add: finished_of_def obs_record_def)
    have filed: "filed_records c' stl = filed_records c stl"
      using 3 by (simp add: filed_records_def fun_eq_iff)
    have "bound_finish c'"
      using assms(1) 3 by (auto simp: records_ok_def bound_finish_def update_conv')
    then have "records_ok c' stl"
      using assms(1) 3 filed by (auto simp: records_ok_def update_conv')
    moreover have "active_records c' j = (if j = obs_key obs then {obs_record obs} else active_records c j)" for j
      using 3 e' by (simp add: active_records_def update_conv')
    moreover have "active_records c (obs_key obs) = {}" using 3 by (simp add: active_records_def)
    ultimately show ?thesis using 3 filed by (auto simp: all_records_def)
  qed
  then show "records_ok c' stl"
    and "\<And>j. j \<noteq> obs_key obs \<Longrightarrow> all_records c' stl j = all_records c stl j"
    and "all_records c stl (obs_key obs) \<subseteq> all_records c' stl (obs_key obs)"
    and "r = Inr stop \<Longrightarrow> obs_record obs \<in> all_records c' stl (obs_key obs)
      \<and> (obs_outcome obs = Cancelled \<longrightarrow> stop)"
    by blast+
qed

lemma records_admit_settled:
  assumes "admit_terminal_settled c obs = Inr stop"
  shows "obs_record obs \<in> all_records c stl (obs_key obs)" "obs_outcome obs = Cancelled \<longrightarrow> stop"
  using assms
  by (auto simp: admit_terminal_settled_def all_records_def filed_records_def settled_record_def obs_record_def
    split: option.splits if_splits)

definition planned_admission_ok :: "World \<Rightarrow> TerminalSettlementPermit \<Rightarrow> bool" where
  "planned_admission_ok w p =
     (obs_record (observation p) \<in> all_records (coord w) (settling w) (obs_key (observation p))
      \<and> (obs_outcome (observation p) = Cancelled \<longrightarrow> settlement_planned_stop_requested p)
      \<and> settlement_generation p = generation (coord w))"

definition planned_inv :: "World \<Rightarrow> bool" where
  "planned_inv w =
     (records_ok (coord w) (settling w)
      \<and> (\<forall>k. all_records (coord w) (settling w) k \<noteq> {} \<longrightarrow> past_barrier w)
      \<and> (\<forall>i p. terminals w i = TerminalAdmitted (Planned p) \<longrightarrow> planned_admission_ok w p))"

text \<open>A step that keeps or extends the records, and admits nothing new.\<close>

lemma planned_inv_frame:
  assumes "planned_inv w" and "world_step w w'"
    and "records_ok (coord w') (settling w')"
    and "all_records (coord w') (settling w') = all_records (coord w) (settling w)"
    and "generation (coord w') = generation (coord w)"
    and "\<And>i p. terminals w' i = TerminalAdmitted (Planned p) \<Longrightarrow>
      (\<exists>p'. terminals w i = TerminalAdmitted (Planned p') \<and> observation p' = observation p
        \<and> settlement_planned_stop_requested p' = settlement_planned_stop_requested p
        \<and> settlement_generation p' = settlement_generation p)"
  shows "planned_inv w'"
proof -
  have "past_barrier w'" if "past_barrier w" using past_barrier_step assms(2) that by blast
  moreover have "planned_admission_ok w' p" if "terminals w' i = TerminalAdmitted (Planned p)" for i p
    using assms(6) [OF that] assms(1) unfolding planned_inv_def planned_admission_ok_def assms(4,5) by metis
  ultimately show ?thesis using assms(1,3) unfolding planned_inv_def assms(4) by blast
qed

lemma generation_frame:
  "generation (fst (register_active c p key kind)) = generation c"
  "generation (finish_launch c p) = generation c"
  "generation (drop_permit c p) = generation c"
  "generation (close_launch_admission c) = generation c"
  "generation (cancel_active c key) = generation c"
  "generation (fst (bind_route c key b)) = generation c"
  "generation (fst (mark_planned_stop_requested c key)) = generation c"
  "generation (fst (take_active c key cleanup)) = generation c"
  "generation (file_settled c key e) = generation c"
  "generation (fst (remove_active_if_unbound c key)) = generation c"
  "generation (fst (admit_terminal_active c obs)) = generation c"
  "generation (complete_callback c g) = generation c"
  "generation (close_terminal_phase c) = generation c"
  "generation (close_runtime_routes c) = generation c"
  by (simp_all add: coord_simps Let_def split: option.splits)

definition same_records :: "PlannedShutdownCoordinator \<Rightarrow> PlannedShutdownCoordinator \<Rightarrow> bool" where
  "same_records c c' = (active c' = active c \<and> settled c' = settled c \<and> generation c' = generation c)"

lemma same_records_ops:
  "enter_launch_guarded c i = (c', r) \<Longrightarrow> same_records c c'"
  "finish_launch_closure_begin c = (c', b) \<Longrightarrow> same_records c c'"
  "finish_launch_closure_barrier c = (c', ok) \<Longrightarrow> same_records c c'"
  "enter_runtime_route_guarded c i = (c', x) \<Longrightarrow> same_records c c'"
  "complete_settlement c a = (c', a') \<Longrightarrow> same_records c c'"
  "same_records c (finish_launch c p)" "same_records c (drop_permit c p)"
  "same_records c (close_launch_admission c)" "same_records c (cancel_active c key)"
  "same_records c (complete_callback c g)" "same_records c (close_terminal_phase c)"
  "same_records c (close_runtime_routes c)" "same_records c (leave_terminal i c)" "same_records c c"
  "same_records c (c\<lparr>launch_gate := lg\<rparr>)" "same_records c (c\<lparr>terminal_gate := tg\<rparr>)"
  "same_records c (c\<lparr>runtime_route_gate := rg\<rparr>)"
  by (auto simp: same_records_def coord_simps leave_terminal_def Let_def split: if_splits option.splits)

lemma planned_inv_same:
  assumes "planned_inv w" and "world_step w w'" and "same_records (coord w) (coord w')"
    and "settling w' = settling w"
    and "\<And>i p. terminals w' i = TerminalAdmitted (Planned p) \<Longrightarrow>
      (\<exists>p'. terminals w i = TerminalAdmitted (Planned p') \<and> observation p' = observation p
        \<and> settlement_planned_stop_requested p' = settlement_planned_stop_requested p
        \<and> settlement_generation p' = settlement_generation p)"
  shows "planned_inv w'"
  using assms records_frame [of "coord w'" "coord w" "settling w"]
  by (intro planned_inv_frame [of w w']) (simp_all add: same_records_def planned_inv_def)

text \<open>What a removal, a registration or a rewrite of one entry does.\<close>

lemma planned_inv_coord:
  assumes "planned_inv w" and "world_step w w'"
    and "terminals w' = terminals w" and "generation (coord w') = generation (coord w)"
    and "records_ok (coord w') (settling w')"
    and "all_records (coord w') (settling w') = all_records (coord w) (settling w)"
  shows "planned_inv w'"
  using assms by (intro planned_inv_frame [of w w']) auto

lemma planned_inv_answer:
  assumes inv: "planned_inv w" and step: "world_step w (terminal_answer i obs c r w)"
    and ok: "records_ok c (settling w)" and past: "past_barrier w" and gen: "generation c = generation (coord w)"
    and grow: "\<And>k. all_records (coord w) (settling w) k \<subseteq> all_records c (settling w) k"
    and new: "\<And>stop. r = Inr stop \<Longrightarrow> obs_record obs \<in> all_records c (settling w) (obs_key obs)
      \<and> (obs_outcome obs = Cancelled \<longrightarrow> stop)"
  shows "planned_inv (terminal_answer i obs c r w)"
proof -
  let ?w = "terminal_answer i obs c r w"
  have rec: "records_ok (coord ?w) (settling w) = records_ok c (settling w)"
    "all_records (coord ?w) (settling w) = all_records c (settling w)"
    by (rule records_frame; simp)+
  have "past_barrier ?w" using past past_barrier_step step by blast
  moreover have "planned_admission_ok ?w p" if t: "terminals ?w j = TerminalAdmitted (Planned p)" for j p
  proof (cases "\<exists>stop. j = i \<and> r = Inr stop")
    case True
    then obtain stop where "j = i" "r = Inr stop" by blast
    with t have "p = planned_permit c i obs stop" by (simp add: terminal_answer_def)
    then show ?thesis
      using new [OF \<open>r = Inr stop\<close>] rec by (simp add: planned_admission_ok_def planned_permit_def)
  next
    case False
    then have "terminals w j = TerminalAdmitted (Planned p)"
      using t by (auto simp: terminal_answer_def split: sum.splits if_splits)
    then have "planned_admission_ok w p" using inv by (simp add: planned_inv_def)
    then show ?thesis using grow gen rec unfolding planned_admission_ok_def by auto
  qed
  ultimately show ?thesis using ok rec by (simp add: planned_inv_def)
qed

lemma planned_inv_step:
  assumes step: "world_step w w'" and inv: "planned_inv w" and barrier: "barrier_inv w"
  shows "planned_inv w'"
  using step
proof (cases rule: world_step.cases)
  case (launch_register i p key kind)
  have "all_records (coord w) (settling w) key = {}" if "permit_guard p \<noteq> None"
    using inv launch_register(2) that by (auto simp: planned_inv_def past_barrier_def)
  then show ?thesis
    using records_register [of "coord w" "settling w" p key kind] inv launch_register
    by (intro planned_inv_coord [OF inv step]) (simp_all add: generation_frame planned_inv_def)
next
  case (launch_handoff i p key b c p' ok)
  have c: "records_ok c (settling w)" "all_records c (settling w) = all_records (coord w) (settling w)"
    "generation c = generation (coord w)"
    using complete_handoff_cases [OF launch_handoff(3)] records_bind [of "coord w" "settling w" key b] inv
      records_frame [of c "fst (bind_route (coord w) key b)"]
    by (auto simp: planned_inv_def generation_frame)
  then show ?thesis using launch_handoff by (intro planned_inv_coord [OF inv step]) simp_all
next
  case (bind key b)
  then show ?thesis
    using records_bind [of "coord w" "settling w" key b] inv
    by (intro planned_inv_coord [OF inv step]) (simp_all add: generation_frame planned_inv_def)
next
  case (mark key)
  then show ?thesis
    using records_mark [of "coord w" "settling w" key] inv
    by (intro planned_inv_coord [OF inv step]) (simp_all add: generation_frame planned_inv_def)
next
  case (take key cleanup c e)
  then show ?thesis
    using records_take [OF _ take(2)] inv generation_frame(8) [of "coord w" key cleanup]
    by (intro planned_inv_coord [OF inv step]) (simp_all add: planned_inv_def)
next
  case (settle key e)
  then show ?thesis
    using records_settle [OF _ settle(2)] inv
    by (intro planned_inv_coord [OF inv step]) (simp_all add: generation_frame planned_inv_def)
next
  case (remove_unbound key)
  then show ?thesis
    using records_remove_unbound [of "coord w" "settling w" key] inv
    by (intro planned_inv_coord [OF inv step]) (simp_all add: generation_frame planned_inv_def)
next
  case (terminal_active i obs c r)
  have adm: "admit_terminal_active (coord w) obs = (c, Some r)" by (fact terminal_active(3))
  have "past_barrier w" using barrier terminal_active by (auto simp: barrier_inv_def)
  moreover have ok: "records_ok (coord w) (settling w)" using inv by (simp add: planned_inv_def)
  moreover have "generation c = generation (coord w)"
    using generation_frame(11) [of "coord w" obs] adm by simp
  moreover have "all_records (coord w) (settling w) k \<subseteq> all_records c (settling w) k" for k
    using records_admit(2,3) [OF ok adm] by (cases "k = obs_key obs") auto
  ultimately show ?thesis
    using step records_admit(1,4) [OF ok adm] unfolding terminal_active(1)
    by (intro planned_inv_answer [OF inv]) blast+
next
  case (terminal_not_active i obs c)
  then have "c = coord w" by (auto simp: admit_terminal_active_def split: option.splits if_splits)
  with terminal_not_active show ?thesis
    by (intro planned_inv_same [OF inv step]) (auto simp: same_records_ops split: if_splits)
next
  case (terminal_settled i obs)
  have "past_barrier w" using barrier terminal_settled by (auto simp: barrier_inv_def)
  moreover have ok: "records_ok (coord w) (settling w)" using inv by (simp add: planned_inv_def)
  ultimately show ?thesis
    using step records_admit_settled [of "coord w" obs] unfolding terminal_settled(1)
    by (intro planned_inv_answer [OF inv]) blast+
next
  case (terminal_ordinary i obs a)
  then show ?thesis
    by (intro planned_inv_same [OF inv step])
      (auto simp: same_records_ops admit_terminal_route_def split: if_splits ShutdownPhase.splits)
next
  case (terminal_complete i a c a')
  then show ?thesis
    by (intro planned_inv_same [OF inv step])
      (auto simp: same_records_ops complete_settlement_def admission_complete_def split: if_splits RuntimeTerminalAdmission.splits)
qed (rule planned_inv_same [OF inv step]; auto simp: same_records_ops split: if_splits)+

section \<open>Reachable worlds\<close>

definition world_start :: "World \<Rightarrow> bool" where
  "world_start w = (\<exists>g. w = start_world g)"

definition reachable :: "World \<Rightarrow> bool" where
  "reachable w = (\<exists>g. world_step\<^sup>*\<^sup>* (start_world g) w)"

definition shutdown_inv :: "World \<Rightarrow> bool" where
  "shutdown_inv w = (launch_inv w \<and> terminal_inv w \<and> route_inv w \<and> barrier_inv w \<and> planned_inv w)"

lemma shutdown_inv_start: "shutdown_inv (start_world g)"
  using world_invs_start [of g]
  by (simp add: shutdown_inv_def barrier_inv_def planned_inv_def records_ok_def bound_finish_def
    all_records_def active_records_def filed_records_def at_most_one_def start_world_def new_coordinator_def)

interpretation shutdown: monotone_system world_start world_step shutdown_inv
    "\<lambda>w. phase (coord w)"
proof unfold_locales
  fix w w' assume "world_step w w'" and "shutdown_inv w"
  then show "shutdown_inv w'"
    unfolding shutdown_inv_def
    using launch_inv_step terminal_inv_step route_inv_step barrier_inv_step planned_inv_step by metis
qed (auto simp: world_start_def shutdown_inv_start phase_step less_eq_ShutdownPhase_def)

lemma reachable_inv: "reachable w \<Longrightarrow> shutdown_inv w"
  unfolding reachable_def using shutdown.inv_reachable [unfolded world_start_def] by blast

lemma reachable_steps: "reachable w \<Longrightarrow> world_step\<^sup>*\<^sup>* w w' \<Longrightarrow> reachable w'"
  unfolding reachable_def by (blast intro: rtranclp_trans)

interpretation barrier: invariant_system past_barrier world_step past_barrier
  by unfold_locales (auto intro: past_barrier_step)

section \<open>The cutoff\<close>

text \<open>No terminal settlement is open, and none can be opened.\<close>

definition terminal_cutoff :: "World \<Rightarrow> bool" where
  "terminal_cutoff w =
     (phase (coord w) = TerminalClosed
      \<and> (\<forall>i obs. terminals w i \<noteq> TerminalDraining obs \<and> terminals w i \<noteq> TerminalSettled obs)
      \<and> (\<forall>i a. terminals w i = TerminalAdmitted a \<longrightarrow> admission_guard a = None))"

lemma terminal_cutoff_frame:
  assumes "terminal_cutoff w" and "world_step w w'"
    and "\<And>i. terminals w' i = terminals w i \<or> (\<exists>obs. terminals w' i = TerminalWaiting obs)
      \<or> (\<exists>obs. terminals w' i = TerminalGuarded obs) \<or> (\<exists>e. terminals w' i = TerminalRejected e)
      \<or> (\<exists>a. terminals w' i = TerminalAdmitted a \<and> admission_guard a = None)"
  shows "terminal_cutoff w'"
proof -
  have "phase (coord w') = TerminalClosed"
    using phase_step [OF assms(2)] assms(1) by (cases "phase (coord w')") (simp_all add: terminal_cutoff_def)
  moreover have "terminals w' i \<noteq> TerminalDraining obs \<and> terminals w' i \<noteq> TerminalSettled obs
      \<and> (terminals w' i = TerminalAdmitted a \<longrightarrow> admission_guard a = None)" for i obs a
    using assms(3) [of i] assms(1) unfolding terminal_cutoff_def
    by (elim disjE exE conjE) (metis, auto)
  ultimately show ?thesis by (simp add: terminal_cutoff_def)
qed

lemma terminal_cutoff_step: "world_step w w' \<Longrightarrow> terminal_cutoff w \<Longrightarrow> terminal_cutoff w'"
proof -
  assume step: "world_step w w'" and cut: "terminal_cutoff w"
  from step show "terminal_cutoff w'"
  proof (cases rule: world_step.cases)
    case (terminal_complete i a c a')
    then show ?thesis
      by (intro terminal_cutoff_frame [OF cut step])
        (auto simp: complete_settlement_def admission_complete_def admission_guard_def split: RuntimeTerminalAdmission.splits)
  next
    case (terminal_ordinary i obs a)
    then show ?thesis using cut by (simp add: terminal_cutoff_def admit_terminal_route_def)
  next
    case (terminal_planned i obs)
    then show ?thesis using cut by (simp add: terminal_cutoff_def admit_terminal_route_def)
  next
    case (terminal_active i obs c r)
    then show ?thesis using cut by (simp add: terminal_cutoff_def)
  next
    case (terminal_not_active i obs c)
    then show ?thesis using cut by (simp add: terminal_cutoff_def)
  next
    case (terminal_settled i obs)
    then show ?thesis using cut by (simp add: terminal_cutoff_def)
  qed (rule terminal_cutoff_frame [OF cut step]; simp split: if_splits)+
qed

definition route_cutoff :: "World \<Rightarrow> bool" where
  "route_cutoff w = (\<not> runtime_routes_open (coord w) \<and> (\<forall>i g. routes w i = RouteHolds g \<longrightarrow> g = None))"

lemma routes_open_frames:
  "enter_launch_guarded c i = (c', r) \<Longrightarrow> runtime_routes_open c' = runtime_routes_open c"
  "finish_launch_closure_begin c = (c', b) \<Longrightarrow> runtime_routes_open c' = runtime_routes_open c"
  "finish_launch_closure_barrier c = (c', ok) \<Longrightarrow> runtime_routes_open c' = runtime_routes_open c"
  "complete_settlement c a = (c', a') \<Longrightarrow> runtime_routes_open c' = runtime_routes_open c"
  by (auto simp: enter_launch_guarded_def finish_launch_closure_begin_def close_launch_admission_def
    finish_launch_closure_barrier_def complete_settlement_def Let_def split: if_splits)

lemma route_cutoff_step: "world_step w w' \<Longrightarrow> route_cutoff w \<Longrightarrow> route_cutoff w'"
proof (induction rule: world_step.induct)
  case (route_admit w i c r)
  then show ?case by (auto simp: route_cutoff_def enter_runtime_route_guarded_def split: if_splits)
qed (simp_all add: route_cutoff_def gate_frame routes_open_frames complete_handoff_frame
  close_launch_admission_def drop_permit_def finish_launch_def complete_callback_def
  close_terminal_phase_def close_runtime_routes_def Let_def)

interpretation terminal_cut: invariant_system terminal_cutoff world_step terminal_cutoff
  by unfold_locales (auto intro: terminal_cutoff_step)

interpretation route_cut: invariant_system route_cutoff world_step route_cutoff
  by unfold_locales (auto intro: route_cutoff_step)

section \<open>A shutdown on one execution\<close>

text \<open>
  A run is launched and handed off, the shutdown begins, two tasks deliver the same terminal
  observation, and the terminal admission closes.
\<close>

definition demo_key :: ActiveExecutionKey where
  "demo_key = ActiveExecutionKey ''r'' 1"

definition demo_route :: RuntimeRouteBinding where
  "demo_route = \<lparr>route_identity = ''s'', adapter_turn_correlation = ''t'', provider_turn_id = None\<rparr>"

definition demo_obs :: RuntimeTerminalObservation where
  "demo_obs = \<lparr>obs_key = demo_key, obs_binding = demo_route, obs_outcome = Cancelled, obs_fingerprint = ''f''\<rparr>"

definition demo_entry :: "RuntimeRouteBinding option \<Rightarrow> bool \<Rightarrow> bool \<Rightarrow> ActiveExecution" where
  "demo_entry b stop done =
     \<lparr>adapter_kind = CodexCli, binding = b, planned_stop_requested = stop,
      terminal_fingerprint = (if done then Some ''f'' else None),
      terminal_outcome = (if done then Some Cancelled else None), cancellation = 0\<rparr>"

definition demo_coord ::
    "ShutdownPhase \<Rightarrow> gate \<Rightarrow> gate \<Rightarrow> bool \<Rightarrow> ActiveExecution list \<Rightarrow> nat \<Rightarrow> PlannedShutdownCoordinator" where
  "demo_coord ph lg tg ro es n =
     \<lparr>generation = ''g'', phase = ph, launch_gate = lg, terminal_gate = tg, runtime_routes_open = ro,
      runtime_route_gate = open_gate, active = map (Pair demo_key) es, settled = [],
      cancellations = replicate n \<lparr>cancelled = False, launching = True\<rparr>\<rparr>"

definition demo_world ::
    "PlannedShutdownCoordinator \<Rightarrow> launch_task \<Rightarrow> closer_task \<Rightarrow> terminal_task \<Rightarrow> terminal_task \<Rightarrow> World" where
  "demo_world c l cl t0 t1 =
     \<lparr>coord = c, launches = (\<lambda>i. if i = 0 then l else LaunchIdle),
      closers = (\<lambda>i. if i = 0 then cl else CloserIdle),
      terminals = (\<lambda>i. if i = 0 then t0 else if i = 1 then t1 else TerminalIdle),
      routes = (\<lambda>_. RouteIdle), settling = []\<rparr>"

definition demo_permit :: "nat option \<Rightarrow> ExecutionLaunchPermit" where
  "demo_permit g = \<lparr>permit_generation = ''g'', permit_guard = g, permit_cancellation = 0\<rparr>"

definition demo_admission :: "nat \<Rightarrow> TerminalSettlementPermit" where
  "demo_admission i =
     \<lparr>settlement_generation = ''g'', observation = demo_obs, settlement_planned_stop_requested = True,
      settlement_guard = Some i\<rparr>"

definition demo_gate :: "nat set \<Rightarrow> nat option \<Rightarrow> gate" where
  "demo_gate r x = \<lparr>readers = r, writer = x\<rparr>"

lemmas demo_defs = demo_key_def demo_route_def demo_obs_def demo_entry_def demo_coord_def demo_world_def
  demo_permit_def demo_admission_def demo_gate_def

lemma demo_eq:
  "set_launch 0 l (coord (demo_world c l0 cl t0 t1)) (demo_world c l0 cl t0 t1) = demo_world c l cl t0 t1"
  "set_launch 0 l c' (demo_world c l0 cl t0 t1) = demo_world c' l cl t0 t1"
  "set_closer 0 cl' c' (demo_world c l0 cl t0 t1) = demo_world c' l0 cl' t0 t1"
  "set_terminal 0 t0' c' (demo_world c l0 cl t0 t1) = demo_world c' l0 cl t0' t1"
  "set_terminal 1 t1' c' (demo_world c l0 cl t0 t1) = demo_world c' l0 cl t0 t1'"
  "demo_world c l0 cl t0 t1\<lparr>coord := c'\<rparr> = demo_world c' l0 cl t0 t1"
  "coord (demo_world c l0 cl t0 t1) = c" "launches (demo_world c l0 cl t0 t1) 0 = l0"
  "closers (demo_world c l0 cl t0 t1) 0 = cl" "terminals (demo_world c l0 cl t0 t1) 0 = t0"
  "terminals (demo_world c l0 cl t0 t1) 1 = t1"
  by (simp_all add: demo_world_def set_launch_def set_closer_def set_terminal_def fun_eq_iff)

definition demo_launched :: World where
  "demo_launched = demo_world (demo_coord Accepting open_gate open_gate True [demo_entry (Some demo_route) True False] 1)
     (LaunchHolds (demo_permit None)) CloserIdle TerminalIdle TerminalIdle"

lemma demo_launch: "world_step\<^sup>*\<^sup>* (start_world ''g'') demo_launched"
proof -
  let ?g = "demo_gate {0} None"
  have 0: "start_world ''g'' = demo_world (demo_coord Accepting open_gate open_gate True [] 0) LaunchIdle CloserIdle TerminalIdle TerminalIdle"
    by (simp add: start_world_def demo_defs new_coordinator_def fun_eq_iff)
  let ?w1 = "demo_world (demo_coord Accepting open_gate open_gate True [] 0) LaunchWaiting CloserIdle TerminalIdle TerminalIdle"
  have 1: "world_step (start_world ''g'') ?w1"
    using launch_check [of "start_world ''g''" 0]
    by (simp add: 0 demo_eq enter_launch_check_def) (simp add: demo_coord_def)
  let ?w2 = "demo_world (demo_coord Accepting ?g open_gate True [] 0) LaunchGuarded CloserIdle TerminalIdle TerminalIdle"
  have 2: "world_step ?w1 ?w2"
    using launch_guard [of ?w1 0] by (simp add: demo_eq) (simp add: demo_coord_def gate_simps demo_gate_def)
  let ?w3 = "demo_world (demo_coord Accepting ?g open_gate True [] 1) (LaunchHolds (demo_permit (Some 0))) CloserIdle TerminalIdle TerminalIdle"
  have 3: "world_step ?w2 ?w3"
    using launch_admit [of ?w2 0 "demo_coord Accepting ?g open_gate True [] 1" "Some (demo_permit (Some 0))"]
    by (simp add: demo_eq) (simp add: demo_coord_def enter_launch_guarded_def demo_permit_def)
  let ?w4 = "demo_world (demo_coord Accepting ?g open_gate True [demo_entry None False False] 1) (LaunchHolds (demo_permit (Some 0))) CloserIdle TerminalIdle TerminalIdle"
  have 4: "world_step ?w3 ?w4"
    using launch_register [of ?w3 0 "demo_permit (Some 0)" demo_key CodexCli]
    by (simp add: demo_eq) (simp add: demo_coord_def register_active_def demo_permit_def demo_entry_def)
  let ?w5 = "demo_world (demo_coord Accepting open_gate open_gate True [demo_entry (Some demo_route) False False] 1) (LaunchHolds (demo_permit None)) CloserIdle TerminalIdle TerminalIdle"
  have 5: "world_step ?w4 ?w5"
    using launch_handoff [of ?w4 0 "demo_permit (Some 0)" demo_key demo_route
        "demo_coord Accepting open_gate open_gate True [demo_entry (Some demo_route) False False] 1" "demo_permit None" True]
    by (simp add: demo_eq) (simp add: demo_coord_def complete_handoff_def bind_route_def demo_permit_def demo_entry_def gate_simps demo_gate_def)
  have 6: "world_step ?w5 demo_launched"
    using mark [of ?w5 demo_key]
    by (simp add: demo_eq demo_launched_def) (simp add: demo_coord_def mark_planned_stop_requested_def demo_entry_def)
  show ?thesis using 1 2 3 4 5 6 by (meson rtranclp.rtrancl_into_rtrancl rtranclp.rtrancl_refl)
qed

definition demo_draining :: "gate \<Rightarrow> bool \<Rightarrow> terminal_task \<Rightarrow> terminal_task \<Rightarrow> World" where
  "demo_draining tg done t0 t1 =
     demo_world (demo_coord Draining open_gate tg True [demo_entry (Some demo_route) True done] 1)
       (LaunchHolds (demo_permit None)) (CloserOver True) t0 t1"

lemma demo_close_launch: "world_step\<^sup>*\<^sup>* demo_launched (demo_draining open_gate False TerminalIdle TerminalIdle)"
proof -
  let ?c = "\<lambda>ph lg. demo_coord ph lg open_gate True [demo_entry (Some demo_route) True False] 1"
  let ?w = "\<lambda>ph lg cl. demo_world (?c ph lg) (LaunchHolds (demo_permit None)) cl TerminalIdle TerminalIdle"
  have 1: "world_step demo_launched (?w ClosingLaunch open_gate CloserIdle)"
    using close_launch [of demo_launched]
    by (simp add: demo_launched_def demo_eq) (simp add: demo_coord_def close_launch_admission_def)
  have 2: "world_step (?w ClosingLaunch open_gate CloserIdle) (?w ClosingLaunch open_gate CloserWaiting)"
    using closure_begin [of "?w ClosingLaunch open_gate CloserIdle" 0 "?c ClosingLaunch open_gate" None]
    by (simp add: demo_eq) (simp add: demo_coord_def finish_launch_closure_begin_def close_launch_admission_def)
  have 3: "world_step (?w ClosingLaunch open_gate CloserWaiting) (?w ClosingLaunch (demo_gate {} (Some 0)) CloserHolds)"
    using closure_guard [of "?w ClosingLaunch open_gate CloserWaiting" 0]
    by (simp add: demo_eq) (simp add: demo_coord_def gate_simps demo_gate_def)
  have 4: "world_step (?w ClosingLaunch (demo_gate {} (Some 0)) CloserHolds) (demo_draining open_gate False TerminalIdle TerminalIdle)"
    using closure_barrier [of "?w ClosingLaunch (demo_gate {} (Some 0)) CloserHolds" 0 "?c Draining open_gate" True]
    by (simp add: demo_eq demo_draining_def)
      (simp add: demo_coord_def finish_launch_closure_barrier_def gate_simps demo_gate_def)
  show ?thesis using 1 2 3 4 by (meson rtranclp.rtrancl_into_rtrancl rtranclp.rtrancl_refl)
qed

lemma demo_eq_draining:
  "coord (demo_draining tg done t0 t1) = demo_coord Draining open_gate tg True [demo_entry (Some demo_route) True done] 1"
  "terminals (demo_draining tg done t0 t1) 0 = t0" "terminals (demo_draining tg done t0 t1) 1 = t1"
  "set_terminal 0 t0' (demo_coord Draining open_gate tg' True [demo_entry (Some demo_route) True done'] 1)
     (demo_draining tg done t0 t1) = demo_draining tg' done' t0' t1"
  "set_terminal 1 t1' (demo_coord Draining open_gate tg' True [demo_entry (Some demo_route) True done'] 1)
     (demo_draining tg done t0 t1) = demo_draining tg' done' t0 t1'"
  by (simp_all only: demo_draining_def demo_eq)

lemma demo_phase: "phase (demo_coord ph lg tg ro es n) = ph"
  by (simp add: demo_coord_def)

text \<open>Tasks 0 and 1 deliver the observation one after the other.\<close>

lemma demo_admit_active:
  "admit_terminal_active (demo_coord Draining lg tg ro [demo_entry (Some demo_route) True done] n) demo_obs =
     (demo_coord Draining lg tg ro [demo_entry (Some demo_route) True True] n, Some (Inr True))"
  by (simp add: demo_defs admit_terminal_active_def)

lemma demo_deliver_0:
  "world_step\<^sup>*\<^sup>* (demo_draining open_gate False TerminalIdle TerminalIdle)
     (demo_draining (demo_gate {0} None) True (TerminalAdmitted (Planned (demo_admission 0))) TerminalIdle)"
proof -
  let ?w = "\<lambda>tg t0. demo_draining tg False t0 TerminalIdle" and ?g = "demo_gate {0} None"
  have 1: "world_step (?w open_gate TerminalIdle) (?w open_gate (TerminalWaiting demo_obs))"
    using terminal_check [of "?w open_gate TerminalIdle" 0 demo_obs]
    by (simp add: demo_eq_draining admit_terminal_check_def demo_phase del: One_nat_def)
  have e: "demo_coord Draining open_gate open_gate True es n\<lparr>terminal_gate := enter_read 0 (terminal_gate (demo_coord Draining open_gate open_gate True es n))\<rparr>
      = demo_coord Draining open_gate ?g True es n" for es n
    by (simp add: demo_coord_def gate_simps demo_gate_def)
  have 2: "world_step (?w open_gate (TerminalWaiting demo_obs)) (?w ?g (TerminalGuarded demo_obs))"
    using terminal_guard [of "?w open_gate (TerminalWaiting demo_obs)" 0 demo_obs]
    by (simp add: demo_eq_draining e del: One_nat_def) (simp add: demo_coord_def gate_simps)
  have 3: "world_step (?w ?g (TerminalGuarded demo_obs)) (?w ?g (TerminalDraining demo_obs))"
    using terminal_planned [of "?w ?g (TerminalGuarded demo_obs)" 0 demo_obs]
    by (simp add: demo_eq_draining admit_terminal_route_def demo_phase del: One_nat_def)
  have 4: "world_step (?w ?g (TerminalDraining demo_obs))
     (demo_draining ?g True (TerminalAdmitted (Planned (demo_admission 0))) TerminalIdle)"
    using terminal_active [of "?w ?g (TerminalDraining demo_obs)" 0 demo_obs _ "Inr True"]
    by (simp add: demo_eq_draining demo_admit_active terminal_answer_def del: One_nat_def)
      (simp add: demo_coord_def demo_admission_def planned_permit_def)
  show ?thesis using 1 2 3 4 by (meson rtranclp.rtrancl_into_rtrancl rtranclp.rtrancl_refl)
qed

lemma demo_deliver_1:
  "world_step\<^sup>*\<^sup>* (demo_draining (demo_gate {0} None) True (TerminalAdmitted (Planned (demo_admission 0))) TerminalIdle)
     (demo_draining (demo_gate {0, 1} None) True (TerminalAdmitted (Planned (demo_admission 0)))
        (TerminalAdmitted (Planned (demo_admission 1))))"
proof -
  let ?w = "\<lambda>tg t1. demo_draining tg True (TerminalAdmitted (Planned (demo_admission 0))) t1"
    and ?g = "demo_gate {0, 1} None" and ?h = "demo_gate {0} None"
  have 1: "world_step (?w ?h TerminalIdle) (?w ?h (TerminalWaiting demo_obs))"
    using terminal_check [of "?w ?h TerminalIdle" 1 demo_obs]
    by (simp add: demo_eq_draining admit_terminal_check_def demo_phase del: One_nat_def)
  have e: "demo_coord Draining open_gate ?h True es n\<lparr>terminal_gate := enter_read 1 (terminal_gate (demo_coord Draining open_gate ?h True es n))\<rparr>
      = demo_coord Draining open_gate ?g True es n" for es n
    by (simp add: demo_coord_def gate_simps demo_gate_def insert_commute del: One_nat_def)
  have 2: "world_step (?w ?h (TerminalWaiting demo_obs)) (?w ?g (TerminalGuarded demo_obs))"
    using terminal_guard [of "?w ?h (TerminalWaiting demo_obs)" 1 demo_obs]
    by (simp add: demo_eq_draining e del: One_nat_def) (simp add: demo_coord_def gate_simps demo_gate_def)
  have 3: "world_step (?w ?g (TerminalGuarded demo_obs)) (?w ?g (TerminalDraining demo_obs))"
    using terminal_planned [of "?w ?g (TerminalGuarded demo_obs)" 1 demo_obs]
    by (simp add: demo_eq_draining admit_terminal_route_def demo_phase del: One_nat_def)
  have 4: "world_step (?w ?g (TerminalDraining demo_obs))
     (demo_draining ?g True (TerminalAdmitted (Planned (demo_admission 0))) (TerminalAdmitted (Planned (demo_admission 1))))"
    using terminal_active [of "?w ?g (TerminalDraining demo_obs)" 1 demo_obs _ "Inr True"]
    by (simp add: demo_eq_draining demo_admit_active terminal_answer_def del: One_nat_def)
      (simp add: demo_coord_def demo_admission_def planned_permit_def)
  show ?thesis using 1 2 3 4 by (meson rtranclp.rtrancl_into_rtrancl rtranclp.rtrancl_refl)
qed

definition demo_closed :: World where
  "demo_closed =
     demo_world (demo_coord TerminalClosed open_gate open_gate False [demo_entry (Some demo_route) True True] 1)
       (LaunchHolds (demo_permit None)) (CloserOver True)
       (TerminalAdmitted (Planned (demo_admission 0\<lparr>settlement_guard := None\<rparr>)))
       (TerminalAdmitted (Planned (demo_admission 1\<lparr>settlement_guard := None\<rparr>)))"

lemma demo_close_terminal:
  "world_step\<^sup>*\<^sup>* (demo_draining (demo_gate {0, 1} None) True (TerminalAdmitted (Planned (demo_admission 0)))
     (TerminalAdmitted (Planned (demo_admission 1)))) demo_closed"
proof -
  let ?a = "\<lambda>i. TerminalAdmitted (Planned (demo_admission i))"
    and ?b = "\<lambda>i. TerminalAdmitted (Planned (demo_admission i\<lparr>settlement_guard := None\<rparr>))"
    and ?c = "\<lambda>ph ro g. demo_coord ph open_gate g ro [demo_entry (Some demo_route) True True] 1"
  let ?v = "\<lambda>ph ro. demo_world (?c ph ro open_gate) (LaunchHolds (demo_permit None)) (CloserOver True) (?b 0) (?b 1)"
  have 1: "world_step (demo_draining (demo_gate {0, 1} None) True (?a 0) (?a 1))
      (demo_draining (demo_gate {1} None) True (?b 0) (?a 1))"
    using terminal_complete [of "demo_draining (demo_gate {0, 1} None) True (?a 0) (?a 1)" 0 "Planned (demo_admission 0)"
        "?c Draining True (demo_gate {1} None)" "Planned (demo_admission 0\<lparr>settlement_guard := None\<rparr>)"]
    by (simp add: demo_eq_draining del: One_nat_def)
      (simp add: complete_settlement_def admission_guard_def admission_complete_def demo_admission_def
        demo_coord_def gate_simps demo_gate_def)
  have 2: "world_step (demo_draining (demo_gate {1} None) True (?b 0) (?a 1)) (demo_draining open_gate True (?b 0) (?b 1))"
    using terminal_complete [of "demo_draining (demo_gate {1} None) True (?b 0) (?a 1)" 1 "Planned (demo_admission 1)"
        "?c Draining True open_gate" "Planned (demo_admission 1\<lparr>settlement_guard := None\<rparr>)"]
    by (simp add: demo_eq_draining del: One_nat_def)
      (simp add: complete_settlement_def admission_guard_def admission_complete_def demo_admission_def
        demo_coord_def gate_simps demo_gate_def)
  have 3: "world_step (demo_draining open_gate True (?b 0) (?b 1)) (?v TerminalClosed True)"
    using close_phase [of "demo_draining open_gate True (?b 0) (?b 1)"]
    by (simp add: demo_draining_def demo_eq) (simp add: close_terminal_phase_def demo_coord_def)
  have 4: "world_step (?v TerminalClosed True) demo_closed"
    using close_routes [of "?v TerminalClosed True"]
    by (simp add: demo_closed_def demo_eq) (simp add: close_runtime_routes_def demo_coord_def)
  show ?thesis using 1 2 3 4 by (meson rtranclp.rtrancl_into_rtrancl rtranclp.rtrancl_refl)
qed

lemma demo_reachable:
  "reachable (demo_draining open_gate False TerminalIdle TerminalIdle)"
  "reachable (demo_draining (demo_gate {0, 1} None) True (TerminalAdmitted (Planned (demo_admission 0)))
     (TerminalAdmitted (Planned (demo_admission 1))))"
  "reachable demo_closed"
proof -
  show 1: "reachable (demo_draining open_gate False TerminalIdle TerminalIdle)"
    unfolding reachable_def using demo_launch demo_close_launch by (blast intro: rtranclp_trans)
  show 2: "reachable (demo_draining (demo_gate {0, 1} None) True (TerminalAdmitted (Planned (demo_admission 0)))
     (TerminalAdmitted (Planned (demo_admission 1))))"
    using reachable_steps [OF reachable_steps [OF 1 demo_deliver_0] demo_deliver_1] .
  show "reachable demo_closed" using reachable_steps [OF 2 demo_close_terminal] .
qed

section \<open>Properties\<close>

text \<open>
  C4: Once the shutdown is draining, no launch that was admitted still holds its guard, and none
  ever will: whatever steps follow, every launch permit has given its guard back, so no execution
  can be registered behind the barrier.
\<close>
theorem launch_barrier:
  assumes "reachable w" and "phase (coord w) = Draining" and "world_step\<^sup>*\<^sup>* w w'"
    and "launches w' i = LaunchHolds p"
  shows "permit_guard p = None \<and> register_active (coord w') p key kind = (coord w', False)"
proof -
  have "past_barrier w" using reachable_inv assms(1,2) by (auto simp: shutdown_inv_def barrier_inv_def)
  then have "permit_guard p = None"
    using barrier.inv_steps [OF assms(3)] assms(4) by (auto simp: past_barrier_def)
  then show ?thesis by (simp add: register_active_def)
qed

theorem launch_barrier_witness:
  "permit_guard (demo_permit None) = None
   \<and> register_active (coord (demo_draining open_gate False TerminalIdle TerminalIdle)) (demo_permit None) demo_key CodexCli
     = (coord (demo_draining open_gate False TerminalIdle TerminalIdle), False)"
  using launch_barrier [OF demo_reachable(1) _ rtranclp.rtrancl_refl, of 0 "demo_permit None" demo_key CodexCli]
  by (simp add: demo_eq_draining demo_phase) (simp add: demo_draining_def demo_eq)

text \<open>
  C5: Two terminal settlements admitted for the same execution during a planned shutdown agree: same
  route, same fingerprint, same outcome. No interleaving of deliveries, removals and filings lets
  a conflicting terminal observation in.
\<close>
theorem planned_admissions_agree:
  assumes "reachable w" and "terminals w i = TerminalAdmitted (Planned p)"
    and "terminals w j = TerminalAdmitted (Planned q)"
    and "obs_key (observation p) = obs_key (observation q)"
  shows "obs_binding (observation p) = obs_binding (observation q)
    \<and> obs_fingerprint (observation p) = obs_fingerprint (observation q)
    \<and> obs_outcome (observation p) = obs_outcome (observation q)"
proof -
  have inv: "planned_inv w" using reachable_inv [OF assms(1)] by (simp add: shutdown_inv_def)
  then have "planned_admission_ok w p" and "planned_admission_ok w q" and ok: "records_ok (coord w) (settling w)"
    using assms(2,3) by (auto simp: planned_inv_def)
  then have "obs_record (observation p) = obs_record (observation q)"
    using all_records_unique [OF ok] assms(4) by (auto simp: planned_admission_ok_def at_most_one_def)
  then show ?thesis by (simp add: obs_record_def)
qed

theorem planned_admissions_agree_witness:
  "obs_fingerprint (observation (demo_admission 0)) = obs_fingerprint (observation (demo_admission 1))"
  using planned_admissions_agree [OF demo_reachable(2), of 0 "demo_admission 0" 1 "demo_admission 1"]
  by (simp add: demo_eq_draining del: One_nat_def) (simp add: demo_admission_def)

text \<open>
  A settlement admitted during a planned shutdown carries the generation of the coordinator and
  authorizes exactly the run, epoch and outcome of its own observation; a cancelled outcome is
  authorized only when the stop had been requested.
\<close>
theorem planned_admission_authorizes:
  assumes "reachable w" and "terminals w i = TerminalAdmitted (Planned p)" and "generation (coord w) \<noteq> []"
  shows "settlement_generation p = generation (coord w)
    \<and> (authorizes p run epoch outcome \<longleftrightarrow>
        obs_key (observation p) = ActiveExecutionKey run epoch \<and> obs_outcome (observation p) = outcome)
    \<and> (obs_outcome (observation p) = Cancelled \<longrightarrow> settlement_planned_stop_requested p)"
proof -
  have "planned_admission_ok w p"
    using reachable_inv [OF assms(1)] assms(2) by (simp add: shutdown_inv_def planned_inv_def)
  then show ?thesis
    using assms(3) by (cases "obs_key (observation p)") (auto simp: planned_admission_ok_def authorizes_def)
qed

theorem planned_admission_authorizes_witness:
  "authorizes (demo_admission 1) ''r'' 1 Cancelled"
  using planned_admission_authorizes [OF demo_reachable(2), of 1 "demo_admission 1" "''r''" 1 Cancelled]
  by (simp add: demo_eq_draining del: One_nat_def) (simp add: demo_admission_def demo_obs_def demo_key_def demo_coord_def)

text \<open>
  C6: The cutoff is final. When terminal admission and the runtime routes are closed and both gates
  have drained, no task ever again holds an open terminal settlement or an open callback.
\<close>
theorem cutoff_final:
  assumes "reachable w" and "phase (coord w) = TerminalClosed" and "\<not> runtime_routes_open (coord w)"
    and "drained_terminal_and_runtime_routes (coord w) = (True, True)" and "world_step\<^sup>*\<^sup>* w w'"
  shows "terminals w' i \<noteq> TerminalAdmitted (Ordinary (Some g)) \<and>
    (\<forall>p. terminals w' i = TerminalAdmitted (Planned p) \<longrightarrow> settlement_guard p = None) \<and>
    routes w' i \<noteq> RouteHolds (Some g)"
proof -
  have inv: "terminal_inv w" "route_inv w"
    using reachable_inv [OF assms(1)] by (simp_all add: shutdown_inv_def)
  have guards: "terminal_guard_of j (terminals w j) = None" "route_guard_of j (routes w j) = None" for j
    using gate_inv_drained [of "terminal_gate (coord w)" "guards_of terminal_guard_of (terminals w)" "\<lambda>_. False" j]
      gate_inv_drained [of "runtime_route_gate (coord w)" "guards_of route_guard_of (routes w)" "\<lambda>_. False" j]
      inv assms(4)
    by (simp_all add: terminal_inv_def route_inv_def drained_terminal_and_runtime_routes_def guards_of_def)
  have "terminal_cutoff w"
    unfolding terminal_cutoff_def using assms(2) guards(1)
    by (metis option.discI terminal_guard_of.simps(2,3,4))
  then have t: "terminal_cutoff w'" using terminal_cut.inv_steps [OF assms(5)] by blast
  have "route_cutoff w"
    unfolding route_cutoff_def using assms(3) guards(2) by (metis route_guard_of.simps(2))
  then have "route_cutoff w'" using route_cut.inv_steps [OF assms(5)] by blast
  moreover have "admission_guard a = None" if "terminals w' i = TerminalAdmitted a" for a
    using t that unfolding terminal_cutoff_def by metis
  ultimately show ?thesis by (force simp: route_cutoff_def admission_guard_def)
qed

theorem cutoff_final_witness:
  "terminals demo_closed 0 = TerminalAdmitted (Planned (demo_admission 0\<lparr>settlement_guard := None\<rparr>)) \<and>
    terminals demo_closed 0 \<noteq> TerminalAdmitted (Ordinary (Some 7)) \<and> routes demo_closed 0 \<noteq> RouteHolds (Some 7)"
proof -
  have "phase (coord demo_closed) = TerminalClosed" "\<not> runtime_routes_open (coord demo_closed)"
    "drained_terminal_and_runtime_routes (coord demo_closed) = (True, True)"
    by (simp_all add: demo_closed_def demo_eq) (simp_all add: demo_coord_def drained_terminal_and_runtime_routes_def gate_simps)
  from cutoff_final [OF demo_reachable(3) this rtranclp.rtrancl_refl, of 0 7]
  show ?thesis by (auto simp: demo_closed_def demo_world_def)
qed

text \<open>
  The shutdown never goes back: along any steps the phase only advances, so an admission that
  was closed is not opened again.
\<close>
theorem phase_monotone:
  assumes "reachable w" and "world_step\<^sup>*\<^sup>* w w'"
  shows "phase_as_u8 (phase (coord w)) \<le> phase_as_u8 (phase (coord w'))"
  using shutdown.rank_steps [OF assms(2) reachable_inv [OF assms(1)]] by (simp add: less_eq_ShutdownPhase_def)

theorem phase_monotone_witness:
  "phase_as_u8 (phase (coord (start_world ''g''))) \<le>
   phase_as_u8 (phase (coord (demo_draining open_gate False TerminalIdle TerminalIdle)))"
proof -
  have "reachable (start_world ''g'')" unfolding reachable_def by blast
  then show ?thesis by (rule phase_monotone [OF _ rtranclp_trans [OF demo_launch demo_close_launch]])
qed

end
