(* ===== verification/Web_Auth.thy ===== *)
theory Web_Auth
  imports Prelude
begin

text \<open>
  The credentials of the web service, \<^verbatim>\<open>crates/rovai-web/src/auth.rs\<close>: the administrator
  token, the sessions it grants, the one-time login tickets and the file both are kept in. Every
  operation runs under one mutex, so an operation is one step of the state.

  The sessions are shared objects (\<open>Arc<Session>\<close>): the state holds a heap of them and the
  registry maps the digest of a session's token to its address. What the operations read from
  outside is an argument: the hash \<open>sha\<close> (of a kind and a token), the random bytes, the wall
  clock in milliseconds, the monotonic clock, the outcome of the write to the file, and the set of
  addresses that somebody besides the registry still holds (\<open>Arc::strong_count > 1\<close>).
\<close>

section \<open>Tokens\<close>

definition is_ascii_hexdigit :: "char \<Rightarrow> bool" where
  "is_ascii_hexdigit c =
     ((CHR ''0'' \<le> c \<and> c \<le> CHR ''9'') \<or> (CHR ''a'' \<le> c \<and> c \<le> CHR ''f'') \<or> (CHR ''A'' \<le> c \<and> c \<le> CHR ''F''))"

definition valid_token :: "string \<Rightarrow> bool" where
  "valid_token token = (length token = 64 \<and> list_all is_ascii_hexdigit token)"

definition hex_digit :: "nat \<Rightarrow> char" where
  "hex_digit n = ''0123456789abcdef'' ! n"

definition hex_byte :: "8 word \<Rightarrow> string" where
  "hex_byte b = [hex_digit (unat b div 16), hex_digit (unat b mod 16)]"

definition new_token :: "8 word list option \<Rightarrow> string option" where
  "new_token random = map_option (\<lambda>bytes. concat (map hex_byte bytes)) random"

definition administrator_kind :: string where "administrator_kind = ''rovai-administrator-v1'' @ [CHR 0x00]"
definition ticket_kind :: string where "ticket_kind = ''rovai-login-ticket-v1'' @ [CHR 0x00]"
definition session_kind :: string where "session_kind = ''rovai-session-v1'' @ [CHR 0x00]"

section \<open>State\<close>

definition SESSION_LIFETIME :: duration where "SESSION_LIFETIME = from_secs (30 * 24 * 60 * 60)"
definition RENEWAL_WINDOW :: duration where "RENEWAL_WINDOW = from_secs (7 * 24 * 60 * 60)"
definition LOGIN_TICKET_LIFETIME :: duration where "LOGIN_TICKET_LIFETIME = from_secs 120"
definition MAX_SESSIONS :: nat where "MAX_SESSIONS = 32"
definition LOGIN_ATTEMPTS :: nat where "LOGIN_ATTEMPTS = 12"
definition LOGIN_WINDOW :: duration where "LOGIN_WINDOW = from_secs 60"

definition milliseconds :: "duration \<Rightarrow> u64" where
  "milliseconds d = of_nat (d div 1000000)"

record Session =
  client_id :: string
  expires_at :: u64
  revoked :: bool
  last_used_at :: u64

record LoginTicket =
  ticket_digest :: string
  ticket_expires_at :: instant

record TicketGrant =
  grant_generation :: u64
  grant_digest :: string

type_synonym Registry = "(string \<times> nat) list"

record SessionState =
  enabled :: bool
  administrator :: string
  administrator_plaintext :: string
  sessions :: Registry
  attempts :: "instant list"
  auth_generation :: u64
  ticket :: "LoginTicket option"

record StoredSession =
  stored_digest :: string
  stored_client_id :: string
  stored_expires_at :: u64
  stored_last_used_at :: u64

record StoredAuth =
  version :: nat
  administrator_token :: string
  stored_sessions :: "StoredSession list"

text \<open>\<open>persisted\<close>: a path was given; \<open>disk\<close>: the document last written there.\<close>

record Sessions =
  auth_state :: SessionState
  heap :: "Session list"
  persisted :: bool
  disk :: "StoredAuth option"

datatype AuthStoreFailure = ReadDenied | Read | SaveDenied | Save | Content | Path

fun failure_code :: "AuthStoreFailure \<Rightarrow> string" where
  "failure_code ReadDenied = ''HOST_WEB_AUTH_READ_FAILED''"
| "failure_code Read = ''HOST_WEB_AUTH_READ_FAILED''"
| "failure_code SaveDenied = ''HOST_WEB_AUTH_SAVE_FAILED''"
| "failure_code Save = ''HOST_WEB_AUTH_SAVE_FAILED''"
| "failure_code Content = ''HOST_WEB_AUTH_INVALID_CONTENT''"
| "failure_code Path = ''HOST_WEB_AUTH_INVALID_PATH''"

datatype LoginFailure = Throttled | Unauthorized | Capacity | Storage AuthStoreFailure

text \<open>What the platform's file routines report.\<close>

datatype platform_error = WebAuthPathError | PermissionDenied | OtherIoError | NotAnIoError

definition failure_io :: "platform_error \<Rightarrow> bool \<Rightarrow> AuthStoreFailure" where
  "failure_io e saving =
     (case e of
        PermissionDenied \<Rightarrow> if saving then SaveDenied else ReadDenied
      | OtherIoError \<Rightarrow> if saving then Save else Read
      | _ \<Rightarrow> Path)"

definition new_session :: "string \<Rightarrow> u64 \<Rightarrow> u64 \<Rightarrow> Session" where
  "new_session client expiry used =
     \<lparr>client_id = client, expires_at = expiry, revoked = False, last_used_at = used\<rparr>"

section \<open>The stored document\<close>

text \<open>
  \<open>read_store\<close> after the bytes have been parsed: what the file holds (nothing, a document, or the
  failure to read or parse it) and the checks on the document. A file of more than 64 KiB is such a failure,
  \<open>Content\<close>, of the argument.
\<close>

definition stored_ok :: "StoredAuth \<Rightarrow> bool" where
  "stored_ok d =
     (version d = 1 \<and> valid_token (administrator_token d) \<and> length (stored_sessions d) \<le> MAX_SESSIONS
      \<and> list_all (\<lambda>e. valid_token (stored_client_id e) \<and> stored_expires_at e > 0) (stored_sessions d)
      \<and> distinct (map stored_digest (stored_sessions d))
      \<and> distinct (map stored_client_id (stored_sessions d)))"

definition read_store :: "AuthStoreFailure + StoredAuth option \<Rightarrow> AuthStoreFailure + StoredAuth option" where
  "read_store file =
     (case file of
        Inl e \<Rightarrow> Inl e
      | Inr None \<Rightarrow> Inr None
      | Inr (Some d) \<Rightarrow> if stored_ok d then Inr (Some d) else Inl Content)"

definition stored_administrator_token :: "AuthStoreFailure + StoredAuth option \<Rightarrow> AuthStoreFailure + string option" where
  "stored_administrator_token file =
     (case read_store file of Inl e \<Rightarrow> Inl e | Inr d \<Rightarrow> Inr (map_option administrator_token d))"

definition stored_document ::
    "Session list \<Rightarrow> string \<Rightarrow> Registry \<Rightarrow> (nat \<times> u64) option \<Rightarrow> StoredAuth" where
  "stored_document h token R renewal =
     \<lparr>version = 1, administrator_token = token,
      stored_sessions = map (\<lambda>(d, a).
        \<lparr>stored_digest = d, stored_client_id = client_id (h ! a),
         stored_expires_at = (case renewal of
            Some (b, e) \<Rightarrow> if b = a then e else expires_at (h ! a)
          | None \<Rightarrow> expires_at (h ! a)),
         stored_last_used_at = last_used_at (h ! a)\<rparr>) R\<rparr>"

text \<open>\<open>persist\<close>, with the outcome \<open>w\<close> of the write: the new content of the file, or the failure.\<close>

definition persist ::
    "platform_error option \<Rightarrow> Sessions \<Rightarrow> Session list \<Rightarrow> string \<Rightarrow> Registry \<Rightarrow> (nat \<times> u64) option \<Rightarrow>
     AuthStoreFailure + StoredAuth option" where
  "persist w s h token R renewal =
     (if \<not> persisted s then Inr (disk s)
      else case w of
        Some e \<Rightarrow> Inl (failure_io e True)
      | None \<Rightarrow> Inr (Some (stored_document h token R renewal)))"

section \<open>Opening\<close>

datatype OpenFailure = InvalidAdministrator | DifferentToken | NoRandom | StoreFailed AuthStoreFailure

definition new_sessions :: "(string \<Rightarrow> string \<Rightarrow> string) \<Rightarrow> string \<Rightarrow> OpenFailure + Sessions" where
  "new_sessions sha token =
     (if \<not> valid_token token then Inl InvalidAdministrator
      else Inr
        \<lparr>auth_state =
           \<lparr>enabled = True, administrator = sha administrator_kind token, administrator_plaintext = token,
            sessions = [], attempts = [], auth_generation = 0, ticket = None\<rparr>,
         heap = [], persisted = False, disk = None\<rparr>)"

text \<open>
  The source reads the clock again for every stored session; here all of them are judged by one reading, \<open>now\<close>.
\<close>

definition restore_entry :: "u64 \<Rightarrow> StoredSession \<Rightarrow> Registry \<times> Session list \<Rightarrow> Registry \<times> Session list" where
  "restore_entry now e rh =
     (if stored_expires_at e > now
      then (AList.update (stored_digest e) (length (snd rh)) (fst rh),
            snd rh @ [new_session (stored_client_id e) (stored_expires_at e) (stored_last_used_at e)])
      else rh)"

definition open_store ::
    "(string \<Rightarrow> string \<Rightarrow> string) \<Rightarrow> AuthStoreFailure + StoredAuth option \<Rightarrow> string option \<Rightarrow>
     8 word list option \<Rightarrow> u64 \<Rightarrow> platform_error option \<Rightarrow> OpenFailure + Sessions" where
  "open_store sha file bootstrap random now w =
     (case read_store file of
        Inl e \<Rightarrow> Inl (StoreFailed e)
      | Inr stored \<Rightarrow>
          (case (case stored of
                   Some d \<Rightarrow> Some (administrator_token d)
                 | None \<Rightarrow> (case bootstrap of Some t \<Rightarrow> Some t | None \<Rightarrow> new_token random)) of
             None \<Rightarrow> Inl NoRandom
           | Some token \<Rightarrow>
               if (case bootstrap of Some t \<Rightarrow> token \<noteq> t | None \<Rightarrow> False) then Inl DifferentToken
               else
                 (case new_sessions sha token of
                    Inl e \<Rightarrow> Inl e
                  | Inr s \<Rightarrow>
                      let s = s\<lparr>persisted := True, disk := stored\<rparr> in
                      (case stored of
                         Some d \<Rightarrow>
                           let rh = fold (restore_entry now) (stored_sessions d) ([], []) in
                           Inr (s\<lparr>auth_state := (auth_state s)\<lparr>sessions := fst rh\<rparr>, heap := snd rh\<rparr>)
                       | None \<Rightarrow>
                           (case persist w s (heap s) token [] None of
                              Inl e \<Rightarrow> Inl (StoreFailed e)
                            | Inr d \<Rightarrow> Inr (s\<lparr>disk := d\<rparr>))))))"

section \<open>The registry\<close>

definition revoke_at :: "nat \<Rightarrow> Session list \<Rightarrow> Session list" where
  "revoke_at a h = h[a := (h ! a)\<lparr>revoked := True\<rparr>]"

text \<open>
  \<open>replace\<close>: the new registry is written before memory changes and before any stream is told
  that its session is revoked.
\<close>

definition replace_registry ::
    "(string \<Rightarrow> string \<Rightarrow> string) \<Rightarrow> platform_error option \<Rightarrow> Sessions \<Rightarrow> Session list \<Rightarrow> string \<Rightarrow> Registry \<Rightarrow>
     AuthStoreFailure + Sessions" where
  "replace_registry sha w s h token R =
     (case persist w s h token R None of
        Inl e \<Rightarrow> Inl e
      | Inr d \<Rightarrow> Inr (s\<lparr>
          auth_state := (auth_state s)\<lparr>sessions := R, administrator := sha administrator_kind token,
            administrator_plaintext := token\<rparr>,
          heap := fold (\<lambda>(k, a) h'. if map_of R k = Some a then h' else revoke_at a h') (sessions (auth_state s)) h,
          disk := d\<rparr>))"

definition set_state :: "SessionState \<Rightarrow> Sessions \<Rightarrow> Sessions" where
  "set_state st s = s\<lparr>auth_state := st\<rparr>"

section \<open>Login attempts and tickets\<close>

definition duration_since :: "instant \<Rightarrow> instant \<Rightarrow> duration" where
  "duration_since now time = now - time"

definition admit_login :: "SessionState \<Rightarrow> instant \<Rightarrow> SessionState \<times> LoginFailure option" where
  "admit_login st now =
     (if \<not> enabled st then (st, Some Unauthorized)
      else
        let kept = dropWhile (\<lambda>time. duration_since now time \<ge> LOGIN_WINDOW) (attempts st) in
        if length kept \<ge> LOGIN_ATTEMPTS then (st\<lparr>attempts := kept\<rparr>, Some Throttled)
        else (st\<lparr>attempts := kept @ [now]\<rparr>, None))"

definition authorize_login ::
    "(string \<Rightarrow> string \<Rightarrow> string) \<Rightarrow> Sessions \<Rightarrow> string \<Rightarrow> instant \<Rightarrow> Sessions \<times> (LoginFailure + u64)" where
  "authorize_login sha s token now =
     (case admit_login (auth_state s) now of
        (st, Some e) \<Rightarrow> (set_state st s, Inl e)
      | (st, None) \<Rightarrow>
          (set_state st s,
           if \<not> valid_token token \<or> administrator st \<noteq> sha administrator_kind token
           then Inl Unauthorized else Inr (auth_generation st)))"

datatype TicketFailure = NoRandomToken | WebDisabled

definition login_ticket ::
    "(string \<Rightarrow> string \<Rightarrow> string) \<Rightarrow> Sessions \<Rightarrow> 8 word list option \<Rightarrow> instant \<Rightarrow>
     Sessions \<times> (TicketFailure + string)" where
  "login_ticket sha s random now =
     (case new_token random of
        None \<Rightarrow> (s, Inl NoRandomToken)
      | Some token \<Rightarrow>
          if \<not> enabled (auth_state s) then (s, Inl WebDisabled)
          else (set_state ((auth_state s)\<lparr>ticket := Some
                  \<lparr>ticket_digest = sha ticket_kind token,
                   ticket_expires_at = now + LOGIN_TICKET_LIFETIME\<rparr>\<rparr>) s, Inr token))"

definition ticket_matches :: "SessionState \<Rightarrow> instant \<Rightarrow> string \<Rightarrow> bool" where
  "ticket_matches st now d =
     (case ticket st of None \<Rightarrow> False | Some t \<Rightarrow> ticket_expires_at t > now \<and> ticket_digest t = d)"

definition authorize_ticket ::
    "(string \<Rightarrow> string \<Rightarrow> string) \<Rightarrow> Sessions \<Rightarrow> string \<Rightarrow> instant \<Rightarrow> Sessions \<times> (LoginFailure + TicketGrant)" where
  "authorize_ticket sha s token now =
     (case admit_login (auth_state s) now of
        (st, Some e) \<Rightarrow> (set_state st s, Inl e)
      | (st, None) \<Rightarrow>
          (set_state st s,
           if \<not> valid_token token \<or> \<not> ticket_matches st now (sha ticket_kind token) then Inl Unauthorized
           else Inr \<lparr>grant_generation = auth_generation st, grant_digest = sha ticket_kind token\<rparr>))"

section \<open>Issuing sessions\<close>

text \<open>
  \<open>insert\<close>: expired sessions and a session of the same client go; when the registry is still full,
  the least recently used session that nobody holds goes as well, and when there is none the
  login is refused. The answer is the token and the address of the new session.
\<close>

definition keeps :: "Session list \<Rightarrow> u64 \<Rightarrow> string \<Rightarrow> nat \<Rightarrow> bool" where
  "keeps h now client a = (expires_at (h ! a) > now \<and> client_id (h ! a) \<noteq> client)"

definition oldest_idle :: "Session list \<Rightarrow> nat set \<Rightarrow> u64 \<Rightarrow> string \<Rightarrow> Registry \<Rightarrow> string option" where
  "oldest_idle h held now client R =
     (case map (\<lambda>(k, a). (last_used_at (h ! a), k)) (filter (\<lambda>(k, a). keeps h now client a \<and> a \<notin> held) R) of
        [] \<Rightarrow> None
      | x # xs \<Rightarrow> Some (snd (fold min xs x)))"

definition insert_session ::
    "(string \<Rightarrow> string \<Rightarrow> string) \<Rightarrow> Sessions \<Rightarrow> string \<Rightarrow> u64 \<Rightarrow> u64 \<Rightarrow> nat set \<Rightarrow> 8 word list option \<Rightarrow>
     platform_error option \<Rightarrow> Sessions \<times> (LoginFailure + string \<times> nat)" where
  "insert_session sha s client expiry now held random w =
     (let h = heap s;
          R = sessions (auth_state s);
          live = filter (\<lambda>(k, a). keeps h now client a) R
      in case (if length live \<ge> MAX_SESSIONS
               then map_option (\<lambda>k. AList.delete k live) (oldest_idle h held now client R)
               else Some live) of
           None \<Rightarrow> (s, Inl Capacity)
         | Some next \<Rightarrow>
             (case new_token random of
                None \<Rightarrow> (s, Inl Capacity)
              | Some token \<Rightarrow>
                  (case replace_registry sha w s (h @ [new_session client expiry now])
                          (administrator_plaintext (auth_state s))
                          (AList.update (sha session_kind token) (length h) next) of
                     Inl e \<Rightarrow> (s, Inl (Storage e))
                   | Inr s' \<Rightarrow> (s', Inr (token, length h)))))"

text \<open>\<open>now1\<close> and \<open>now2\<close> are the two readings of the wall clock.\<close>

definition issue_locked ::
    "(string \<Rightarrow> string \<Rightarrow> string) \<Rightarrow> Sessions \<Rightarrow> u64 \<Rightarrow> string \<Rightarrow> u64 \<Rightarrow> u64 \<Rightarrow> nat set \<Rightarrow> 8 word list option \<Rightarrow>
     platform_error option \<Rightarrow> Sessions \<times> (LoginFailure + string \<times> nat)" where
  "issue_locked sha s g client now1 now2 held random w =
     (if \<not> enabled (auth_state s) \<or> auth_generation (auth_state s) \<noteq> g \<or> \<not> valid_token client
      then (s, Inl Unauthorized)
      else insert_session sha s client (now1 + milliseconds SESSION_LIFETIME) now2 held random w)"

definition issue ::
    "(string \<Rightarrow> string \<Rightarrow> string) \<Rightarrow> Sessions \<Rightarrow> u64 \<Rightarrow> string \<Rightarrow> u64 \<Rightarrow> u64 \<Rightarrow> nat set \<Rightarrow> 8 word list option \<Rightarrow>
     platform_error option \<Rightarrow> Sessions \<times> (LoginFailure + string \<times> nat)" where
  "issue sha s g client now1 now2 held random w = issue_locked sha s g client now1 now2 held random w"

definition issue_ticket ::
    "(string \<Rightarrow> string \<Rightarrow> string) \<Rightarrow> Sessions \<Rightarrow> TicketGrant \<Rightarrow> string \<Rightarrow> instant \<Rightarrow> u64 \<Rightarrow> u64 \<Rightarrow> nat set \<Rightarrow>
     8 word list option \<Rightarrow> platform_error option \<Rightarrow> Sessions \<times> (LoginFailure + string \<times> nat)" where
  "issue_ticket sha s grant client at now1 now2 held random w =
     (if \<not> ticket_matches (auth_state s) at (grant_digest grant) then (s, Inl Unauthorized)
      else case issue_locked sha s (grant_generation grant) client now1 now2 held random w of
             (s', Inl e) \<Rightarrow> (s', Inl e)
           | (s', Inr r) \<Rightarrow> (set_state ((auth_state s')\<lparr>ticket := None\<rparr>) s', Inr r))"

section \<open>Using sessions\<close>

definition live_at :: "Sessions \<Rightarrow> nat \<Rightarrow> u64 \<Rightarrow> bool" where
  "live_at s a now =
     (enabled (auth_state s) \<and> expires_at (heap s ! a) > now \<and> \<not> revoked (heap s ! a)
      \<and> a \<in> set (map snd (sessions (auth_state s))))"

definition is_live :: "Sessions \<Rightarrow> nat \<Rightarrow> u64 \<Rightarrow> bool" where
  "is_live s a now = live_at s a now"

definition fork ::
    "(string \<Rightarrow> string \<Rightarrow> string) \<Rightarrow> Sessions \<Rightarrow> nat \<Rightarrow> string \<Rightarrow> u64 \<Rightarrow> u64 \<Rightarrow> nat set \<Rightarrow> 8 word list option \<Rightarrow>
     platform_error option \<Rightarrow> Sessions \<times> (LoginFailure + string \<times> nat)" where
  "fork sha s parent client now1 now2 held random w =
     (if \<not> live_at s parent now1 \<or> \<not> valid_token client \<or> client = client_id (heap s ! parent)
      then (s, Inl Unauthorized)
      else insert_session sha s client (expires_at (heap s ! parent)) now2 held random w)"

record Timing =
  timing_expires_at :: u64
  timing_server_time :: u64
  timing_expires_in_seconds :: u64
  timing_renewal_window_seconds :: u64

definition timing :: "Session \<Rightarrow> u64 \<Rightarrow> Timing" where
  "timing session now =
     \<lparr>timing_expires_at = expires_at session, timing_server_time = now,
      timing_expires_in_seconds = saturating_sub (expires_at session) now div 1000,
      timing_renewal_window_seconds = of_nat (RENEWAL_WINDOW div nanos_per_second)\<rparr>"

definition renew ::
    "Sessions \<Rightarrow> nat \<Rightarrow> u64 \<Rightarrow> u64 \<Rightarrow> platform_error option \<Rightarrow> Sessions \<times> (LoginFailure + Timing)" where
  "renew s a now now2 w =
     (if \<not> live_at s a now then (s, Inl Unauthorized)
      else if saturating_sub (expires_at (heap s ! a)) now \<le> milliseconds RENEWAL_WINDOW then
        (let expiry = now + milliseconds SESSION_LIFETIME in
         case persist w s (heap s) (administrator_plaintext (auth_state s)) (sessions (auth_state s)) (Some (a, expiry)) of
           Inl e \<Rightarrow> (s, Inl (Storage e))
         | Inr d \<Rightarrow>
             (let s' = s\<lparr>heap := (heap s)[a := (heap s ! a)\<lparr>expires_at := expiry\<rparr>], disk := d\<rparr>
              in (s', Inr (timing (heap s' ! a) now2))))
      else (s, Inr (timing (heap s ! a) now2)))"

definition authenticate ::
    "(string \<Rightarrow> string \<Rightarrow> string) \<Rightarrow> Sessions \<Rightarrow> string \<Rightarrow> u64 \<Rightarrow> u64 \<Rightarrow> Sessions \<times> nat option" where
  "authenticate sha s token now now2 =
     (if \<not> valid_token token then (s, None)
      else case map_of (sessions (auth_state s)) (sha session_kind token) of
             None \<Rightarrow> (s, None)
           | Some a \<Rightarrow>
               if live_at s a now
               then (s\<lparr>heap := (heap s)[a := (heap s ! a)\<lparr>last_used_at := now2\<rparr>]\<rparr>, Some a)
               else (s, None))"

section \<open>Revocation\<close>

definition revoke ::
    "(string \<Rightarrow> string \<Rightarrow> string) \<Rightarrow> Sessions \<Rightarrow> nat \<Rightarrow> platform_error option \<Rightarrow> Sessions \<times> AuthStoreFailure option" where
  "revoke sha s a w =
     (case replace_registry sha w s (heap s) (administrator_plaintext (auth_state s))
             (filter (\<lambda>(k, b). b \<noteq> a) (sessions (auth_state s))) of
        Inl e \<Rightarrow> (s, Some e) | Inr s' \<Rightarrow> (s', None))"

datatype RotateFailure = InvalidToken | RotateStorage AuthStoreFailure

definition rotate ::
    "(string \<Rightarrow> string \<Rightarrow> string) \<Rightarrow> Sessions \<Rightarrow> string \<Rightarrow> platform_error option \<Rightarrow> Sessions \<times> RotateFailure option" where
  "rotate sha s token w =
     (if \<not> valid_token token then (s, Some InvalidToken)
      else case replace_registry sha w s (heap s) token [] of
             Inl e \<Rightarrow> (s, Some (RotateStorage e))
           | Inr s' \<Rightarrow>
               (set_state ((auth_state s')\<lparr>auth_generation := auth_generation (auth_state s') + 1,
                  attempts := [], ticket := None\<rparr>) s', None))"

definition close_web ::
    "(string \<Rightarrow> string \<Rightarrow> string) \<Rightarrow> Sessions \<Rightarrow> platform_error option \<Rightarrow> Sessions \<times> AuthStoreFailure option" where
  "close_web sha s w =
     (case replace_registry sha w s (heap s) (administrator_plaintext (auth_state s)) [] of
        Inl e \<Rightarrow> (s, Some e)
      | Inr s' \<Rightarrow>
          (set_state ((auth_state s')\<lparr>enabled := False,
             auth_generation := auth_generation (auth_state s') + 1, ticket := None\<rparr>) s', None))"

definition set_revoked :: "bool \<Rightarrow> Sessions \<Rightarrow> Session list" where
  "set_revoked b s =
     fold (\<lambda>(k, a) h. h[a := (h ! a)\<lparr>revoked := b\<rparr>]) (sessions (auth_state s)) (heap s)"

definition suspend :: "Sessions \<Rightarrow> Sessions" where
  "suspend s =
     s\<lparr>auth_state := (auth_state s)\<lparr>enabled := False, auth_generation := auth_generation (auth_state s) + 1,
         ticket := None\<rparr>, heap := set_revoked True s\<rparr>"

definition enable_web :: "Sessions \<Rightarrow> Sessions" where
  "enable_web s = s\<lparr>auth_state := (auth_state s)\<lparr>enabled := True\<rparr>, heap := set_revoked False s\<rparr>"

definition count_live :: "Sessions \<Rightarrow> u64 \<Rightarrow> nat" where
  "count_live s now = length (filter (\<lambda>(k, a). live_at s a now) (sessions (auth_state s)))"

end
