(* ===== verification/Web_Auth_Safety.thy ===== *)
theory Web_Auth_Safety
  imports Web_Auth
begin

text \<open>
  What the operations of \<open>Web_Auth\<close> keep: the registry stays within its bound and without
  duplicates, the file always holds the registry, a session that left the registry never comes
  back, and a login that was authorized before a rotation, a close or a suspension is void.
\<close>

section \<open>The heap of sessions\<close>

text \<open>Two heaps that differ in the \<open>revoked\<close> flags and the times of use only.\<close>

definition same_core :: "Session list \<Rightarrow> Session list \<Rightarrow> bool" where
  "same_core h h' =
     (length h' = length h
      \<and> (\<forall>a < length h. client_id (h' ! a) = client_id (h ! a) \<and> expires_at (h' ! a) = expires_at (h ! a)))"

lemma same_core_refl: "same_core h h"
  by (simp add: same_core_def)

lemma same_core_trans: "same_core h h' \<Longrightarrow> same_core h' h'' \<Longrightarrow> same_core h h''"
  by (simp add: same_core_def)

lemma same_core_update:
  "client_id x = client_id (h ! a) \<Longrightarrow> expires_at x = expires_at (h ! a) \<Longrightarrow> same_core h (h[a := x])"
  by (cases "a < length h") (auto simp: same_core_def nth_list_update)

lemma same_core_revoke_fold:
  "same_core h (fold (\<lambda>(k, a) h'. if P k a then h' else revoke_at a h') R h)"
proof (induction R arbitrary: h)
  case (Cons x R)
  have "same_core h (revoke_at (snd x) h)" unfolding revoke_at_def by (rule same_core_update) simp_all
  then show ?case using Cons same_core_trans by (cases x) auto
qed (simp add: same_core_refl)

lemma same_core_set_revoked: "same_core (heap s) (set_revoked b s)"
proof -
  have "same_core h (fold (\<lambda>(k, a) h. h[a := (h ! a)\<lparr>revoked := b\<rparr>]) R h)" for h :: "Session list" and R :: Registry
  proof (induction R arbitrary: h)
    case (Cons x R)
    have "same_core h (h[snd x := (h ! snd x)\<lparr>revoked := b\<rparr>])" by (rule same_core_update) simp_all
    then show ?case using Cons same_core_trans by (cases x) auto
  qed (simp add: same_core_refl)
  then show ?thesis by (simp add: set_revoked_def)
qed

section \<open>The invariant\<close>

definition registry_ok :: "Session list \<Rightarrow> Registry \<Rightarrow> bool" where
  "registry_ok h R =
     (distinct (map fst R) \<and> distinct (map snd R) \<and> length R \<le> MAX_SESSIONS
      \<and> inj_on (\<lambda>a. client_id (h ! a)) (snd ` set R)
      \<and> (\<forall>a\<in>snd ` set R. a < length h \<and> valid_token (client_id (h ! a)) \<and> expires_at (h ! a) > 0))"

text \<open>What the file keeps of a registry.\<close>

definition registry_view :: "Session list \<Rightarrow> Registry \<Rightarrow> (string \<times> string \<times> u64) list" where
  "registry_view h R = map (\<lambda>(k, a). (k, client_id (h ! a), expires_at (h ! a))) R"

definition document_view :: "StoredAuth \<Rightarrow> (string \<times> string \<times> u64) list" where
  "document_view d = map (\<lambda>e. (stored_digest e, stored_client_id e, stored_expires_at e)) (stored_sessions d)"

text \<open>
  The file and the registry agree on the sessions that expire after \<open>since\<close>, the time the file was
  opened: a session that had expired by then stays in the file until it is next written.
\<close>

definition unexpired :: "u64 \<Rightarrow> string \<times> string \<times> u64 \<Rightarrow> bool" where
  "unexpired now e = (snd (snd e) > now)"

definition file_ok :: "u64 \<Rightarrow> Sessions \<Rightarrow> bool" where
  "file_ok since s =
     (persisted s \<longrightarrow>
        (case disk s of
           None \<Rightarrow> False
         | Some d \<Rightarrow> stored_ok d \<and> administrator_token d = administrator_plaintext (auth_state s)
             \<and> filter (unexpired since) (document_view d)
                 = filter (unexpired since) (registry_view (heap s) (sessions (auth_state s)))))"

definition auth_ok :: "(string \<Rightarrow> string \<Rightarrow> string) \<Rightarrow> u64 \<Rightarrow> Sessions \<Rightarrow> bool" where
  "auth_ok sha since s =
     (registry_ok (heap s) (sessions (auth_state s)) \<and> file_ok since s
      \<and> valid_token (administrator_plaintext (auth_state s))
      \<and> administrator (auth_state s) = sha administrator_kind (administrator_plaintext (auth_state s)))"

lemma registry_okD:
  assumes "registry_ok h R" and "a \<in> snd ` set R"
  shows "a < length h" "valid_token (client_id (h ! a))" "expires_at (h ! a) > 0"
  using assms(1) [unfolded registry_ok_def] assms(2) by blast+

lemma registry_ok_core:
  assumes "same_core h h'" and "registry_ok h R"
  shows "registry_ok h' R" "registry_view h' R = registry_view h R"
proof -
  have bound: "\<forall>a\<in>snd ` set R. a < length h" using assms(2) by (simp add: registry_ok_def)
  then have eq: "client_id (h' ! a) = client_id (h ! a)" "expires_at (h' ! a) = expires_at (h ! a)" "a < length h'"
    if "a \<in> snd ` set R" for a
    using assms(1) that by (auto simp: same_core_def)
  have "inj_on (\<lambda>a. client_id (h' ! a)) (snd ` set R)"
    using assms(2) eq(1) unfolding registry_ok_def inj_on_def by metis
  then show "registry_ok h' R" using assms(2) eq unfolding registry_ok_def by metis
  have "map (\<lambda>(k, a). (k, client_id (h' ! a), expires_at (h' ! a))) R
      = map (\<lambda>(k, a). (k, client_id (h ! a), expires_at (h ! a))) R"
    using eq by (intro map_cong) force+
  then show "registry_view h' R = registry_view h R" by (simp add: registry_view_def)
qed

lemma registry_ok_append: "registry_ok h R \<Longrightarrow> registry_ok (h @ xs) R"
proof -
  assume ok: "registry_ok h R"
  have eq: "(h @ xs) ! a = h ! a" if "a \<in> snd ` set R" for a
    using registry_okD(1) [OF ok that] by (simp add: nth_append)
  have "inj_on (\<lambda>a. client_id ((h @ xs) ! a)) (snd ` set R)"
    using ok eq unfolding registry_ok_def inj_on_def by metis
  moreover have "\<forall>a\<in>snd ` set R. a < length (h @ xs) \<and> valid_token (client_id ((h @ xs) ! a)) \<and> expires_at ((h @ xs) ! a) > 0"
    using ok eq unfolding registry_ok_def by fastforce
  ultimately show ?thesis using ok by (simp add: registry_ok_def)
qed

lemma registry_ok_filter: "registry_ok h R \<Longrightarrow> registry_ok h (filter P R)"
proof -
  assume ok: "registry_ok h R"
  have sub: "snd ` set (filter P R) \<subseteq> snd ` set R" by auto
  have "length (filter P R) \<le> MAX_SESSIONS"
    using ok length_filter_le [of P R] unfolding registry_ok_def by linarith
  then show ?thesis
    using ok sub inj_on_subset [of _ "snd ` set R" "snd ` set (filter P R)"]
    unfolding registry_ok_def by (auto simp: distinct_map_filter)
qed

lemma registry_ok_delete: "registry_ok h R \<Longrightarrow> registry_ok h (AList.delete k R)"
  unfolding AList.delete_eq by (rule registry_ok_filter)

lemma map_snd_update:
  "k \<in> fst ` set R \<or> map snd (AList.update k v R) = map snd R @ [v]"
  by (induction R) auto

lemma registry_ok_update:
  assumes ok: "registry_ok h R" and room: "length R < MAX_SESSIONS"
    and new: "\<forall>a\<in>snd ` set R. client_id (h ! a) \<noteq> client" and valid: "valid_token client" "expiry > 0"
  shows "registry_ok (h @ [new_session client expiry used]) (AList.update k (length h) R)"
proof -
  let ?h = "h @ [new_session client expiry used]" and ?R = "AList.update k (length h) R"
  have sub: "snd ` set ?R \<subseteq> insert (length h) (snd ` set R)" by (induction R) auto
  have fresh: "length h \<notin> snd ` set R" using ok by (auto simp: registry_ok_def)
  have dist: "distinct (map snd ?R)"
    using fresh ok unfolding registry_ok_def
  proof (induction R)
    case (Cons x R)
    have "snd ` set (AList.update k (length h) R) \<subseteq> insert (length h) (snd ` set R)" by (induction R) auto
    with Cons show ?case by (cases x) (auto simp: inj_on_def)
  qed simp
  have len: "length ?R \<le> Suc (length R)" by (induction R) auto
  have new_at: "?h ! length h = new_session client expiry used" by simp
  have old: "?h ! a = h ! a" "a < length h" if "a \<in> snd ` set R" for a
    using registry_okD(1) [OF ok that] by (simp_all add: nth_append)
  have inj: "inj_on (\<lambda>a. client_id (?h ! a)) (insert (length h) (snd ` set R))"
    using ok new old new_at unfolding registry_ok_def inj_on_def by (auto simp: new_session_def)
  have "\<forall>a\<in>insert (length h) (snd ` set R). a < length ?h \<and> valid_token (client_id (?h ! a)) \<and> expires_at (?h ! a) > 0"
  proof
    fix a assume "a \<in> insert (length h) (snd ` set R)"
    then consider "a = length h" | "a \<in> snd ` set R" by blast
    then show "a < length ?h \<and> valid_token (client_id (?h ! a)) \<and> expires_at (?h ! a) > 0"
    proof cases
      case 1
      then show ?thesis using valid by (simp add: new_session_def)
    next
      case 2
      then show ?thesis using old [OF 2] registry_okD [OF ok 2] by simp
    qed
  qed
  then have "\<forall>a\<in>snd ` set ?R. a < length ?h \<and> valid_token (client_id (?h ! a)) \<and> expires_at (?h ! a) > 0"
    using sub by blast
  then show ?thesis
    using ok dist len room inj_on_subset [OF inj sub] unfolding registry_ok_def
    by (simp add: distinct_update)
qed

section \<open>Every operation keeps the invariant\<close>

lemma document_view_stored: "document_view (stored_document h t R None) = registry_view h R"
  by (simp add: document_view_def stored_document_def registry_view_def case_prod_unfold)

lemma stored_ok_view:
  assumes ok: "registry_ok h R" and view: "document_view d = registry_view h R"
    and d: "version d = 1" "valid_token (administrator_token d)"
  shows "stored_ok d"
proof -
  have digests: "map stored_digest (stored_sessions d) = map fst R"
    using arg_cong [OF view, of "map fst"] by (simp add: document_view_def registry_view_def comp_def case_prod_unfold)
  have clients: "map stored_client_id (stored_sessions d) = map (\<lambda>a. client_id (h ! a)) (map snd R)"
    using arg_cong [OF view, of "map (fst \<circ> snd)"]
    by (simp add: document_view_def registry_view_def comp_def case_prod_unfold)
  have "length (stored_sessions d) = length R" using arg_cong [OF digests, of length] by simp
  then have len: "length (stored_sessions d) \<le> MAX_SESSIONS" using ok by (simp add: registry_ok_def)
  have "distinct (map (\<lambda>a. client_id (h ! a)) (map snd R))"
    using ok by (simp only: registry_ok_def distinct_map set_map)
  moreover have "valid_token (stored_client_id e) \<and> stored_expires_at e > 0" if "e \<in> set (stored_sessions d)" for e
  proof -
    have "(stored_digest e, stored_client_id e, stored_expires_at e) \<in> set (registry_view h R)"
      using that unfolding view [symmetric] document_view_def by auto
    then obtain a where "a \<in> snd ` set R" "stored_client_id e = client_id (h ! a)" "stored_expires_at e = expires_at (h ! a)"
      by (force simp: registry_view_def)
    then show ?thesis using registry_okD [OF ok] by simp
  qed
  ultimately show ?thesis
    using ok d len digests clients by (simp add: stored_ok_def list_all_iff registry_ok_def)
qed

lemma replace_registry_fields:
  assumes "replace_registry sha w s h token R = Inr s'"
  shows "sessions (auth_state s') = R" "administrator_plaintext (auth_state s') = token"
    "administrator (auth_state s') = sha administrator_kind token"
    "enabled (auth_state s') = enabled (auth_state s)" "attempts (auth_state s') = attempts (auth_state s)"
    "auth_generation (auth_state s') = auth_generation (auth_state s)" "ticket (auth_state s') = ticket (auth_state s)"
    "persisted s' = persisted s" "same_core h (heap s')"
  using assms same_core_revoke_fold [where P = "\<lambda>k a. map_of R k = Some a"]
  by (auto simp: replace_registry_def split: sum.splits)

lemma replace_registry_ok:
  assumes r: "replace_registry sha w s h token R = Inr s'" and ok: "registry_ok h R" and t: "valid_token token"
  shows "auth_ok sha since s'"
proof -
  have "stored_ok (stored_document h token R None)"
    using stored_ok_view [OF ok document_view_stored] t by (simp add: stored_document_def)
  then have "file_ok since s'"
    using r registry_ok_core(2) [OF replace_registry_fields(9) [OF r] ok] document_view_stored [of h token R]
    by (auto simp: replace_registry_def persist_def file_ok_def split: sum.splits if_splits option.splits)
      (simp add: stored_document_def)+
  then show ?thesis
    using replace_registry_fields [OF r] registry_ok_core(1) [OF replace_registry_fields(9) [OF r] ok] t
    by (simp add: auth_ok_def)
qed

text \<open>A change of the state outside the registry, the token and the file.\<close>

definition same_books :: "SessionState \<Rightarrow> SessionState \<Rightarrow> bool" where
  "same_books st st' =
     (sessions st' = sessions st \<and> administrator st' = administrator st
      \<and> administrator_plaintext st' = administrator_plaintext st)"

lemma auth_ok_frame:
  assumes ok: "auth_ok sha since s" and st: "same_books (auth_state s) (auth_state s')"
    and core: "same_core (heap s) (heap s')" and d: "disk s' = disk s" "persisted s' = persisted s"
  shows "auth_ok sha since s'"
proof -
  have "registry_ok (heap s) (sessions (auth_state s))" using ok by (simp add: auth_ok_def)
  from registry_ok_core [OF core this] show ?thesis
    using ok st d by (auto simp: auth_ok_def same_books_def file_ok_def split: option.splits)
qed

lemma set_state_sels [simp]:
  "auth_state (set_state st s) = st" "heap (set_state st s) = heap s" "disk (set_state st s) = disk s"
  "persisted (set_state st s) = persisted s"
  by (simp_all add: set_state_def)

lemma auth_ok_set_state: "auth_ok sha since s \<Longrightarrow> same_books (auth_state s) st \<Longrightarrow> auth_ok sha since (set_state st s)"
  by (erule auth_ok_frame) (simp_all add: same_core_refl)

lemma admit_login_books: "admit_login st now = (st', r) \<Longrightarrow> same_books st st'"
  by (auto simp: admit_login_def same_books_def Let_def split: if_splits)

lemma oldest_idle_in:
  assumes "oldest_idle h held now client R = Some k"
  shows "\<exists>a. (k, a) \<in> set (filter (\<lambda>(k, a). keeps h now client a) R) \<and> a \<notin> held"
proof -
  let ?xs = "map (\<lambda>(k, a). (last_used_at (h ! a), k)) (filter (\<lambda>(k, a). keeps h now client a \<and> a \<notin> held) R)"
  from assms obtain x xs where xs: "?xs = x # xs" and k: "k = snd (fold min xs x)"
    by (auto simp: oldest_idle_def split: list.splits)
  have "fold min xs x \<in> set (x # xs)"
    using Min_in [of "set (x # xs)"] by (simp only: Min.set_eq_fold) simp
  then have "fold min xs x \<in> set ?xs" by (simp only: xs)
  then show ?thesis using k by force
qed

text \<open>What a successful insertion does to the registry.\<close>

lemma insert_session_cases:
  assumes "insert_session sha s client expiry now held random w = (s', r)"
  obtains e where "r = Inl e" and "s' = s"
  | token nxt where "r = Inr (token, length (heap s))" and "new_token random = Some token"
    and "replace_registry sha w s (heap s @ [new_session client expiry now])
           (administrator_plaintext (auth_state s)) (AList.update (sha session_kind token) (length (heap s)) nxt) = Inr s'"
    and "length (filter (\<lambda>(k, a). keeps (heap s) now client a) (sessions (auth_state s))) < MAX_SESSIONS"
    and "nxt = filter (\<lambda>(k, a). keeps (heap s) now client a) (sessions (auth_state s))"
  | token nxt k where "r = Inr (token, length (heap s))" and "new_token random = Some token"
    and "replace_registry sha w s (heap s @ [new_session client expiry now])
           (administrator_plaintext (auth_state s)) (AList.update (sha session_kind token) (length (heap s)) nxt) = Inr s'"
    and "oldest_idle (heap s) held now client (sessions (auth_state s)) = Some k"
    and "nxt = AList.delete k (filter (\<lambda>(k, a). keeps (heap s) now client a) (sessions (auth_state s)))"
  using assms
  by (auto simp: insert_session_def Let_def split: option.splits sum.splits if_splits)

lemma insert_session_ok:
  assumes "auth_ok sha since s" and "insert_session sha s client expiry now held random w = (s', r)"
    and "valid_token client" and "expiry > 0"
  shows "auth_ok sha since s'"
proof -
  let ?live = "filter (\<lambda>(k, a). keeps (heap s) now client a) (sessions (auth_state s))"
  have ok: "registry_ok (heap s) (sessions (auth_state s))" and t: "valid_token (administrator_plaintext (auth_state s))"
    using assms(1) by (simp_all add: auth_ok_def)
  have live: "registry_ok (heap s) ?live" by (rule registry_ok_filter [OF ok])
  have clients: "\<forall>a\<in>snd ` set ?live. client_id (heap s ! a) \<noteq> client" by (auto simp: keeps_def)
  from assms(2) show ?thesis
  proof (cases rule: insert_session_cases)
    case 1
    then show ?thesis using assms(1) by simp
  next
    case (2 token next')
    have next': "registry_ok (heap s) next'" "length next' < MAX_SESSIONS"
      "\<forall>a\<in>snd ` set next'. client_id (heap s ! a) \<noteq> client"
      using live clients 2(4,5) by simp_all
    show ?thesis
      using replace_registry_ok [OF 2(3) registry_ok_update [OF next' assms(3,4)] t] .
  next
    case (3 token next' k)
    obtain a where a: "(k, a) \<in> set ?live" using oldest_idle_in [OF 3(4)] by blast
    have "length next' < length ?live"
      unfolding 3(5) AList.delete_eq by (rule length_filter_less [OF a]) simp
    then have len: "length next' < MAX_SESSIONS" using live unfolding registry_ok_def by linarith
    have sub: "snd ` set next' \<subseteq> snd ` set ?live" unfolding 3(5) AList.delete_eq by auto
    have next': "registry_ok (heap s) next'" "\<forall>a\<in>snd ` set next'. client_id (heap s ! a) \<noteq> client"
      using registry_ok_delete [OF live, of k] clients sub 3(5) by blast+
    show ?thesis
      using replace_registry_ok [OF 3(3) registry_ok_update [OF next'(1) len next'(2) assms(3,4)] t] .
  qed
qed

lemma renew_core:
  assumes "registry_ok h R" and "a \<in> snd ` set R" and "expiry > 0"
  shows "registry_ok (h[a := (h ! a)\<lparr>expires_at := expiry\<rparr>]) R"
    and "document_view (stored_document h t R (Some (a, expiry))) = registry_view (h[a := (h ! a)\<lparr>expires_at := expiry\<rparr>]) R"
proof -
  let ?h = "h[a := (h ! a)\<lparr>expires_at := expiry\<rparr>]"
  have at: "client_id (?h ! b) = client_id (h ! b)"
      "expires_at (?h ! b) = (if a = b then expiry else expires_at (h ! b))" "b < length h"
    if "b \<in> snd ` set R" for b
    using registry_okD(1) [OF assms(1) that] by (cases "a = b"; simp)+
  have "inj_on (\<lambda>b. client_id (?h ! b)) (snd ` set R)"
    using assms(1) at(1) unfolding registry_ok_def inj_on_def by metis
  moreover have "\<forall>b\<in>snd ` set R. b < length ?h \<and> valid_token (client_id (?h ! b)) \<and> expires_at (?h ! b) > 0"
    using at registry_okD [OF assms(1)] assms(3) by simp
  ultimately show "registry_ok ?h R" using assms(1) unfolding registry_ok_def by blast
  have "b \<in> snd ` set R" if "(k, b) \<in> set R" for k b using that by force
  then show "document_view (stored_document h t R (Some (a, expiry))) = registry_view ?h R"
    using at by (auto simp: document_view_def stored_document_def registry_view_def)
qed

lemma renew_ok:
  assumes "auth_ok sha since s" and "renew s a now now2 w = (s', r)" and "now + milliseconds SESSION_LIFETIME > 0"
  shows "auth_ok sha since s'"
proof (cases "s' = s")
  case True
  then show ?thesis using assms(1) by simp
next
  case False
  let ?e = "now + milliseconds SESSION_LIFETIME"
  have a: "a \<in> snd ` set (sessions (auth_state s))" and s': "heap s' = (heap s)[a := (heap s ! a)\<lparr>expires_at := ?e\<rparr>]"
      "auth_state s' = auth_state s" "persisted s' = persisted s"
    and d: "persisted s \<Longrightarrow> disk s' = Some (stored_document (heap s) (administrator_plaintext (auth_state s))
        (sessions (auth_state s)) (Some (a, ?e)))"
    using assms(2) False by (auto simp: renew_def live_at_def persist_def Let_def split: if_splits sum.splits option.splits)
  have ok: "registry_ok (heap s) (sessions (auth_state s))" using assms(1) by (simp add: auth_ok_def)
  let ?d = "stored_document (heap s) (administrator_plaintext (auth_state s)) (sessions (auth_state s)) (Some (a, ?e))"
  have view: "document_view ?d = registry_view (heap s') (sessions (auth_state s))"
    using renew_core(2) [OF ok a assms(3)] s'(1) by simp
  have "stored_ok ?d"
    using stored_ok_view [OF renew_core(1) [OF ok a assms(3)] renew_core(2) [OF ok a assms(3)]] assms(1)
    by (simp add: stored_document_def auth_ok_def)
  moreover have "administrator_token ?d = administrator_plaintext (auth_state s)" by (simp add: stored_document_def)
  ultimately show ?thesis
    using renew_core(1) [OF ok a assms(3)] view assms(1) s' d
    by (auto simp: auth_ok_def file_ok_def)
qed

lemma authenticate_ok:
  assumes "auth_ok sha since s" and "authenticate sha s token now now2 = (s', r)"
  shows "auth_ok sha since s'"
proof -
  have "same_core h (h[a := (h ! a)\<lparr>last_used_at := now2\<rparr>])" for h a by (rule same_core_update) simp_all
  then show ?thesis
    using assms(2) by (intro auth_ok_frame [OF assms(1)])
      (auto simp: authenticate_def same_books_def same_core_refl split: if_splits option.splits)
qed

lemma revoke_ok:
  assumes "auth_ok sha since s" and "revoke sha s a w = (s', r)"
  shows "auth_ok sha since s'"
  using assms replace_registry_ok [OF _ registry_ok_filter]
  by (auto simp: revoke_def auth_ok_def split: sum.splits)

lemma registry_ok_empty: "registry_ok h []"
  by (simp add: registry_ok_def)

lemma rotate_ok:
  assumes "auth_ok sha since s" and "rotate sha s token w = (s', r)"
  shows "auth_ok sha since s'"
  using assms replace_registry_ok [OF _ registry_ok_empty]
  by (auto simp: rotate_def same_books_def intro: auth_ok_set_state split: if_splits sum.splits)

lemma close_web_ok:
  assumes "auth_ok sha since s" and "close_web sha s w = (s', r)"
  shows "auth_ok sha since s'"
proof -
  have "valid_token (administrator_plaintext (auth_state s))" using assms(1) by (simp add: auth_ok_def)
  then show ?thesis
    using assms replace_registry_ok [OF _ registry_ok_empty]
    by (auto simp: close_web_def same_books_def intro: auth_ok_set_state split: if_splits sum.splits)
qed

lemma suspend_ok: "auth_ok sha since s \<Longrightarrow> auth_ok sha since (suspend s)"
  by (erule auth_ok_frame) (simp_all add: suspend_def same_books_def same_core_set_revoked)

lemma enable_web_ok: "auth_ok sha since s \<Longrightarrow> auth_ok sha since (enable_web s)"
  by (erule auth_ok_frame) (simp_all add: enable_web_def same_books_def same_core_set_revoked)

section \<open>Runs\<close>

datatype auth_op =
  AuthorizeLogin string instant
| MakeTicket "8 word list option" instant
| AuthorizeTicket string instant
| IssueTicket TicketGrant string instant u64 u64 "nat set" "8 word list option" "platform_error option"
| Issue u64 string u64 u64 "nat set" "8 word list option" "platform_error option"
| Fork nat string u64 u64 "nat set" "8 word list option" "platform_error option"
| Renew nat u64 u64 "platform_error option"
| Authenticate string u64 u64
| Revoke nat "platform_error option"
| Rotate string "platform_error option"
| Close "platform_error option"
| Suspend
| Enable

fun auth_step :: "(string \<Rightarrow> string \<Rightarrow> string) \<Rightarrow> auth_op \<Rightarrow> Sessions \<Rightarrow> Sessions" where
  "auth_step sha (AuthorizeLogin t at) s = fst (authorize_login sha s t at)"
| "auth_step sha (MakeTicket rnd at) s = fst (login_ticket sha s rnd at)"
| "auth_step sha (AuthorizeTicket t at) s = fst (authorize_ticket sha s t at)"
| "auth_step sha (IssueTicket g c at n1 n2 held rnd w) s = fst (issue_ticket sha s g c at n1 n2 held rnd w)"
| "auth_step sha (Issue g c n1 n2 held rnd w) s = fst (issue sha s g c n1 n2 held rnd w)"
| "auth_step sha (Fork a c n1 n2 held rnd w) s = fst (fork sha s a c n1 n2 held rnd w)"
| "auth_step sha (Renew a n1 n2 w) s = fst (renew s a n1 n2 w)"
| "auth_step sha (Authenticate t n1 n2) s = fst (authenticate sha s t n1 n2)"
| "auth_step sha (Revoke a w) s = fst (revoke sha s a w)"
| "auth_step sha (Rotate t w) s = fst (rotate sha s t w)"
| "auth_step sha (Close w) s = fst (close_web sha s w)"
| "auth_step sha Suspend s = suspend s"
| "auth_step sha Enable s = enable_web s"

text \<open>
  The wall clock is read before the end of its range: adding a session's lifetime does not wrap.
\<close>

definition clock_ok :: "u64 \<Rightarrow> bool" where
  "clock_ok now = (unat now + unat (milliseconds SESSION_LIFETIME) < 2 ^ 64)"

fun op_clock_ok :: "auth_op \<Rightarrow> bool" where
  "op_clock_ok (IssueTicket g c at n1 n2 held rnd w) = clock_ok n1"
| "op_clock_ok (Issue g c n1 n2 held rnd w) = clock_ok n1"
| "op_clock_ok (Renew a n1 n2 w) = clock_ok n1"
| "op_clock_ok _ = True"

lemma unat_lifetime: "unat (milliseconds SESSION_LIFETIME) = 2592000000"
  by (simp add: milliseconds_def SESSION_LIFETIME_def from_secs_def)

lemma clock_ok_expiry:
  assumes "clock_ok now"
  shows "unat (now + milliseconds SESSION_LIFETIME) = unat now + 2592000000"
    "now + milliseconds SESSION_LIFETIME > 0" "now < now + milliseconds SESSION_LIFETIME"
proof -
  have sum: "unat (now + milliseconds SESSION_LIFETIME) = unat now + unat (milliseconds SESSION_LIFETIME)"
    using assms by (simp add: clock_ok_def unat_word_ariths)
  then show "unat (now + milliseconds SESSION_LIFETIME) = unat now + 2592000000" by (simp add: unat_lifetime)
  then show "now < now + milliseconds SESSION_LIFETIME" by (simp add: word_less_nat_alt)
  then show "now + milliseconds SESSION_LIFETIME > 0" by (metis word_gt_0 word_not_simps(1))
qed

lemma auth_step_ok:
  assumes ok: "auth_ok sha since s" and clock: "op_clock_ok op"
  shows "auth_ok sha since (auth_step sha op s)"
proof (cases op)
  case (AuthorizeLogin t at)
  then show ?thesis
    using ok admit_login_books [of "auth_state s" at]
    by (auto simp: authorize_login_def intro: auth_ok_set_state split: prod.splits option.splits)
next
  case (MakeTicket rnd at)
  then show ?thesis
    using ok by (auto simp: login_ticket_def same_books_def intro: auth_ok_set_state split: option.splits)
next
  case (AuthorizeTicket t at)
  then show ?thesis
    using ok admit_login_books [of "auth_state s" at]
    by (auto simp: authorize_ticket_def intro: auth_ok_set_state split: prod.splits option.splits)
next
  case (IssueTicket g c at n1 n2 held rnd w)
  have "auth_ok sha since s'" if "issue_locked sha s gen c n1 n2 held rnd w = (s', r)" for gen s' r
    using that ok clock_ok_expiry(2) [of n1] clock IssueTicket insert_session_ok [OF ok]
    by (auto simp: issue_locked_def split: if_splits)
  then show ?thesis
    using ok IssueTicket
    by (auto simp: issue_ticket_def same_books_def intro: auth_ok_set_state split: prod.splits sum.splits)
next
  case (Issue g c n1 n2 held rnd w)
  then show ?thesis
    using ok clock_ok_expiry(2) [of n1] clock insert_session_ok [OF ok prod.collapse [symmetric]]
    by (auto simp: issue_def issue_locked_def)
next
  case (Fork a c n1 n2 held rnd w)
  have "expires_at (heap s ! a) > 0" if "live_at s a n1"
    using that by (auto simp: live_at_def dest: le_less_trans [OF word_zero_le])
  then show ?thesis
    using ok Fork insert_session_ok [OF ok prod.collapse [symmetric]] by (auto simp: fork_def)
next
  case (Renew a n1 n2 w)
  then show ?thesis
    using renew_ok [OF ok prod.collapse [symmetric]] clock_ok_expiry(2) [of n1] clock by simp
next
  case (Authenticate t n1 n2)
  then show ?thesis using authenticate_ok [OF ok prod.collapse [symmetric]] by simp
next
  case (Revoke a w)
  then show ?thesis using revoke_ok [OF ok prod.collapse [symmetric]] by simp
next
  case (Rotate t w)
  then show ?thesis using rotate_ok [OF ok prod.collapse [symmetric]] by simp
next
  case (Close w)
  then show ?thesis using close_web_ok [OF ok prod.collapse [symmetric]] by simp
qed (simp_all add: ok suspend_ok enable_web_ok)

definition auth_run :: "(string \<Rightarrow> string \<Rightarrow> string) \<Rightarrow> auth_op list \<Rightarrow> Sessions \<Rightarrow> Sessions" where
  "auth_run sha ops s = fold (auth_step sha) ops s"

lemma auth_run_ok: "auth_ok sha since s \<Longrightarrow> list_all op_clock_ok ops \<Longrightarrow> auth_ok sha since (auth_run sha ops s)"
  unfolding auth_run_def by (induction ops arbitrary: s) (simp_all add: auth_step_ok)

section \<open>Opening\<close>

definition restored :: "StoredSession \<Rightarrow> Session" where
  "restored e = new_session (stored_client_id e) (stored_expires_at e) (stored_last_used_at e)"

lemma update_absent: "k \<notin> set (map fst R) \<Longrightarrow> AList.update k v R = R @ [(k, v)]"
  by (induction R) auto

lemma restore_fold:
  assumes "distinct (map fst R @ map stored_digest es)"
  shows "fold (restore_entry now) es (R, h) =
    (let l = filter (\<lambda>e. stored_expires_at e > now) es
     in (R @ zip (map stored_digest l) [length h..<length h + length l], h @ map restored l))"
  using assms
proof (induction es arbitrary: R h)
  case (Cons e es)
  show ?case
  proof (cases "stored_expires_at e > now")
    case True
    have "AList.update (stored_digest e) (length h) R = R @ [(stored_digest e, length h)]"
      using Cons.prems by (simp add: update_absent)
    moreover have "distinct (map fst (R @ [(stored_digest e, length h)]) @ map stored_digest es)"
      using Cons.prems by simp
    ultimately show ?thesis
      using True Cons.IH [of "R @ [(stored_digest e, length h)]" "h @ [restored e]"]
      by (simp add: restore_entry_def restored_def Let_def upt_conv_Cons del: upt_Suc)
  next
    case False
    then show ?thesis using Cons by (simp add: restore_entry_def)
  qed
qed simp

lemma restore_ok:
  assumes ok: "stored_ok d"
    and rh: "fold (restore_entry now) (stored_sessions d) ([], []) = (R, h)"
  shows "registry_ok h R" and "registry_view h R = filter (unexpired now) (document_view d)"
proof -
  let ?l = "filter (\<lambda>e. stored_expires_at e > now) (stored_sessions d)"
  have R: "R = zip (map stored_digest ?l) [0..<length ?l]" and h: "h = map restored ?l"
    using restore_fold [of "[]" "stored_sessions d" now "[]"] ok rh by (simp_all add: stored_ok_def Let_def)
  have fst: "map fst R = map stored_digest ?l" and snd: "map snd R = [0..<length ?l]" by (simp_all add: R)
  have len: "length R \<le> MAX_SESSIONS"
    using ok order_trans [OF length_filter_le [of "\<lambda>e. stored_expires_at e > now" "stored_sessions d"]]
    by (simp add: R stored_ok_def del: length_filter_le)
  have snds: "snd ` set R = {0..<length ?l}" using snd by (metis set_map set_upt)
  have at: "client_id (h ! a) = stored_client_id (?l ! a)" "expires_at (h ! a) = stored_expires_at (?l ! a)"
    if "a < length ?l" for a
    using that by (simp_all add: h restored_def new_session_def)
  have dist: "distinct (map stored_client_id ?l)" using ok by (simp add: stored_ok_def distinct_map_filter)
  have "inj_on (\<lambda>a. client_id (h ! a)) {0..<length ?l}"
  proof (rule inj_onI)
    fix a b assume ab: "a \<in> {0..<length ?l}" "b \<in> {0..<length ?l}" "client_id (h ! a) = client_id (h ! b)"
    then have "map stored_client_id ?l ! a = map stored_client_id ?l ! b" using at by simp
    then show "a = b" using ab dist by (subst (asm) nth_eq_iff_index_eq) simp_all
  qed
  moreover have "valid_token (client_id (h ! a)) \<and> expires_at (h ! a) > 0 \<and> a < length h" if "a < length ?l" for a
  proof -
    have "?l ! a \<in> set (stored_sessions d)" using that nth_mem [of a ?l] by simp
    then show ?thesis using ok that at [OF that] by (simp add: stored_ok_def list_all_iff h)
  qed
  ultimately show "registry_ok h R"
    using ok len unfolding registry_ok_def fst snd snds by (simp add: stored_ok_def distinct_map_filter)
  have "registry_view h R = map (\<lambda>a. (stored_digest (?l ! a), stored_client_id (?l ! a), stored_expires_at (?l ! a))) [0..<length ?l]"
    using at by (intro nth_equalityI) (simp_all add: registry_view_def R)
  also have "\<dots> = map (\<lambda>e. (stored_digest e, stored_client_id e, stored_expires_at e)) ?l"
    by (intro nth_equalityI) simp_all
  also have "\<dots> = filter (unexpired now) (document_view d)"
    by (simp add: document_view_def filter_map unexpired_def comp_def)
  finally show "registry_view h R = filter (unexpired now) (document_view d)" .
qed

lemma open_store_ok:
  assumes "open_store sha file bootstrap random now w = Inr s"
  shows "auth_ok sha now s" "persisted s"
proof -
  have "auth_ok sha now s \<and> persisted s"
  proof (cases "\<exists>d. read_store file = Inr (Some d)")
    case True
    then obtain d where d: "read_store file = Inr (Some d)" "stored_ok d"
      by (auto simp: read_store_def split: sum.splits option.splits if_splits)
    obtain R h where rh: "fold (restore_entry now) (stored_sessions d) ([], []) = (R, h)" by fastforce
    have idem: "filter (unexpired now) (filter (unexpired now) xs) = filter (unexpired now) xs" for xs by simp
    show ?thesis
      using assms d restore_ok [OF d(2) rh]
      by (auto simp: open_store_def new_sessions_def rh auth_ok_def file_ok_def stored_ok_def Let_def
        split: if_splits option.splits)
  next
    case False
    then show ?thesis
      using assms document_view_stored [of "[]" _ "[]"]
      by (auto simp: open_store_def new_sessions_def auth_ok_def file_ok_def registry_ok_empty persist_def Let_def
        stored_document_def document_view_def registry_view_def stored_ok_def
        split: if_splits option.splits sum.splits)
  qed
  then show "auth_ok sha now s" "persisted s" by simp_all
qed

lemma auth_step_persisted: "persisted (auth_step sha op s) = persisted s"
  by (cases op)
    (auto simp: authorize_login_def login_ticket_def authorize_ticket_def issue_ticket_def issue_def issue_locked_def
      fork_def renew_def authenticate_def revoke_def rotate_def close_web_def suspend_def enable_web_def
      insert_session_def Let_def replace_registry_fields
      split: prod.splits option.splits sum.splits if_splits)

lemma auth_run_persisted: "persisted (auth_run sha ops s) = persisted s"
  unfolding auth_run_def by (induction ops arbitrary: s) (simp_all add: auth_step_persisted)

section \<open>Addresses that left the registry\<close>

definition registered :: "Sessions \<Rightarrow> nat set" where
  "registered s = snd ` set (sessions (auth_state s))"

definition gone :: "nat \<Rightarrow> Sessions \<Rightarrow> bool" where
  "gone a s = (a < length (heap s) \<and> a \<notin> registered s)"

lemma gone_frame:
  "gone a s \<Longrightarrow> length (heap s') \<ge> length (heap s) \<Longrightarrow> registered s' \<subseteq> insert (length (heap s)) (registered s) \<Longrightarrow> gone a s'"
  by (auto simp: gone_def)

lemma replace_registry_heap:
  "replace_registry sha w s h token R = Inr s' \<Longrightarrow> length (heap s') = length h"
  using replace_registry_fields(9) by (simp add: same_core_def)

lemma insert_session_gone:
  assumes "insert_session sha s client expiry now held random w = (s', r)"
  shows "length (heap s') \<ge> length (heap s)" "registered s' \<subseteq> insert (length (heap s)) (registered s)"
proof -
  have upd: "snd ` set (AList.update k v R) \<subseteq> insert v (snd ` set R)" for k v and R :: Registry
    by (induction R) auto
  have "length (heap s') \<ge> length (heap s) \<and> registered s' \<subseteq> insert (length (heap s)) (registered s)"
    using assms
  proof (cases rule: insert_session_cases)
    case (2 token nxt)
    have "snd ` set nxt \<subseteq> registered s" unfolding 2(5) registered_def by auto
    from order_trans [OF upd insert_mono [OF this]] show ?thesis
      using replace_registry_heap [OF 2(3)] replace_registry_fields(1) [OF 2(3)]
      by (simp add: registered_def)
  next
    case (3 token nxt k)
    have "snd ` set nxt \<subseteq> registered s" unfolding 3(5) registered_def AList.delete_eq by auto
    from order_trans [OF upd insert_mono [OF this]] show ?thesis
      using replace_registry_heap [OF 3(3)] replace_registry_fields(1) [OF 3(3)]
      by (simp add: registered_def)
  qed auto
  then show "length (heap s') \<ge> length (heap s)" "registered s' \<subseteq> insert (length (heap s)) (registered s)"
    by simp_all
qed

lemma length_set_revoked: "length (set_revoked b s) = length (heap s)"
  using same_core_set_revoked by (simp add: same_core_def)

lemma gone_step: "gone a s \<Longrightarrow> gone a (auth_step sha op s)"
proof -
  assume g: "gone a s"
  have adm: "sessions (fst (admit_login (auth_state s) at)) = sessions (auth_state s)" for at
    using admit_login_books [OF prod.collapse [symmetric], of "auth_state s" at] by (simp add: same_books_def)
  have ins: "gone a (fst (insert_session sha s c e n held rnd w))" for c e n held rnd w
    using gone_frame [OF g] insert_session_gone [OF prod.collapse [symmetric]] by blast
  have locked: "gone a (fst (issue_locked sha s gen c n1 n2 held rnd w))" for gen c n1 n2 held rnd w
    using ins g by (simp add: issue_locked_def)
  have rep: "gone a s'" if "replace_registry sha w s (heap s) t (filter P (sessions (auth_state s))) = Inr s'" for w t P s'
    using replace_registry_heap [OF that] replace_registry_fields(1) [OF that] g
    by (auto simp: gone_def registered_def)
  have state: "gone a (set_state st s')" if "gone a s'" and "sessions st = sessions (auth_state s')" for st s'
    using that by (simp add: gone_def registered_def)
  show ?thesis
  proof (cases op)
    case (AuthorizeLogin t at)
    then show ?thesis
      using g adm [of at] by (auto simp: authorize_login_def intro!: state split: prod.splits option.splits)
  next
    case (AuthorizeTicket t at)
    then show ?thesis
      using g adm [of at] by (auto simp: authorize_ticket_def intro!: state split: prod.splits option.splits)
  next
    case (MakeTicket rnd at)
    then show ?thesis using g by (auto simp: login_ticket_def intro!: state split: option.splits)
  next
    case (IssueTicket gr c at n1 n2 held rnd w)
    then show ?thesis
      using g locked [of "grant_generation gr" c n1 n2 held rnd w]
      by (auto simp: issue_ticket_def intro!: state split: prod.splits sum.splits)
  next
    case (Issue gen c n1 n2 held rnd w)
    then show ?thesis using locked by (simp add: issue_def)
  next
    case (Fork b c n1 n2 held rnd w)
    then show ?thesis using ins g by (simp add: fork_def)
  next
    case (Renew b n1 n2 w)
    then show ?thesis
      using g by (auto simp: renew_def gone_def registered_def Let_def split: sum.splits)
  next
    case (Authenticate t n1 n2)
    then show ?thesis using g by (auto simp: authenticate_def gone_def registered_def split: option.splits)
  next
    case (Revoke b w)
    then show ?thesis using g rep by (auto simp: revoke_def split: sum.splits)
  next
    case (Rotate t w)
    then show ?thesis
      using g rep [where P = "\<lambda>_. False"] by (auto simp: rotate_def intro!: state split: sum.splits)
  next
    case (Close w)
    then show ?thesis
      using g rep [where P = "\<lambda>_. False"] by (auto simp: close_web_def intro!: state split: sum.splits)
  next
    case Suspend
    then show ?thesis using g by (simp add: suspend_def gone_def registered_def length_set_revoked)
  next
    case Enable
    then show ?thesis using g by (simp add: enable_web_def gone_def registered_def length_set_revoked)
  qed
qed

interpretation gone: invariant_system "gone a" "\<lambda>s t. \<exists>op. t = auth_step sha op s" "gone a" for a sha
  by unfold_locales (auto intro: gone_step)

lemma auth_run_steps: "(\<lambda>s t. \<exists>op. t = auth_step sha op s)\<^sup>*\<^sup>* s (auth_run sha ops s)"
  unfolding auth_run_def
proof (induction ops arbitrary: s)
  case (Cons op ops)
  have "\<exists>op'. auth_step sha op s = auth_step sha op' s" by blast
  from converse_rtranclp_into_rtranclp [OF this Cons.IH] show ?case by simp
qed simp

lemma gone_not_live: "gone a s \<Longrightarrow> \<not> live_at (auth_run sha ops s) b now \<or> b \<noteq> a"
  using gone.inv_steps [OF auth_run_steps, of a s sha ops] by (auto simp: gone_def registered_def live_at_def)

section \<open>The revoked flags\<close>

lemma revoke_fold_nth:
  assumes "a < length h"
  shows "revoked (fold (\<lambda>(k, b) h'. if P k b then h' else revoke_at b h') R h ! a)
    \<longleftrightarrow> revoked (h ! a) \<or> (\<exists>k. (k, a) \<in> set R \<and> \<not> P k a)"
  using assms
proof (induction R arbitrary: h)
  case (Cons x R)
  obtain k b where x: "x = (k, b)" by (cases x)
  have "a < length (revoke_at b h)" "revoked (revoke_at b h ! a) \<longleftrightarrow> revoked (h ! a) \<or> a = b"
    using Cons.prems by (cases "a = b"; simp add: revoke_at_def)+
  then show ?case using Cons x by auto
qed simp

lemma replace_registry_revoked:
  assumes "replace_registry sha w s h token R = Inr s'" and "a < length h"
  shows "revoked (heap s' ! a) \<longleftrightarrow>
    revoked (h ! a) \<or> (\<exists>k. (k, a) \<in> set (sessions (auth_state s)) \<and> map_of R k \<noteq> Some a)"
  using assms revoke_fold_nth [OF assms(2), of "\<lambda>k a. map_of R k = Some a" "sessions (auth_state s)"]
  by (auto simp: replace_registry_def split: sum.splits)

section \<open>Eviction\<close>

lemma fold_min_le: "y \<in> set (x # xs) \<Longrightarrow> fold min xs x \<le> y" for x :: "'a::linorder"
proof -
  assume "y \<in> set (x # xs)"
  then have "Min (set (x # xs)) \<le> y" by (intro Min_le) simp_all
  then show ?thesis by (simp only: Min.set_eq_fold)
qed

text \<open>The evicted session is the least recently used of those nobody holds.\<close>

lemma oldest_idle_least:
  assumes "oldest_idle h held now client R = Some k" and "(k', a') \<in> set R" and "keeps h now client a'" and "a' \<notin> held"
  shows "\<exists>a. (k, a) \<in> set R \<and> keeps h now client a \<and> a \<notin> held \<and> (last_used_at (h ! a), k) \<le> (last_used_at (h ! a'), k')"
proof -
  let ?xs = "map (\<lambda>(k, a). (last_used_at (h ! a), k)) (filter (\<lambda>(k, a). keeps h now client a \<and> a \<notin> held) R)"
  from assms(1) obtain x xs where xs: "?xs = x # xs" and k: "k = snd (fold min xs x)"
    by (auto simp: oldest_idle_def split: list.splits)
  have "(last_used_at (h ! a'), k') \<in> set ?xs" using assms(2-4) by force
  then have le: "fold min xs x \<le> (last_used_at (h ! a'), k')" unfolding xs by (rule fold_min_le)
  have "fold min xs x \<in> set (x # xs)"
    using Min_in [of "set (x # xs)"] by (simp only: Min.set_eq_fold) simp
  then have "fold min xs x \<in> set ?xs" by (simp only: xs)
  then obtain ka where ka: "ka \<in> set (filter (\<lambda>(k, a). keeps h now client a \<and> a \<notin> held) R)"
      "fold min xs x = (case ka of (k, a) \<Rightarrow> (last_used_at (h ! a), k))"
    unfolding set_map by blast
  obtain j a where "ka = (j, a)" by (cases ka)
  then have a: "(k, a) \<in> set R" "keeps h now client a" "a \<notin> held" "fold min xs x = (last_used_at (h ! a), k)"
    using ka unfolding k by simp_all
  have "(last_used_at (h ! a), k) \<le> (last_used_at (h ! a'), k')" using le unfolding a(4) .
  with a(1-3) show ?thesis by blast
qed

lemma distinct_snd_eq: "distinct (map snd R) \<Longrightarrow> (k', a) \<in> set R \<Longrightarrow> (k, a) \<in> set R \<Longrightarrow> k' = k"
  by (induction R) force+

lemma insert_session_keeps:
  assumes ok: "auth_ok sha since s"
    and ins: "insert_session sha s client expiry now held random w = (s', Inr (token, b))"
    and entry: "(k, a) \<in> set (sessions (auth_state s))" and keep: "keeps (heap s) now client a"
    and new: "k \<noteq> sha session_kind token"
    and stays: "map_of (sessions (auth_state s')) k = Some a \<Longrightarrow> thesis"
    and evicted: "oldest_idle (heap s) held now client (sessions (auth_state s)) = Some k \<Longrightarrow> a \<notin> held \<Longrightarrow>
      MAX_SESSIONS \<le> length (filter (\<lambda>(k, a). keeps (heap s) now client a) (sessions (auth_state s))) \<Longrightarrow> thesis"
  shows thesis
proof -
  let ?live = "filter (\<lambda>(k, a). keeps (heap s) now client a) (sessions (auth_state s))"
  have ok: "registry_ok (heap s) (sessions (auth_state s))" using ok by (simp add: auth_ok_def)
  then have dist: "distinct (map fst (sessions (auth_state s)))" by (simp add: registry_ok_def)
  have live: "map_of ?live k = Some a"
    using entry keep dist by (intro map_of_is_SomeI) (auto simp: distinct_map_filter)
  from ins show thesis
  proof (cases rule: insert_session_cases)
    case (1 e)
    then show thesis by simp
  next
    case (2 token' nxt)
    then have "map_of (sessions (auth_state s')) k = Some a"
      using live new replace_registry_fields(1) [OF 2(3)] by (simp add: update_conv')
    then show thesis by (rule stays)
  next
    case (3 token' nxt k')
    show thesis
    proof (cases "k' = k")
      case False
      then have "map_of (sessions (auth_state s')) k = Some a"
        using 3 live new replace_registry_fields(1) [OF 3(3)] by (simp add: update_conv' delete_conv')
      then show thesis by (rule stays)
    next
      case True
      obtain a' where "(k, a') \<in> set (sessions (auth_state s))" "a' \<notin> held"
        using oldest_idle_in [OF 3(4)] True by auto
      then have "a \<notin> held" using entry dist by (metis eq_key_imp_eq_value)
      moreover have "MAX_SESSIONS \<le> length ?live"
      proof (rule ccontr)
        assume "\<not> MAX_SESSIONS \<le> length ?live"
        then have "map_of (sessions (auth_state s')) k = Some a"
          using ins live new 3(1,2) replace_registry_fields(1)
          by (auto simp: insert_session_def Let_def update_conv' split: sum.splits)
        moreover have "map_of (sessions (auth_state s')) k = None"
          using 3 True new replace_registry_fields(1) [OF 3(3)] by (simp add: update_conv' delete_conv')
        ultimately show False by simp
      qed
      ultimately show thesis using evicted 3(4) True by blast
    qed
  qed
qed

section \<open>Attempts, tickets and generations\<close>

text \<open>A series of attempts, and those of them that were let through.\<close>

fun admit_run :: "SessionState \<Rightarrow> instant list \<Rightarrow> SessionState \<times> instant list" where
  "admit_run st [] = (st, [])"
| "admit_run st (now # nows) =
     (case admit_login st now of
        (st', r) \<Rightarrow> (case admit_run st' nows of
          (st'', adm) \<Rightarrow> (st'', if r = None then now # adm else adm)))"

definition window_count :: "instant \<Rightarrow> instant list \<Rightarrow> nat" where
  "window_count t xs = length (filter (\<lambda>x. t \<le> x \<and> x < t + LOGIN_WINDOW) xs)"

text \<open>
  \<open>hist\<close> is everything admitted so far: a part that is too old for any attempt from \<open>latest\<close> on,
  and the part the queue still holds.
\<close>

definition throttle_ok :: "instant \<Rightarrow> instant list \<Rightarrow> SessionState \<Rightarrow> bool" where
  "throttle_ok latest hist st =
     ((\<exists>old. hist = old @ attempts st \<and> (\<forall>x\<in>set old. x + LOGIN_WINDOW \<le> latest))
      \<and> (\<forall>x\<in>set hist. x \<le> latest) \<and> (\<forall>t. window_count t hist \<le> LOGIN_ATTEMPTS))"

lemma throttle_okI:
  "hist = old @ attempts st \<Longrightarrow> \<forall>x\<in>set old. x + LOGIN_WINDOW \<le> latest \<Longrightarrow>
   \<forall>x\<in>set hist. x \<le> latest \<Longrightarrow> \<forall>t. window_count t hist \<le> LOGIN_ATTEMPTS \<Longrightarrow> throttle_ok latest hist st"
  unfolding throttle_ok_def by blast

lemma throttle_step:
  assumes ok: "throttle_ok latest hist st" and later: "latest \<le> now" and adm: "admit_login st now = (st', r)"
  shows "throttle_ok now (if r = None then hist @ [now] else hist) st'"
proof -
  obtain old where old: "hist = old @ attempts st" "\<forall>x\<in>set old. x + LOGIN_WINDOW \<le> latest"
    and le: "\<forall>x\<in>set hist. x \<le> latest" and win: "\<forall>t. window_count t hist \<le> LOGIN_ATTEMPTS"
    using ok by (auto simp: throttle_ok_def)
  let ?kept = "dropWhile (\<lambda>x. duration_since now x \<ge> LOGIN_WINDOW) (attempts st)"
  let ?gone = "old @ takeWhile (\<lambda>x. duration_since now x \<ge> LOGIN_WINDOW) (attempts st)"
  have hist: "hist = ?gone @ ?kept" using old by simp
  have "LOGIN_WINDOW > 0" by (simp add: LOGIN_WINDOW_def from_secs_def)
  then have gone: "\<forall>x\<in>set ?gone. x + LOGIN_WINDOW \<le> now"
    using old later by (auto dest!: set_takeWhileD simp: duration_since_def)
  show ?thesis
  proof (cases "enabled st \<and> length ?kept < LOGIN_ATTEMPTS")
    case True
    then have st': "attempts st' = ?kept @ [now]" "r = None"
      using adm by (auto simp: admit_login_def Let_def)
    have "window_count t (hist @ [now]) \<le> LOGIN_ATTEMPTS" for t
    proof (cases "t \<le> now \<and> now < t + LOGIN_WINDOW")
      case True
      then have none: "filter (\<lambda>x. t \<le> x \<and> x < t + LOGIN_WINDOW) ?gone = []"
        using gone by (intro filter_False) fastforce
      have "window_count t hist = window_count t ?kept"
        using none unfolding window_count_def by (subst hist) (simp only: filter_append length_append list.size)
      also have "\<dots> \<le> length ?kept" by (simp add: window_count_def)
      finally show ?thesis
        using \<open>enabled st \<and> length ?kept < LOGIN_ATTEMPTS\<close> True by (simp add: window_count_def)
    next
      case False
      then have "window_count t (hist @ [now]) = window_count t hist" by (auto simp: window_count_def)
      then show ?thesis using win by simp
    qed
    moreover have "hist @ [now] = ?gone @ attempts st'" using hist st' by simp
    moreover have "\<forall>x\<in>set (hist @ [now]). x \<le> now" using le later by auto
    ultimately have "throttle_ok now (hist @ [now]) st'" using gone throttle_okI by blast
    then show ?thesis using st'(2) by simp
  next
    case False
    then have "r \<noteq> None" and "attempts st' = ?kept \<or> attempts st' = attempts st"
      using adm by (auto simp: admit_login_def Let_def split: if_splits)
    moreover have "\<forall>x\<in>set old. x + LOGIN_WINDOW \<le> now" "\<forall>x\<in>set hist. x \<le> now"
      using old(2) le later by auto
    ultimately have "throttle_ok now hist st'"
      using throttle_okI [OF _ gone _ win, of st'] throttle_okI [of hist old st' now] hist old(1) win by auto
    then show ?thesis using \<open>r \<noteq> None\<close> by auto
  qed
qed

lemma throttle_run:
  assumes "throttle_ok latest hist st" and "sorted (latest # nows)"
  shows "window_count t (hist @ snd (admit_run st nows)) \<le> LOGIN_ATTEMPTS"
  using assms
proof (induction nows arbitrary: latest hist st)
  case Nil
  then show ?case by (simp add: throttle_ok_def)
next
  case (Cons now nows)
  obtain st' r where adm: "admit_login st now = (st', r)" by fastforce
  have "throttle_ok now (if r = None then hist @ [now] else hist) st'"
    using throttle_step [OF Cons.prems(1) _ adm] Cons.prems(2) by simp
  from Cons.IH [OF this] Cons.prems(2) adm show ?case
    by (cases "r = None") (auto split: prod.splits)
qed

text \<open>Without a ticket no grant is good, and only \<open>login_ticket\<close> makes one.\<close>

fun makes_ticket :: "auth_op \<Rightarrow> bool" where
  "makes_ticket (MakeTicket rnd at) = True"
| "makes_ticket _ = False"

lemma insert_session_ticket:
  "insert_session sha s c e n held rnd w = (s', r) \<Longrightarrow> ticket (auth_state s') = ticket (auth_state s)"
  "insert_session sha s c e n held rnd w = (s', r) \<Longrightarrow> auth_generation (auth_state s') = auth_generation (auth_state s)"
  by (auto simp: insert_session_def Let_def replace_registry_fields split: option.splits sum.splits)

lemma admit_login_ticket:
  "admit_login st now = (st', r) \<Longrightarrow> ticket st' = ticket st \<and> auth_generation st' = auth_generation st"
  by (auto simp: admit_login_def Let_def split: if_splits)

lemma issue_locked_ticket:
  "issue_locked sha s g c n1 n2 held rnd w = (s', r) \<Longrightarrow>
   ticket (auth_state s') = ticket (auth_state s) \<and> auth_generation (auth_state s') = auth_generation (auth_state s)"
  using insert_session_ticket by (auto simp: issue_locked_def split: if_splits)

lemma no_ticket_step:
  assumes "\<not> makes_ticket op" and "ticket (auth_state s) = None"
  shows "ticket (auth_state (auth_step sha op s)) = None"
  using assms
proof (cases op)
  case (IssueTicket g c at n1 n2 held rnd w)
  then show ?thesis using assms by (simp add: issue_ticket_def ticket_matches_def)
next
  case (Issue g c n1 n2 held rnd w)
  then show ?thesis using assms issue_locked_ticket [OF prod.collapse [symmetric]] by (simp add: issue_def)
next
  case (Fork a c n1 n2 held rnd w)
  then show ?thesis using assms insert_session_ticket(1) [OF prod.collapse [symmetric]] by (simp add: fork_def)
qed (auto simp: authorize_login_def authorize_ticket_def renew_def authenticate_def revoke_def rotate_def
  close_web_def suspend_def enable_web_def replace_registry_fields Let_def
  dest!: admit_login_ticket split: prod.splits option.splits sum.splits if_splits)

lemma no_ticket_run:
  assumes "list_all (\<lambda>op. \<not> makes_ticket op) ops" and "ticket (auth_state s) = None"
  shows "ticket (auth_state (auth_run sha ops s)) = None"
  using assms unfolding auth_run_def by (induction ops arbitrary: s) (simp_all add: no_ticket_step)

text \<open>Only a rotation, a close or a suspension changes the generation, and it adds one.\<close>

fun bumps_of :: "(string \<Rightarrow> string \<Rightarrow> string) \<Rightarrow> auth_op list \<Rightarrow> Sessions \<Rightarrow> nat" where
  "bumps_of sha [] s = 0"
| "bumps_of sha (op # ops) s =
     (case op of
        Rotate t w \<Rightarrow> if snd (rotate sha s t w) = None then 1 else 0
      | Close w \<Rightarrow> if snd (close_web sha s w) = None then 1 else 0
      | Suspend \<Rightarrow> 1
      | _ \<Rightarrow> 0) + bumps_of sha ops (auth_step sha op s)"

lemma generation_step:
  "auth_generation (auth_state (auth_step sha op s)) = auth_generation (auth_state s) + of_nat (bumps_of sha [op] s)"
proof (cases op)
  case (IssueTicket g c at n1 n2 held rnd w)
  have "auth_generation (auth_state s') = auth_generation (auth_state s)"
    if "issue_locked sha s gen c n1 n2 held rnd w = (s', r)" for gen s' r
    using issue_locked_ticket [OF that] by simp
  then show ?thesis
    using IssueTicket by (auto simp: issue_ticket_def split: prod.splits sum.splits)
next
  case (Issue g c n1 n2 held rnd w)
  then show ?thesis using issue_locked_ticket [OF prod.collapse [symmetric]] by (simp add: issue_def)
next
  case (Fork a c n1 n2 held rnd w)
  then show ?thesis using insert_session_ticket(2) [OF prod.collapse [symmetric]] by (simp add: fork_def)
qed (auto simp: authorize_login_def authorize_ticket_def login_ticket_def renew_def authenticate_def revoke_def rotate_def
  close_web_def suspend_def enable_web_def replace_registry_fields Let_def
  dest!: admit_login_ticket split: prod.splits option.splits sum.splits if_splits)

lemma generation_run:
  "auth_generation (auth_state (auth_run sha ops s)) = auth_generation (auth_state s) + of_nat (bumps_of sha ops s)"
proof (induction ops arbitrary: s)
  case Nil
  then show ?case by (simp add: auth_run_def)
next
  case (Cons op ops)
  have "bumps_of sha (op # ops) s = bumps_of sha [op] s + bumps_of sha ops (auth_step sha op s)" by simp
  then show ?case
    using Cons [of "auth_step sha op s"] generation_step [of sha op s] by (simp add: auth_run_def del: bumps_of.simps)
qed

section \<open>Properties\<close>

text \<open>
  C7: However the service is used after its credential file was opened, the registry holds at most
  32 sessions, no two of them of the same client and no two under the same digest.
\<close>
theorem registry_bounded:
  assumes "open_store sha file bootstrap random now w = Inr s" and "list_all op_clock_ok ops"
    and "s' = auth_run sha ops s"
  shows "length (sessions (auth_state s')) \<le> 32
    \<and> distinct (map fst (sessions (auth_state s')))
    \<and> distinct (map (\<lambda>(k, a). client_id (heap s' ! a)) (sessions (auth_state s')))"
proof -
  let ?R = "sessions (auth_state s')"
  have R: "registry_ok (heap s') ?R"
    using auth_run_ok [OF open_store_ok(1) [OF assms(1)] assms(2)] assms(3) by (simp add: auth_ok_def)
  then have "distinct (map (\<lambda>a. client_id (heap s' ! a)) (map snd ?R))"
    by (simp only: registry_ok_def distinct_map set_map)
  then show ?thesis using R by (simp add: comp_def case_prod_unfold registry_ok_def MAX_SESSIONS_def)
qed

text \<open>
  C8: The file is the registry. Whatever was done since the file was opened, reopening it later
  gives back the same administrator token and exactly the sessions that have not expired, with
  their clients and expiry times; a crash at any point loses and resurrects nothing.
\<close>
theorem restart_restores:
  assumes "open_store sha file bootstrap random since w = Inr s" and "list_all op_clock_ok ops"
    and "s' = auth_run sha ops s" and "since \<le> now"
  shows "\<exists>s''. open_store sha (Inr (disk s')) None random' now w' = Inr s''
    \<and> administrator_plaintext (auth_state s'') = administrator_plaintext (auth_state s')
    \<and> registry_view (heap s'') (sessions (auth_state s''))
       = filter (unexpired now) (registry_view (heap s') (sessions (auth_state s')))"
proof -
  have ok: "auth_ok sha since s'" "persisted s'"
    using auth_run_ok [OF open_store_ok(1) [OF assms(1)] assms(2)] open_store_ok(2) [OF assms(1)]
    by (simp_all add: assms(3) auth_run_persisted)
  then obtain d where d: "disk s' = Some d" "stored_ok d"
      "administrator_token d = administrator_plaintext (auth_state s')"
      "filter (unexpired since) (document_view d)
         = filter (unexpired since) (registry_view (heap s') (sessions (auth_state s')))"
    by (auto simp: auth_ok_def file_ok_def split: option.splits)
  have later: "filter (unexpired now) xs = filter (unexpired now) (filter (unexpired since) xs)" for xs
    using assms(4) by (auto simp: unexpired_def intro!: filter_cong)
  obtain R h where rh: "fold (restore_entry now) (stored_sessions d) ([], []) = (R, h)" by fastforce
  have "filter (unexpired now) (document_view d)
      = filter (unexpired now) (registry_view (heap s') (sessions (auth_state s')))"
    unfolding later [of "document_view d"] d(4) by (simp only: later [symmetric])
  then show ?thesis
    using d(2,3) restore_ok(2) [OF d(2) rh]
    by (simp add: d(1) open_store_def read_store_def new_sessions_def rh stored_ok_def Let_def)
qed

text \<open>A service to try the properties on: the hash is the kind followed by the token.\<close>

definition demo_sha :: "string \<Rightarrow> string \<Rightarrow> string" where
  "demo_sha kind token = kind @ token"

definition demo_token :: "char \<Rightarrow> string" where
  "demo_token c = replicate 64 c"

definition demo_random :: "8 word \<Rightarrow> 8 word list option" where
  "demo_random b = Some (replicate 32 b)"

definition demo_open :: Sessions where
  "demo_open = projr (open_store demo_sha (Inr None) (Some (demo_token CHR ''a'')) None 5 None)"

definition demo_ops :: "auth_op list" where
  "demo_ops = [Issue 0 (demo_token CHR ''b'') 7 7 {} (demo_random 1) None]"

definition demo_issued :: Sessions where
  "demo_issued = auth_run demo_sha demo_ops demo_open"

lemma demo_hex: "is_ascii_hexdigit CHR ''a''" "is_ascii_hexdigit CHR ''b''" "is_ascii_hexdigit CHR ''c''"
  by code_simp+

lemma demo_valid: "is_ascii_hexdigit c \<Longrightarrow> valid_token (demo_token c)"
  by (simp add: valid_token_def demo_token_def list_all_iff)

lemma demo_open: "open_store demo_sha (Inr None) (Some (demo_token CHR ''a'')) None 5 None = Inr demo_open"
  by (simp add: demo_open_def open_store_def read_store_def new_sessions_def demo_valid demo_hex persist_def Let_def)

lemma demo_ops_clock: "list_all op_clock_ok demo_ops"
  by (simp add: demo_ops_def clock_ok_def unat_lifetime)

lemma demo_state:
  "sessions (auth_state demo_open) = []" "heap demo_open = []" "persisted demo_open"
  "enabled (auth_state demo_open)" "auth_generation (auth_state demo_open) = 0"
  "administrator_plaintext (auth_state demo_open) = demo_token CHR ''a''"
  "administrator (auth_state demo_open) = demo_sha administrator_kind (demo_token CHR ''a'')"
  "attempts (auth_state demo_open) = []" "ticket (auth_state demo_open) = None"
  by (simp_all add: demo_open_def open_store_def read_store_def new_sessions_def demo_valid demo_hex persist_def Let_def)

definition demo_session_token :: "8 word \<Rightarrow> string" where
  "demo_session_token b = concat (replicate 32 (hex_byte b))"

lemma demo_new_token: "new_token (demo_random b) = Some (demo_session_token b)"
  by (simp add: new_token_def demo_random_def demo_session_token_def)

lemma milliseconds_lifetime: "milliseconds SESSION_LIFETIME = 2592000000"
  by (simp add: milliseconds_def SESSION_LIFETIME_def from_secs_def)

lemma demo_issued_view:
  "sessions (auth_state demo_issued) = [(demo_sha session_kind (demo_session_token 1), 0)]"
  "heap demo_issued = [new_session (demo_token CHR ''b'') 2592000007 7]"
  by (simp_all add: demo_issued_def demo_ops_def auth_run_def issue_def issue_locked_def demo_state demo_valid demo_hex
    insert_session_def demo_new_token replace_registry_def persist_def MAX_SESSIONS_def milliseconds_lifetime)

theorem registry_bounded_witness:
  "length (sessions (auth_state demo_issued)) \<le> 32"
  using registry_bounded [OF demo_open demo_ops_clock demo_issued_def] by simp

theorem restart_restores_witness:
  "\<exists>s''. open_store demo_sha (Inr (disk demo_issued)) None None 9 None = Inr s''
    \<and> registry_view (heap s'') (sessions (auth_state s''))
       = [(demo_sha session_kind (demo_session_token 1), demo_token CHR ''b'', 2592000007)]"
  using restart_restores [OF demo_open demo_ops_clock demo_issued_def, of 9 None None]
  by (auto simp: demo_issued_view registry_view_def unexpired_def new_session_def)

text \<open>
  C9: A failed write changes nothing. When issuing, redeeming a ticket, forking, renewing, revoking,
  rotating or closing reports that the file could not be written, registry, sessions, generation,
  ticket and file are as they were.
\<close>
theorem storage_failure_changes_nothing:
  "(issue sha s g c n1 n2 held rnd w = (s', Inl (Storage e)) \<longrightarrow> s' = s)
   \<and> (issue_ticket sha s gr c at n1 n2 held rnd w = (s', Inl (Storage e)) \<longrightarrow> s' = s)
   \<and> (fork sha s a c n1 n2 held rnd w = (s', Inl (Storage e)) \<longrightarrow> s' = s)
   \<and> (renew s a n1 n2 w = (s', Inl (Storage e)) \<longrightarrow> s' = s)
   \<and> (revoke sha s a w = (s', Some e) \<longrightarrow> s' = s)
   \<and> (rotate sha s t w = (s', Some (RotateStorage e)) \<longrightarrow> s' = s)
   \<and> (close_web sha s w = (s', Some e) \<longrightarrow> s' = s)"
proof -
  have ins: "s1 = s" if "insert_session sha s c' x n held rnd w = (s1, Inl f)" for c' x n s1 f
    using that by (auto simp: insert_session_def Let_def split: option.splits sum.splits)
  have locked: "s1 = s" if "issue_locked sha s g' c n1 n2 held rnd w = (s1, Inl f)" for g' s1 f
    using that ins by (auto simp: issue_locked_def split: if_splits)
  show ?thesis
    using ins locked
    by (auto simp: issue_def issue_ticket_def fork_def renew_def revoke_def rotate_def close_web_def Let_def
      split: if_splits sum.splits prod.splits)
qed

theorem storage_failure_changes_nothing_witness:
  "close_web demo_sha demo_issued (Some PermissionDenied) = (demo_issued, Some SaveDenied)"
proof -
  have "persisted demo_issued" by (simp add: demo_issued_def auth_run_persisted demo_state)
  then have "close_web demo_sha demo_issued (Some PermissionDenied)
      = (fst (close_web demo_sha demo_issued (Some PermissionDenied)), Some SaveDenied)"
    by (simp add: close_web_def replace_registry_def persist_def failure_io_def)
  moreover from this have "fst (close_web demo_sha demo_issued (Some PermissionDenied)) = demo_issued"
    using storage_failure_changes_nothing [of demo_sha demo_issued 0 "[]" 0 0 "{}" None "Some PermissionDenied"
        "fst (close_web demo_sha demo_issued (Some PermissionDenied))" SaveDenied] by blast
  ultimately show ?thesis by simp
qed

text \<open>
  A new session evicts at most what may go. An entry that has not expired and belongs to another
  client either stays, with its flag untouched, or the registry was full, nobody held the session,
  and it was the least recently used of all such sessions.
\<close>
theorem eviction_is_least_recent_idle:
  assumes "auth_ok sha since s"
    and "insert_session sha s client expiry now held random w = (s', Inr (token, b))"
    and "(k, a) \<in> set (sessions (auth_state s))"
    and "expires_at (heap s ! a) > now" and "client_id (heap s ! a) \<noteq> client"
    and "k \<noteq> sha session_kind token"
  shows "map_of (sessions (auth_state s')) k = Some a \<and> revoked (heap s' ! a) = revoked (heap s ! a)
    \<or> (a \<notin> held \<and> 32 \<le> length (sessions (auth_state s))
      \<and> (\<forall>(k', a')\<in>set (sessions (auth_state s)). expires_at (heap s ! a') > now \<and> client_id (heap s ! a') \<noteq> client
            \<and> a' \<notin> held \<longrightarrow> (last_used_at (heap s ! a), k) \<le> (last_used_at (heap s ! a'), k')))"
proof -
  have keep: "keeps (heap s) now client a" using assms(4,5) by (simp add: keeps_def)
  have ok: "registry_ok (heap s) (sessions (auth_state s))" using assms(1) by (simp add: auth_ok_def)
  show ?thesis
  proof (rule insert_session_keeps [OF assms(1,2,3) keep assms(6)])
    assume stays: "map_of (sessions (auth_state s')) k = Some a"
    have a: "a < length (heap s)" using registry_okD(1) [OF ok] assms(3) by force
    obtain nxt where r: "replace_registry sha w s (heap s @ [new_session client expiry now])
        (administrator_plaintext (auth_state s)) nxt = Inr s'"
      using assms(2) by (rule insert_session_cases) auto
    have "nxt = sessions (auth_state s')" using replace_registry_fields(1) [OF r] by simp
    moreover have "k' = k" if "(k', a) \<in> set (sessions (auth_state s))" for k'
      using distinct_snd_eq [OF _ that assms(3)] ok by (simp add: registry_ok_def)
    ultimately have "revoked (heap s' ! a) = revoked (heap s ! a)"
      using replace_registry_revoked [OF r, of a] a stays by (auto simp: nth_append)
    then show ?thesis using stays by blast
  next
    assume old: "oldest_idle (heap s) held now client (sessions (auth_state s)) = Some k" "a \<notin> held"
      and full: "MAX_SESSIONS \<le> length (filter (\<lambda>(k, a). keeps (heap s) now client a) (sessions (auth_state s)))"
    have dist: "distinct (map fst (sessions (auth_state s)))" using ok by (simp add: registry_ok_def)
    have "(last_used_at (heap s ! a), k) \<le> (last_used_at (heap s ! a'), k')"
      if idle: "(k', a') \<in> set (sessions (auth_state s))" "keeps (heap s) now client a'" "a' \<notin> held" for k' a'
    proof -
      obtain a1 where a1: "(k, a1) \<in> set (sessions (auth_state s))"
          "(last_used_at (heap s ! a1), k) \<le> (last_used_at (heap s ! a'), k')"
        using oldest_idle_least [OF old(1) idle] by blast
      have "a1 = a" using eq_key_imp_eq_value [OF dist a1(1) assms(3)] .
      then show ?thesis using a1(2) by simp
    qed
    moreover have "32 \<le> length (sessions (auth_state s))"
      using order_trans [OF full length_filter_le] by (simp add: MAX_SESSIONS_def)
    ultimately show ?thesis using old(2) by (auto simp: keeps_def)
  qed
qed

lemma demo_ok: "auth_ok demo_sha 5 demo_issued"
  unfolding demo_issued_def by (rule auth_run_ok [OF open_store_ok(1) [OF demo_open] demo_ops_clock])

lemma demo_issued_state:
  "persisted demo_issued" "enabled (auth_state demo_issued)" "auth_generation (auth_state demo_issued) = 0"
  "ticket (auth_state demo_issued) = None"
  by (simp_all add: demo_issued_def auth_run_persisted demo_state)
    (simp_all add: demo_ops_def auth_run_def issue_def issue_locked_def demo_state demo_valid demo_hex
      insert_session_def demo_new_token replace_registry_def persist_def MAX_SESSIONS_def)

definition demo_second :: "Sessions \<times> (LoginFailure + string \<times> nat)" where
  "demo_second = insert_session demo_sha demo_issued (demo_token CHR ''c'') 100 8 {} (demo_random 2) None"

lemma demo_clients_differ: "demo_token CHR ''b'' \<noteq> demo_token CHR ''c''"
  by (simp add: demo_token_def)

lemma demo_second: "demo_second = (fst demo_second, Inr (demo_session_token 2, 1))"
  by (simp add: demo_second_def insert_session_def demo_issued_view demo_new_token replace_registry_def persist_def
    MAX_SESSIONS_def keeps_def new_session_def demo_clients_differ Let_def)

lemma demo_tokens_differ: "demo_session_token 1 \<noteq> demo_session_token 2"
  by code_simp

theorem eviction_is_least_recent_idle_witness:
  "map_of (sessions (auth_state (fst demo_second))) (demo_sha session_kind (demo_session_token 1)) = Some 0
   \<and> \<not> revoked (heap (fst demo_second) ! 0)"
  using eviction_is_least_recent_idle [OF demo_ok demo_second [unfolded demo_second_def],
      of "demo_sha session_kind (demo_session_token 1)" 0] demo_tokens_differ
  by (simp add: demo_issued_view new_session_def demo_second_def demo_token_def demo_sha_def)

text \<open>
  Whatever the times of the attempts, in every stretch of sixty seconds at most twelve are let
  through to the comparison with the credential.
\<close>
theorem login_throttled:
  assumes "attempts st = []" and "sorted nows" and "admit_run st nows = (st', admitted)"
  shows "length (filter (\<lambda>x. t \<le> x \<and> x < t + 60 * nanos_per_second) admitted) \<le> 12"
proof -
  have "throttle_ok 0 [] st"
    using assms(1) by (simp add: throttle_ok_def window_count_def)
  from throttle_run [OF this, of nows t] assms(2,3) show ?thesis
    by (simp add: window_count_def LOGIN_WINDOW_def from_secs_def LOGIN_ATTEMPTS_def)
qed

theorem login_throttled_witness:
  "length (filter (\<lambda>x. 0 \<le> x \<and> x < 0 + 60 * nanos_per_second)
     (snd (admit_run (auth_state demo_open) [3, 4, 5]))) \<le> 12"
  using login_throttled [OF _ _ prod.collapse [symmetric], of "auth_state demo_open" "[3, 4, 5]" 0]
  by (simp add: demo_state)

text \<open>
  C10: A ticket buys one session. Once a grant has been redeemed, every other redemption, with
  whatever grant and after whatever operations, is refused until a new ticket is made.
\<close>
theorem ticket_single_use:
  assumes "issue_ticket sha s grant client at n1 n2 held rnd w = (s', Inr r)"
    and "list_all (\<lambda>op. \<not> makes_ticket op) ops" and "s'' = auth_run sha ops s'"
  shows "issue_ticket sha s'' grant' client' at' n1' n2' held' rnd' w' = (s'', Inl Unauthorized)"
proof -
  have "ticket (auth_state s') = None"
    using assms(1) by (auto simp: issue_ticket_def split: if_splits prod.splits sum.splits)
  from no_ticket_run [OF assms(2) this, of sha] assms(3) show ?thesis
    by (simp add: issue_ticket_def ticket_matches_def)
qed

definition demo_ticketed :: Sessions where
  "demo_ticketed = fst (login_ticket demo_sha demo_open (demo_random 3) 0)"

definition demo_grant :: TicketGrant where
  "demo_grant = \<lparr>grant_generation = 0, grant_digest = demo_sha ticket_kind (demo_session_token 3)\<rparr>"

definition demo_redeemed :: "Sessions \<times> (LoginFailure + string \<times> nat)" where
  "demo_redeemed = issue_ticket demo_sha demo_ticketed demo_grant (demo_token CHR ''b'') 1 7 7 {} (demo_random 1) None"

lemma demo_redeemed: "demo_redeemed = (fst demo_redeemed, Inr (demo_session_token 1, 0))"
  by (simp add: demo_redeemed_def issue_ticket_def issue_locked_def demo_ticketed_def demo_grant_def login_ticket_def
    demo_new_token demo_state ticket_matches_def LOGIN_TICKET_LIFETIME_def from_secs_def demo_valid demo_hex
    insert_session_def replace_registry_def persist_def MAX_SESSIONS_def)

theorem ticket_single_use_witness:
  "snd (issue_ticket demo_sha (auth_run demo_sha [Enable] (fst demo_redeemed)) demo_grant (demo_token CHR ''c'')
     2 8 8 {} (demo_random 2) None) = Inl Unauthorized"
  using ticket_single_use [OF demo_redeemed [unfolded demo_redeemed_def] _ refl, of "[Enable]"]
  by (simp add: demo_redeemed_def)

text \<open>
  A login authorized before a rotation, a close or a suspension is void after it: the generation it
  carries no longer matches, so no session is issued for it, whatever else happened meanwhile and
  even if the service was enabled again (up to a wrap of the 64-bit generation).
\<close>
theorem stale_login_refused:
  assumes "snd (authorize_login sha s token at) = Inr g"
    and "s' = auth_run sha ops (fst (authorize_login sha s token at))"
    and "0 < bumps_of sha ops (fst (authorize_login sha s token at))"
    and "bumps_of sha ops (fst (authorize_login sha s token at)) < 2 ^ 64"
  shows "issue sha s' g client n1 n2 held rnd w = (s', Inl Unauthorized)"
proof -
  let ?s = "fst (authorize_login sha s token at)" and ?n = "bumps_of sha ops (fst (authorize_login sha s token at))"
  have "g = auth_generation (auth_state ?s)"
    using assms(1) by (auto simp: authorize_login_def split: prod.splits option.splits if_splits)
  moreover have "(of_nat ?n :: u64) \<noteq> 0"
  proof
    assume "(of_nat ?n :: u64) = 0"
    then have "unat (of_nat ?n :: u64) = 0" by simp
    then show False using assms(3,4) by (simp add: unat_of_nat)
  qed
  ultimately have "auth_generation (auth_state s') \<noteq> g"
    using generation_run [of sha ops ?s] assms(2) by simp
  then show ?thesis by (simp add: issue_def issue_locked_def)
qed

theorem stale_login_refused_witness:
  "snd (issue demo_sha (auth_run demo_sha [Suspend, Enable] (fst (authorize_login demo_sha demo_open (demo_token CHR ''a'') 0)))
     0 (demo_token CHR ''b'') 7 7 {} (demo_random 1) None) = Inl Unauthorized"
proof -
  have "snd (authorize_login demo_sha demo_open (demo_token CHR ''a'') 0) = Inr 0"
    by (simp add: authorize_login_def admit_login_def demo_state LOGIN_ATTEMPTS_def demo_valid demo_hex)
  from stale_login_refused [OF this refl, of "[Suspend, Enable]"] show ?thesis by simp
qed

text \<open>
  Revocation is final. A session that was revoked, or that was registered when the token was
  rotated or the service closed, is never live again: not after \<open>enable\<close>, not through a late renewal.
\<close>
theorem revoked_stays_dead:
  assumes "auth_ok sha since s" and "a \<in> snd ` set (sessions (auth_state s))"
    and "revoke sha s a w = (s', None) \<or> rotate sha s t w = (s', None) \<or> close_web sha s w = (s', None)"
  shows "\<not> is_live (auth_run sha ops s') a now"
proof -
  have a: "a < length (heap s)" using registry_okD(1) [OF _ assms(2)] assms(1) by (auto simp: auth_ok_def)
  have len: "length (heap s1) = length (heap s)" "registered s1 = snd ` set R"
    if "replace_registry sha w s (heap s) t' R = Inr s1" for t' R s1
    using replace_registry_heap [OF that] replace_registry_fields(1) [OF that] by (simp_all add: registered_def)
  have drop: "gone a s1" if "replace_registry sha w s (heap s) t' R = Inr s1" "a \<notin> snd ` set R" for t' R s1
    using len [OF that(1)] that(2) a by (simp add: gone_def)
  have state: "gone a (set_state st s1) \<longleftrightarrow> gone a s1" if "sessions st = sessions (auth_state s1)" for st s1
    using that by (simp add: gone_def registered_def)
  from assms(3) have "gone a s'"
  proof (elim disjE)
    assume "revoke sha s a w = (s', None)"
    then have "replace_registry sha w s (heap s) (administrator_plaintext (auth_state s))
        (filter (\<lambda>(k, b). b \<noteq> a) (sessions (auth_state s))) = Inr s'"
      by (simp add: revoke_def split: sum.splits)
    then show ?thesis by (rule drop) auto
  next
    assume "rotate sha s t w = (s', None)"
    then obtain s1 where "replace_registry sha w s (heap s) t [] = Inr s1"
        "s' = set_state ((auth_state s1)\<lparr>auth_generation := auth_generation (auth_state s1) + 1, attempts := [], ticket := None\<rparr>) s1"
      by (auto simp: rotate_def split: sum.splits if_splits)
    then show ?thesis using drop [of t "[]" s1] by (simp add: state)
  next
    assume "close_web sha s w = (s', None)"
    then obtain s1 where "replace_registry sha w s (heap s) (administrator_plaintext (auth_state s)) [] = Inr s1"
        "s' = set_state ((auth_state s1)\<lparr>enabled := False, auth_generation := auth_generation (auth_state s1) + 1, ticket := None\<rparr>) s1"
      by (auto simp: close_web_def split: sum.splits)
    then show ?thesis using drop [of _ "[]" s1] by (simp add: state)
  qed
  from gone_not_live [OF this, of sha ops a now] show ?thesis by (simp add: is_live_def)
qed

theorem revoked_stays_dead_witness:
  "\<not> is_live (auth_run demo_sha [Enable, Renew 0 8 8 None] (fst (revoke demo_sha demo_issued 0 None))) 0 9"
proof -
  have "revoke demo_sha demo_issued 0 None = (fst (revoke demo_sha demo_issued 0 None), None)"
    by (simp add: revoke_def replace_registry_def persist_def split: sum.splits)
  then show ?thesis
    by (intro revoked_stays_dead [OF demo_ok, where s' = "fst (revoke demo_sha demo_issued 0 None)" and t = "[]"]
      disjI1) (simp_all add: demo_issued_view)
qed

end
