(* ===== verification/Fleet.thy ===== *)
theory Fleet
  imports Adapter
begin

text \<open>
  The runtime fleet of \<^verbatim>\<open>crates/rovai-core/src/runtime_fleet.rs\<close>: which runtime processes
  the host owns, which run holds which process, which idle process may be reused or evicted, and
  how a process is started, released and stopped. Every stretch of a method under the fleet's two
  locks is one definition; \<open>Fleet_World\<close> interleaves them with the tasks that start and stop
  processes.

  An \<open>Arc\<close> of a startup operation or of a stop completion is an index into the state's lists
  \<open>startups\<close> and \<open>stops\<close>. What a process host answers (its health, its background tasks, its
  identity) is the argument \<open>env\<close>; a fresh identifier is an argument too.
\<close>

section \<open>Configuration and keys\<close>

definition DEFAULT_MAX_RESIDENT_PROCESSES_PER_MEMBER :: nat where
  "DEFAULT_MAX_RESIDENT_PROCESSES_PER_MEMBER = 20"
definition DEFAULT_MAX_RESIDENT_PROCESSES_GLOBAL :: nat where
  "DEFAULT_MAX_RESIDENT_PROCESSES_GLOBAL = 200"
definition DEFAULT_IDLE_TTL :: duration where "DEFAULT_IDLE_TTL = from_secs (30 * 60)"
definition DEFAULT_SWEEP_INTERVAL :: duration where "DEFAULT_SWEEP_INTERVAL = from_secs 60"
definition DEFAULT_STOP_TIMEOUT :: duration where "DEFAULT_STOP_TIMEOUT = from_secs 5"

record AgentRuntimeFleetConfig =
  max_resident_processes_per_member :: nat
  max_resident_processes_global :: nat
  idle_ttl :: duration
  sweep_interval :: duration
  stop_timeout :: duration

definition default_config :: AgentRuntimeFleetConfig where
  "default_config =
     \<lparr>max_resident_processes_per_member = DEFAULT_MAX_RESIDENT_PROCESSES_PER_MEMBER,
      max_resident_processes_global = DEFAULT_MAX_RESIDENT_PROCESSES_GLOBAL,
      idle_ttl = DEFAULT_IDLE_TTL, sweep_interval = DEFAULT_SWEEP_INTERVAL,
      stop_timeout = DEFAULT_STOP_TIMEOUT\<rparr>"

record RuntimeReuseScope =
  camp_id :: string
  agent_id :: string
  session_id :: "string option"

datatype HostReusePolicy = ConfigurationDigest string | NativeBinding (execution_root: string)

record RuntimeCompatibilityKey =
  reuse_scope :: RuntimeReuseScope
  invalidation_camp_id :: "string option"
  invalidation_agent_id :: "string option"
  residency_bucket :: string
  policy :: HostReusePolicy

definition member_session :: "string \<Rightarrow> string \<Rightarrow> string option \<Rightarrow> string \<Rightarrow> RuntimeCompatibilityKey" where
  "member_session camp agent session digest =
     \<lparr>reuse_scope = \<lparr>camp_id = camp, agent_id = agent, session_id = session\<rparr>,
      invalidation_camp_id = Some camp, invalidation_agent_id = Some agent,
      residency_bucket = agent, policy = ConfigurationDigest digest\<rparr>"

definition native_binding :: "string \<Rightarrow> string \<Rightarrow> string \<Rightarrow> string \<Rightarrow> RuntimeCompatibilityKey" where
  "native_binding camp agent binding_id root =
     \<lparr>reuse_scope = \<lparr>camp_id = camp, agent_id = agent, session_id = Some binding_id\<rparr>,
      invalidation_camp_id = Some camp, invalidation_agent_id = Some agent,
      residency_bucket = agent, policy = NativeBinding root\<rparr>"

definition is_process_compatible_with :: "RuntimeCompatibilityKey \<Rightarrow> RuntimeCompatibilityKey \<Rightarrow> bool" where
  "is_process_compatible_with k candidate =
     (reuse_scope k = reuse_scope candidate \<and> policy k = policy candidate)"

definition belongs_to_camp :: "string \<Rightarrow> RuntimeCompatibilityKey \<Rightarrow> bool" where
  "belongs_to_camp camp k = (invalidation_camp_id k = Some camp)"

definition belongs_to_member :: "string \<Rightarrow> RuntimeCompatibilityKey \<Rightarrow> bool" where
  "belongs_to_member agent k = (invalidation_agent_id k = Some agent)"

datatype RunLeaseKey = RunLeaseKey (lease_agent_run_id: string) (lease_execution_epoch: int)

record FleetAcquireRequest =
  request_agent_run_id :: string
  request_execution_epoch :: int
  request_adapter_kind :: AdapterKind
  request_compatibility :: RuntimeCompatibilityKey

definition request_run_lease :: "FleetAcquireRequest \<Rightarrow> RunLeaseKey" where
  "request_run_lease r = RunLeaseKey (request_agent_run_id r) (request_execution_epoch r)"

section \<open>Process hosts\<close>

datatype FleetResidency = Resident | Burst

text \<open>The hosts are shared objects; the number is the identity of the object.\<close>

datatype RuntimeProcessHost = CodexHost nat | AcpHost nat | PiHost nat

record host_env =
  env_process_id :: "RuntimeProcessHost \<Rightarrow> string"
  env_alive :: "RuntimeProcessHost \<Rightarrow> bool"
  env_background :: "nat \<Rightarrow> bool"

definition is_healthy :: "host_env \<Rightarrow> RuntimeProcessHost \<Rightarrow> bool" where
  "is_healthy env h = env_alive env h"

fun has_zcode_background_tasks :: "host_env \<Rightarrow> RuntimeProcessHost \<Rightarrow> bool" where
  "has_zcode_background_tasks env (AcpHost h) = env_background env h"
| "has_zcode_background_tasks env (CodexHost h) = False"
| "has_zcode_background_tasks env (PiHost h) = False"

fun into_codex :: "RuntimeProcessHost \<Rightarrow> string + nat" where
  "into_codex (CodexHost h) = Inr h"
| "into_codex (AcpHost h) = Inl ''Fleet returned an ACP Host to the Codex Adapter''"
| "into_codex (PiHost h) = Inl ''Fleet returned a Pi Host to the Codex Adapter''"

fun into_acp :: "RuntimeProcessHost \<Rightarrow> string + nat" where
  "into_acp (AcpHost h) = Inr h"
| "into_acp (CodexHost h) = Inl ''Fleet returned a Codex Host to an ACP Adapter''"
| "into_acp (PiHost h) = Inl ''Fleet returned a Pi Host to an ACP Adapter''"

fun into_pi :: "RuntimeProcessHost \<Rightarrow> string + nat" where
  "into_pi (PiHost h) = Inr h"
| "into_pi (CodexHost h) = Inl ''Fleet returned a Codex Host to the Pi Adapter''"
| "into_pi (AcpHost h) = Inl ''Fleet returned an ACP Host to the Pi Adapter''"

record RuntimeFleetShutdownOutcome =
  observed_processes :: nat
  reaped_processes :: nat
  force_kill_signals_sent :: nat
  deadline_expired :: bool

definition all_reaped :: "RuntimeFleetShutdownOutcome \<Rightarrow> bool" where
  "all_reaped o' = (reaped_processes o' = observed_processes o')"

record FleetLease =
  lease_process_id :: string
  lease_host :: RuntimeProcessHost
  lease_residency :: FleetResidency

datatype FleetReleaseDisposition = DispositionReusable | DispositionStop
datatype FleetReleaseOutcome = OutcomeReusable | OutcomeReaped | NoMatchingLease | ReapUnconfirmed

section \<open>State\<close>

datatype FleetProcessState = Starting | BusyResident | IdleWarm | Stopping | BusyBurst

record FleetStartupOperation =
  startup_outcome :: "(string + FleetLease) option"
  startup_cancelled :: bool

record FleetStopLaunch =
  launch_process_id :: string
  launch_host :: RuntimeProcessHost
  launch_completion :: nat

datatype FleetStopPlan = PlanAbsent | PlanStarting nat | PlanWait nat | PlanLaunch FleetStopLaunch

datatype FleetAcquirePlan =
  Ready FleetLease
| Wait nat
| Blocked string
| Spawn (spawn_reservation: string) (spawn_run: RunLeaseKey) (spawn_residency: FleetResidency)
    (spawn_completion: nat) (spawn_eviction: "FleetStopLaunch option")

record ProcessEntry =
  process_id :: string
  adapter_kind :: AdapterKind
  compatibility :: RuntimeCompatibilityKey
  state :: FleetProcessState
  residency :: FleetResidency
  host :: "RuntimeProcessHost option"
  startup :: "nat option"
  stop :: "nat option"
  run_lease :: "RunLeaseKey option"
  idle_since :: "instant option"
  last_used_sequence :: u64
  retire_after_run :: bool
  retirement :: "nat option"

record FleetState =
  shutdown_started :: bool
  deleting_camps :: "string set"
  processes :: "(string \<times> ProcessEntry) list"
  process_by_run :: "(RunLeaseKey \<times> string) list"
  reaped_leases :: "RunLeaseKey set"
  resident_processes :: "string set"
  resident_processes_by_bucket :: "string \<Rightarrow> string set option"
  idle_lru :: "(u64 \<times> string) list"
  next_sequence :: u64
  startups :: "FleetStartupOperation list"
  stops :: "bool option list"

definition empty_fleet :: FleetState where
  "empty_fleet =
     \<lparr>shutdown_started = False, deleting_camps = {}, processes = [], process_by_run = [],
      reaped_leases = {}, resident_processes = {}, resident_processes_by_bucket = (\<lambda>_. None),
      idle_lru = [], next_sequence = 0, startups = [], stops = []\<rparr>"

section \<open>Small operations on the state\<close>

definition advance_sequence :: "FleetState \<Rightarrow> FleetState" where
  "advance_sequence S = S\<lparr>next_sequence := saturating_add (next_sequence S) 1\<rparr>"

definition resident_count_for_bucket :: "FleetState \<Rightarrow> string \<Rightarrow> nat" where
  "resident_count_for_bucket S b =
     (case resident_processes_by_bucket S b of None \<Rightarrow> 0 | Some ps \<Rightarrow> card ps)"

definition has_resident_capacity :: "FleetState \<Rightarrow> AgentRuntimeFleetConfig \<Rightarrow> string \<Rightarrow> bool" where
  "has_resident_capacity S cfg b =
     (card (resident_processes S) < max_resident_processes_global cfg
      \<and> resident_count_for_bucket S b < max_resident_processes_per_member cfg)"

definition bucket_insert :: "string \<Rightarrow> string \<Rightarrow> (string \<Rightarrow> string set option) \<Rightarrow> string \<Rightarrow> string set option" where
  "bucket_insert b p m = m(b := Some (insert p (case m b of None \<Rightarrow> {} | Some ps \<Rightarrow> ps)))"

definition bucket_remove :: "string \<Rightarrow> string \<Rightarrow> (string \<Rightarrow> string set option) \<Rightarrow> string \<Rightarrow> string set option" where
  "bucket_remove b p m =
     (case m b of
        None \<Rightarrow> m
      | Some ps \<Rightarrow> m(b := (if ps - {p} = {} then None else Some (ps - {p}))))"

definition lru_insert :: "u64 \<times> string \<Rightarrow> (u64 \<times> string) list \<Rightarrow> (u64 \<times> string) list" where
  "lru_insert x xs = insort_insert x xs"

definition lru_remove :: "u64 \<times> string \<Rightarrow> (u64 \<times> string) list \<Rightarrow> (u64 \<times> string) list" where
  "lru_remove x xs = filter (\<lambda>y. y \<noteq> x) xs"

definition put_entry :: "string \<Rightarrow> ProcessEntry \<Rightarrow> FleetState \<Rightarrow> FleetState" where
  "put_entry p e S = S\<lparr>processes := AList.update p e (processes S)\<rparr>"

definition make_resident :: "string \<Rightarrow> string \<Rightarrow> FleetState \<Rightarrow> FleetState" where
  "make_resident b p S =
     S\<lparr>resident_processes := insert p (resident_processes S),
       resident_processes_by_bucket := bucket_insert b p (resident_processes_by_bucket S)\<rparr>"

definition drop_resident :: "string \<Rightarrow> string \<Rightarrow> FleetState \<Rightarrow> FleetState" where
  "drop_resident b p S =
     S\<lparr>resident_processes := resident_processes S - {p},
       resident_processes_by_bucket := bucket_remove b p (resident_processes_by_bucket S)\<rparr>"

definition insert_process :: "ProcessEntry \<Rightarrow> FleetState \<Rightarrow> FleetState" where
  "insert_process e S =
     put_entry (process_id e) e
       (if residency e = Resident then make_resident (residency_bucket (compatibility e)) (process_id e) S else S)"

definition complete_stop :: "nat \<Rightarrow> bool \<Rightarrow> FleetState \<Rightarrow> FleetState" where
  "complete_stop c reaped S = S\<lparr>stops := (stops S)[c := Some reaped]\<rparr>"

definition complete_startup :: "nat \<Rightarrow> string + FleetLease \<Rightarrow> FleetState \<Rightarrow> FleetState" where
  "complete_startup c r S =
     S\<lparr>startups := (startups S)[c := (startups S ! c)\<lparr>startup_outcome := Some r\<rparr>]\<rparr>"

definition cancel_startup :: "nat \<Rightarrow> FleetState \<Rightarrow> FleetState" where
  "cancel_startup c S =
     S\<lparr>startups := (startups S)[c := (startups S ! c)\<lparr>startup_cancelled := True\<rparr>]\<rparr>"

definition complete_retirement :: "nat option \<Rightarrow> bool \<Rightarrow> FleetState \<Rightarrow> FleetState" where
  "complete_retirement r reaped S =
     (case r of
        None \<Rightarrow> S
      | Some c \<Rightarrow> if stops S ! c = None then complete_stop c reaped S else S)"

definition remove_process :: "string \<Rightarrow> FleetState \<Rightarrow> FleetState" where
  "remove_process p S =
     (case map_of (processes S) p of
        None \<Rightarrow> S
      | Some e \<Rightarrow>
          complete_retirement (retirement e) True
            (drop_resident (residency_bucket (compatibility e)) p
              (S\<lparr>processes := AList.delete p (processes S),
                 idle_lru := lru_remove (last_used_sequence e, p) (idle_lru S),
                 process_by_run := (case run_lease e of
                    None \<Rightarrow> process_by_run S | Some r \<Rightarrow> AList.delete r (process_by_run S))\<rparr>)))"

definition entry_background :: "host_env \<Rightarrow> ProcessEntry \<Rightarrow> bool" where
  "entry_background env e = (case host e of None \<Rightarrow> False | Some h \<Rightarrow> has_zcode_background_tasks env h)"

definition entry_healthy :: "host_env \<Rightarrow> ProcessEntry \<Rightarrow> bool" where
  "entry_healthy env e = (case host e of None \<Rightarrow> False | Some h \<Rightarrow> is_healthy env h)"

text \<open>The part \<open>plan_stop\<close> and \<open>reserve_idle_eviction\<close> share: the entry stops under a new completion.\<close>

definition begin_stop :: "string \<Rightarrow> ProcessEntry \<Rightarrow> FleetState \<Rightarrow> FleetState" where
  "begin_stop p e S =
     put_entry p (e\<lparr>idle_since := None, state := Stopping, stop := Some (length (stops S))\<rparr>)
       (S\<lparr>idle_lru := lru_remove (last_used_sequence e, p) (idle_lru S), stops := stops S @ [None]\<rparr>)"

definition plan_stop :: "string \<Rightarrow> FleetState \<Rightarrow> FleetState \<times> FleetStopPlan" where
  "plan_stop p S =
     (case map_of (processes S) p of
        None \<Rightarrow> (S, PlanAbsent)
      | Some e \<Rightarrow>
          if state e = Starting then
            (let S' = put_entry p (e\<lparr>retire_after_run := True\<rparr>) S in
             case startup e of
               None \<Rightarrow> (S', PlanAbsent)
             | Some c \<Rightarrow> (cancel_startup c S', PlanStarting c))
          else
            (case (if state e = Stopping then stop e else None) of
               Some c \<Rightarrow>
                 if stops S ! c = None then (S, PlanWait c)
                 else (case host e of
                   None \<Rightarrow> (S, PlanAbsent)
                 | Some h \<Rightarrow> (begin_stop p e S, PlanLaunch
                     \<lparr>launch_process_id = p, launch_host = h, launch_completion = length (stops S)\<rparr>))
             | None \<Rightarrow>
                 (case host e of
                   None \<Rightarrow> (S, PlanAbsent)
                 | Some h \<Rightarrow> (begin_stop p e S, PlanLaunch
                     \<lparr>launch_process_id = p, launch_host = h, launch_completion = length (stops S)\<rparr>))))"

definition reserve_idle_eviction :: "host_env \<Rightarrow> string \<Rightarrow> FleetState \<Rightarrow> FleetState \<times> FleetStopLaunch option" where
  "reserve_idle_eviction env p S =
     (case map_of (processes S) p of
        None \<Rightarrow> (S, None)
      | Some e \<Rightarrow>
          if state e \<noteq> IdleWarm \<or> entry_background env e then (S, None)
          else
            (let S1 = drop_resident (residency_bucket (compatibility e)) p
                        (S\<lparr>idle_lru := lru_remove (last_used_sequence e, p) (idle_lru S)\<rparr>) in
             case host e of
               None \<Rightarrow> (put_entry p (e\<lparr>idle_since := None, state := Stopping\<rparr>) S1, None)
             | Some h \<Rightarrow> (begin_stop p e S1, Some
                 \<lparr>launch_process_id = p, launch_host = h, launch_completion = length (stops S)\<rparr>)))"

definition restore_stopping_resident_capacity :: "string \<Rightarrow> nat \<Rightarrow> FleetState \<Rightarrow> FleetState" where
  "restore_stopping_resident_capacity p c S =
     (case map_of (processes S) p of
        None \<Rightarrow> S
      | Some e \<Rightarrow>
          if state e = Stopping \<and> residency e = Resident \<and> stop e = Some c
          then make_resident (residency_bucket (compatibility e)) p S else S)"

definition find_idle :: "FleetState \<Rightarrow> (ProcessEntry \<Rightarrow> bool) \<Rightarrow> string option" where
  "find_idle S P =
     find_map (\<lambda>(n, p). case map_of (processes S) p of
        None \<Rightarrow> None
      | Some e \<Rightarrow> if state e = IdleWarm \<and> P e then Some p else None) (idle_lru S)"

definition oldest_idle_for_bucket :: "host_env \<Rightarrow> FleetState \<Rightarrow> string \<Rightarrow> string option" where
  "oldest_idle_for_bucket env S b =
     find_idle S (\<lambda>e. residency_bucket (compatibility e) = b \<and> \<not> entry_background env e)"

definition oldest_idle_global :: "host_env \<Rightarrow> FleetState \<Rightarrow> string option" where
  "oldest_idle_global env S = find_idle S (\<lambda>e. \<not> entry_background env e)"

section \<open>Acquiring a process\<close>

definition any_entry :: "FleetState \<Rightarrow> (ProcessEntry \<Rightarrow> bool) \<Rightarrow> bool" where
  "any_entry S P = list_ex (\<lambda>(p, e). P e) (processes S)"

definition hermes_owned :: "FleetState \<Rightarrow> FleetAcquireRequest \<Rightarrow> bool" where
  "hermes_owned S req =
     (request_adapter_kind req = HermesCli
      \<and> any_entry S (\<lambda>e. adapter_kind e = HermesCli
          \<and> reuse_scope (compatibility e) = reuse_scope (request_compatibility req)
          \<and> state e \<noteq> IdleWarm))"

definition codex_unconfirmed :: "FleetState \<Rightarrow> FleetAcquireRequest \<Rightarrow> bool" where
  "codex_unconfirmed S req =
     (request_adapter_kind req = CodexCli
      \<and> any_entry S (\<lambda>e. adapter_kind e = CodexCli
          \<and> reuse_scope (compatibility e) = reuse_scope (request_compatibility req)
          \<and> (state e = Stopping \<or> (state e = Starting \<and> retire_after_run e))))"

definition reusable_for :: "host_env \<Rightarrow> FleetAcquireRequest \<Rightarrow> bool \<Rightarrow> ProcessEntry \<Rightarrow> bool" where
  "reusable_for env req background_first e =
     ((\<not> background_first \<or> entry_background env e)
      \<and> adapter_kind e = request_adapter_kind req
      \<and> (\<not> entry_background env e
         \<or> invalidation_agent_id (compatibility e) = invalidation_agent_id (request_compatibility req))
      \<and> is_process_compatible_with (compatibility e) (request_compatibility req)
      \<and> entry_healthy env e)"

definition compatible_idle :: "host_env \<Rightarrow> FleetState \<Rightarrow> FleetAcquireRequest \<Rightarrow> string option" where
  "compatible_idle env S req = find_map (\<lambda>b. find_idle S (reusable_for env req b)) [True, False]"

text \<open>What a run that already holds a lease gets.\<close>

definition plan_held :: "FleetState \<Rightarrow> string \<Rightarrow> ProcessEntry \<Rightarrow> FleetAcquirePlan" where
  "plan_held S p e =
     (case (state e, startup e, host e) of
        (Starting, Some c, _) \<Rightarrow> Wait c
      | (BusyResident, _, Some h) \<Rightarrow> Ready \<lparr>lease_process_id = p, lease_host = h, lease_residency = residency e\<rparr>
      | (BusyBurst, _, Some h) \<Rightarrow> Ready \<lparr>lease_process_id = p, lease_host = h, lease_residency = residency e\<rparr>
      | _ \<Rightarrow> Blocked ''Runtime lease is being retired for this AgentRun epoch'')"

text \<open>An idle process is given to the run.\<close>

definition reuse_idle :: "FleetAcquireRequest \<Rightarrow> string \<Rightarrow> ProcessEntry \<Rightarrow> FleetState \<Rightarrow> FleetState" where
  "reuse_idle req p e S =
     put_entry p
       (e\<lparr>state := (if residency e = Burst then BusyBurst else BusyResident),
          run_lease := Some (request_run_lease req), idle_since := None,
          compatibility := request_compatibility req\<rparr>)
       (S\<lparr>idle_lru := lru_remove (last_used_sequence e, p) (idle_lru S),
          process_by_run := AList.update (request_run_lease req) p (process_by_run S)\<rparr>)"

text \<open>The residency of a new process, and the idle process that stops to make room for it.\<close>

definition admit_residency ::
    "host_env \<Rightarrow> AgentRuntimeFleetConfig \<Rightarrow> string \<Rightarrow> FleetState \<Rightarrow>
     FleetState \<times> FleetResidency \<times> FleetStopLaunch option" where
  "admit_residency env cfg b S =
     (if has_resident_capacity S cfg b then (S, Resident, None)
      else
        (case (if resident_count_for_bucket S b \<ge> max_resident_processes_per_member cfg
               then oldest_idle_for_bucket env S b
               else (case oldest_idle_for_bucket env S b of
                       Some p \<Rightarrow> Some p | None \<Rightarrow> oldest_idle_global env S)) of
           None \<Rightarrow> (S, Burst, None)
         | Some p \<Rightarrow>
             (case reserve_idle_eviction env p S of
                (S', Some launch) \<Rightarrow> (S', Resident, Some launch)
              | (S', None) \<Rightarrow> (S', Burst, None))))"

definition reserve_start :: "FleetAcquireRequest \<Rightarrow> string \<Rightarrow> FleetResidency \<Rightarrow> FleetState \<Rightarrow> FleetState" where
  "reserve_start req rid r S =
     (let S1 = advance_sequence (S\<lparr>startups := startups S @ [\<lparr>startup_outcome = None, startup_cancelled = False\<rparr>]\<rparr>);
          e = \<lparr>process_id = rid, adapter_kind = request_adapter_kind req,
               compatibility = request_compatibility req, state = Starting, residency = r, host = None,
               startup = Some (length (startups S)), stop = None, run_lease = Some (request_run_lease req),
               idle_since = None, last_used_sequence = next_sequence S1, retire_after_run = False,
               retirement = None\<rparr>;
          S2 = insert_process e S1
      in S2\<lparr>process_by_run := AList.update (request_run_lease req) rid (process_by_run S2)\<rparr>)"

definition plan_acquire ::
    "host_env \<Rightarrow> AgentRuntimeFleetConfig \<Rightarrow> FleetAcquireRequest \<Rightarrow> string \<Rightarrow> FleetState \<Rightarrow>
     FleetState \<times> FleetAcquirePlan" where
  "plan_acquire env cfg req rid S =
     (if shutdown_started S then (S, Blocked ''Runtime Fleet is shutting down'')
      else if (case invalidation_camp_id (request_compatibility req) of
                 None \<Rightarrow> False | Some c \<Rightarrow> c \<in> deleting_camps S)
      then (S, Blocked ''Camp deletion is in progress'')
      else
        (case (case map_of (process_by_run S) (request_run_lease req) of
                 None \<Rightarrow> None
               | Some p \<Rightarrow> map_option (plan_held S p) (map_of (processes S) p)) of
           Some plan \<Rightarrow> (S, plan)
         | None \<Rightarrow>
             if hermes_owned S req
             then (S, Blocked ''Hermes native binding already has an active process owner'')
             else if codex_unconfirmed S req
             then (S, Blocked ''Codex Native Session cleanup is not confirmed'')
             else
               (case compatible_idle env S req of
                  Some p \<Rightarrow>
                    (case map_of (processes S) p of
                       Some e \<Rightarrow>
                         (case host e of
                            Some h \<Rightarrow> (reuse_idle req p e S,
                              Ready \<lparr>lease_process_id = p, lease_host = h, lease_residency = residency e\<rparr>)
                          | None \<Rightarrow> (S, Blocked []))
                     | None \<Rightarrow> (S, Blocked []))
                | None \<Rightarrow>
                    (case admit_residency env cfg (residency_bucket (request_compatibility req)) S of
                       (S', r, eviction) \<Rightarrow>
                         (reserve_start req rid r S',
                          Spawn rid (request_run_lease req) r (length (startups S')) eviction)))))"

section \<open>Starting\<close>

text \<open>\<open>fail_start_operation\<close>\<close>

definition fail_start_operation :: "string \<Rightarrow> nat \<Rightarrow> string \<Rightarrow> FleetState \<Rightarrow> FleetState" where
  "fail_start_operation rid c message S =
     complete_startup c (Inl message)
       (case map_of (processes S) rid of
          None \<Rightarrow> S
        | Some e \<Rightarrow>
            if startup e = Some c
            then remove_process rid
              (if adapter_kind e = CodexCli
               then S\<lparr>reaped_leases := (case run_lease e of None \<Rightarrow> {} | Some k \<Rightarrow> {k}) \<union> reaped_leases S\<rparr> else S)
            else S)"

text \<open>The commit of \<open>drive_startup\<close>: \<open>None\<close> when the reservation was invalidated meanwhile.\<close>

definition commit_start ::
    "string \<Rightarrow> RunLeaseKey \<Rightarrow> FleetResidency \<Rightarrow> nat \<Rightarrow> RuntimeProcessHost \<Rightarrow> FleetState \<Rightarrow> FleetState option" where
  "commit_start rid run r c h S =
     (case map_of (processes S) rid of
        None \<Rightarrow> None
      | Some e \<Rightarrow>
          if state e \<noteq> Starting \<or> run_lease e \<noteq> Some run \<or> retire_after_run e
            \<or> (case invalidation_camp_id (compatibility e) of None \<Rightarrow> False | Some camp \<Rightarrow> camp \<in> deleting_camps S)
            \<or> startup_cancelled (startups S ! c) \<or> startup e \<noteq> Some c
          then None
          else Some (put_entry rid
            (e\<lparr>host := Some h, startup := None, state := (case r of Resident \<Rightarrow> BusyResident | Burst \<Rightarrow> BusyBurst)\<rparr>) S))"

definition finish_start :: "string \<Rightarrow> FleetResidency \<Rightarrow> nat \<Rightarrow> RuntimeProcessHost \<Rightarrow> FleetState \<Rightarrow> FleetState" where
  "finish_start rid r c h S =
     complete_startup c (Inr \<lparr>lease_process_id = rid, lease_host = h, lease_residency = r\<rparr>) S"

text \<open>\<open>retire_failed_start\<close>, after the attempt to reap the host.\<close>

definition retire_failed_start ::
    "string \<Rightarrow> nat \<Rightarrow> RuntimeProcessHost \<Rightarrow> string \<Rightarrow> bool \<Rightarrow> FleetState \<Rightarrow> FleetState" where
  "retire_failed_start rid c h message reaped S =
     complete_startup c (Inl message)
       (case map_of (processes S) rid of
          None \<Rightarrow> S
        | Some e \<Rightarrow>
            (let e' = e\<lparr>host := Some h, startup := None, state := Stopping, retire_after_run := True\<rparr>;
                 S1 = put_entry rid e' S in
             if reaped
             then remove_process rid
               (if adapter_kind e = CodexCli
                then S1\<lparr>reaped_leases := (case run_lease e of None \<Rightarrow> {} | Some k \<Rightarrow> {k}) \<union> reaped_leases S1\<rparr> else S1)
             else S1))"

section \<open>Stopping\<close>

text \<open>The commit of \<open>drive_stop\<close>.\<close>

definition drive_stop :: "bool \<Rightarrow> FleetStopLaunch \<Rightarrow> FleetState \<Rightarrow> FleetState" where
  "drive_stop reaped launch S =
     (let p = launch_process_id launch; c = launch_completion launch in
      if reaped then
        (case map_of (processes S) p of
           Some e \<Rightarrow>
             if state e = Stopping \<and> stop e = Some c then
               complete_stop c True (remove_process p
                 (if adapter_kind e = CodexCli
                  then S\<lparr>reaped_leases := (case run_lease e of None \<Rightarrow> {} | Some k \<Rightarrow> {k}) \<union> reaped_leases S\<rparr> else S))
             else complete_stop c False (complete_retirement (retirement e) False S)
         | None \<Rightarrow> complete_stop c True S)
      else
        complete_stop c False (complete_retirement
          (case map_of (processes S) p of None \<Rightarrow> None | Some e \<Rightarrow> retirement e) False
          (restore_stopping_resident_capacity p c S)))"

section \<open>Releasing a lease\<close>

definition retire_agent_run_on_host ::
    "host_env \<Rightarrow> string \<Rightarrow> int \<Rightarrow> string \<Rightarrow> FleetState \<Rightarrow> FleetState \<times> bool" where
  "retire_agent_run_on_host env run epoch instance_id S =
     (case map_of (process_by_run S) (RunLeaseKey run epoch) of
        None \<Rightarrow> (S, False)
      | Some p \<Rightarrow>
          (case map_of (processes S) p of
             None \<Rightarrow> (S, False)
           | Some e \<Rightarrow>
               if run_lease e \<noteq> Some (RunLeaseKey run epoch)
                 \<or> (case host e of None \<Rightarrow> True | Some h \<Rightarrow> env_process_id env h \<noteq> instance_id)
               then (S, False)
               else (put_entry p (e\<lparr>retire_after_run := True\<rparr>) S, True)))"

definition stop_outcome :: "FleetState \<Rightarrow> RunLeaseKey \<Rightarrow> bool \<Rightarrow> FleetReleaseOutcome" where
  "stop_outcome S key stopped =
     (if key \<in> reaped_leases S \<or> (stopped \<and> map_of (process_by_run S) key = None)
      then OutcomeReaped else ReapUnconfirmed)"

definition acknowledge_cleanup :: "string \<Rightarrow> int \<Rightarrow> FleetState \<Rightarrow> FleetState" where
  "acknowledge_cleanup run epoch S = S\<lparr>reaped_leases := reaped_leases S - {RunLeaseKey run epoch}\<rparr>"

datatype ReleasePlan = ReleaseReturn FleetReleaseOutcome | ReleaseStop FleetStopPlan | CheckReusable string RuntimeProcessHost

definition no_lease_outcome :: "FleetState \<Rightarrow> RunLeaseKey \<Rightarrow> FleetReleaseOutcome" where
  "no_lease_outcome S key = (if key \<in> reaped_leases S then OutcomeReaped else NoMatchingLease)"

text \<open>\<open>release_with_outcome\<close>: the plan, and the decision once the host was found quiescent or not.\<close>

definition release_plan ::
    "host_env \<Rightarrow> RunLeaseKey \<Rightarrow> FleetReleaseDisposition \<Rightarrow> FleetState \<Rightarrow> FleetState \<times> ReleasePlan" where
  "release_plan env key disposition S =
     (case map_of (process_by_run S) key of
        None \<Rightarrow> (S, ReleaseReturn (no_lease_outcome S key))
      | Some p \<Rightarrow>
          (case map_of (processes S) p of
             None \<Rightarrow> (S, ReleaseReturn NoMatchingLease)
           | Some e \<Rightarrow>
               (case (if disposition = DispositionStop
                         \<or> (state e \<noteq> BusyResident \<and> \<not> (state e = BusyBurst \<and> entry_background env e))
                         \<or> retire_after_run e
                      then None else host e) of
                  None \<Rightarrow> (case plan_stop p S of (S', plan) \<Rightarrow> (S', ReleaseStop plan))
                | Some h \<Rightarrow> (S, CheckReusable p h))))"

definition reusable_now :: "host_env \<Rightarrow> RunLeaseKey \<Rightarrow> RuntimeProcessHost \<Rightarrow> ProcessEntry \<Rightarrow> bool" where
  "reusable_now env key h e =
     ((state e = BusyResident \<or> state e = BusyBurst) \<and> \<not> retire_after_run e \<and> run_lease e = Some key
      \<and> (case host e of None \<Rightarrow> False
         | Some current \<Rightarrow> env_process_id env current = env_process_id env h \<and> is_healthy env current))"

definition make_idle :: "instant \<Rightarrow> RunLeaseKey \<Rightarrow> string \<Rightarrow> ProcessEntry \<Rightarrow> FleetState \<Rightarrow> FleetState" where
  "make_idle now key p e S =
     (let S1 = advance_sequence S;
          n = next_sequence S1 in
      put_entry p (e\<lparr>run_lease := None, state := IdleWarm, idle_since := Some now, last_used_sequence := n\<rparr>)
        (S1\<lparr>process_by_run := AList.delete key (process_by_run S1),
            idle_lru := lru_insert (n, p) (idle_lru S1)\<rparr>))"

definition release_finish ::
    "host_env \<Rightarrow> bool \<Rightarrow> instant \<Rightarrow> RunLeaseKey \<Rightarrow> string \<Rightarrow> RuntimeProcessHost \<Rightarrow> FleetState \<Rightarrow>
     FleetState \<times> ReleasePlan" where
  "release_finish env quiescent now key p h S =
     (if map_of (process_by_run S) key \<noteq> Some p then (S, ReleaseReturn (no_lease_outcome S key))
      else
        (case (if quiescent then map_of (processes S) p else None) of
           Some e \<Rightarrow>
             if reusable_now env key h e then (make_idle now key p e S, ReleaseReturn OutcomeReusable)
             else (case plan_stop p S of (S', plan) \<Rightarrow> (S', ReleaseStop plan))
         | None \<Rightarrow> (case plan_stop p S of (S', plan) \<Rightarrow> (S', ReleaseStop plan))))"

text \<open>\<open>stop_agent_run_until_with_outcome\<close>, up to the wait; \<open>confirmed\<close> is the answer of the owner records.\<close>

definition stop_run_plan :: "RunLeaseKey \<Rightarrow> bool \<Rightarrow> FleetState \<Rightarrow> FleetState \<times> ReleasePlan" where
  "stop_run_plan key confirmed S =
     (case map_of (process_by_run S) key of
        None \<Rightarrow> (S, ReleaseReturn (if key \<in> reaped_leases S \<or> confirmed then OutcomeReaped else NoMatchingLease))
      | Some p \<Rightarrow>
          (case plan_stop p (case map_of (processes S) p of
                 None \<Rightarrow> S | Some e \<Rightarrow> put_entry p (e\<lparr>retire_after_run := True\<rparr>) S) of
             (S', plan) \<Rightarrow> (S', ReleaseStop plan)))"

section \<open>Stopping many processes\<close>

fun plan_stops :: "string list \<Rightarrow> FleetState \<Rightarrow> FleetState \<times> FleetStopPlan list" where
  "plan_stops [] S = (S, [])"
| "plan_stops (p # ps) S =
     (case plan_stop p S of (S1, plan) \<Rightarrow> (case plan_stops ps S1 of (S2, plans) \<Rightarrow> (S2, plan # plans)))"

definition matching :: "FleetState \<Rightarrow> (ProcessEntry \<Rightarrow> bool) \<Rightarrow> string list" where
  "matching S P = map fst (filter (\<lambda>(p, e). P e) (processes S))"

text \<open>\<open>install_camp_deletion_cutover\<close> and \<open>force_fence_camp_for_deletion\<close>, once accepted.\<close>

definition install_camp_deletion_cutover :: "string \<Rightarrow> FleetState \<Rightarrow> FleetState \<times> FleetStopPlan list" where
  "install_camp_deletion_cutover camp S =
     (let S1 = S\<lparr>deleting_camps := insert camp (deleting_camps S)\<rparr>
      in plan_stops (matching S1 (\<lambda>e. belongs_to_camp camp (compatibility e))) S1)"

definition fence_camp_for_attachment_mutation :: "string \<Rightarrow> FleetState \<Rightarrow> FleetState \<times> FleetStopPlan list option" where
  "fence_camp_for_attachment_mutation camp S =
     (if any_entry S (\<lambda>e. belongs_to_camp camp (compatibility e) \<and> state e \<noteq> IdleWarm \<and> state e \<noteq> Stopping)
      then (S, None)
      else (case plan_stops (matching S (\<lambda>e. belongs_to_camp camp (compatibility e))) S of
              (S', plans) \<Rightarrow> (S', Some plans)))"

definition camp_retained :: "string \<Rightarrow> FleetState \<Rightarrow> bool" where
  "camp_retained camp S = any_entry S (\<lambda>e. belongs_to_camp camp (compatibility e))"

text \<open>
  One process of \<open>invalidate_matching\<close>: an idle, stopping or starting one is stopped, a busy one
  is marked. \<open>retire_incompatible_hosts\<close> also hands out a completion for the busy one.
\<close>

fun at_rest :: "FleetProcessState \<Rightarrow> bool" where
  "at_rest IdleWarm = True"
| "at_rest Stopping = True"
| "at_rest Starting = True"
| "at_rest BusyResident = False"
| "at_rest BusyBurst = False"

fun invalidate_all :: "(string \<times> FleetProcessState) list \<Rightarrow> FleetState \<Rightarrow> FleetState \<times> FleetStopPlan list" where
  "invalidate_all [] S = (S, [])"
| "invalidate_all ((p, st) # ps) S =
     (if at_rest st
      then (case plan_stop p S of (S1, plan) \<Rightarrow> (case invalidate_all ps S1 of (S2, plans) \<Rightarrow> (S2, plan # plans)))
      else invalidate_all ps (case map_of (processes S) p of
             None \<Rightarrow> S | Some e \<Rightarrow> put_entry p (e\<lparr>retire_after_run := True\<rparr>) S))"

definition invalidate_matching :: "(ProcessEntry \<Rightarrow> bool) \<Rightarrow> FleetState \<Rightarrow> FleetState \<times> FleetStopPlan list" where
  "invalidate_matching P S =
     invalidate_all (map (\<lambda>(p, e). (p, state e)) (filter (\<lambda>(p, e). P e) (processes S))) S"

definition invalidate_camp :: "string \<Rightarrow> FleetState \<Rightarrow> FleetState \<times> FleetStopPlan list" where
  "invalidate_camp camp S = invalidate_matching (\<lambda>e. belongs_to_camp camp (compatibility e)) S"

definition invalidate_member :: "string \<Rightarrow> FleetState \<Rightarrow> FleetState \<times> FleetStopPlan list" where
  "invalidate_member agent S = invalidate_matching (\<lambda>e. belongs_to_member agent (compatibility e)) S"

definition invalidate_adapter :: "AdapterKind \<Rightarrow> FleetState \<Rightarrow> FleetState \<times> FleetStopPlan list" where
  "invalidate_adapter kind S = invalidate_matching (\<lambda>e. adapter_kind e = kind) S"

definition invalidate_adapter_members ::
    "AdapterKind \<Rightarrow> string set \<Rightarrow> FleetState \<Rightarrow> FleetState \<times> FleetStopPlan list" where
  "invalidate_adapter_members kind agents S =
     invalidate_matching (\<lambda>e. adapter_kind e = kind \<and>
       (case invalidation_agent_id (compatibility e) of None \<Rightarrow> False | Some a \<Rightarrow> a \<in> agents)) S"

definition retire_busy :: "string \<Rightarrow> ProcessEntry \<Rightarrow> FleetState \<Rightarrow> FleetState \<times> nat" where
  "retire_busy p e S =
     (case retirement e of
        Some c \<Rightarrow> (put_entry p (e\<lparr>retire_after_run := True\<rparr>) S, c)
      | None \<Rightarrow> (put_entry p (e\<lparr>retire_after_run := True, retirement := Some (length (stops S))\<rparr>)
                  (S\<lparr>stops := stops S @ [None]\<rparr>), length (stops S)))"

fun retire_all :: "(string \<times> FleetProcessState) list \<Rightarrow> FleetState \<Rightarrow> FleetState \<times> FleetStopPlan list \<times> nat list" where
  "retire_all [] S = (S, [], [])"
| "retire_all ((p, st) # ps) S =
     (if at_rest st
      then (case plan_stop p S of (S1, plan) \<Rightarrow>
        (case retire_all ps S1 of (S2, plans, waits) \<Rightarrow> (S2, plan # plans, waits)))
      else
        (case map_of (processes S) p of
           None \<Rightarrow> retire_all ps S
         | Some e \<Rightarrow> (case retire_busy p e S of (S1, c) \<Rightarrow>
             (case retire_all ps S1 of (S2, plans, waits) \<Rightarrow> (S2, plans, c # waits)))))"

definition retire_incompatible_hosts ::
    "AdapterKind \<Rightarrow> RuntimeCompatibilityKey \<Rightarrow> FleetState \<Rightarrow> FleetState \<times> FleetStopPlan list \<times> nat list" where
  "retire_incompatible_hosts kind k S =
     retire_all (map (\<lambda>(p, e). (p, state e)) (filter (\<lambda>(p, e).
       adapter_kind e = kind \<and> reuse_scope (compatibility e) = reuse_scope k
       \<and> policy (compatibility e) \<noteq> policy k) (processes S))) S"

definition sweep_due :: "host_env \<Rightarrow> AgentRuntimeFleetConfig \<Rightarrow> instant \<Rightarrow> ProcessEntry \<Rightarrow> bool" where
  "sweep_due env cfg now e =
     ((state e = IdleWarm
       \<and> ((case idle_since e of None \<Rightarrow> False
            | Some since \<Rightarrow> now - since \<ge> idle_ttl cfg \<and> \<not> entry_background env e)
          \<or> \<not> entry_healthy env e \<or> retire_after_run e))
      \<or> state e = Stopping)"

definition sweep_idle ::
    "host_env \<Rightarrow> AgentRuntimeFleetConfig \<Rightarrow> instant \<Rightarrow> FleetState \<Rightarrow> FleetState \<times> FleetStopPlan list" where
  "sweep_idle env cfg now S = plan_stops (matching S (sweep_due env cfg now)) S"

definition begin_shutdown :: "FleetState \<Rightarrow> FleetState \<times> string list \<times> FleetStopPlan list" where
  "begin_shutdown S =
     (let S1 = S\<lparr>shutdown_started := True\<rparr>; ids = map fst (processes S1)
      in case plan_stops ids S1 of (S2, plans) \<Rightarrow> (S2, ids, plans))"

definition reaped_count :: "string list \<Rightarrow> FleetState \<Rightarrow> nat" where
  "reaped_count ids S = length (filter (\<lambda>p. map_of (processes S) p = None) ids)"

definition shutdown_outcome :: "string list \<Rightarrow> FleetState \<Rightarrow> bool \<Rightarrow> bool \<Rightarrow> nat \<Rightarrow> RuntimeFleetShutdownOutcome" where
  "shutdown_outcome ids S late past_deadline killed =
     \<lparr>observed_processes = length ids, reaped_processes = reaped_count ids S,
      force_kill_signals_sent =
        (if length ids - reaped_count ids S = 0 \<and> \<not> late then 0 else killed),
      deadline_expired = late \<or> past_deadline\<rparr>"

text \<open>
  The graceful deadline may pass before the locks are free. Then nothing was observed of the fleet: the outcome
  counts the owner records of this generation, where the fleet keeps any, and the signals sent to them.
\<close>

definition lock_timeout_outcome :: "(nat \<times> nat) option \<Rightarrow> RuntimeFleetShutdownOutcome" where
  "lock_timeout_outcome records =
     \<lparr>observed_processes = (case records of None \<Rightarrow> 0 | Some (n, killed) \<Rightarrow> n), reaped_processes = 0,
      force_kill_signals_sent = (case records of None \<Rightarrow> 0 | Some (n, killed) \<Rightarrow> killed), deadline_expired = True\<rparr>"

end
