(* ===== verification/Fleet_Inv.thy ===== *)
theory Fleet_Inv
  imports Fleet
begin

text \<open>
  The invariant of the fleet's state and the lemma of each primitive operation that keeps it. The
  invariant has four parts, each about the entries and one index over them: the leases, the idle
  processes in order of use, the resident processes with their buckets, and the shape of an entry
  in each of its states.
\<close>

section \<open>The invariant\<close>

type_synonym entry_map = "string \<Rightarrow> ProcessEntry option"

definition entries :: "FleetState \<Rightarrow> entry_map" where
  "entries S = map_of (processes S)"

definition runs :: "FleetState \<Rightarrow> RunLeaseKey \<Rightarrow> string option" where
  "runs S = map_of (process_by_run S)"

lemmas views = entries_def [symmetric] runs_def [symmetric]

text \<open>Every key the host makes comes from one of the two constructors.\<close>

definition well_formed_key :: "RuntimeCompatibilityKey \<Rightarrow> bool" where
  "well_formed_key k =
     (invalidation_camp_id k = Some (camp_id (reuse_scope k))
      \<and> invalidation_agent_id k = Some (agent_id (reuse_scope k))
      \<and> residency_bucket k = agent_id (reuse_scope k))"

lemma constructors_well_formed:
  "well_formed_key (member_session camp agent session digest)"
  "well_formed_key (native_binding camp agent binding_id root)"
  by (simp_all add: well_formed_key_def member_session_def native_binding_def)

definition bucket :: "ProcessEntry \<Rightarrow> string" where
  "bucket e = residency_bucket (compatibility e)"

fun shape_ok :: "FleetProcessState \<Rightarrow> ProcessEntry \<Rightarrow> bool" where
  "shape_ok Starting e = (host e = None \<and> startup e \<noteq> None \<and> run_lease e \<noteq> None)"
| "shape_ok BusyResident e = (host e \<noteq> None \<and> startup e = None \<and> run_lease e \<noteq> None \<and> residency e = Resident)"
| "shape_ok BusyBurst e = (host e \<noteq> None \<and> startup e = None \<and> run_lease e \<noteq> None \<and> residency e = Burst)"
| "shape_ok IdleWarm e = (host e \<noteq> None \<and> startup e = None \<and> run_lease e = None \<and> idle_since e \<noteq> None)"
| "shape_ok Stopping e = (host e \<noteq> None \<and> startup e = None)"

definition entry_ok :: "ProcessEntry \<Rightarrow> bool" where
  "entry_ok e = (shape_ok (state e) e \<and> well_formed_key (compatibility e))"

definition shapes_ok :: "entry_map \<Rightarrow> bool" where
  "shapes_ok m = (\<forall>p e. m p = Some e \<longrightarrow> entry_ok e)"

text \<open>What the indexes record of an entry.\<close>

definition holds :: "entry_map \<Rightarrow> RunLeaseKey \<Rightarrow> string \<Rightarrow> bool" where
  "holds m r p = (case m p of None \<Rightarrow> False | Some e \<Rightarrow> run_lease e = Some r)"

definition idle_at :: "entry_map \<Rightarrow> u64 \<Rightarrow> string \<Rightarrow> bool" where
  "idle_at m n p = (case m p of None \<Rightarrow> False | Some e \<Rightarrow> state e = IdleWarm \<and> last_used_sequence e = n)"

definition may_reside :: "entry_map \<Rightarrow> string \<Rightarrow> bool" where
  "may_reside m p = (case m p of None \<Rightarrow> False | Some e \<Rightarrow> residency e = Resident)"

definition must_reside :: "entry_map \<Rightarrow> string \<Rightarrow> bool" where
  "must_reside m p = (case m p of None \<Rightarrow> False | Some e \<Rightarrow> residency e = Resident \<and> state e \<noteq> Stopping)"

definition in_bucket :: "entry_map \<Rightarrow> string \<Rightarrow> string \<Rightarrow> bool" where
  "in_bucket m b p = (case m p of None \<Rightarrow> False | Some e \<Rightarrow> bucket e = b)"

definition stops_at :: "entry_map \<Rightarrow> nat \<Rightarrow> string \<Rightarrow> bool" where
  "stops_at m c p = (case m p of None \<Rightarrow> False | Some e \<Rightarrow> stop e = Some c)"

definition retires_at :: "entry_map \<Rightarrow> nat \<Rightarrow> string \<Rightarrow> bool" where
  "retires_at m c p = (case m p of None \<Rightarrow> False | Some e \<Rightarrow> retirement e = Some c)"

lemmas index_defs = holds_def idle_at_def may_reside_def must_reside_def in_bucket_def stops_at_def retires_at_def

lemma index_upd [simp]:
  "holds (m(p \<mapsto> e)) r q = (if q = p then run_lease e = Some r else holds m r q)"
  "idle_at (m(p \<mapsto> e)) n q = (if q = p then state e = IdleWarm \<and> last_used_sequence e = n else idle_at m n q)"
  "may_reside (m(p \<mapsto> e)) q = (if q = p then residency e = Resident else may_reside m q)"
  "must_reside (m(p \<mapsto> e)) q = (if q = p then residency e = Resident \<and> state e \<noteq> Stopping else must_reside m q)"
  "in_bucket (m(p \<mapsto> e)) b q = (if q = p then bucket e = b else in_bucket m b q)"
  "stops_at (m(p \<mapsto> e)) c q = (if q = p then stop e = Some c else stops_at m c q)"
  "retires_at (m(p \<mapsto> e)) c q = (if q = p then retirement e = Some c else retires_at m c q)"
  by (simp_all add: index_defs)

lemma index_del [simp]:
  "holds (m(p := None)) r q = (q \<noteq> p \<and> holds m r q)" "idle_at (m(p := None)) n q = (q \<noteq> p \<and> idle_at m n q)"
  "may_reside (m(p := None)) q = (q \<noteq> p \<and> may_reside m q)"
  "must_reside (m(p := None)) q = (q \<noteq> p \<and> must_reside m q)"
  "in_bucket (m(p := None)) b q = (q \<noteq> p \<and> in_bucket m b q)"
  "stops_at (m(p := None)) c q = (q \<noteq> p \<and> stops_at m c q)" "retires_at (m(p := None)) c q = (q \<noteq> p \<and> retires_at m c q)"
  by (simp_all add: index_defs)

lemma index_at:
  "m p = Some e \<Longrightarrow> holds m r p = (run_lease e = Some r)"
  "m p = Some e \<Longrightarrow> idle_at m n p = (state e = IdleWarm \<and> last_used_sequence e = n)"
  "m p = Some e \<Longrightarrow> may_reside m p = (residency e = Resident)"
  "m p = Some e \<Longrightarrow> must_reside m p = (residency e = Resident \<and> state e \<noteq> Stopping)"
  "m p = Some e \<Longrightarrow> in_bucket m b p = (bucket e = b)"
  "m p = Some e \<Longrightarrow> stops_at m c p = (stop e = Some c)"
  "m p = Some e \<Longrightarrow> retires_at m c p = (retirement e = Some c)"
  by (simp_all add: index_defs)

lemma index_none:
  "m p = None \<Longrightarrow> \<not> holds m r p" "m p = None \<Longrightarrow> \<not> idle_at m n p" "m p = None \<Longrightarrow> \<not> may_reside m p"
  "m p = None \<Longrightarrow> \<not> must_reside m p" "m p = None \<Longrightarrow> \<not> in_bucket m b p"
  "m p = None \<Longrightarrow> \<not> stops_at m c p" "m p = None \<Longrightarrow> \<not> retires_at m c p"
  by (simp_all add: index_defs)

definition leases_ok :: "entry_map \<Rightarrow> (RunLeaseKey \<Rightarrow> string option) \<Rightarrow> bool" where
  "leases_ok m rs = (\<forall>r p. rs r = Some p \<longleftrightarrow> holds m r p)"

definition lru_ok :: "entry_map \<Rightarrow> (u64 \<times> string) list \<Rightarrow> bool" where
  "lru_ok m l = (sorted l \<and> distinct l \<and> (\<forall>n p. (n, p) \<in> set l \<longleftrightarrow> idle_at m n p))"

definition members :: "(string \<Rightarrow> string set option) \<Rightarrow> string \<Rightarrow> string set" where
  "members B b = (case B b of None \<Rightarrow> {} | Some ps \<Rightarrow> ps)"

definition residents_ok :: "entry_map \<Rightarrow> string set \<Rightarrow> (string \<Rightarrow> string set option) \<Rightarrow> bool" where
  "residents_ok m R B =
     ((\<forall>p. p \<in> R \<longrightarrow> may_reside m p) \<and> (\<forall>p. must_reside m p \<longrightarrow> p \<in> R)
      \<and> (\<forall>b p. p \<in> members B b \<longleftrightarrow> p \<in> R \<and> in_bucket m b p))"

text \<open>Every completion in the table \<open>stops\<close> answers one stop of one process, or one retirement.\<close>

definition completions_ok :: "entry_map \<Rightarrow> nat \<Rightarrow> bool" where
  "completions_ok m n =
     ((\<forall>c p. stops_at m c p \<longrightarrow> c < n) \<and> (\<forall>c p. retires_at m c p \<longrightarrow> c < n)
      \<and> (\<forall>c p q. stops_at m c p \<longrightarrow> \<not> retires_at m c q)
      \<and> (\<forall>c p q. stops_at m c p \<longrightarrow> stops_at m c q \<longrightarrow> p = q))"

definition fleet_ok :: "FleetState \<Rightarrow> bool" where
  "fleet_ok S =
     (hm_ok (processes S) \<and> shapes_ok (entries S) \<and> leases_ok (entries S) (runs S)
      \<and> completions_ok (entries S) (length (stops S)) \<and> lru_ok (entries S) (idle_lru S)
      \<and> residents_ok (entries S) (resident_processes S) (resident_processes_by_bucket S))"

lemmas fleet_parts = shapes_ok_def leases_ok_def lru_ok_def residents_ok_def completions_ok_def

lemma empty_fleet_ok: "fleet_ok empty_fleet"
  by (simp add: fleet_ok_def fleet_parts empty_fleet_def index_defs members_def entries_def runs_def hm_ok_def)

section \<open>Selectors of the small operations\<close>

lemma put_entry_sels [simp]:
  "processes (put_entry p e S) = AList.update p e (processes S)"
  "process_by_run (put_entry p e S) = process_by_run S" "runs (put_entry p e S) = runs S" "idle_lru (put_entry p e S) = idle_lru S"
  "resident_processes (put_entry p e S) = resident_processes S"
  "resident_processes_by_bucket (put_entry p e S) = resident_processes_by_bucket S"
  "stops (put_entry p e S) = stops S" "startups (put_entry p e S) = startups S"
  "deleting_camps (put_entry p e S) = deleting_camps S" "shutdown_started (put_entry p e S) = shutdown_started S"
  "reaped_leases (put_entry p e S) = reaped_leases S" "next_sequence (put_entry p e S) = next_sequence S"
  by (simp_all add: put_entry_def runs_def)

lemma entries_put [simp]: "entries (put_entry p e S) = (entries S)(p \<mapsto> e)"
  by (simp add: entries_def update_conv')

lemma members_insert [simp]: "members (bucket_insert b p B) c = (if c = b then insert p (members B c) else members B c)"
  by (simp add: members_def bucket_insert_def)

lemma members_remove [simp]: "members (bucket_remove b p B) c = (if c = b then members B c - {p} else members B c)"
  by (auto simp: members_def bucket_remove_def split: option.splits)

lemma lru_remove_set [simp]: "set (lru_remove x xs) = set xs - {x}"
  by (auto simp: lru_remove_def)

lemma lru_insert_set [simp]: "set (lru_insert x xs) = insert x (set xs)"
  by (simp add: lru_insert_def set_insort_insert)

lemma lru_sorted:
  "sorted xs \<Longrightarrow> sorted (lru_remove x xs)" "sorted xs \<Longrightarrow> sorted (lru_insert x xs)"
  "distinct xs \<Longrightarrow> distinct (lru_remove x xs)" "distinct xs \<Longrightarrow> distinct (lru_insert x xs)"
  by (simp_all add: lru_remove_def lru_insert_def sorted_wrt_filter sorted_insort_insert distinct_insort_insert)

section \<open>Operations on the startup and stop tables leave the indexes alone\<close>

definition same_books :: "FleetState \<Rightarrow> FleetState \<Rightarrow> bool" where
  "same_books S S' =
     (processes S' = processes S \<and> process_by_run S' = process_by_run S \<and> idle_lru S' = idle_lru S
      \<and> resident_processes S' = resident_processes S
      \<and> resident_processes_by_bucket S' = resident_processes_by_bucket S
      \<and> length (stops S') = length (stops S))"

lemma fleet_ok_same: "same_books S S' \<Longrightarrow> fleet_ok S' = fleet_ok S"
  by (simp add: same_books_def fleet_ok_def entries_def runs_def)

lemma same_books_ops:
  "same_books S (complete_stop c b S)" "same_books S (complete_startup c r S)"
  "same_books S (cancel_startup c S)" "same_books S (complete_retirement x b S)"
  "same_books S (advance_sequence S)" "same_books S (S\<lparr>startups := us\<rparr>)"
  "same_books S (S\<lparr>reaped_leases := rs\<rparr>)" "same_books S (S\<lparr>deleting_camps := cs\<rparr>)"
  "same_books S (S\<lparr>shutdown_started := b\<rparr>)"
  by (simp_all add: same_books_def complete_stop_def complete_startup_def cancel_startup_def
    complete_retirement_def advance_sequence_def split: option.splits)

lemmas fleet_ok_ops = same_books_ops [THEN fleet_ok_same]

section \<open>Changing one entry\<close>

lemma hm_ok_upd [simp]: "hm_ok m \<Longrightarrow> hm_ok (AList.update k v m)" "hm_ok m \<Longrightarrow> hm_ok (AList.delete k m)"
  by (simp_all add: hm_ok_def distinct_update distinct_delete)

lemma shapes_upd: "fleet_ok S \<Longrightarrow> entry_ok e \<Longrightarrow> shapes_ok ((entries S)(p \<mapsto> e))"
  by (simp add: fleet_ok_def shapes_ok_def)

lemma entry_okD: "fleet_ok S \<Longrightarrow> entries S p = Some e \<Longrightarrow> entry_ok e"
  by (simp add: fleet_ok_def shapes_ok_def)

text \<open>The indexes depend on these parts of an entry only.\<close>

definition same_indexed :: "ProcessEntry \<Rightarrow> ProcessEntry \<Rightarrow> bool" where
  "same_indexed e e' =
     (run_lease e' = run_lease e \<and> state e' = state e \<and> last_used_sequence e' = last_used_sequence e
      \<and> residency e' = residency e \<and> compatibility e' = compatibility e \<and> stop e' = stop e
      \<and> retirement e' = retirement e)"

lemma fresh_completion:
  assumes "completions_ok m n" and "m p = Some e" and "stop e' = Some n" and "retirement e' = retirement e"
  shows "completions_ok (m(p \<mapsto> e')) (Suc n)"
proof -
  have at: "stops_at m c p = (stop e = Some c)" "retires_at m c p = (retirement e = Some c)" for c
    using assms(2) by (simp_all add: index_defs)
  have stops: "stops_at m c q \<Longrightarrow> c < n" and retires: "retires_at m c q \<Longrightarrow> c < n"
    and apart: "stops_at m c q \<Longrightarrow> \<not> retires_at m c r" and one: "stops_at m c q \<Longrightarrow> stops_at m c r \<Longrightarrow> q = r" for c q r
    using assms(1) by (auto simp: completions_ok_def)
  have same: "retires_at (m(p \<mapsto> e')) c q = retires_at m c q" for c q
    using assms(4) at by simp
  have new: "stops_at (m(p \<mapsto> e')) c q = (if q = p then c = n else stops_at m c q)" for c q
    using assms(3) by auto
  show ?thesis
    unfolding completions_ok_def same new
    using apart one by (auto simp: less_Suc_eq dest: stops retires)
qed

text \<open>An index that records nothing new of the changed entry is as before.\<close>

lemma index_same:
  assumes "m p = Some e"
  shows "run_lease e' = run_lease e \<Longrightarrow> holds (m(p \<mapsto> e')) = holds m"
    "state e' = state e \<and> last_used_sequence e' = last_used_sequence e \<or> state e \<noteq> IdleWarm \<and> state e' \<noteq> IdleWarm \<Longrightarrow>
     idle_at (m(p \<mapsto> e')) = idle_at m"
    "residency e' = residency e \<Longrightarrow> may_reside (m(p \<mapsto> e')) = may_reside m"
    "residency e' = residency e \<Longrightarrow> (state e' = Stopping) = (state e = Stopping) \<Longrightarrow> must_reside (m(p \<mapsto> e')) = must_reside m"
    "compatibility e' = compatibility e \<Longrightarrow> in_bucket (m(p \<mapsto> e')) = in_bucket m"
    "stop e' = stop e \<Longrightarrow> stops_at (m(p \<mapsto> e')) = stops_at m"
    "retirement e' = retirement e \<Longrightarrow> retires_at (m(p \<mapsto> e')) = retires_at m"
  using assms by (auto simp: fun_eq_iff index_defs bucket_def)

lemma part_same:
  assumes "m p = Some e"
  shows "run_lease e' = run_lease e \<Longrightarrow> leases_ok (m(p \<mapsto> e')) rs = leases_ok m rs"
    "state e' = state e \<and> last_used_sequence e' = last_used_sequence e \<or> state e \<noteq> IdleWarm \<and> state e' \<noteq> IdleWarm \<Longrightarrow>
     lru_ok (m(p \<mapsto> e')) l = lru_ok m l"
    "residency e' = residency e \<Longrightarrow> compatibility e' = compatibility e \<Longrightarrow>
     (state e' = Stopping) = (state e = Stopping) \<Longrightarrow> residents_ok (m(p \<mapsto> e')) R B = residents_ok m R B"
    "stop e' = stop e \<Longrightarrow> retirement e' = retirement e \<Longrightarrow> completions_ok (m(p \<mapsto> e')) n = completions_ok m n"
  unfolding leases_ok_def lru_ok_def residents_ok_def completions_ok_def by (simp_all add: index_same [where m = m and p = p, OF assms])

lemma fresh_retirement:
  assumes "completions_ok m n" and "m p = Some e" and "stop e' = stop e" and "retirement e' = Some n" and "retirement e = None"
  shows "completions_ok (m(p \<mapsto> e')) (Suc n)"
proof -
  have stops: "stops_at m c q \<Longrightarrow> c < n" and retires: "retires_at m c q \<Longrightarrow> c < n"
    and apart: "stops_at m c q \<Longrightarrow> \<not> retires_at m c r" and one: "stops_at m c q \<Longrightarrow> stops_at m c r \<Longrightarrow> q = r" for c q r
    using assms(1) by (auto simp: completions_ok_def)
  have new: "retires_at (m(p \<mapsto> e')) c q = (if q = p then c = n else retires_at m c q)" for c q
    using assms(4) by auto
  show ?thesis
    unfolding completions_ok_def index_same(6) [where m = m and p = p, OF assms(2,3)] new
    using apart one by (auto simp: less_Suc_eq dest: stops retires)
qed

lemma put_same:
  assumes ok: "fleet_ok S" and e: "entries S p = Some e" and same: "same_indexed e e'" and e': "entry_ok e'"
  shows "fleet_ok (put_entry p e' S)"
  using ok same shapes_upd [OF ok e'] by (simp add: fleet_ok_def part_same [where m = "entries S" and p = p, OF e] same_indexed_def)

lemma mark_retire: "fleet_ok S \<Longrightarrow> entries S p = Some e \<Longrightarrow> fleet_ok (put_entry p (e\<lparr>retire_after_run := True\<rparr>) S)"
proof (rule put_same)
  assume "fleet_ok S" and "entries S p = Some e"
  then have "entry_ok e" by (rule entry_okD)
  then show "entry_ok (e\<lparr>retire_after_run := True\<rparr>)" by (cases "state e") (simp_all add: entry_ok_def)
qed (simp_all add: same_indexed_def)

lemma begin_stop_ok:
  assumes ok: "fleet_ok S" and e: "entries S p = Some e" and st: "state e \<noteq> Starting" and h: "host e \<noteq> None"
  shows "fleet_ok (begin_stop p e S)"
proof -
  let ?e = "e\<lparr>idle_since := None, state := Stopping, stop := Some (length (stops S))\<rparr>"
  note at = index_at [where m = "entries S" and p = p, OF e]
  have "entry_ok ?e" using entry_okD [OF ok e] st h by (cases "state e") (auto simp: entry_ok_def)
  then have "shapes_ok ((entries S)(p \<mapsto> ?e))" by (rule shapes_upd [OF ok])
  moreover have "leases_ok ((entries S)(p \<mapsto> ?e)) (runs S)"
    using ok by (simp add: fleet_ok_def part_same [where m = "entries S" and p = p, OF e])
  moreover have "completions_ok ((entries S)(p \<mapsto> ?e)) (Suc (length (stops S)))"
    by (rule fresh_completion [where e = e]) (use ok e in \<open>simp_all add: fleet_ok_def\<close>)
  moreover have "lru_ok ((entries S)(p \<mapsto> ?e)) (lru_remove (last_used_sequence e, p) (idle_lru S))"
    using ok at by (auto simp: fleet_ok_def lru_ok_def lru_sorted)
  moreover have "residents_ok ((entries S)(p \<mapsto> ?e)) (resident_processes S) (resident_processes_by_bucket S)"
    using ok at by (auto simp: fleet_ok_def residents_ok_def bucket_def)
  ultimately show ?thesis using ok
    by (simp add: fleet_ok_def begin_stop_def entries_def runs_def update_conv')
qed

lemma remove_process_sels:
  assumes "entries S p = Some e"
  shows "processes (remove_process p S) = AList.delete p (processes S)"
    "entries (remove_process p S) = (entries S)(p := None)"
    "runs (remove_process p S) = (case run_lease e of None \<Rightarrow> runs S | Some r \<Rightarrow> (runs S)(r := None))"
    "idle_lru (remove_process p S) = lru_remove (last_used_sequence e, p) (idle_lru S)"
    "resident_processes (remove_process p S) = resident_processes S - {p}"
    "resident_processes_by_bucket (remove_process p S) = bucket_remove (bucket e) p (resident_processes_by_bucket S)"
    "length (stops (remove_process p S)) = length (stops S)"
    "deleting_camps (remove_process p S) = deleting_camps S" "shutdown_started (remove_process p S) = shutdown_started S"
    "reaped_leases (remove_process p S) = reaped_leases S" "startups (remove_process p S) = startups S"
  using assms
  by (simp_all add: remove_process_def complete_retirement_def complete_stop_def drop_resident_def entries_def
    runs_def bucket_def delete_conv' split: option.splits)

lemma leases_unique: "leases_ok m rs \<Longrightarrow> holds m r p \<Longrightarrow> holds m r q \<Longrightarrow> p = q"
  by (metis leases_ok_def option.inject)

lemma leases_free: "leases_ok m rs \<Longrightarrow> rs r = None \<Longrightarrow> \<not> holds m r p"
  by (metis leases_ok_def option.distinct(1))

lemma remove_process_absent: "entries S p = None \<Longrightarrow> remove_process p S = S"
  by (simp add: remove_process_def entries_def)

lemma remove_process_ok: "fleet_ok S \<Longrightarrow> fleet_ok (remove_process p S)"
proof (cases "entries S p")
  case None
  then show "fleet_ok S \<Longrightarrow> ?thesis" by (simp add: remove_process_absent)
next
  case (Some e)
  assume ok: "fleet_ok S"
  note at = index_at [where m = "entries S" and p = p, OF Some]
  have "leases_ok ((entries S)(p := None)) (case run_lease e of None \<Rightarrow> runs S | Some r \<Rightarrow> (runs S)(r := None))"
    using ok at(1) leases_unique [of "entries S" "runs S" _ p]
    by (auto simp: fleet_ok_def leases_ok_def split: option.splits)
  moreover have "shapes_ok ((entries S)(p := None))" "completions_ok ((entries S)(p := None)) (length (stops S))"
    using ok by (auto simp: fleet_ok_def shapes_ok_def completions_ok_def)
  moreover have "lru_ok ((entries S)(p := None)) (lru_remove (last_used_sequence e, p) (idle_lru S))"
    using ok at(2) by (auto simp: fleet_ok_def lru_ok_def lru_sorted)
  moreover have "residents_ok ((entries S)(p := None)) (resident_processes S - {p})
      (bucket_remove (bucket e) p (resident_processes_by_bucket S))"
    using ok at(5) by (auto simp: fleet_ok_def residents_ok_def)
  ultimately show ?thesis using ok by (simp add: fleet_ok_def remove_process_sels [OF Some])
qed

lemma reserve_idle_eviction_ok:
  assumes ok: "fleet_ok S"
  shows "fleet_ok (fst (reserve_idle_eviction env p S))"
proof (cases "case entries S p of None \<Rightarrow> True | Some e \<Rightarrow> state e \<noteq> IdleWarm \<or> entry_background env e")
  case True
  with ok show ?thesis by (auto simp: reserve_idle_eviction_def entries_def split: option.splits)
next
  case False
  then obtain e where e: "entries S p = Some e" and idle: "state e = IdleWarm" "\<not> entry_background env e"
    by (auto split: option.splits)
  let ?e = "e\<lparr>idle_since := None, state := Stopping, stop := Some (length (stops S))\<rparr>"
  from entry_okD [OF ok e] idle obtain h where h: "host e = Some h" by (auto simp: entry_ok_def)
  note at = index_at [where m = "entries S" and p = p, OF e]
  have "entry_ok ?e" using entry_okD [OF ok e] idle h by (auto simp: entry_ok_def)
  then have "shapes_ok ((entries S)(p \<mapsto> ?e))" by (rule shapes_upd [OF ok])
  moreover have "leases_ok ((entries S)(p \<mapsto> ?e)) (runs S)"
    using ok by (simp add: fleet_ok_def part_same [where m = "entries S" and p = p, OF e])
  moreover have "completions_ok ((entries S)(p \<mapsto> ?e)) (Suc (length (stops S)))"
    by (rule fresh_completion [where e = e]) (use ok e in \<open>simp_all add: fleet_ok_def\<close>)
  moreover have "lru_ok ((entries S)(p \<mapsto> ?e)) (lru_remove (last_used_sequence e, p) (idle_lru S))"
    using ok at by (auto simp: fleet_ok_def lru_ok_def lru_sorted)
  moreover have "residents_ok ((entries S)(p \<mapsto> ?e)) (resident_processes S - {p})
      (bucket_remove (bucket e) p (resident_processes_by_bucket S))"
    using ok at by (auto simp: fleet_ok_def residents_ok_def bucket_def)
  moreover have "lru_remove x (lru_remove x xs) = lru_remove x xs" for x and xs :: "(u64 \<times> string) list"
    by (simp add: lru_remove_def)
  ultimately show ?thesis using ok idle h e
    by (simp add: fleet_ok_def reserve_idle_eviction_def begin_stop_def drop_resident_def entries_def runs_def
      update_conv' bucket_def)
qed

lemma make_resident_ok:
  assumes ok: "fleet_ok S" and e: "entries S p = Some e" and r: "residency e = Resident"
  shows "fleet_ok (make_resident (bucket e) p S)"
  using ok r index_at(3-5) [where m = "entries S" and p = p, OF e]
  by (auto simp: fleet_ok_def make_resident_def entries_def runs_def residents_ok_def)

lemma restore_capacity_ok: "fleet_ok S \<Longrightarrow> fleet_ok (restore_stopping_resident_capacity p c S)"
  using make_resident_ok [of S p]
  by (auto simp: restore_stopping_resident_capacity_def bucket_def entries_def split: option.splits)

lemma well_formed_bucket:
  "well_formed_key k \<Longrightarrow> well_formed_key k' \<Longrightarrow> reuse_scope k = reuse_scope k' \<Longrightarrow> residency_bucket k = residency_bucket k'"
  by (simp add: well_formed_key_def)

lemma reuse_idle_ok:
  assumes ok: "fleet_ok S" and e: "entries S p = Some e" and idle: "state e = IdleWarm"
    and free: "runs S (request_run_lease req) = None"
    and wf: "well_formed_key (request_compatibility req)"
    and scope: "reuse_scope (compatibility e) = reuse_scope (request_compatibility req)"
  shows "fleet_ok (reuse_idle req p e S)"
proof -
  let ?e = "e\<lparr>state := (if residency e = Burst then BusyBurst else BusyResident),
    run_lease := Some (request_run_lease req), idle_since := None, compatibility := request_compatibility req\<rparr>"
  note at = index_at [where m = "entries S" and p = p, OF e]
  from entry_okD [OF ok e] idle have shape: "host e \<noteq> None" "startup e = None" "run_lease e = None" "well_formed_key (compatibility e)"
    by (simp_all add: entry_ok_def)
  from well_formed_bucket [OF shape(4) wf scope] have b: "bucket ?e = bucket e" by (simp add: bucket_def)
  have "entry_ok ?e" using shape wf by (cases "residency e") (simp_all add: entry_ok_def)
  then have "shapes_ok ((entries S)(p \<mapsto> ?e))" by (rule shapes_upd [OF ok])
  moreover have "leases_ok ((entries S)(p \<mapsto> ?e)) ((runs S)(request_run_lease req \<mapsto> p))"
    using ok at(1) shape(3) leases_free [where rs = "runs S", OF _ free]
    by (auto simp: fleet_ok_def leases_ok_def)
  moreover have "completions_ok ((entries S)(p \<mapsto> ?e)) (length (stops S))"
    using ok by (simp add: fleet_ok_def part_same [where m = "entries S" and p = p, OF e])
  moreover have "lru_ok ((entries S)(p \<mapsto> ?e)) (lru_remove (last_used_sequence e, p) (idle_lru S))"
    using ok at(2) by (auto simp: fleet_ok_def lru_ok_def lru_sorted)
  moreover have "residents_ok ((entries S)(p \<mapsto> ?e)) (resident_processes S) (resident_processes_by_bucket S)"
    using ok at(3-5) b idle by (auto simp: fleet_ok_def residents_ok_def)
  ultimately show ?thesis using ok
    by (simp add: fleet_ok_def reuse_idle_def entries_def runs_def update_conv')
qed

lemma reserve_start_ok:
  assumes ok: "fleet_ok S" and fresh: "entries S rid = None"
    and free: "runs S (request_run_lease req) = None" and wf: "well_formed_key (request_compatibility req)"
  shows "fleet_ok (reserve_start req rid r S)"
proof -
  let ?n = "saturating_add (next_sequence S) 1"
  let ?e = "\<lparr>process_id = rid, adapter_kind = request_adapter_kind req,
    compatibility = request_compatibility req, state = Starting, residency = r, host = None,
    startup = Some (length (startups S)), stop = None, run_lease = Some (request_run_lease req),
    idle_since = None, last_used_sequence = ?n, retire_after_run = False, retirement = None\<rparr>"
  let ?m = "(entries S)(rid \<mapsto> ?e)"
  note none = index_none [where m = "entries S" and p = rid, OF fresh]
  have "shapes_ok ?m" by (rule shapes_upd [OF ok]) (simp add: entry_ok_def wf)
  moreover have "leases_ok ?m ((runs S)(request_run_lease req \<mapsto> rid))"
    using ok none(1) leases_free [where rs = "runs S", OF _ free] by (auto simp: fleet_ok_def leases_ok_def)
  moreover have "completions_ok ?m (length (stops S))"
    using ok by (auto simp: fleet_ok_def completions_ok_def)
  moreover have "lru_ok ?m (idle_lru S)"
    using ok none(2) by (auto simp: fleet_ok_def lru_ok_def)
  moreover have "residents_ok ?m (resident_processes S) (resident_processes_by_bucket S)" if "r = Burst"
    using ok none(3-5) that by (auto simp: fleet_ok_def residents_ok_def)
  moreover have "residents_ok ?m (insert rid (resident_processes S))
      (bucket_insert (bucket ?e) rid (resident_processes_by_bucket S))" if "r = Resident"
    using ok none(3-5) that by (auto simp: fleet_ok_def residents_ok_def)
  ultimately show ?thesis using ok
    by (cases r) (simp_all add: fleet_ok_def reserve_start_def Let_def insert_process_def advance_sequence_def
      make_resident_def entries_def runs_def update_conv' bucket_def)
qed

lemma commit_start_ok:
  assumes ok: "fleet_ok S" and e: "entries S rid = Some e" and res: "residency e = r"
    and commit: "commit_start rid run r c h S = Some S'"
  shows "fleet_ok S'"
proof -
  let ?e = "e\<lparr>host := Some h, startup := None, state := (case r of Resident \<Rightarrow> BusyResident | Burst \<Rightarrow> BusyBurst)\<rparr>"
  note at = index_at [where m = "entries S" and p = rid, OF e]
  from commit e have st: "state e = Starting" and S': "S' = put_entry rid ?e S"
    by (auto simp: commit_start_def entries_def split: if_splits)
  have "entry_ok ?e" using entry_okD [OF ok e] st res by (cases r) (auto simp: entry_ok_def)
  then have "shapes_ok ((entries S)(rid \<mapsto> ?e))" by (rule shapes_upd [OF ok])
  moreover have "leases_ok ((entries S)(rid \<mapsto> ?e)) (runs S)"
    using ok by (simp add: fleet_ok_def part_same [where m = "entries S" and p = rid, OF e])
  moreover have "completions_ok ((entries S)(rid \<mapsto> ?e)) (length (stops S))"
    using ok by (simp add: fleet_ok_def part_same [where m = "entries S" and p = rid, OF e])
  moreover have "lru_ok ((entries S)(rid \<mapsto> ?e)) (idle_lru S)"
    using ok at(2) st by (auto simp: fleet_ok_def lru_ok_def split: FleetResidency.splits)
  moreover have "residents_ok ((entries S)(rid \<mapsto> ?e)) (resident_processes S) (resident_processes_by_bucket S)"
    using ok at(3-5) st by (auto simp: fleet_ok_def residents_ok_def bucket_def split: FleetResidency.splits)
  ultimately show ?thesis using ok by (simp add: S' fleet_ok_def)
qed

lemma make_idle_ok:
  assumes ok: "fleet_ok S" and e: "entries S p = Some e" and now: "reusable_now env key h e"
  shows "fleet_ok (make_idle now key p e S)"
proof -
  let ?n = "saturating_add (next_sequence S) 1"
  let ?e = "e\<lparr>run_lease := None, state := IdleWarm, idle_since := Some now, last_used_sequence := ?n\<rparr>"
  note at = index_at [where m = "entries S" and p = p, OF e]
  from now have st: "state e = BusyResident \<or> state e = BusyBurst" and key: "run_lease e = Some key"
    by (auto simp: reusable_now_def)
  have "entry_ok ?e" using entry_okD [OF ok e] st by (auto simp: entry_ok_def)
  then have "shapes_ok ((entries S)(p \<mapsto> ?e))" by (rule shapes_upd [OF ok])
  moreover have "leases_ok ((entries S)(p \<mapsto> ?e)) ((runs S)(key := None))"
    using ok at(1) key leases_unique [of "entries S" "runs S" _ p] by (auto simp: fleet_ok_def leases_ok_def)
  moreover have "completions_ok ((entries S)(p \<mapsto> ?e)) (length (stops S))"
    using ok by (simp add: fleet_ok_def part_same [where m = "entries S" and p = p, OF e])
  moreover have "lru_ok ((entries S)(p \<mapsto> ?e)) (lru_insert (?n, p) (idle_lru S))"
    using ok at(2) st by (auto simp: fleet_ok_def lru_ok_def lru_sorted)
  moreover have "residents_ok ((entries S)(p \<mapsto> ?e)) (resident_processes S) (resident_processes_by_bucket S)"
    using ok at(3-5) st by (auto simp: fleet_ok_def residents_ok_def bucket_def)
  ultimately show ?thesis using ok
    by (simp add: fleet_ok_def make_idle_def Let_def advance_sequence_def entries_def runs_def update_conv' delete_conv')
qed

lemma retire_busy_ok:
  assumes ok: "fleet_ok S" and e: "entries S p = Some e"
  shows "fleet_ok (fst (retire_busy p e S))"
proof (cases "retirement e")
  case None
  let ?e = "e\<lparr>retire_after_run := True, retirement := Some (length (stops S))\<rparr>"
  note at = index_at [where m = "entries S" and p = p, OF e]
  have "entry_ok ?e" using entry_okD [OF ok e] by (cases "state e") (auto simp: entry_ok_def)
  then have "shapes_ok ((entries S)(p \<mapsto> ?e))" by (rule shapes_upd [OF ok])
  moreover have "leases_ok ((entries S)(p \<mapsto> ?e)) (runs S)"
    using ok by (simp add: fleet_ok_def part_same [where m = "entries S" and p = p, OF e])
  moreover have "completions_ok ((entries S)(p \<mapsto> ?e)) (Suc (length (stops S)))"
    by (rule fresh_retirement [where e = e]) (use ok e None in \<open>simp_all add: fleet_ok_def\<close>)
  moreover have "lru_ok ((entries S)(p \<mapsto> ?e)) (idle_lru S)"
    "residents_ok ((entries S)(p \<mapsto> ?e)) (resident_processes S) (resident_processes_by_bucket S)"
    using ok by (simp_all add: fleet_ok_def part_same [where m = "entries S" and p = p, OF e])
  ultimately show ?thesis using ok None
    by (simp add: fleet_ok_def retire_busy_def entries_def runs_def update_conv')
next
  case (Some c)
  with mark_retire [OF ok e] show ?thesis by (simp add: retire_busy_def)
qed

end
