(* ===== verification/Fleet_Steps.thy ===== *)
theory Fleet_Steps
  imports Fleet_Inv
begin

text \<open>
  What every locked stretch of the fleet does to the rest of the system: it keeps the invariant, it
  leaves the startups and the stops of other tasks alone, it revives nothing that is on its way
  out, and the stops it asks for are new ones.
\<close>

section \<open>Views of other tasks\<close>

definition starting_at :: "entry_map \<Rightarrow> string \<Rightarrow> (RunLeaseKey option \<times> FleetResidency \<times> nat option) option" where
  "starting_at m p =
     (case m p of
        None \<Rightarrow> None
      | Some e \<Rightarrow> if state e = Starting then Some (run_lease e, residency e, startup e) else None)"

definition stopping_at :: "entry_map \<Rightarrow> string \<Rightarrow> nat \<Rightarrow> RuntimeProcessHost \<Rightarrow> bool" where
  "stopping_at m p c h =
     (case m p of
        None \<Rightarrow> False
      | Some e \<Rightarrow> state e = Stopping \<and> stop e = Some c \<and> host e = Some h)"

definition pending :: "FleetState \<Rightarrow> nat \<Rightarrow> bool" where
  "pending S c = (c < length (stops S) \<and> stops S ! c = None)"

definition stopping_by :: "FleetState \<Rightarrow> FleetStopLaunch \<Rightarrow> bool" where
  "stopping_by S l =
     (stopping_at (entries S) (launch_process_id l) (launch_completion l) (launch_host l)
      \<and> pending S (launch_completion l))"

text \<open>A process on its way out: it stops, or its startup will not be committed.\<close>

definition quiet :: "ProcessEntry \<Rightarrow> bool" where
  "quiet e = (state e = Stopping \<or> state e = Starting \<and> retire_after_run e)"

fun active :: "FleetProcessState \<Rightarrow> bool" where
  "active Starting = True"
| "active BusyResident = True"
| "active BusyBurst = True"
| "active IdleWarm = False"
| "active Stopping = False"

text \<open>How an entry may change outside an acquisition.\<close>

fun tame_at :: "ProcessEntry option \<Rightarrow> ProcessEntry option \<Rightarrow> bool" where
  "tame_at e None = True"
| "tame_at None (Some e') = False"
| "tame_at (Some e) (Some e') =
     (compatibility e' = compatibility e \<and> adapter_kind e' = adapter_kind e
      \<and> (quiet e \<longrightarrow> quiet e') \<and> (active (state e') \<longrightarrow> active (state e)))"

definition tame :: "entry_map \<Rightarrow> entry_map \<Rightarrow> bool" where
  "tame m m' = (\<forall>p. tame_at (m p) (m' p))"

lemma tame_at_refl [simp]: "tame_at e e"
  by (cases e) auto

lemma tame_at_trans: "tame_at a b \<Longrightarrow> tame_at b c \<Longrightarrow> tame_at a c"
  by (cases a; cases b; cases c) auto

lemma tame_refl [simp]: "tame m m"
  by (simp add: tame_def)

lemma tame_trans: "tame a b \<Longrightarrow> tame b c \<Longrightarrow> tame a c"
  by (auto simp: tame_def intro: tame_at_trans)

lemma tame_upd: "tame_at (m p) x \<Longrightarrow> tame m (m(p := x))"
  by (simp add: tame_def)

lemma tameD: "tame m m' \<Longrightarrow> tame_at (m p) (m' p)"
  by (simp add: tame_def)

text \<open>What one stretch guarantees to the startup and stop tasks that run at the same time.\<close>

definition spares :: "FleetState \<Rightarrow> FleetState \<Rightarrow> bool" where
  "spares S S' = ((\<forall>l. stopping_by S l \<longrightarrow> stopping_by S' l) \<and> length (stops S) \<le> length (stops S'))"

lemma spares_refl [simp]: "spares S S"
  by (simp add: spares_def)

lemma spares_trans: "spares S T \<Longrightarrow> spares T U \<Longrightarrow> spares S U"
  by (auto simp: spares_def)

definition fresh_launches :: "FleetState \<Rightarrow> FleetState \<Rightarrow> FleetStopLaunch list \<Rightarrow> bool" where
  "fresh_launches S S' ls =
     ((\<forall>l. l \<in> set ls \<longrightarrow> stopping_by S' l \<and> length (stops S) \<le> launch_completion l)
      \<and> distinct (map launch_completion ls))"

definition effect :: "FleetState \<Rightarrow> FleetState \<Rightarrow> FleetStopLaunch list \<Rightarrow> bool" where
  "effect S S' ls =
     (fleet_ok S' \<and> starting_at (entries S') = starting_at (entries S) \<and> tame (entries S) (entries S')
      \<and> spares S S' \<and> fresh_launches S S' ls
      \<and> deleting_camps S' = deleting_camps S \<and> shutdown_started S' = shutdown_started S)"

lemma fresh_nil [simp]: "fresh_launches S S' []"
  by (simp add: fresh_launches_def)

lemma fresh_append:
  assumes "fresh_launches S T ls" and "fresh_launches T U ks" and "spares S T" and "spares T U"
  shows "fresh_launches S U (ls @ ks)"
proof -
  have "launch_completion l < length (stops T)" if "l \<in> set ls" for l
    using assms(1) that by (auto simp: fresh_launches_def stopping_by_def pending_def)
  moreover have "length (stops T) \<le> launch_completion k" if "k \<in> set ks" for k
    using assms(2) that by (auto simp: fresh_launches_def)
  ultimately have "launch_completion ` set ls \<inter> launch_completion ` set ks = {}"
    by fastforce
  then show ?thesis using assms
    by (auto simp: fresh_launches_def spares_def)
qed

lemma effect_refl: "fleet_ok S \<Longrightarrow> effect S S []"
  by (simp add: effect_def)

lemma effect_trans: "effect S T ls \<Longrightarrow> (fleet_ok T \<Longrightarrow> effect T U ks) \<Longrightarrow> effect S U (ls @ ks)"
  by (auto simp: effect_def intro: tame_trans spares_trans fresh_append)

lemma effect_ok: "effect S S' ls \<Longrightarrow> fleet_ok S'"
  by (simp add: effect_def)

section \<open>Primitive stretches\<close>

lemma stopping_upd:
  "stopping_at (m(p \<mapsto> e)) q c h =
     (if q = p then state e = Stopping \<and> stop e = Some c \<and> host e = Some h else stopping_at m q c h)"
  by (simp add: stopping_at_def)

lemma starting_upd:
  "starting_at (m(p := x)) =
     (starting_at m)(p := (case x of None \<Rightarrow> None
        | Some e \<Rightarrow> if state e = Starting then Some (run_lease e, residency e, startup e) else None))"
  by (auto simp: starting_at_def fun_eq_iff)

lemma starting_same:
  assumes "m p = Some e" and "case x of None \<Rightarrow> state e \<noteq> Starting
     | Some e' \<Rightarrow> (state e' = Starting) = (state e = Starting) \<and> run_lease e' = run_lease e
         \<and> residency e' = residency e \<and> startup e' = startup e"
  shows "starting_at (m(p := x)) = starting_at m"
  using assms by (auto simp: starting_upd fun_eq_iff starting_at_def split: option.splits)

lemma pending_append: "stops S' = stops S @ xs \<Longrightarrow> pending S c \<Longrightarrow> pending S' c"
  by (simp add: pending_def nth_append)

lemma spares_put:
  assumes "entries S p = Some e" and "entries S' = (entries S)(p \<mapsto> e')" and "stops S' = stops S @ xs"
    and "state e = Stopping \<Longrightarrow> state e' = Stopping \<and> stop e' = stop e \<and> host e' = host e"
  shows "spares S S'"
  using assms pending_append [OF assms(3)]
  by (auto simp: spares_def stopping_by_def stopping_at_def split: option.splits)

text \<open>A mark on an entry, whatever it says about retirement.\<close>

lemma mark_effect:
  assumes ok: "fleet_ok S" and e: "entries S p = Some e"
  shows "effect S (put_entry p (e\<lparr>retire_after_run := True\<rparr>) S) []"
proof -
  let ?S = "put_entry p (e\<lparr>retire_after_run := True\<rparr>) S"
  have "spares S ?S" by (rule spares_put [where e = e and e' = "e\<lparr>retire_after_run := True\<rparr>" and xs = "[]"]) (use e in simp_all)
  moreover have "starting_at ((entries S)(p \<mapsto> e\<lparr>retire_after_run := True\<rparr>)) = starting_at (entries S)"
    by (rule starting_same [where m = "entries S" and p = p, OF e]) simp
  moreover have "tame (entries S) (entries ?S)"
    using e by (auto intro!: tame_upd simp: quiet_def)
  ultimately show ?thesis using mark_retire [OF ok e] by (simp add: effect_def)
qed

lemma begin_stop_sels [simp]:
  "entries (begin_stop p e S) = (entries S)(p \<mapsto> e\<lparr>idle_since := None, state := Stopping, stop := Some (length (stops S))\<rparr>)"
  "stops (begin_stop p e S) = stops S @ [None]" "deleting_camps (begin_stop p e S) = deleting_camps S"
  "shutdown_started (begin_stop p e S) = shutdown_started S"
  by (simp_all add: begin_stop_def entries_def update_conv')

text \<open>A process that is told to stop was not stopping, or its last stop has been answered.\<close>

lemma begin_stop_effect:
  assumes ok: "fleet_ok S" and e: "entries S p = Some e" and st: "state e \<noteq> Starting" and h: "host e = Some h"
    and idle: "state e = Stopping \<Longrightarrow> (case stop e of None \<Rightarrow> True | Some c \<Rightarrow> \<not> pending S c)"
  shows "effect S (begin_stop p e S)
    [\<lparr>launch_process_id = p, launch_host = h, launch_completion = length (stops S)\<rparr>]"
proof -
  let ?S = "begin_stop p e S"
  have "stopping_by ?S l" if "stopping_by S l" for l
  proof -
    have "launch_process_id l \<noteq> p"
      using that e idle by (auto simp: stopping_by_def stopping_at_def split: option.splits)
    moreover have "pending ?S (launch_completion l)"
      using that by (auto simp: stopping_by_def intro: pending_append [where S = S])
    ultimately show ?thesis using that by (simp add: stopping_by_def stopping_upd)
  qed
  then have "spares S ?S" by (simp add: spares_def)
  moreover have "starting_at (entries ?S) = starting_at (entries S)"
    using starting_same [where m = "entries S" and p = p, OF e] st by simp
  moreover have "tame (entries S) (entries ?S)" using e by (auto intro!: tame_upd simp: quiet_def)
  moreover have "fleet_ok ?S" using begin_stop_ok [OF ok e st] h by simp
  ultimately show ?thesis
    using h by (simp add: effect_def fresh_launches_def stopping_by_def stopping_upd pending_def nth_append)
qed

fun plan_launches :: "FleetStopPlan \<Rightarrow> FleetStopLaunch list" where
  "plan_launches (PlanLaunch l) = [l]"
| "plan_launches PlanAbsent = []"
| "plan_launches (PlanStarting c) = []"
| "plan_launches (PlanWait c) = []"

lemma cancel_startup_sels [simp]:
  "entries (cancel_startup c S) = entries S" "stops (cancel_startup c S) = stops S"
  "deleting_camps (cancel_startup c S) = deleting_camps S" "shutdown_started (cancel_startup c S) = shutdown_started S"
  by (simp_all add: cancel_startup_def entries_def)

lemma stopping_by_cong: "entries T = entries S \<Longrightarrow> stops T = stops S \<Longrightarrow> stopping_by T = stopping_by S"
  by (rule ext) (simp add: stopping_by_def pending_def)

lemma same_effect:
  assumes "effect S T ls" and "entries U = entries T" and "stops U = stops T" and "fleet_ok U"
    and "deleting_camps U = deleting_camps T" and "shutdown_started U = shutdown_started T"
  shows "effect S U ls"
  using assms stopping_by_cong [OF assms(2,3)] by (simp add: effect_def spares_def fresh_launches_def)

lemma plan_stop_cases:
  assumes ok: "fleet_ok S" and plan: "plan_stop p S = (S', r)"
  obtains (Absent) "entries S p = None" "S' = S" "r = PlanAbsent"
  | (Starting) e c where "entries S p = Some e" "state e = Starting" "startup e = Some c"
      "S' = cancel_startup c (put_entry p (e\<lparr>retire_after_run := True\<rparr>) S)" "r = PlanStarting c"
  | (Wait) e c where "entries S p = Some e" "state e = Stopping" "stop e = Some c" "stops S ! c = None"
      "S' = S" "r = PlanWait c"
  | (Launch) e h where "entries S p = Some e" "state e \<noteq> Starting" "host e = Some h"
      "state e = Stopping \<Longrightarrow> (case stop e of None \<Rightarrow> True | Some c \<Rightarrow> stops S ! c \<noteq> None)"
      "S' = begin_stop p e S"
      "r = PlanLaunch \<lparr>launch_process_id = p, launch_host = h, launch_completion = length (stops S)\<rparr>"
proof (cases "entries S p")
  case None
  with plan show ?thesis by (intro Absent) (auto simp: plan_stop_def views)
next
  case (Some e)
  from entry_okD [OF ok Some] have shape: "shape_ok (state e) e" by (simp add: entry_ok_def)
  show ?thesis
  proof (cases "state e = Starting")
    case True
    with shape obtain c where "startup e = Some c" by auto
    with True Some plan show ?thesis by (intro Starting) (auto simp: plan_stop_def views Let_def)
  next
    case st: False
    with shape obtain h where h: "host e = Some h" by (cases "state e") auto
    show ?thesis
    proof (cases "state e = Stopping \<and> (case stop e of None \<Rightarrow> False | Some c \<Rightarrow> stops S ! c = None)")
      case True
      then obtain c where "state e = Stopping" "stop e = Some c" "stops S ! c = None"
        by (auto split: option.splits)
      with Some plan show ?thesis by (intro Wait) (auto simp: plan_stop_def views)
    next
      case False
      with Some st h plan show ?thesis
        by (intro Launch) (auto simp: plan_stop_def views split: option.splits if_splits)
    qed
  qed
qed

lemma plan_stop_effect:
  assumes ok: "fleet_ok S" and plan: "plan_stop p S = (S', r)"
  shows "effect S S' (plan_launches r)"
  using ok plan
proof (cases rule: plan_stop_cases)
  case Absent
  with ok show ?thesis by (simp add: effect_refl)
next
  case (Starting e c)
  note marked = mark_effect [OF ok Starting(1)]
  show ?thesis
    unfolding Starting(4,5) plan_launches.simps
    by (rule same_effect [OF marked]) (simp_all add: fleet_ok_ops effect_ok [OF marked])
next
  case (Wait e c)
  with ok show ?thesis by (simp add: effect_refl)
next
  case (Launch e h)
  show ?thesis unfolding Launch(5,6) plan_launches.simps
    by (rule begin_stop_effect) (use ok Launch(1-4) in \<open>auto simp: pending_def split: option.splits\<close>)
qed

lemma plan_stop_quiet:
  assumes "fleet_ok S" and "plan_stop p S = (S', r)" and "entries S' p = Some e'"
  shows "quiet e'"
  using assms(1,2) by (cases rule: plan_stop_cases) (use assms(3) in \<open>auto simp: quiet_def\<close>)

section \<open>Stretches over many processes\<close>

lemma plan_stops_effect: "fleet_ok S \<Longrightarrow> plan_stops ps S = (S', rs) \<Longrightarrow> effect S S' (concat (map plan_launches rs))"
proof (induction ps arbitrary: S S' rs)
  case Nil
  then show ?case by (simp add: effect_refl)
next
  case (Cons p ps)
  from Cons.prems(2) obtain T r qs where first: "plan_stop p S = (T, r)" and rest: "plan_stops ps T = (S', qs)"
    and rs: "rs = r # qs" by (auto split: prod.splits)
  from plan_stop_effect [OF Cons.prems(1) first] show ?case
    unfolding rs by (auto intro: effect_trans dest: Cons.IH [OF _ rest])
qed

lemma tame_quiet: "tame m m' \<Longrightarrow> m' p = Some e' \<Longrightarrow> (\<And>e. m p = Some e \<Longrightarrow> quiet e) \<Longrightarrow> quiet e'"
  using tameD [of m m' p] by (cases "m p") auto

lemma plan_stops_quiet:
  "fleet_ok S \<Longrightarrow> plan_stops ps S = (S', rs) \<Longrightarrow> p \<in> set ps \<Longrightarrow> entries S' p = Some e' \<Longrightarrow> quiet e'"
proof (induction ps arbitrary: S S' rs)
  case Nil
  then show ?case by simp
next
  case (Cons q ps)
  from Cons.prems(2) obtain T r qs where first: "plan_stop q S = (T, r)" and rest: "plan_stops ps T = (S', qs)"
    by (auto split: prod.splits)
  have ok: "fleet_ok T" using plan_stop_effect [OF Cons.prems(1) first] by (rule effect_ok)
  show ?case
  proof (cases "p \<in> set ps")
    case True
    from Cons.IH [OF ok rest this Cons.prems(4)] show ?thesis .
  next
    case False
    with Cons.prems(3) have "p = q" by simp
    with plan_stop_quiet [OF Cons.prems(1) first] have "entries T p = Some e \<Longrightarrow> quiet e" for e by blast
    moreover have "tame (entries T) (entries S')" using plan_stops_effect [OF ok rest] by (simp add: effect_def)
    ultimately show ?thesis using Cons.prems(4) by (blast intro: tame_quiet)
  qed
qed

lemma invalidate_all_effect:
  "fleet_ok S \<Longrightarrow> invalidate_all xs S = (S', rs) \<Longrightarrow> effect S S' (concat (map plan_launches rs))"
proof (induction xs arbitrary: S S' rs rule: list.induct)
  case Nil
  then show ?case by (simp add: effect_refl)
next
  case (Cons x xs)
  obtain p st where x: "x = (p, st)" by (cases x)
  show ?case
  proof (cases "at_rest st")
    case True
    with Cons.prems(2) obtain T r qs where first: "plan_stop p S = (T, r)" and rest: "invalidate_all xs T = (S', qs)"
      and rs: "rs = r # qs" by (auto simp: x split: prod.splits)
    from plan_stop_effect [OF Cons.prems(1) first] show ?thesis
      unfolding rs by (auto intro: effect_trans dest: Cons.IH [OF _ rest])
  next
    case busy: False
    show ?thesis
    proof (cases "entries S p")
      case None
      with busy Cons show ?thesis by (simp add: x views)
    next
      case (Some e)
      let ?T = "put_entry p (e\<lparr>retire_after_run := True\<rparr>) S"
      from Some busy Cons.prems(2) have rest: "invalidate_all xs ?T = (S', rs)" by (simp add: x views)
      from effect_trans [OF mark_effect [OF Cons.prems(1) Some] Cons.IH [OF _ rest]]
      show ?thesis by simp
    qed
  qed
qed

lemma retire_busy_effect:
  assumes ok: "fleet_ok S" and e: "entries S p = Some e" and plan: "retire_busy p e S = (S', c)"
  shows "effect S S' []"
proof (cases "retirement e")
  case (Some d)
  with plan mark_effect [OF ok e] show ?thesis by (simp add: retire_busy_def)
next
  case None
  let ?e = "e\<lparr>retire_after_run := True, retirement := Some (length (stops S))\<rparr>"
  have S': "entries S' = (entries S)(p \<mapsto> ?e)" "stops S' = stops S @ [None]"
    "deleting_camps S' = deleting_camps S" "shutdown_started S' = shutdown_started S"
    using None plan by (auto simp: retire_busy_def entries_def update_conv')
  have "spares S S'" by (rule spares_put [OF e S'(1,2)]) simp
  moreover have "starting_at (entries S') = starting_at (entries S)"
    unfolding S' by (rule starting_same [where m = "entries S" and p = p, OF e]) simp
  moreover have "tame (entries S) (entries S')" unfolding S' using e by (auto intro!: tame_upd simp: quiet_def)
  moreover have "fleet_ok S'" using retire_busy_ok [OF ok e] plan by simp
  ultimately show ?thesis by (simp add: effect_def S')
qed

lemma retire_all_effect:
  "fleet_ok S \<Longrightarrow> retire_all xs S = (S', rs, ws) \<Longrightarrow> effect S S' (concat (map plan_launches rs))"
proof (induction xs arbitrary: S S' rs ws rule: list.induct)
  case Nil
  then show ?case by (simp add: effect_refl)
next
  case (Cons x xs)
  obtain p st where x: "x = (p, st)" by (cases x)
  show ?case
  proof (cases "at_rest st")
    case True
    with Cons.prems(2) obtain T r qs vs where first: "plan_stop p S = (T, r)"
      and rest: "retire_all xs T = (S', qs, vs)" and rs: "rs = r # qs" by (auto simp: x split: prod.splits)
    from plan_stop_effect [OF Cons.prems(1) first] show ?thesis
      unfolding rs by (auto intro: effect_trans dest: Cons.IH [OF _ rest])
  next
    case busy: False
    show ?thesis
    proof (cases "entries S p")
      case None
      with busy Cons show ?thesis by (simp add: x views)
    next
      case (Some e)
      with busy Cons.prems(2) obtain T c vs where first: "retire_busy p e S = (T, c)"
        and rest: "retire_all xs T = (S', rs, vs)" by (auto simp: x views split: prod.splits)
      from effect_trans [OF retire_busy_effect [OF Cons.prems(1) Some first] Cons.IH [OF _ rest]]
      show ?thesis by simp
    qed
  qed
qed

section \<open>Releasing\<close>

fun release_launches :: "ReleasePlan \<Rightarrow> FleetStopLaunch list" where
  "release_launches (ReleaseStop r) = plan_launches r"
| "release_launches (ReleaseReturn x) = []"
| "release_launches (CheckReusable p h) = []"

lemma release_plan_effect:
  assumes "fleet_ok S" and "release_plan env key d S = (S', r)"
  shows "effect S S' (release_launches r)"
  using assms plan_stop_effect [OF assms(1)]
  by (auto simp: release_plan_def effect_refl split: option.splits prod.splits)

lemma make_idle_sels [simp]:
  "entries (make_idle now key p e S) = (entries S)(p \<mapsto> e\<lparr>run_lease := None, state := IdleWarm, idle_since := Some now,
     last_used_sequence := saturating_add (next_sequence S) 1\<rparr>)"
  "stops (make_idle now key p e S) = stops S" "deleting_camps (make_idle now key p e S) = deleting_camps S"
  "shutdown_started (make_idle now key p e S) = shutdown_started S"
  by (simp_all add: make_idle_def Let_def advance_sequence_def entries_def update_conv')

lemma make_idle_effect:
  assumes ok: "fleet_ok S" and e: "entries S p = Some e" and now: "reusable_now env key h e"
  shows "effect S (make_idle now key p e S) []"
proof -
  from now have st: "state e = BusyResident \<or> state e = BusyBurst" by (auto simp: reusable_now_def)
  have "spares S (make_idle now key p e S)"
    by (rule spares_put [OF e make_idle_sels(1)]) (use st in auto)
  moreover have "starting_at (entries (make_idle now key p e S)) = starting_at (entries S)"
    unfolding make_idle_sels by (rule starting_upd [THEN trans]) (use e st in \<open>auto simp: starting_at_def fun_eq_iff\<close>)
  moreover have "tame (entries S) (entries (make_idle now key p e S))"
    unfolding make_idle_sels using e st by (auto intro!: tame_upd simp: quiet_def)
  ultimately show ?thesis using make_idle_ok [OF ok e now] by (simp add: effect_def)
qed

lemma release_finish_effect:
  assumes "fleet_ok S" and "release_finish env q now key p h S = (S', r)"
  shows "effect S S' (release_launches r)"
  using assms plan_stop_effect [OF assms(1)] make_idle_effect [OF assms(1)]
  by (auto simp: release_finish_def views effect_refl split: option.splits prod.splits if_splits)

lemma stop_run_plan_effect:
  assumes ok: "fleet_ok S" and plan: "stop_run_plan key b S = (S', r)"
  shows "effect S S' (release_launches r)"
proof (cases "map_of (process_by_run S) key")
  case None
  with assms show ?thesis by (auto simp: stop_run_plan_def effect_refl)
next
  case (Some p)
  show ?thesis
  proof (cases "entries S p")
    case None
    with Some plan plan_stop_effect [OF ok] show ?thesis
      by (auto simp: stop_run_plan_def views split: prod.splits)
  next
    case e: (Some e)
    let ?T = "put_entry p (e\<lparr>retire_after_run := True\<rparr>) S"
    from Some e plan obtain r' where "plan_stop p ?T = (S', r')" and r: "r = ReleaseStop r'"
      by (auto simp: stop_run_plan_def views split: prod.splits)
    then have "fleet_ok ?T \<Longrightarrow> effect ?T S' (plan_launches r')" by (simp add: plan_stop_effect)
    from effect_trans [OF mark_effect [OF ok e] this] r show ?thesis by simp
  qed
qed

lemma retire_agent_run_on_host_effect:
  assumes "fleet_ok S" and "retire_agent_run_on_host env run epoch h S = (S', b)"
  shows "effect S S' []"
  using assms mark_effect [OF assms(1)]
  by (auto simp: retire_agent_run_on_host_def views effect_refl split: option.splits if_splits)

section \<open>Acquiring\<close>

lemma find_idle_Some:
  assumes "find_idle S P = Some p"
  obtains e where "entries S p = Some e" "state e = IdleWarm" "P e"
  using find_map_Some [OF assms [unfolded find_idle_def]] that
  by (auto simp: views split: option.splits if_splits)

lemma compatible_idle_Some:
  assumes "compatible_idle env S req = Some p"
  obtains e b where "entries S p = Some e" "state e = IdleWarm" "reusable_for env req b e"
proof -
  from find_map_Some [OF assms [unfolded compatible_idle_def]] obtain b
    where "find_idle S (reusable_for env req b) = Some p" by blast
  then show ?thesis by (rule find_idle_Some) (rule that)
qed

fun optional_list :: "'a option \<Rightarrow> 'a list" where
  "optional_list None = []"
| "optional_list (Some x) = [x]"

lemma reserve_idle_eviction_cases:
  assumes ok: "fleet_ok S" and plan: "reserve_idle_eviction env p S = (S', l)"
  obtains (Nothing) "S' = S" "l = None"
  | (Evict) e h where "entries S p = Some e" "state e = IdleWarm" "\<not> entry_background env e" "host e = Some h"
      "S' = begin_stop p e (drop_resident (bucket e) p (S\<lparr>idle_lru := lru_remove (last_used_sequence e, p) (idle_lru S)\<rparr>))"
      "l = Some \<lparr>launch_process_id = p, launch_host = h, launch_completion = length (stops S)\<rparr>"
proof (cases "case entries S p of None \<Rightarrow> True | Some e \<Rightarrow> state e \<noteq> IdleWarm \<or> entry_background env e")
  case True
  with plan show ?thesis
    by (intro Nothing) (auto simp: reserve_idle_eviction_def views split: option.splits)
next
  case False
  then obtain e where e: "entries S p = Some e" and idle: "state e = IdleWarm" "\<not> entry_background env e"
    by (auto split: option.splits)
  from entry_okD [OF ok e] idle obtain h where "host e = Some h" by (auto simp: entry_ok_def)
  with e idle plan show ?thesis
    by (intro Evict [of e h]) (auto simp: reserve_idle_eviction_def views bucket_def)
qed

lemma reserve_idle_eviction_effect:
  assumes ok: "fleet_ok S" and plan: "reserve_idle_eviction env p S = (S', l)"
  shows "effect S S' (optional_list l)"
  using ok plan
proof (cases rule: reserve_idle_eviction_cases)
  case Nothing
  with ok show ?thesis by (simp add: effect_refl)
next
  case (Evict e h)
  let ?T = "begin_stop p e S"
  have "effect S ?T [\<lparr>launch_process_id = p, launch_host = h, launch_completion = length (stops S)\<rparr>]"
    by (rule begin_stop_effect) (use ok Evict(1-4) in simp_all)
  then show ?thesis unfolding Evict(6) optional_list.simps
    by (rule same_effect)
      (use reserve_idle_eviction_ok [OF ok, of env p] plan in
        \<open>simp_all add: Evict(5) drop_resident_def entries_def begin_stop_def put_entry_def\<close>)
qed

lemma admit_residency_cases:
  assumes "admit_residency env cfg b S = (S', r, l)"
  obtains (Room) "S' = S" "l = None" "has_resident_capacity S cfg b \<and> r = Resident \<or> r = Burst"
  | (Evicted) p where "\<not> has_resident_capacity S cfg b" "reserve_idle_eviction env p S = (S', l)" "l \<noteq> None" "r = Resident"
      "oldest_idle_for_bucket env S b = Some p
       \<or> resident_count_for_bucket S b < max_resident_processes_per_member cfg
         \<and> oldest_idle_for_bucket env S b = None \<and> oldest_idle_global env S = Some p"
  | (Failed) p where "reserve_idle_eviction env p S = (S', None)" "l = None" "r = Burst"
  using assms by (auto simp: admit_residency_def split: if_splits option.splits prod.splits)

lemma admit_residency_effect:
  assumes ok: "fleet_ok S" and plan: "admit_residency env cfg b S = (S', r, l)"
  shows "effect S S' (optional_list l)"
  using plan by (cases rule: admit_residency_cases)
    (use ok in \<open>auto simp: effect_refl dest: reserve_idle_eviction_effect\<close>)

definition camp_closed :: "FleetState \<Rightarrow> RuntimeCompatibilityKey \<Rightarrow> bool" where
  "camp_closed S k = (case invalidation_camp_id k of None \<Rightarrow> False | Some c \<Rightarrow> c \<in> deleting_camps S)"

lemma plan_acquire_cases:
  assumes ok: "fleet_ok S" and plan: "plan_acquire env cfg req rid S = (S', r)"
  obtains (Blocked) message where "S' = S" "r = Blocked message"
  | (Held) p e where "S' = S" "runs S (request_run_lease req) = Some p" "entries S p = Some e"
      "r = plan_held S p e" "\<not> shutdown_started S" "\<not> camp_closed S (request_compatibility req)"
  | (Reused) p e h b where "\<not> shutdown_started S" "\<not> camp_closed S (request_compatibility req)"
      "runs S (request_run_lease req) = None" "\<not> hermes_owned S req" "\<not> codex_unconfirmed S req"
      "entries S p = Some e" "state e = IdleWarm" "reusable_for env req b e" "host e = Some h"
      "S' = reuse_idle req p e S" "r = Ready \<lparr>lease_process_id = p, lease_host = h, lease_residency = residency e\<rparr>"
  | (Spawned) T res l where "\<not> shutdown_started S" "\<not> camp_closed S (request_compatibility req)"
      "runs S (request_run_lease req) = None" "\<not> hermes_owned S req" "\<not> codex_unconfirmed S req"
      "compatible_idle env S req = None"
      "admit_residency env cfg (residency_bucket (request_compatibility req)) S = (T, res, l)"
      "S' = reserve_start req rid res T" "r = Spawn rid (request_run_lease req) res (length (startups T)) l"
proof -
  consider (shut) "shutdown_started S" | (camp) "camp_closed S (request_compatibility req)"
    | (lease) p where "\<not> shutdown_started S" "\<not> camp_closed S (request_compatibility req)" "runs S (request_run_lease req) = Some p"
    | (hermes) "\<not> shutdown_started S" "\<not> camp_closed S (request_compatibility req)" "runs S (request_run_lease req) = None"
        "hermes_owned S req \<or> codex_unconfirmed S req"
    | (clear) "\<not> shutdown_started S" "\<not> camp_closed S (request_compatibility req)" "runs S (request_run_lease req) = None"
        "\<not> hermes_owned S req" "\<not> codex_unconfirmed S req"
    by blast
  then show ?thesis
  proof cases
    case shut
    with plan show ?thesis by (intro Blocked) (auto simp: plan_acquire_def)
  next
    case camp
    with plan show ?thesis
      by (intro Blocked [of "if shutdown_started S then ''Runtime Fleet is shutting down'' else ''Camp deletion is in progress''"])
        (auto simp: plan_acquire_def camp_closed_def split: option.splits if_splits)
  next
    case (lease p)
    then have "holds (entries S) (request_run_lease req) p" using ok by (simp add: fleet_ok_def leases_ok_def)
    then obtain e where "entries S p = Some e" by (auto simp: holds_def split: option.splits)
    with lease plan show ?thesis
      by (intro Held [of p e]) (auto simp: plan_acquire_def camp_closed_def views split: option.splits)
  next
    case hermes
    with plan show ?thesis
      by (intro Blocked [of "if hermes_owned S req then ''Hermes native binding already has an active process owner''
          else ''Codex Native Session cleanup is not confirmed''"])
        (auto simp: plan_acquire_def camp_closed_def views split: option.splits if_splits)
  next
    case clear
    show ?thesis
    proof (cases "compatible_idle env S req")
      case None
      obtain T res l where "admit_residency env cfg (residency_bucket (request_compatibility req)) S = (T, res, l)"
        by (cases "admit_residency env cfg (residency_bucket (request_compatibility req)) S") auto
      with None clear plan show ?thesis
        by (intro Spawned [of T res l]) (auto simp: plan_acquire_def camp_closed_def views split: option.splits)
    next
      case (Some p)
      then obtain e b where e: "entries S p = Some e" "state e = IdleWarm" "reusable_for env req b e"
        by (rule compatible_idle_Some)
      with entry_okD [OF ok e(1)] obtain h where "host e = Some h" by (auto simp: entry_ok_def)
      with Some e clear plan show ?thesis
        by (intro Reused [of p e b h]) (auto simp: plan_acquire_def camp_closed_def views split: option.splits)
    qed
  qed
qed

end
