(* ===== verification/Fleet_World.thy ===== *)
theory Fleet_World
  imports Fleet_Steps
begin

text \<open>
  The fleet with the tasks that start and stop its processes, in any interleaving. A world is the
  fleet, one task for every startup under way (\<open>drive_startup\<close>) and one launch for every stop
  under way (\<open>drive_stop\<close>). The waits between the locked stretches are the steps at which
  another task may move; what a process host or the operating system answers is free in every step.
\<close>

section \<open>Tasks that end a startup or a stop\<close>

lemma pending_complete [simp]: "pending (complete_stop d b S) c = (pending S c \<and> c \<noteq> d)"
  by (cases "c = d") (auto simp: pending_def complete_stop_def)

lemma pending_retirement: "r \<noteq> Some c \<Longrightarrow> pending (complete_retirement r b S) c = pending S c"
  by (auto simp: complete_retirement_def split: option.splits)

lemma retirement_apart:
  assumes "fleet_ok S" and "stopping_by S l" and "entries S p = Some e"
  shows "retirement e \<noteq> Some (launch_completion l)"
proof -
  have "stops_at (entries S) (launch_completion l) (launch_process_id l)"
    using assms(2) by (auto simp: stopping_by_def stopping_at_def stops_at_def split: option.splits)
  then have "\<not> retires_at (entries S) (launch_completion l) p"
    using assms(1) by (auto simp: fleet_ok_def completions_ok_def)
  with assms(3) show ?thesis by (simp add: retires_at_def)
qed

lemma remove_process_spares:
  assumes ok: "fleet_ok S" and l: "stopping_by S l" and other: "launch_process_id l \<noteq> p"
  shows "stopping_by (remove_process p S) l"
proof (cases "entries S p")
  case None
  with l show ?thesis by (simp add: remove_process_absent)
next
  case (Some e)
  let ?T = "drop_resident (residency_bucket (compatibility e)) p
    (S\<lparr>processes := AList.delete p (processes S), idle_lru := lru_remove (last_used_sequence e, p) (idle_lru S),
       process_by_run := (case run_lease e of None \<Rightarrow> process_by_run S | Some r \<Rightarrow> AList.delete r (process_by_run S))\<rparr>)"
  have "remove_process p S = complete_retirement (retirement e) True ?T"
    using Some by (simp add: remove_process_def views)
  moreover have "pending ?T (launch_completion l)"
    using l by (simp add: stopping_by_def pending_def drop_resident_def)
  ultimately have "pending (remove_process p S) (launch_completion l)"
    using retirement_apart [OF ok l Some] by (simp add: pending_retirement)
  then show ?thesis using l other by (simp add: stopping_by_def remove_process_sels [OF Some] stopping_at_def)
qed

lemma stopping_by_unique:
  assumes "stopping_by S l" and "stopping_by S k" and "launch_completion l \<noteq> launch_completion k"
  shows "launch_process_id l \<noteq> launch_process_id k"
  using assms by (auto simp: stopping_by_def stopping_at_def split: option.splits)

lemma fleet_ok_reaped [simp]: "fleet_ok (S\<lparr>reaped_leases := rs\<rparr>) = fleet_ok S"
  by (rule fleet_ok_ops)

lemma entries_fields [simp]:
  "entries (S\<lparr>reaped_leases := rs\<rparr>) = entries S" "entries (S\<lparr>deleting_camps := cs\<rparr>) = entries S"
  "entries (S\<lparr>shutdown_started := b\<rparr>) = entries S" "entries (complete_stop c b S) = entries S"
  "entries (complete_retirement r b S) = entries S" "entries (complete_startup c y S) = entries S"
  "entries (make_resident x p S) = entries S"
  by (simp_all add: entries_def complete_stop_def complete_retirement_def complete_startup_def make_resident_def
    split: option.splits)

lemma restore_sels:
  "entries (restore_stopping_resident_capacity p c S) = entries S"
  "stops (restore_stopping_resident_capacity p c S) = stops S"
  "deleting_camps (restore_stopping_resident_capacity p c S) = deleting_camps S"
  "shutdown_started (restore_stopping_resident_capacity p c S) = shutdown_started S"
  by (simp_all add: restore_stopping_resident_capacity_def make_resident_def entries_def split: option.splits)

lemma complete_startup_sels [simp]:
  "stops (complete_startup c y S) = stops S" "deleting_camps (complete_startup c y S) = deleting_camps S"
  "shutdown_started (complete_startup c y S) = shutdown_started S"
  by (simp_all add: complete_startup_def)

text \<open>What a confirmed reap remembers of the lease.\<close>

definition reaped_with :: "ProcessEntry \<Rightarrow> FleetState \<Rightarrow> RunLeaseKey set" where
  "reaped_with e S =
     (if adapter_kind e = CodexCli then (case run_lease e of None \<Rightarrow> {} | Some k \<Rightarrow> {k}) \<union> reaped_leases S
      else reaped_leases S)"

lemma reaped_with_fold:
  "(if adapter_kind e = CodexCli
    then S\<lparr>reaped_leases := (case run_lease e of None \<Rightarrow> {} | Some k \<Rightarrow> {k}) \<union> reaped_leases S\<rparr> else S) =
   S\<lparr>reaped_leases := reaped_with e S\<rparr>"
  by (simp add: reaped_with_def)

text \<open>A stop task answers its own completion and leaves every other stop alone.\<close>

lemma drive_stop_effect:
  fixes reaped :: bool
  assumes ok: "fleet_ok S" and l: "stopping_by S l"
  defines "S' \<equiv> drive_stop reaped l S"
  shows "fleet_ok S'"
    "entries S' = (if reaped then (entries S)(launch_process_id l := None) else entries S)"
    "deleting_camps S' = deleting_camps S" "shutdown_started S' = shutdown_started S"
    "stops S' ! launch_completion l = Some reaped"
    "\<And>k. stopping_by S k \<Longrightarrow> launch_completion k \<noteq> launch_completion l \<Longrightarrow> stopping_by S' k"
proof -
  let ?p = "launch_process_id l" let ?c = "launch_completion l"
  from l obtain e where e: "entries S ?p = Some e" and st: "state e = Stopping" "stop e = Some ?c"
    by (auto simp: stopping_by_def stopping_at_def split: option.splits)
  have len: "?c < length (stops S)" using l by (simp add: stopping_by_def pending_def)
  let ?T = "S\<lparr>reaped_leases := reaped_with e S\<rparr>"
  have S': "S' = (if reaped then complete_stop ?c True (remove_process ?p ?T)
      else complete_stop ?c False (complete_retirement (retirement e) False (restore_stopping_resident_capacity ?p ?c S)))"
    using e st by (simp add: S'_def drive_stop_def Let_def views reaped_with_fold)
  let ?R = "restore_stopping_resident_capacity ?p ?c S"
  note R = restore_sels [of ?p ?c S]
  have C: "stops (complete_retirement (retirement e) False ?R) = stops (complete_retirement (retirement e) False S)"
    "deleting_camps (complete_retirement x b T) = deleting_camps T"
    "shutdown_started (complete_retirement x b T) = shutdown_started T"
    "length (stops (complete_retirement x b T)) = length (stops T)" for x b T
    by (simp_all add: complete_retirement_def complete_stop_def R split: option.splits)
  have e': "entries ?T ?p = Some e" using e by simp
  show "fleet_ok S'" unfolding S' by (simp add: fleet_ok_ops remove_process_ok restore_capacity_ok ok)
  show "entries S' = (if reaped then (entries S)(?p := None) else entries S)"
    unfolding S' by (simp add: R remove_process_sels [OF e'])
  show "deleting_camps S' = deleting_camps S" "shutdown_started S' = shutdown_started S"
    unfolding S' by (simp_all add: complete_stop_def C R remove_process_sels [OF e'])
  show "stops S' ! ?c = Some reaped"
    unfolding S' using len by (simp add: complete_stop_def C R remove_process_sels [OF e'])
  show "stopping_by S' k" if k: "stopping_by S k" and other: "launch_completion k \<noteq> ?c" for k
  proof (cases reaped)
    case True
    have "stopping_by ?T k" using k by (simp add: stopping_by_def pending_def)
    then have "stopping_by (remove_process ?p ?T) k"
      using stopping_by_unique [OF k l other] ok by (intro remove_process_spares) simp_all
    with True other show ?thesis by (simp add: S' stopping_by_def)
  next
    case False
    have "pending ?R (launch_completion k)" using k by (simp add: pending_def R stopping_by_def)
    with False other k retirement_apart [OF ok k e] show ?thesis
      by (simp add: S' stopping_by_def R pending_retirement)
  qed
qed

text \<open>The three ends of a startup.\<close>

lemma stopping_not_starting: "stopping_by S l \<Longrightarrow> starting_at (entries S) p \<noteq> None \<Longrightarrow> launch_process_id l \<noteq> p"
  by (auto simp: stopping_by_def stopping_at_def starting_at_def split: option.splits if_splits)

lemma starting_entry:
  assumes "starting_at m p = Some (Some run, r, Some c)"
  obtains e where "m p = Some e" "state e = Starting" "run_lease e = Some run" "residency e = r" "startup e = Some c"
  using assms that by (auto simp: starting_at_def split: option.splits if_splits)

lemma fail_start_effect:
  fixes message :: string
  assumes ok: "fleet_ok S" and start: "starting_at (entries S) rid = Some (Some run, r, Some c)"
  defines "S' \<equiv> fail_start_operation rid c message S"
  shows "fleet_ok S'" "entries S' = (entries S)(rid := None)" "deleting_camps S' = deleting_camps S"
    "shutdown_started S' = shutdown_started S" "spares S S'"
proof -
  from start obtain e where e: "entries S rid = Some e" and c: "startup e = Some c"
    by (rule starting_entry)
  let ?T = "S\<lparr>reaped_leases := reaped_with e S\<rparr>"
  have S': "S' = complete_startup c (Inl message) (remove_process rid ?T)"
    using e c by (simp add: S'_def fail_start_operation_def views reaped_with_fold)
  have e': "entries ?T rid = Some e" using e by simp
  show "fleet_ok S'" unfolding S' by (simp add: fleet_ok_ops remove_process_ok ok)
  show "entries S' = (entries S)(rid := None)" "deleting_camps S' = deleting_camps S"
    "shutdown_started S' = shutdown_started S"
    unfolding S' by (simp_all add: remove_process_sels [OF e'])
  have "stopping_by S' l" if l: "stopping_by S l" for l
  proof -
    have "stopping_by ?T l" using l by (simp add: stopping_by_def pending_def)
    then have "stopping_by (remove_process rid ?T) l"
      using stopping_not_starting [OF l] start ok by (intro remove_process_spares) simp_all
    then show ?thesis by (simp add: S' stopping_by_def pending_def)
  qed
  then show "spares S S'" by (simp add: spares_def S' remove_process_sels [OF e'])
qed

lemma commit_start_effect:
  assumes ok: "fleet_ok S" and start: "starting_at (entries S) rid = Some (Some run, r, Some c)"
    and commit: "commit_start rid run r c h S = Some S'"
  shows "fleet_ok S'" "starting_at (entries S') = (starting_at (entries S))(rid := None)"
    "tame (entries S) (entries S')" "deleting_camps S' = deleting_camps S"
    "shutdown_started S' = shutdown_started S" "spares S S'"
proof -
  from start obtain e where e: "entries S rid = Some e" and st: "state e = Starting" and r: "residency e = r"
    by (rule starting_entry)
  let ?e = "e\<lparr>host := Some h, startup := None, state := (case r of Resident \<Rightarrow> BusyResident | Burst \<Rightarrow> BusyBurst)\<rparr>"
  from commit e have S': "S' = put_entry rid ?e S" and live: "\<not> retire_after_run e"
    by (auto simp: commit_start_def views split: if_splits)
  show "fleet_ok S'" by (rule commit_start_ok [OF ok e r commit])
  show "starting_at (entries S') = (starting_at (entries S))(rid := None)"
    by (cases r) (simp_all add: S' starting_upd)
  show "tame (entries S) (entries S')"
    unfolding S' using e st live by (cases r) (auto intro!: tame_upd simp: quiet_def)
  show "deleting_camps S' = deleting_camps S" "shutdown_started S' = shutdown_started S" by (simp_all add: S')
  show "spares S S'" by (rule spares_put [where e = e and e' = ?e and xs = "[]"]) (use e st in \<open>simp_all add: S'\<close>)
qed

lemma retire_failed_start_effect:
  fixes message :: string and reaped :: bool and h :: RuntimeProcessHost
  assumes ok: "fleet_ok S" and start: "starting_at (entries S) rid = Some (Some run, r, Some c)"
  defines "S' \<equiv> retire_failed_start rid c h message reaped S"
  shows "fleet_ok S'" "starting_at (entries S') = (starting_at (entries S))(rid := None)"
    "tame (entries S) (entries S')" "deleting_camps S' = deleting_camps S"
    "shutdown_started S' = shutdown_started S" "spares S S'"
proof -
  from start obtain e where e: "entries S rid = Some e" and st: "state e = Starting" by (rule starting_entry)
  let ?e = "e\<lparr>host := Some h, startup := None, state := Stopping, retire_after_run := True\<rparr>"
  let ?P = "put_entry rid ?e S"
  let ?T = "?P\<lparr>reaped_leases := reaped_with e ?P\<rparr>"
  have S': "S' = complete_startup c (Inl message) (if reaped then remove_process rid ?T else ?P)"
    using e by (simp add: S'_def retire_failed_start_def views Let_def reaped_with_fold)
  have "entry_ok ?e" using entry_okD [OF ok e] by (simp add: entry_ok_def)
  then have "shapes_ok ((entries S)(rid \<mapsto> ?e))" by (rule shapes_upd [OF ok])
  moreover have "leases_ok ((entries S)(rid \<mapsto> ?e)) (runs S)"
    "completions_ok ((entries S)(rid \<mapsto> ?e)) (length (stops S))" "lru_ok ((entries S)(rid \<mapsto> ?e)) (idle_lru S)"
    using ok st by (simp_all add: fleet_ok_def part_same [where m = "entries S" and p = rid, OF e])
  moreover have "residents_ok ((entries S)(rid \<mapsto> ?e)) (resident_processes S) (resident_processes_by_bucket S)"
    using ok index_at(3-5) [where m = "entries S" and p = rid, OF e]
    by (auto simp: fleet_ok_def residents_ok_def bucket_def)
  ultimately have P: "fleet_ok ?P" using ok by (simp add: fleet_ok_def)
  have e': "entries ?T rid = Some ?e" by simp
  show "fleet_ok S'" unfolding S' by (simp add: fleet_ok_ops remove_process_ok P)
  have m: "entries S' = (if reaped then (entries S)(rid := None) else (entries S)(rid \<mapsto> ?e))"
    unfolding S' by (simp add: remove_process_sels [OF e'])
  show "starting_at (entries S') = (starting_at (entries S))(rid := None)" by (simp add: m starting_upd)
  show "tame (entries S) (entries S')" unfolding m using e st by (auto intro!: tame_upd simp: quiet_def)
  show "deleting_camps S' = deleting_camps S" "shutdown_started S' = shutdown_started S"
    unfolding S' by (simp_all add: remove_process_sels [OF e'])
  have one: "spares S ?P" by (rule spares_put [where e = e and e' = ?e and xs = "[]"]) (use e st in simp_all)
  have "stopping_by S' l" if l: "stopping_by S l" for l
  proof -
    have "stopping_by ?P l" using one l by (simp add: spares_def)
    then have T: "stopping_by ?T l" by (simp add: stopping_by_def pending_def)
    have "stopping_by (remove_process rid ?T) l"
      by (rule remove_process_spares [OF _ T]) (use stopping_not_starting [OF l] start P in simp_all)
    with \<open>stopping_by ?P l\<close> show ?thesis by (simp add: S' stopping_by_def pending_def)
  qed
  then show "spares S S'" by (simp add: spares_def S' remove_process_sels [OF e'])
qed

lemma reserve_start_sels:
  "entries (reserve_start req rid r S) = (entries S)(rid \<mapsto>
     \<lparr>process_id = rid, adapter_kind = request_adapter_kind req,
      compatibility = request_compatibility req, state = Starting, residency = r, host = None,
      startup = Some (length (startups S)), stop = None, run_lease = Some (request_run_lease req),
      idle_since = None, last_used_sequence = saturating_add (next_sequence S) 1, retire_after_run = False,
      retirement = None\<rparr>)"
  "stops (reserve_start req rid r S) = stops S" "deleting_camps (reserve_start req rid r S) = deleting_camps S"
  "shutdown_started (reserve_start req rid r S) = shutdown_started S"
  "runs (reserve_start req rid r S) = (runs S)(request_run_lease req \<mapsto> rid)"
  by (simp_all add: reserve_start_def Let_def advance_sequence_def insert_process_def make_resident_def
    entries_def runs_def update_conv')

lemma reserve_start_spares:
  assumes "entries S rid = None"
  shows "spares S (reserve_start req rid r S)"
  using assms
  by (auto simp: spares_def stopping_by_def reserve_start_sels pending_def stopping_at_def split: option.splits if_splits)

lemma reuse_idle_sels:
  "entries (reuse_idle req p e S) = (entries S)(p \<mapsto>
     e\<lparr>state := (if residency e = Burst then BusyBurst else BusyResident),
       run_lease := Some (request_run_lease req), idle_since := None, compatibility := request_compatibility req\<rparr>)"
  "stops (reuse_idle req p e S) = stops S" "deleting_camps (reuse_idle req p e S) = deleting_camps S"
  "shutdown_started (reuse_idle req p e S) = shutdown_started S"
  "runs (reuse_idle req p e S) = (runs S)(request_run_lease req \<mapsto> p)"
  "idle_lru (reuse_idle req p e S) = lru_remove (last_used_sequence e, p) (idle_lru S)"
  by (simp_all add: reuse_idle_def entries_def runs_def update_conv')

section \<open>The world\<close>

text \<open>
  Where a startup task stands: waiting for the eviction that makes room, starting the host, before
  its commit, ending a host that may not be used, or answering the run after the commit.
\<close>

datatype StartPhase =
  AwaitEviction nat
| Launching
| HostUp RuntimeProcessHost
| Retiring RuntimeProcessHost string
| Started RuntimeProcessHost

record StartTask =
  task_run :: RunLeaseKey
  task_residency :: FleetResidency
  task_completion :: nat
  task_phase :: StartPhase

record FleetWorld =
  fleet :: FleetState
  tasks :: "string \<Rightarrow> StartTask option"
  stopping :: "FleetStopLaunch list"

definition start_fleet :: FleetWorld where
  "start_fleet = \<lparr>fleet = empty_fleet, tasks = (\<lambda>_. None), stopping = []\<rparr>"

text \<open>The stretches that only read and mark processes and ask for stops.\<close>

inductive fleet_op :: "FleetState \<Rightarrow> FleetState \<Rightarrow> FleetStopLaunch list \<Rightarrow> bool" where
  Release: "release_plan env key d S = (S', r) \<Longrightarrow> fleet_op S S' (release_launches r)"
| ReleaseFinish: "release_finish env q now key p h S = (S', r) \<Longrightarrow> fleet_op S S' (release_launches r)"
| StopRun: "stop_run_plan key b S = (S', r) \<Longrightarrow> fleet_op S S' (release_launches r)"
| RetireRun: "retire_agent_run_on_host env run epoch h S = (S', b) \<Longrightarrow> fleet_op S S' []"
| Acknowledge: "fleet_op S (acknowledge_cleanup run epoch S) []"
| FenceAttachments: "fence_camp_for_attachment_mutation camp S = (S', Some rs) \<Longrightarrow>
    fleet_op S S' (concat (map plan_launches rs))"
| Invalidate: "invalidate_matching P S = (S', rs) \<Longrightarrow> fleet_op S S' (concat (map plan_launches rs))"
| RetireIncompatible: "retire_incompatible_hosts kind k S = (S', rs, ws) \<Longrightarrow>
    fleet_op S S' (concat (map plan_launches rs))"
| Sweep: "sweep_idle env cfg now S = (S', rs) \<Longrightarrow> fleet_op S S' (concat (map plan_launches rs))"

definition start_task :: "FleetAcquirePlan \<Rightarrow> StartTask option" where
  "start_task plan =
     (case plan of
        Spawn rid run r c eviction \<Rightarrow> Some \<lparr>task_run = run, task_residency = r, task_completion = c,
          task_phase = (case eviction of None \<Rightarrow> Launching | Some l \<Rightarrow> AwaitEviction (launch_completion l))\<rparr>
      | _ \<Rightarrow> None)"

definition acquire_launches :: "FleetAcquirePlan \<Rightarrow> FleetStopLaunch list" where
  "acquire_launches plan = (case plan of Spawn rid run r c eviction \<Rightarrow> optional_list eviction | _ \<Rightarrow> [])"

definition move_task :: "string \<Rightarrow> StartTask option \<Rightarrow> FleetState \<Rightarrow> FleetWorld \<Rightarrow> FleetWorld" where
  "move_task rid t S w = w\<lparr>fleet := S, tasks := (tasks w)(rid := t)\<rparr>"

inductive fleet_step :: "FleetWorld \<Rightarrow> FleetWorld \<Rightarrow> bool" where
  Operate: "fleet_op (fleet w) S' ls \<Longrightarrow> fleet_step w (w\<lparr>fleet := S', stopping := stopping w @ ls\<rparr>)"
| CutOver: "install_camp_deletion_cutover camp (fleet w) = (S', rs) \<Longrightarrow>
    fleet_step w (w\<lparr>fleet := S', stopping := stopping w @ concat (map plan_launches rs)\<rparr>)"
| ShutDown: "begin_shutdown (fleet w) = (S', ids, rs) \<Longrightarrow>
    fleet_step w (w\<lparr>fleet := S', stopping := stopping w @ concat (map plan_launches rs)\<rparr>)"
| Acquire: "plan_acquire env cfg req rid (fleet w) = (S', plan) \<Longrightarrow>
    entries (fleet w) rid = None \<Longrightarrow> tasks w rid = None \<Longrightarrow> well_formed_key (request_compatibility req) \<Longrightarrow>
    fleet_step w (w\<lparr>fleet := S', stopping := stopping w @ acquire_launches plan,
      tasks := (case start_task plan of None \<Rightarrow> tasks w | Some t \<Rightarrow> (tasks w)(rid \<mapsto> t))\<rparr>)"
| Evicted: "tasks w rid = Some t \<Longrightarrow> task_phase t = AwaitEviction c \<Longrightarrow> stops (fleet w) ! c = Some True \<Longrightarrow>
    fleet_step w (move_task rid (Some (t\<lparr>task_phase := Launching\<rparr>)) (fleet w) w)"
| Fail: "tasks w rid = Some t \<Longrightarrow>
    (case task_phase t of AwaitEviction c \<Rightarrow> stops (fleet w) ! c = Some False | Launching \<Rightarrow> True | _ \<Rightarrow> False) \<Longrightarrow>
    fleet_step w (move_task rid None (fail_start_operation rid (task_completion t) message (fleet w)) w)"
| ComeUp: "tasks w rid = Some t \<Longrightarrow> task_phase t = Launching \<Longrightarrow>
    fleet_step w (move_task rid (Some (t\<lparr>task_phase := HostUp h\<rparr>)) (fleet w) w)"
| Refuse: "tasks w rid = Some t \<Longrightarrow> task_phase t = HostUp h \<Longrightarrow>
    fleet_step w (move_task rid (Some (t\<lparr>task_phase := Retiring h message\<rparr>)) (fleet w) w)"
| Commit: "tasks w rid = Some t \<Longrightarrow> task_phase t = HostUp h \<Longrightarrow>
    commit_start rid (task_run t) (task_residency t) (task_completion t) h (fleet w) = Some S' \<Longrightarrow>
    fleet_step w (move_task rid (Some (t\<lparr>task_phase := Started h\<rparr>)) S' w)"
| Retire: "tasks w rid = Some t \<Longrightarrow> task_phase t = Retiring h message \<Longrightarrow>
    fleet_step w (move_task rid None
      (retire_failed_start rid (task_completion t) h message reaped (fleet w)) w)"
| Answer: "tasks w rid = Some t \<Longrightarrow> task_phase t = Started h \<Longrightarrow>
    fleet_step w (move_task rid None (finish_start rid (task_residency t) (task_completion t) h (fleet w)) w)"
| Stopped: "l \<in> set (stopping w) \<Longrightarrow>
    fleet_step w (w\<lparr>fleet := drive_stop reaped l (fleet w), stopping := remove1 l (stopping w)\<rparr>)"

section \<open>The invariant of the world\<close>

text \<open>The reservation a startup task still answers for.\<close>

definition reserved :: "StartTask option \<Rightarrow> (RunLeaseKey option \<times> FleetResidency \<times> nat option) option" where
  "reserved t =
     (case t of
        None \<Rightarrow> None
      | Some u \<Rightarrow> (case task_phase u of
            Started h \<Rightarrow> None
          | _ \<Rightarrow> Some (Some (task_run u), task_residency u, Some (task_completion u))))"

definition tasks_ok :: "entry_map \<Rightarrow> (string \<Rightarrow> StartTask option) \<Rightarrow> bool" where
  "tasks_ok m ts = (\<forall>p. starting_at m p = reserved (ts p))"

definition launches_ok :: "FleetState \<Rightarrow> FleetStopLaunch list \<Rightarrow> bool" where
  "launches_ok S ls = ((\<forall>l. l \<in> set ls \<longrightarrow> stopping_by S l) \<and> distinct (map launch_completion ls))"

text \<open>What a closed camp, or a fleet that shuts down, has left: processes on their way out.\<close>

definition closed_to :: "FleetState \<Rightarrow> RuntimeCompatibilityKey \<Rightarrow> bool" where
  "closed_to S k = (shutdown_started S \<or> camp_closed S k)"

definition fence_ok :: "FleetState \<Rightarrow> bool" where
  "fence_ok S = (\<forall>p e. entries S p = Some e \<longrightarrow> closed_to S (compatibility e) \<longrightarrow> quiet e)"

definition owner_at :: "entry_map \<Rightarrow> RuntimeReuseScope \<Rightarrow> string \<Rightarrow> bool" where
  "owner_at m s p =
     (case m p of
        None \<Rightarrow> False
      | Some e \<Rightarrow> adapter_kind e = HermesCli \<and> reuse_scope (compatibility e) = s \<and> active (state e))"

definition owners_ok :: "entry_map \<Rightarrow> bool" where
  "owners_ok m = (\<forall>s p q. owner_at m s p \<longrightarrow> owner_at m s q \<longrightarrow> p = q)"

definition world_ok :: "FleetWorld \<Rightarrow> bool" where
  "world_ok w =
     (fleet_ok (fleet w) \<and> tasks_ok (entries (fleet w)) (tasks w) \<and> launches_ok (fleet w) (stopping w)
      \<and> fence_ok (fleet w) \<and> owners_ok (entries (fleet w)))"

lemma start_fleet_ok: "world_ok start_fleet"
  using empty_fleet_ok
  by (simp add: world_ok_def start_fleet_def tasks_ok_def starting_at_def reserved_def launches_ok_def fence_ok_def
    owners_ok_def owner_at_def entries_def empty_fleet_def)

lemma launches_append:
  assumes "launches_ok S ls" and "spares S S'" and "fresh_launches S S' ks"
  shows "launches_ok S' (ls @ ks)"
proof -
  have "launch_completion l < length (stops S)" if "l \<in> set ls" for l
    using assms(1) that by (auto simp: launches_ok_def stopping_by_def pending_def)
  then have "launch_completion ` set ls \<inter> launch_completion ` set ks = {}"
    using assms(3) by (fastforce simp: fresh_launches_def)
  with assms show ?thesis by (auto simp: launches_ok_def fresh_launches_def spares_def)
qed

lemma owners_tame: "tame m m' \<Longrightarrow> owners_ok m \<Longrightarrow> owners_ok m'"
proof -
  assume t: "tame m m'" and ok: "owners_ok m"
  have "owner_at m s p" if "owner_at m' s p" for s p
    using tameD [OF t, of p] that by (cases "m p"; cases "m' p") (auto simp: owner_at_def)
  with ok show ?thesis unfolding owners_ok_def by blast
qed

lemma fence_tame:
  assumes "tame (entries S) (entries S')" and "deleting_camps S' = deleting_camps S"
    and "shutdown_started S' = shutdown_started S" and "fence_ok S"
  shows "fence_ok S'"
  unfolding fence_ok_def
proof (intro allI impI)
  fix p e' assume e': "entries S' p = Some e'" and closed: "closed_to S' (compatibility e')"
  then obtain e where e: "entries S p = Some e" using tameD [OF assms(1), of p] by (cases "entries S p") auto
  then have t: "tame_at (Some e) (Some e')" using tameD [OF assms(1), of p] e' by simp
  then have "closed_to S (compatibility e)"
    using closed assms(2,3) by (simp add: closed_to_def camp_closed_def split: option.splits)
  then have "quiet e" using assms(4) e unfolding fence_ok_def by metis
  with t show "quiet e'" by simp
qed

lemma fleet_op_effect: "fleet_op S S' ls \<Longrightarrow> fleet_ok S \<Longrightarrow> effect S S' ls"
proof (induction rule: fleet_op.induct)
  case (Acknowledge S run epoch)
  then show ?case
    by (rule same_effect [OF effect_refl]) (simp_all add: acknowledge_cleanup_def Acknowledge)
next
  case (FenceAttachments camp S S' rs)
  then show ?case
    by (auto simp: fence_camp_for_attachment_mutation_def plan_stops_effect split: if_splits prod.splits)
qed (simp_all add: release_plan_effect release_finish_effect stop_run_plan_effect retire_agent_run_on_host_effect
  invalidate_matching_def invalidate_all_effect retire_incompatible_hosts_def retire_all_effect sweep_idle_def
  plan_stops_effect)

lemma operate_ok:
  assumes ok: "world_ok w" and eff: "effect (fleet w) S' ls"
  shows "world_ok (w\<lparr>fleet := S', stopping := stopping w @ ls\<rparr>)"
proof -
  have "tasks_ok (entries S') (tasks w)" using ok eff by (simp add: world_ok_def tasks_ok_def effect_def)
  moreover have "launches_ok S' (stopping w @ ls)"
    using ok eff by (auto simp: world_ok_def effect_def intro: launches_append)
  moreover have "fence_ok S'" using ok eff by (auto simp: world_ok_def effect_def intro: fence_tame)
  moreover have "owners_ok (entries S')" using ok eff by (auto simp: world_ok_def effect_def intro: owners_tame)
  ultimately show ?thesis using eff by (simp add: world_ok_def effect_def)
qed

lemma closing_ok:
  assumes ok: "world_ok w" and same: "same_books (fleet w) S" "stops S = stops (fleet w)"
    and eff: "effect S S' ls" and fence: "fence_ok S'"
  shows "world_ok (w\<lparr>fleet := S', stopping := stopping w @ ls\<rparr>)"
proof -
  have m: "entries S = entries (fleet w)" using same(1) by (simp add: same_books_def entries_def)
  have "tasks_ok (entries S') (tasks w)" using ok eff by (simp add: world_ok_def tasks_ok_def effect_def m)
  moreover have "launches_ok S (stopping w)"
    using ok stopping_by_cong [OF m same(2)] by (simp add: world_ok_def launches_ok_def)
  then have "launches_ok S' (stopping w @ ls)" using eff by (auto simp: effect_def intro: launches_append)
  moreover have "owners_ok (entries S')" using ok eff by (auto simp: world_ok_def effect_def m intro: owners_tame)
  ultimately show ?thesis using eff fence by (simp add: world_ok_def effect_def)
qed

lemma matching_iff: "fleet_ok S \<Longrightarrow> p \<in> set (matching S P) \<longleftrightarrow> (case entries S p of None \<Rightarrow> False | Some e \<Rightarrow> P e)"
  by (force simp: matching_def fleet_ok_def hm_ok_map_of entries_def split: option.splits)

lemma any_entry_iff: "fleet_ok S \<Longrightarrow> any_entry S P \<longleftrightarrow> (\<exists>p e. entries S p = Some e \<and> P e)"
  by (force simp: any_entry_def list_ex_iff fleet_ok_def hm_ok_map_of entries_def)

text \<open>After the cutover of a camp, whatever is left of it is on its way out.\<close>

lemma fence_after:
  assumes ok: "fleet_ok S" and plan: "plan_stops ps S = (S', rs)"
    and all: "\<And>p e. entries S p = Some e \<Longrightarrow> closed_to S (compatibility e) \<Longrightarrow> p \<in> set ps \<or> quiet e"
  shows "fence_ok S'"
  unfolding fence_ok_def
proof (intro allI impI)
  fix p e' assume e': "entries S' p = Some e'" and closed: "closed_to S' (compatibility e')"
  note eff = plan_stops_effect [OF ok plan]
  then have t: "tame (entries S) (entries S')" by (simp add: effect_def)
  show "quiet e'"
  proof (cases "p \<in> set ps")
    case True
    with plan_stops_quiet [OF ok plan] e' show ?thesis by blast
  next
    case False
    have "quiet e" if e: "entries S p = Some e" for e
    proof -
      from tameD [OF t, of p] e e' have "compatibility e' = compatibility e" by simp
      with closed eff have "closed_to S (compatibility e)"
        by (simp add: effect_def closed_to_def camp_closed_def split: option.splits)
      with all [OF e] False show ?thesis by blast
    qed
    with t e' show ?thesis by (rule tame_quiet)
  qed
qed

lemma cut_over_ok:
  assumes ok: "world_ok w" and cut: "install_camp_deletion_cutover camp (fleet w) = (S', rs)"
  shows "world_ok (w\<lparr>fleet := S', stopping := stopping w @ concat (map plan_launches rs)\<rparr>)"
proof (rule closing_ok [OF ok])
  let ?S = "(fleet w)\<lparr>deleting_camps := insert camp (deleting_camps (fleet w))\<rparr>"
  let ?ps = "matching ?S (\<lambda>e. belongs_to_camp camp (compatibility e))"
  from ok have S: "fleet_ok ?S" by (simp add: world_ok_def fleet_ok_ops)
  from cut have plan: "plan_stops ?ps ?S = (S', rs)" by (simp add: install_camp_deletion_cutover_def Let_def)
  show "same_books (fleet w) ?S" "stops ?S = stops (fleet w)" by (simp_all add: same_books_def)
  show "effect ?S S' (concat (map plan_launches rs))" by (rule plan_stops_effect [OF S plan])
  show "fence_ok S'"
  proof (rule fence_after [OF S plan])
    fix p e assume e: "entries ?S p = Some e" and closed: "closed_to ?S (compatibility e)"
    show "p \<in> set ?ps \<or> quiet e"
    proof (cases "belongs_to_camp camp (compatibility e)")
      case True
      with matching_iff [OF S] e show ?thesis by simp
    next
      case False
      with closed have "closed_to (fleet w) (compatibility e)"
        by (auto simp: closed_to_def camp_closed_def belongs_to_camp_def split: option.splits)
      with ok e have "quiet e" unfolding world_ok_def fence_ok_def entries_fields by metis
      then show ?thesis by simp
    qed
  qed
qed

lemma shut_down_ok:
  assumes ok: "world_ok w" and cut: "begin_shutdown (fleet w) = (S', ids, rs)"
  shows "world_ok (w\<lparr>fleet := S', stopping := stopping w @ concat (map plan_launches rs)\<rparr>)"
proof (rule closing_ok [OF ok])
  let ?S = "(fleet w)\<lparr>shutdown_started := True\<rparr>"
  from ok have S: "fleet_ok ?S" by (simp add: world_ok_def fleet_ok_ops)
  from cut have plan: "plan_stops (map fst (processes ?S)) ?S = (S', rs)"
    by (auto simp: begin_shutdown_def Let_def split: prod.splits)
  show "same_books (fleet w) ?S" "stops ?S = stops (fleet w)" by (simp_all add: same_books_def)
  show "effect ?S S' (concat (map plan_launches rs))" by (rule plan_stops_effect [OF S plan])
  show "fence_ok S'"
  proof (rule fence_after [OF S plan])
    fix p e assume "entries ?S p = Some e"
    then have "(p, e) \<in> set (processes (fleet w))" by (simp add: entries_def map_of_SomeD)
    then show "p \<in> set (map fst (processes ?S)) \<or> quiet e" by force
  qed
qed

lemma move_ok:
  assumes ok: "world_ok w" and S': "fleet_ok S'"
    and start: "starting_at (entries S') = (starting_at (entries (fleet w)))(rid := reserved t)"
    and tame: "tame (entries (fleet w)) (entries S')" and keep: "deleting_camps S' = deleting_camps (fleet w)"
      "shutdown_started S' = shutdown_started (fleet w)"
    and spare: "spares (fleet w) S'"
  shows "world_ok (move_task rid t S' w)"
proof -
  have "tasks_ok (entries S') ((tasks w)(rid := t))" using ok start by (simp add: world_ok_def tasks_ok_def)
  moreover have "launches_ok S' (stopping w @ [])"
    by (rule launches_append [OF _ spare]) (use ok in \<open>simp_all add: world_ok_def\<close>)
  moreover have "fence_ok S'" by (rule fence_tame [OF tame keep]) (use ok in \<open>simp add: world_ok_def\<close>)
  moreover have "owners_ok (entries S')" by (rule owners_tame [OF tame]) (use ok in \<open>simp add: world_ok_def\<close>)
  ultimately show ?thesis using S' by (simp add: world_ok_def move_task_def)
qed

lemma task_starting: "world_ok w \<Longrightarrow> starting_at (entries (fleet w)) rid = reserved (tasks w rid)"
  by (simp add: world_ok_def tasks_ok_def)

lemma phase_ok:
  assumes ok: "world_ok w" and "reserved t = reserved (tasks w rid)"
  shows "world_ok (move_task rid t (fleet w) w)"
  by (rule move_ok [OF ok]) (use assms task_starting [OF ok, of rid] in \<open>simp_all add: world_ok_def fun_upd_idem\<close>)

lemma fence_upd:
  assumes "fence_ok S" and "entries S' = (entries S)(p \<mapsto> e)" and "\<not> closed_to S (compatibility e)"
    and "deleting_camps S' = deleting_camps S" and "shutdown_started S' = shutdown_started S"
  shows "fence_ok S'"
proof -
  have "closed_to S' = closed_to S"
    using assms(4,5) by (simp add: closed_to_def camp_closed_def fun_eq_iff split: option.splits)
  with assms(1-3) show ?thesis by (auto simp: fence_ok_def split: if_splits)
qed

lemma owners_upd:
  assumes "owners_ok m" and "adapter_kind e = HermesCli \<Longrightarrow> active (state e) \<Longrightarrow>
    (\<And>q. \<not> owner_at m (reuse_scope (compatibility e)) q)"
  shows "owners_ok (m(p \<mapsto> e))"
proof -
  have new: "owner_at (m(p \<mapsto> e)) s q = (if q = p then adapter_kind e = HermesCli
      \<and> reuse_scope (compatibility e) = s \<and> active (state e) else owner_at m s q)" for s q
    by (simp add: owner_at_def)
  show ?thesis unfolding owners_ok_def new using assms unfolding owners_ok_def by auto
qed

lemma hermes_free:
  assumes ok: "fleet_ok S" and free: "\<not> hermes_owned S req" and kind: "request_adapter_kind req = HermesCli"
  shows "\<not> owner_at (entries S) (reuse_scope (request_compatibility req)) q"
proof
  assume "owner_at (entries S) (reuse_scope (request_compatibility req)) q"
  then obtain e where e: "entries S q = Some e" "adapter_kind e = HermesCli"
    "reuse_scope (compatibility e) = reuse_scope (request_compatibility req)" "active (state e)"
    by (auto simp: owner_at_def split: option.splits)
  then have "state e \<noteq> IdleWarm" by auto
  with e free kind show False by (auto simp: hermes_owned_def any_entry_iff [OF ok])
qed

lemma admit_residency_runs: "fleet_ok S \<Longrightarrow> admit_residency env cfg b S = (T, r, l) \<Longrightarrow> runs T = runs S"
proof -
  assume ok: "fleet_ok S" and plan: "admit_residency env cfg b S = (T, r, l)"
  have "runs T = runs S" if "reserve_idle_eviction env p S = (T, k)" for p k
    using reserve_idle_eviction_cases [OF ok that]
    by cases (simp_all add: begin_stop_def drop_resident_def runs_def)
  with plan show ?thesis by (cases rule: admit_residency_cases) auto
qed

lemma reused_ok:
  assumes ok: "world_ok w" and wf: "well_formed_key (request_compatibility req)"
    and opened: "\<not> closed_to (fleet w) (request_compatibility req)"
    and free: "runs (fleet w) (request_run_lease req) = None" "\<not> hermes_owned (fleet w) req"
    and e: "entries (fleet w) p = Some e" "state e = IdleWarm" "reusable_for env req b e"
  shows "world_ok (w\<lparr>fleet := reuse_idle req p e (fleet w)\<rparr>)"
proof -
  let ?S = "reuse_idle req p e (fleet w)"
  let ?e = "e\<lparr>state := (if residency e = Burst then BusyBurst else BusyResident),
    run_lease := Some (request_run_lease req), idle_since := None, compatibility := request_compatibility req\<rparr>"
  have S: "fleet_ok (fleet w)" using ok by (simp add: world_ok_def)
  have scope: "reuse_scope (compatibility e) = reuse_scope (request_compatibility req)"
    and kind: "adapter_kind e = request_adapter_kind req"
    using e(3) by (simp_all add: reusable_for_def is_process_compatible_with_def)
  have "spares (fleet w) ?S"
    by (rule spares_put [OF e(1), where e' = ?e and xs = "[]"]) (use e in \<open>simp_all add: reuse_idle_sels\<close>)
  then have "launches_ok ?S (stopping w @ [])"
    by (intro launches_append [of "fleet w"]) (use ok in \<open>simp_all add: world_ok_def\<close>)
  moreover have "starting_at (entries ?S) = starting_at (entries (fleet w))"
    unfolding reuse_idle_sels by (rule starting_upd [THEN trans]) (use e in \<open>auto simp: starting_at_def fun_eq_iff\<close>)
  then have "tasks_ok (entries ?S) (tasks w)" using ok by (simp add: world_ok_def tasks_ok_def)
  moreover have "fence_ok ?S"
    by (rule fence_upd [where S = "fleet w" and p = p and e = ?e])
      (use ok opened in \<open>simp_all add: world_ok_def reuse_idle_sels\<close>)
  moreover have "owners_ok (entries ?S)"
    unfolding reuse_idle_sels
    by (rule owners_upd) (use ok hermes_free [OF S free(2)] kind in \<open>simp_all add: world_ok_def\<close>)
  moreover have "fleet_ok ?S" by (rule reuse_idle_ok [OF S e(1,2) free(1) wf scope])
  ultimately show ?thesis by (simp add: world_ok_def)
qed

lemma spawned_ok:
  assumes ok: "world_ok w" and wf: "well_formed_key (request_compatibility req)"
    and opened: "\<not> closed_to (fleet w) (request_compatibility req)"
    and free: "runs (fleet w) (request_run_lease req) = None" "\<not> hermes_owned (fleet w) req"
    and fresh: "entries (fleet w) rid = None" "tasks w rid = None"
    and admit: "admit_residency env cfg b (fleet w) = (T, r, l)"
    and t: "task_run t = request_run_lease req" "task_residency t = r" "task_completion t = length (startups T)"
      "task_phase t = Launching \<or> task_phase t = AwaitEviction c"
  shows "world_ok (w\<lparr>fleet := reserve_start req rid r T, stopping := stopping w @ optional_list l, tasks := (tasks w)(rid \<mapsto> t)\<rparr>)"
proof -
  let ?S = "reserve_start req rid r T"
  have S: "fleet_ok (fleet w)" using ok by (simp add: world_ok_def)
  note eff = admit_residency_effect [OF S admit]
  let ?w = "w\<lparr>fleet := T, stopping := stopping w @ optional_list l\<rparr>"
  have mid: "world_ok ?w" by (rule operate_ok [OF ok eff])
  have T: "fleet_ok T" using eff by (rule effect_ok)
  have none: "entries T rid = None"
    using eff tameD [of "entries (fleet w)" "entries T" rid] fresh(1)
    by (cases "entries T rid") (auto simp: effect_def)
  have runsT: "runs T (request_run_lease req) = None" using free(1) admit_residency_runs [OF S admit] by simp
  have "closed_to T = closed_to (fleet w)"
    using eff by (simp add: effect_def closed_to_def camp_closed_def fun_eq_iff split: option.splits)
  with opened have openT: "\<not> closed_to T (request_compatibility req)" by simp
  have "launches_ok ?S ((stopping w @ optional_list l) @ [])"
    by (rule launches_append [OF _ reserve_start_spares [OF none]]) (use mid in \<open>simp_all add: world_ok_def\<close>)
  moreover have "tasks_ok (entries ?S) ((tasks w)(rid \<mapsto> t))"
    using mid t by (auto simp: world_ok_def tasks_ok_def reserve_start_sels starting_upd reserved_def)
  moreover have "fence_ok ?S"
    by (rule fence_upd [where S = T, OF _ reserve_start_sels(1)])
      (use mid openT in \<open>simp_all add: world_ok_def reserve_start_sels\<close>)
  moreover have "owners_ok (entries ?S)"
    unfolding reserve_start_sels
  proof (rule owners_upd)
    fix q
    have sub: "owner_at (entries T) s q \<Longrightarrow> owner_at (entries (fleet w)) s q" for s
      using eff tameD [of "entries (fleet w)" "entries T" q]
      by (cases "entries T q"; cases "entries (fleet w) q") (auto simp: effect_def owner_at_def)
    show "owners_ok (entries T)" using mid by (simp add: world_ok_def)
    show "\<not> owner_at (entries T) (reuse_scope (compatibility \<lparr>process_id = rid, adapter_kind = request_adapter_kind req,
        compatibility = request_compatibility req, state = Starting, residency = r, host = None,
        startup = Some (length (startups T)), stop = None, run_lease = Some (request_run_lease req),
        idle_since = None, last_used_sequence = saturating_add (next_sequence T) 1, retire_after_run = False,
        retirement = None\<rparr>)) q" if "adapter_kind \<lparr>process_id = rid, adapter_kind = request_adapter_kind req,
        compatibility = request_compatibility req, state = Starting, residency = r, host = None,
        startup = Some (length (startups T)), stop = None, run_lease = Some (request_run_lease req),
        idle_since = None, last_used_sequence = saturating_add (next_sequence T) 1, retire_after_run = False,
        retirement = None\<rparr> = HermesCli"
      using hermes_free [OF S free(2), of q] that sub by auto
  qed
  moreover have "fleet_ok ?S" by (rule reserve_start_ok [OF T none runsT wf])
  ultimately show ?thesis by (simp add: world_ok_def)
qed

lemma acquire_ok:
  assumes ok: "world_ok w" and plan: "plan_acquire env cfg req rid (fleet w) = (S', r)"
    and fresh: "entries (fleet w) rid = None" "tasks w rid = None" and wf: "well_formed_key (request_compatibility req)"
  shows "world_ok (w\<lparr>fleet := S', stopping := stopping w @ acquire_launches r,
    tasks := (case start_task r of None \<Rightarrow> tasks w | Some t \<Rightarrow> (tasks w)(rid \<mapsto> t))\<rparr>)"
proof -
  have S: "fleet_ok (fleet w)" using ok by (simp add: world_ok_def)
  from S plan show ?thesis
  proof (cases rule: plan_acquire_cases)
    case (Blocked message)
    with ok show ?thesis by (simp add: acquire_launches_def start_task_def)
  next
    case (Held p e)
    then have "acquire_launches r = []" "start_task r = None"
      by (auto simp: plan_held_def acquire_launches_def start_task_def split: FleetProcessState.splits option.splits)
    with Held ok show ?thesis by simp
  next
    case (Reused p e h b)
    with reused_ok [OF ok wf _ Reused(3,4,6,7,8)] show ?thesis
      by (simp add: acquire_launches_def start_task_def closed_to_def)
  next
    case (Spawned T res l)
    let ?t = "\<lparr>task_run = request_run_lease req, task_residency = res, task_completion = length (startups T),
      task_phase = (case l of None \<Rightarrow> Launching | Some k \<Rightarrow> AwaitEviction (launch_completion k))\<rparr>"
    from Spawned have "\<not> closed_to (fleet w) (request_compatibility req)" by (simp add: closed_to_def)
    from spawned_ok [OF ok wf this Spawned(3,4) fresh Spawned(7), where t = ?t]
    show ?thesis using Spawned(8,9) by (cases l) (simp_all add: acquire_launches_def start_task_def)
  qed
qed

lemma remove1_key: "distinct (map f xs) \<Longrightarrow> x \<in> set xs \<Longrightarrow> k \<in> set (remove1 x xs) \<Longrightarrow> f k \<noteq> f x"
  by (auto simp: distinct_map inj_on_def distinct_remove1_removeAll)

lemma stopped_ok:
  assumes ok: "world_ok w" and l: "l \<in> set (stopping w)"
  shows "world_ok (w\<lparr>fleet := drive_stop reaped l (fleet w), stopping := remove1 l (stopping w)\<rparr>)"
proof -
  let ?S = "fleet w" let ?S' = "drive_stop reaped l ?S"
  have S: "fleet_ok ?S" and its: "stopping_by ?S l" and dist: "distinct (map launch_completion (stopping w))"
    using ok l by (auto simp: world_ok_def launches_ok_def)
  note d = drive_stop_effect [OF S its, where reaped = reaped]
  from its obtain e where e: "entries ?S (launch_process_id l) = Some e" and st: "state e = Stopping"
    by (auto simp: stopping_by_def stopping_at_def split: option.splits)
  have "launch_completion k \<noteq> launch_completion l" if "k \<in> set (remove1 l (stopping w))" for k
    using remove1_key [OF dist l that] .
  then have "launches_ok ?S' (remove1 l (stopping w))"
    using ok d(6) dist by (auto simp: world_ok_def launches_ok_def distinct_map inj_on_def
      dest!: set_remove1_subset [THEN subsetD])
  moreover have "starting_at (entries ?S') = starting_at (entries ?S)"
    using starting_same [where m = "entries ?S" and p = "launch_process_id l" and x = None, OF e] st d(2) by simp
  then have "tasks_ok (entries ?S') (tasks w)" using ok by (simp add: world_ok_def tasks_ok_def)
  moreover have t: "tame (entries ?S) (entries ?S')" unfolding d(2) by (auto intro: tame_upd)
  then have "fence_ok ?S'" by (rule fence_tame [OF _ d(3,4)]) (use ok in \<open>simp add: world_ok_def\<close>)
  moreover have "owners_ok (entries ?S')" by (rule owners_tame [OF t]) (use ok in \<open>simp add: world_ok_def\<close>)
  ultimately show ?thesis using d(1) by (simp add: world_ok_def)
qed

lemma finish_start_ok:
  assumes ok: "world_ok w" and t: "tasks w rid = Some t" "task_phase t = Started h"
  shows "world_ok (move_task rid None (finish_start rid (task_residency t) (task_completion t) h (fleet w)) w)"
proof (rule move_ok [OF ok])
  let ?S = "finish_start rid (task_residency t) (task_completion t) h (fleet w)"
  show "fleet_ok ?S" using ok by (simp add: finish_start_def fleet_ok_ops world_ok_def)
  show "spares (fleet w) ?S"
    by (simp add: finish_start_def spares_def stopping_by_def pending_def)
  show "starting_at (entries ?S) = (starting_at (entries (fleet w)))(rid := reserved None)"
    using task_starting [OF ok, of rid] t by (simp add: finish_start_def reserved_def fun_upd_idem)
qed (simp_all add: finish_start_def)

lemma fleet_step_ok: "fleet_step w w' \<Longrightarrow> world_ok w \<Longrightarrow> world_ok w'"
proof (induction rule: fleet_step.induct)
  case (Operate w S' ls)
  then have "effect (fleet w) S' ls" by (intro fleet_op_effect) (simp_all add: world_ok_def)
  with Operate.prems show ?case by (rule operate_ok)
next
  case (CutOver camp w S' rs)
  then show ?case by (rule cut_over_ok [rotated])
next
  case (ShutDown w S' ids rs)
  then show ?case by (rule shut_down_ok [rotated])
next
  case (Acquire env cfg req rid w S' plan)
  then show ?case by (simp add: acquire_ok)
next
  case (Evicted w rid t c)
  then show ?case by (intro phase_ok) (simp_all add: reserved_def)
next
  case (Fail w rid t message)
  then have "reserved (tasks w rid) = Some (Some (task_run t), task_residency t, Some (task_completion t))"
    by (auto simp: reserved_def split: StartPhase.splits)
  with task_starting [OF Fail.prems] have
    "starting_at (entries (fleet w)) rid = Some (Some (task_run t), task_residency t, Some (task_completion t))" by simp
  note f = fail_start_effect [OF _ this, where message = message]
  have S: "fleet_ok (fleet w)" using Fail.prems by (simp add: world_ok_def)
  show ?case
    by (rule move_ok [OF Fail.prems]) (use f [OF S] in \<open>auto simp: starting_upd reserved_def intro: tame_upd\<close>)
next
  case (ComeUp w rid t h)
  then show ?case by (intro phase_ok) (simp_all add: reserved_def)
next
  case (Refuse w rid t h message)
  then show ?case by (intro phase_ok) (simp_all add: reserved_def)
next
  case (Commit w rid t h S')
  then have "starting_at (entries (fleet w)) rid = Some (Some (task_run t), task_residency t, Some (task_completion t))"
    using task_starting [OF Commit.prems, of rid] by (simp add: reserved_def)
  note c = commit_start_effect [OF _ this Commit.hyps(3)]
  have S: "fleet_ok (fleet w)" using Commit.prems by (simp add: world_ok_def)
  show ?case by (rule move_ok [OF Commit.prems]) (use c [OF S] in \<open>simp_all add: reserved_def\<close>)
next
  case (Retire w rid t h message reaped)
  then have "starting_at (entries (fleet w)) rid = Some (Some (task_run t), task_residency t, Some (task_completion t))"
    using task_starting [OF Retire.prems, of rid] by (simp add: reserved_def)
  note r = retire_failed_start_effect [OF _ this, where message = message and reaped = reaped and h = h]
  have S: "fleet_ok (fleet w)" using Retire.prems by (simp add: world_ok_def)
  show ?case by (rule move_ok [OF Retire.prems]) (use r [OF S] in \<open>simp_all add: reserved_def\<close>)
next
  case (Answer w rid t h)
  then show ?case by (intro finish_start_ok)
next
  case (Stopped l w reaped)
  then show ?case by (intro stopped_ok)
qed

interpretation fleet_system: invariant_system "\<lambda>w. w = start_fleet" fleet_step world_ok
  by unfold_locales (auto simp: start_fleet_ok intro: fleet_step_ok)

abbreviation reachable_fleet :: "FleetWorld \<Rightarrow> bool" where
  "reachable_fleet w \<equiv> rtranclp fleet_step start_fleet w"

lemma reachable_ok: "reachable_fleet w \<Longrightarrow> world_ok w"
  by (rule fleet_system.inv_reachable [OF refl])

end
