(* ===== verification/Fleet_Safety.thy ===== *)
theory Fleet_Safety
  imports Fleet_World
begin

text \<open>
  The properties of the fleet in every reachable world, and a concrete history that shows their
  hypotheses hold: one process with a lease, one released with background tasks, one more to start.
\<close>

section \<open>A history of three runs\<close>

definition demo_env :: "bool \<Rightarrow> host_env" where
  "demo_env background = \<lparr>env_process_id = (\<lambda>_. ''host''), env_alive = (\<lambda>_. True), env_background = (\<lambda>_. background)\<rparr>"

definition demo_config :: AgentRuntimeFleetConfig where
  "demo_config = default_config\<lparr>max_resident_processes_per_member := 1, max_resident_processes_global := 1\<rparr>"

definition demo_request :: "string \<Rightarrow> string \<Rightarrow> FleetAcquireRequest" where
  "demo_request run camp =
     \<lparr>request_agent_run_id = run, request_execution_epoch = 1, request_adapter_kind = ZcodeApp,
      request_compatibility = member_session camp ''agent'' None ''digest''\<rparr>"

definition demo_entry :: "string \<Rightarrow> string \<Rightarrow> FleetResidency \<Rightarrow> u64 \<Rightarrow> nat \<Rightarrow> ProcessEntry" where
  "demo_entry p camp r n c =
     \<lparr>process_id = p, adapter_kind = ZcodeApp, compatibility = member_session camp ''agent'' None ''digest'',
      state = Starting, residency = r, host = None, startup = Some c, stop = None,
      run_lease = Some (RunLeaseKey p 1), idle_since = None, last_used_sequence = n,
      retire_after_run = False, retirement = None\<rparr>"

lemma small_sequence:
  "saturating_add (0 :: u64) 1 = 1" "saturating_add (1 :: u64) 1 = 2" "saturating_add (2 :: u64) 1 = 3"
  "saturating_add (3 :: u64) 1 = 4"
  by (simp_all add: saturating_add_def)

lemma acquire_new:
  assumes "plan_acquire env cfg req rid (fleet w) = (S', Spawn rid run r c None)"
    and "entries (fleet w) rid = None" "tasks w rid = None" "well_formed_key (request_compatibility req)"
  shows "fleet_step w (w\<lparr>fleet := S', tasks := (tasks w)(rid \<mapsto>
    \<lparr>task_run = run, task_residency = r, task_completion = c, task_phase = Launching\<rparr>)\<rparr>)"
  using Acquire [OF assms] by (simp add: acquire_launches_def start_task_def)

text \<open>A startup that goes well, from the reservation to the answer.\<close>

lemma start_well:
  assumes t: "tasks w rid = Some \<lparr>task_run = run, task_residency = r, task_completion = c, task_phase = Launching\<rparr>"
    and commit: "commit_start rid run r c h (fleet w) = Some S'"
  shows "rtranclp fleet_step w (w\<lparr>fleet := finish_start rid r c h S', tasks := (tasks w)(rid := None)\<rparr>)"
proof -
  let ?t = "\<lparr>task_run = run, task_residency = r, task_completion = c, task_phase = Launching\<rparr>"
  let ?u = "move_task rid (Some (?t\<lparr>task_phase := HostUp h\<rparr>)) (fleet w) w"
  let ?v = "move_task rid (Some (?t\<lparr>task_phase := Started h\<rparr>)) S' ?u"
  have "fleet_step w ?u" by (rule ComeUp [OF t]) simp
  moreover have "fleet_step ?u ?v"
    using Commit [of ?u rid "?t\<lparr>task_phase := HostUp h\<rparr>" h S'] commit by (simp add: move_task_def)
  moreover have "fleet_step ?v (w\<lparr>fleet := finish_start rid r c h S', tasks := (tasks w)(rid := None)\<rparr>)"
    using Answer [of ?v rid "?t\<lparr>task_phase := Started h\<rparr>" h] by (simp add: move_task_def)
  ultimately show ?thesis by (meson rtranclp.rtrancl_into_rtrancl rtranclp.rtrancl_refl)
qed

definition demo_fleet_1 :: FleetState where
  "demo_fleet_1 = empty_fleet
     \<lparr>processes := [(''r1'', demo_entry ''r1'' ''camp'' Resident 1 0)],
      process_by_run := [(RunLeaseKey ''r1'' 1, ''r1'')], resident_processes := {''r1''},
      resident_processes_by_bucket := (\<lambda>_. None)(''agent'' \<mapsto> {''r1''}), next_sequence := 1,
      startups := [\<lparr>startup_outcome = None, startup_cancelled = False\<rparr>]\<rparr>"

lemma demo_1:
  "plan_acquire (demo_env True) demo_config (demo_request ''r1'' ''camp'') ''r1'' empty_fleet =
     (demo_fleet_1, Spawn ''r1'' (RunLeaseKey ''r1'' 1) Resident 0 None)"
  by (simp add: plan_acquire_def empty_fleet_def demo_request_def demo_config_def member_session_def
    request_run_lease_def hermes_owned_def any_entry_def codex_unconfirmed_def compatible_idle_def find_idle_def
    admit_residency_def has_resident_capacity_def resident_count_for_bucket_def reserve_start_def Let_def
    advance_sequence_def insert_process_def put_entry_def make_resident_def bucket_insert_def small_sequence
    demo_fleet_1_def demo_entry_def)

definition demo_fleet_2 :: FleetState where
  "demo_fleet_2 = demo_fleet_1
     \<lparr>processes := [(''r1'', (demo_entry ''r1'' ''camp'' Resident 1 0)\<lparr>host := Some (AcpHost 1), startup := None, state := BusyResident\<rparr>)],
      startups := [\<lparr>startup_outcome = Some (Inr \<lparr>lease_process_id = ''r1'', lease_host = AcpHost 1, lease_residency = Resident\<rparr>),
        startup_cancelled = False\<rparr>]\<rparr>"

lemma demo_2:
  "map_option (finish_start ''r1'' Resident 0 (AcpHost 1))
     (commit_start ''r1'' (RunLeaseKey ''r1'' 1) Resident 0 (AcpHost 1) demo_fleet_1) = Some demo_fleet_2"
  by (simp add: commit_start_def demo_fleet_1_def demo_fleet_2_def demo_entry_def member_session_def empty_fleet_def
    put_entry_def finish_start_def complete_startup_def)

definition demo_fleet_3 :: FleetState where
  "demo_fleet_3 = demo_fleet_2
     \<lparr>processes := processes demo_fleet_2 @ [(''r2'', demo_entry ''r2'' ''other'' Burst 2 1)],
      process_by_run := process_by_run demo_fleet_2 @ [(RunLeaseKey ''r2'' 1, ''r2'')], next_sequence := 2,
      startups := startups demo_fleet_2 @ [\<lparr>startup_outcome = None, startup_cancelled = False\<rparr>]\<rparr>"

lemmas acquire_defs = plan_acquire_def demo_request_def demo_config_def member_session_def
    request_run_lease_def hermes_owned_def any_entry_def codex_unconfirmed_def compatible_idle_def find_idle_def
    admit_residency_def has_resident_capacity_def resident_count_for_bucket_def reserve_start_def Let_def
    advance_sequence_def insert_process_def put_entry_def make_resident_def bucket_insert_def small_sequence
    oldest_idle_for_bucket_def oldest_idle_global_def empty_fleet_def demo_entry_def

lemma demo_3:
  "plan_acquire (demo_env True) demo_config (demo_request ''r2'' ''other'') ''r2'' demo_fleet_2 =
     (demo_fleet_3, Spawn ''r2'' (RunLeaseKey ''r2'' 1) Burst 1 None)"
  by (simp add: acquire_defs demo_fleet_3_def demo_fleet_2_def demo_fleet_1_def)

definition demo_fleet_4 :: FleetState where
  "demo_fleet_4 = demo_fleet_3
     \<lparr>processes := processes demo_fleet_2 @
        [(''r2'', (demo_entry ''r2'' ''other'' Burst 2 1)\<lparr>host := Some (AcpHost 2), startup := None, state := BusyBurst\<rparr>)],
      startups := startups demo_fleet_2 @
        [\<lparr>startup_outcome = Some (Inr \<lparr>lease_process_id = ''r2'', lease_host = AcpHost 2, lease_residency = Burst\<rparr>),
        startup_cancelled = False\<rparr>]\<rparr>"

lemma demo_4:
  "map_option (finish_start ''r2'' Burst 1 (AcpHost 2))
     (commit_start ''r2'' (RunLeaseKey ''r2'' 1) Burst 1 (AcpHost 2) demo_fleet_3) = Some demo_fleet_4"
  by (simp add: commit_start_def demo_fleet_1_def demo_fleet_2_def demo_fleet_3_def demo_fleet_4_def demo_entry_def
    member_session_def empty_fleet_def put_entry_def finish_start_def complete_startup_def)

definition demo_fleet_5 :: FleetState where
  "demo_fleet_5 = demo_fleet_4
     \<lparr>processes := processes demo_fleet_2 @
        [(''r2'', (demo_entry ''r2'' ''other'' Burst 3 1)\<lparr>host := Some (AcpHost 2), startup := None, run_lease := None,
           state := IdleWarm, idle_since := Some 7\<rparr>)],
      process_by_run := [(RunLeaseKey ''r1'' 1, ''r1'')], idle_lru := [(3, ''r2'')], next_sequence := 3\<rparr>"

lemma demo_5:
  "release_finish (demo_env True) True 7 (RunLeaseKey ''r2'' 1) ''r2'' (AcpHost 2) demo_fleet_4 =
     (demo_fleet_5, ReleaseReturn OutcomeReusable)"
  by (simp add: release_finish_def reusable_now_def demo_env_def is_healthy_def make_idle_def Let_def advance_sequence_def
    small_sequence put_entry_def lru_insert_def insort_insert_key_def demo_fleet_1_def demo_fleet_2_def demo_fleet_3_def demo_fleet_4_def
    demo_fleet_5_def demo_entry_def member_session_def empty_fleet_def)

definition demo_world :: "FleetState \<Rightarrow> FleetWorld" where
  "demo_world S = \<lparr>fleet = S, tasks = (\<lambda>_. None), stopping = []\<rparr>"

lemma demo_keys: "well_formed_key (request_compatibility (demo_request run camp))"
  by (simp add: demo_request_def constructors_well_formed)

lemma demo_started:
  assumes plan: "plan_acquire env cfg (demo_request run camp) rid S = (T, Spawn rid key r c None)"
    and fresh: "entries S rid = None"
    and commit: "map_option (finish_start rid r c h) (commit_start rid key r c h T) = Some U"
  shows "rtranclp fleet_step (demo_world S) (demo_world U)"
proof -
  from commit obtain V where V: "commit_start rid key r c h T = Some V" and U: "U = finish_start rid r c h V" by auto
  let ?w = "(demo_world S)\<lparr>fleet := T, tasks := (tasks (demo_world S))(rid \<mapsto>
    \<lparr>task_run = key, task_residency = r, task_completion = c, task_phase = Launching\<rparr>)\<rparr>"
  have "fleet_step (demo_world S) ?w"
    by (rule acquire_new [OF _ _ _ demo_keys]) (use plan fresh in \<open>simp_all add: demo_world_def\<close>)
  moreover have "rtranclp fleet_step ?w (demo_world U)"
    using start_well [of ?w rid key r c h V] V U by (simp add: demo_world_def)
  ultimately show ?thesis by (rule converse_rtranclp_into_rtranclp)
qed

lemma demo_reachable_2: "reachable_fleet (demo_world demo_fleet_2)"
  using demo_started [OF demo_1 _ demo_2] by (simp add: demo_world_def start_fleet_def entries_def empty_fleet_def)

lemma demo_reachable_5: "reachable_fleet (demo_world demo_fleet_5)"
proof -
  have "rtranclp fleet_step (demo_world demo_fleet_2) (demo_world demo_fleet_4)"
    by (rule demo_started [OF demo_3 _ demo_4]) (simp add: entries_def demo_fleet_2_def demo_fleet_1_def)
  moreover have "fleet_step (demo_world demo_fleet_4) (demo_world demo_fleet_5)"
    using Operate [of "demo_world demo_fleet_4", OF ReleaseFinish, of _ _ _ _ _ _ demo_fleet_5] demo_5
    by (simp add: demo_world_def) (metis append_Nil2 release_launches.simps(2))
  ultimately show ?thesis using demo_reachable_2 by (meson rtranclp.rtrancl_into_rtrancl rtranclp_trans)
qed

definition demo_launch :: FleetStopLaunch where
  "demo_launch = \<lparr>launch_process_id = ''r2'', launch_host = AcpHost 2, launch_completion = 0\<rparr>"

definition demo_fleet_6 :: FleetState where
  "demo_fleet_6 = demo_fleet_5
     \<lparr>processes := processes demo_fleet_2 @
        [(''r2'', (demo_entry ''r2'' ''other'' Burst 3 1)\<lparr>host := Some (AcpHost 2), startup := None, run_lease := None,
           state := Stopping, idle_since := None, stop := Some 0\<rparr>), (''r3'', demo_entry ''r3'' ''third'' Resident 4 2)],
      process_by_run := [(RunLeaseKey ''r1'' 1, ''r1''), (RunLeaseKey ''r3'' 1, ''r3'')], idle_lru := [],
      resident_processes := {''r3'', ''r1''},
      resident_processes_by_bucket := (\<lambda>_. None)(''agent'' \<mapsto> {''r3'', ''r1''}), next_sequence := 4,
      startups := startups demo_fleet_5 @ [\<lparr>startup_outcome = None, startup_cancelled = False\<rparr>], stops := [None]\<rparr>"

lemma demo_6:
  "plan_acquire (demo_env False) demo_config (demo_request ''r3'' ''third'') ''r3'' demo_fleet_5 =
     (demo_fleet_6, Spawn ''r3'' (RunLeaseKey ''r3'' 1) Resident 2 (Some demo_launch))"
  by (simp add: acquire_defs demo_fleet_6_def demo_fleet_5_def demo_fleet_4_def demo_fleet_3_def demo_fleet_2_def
    demo_fleet_1_def demo_launch_def reserve_idle_eviction_def demo_env_def entry_background_def reusable_for_def
    is_process_compatible_with_def drop_resident_def bucket_remove_def begin_stop_def lru_remove_def)

definition demo_world_6 :: FleetWorld where
  "demo_world_6 =
     \<lparr>fleet = demo_fleet_6, tasks = (\<lambda>_. None)(''r3'' \<mapsto> \<lparr>task_run = RunLeaseKey ''r3'' 1, task_residency = Resident,
        task_completion = 2, task_phase = AwaitEviction 0\<rparr>), stopping = [demo_launch]\<rparr>"

lemma demo_reachable_6: "reachable_fleet demo_world_6"
proof -
  have plan: "plan_acquire (demo_env False) demo_config (demo_request ''r3'' ''third'') ''r3'' (fleet (demo_world demo_fleet_5)) =
     (demo_fleet_6, Spawn ''r3'' (RunLeaseKey ''r3'' 1) Resident 2 (Some demo_launch))"
    using demo_6 by (simp add: demo_world_def)
  have "entries (fleet (demo_world demo_fleet_5)) ''r3'' = None" "tasks (demo_world demo_fleet_5) ''r3'' = None"
    by (simp_all add: demo_world_def entries_def demo_fleet_5_def demo_fleet_2_def demo_fleet_1_def)
  from Acquire [OF plan this demo_keys] have "fleet_step (demo_world demo_fleet_5) demo_world_6"
    by (simp add: demo_world_def demo_world_6_def acquire_launches_def start_task_def demo_launch_def)
  with demo_reachable_5 show ?thesis by (rule rtranclp.rtrancl_into_rtrancl)
qed

lemmas demo_fleet_defs = demo_fleet_1_def demo_fleet_2_def demo_fleet_3_def demo_fleet_4_def demo_fleet_5_def
  demo_fleet_6_def demo_entry_def empty_fleet_def

section \<open>Leases\<close>

lemma lease_iff:
  "reachable_fleet w \<Longrightarrow> map_of (process_by_run (fleet w)) r = Some p \<longleftrightarrow> holds (entries (fleet w)) r p"
  by (drule reachable_ok) (simp add: world_ok_def fleet_ok_def leases_ok_def runs_def)

text \<open>
  C11: in every interleaving of acquisitions, startups, releases and stops, the run index and the
  processes agree: a run is recorded at a process exactly when that process carries its lease, and
  no two processes carry the lease of the same run.
\<close>

theorem lease_exclusive:
  assumes "reachable_fleet w"
  shows "(map_of (process_by_run (fleet w)) r = Some p \<longleftrightarrow>
      (case map_of (processes (fleet w)) p of None \<Rightarrow> False | Some e \<Rightarrow> run_lease e = Some r))
    \<and> \<not> (p \<noteq> q \<and> map_of (processes (fleet w)) p = Some e \<and> run_lease e = Some r
         \<and> map_of (processes (fleet w)) q = Some f \<and> run_lease f = Some r)"
proof -
  note at = lease_iff [OF assms, unfolded holds_def entries_def]
  have "p = q" if "map_of (processes (fleet w)) p = Some e" "run_lease e = Some r"
    "map_of (processes (fleet w)) q = Some f" "run_lease f = Some r"
    using at [of r p] at [of r q] that by simp
  then show ?thesis using at [of r p] by blast
qed

theorem lease_exclusive_witness:
  "map_of (process_by_run demo_fleet_6) (RunLeaseKey ''r3'' 1) = Some ''r3''
   \<and> map_option run_lease (map_of (processes demo_fleet_6) ''r1'') \<noteq> Some (Some (RunLeaseKey ''r3'' 1))"
proof -
  let ?f = "demo_entry ''r3'' ''third'' Resident 4 2"
  have "map_of (processes demo_fleet_6) ''r3'' = Some ?f" by (simp add: demo_fleet_6_def demo_fleet_2_def demo_fleet_1_def)
  moreover have "run_lease ?f = Some (RunLeaseKey ''r3'' 1)" by (simp add: demo_entry_def)
  ultimately show ?thesis
    using lease_exclusive [OF demo_reachable_6, of "RunLeaseKey ''r3'' 1" "''r3''" "''r1''" ?f]
    by (auto simp: demo_world_6_def)
qed

text \<open>
  A lease handed out at once is good. Its process carries the lease of this run, is busy and
  has the host and residency the lease names; and unless the run held it already, the process was
  idle, healthy, of the requested adapter and compatible with the requested scope and policy.
\<close>

theorem acquire_ready_sound:
  assumes w: "reachable_fleet w" and plan: "plan_acquire env cfg req rid (fleet w) = (S', Ready lease)"
  shows "(case map_of (processes S') (lease_process_id lease) of
        None \<Rightarrow> False
      | Some e \<Rightarrow> run_lease e = Some (request_run_lease req) \<and> host e = Some (lease_host lease)
          \<and> residency e = lease_residency lease \<and> state e = (if residency e = Burst then BusyBurst else BusyResident))
    \<and> (S' = fleet w \<and> map_of (process_by_run (fleet w)) (request_run_lease req) = Some (lease_process_id lease)
      \<or> (case map_of (processes (fleet w)) (lease_process_id lease) of
          None \<Rightarrow> False
        | Some e \<Rightarrow> state e = IdleWarm \<and> run_lease e = None \<and> adapter_kind e = request_adapter_kind req
            \<and> is_process_compatible_with (compatibility e) (request_compatibility req) \<and> entry_healthy env e))"
proof -
  have S: "fleet_ok (fleet w)" using reachable_ok [OF w] by (simp add: world_ok_def)
  from S plan show ?thesis
  proof (cases rule: plan_acquire_cases)
    case (Held p e)
    have "run_lease e = Some (request_run_lease req)"
      using lease_iff [OF w] Held(2,3) by (simp add: holds_def runs_def)
    moreover from entry_okD [OF S Held(3)] have "shape_ok (state e) e" by (simp add: entry_ok_def)
    ultimately show ?thesis using Held
      by (cases "state e") (auto simp: plan_held_def views split: option.splits)
  next
    case (Reused p e h b)
    from entry_okD [OF S Reused(6)] Reused(7) have "run_lease e = None" by (simp add: entry_ok_def)
    with Reused show ?thesis by (auto simp: views reuse_idle_sels reusable_for_def)
  qed auto
qed

lemma demo_ready:
  "plan_acquire (demo_env True) demo_config (demo_request ''r4'' ''other'') ''r4'' demo_fleet_5 =
     (reuse_idle (demo_request ''r4'' ''other'') ''r2'' ((demo_entry ''r2'' ''other'' Burst 3 1)\<lparr>host := Some (AcpHost 2),
        startup := None, run_lease := None, state := IdleWarm, idle_since := Some 7\<rparr>) demo_fleet_5,
      Ready \<lparr>lease_process_id = ''r2'', lease_host = AcpHost 2, lease_residency = Burst\<rparr>)"
  by (simp add: acquire_defs demo_fleet_defs demo_env_def entry_background_def reusable_for_def entry_healthy_def
    is_healthy_def is_process_compatible_with_def)

theorem acquire_ready_sound_witness:
  "(case map_of (processes (fst (plan_acquire (demo_env True) demo_config (demo_request ''r4'' ''other'') ''r4'' demo_fleet_5))) ''r2'' of
      None \<Rightarrow> False
    | Some e \<Rightarrow> run_lease e = Some (RunLeaseKey ''r4'' 1) \<and> state e = BusyBurst)"
  using acquire_ready_sound [OF demo_reachable_5, of "demo_env True" demo_config "demo_request ''r4'' ''other''" "''r4''"] demo_ready
  by (auto simp: demo_world_def request_run_lease_def demo_request_def split: option.splits)

lemma at_most_one:
  assumes "distinct (map fst xs)" and "\<And>x y. x \<in> set xs \<Longrightarrow> y \<in> set xs \<Longrightarrow> P x \<Longrightarrow> P y \<Longrightarrow> fst x = fst y"
  shows "length (filter P xs) \<le> 1"
proof (rule ccontr)
  assume "\<not> length (filter P xs) \<le> 1"
  then obtain x y zs where two: "filter P xs = x # y # zs"
    by (cases "filter P xs"; cases "tl (filter P xs)") auto
  then have "x \<in> set (filter P xs)" "y \<in> set (filter P xs)" by simp_all
  with assms(2) have "fst x = fst y" by simp
  moreover have "distinct (map fst (filter P xs))" using assms(1) by (rule distinct_map_filter)
  ultimately show False by (simp add: two)
qed

definition hermes_demo_request :: FleetAcquireRequest where
  "hermes_demo_request =
     \<lparr>request_agent_run_id = ''h1'', request_execution_epoch = 1, request_adapter_kind = HermesCli,
      request_compatibility = native_binding ''camp'' ''agent'' ''binding'' ''root''\<rparr>"

definition hermes_demo_world :: FleetWorld where
  "hermes_demo_world =
     start_fleet\<lparr>fleet := reserve_start hermes_demo_request ''h1'' Resident empty_fleet,
       tasks := (\<lambda>_. None)(''h1'' \<mapsto> \<lparr>task_run = RunLeaseKey ''h1'' 1, task_residency = Resident, task_completion = 0,
         task_phase = Launching\<rparr>)\<rparr>"

lemma hermes_demo_plan:
  "plan_acquire (demo_env False) default_config hermes_demo_request ''h1'' empty_fleet =
     (reserve_start hermes_demo_request ''h1'' Resident empty_fleet, Spawn ''h1'' (RunLeaseKey ''h1'' 1) Resident 0 None)"
  by (simp add: plan_acquire_def hermes_demo_request_def native_binding_def hermes_owned_def any_entry_def
    codex_unconfirmed_def compatible_idle_def find_idle_def admit_residency_def has_resident_capacity_def
    resident_count_for_bucket_def empty_fleet_def default_config_def DEFAULT_MAX_RESIDENT_PROCESSES_GLOBAL_def
    DEFAULT_MAX_RESIDENT_PROCESSES_PER_MEMBER_def request_run_lease_def)

lemma hermes_demo_reachable: "reachable_fleet hermes_demo_world"
proof -
  have "fleet_step start_fleet hermes_demo_world"
    using acquire_new [of "demo_env False" default_config hermes_demo_request "''h1''" start_fleet] hermes_demo_plan
    by (simp add: start_fleet_def hermes_demo_world_def entries_def empty_fleet_def)
      (simp add: hermes_demo_request_def constructors_well_formed)
  then show ?thesis by blast
qed

text \<open>
  A Hermes binding has a single active owner: of the processes of one reuse scope at most one
  is starting or busy, in every interleaving.
\<close>

theorem hermes_single_owner:
  assumes "reachable_fleet w"
  shows "length (filter (\<lambda>(p, e). adapter_kind e = HermesCli \<and> reuse_scope (compatibility e) = scope
    \<and> (state e = Starting \<or> state e = BusyResident \<or> state e = BusyBurst)) (processes (fleet w))) \<le> 1"
proof (rule at_most_one)
  note ok = reachable_ok [OF assms]
  then have hm: "hm_ok (processes (fleet w))" by (simp add: world_ok_def fleet_ok_def)
  then show "distinct (map fst (processes (fleet w)))" by (simp add: hm_ok_def)
  fix x y
  assume "x \<in> set (processes (fleet w))" "y \<in> set (processes (fleet w))"
    and "case x of (p, e) \<Rightarrow> adapter_kind e = HermesCli \<and> reuse_scope (compatibility e) = scope
      \<and> (state e = Starting \<or> state e = BusyResident \<or> state e = BusyBurst)"
    and "case y of (p, e) \<Rightarrow> adapter_kind e = HermesCli \<and> reuse_scope (compatibility e) = scope
      \<and> (state e = Starting \<or> state e = BusyResident \<or> state e = BusyBurst)"
  then have "owner_at (entries (fleet w)) scope (fst x)" "owner_at (entries (fleet w)) scope (fst y)"
    using hm by (auto simp: owner_at_def entries_def hm_ok_map_of split: option.splits)
  with ok show "fst x = fst y" unfolding world_ok_def owners_ok_def by blast
qed

theorem hermes_single_owner_witness:
  "length (filter (\<lambda>(p, e). adapter_kind e = HermesCli
     \<and> reuse_scope (compatibility e) = \<lparr>camp_id = ''camp'', agent_id = ''agent'', session_id = Some ''binding''\<rparr>
     \<and> (state e = Starting \<or> state e = BusyResident \<or> state e = BusyBurst)) (processes (fleet hermes_demo_world))) = 1"
  using hermes_single_owner [OF hermes_demo_reachable,
    of "\<lparr>camp_id = ''camp'', agent_id = ''agent'', session_id = Some ''binding''\<rparr>"]
  by (simp add: hermes_demo_world_def reserve_start_def Let_def hermes_demo_request_def native_binding_def
    advance_sequence_def insert_process_def put_entry_def make_resident_def empty_fleet_def)

section \<open>Startups and stops\<close>

text \<open>
  A process that is starting is owned by exactly the startup task that reserved it, which will
  end it: the task has the same run, residency and completion; and a task that has not committed
  finds its reservation still in place, whatever happened meanwhile.
\<close>

theorem startup_owned:
  assumes "reachable_fleet w"
  shows "(case map_of (processes (fleet w)) p of
       None \<Rightarrow> None
     | Some e \<Rightarrow> if state e = Starting then Some (run_lease e, residency e, startup e) else None) =
     (case tasks w p of
        None \<Rightarrow> None
      | Some t \<Rightarrow> (case task_phase t of
            Started h \<Rightarrow> None
          | _ \<Rightarrow> Some (Some (task_run t), task_residency t, Some (task_completion t))))"
  using task_starting [OF reachable_ok [OF assms], of p] by (simp add: starting_at_def reserved_def entries_def)

theorem startup_owned_witness: "startup (snd (processes demo_fleet_6 ! 2)) = Some 2"
  using startup_owned [OF demo_reachable_6, of "''r3''"] by (simp add: demo_world_6_def demo_fleet_defs)

text \<open>
  At most one stop of a process is under way, and it reports the truth: when its host was
  reaped the process leaves the fleet and the completion says so; when not, the process stays, with
  its lease, and the completion says that.
\<close>

theorem stop_reports_truth:
  assumes w: "reachable_fleet w" and l: "l \<in> set (stopping w)"
  shows "distinct (map launch_process_id (stopping w))
    \<and> stops (drive_stop reaped l (fleet w)) ! launch_completion l = Some reaped
    \<and> map_of (processes (drive_stop reaped l (fleet w))) (launch_process_id l) =
        (if reaped then None else map_of (processes (fleet w)) (launch_process_id l))
    \<and> map_of (processes (fleet w)) (launch_process_id l) \<noteq> None"
proof -
  have S: "fleet_ok (fleet w)" and all: "launches_ok (fleet w) (stopping w)"
    using reachable_ok [OF w] by (simp_all add: world_ok_def)
  have its: "stopping_by (fleet w) l" using all l by (simp add: launches_ok_def)
  have "launch_process_id a \<noteq> launch_process_id b"
    if "a \<in> set (stopping w)" "b \<in> set (stopping w)" "a \<noteq> b" for a b
    using all that stopping_by_unique [of "fleet w" a b] by (auto simp: launches_ok_def distinct_map inj_on_def)
  moreover have "distinct (stopping w)" using all by (simp add: launches_ok_def distinct_map)
  ultimately have "distinct (map launch_process_id (stopping w))" by (auto simp: distinct_map inj_on_def)
  moreover have "entries (fleet w) (launch_process_id l) \<noteq> None"
    using its by (auto simp: stopping_by_def stopping_at_def split: option.splits)
  ultimately show ?thesis
    using drive_stop_effect(2,5) [OF S its, where reaped = reaped] by (simp add: entries_def)
qed

theorem stop_reports_truth_witness:
  "map_of (processes (drive_stop True demo_launch demo_fleet_6)) ''r2'' = None
   \<and> map_of (processes (drive_stop False demo_launch demo_fleet_6)) ''r2'' \<noteq> None"
  using stop_reports_truth [OF demo_reachable_6, of demo_launch True] stop_reports_truth [OF demo_reachable_6, of demo_launch False]
  by (simp add: demo_world_6_def demo_launch_def)

section \<open>Closing a camp and the fleet\<close>

lemma closed_belongs: "closed_to S k \<longleftrightarrow> shutdown_started S \<or> (\<exists>camp. camp \<in> deleting_camps S \<and> belongs_to_camp camp k)"
  by (auto simp: closed_to_def camp_closed_def belongs_to_camp_def split: option.splits)

text \<open>
  C12: once the deletion of a camp has cut over, or the shutdown of the fleet has begun, every
  process concerned that is left stops or is a startup that cannot commit, in every later state;
  and no run gets a process of it.
\<close>

theorem closed_stays_closed:
  assumes w: "reachable_fleet w" and closed: "shutdown_started (fleet w) \<or> camp \<in> deleting_camps (fleet w)"
  shows "list_all (\<lambda>(p, e). \<not> (shutdown_started (fleet w) \<or> belongs_to_camp camp (compatibility e))
        \<or> state e = Stopping
        \<or> state e = Starting \<and> commit_start p run r c h (fleet w) = None) (processes (fleet w))
    \<and> (if shutdown_started (fleet w) \<or> invalidation_camp_id (request_compatibility req) = Some camp
        then fst (plan_acquire env cfg req rid (fleet w)) = fleet w
          \<and> (case snd (plan_acquire env cfg req rid (fleet w)) of Blocked message \<Rightarrow> True | _ \<Rightarrow> False)
        else True)"
proof -
  note ok = reachable_ok [OF w]
  then have hm: "hm_ok (processes (fleet w))" and fence: "fence_ok (fleet w)" by (simp_all add: world_ok_def fleet_ok_def)
  have "state e = Stopping \<or> state e = Starting \<and> commit_start p run r c h (fleet w) = None"
    if "(p, e) \<in> set (processes (fleet w))" "shutdown_started (fleet w) \<or> belongs_to_camp camp (compatibility e)" for p e
  proof -
    from that(1) hm have e: "entries (fleet w) p = Some e" by (simp add: entries_def hm_ok_map_of)
    moreover have "closed_to (fleet w) (compatibility e)" using that(2) closed by (auto simp: closed_belongs)
    ultimately have "quiet e" using fence unfolding fence_ok_def by metis
    with e show ?thesis by (auto simp: quiet_def commit_start_def views)
  qed
  moreover have "plan_acquire env cfg req rid (fleet w) = (fleet w, Blocked ''Runtime Fleet is shutting down'')
      \<or> plan_acquire env cfg req rid (fleet w) = (fleet w, Blocked ''Camp deletion is in progress'')"
    if "shutdown_started (fleet w) \<or> invalidation_camp_id (request_compatibility req) = Some camp"
    using that closed by (auto simp: plan_acquire_def)
  ultimately show ?thesis by (fastforce simp: list_all_iff)
qed

definition demo_world_7 :: FleetWorld where
  "demo_world_7 = demo_world_6\<lparr>fleet := fst (install_camp_deletion_cutover ''third'' demo_fleet_6)\<rparr>"

lemma demo_cut:
  "install_camp_deletion_cutover ''third'' demo_fleet_6 =
     (demo_fleet_6\<lparr>deleting_camps := {''third''},
        processes := AList.update ''r3'' ((demo_entry ''r3'' ''third'' Resident 4 2)\<lparr>retire_after_run := True\<rparr>) (processes demo_fleet_6),
        startups := (startups demo_fleet_6)[2 := \<lparr>startup_outcome = None, startup_cancelled = True\<rparr>]\<rparr>, [PlanStarting 2])"
  by (simp add: install_camp_deletion_cutover_def Let_def matching_def belongs_to_camp_def plan_stop_def demo_fleet_defs
    member_session_def put_entry_def cancel_startup_def)

lemma demo_reachable_7: "reachable_fleet demo_world_7"
proof -
  have "install_camp_deletion_cutover ''third'' (fleet demo_world_6) =
      (fst (install_camp_deletion_cutover ''third'' demo_fleet_6), [PlanStarting 2])"
    by (simp add: demo_world_6_def demo_cut)
  from CutOver [OF this] have "fleet_step demo_world_6 demo_world_7" by (simp add: demo_world_7_def)
  with demo_reachable_6 show ?thesis by (rule rtranclp.rtrancl_into_rtrancl)
qed

theorem closed_stays_closed_witness:
  "fst (plan_acquire (demo_env False) demo_config (demo_request ''r5'' ''third'') ''r5'' (fleet demo_world_7)) = fleet demo_world_7"
proof -
  have "shutdown_started (fleet demo_world_7) \<or> ''third'' \<in> deleting_camps (fleet demo_world_7)"
    by (simp add: demo_world_7_def demo_cut)
  from closed_stays_closed [OF demo_reachable_7 this, of "RunLeaseKey ''r3'' 1" Resident 2 "AcpHost 3" "demo_request ''r5'' ''third''"]
  show ?thesis by (simp add: demo_request_def member_session_def)
qed

text \<open>Behind the shutdown no process is added.\<close>

lemma effect_tame: "effect S S' ls \<Longrightarrow> tame (entries S) (entries S') \<and> (shutdown_started S \<longrightarrow> shutdown_started S')"
  by (simp add: effect_def)

lemma step_after_shutdown:
  assumes "fleet_step w w'" and "world_ok w" and "shutdown_started (fleet w)"
  shows "tame (entries (fleet w)) (entries (fleet w')) \<and> shutdown_started (fleet w')"
  using assms
proof (induction rule: fleet_step.induct)
  case (Operate w S' ls)
  then have "effect (fleet w) S' ls" by (intro fleet_op_effect) (simp_all add: world_ok_def)
  with Operate.prems show ?case by (simp add: effect_tame)
next
  case (CutOver camp w S' rs)
  let ?S = "(fleet w)\<lparr>deleting_camps := insert camp (deleting_camps (fleet w))\<rparr>"
  have S: "fleet_ok ?S" using CutOver.prems by (simp add: world_ok_def fleet_ok_ops)
  from CutOver.hyps have "plan_stops (matching ?S (\<lambda>e. belongs_to_camp camp (compatibility e))) ?S = (S', rs)"
    by (simp add: install_camp_deletion_cutover_def Let_def)
  from effect_tame [OF plan_stops_effect [OF S this]] CutOver.prems show ?case by simp
next
  case (ShutDown w S' ids rs)
  let ?S = "(fleet w)\<lparr>shutdown_started := True\<rparr>"
  have S: "fleet_ok ?S" using ShutDown.prems by (simp add: world_ok_def fleet_ok_ops)
  from ShutDown.hyps have "plan_stops (map fst (processes ?S)) ?S = (S', rs)"
    by (auto simp: begin_shutdown_def Let_def split: prod.splits)
  from effect_tame [OF plan_stops_effect [OF S this]] show ?case by simp
next
  case (Acquire env cfg req rid w S' plan)
  then show ?case by (auto simp: plan_acquire_def)
next
  case (Fail w rid t message)
  then have "reserved (tasks w rid) = Some (Some (task_run t), task_residency t, Some (task_completion t))"
    by (auto simp: reserved_def split: StartPhase.splits)
  with task_starting [OF Fail.prems(1)] have
    "starting_at (entries (fleet w)) rid = Some (Some (task_run t), task_residency t, Some (task_completion t))" by simp
  note f = fail_start_effect [OF _ this, where message = message]
  have S: "fleet_ok (fleet w)" using Fail.prems by (simp add: world_ok_def)
  have "tame (entries (fleet w)) (entries (fail_start_operation rid (task_completion t) message (fleet w)))"
    unfolding f(2) [OF S] by (rule tame_upd) simp
  with f(4) [OF S] Fail.prems show ?case by (simp add: move_task_def)
next
  case (Commit w rid t h S')
  then have "starting_at (entries (fleet w)) rid = Some (Some (task_run t), task_residency t, Some (task_completion t))"
    using task_starting [OF Commit.prems(1), of rid] by (simp add: reserved_def)
  from commit_start_effect [OF _ this Commit.hyps(3)] Commit.prems show ?case
    by (simp add: world_ok_def move_task_def)
next
  case (Retire w rid t h message reaped)
  then have "starting_at (entries (fleet w)) rid = Some (Some (task_run t), task_residency t, Some (task_completion t))"
    using task_starting [OF Retire.prems(1), of rid] by (simp add: reserved_def)
  from retire_failed_start_effect [OF _ this, where message = message and reaped = reaped and h = h] Retire.prems
  show ?case by (simp add: world_ok_def move_task_def)
next
  case (Stopped l w reaped)
  then have "fleet_ok (fleet w)" "stopping_by (fleet w) l" by (auto simp: world_ok_def launches_ok_def)
  note d = drive_stop_effect [OF this, where reaped = reaped]
  have "tame (entries (fleet w)) ((entries (fleet w))(launch_process_id l := None))" by (rule tame_upd) simp
  with d Stopped.prems show ?case by simp
qed (simp_all add: move_task_def finish_start_def)

lemma steps_after_shutdown:
  assumes "rtranclp fleet_step w w'" and "world_ok w" and "shutdown_started (fleet w)"
  shows "tame (entries (fleet w)) (entries (fleet w')) \<and> shutdown_started (fleet w')"
  using assms
proof (induction rule: rtranclp_induct)
  case base
  then show ?case by simp
next
  case (step v u)
  then have "world_ok v" by (blast intro: fleet_system.inv_steps)
  with step step_after_shutdown [OF step.hyps(2)] show ?case by (blast intro: tame_trans)
qed

lemma counted_shutdown:
  assumes w: "reachable_fleet w" and start: "begin_shutdown (fleet w) = (S', ids, rs)"
    and later: "rtranclp fleet_step (w\<lparr>fleet := S', stopping := stopping w @ concat (map plan_launches rs)\<rparr>) v"
    and all: "all_reaped (shutdown_outcome ids (fleet v) late past_deadline killed)"
  shows "processes (fleet v) = []"
proof -
  let ?u = "w\<lparr>fleet := S', stopping := stopping w @ concat (map plan_launches rs)\<rparr>"
  let ?S = "(fleet w)\<lparr>shutdown_started := True\<rparr>"
  have ok: "world_ok ?u" by (rule shut_down_ok [OF reachable_ok [OF w] start])
  from start have plan: "plan_stops (map fst (processes ?S)) ?S = (S', rs)" and ids: "ids = map fst (processes (fleet w))"
    by (auto simp: begin_shutdown_def Let_def split: prod.splits)
  have "fleet_ok ?S" using reachable_ok [OF w] by (simp add: world_ok_def fleet_ok_ops)
  from effect_tame [OF plan_stops_effect [OF this plan]] have t: "tame (entries (fleet w)) (entries S')" "shutdown_started S'"
    by simp_all
  from steps_after_shutdown [OF later ok] t have later: "tame (entries (fleet w)) (entries (fleet v))"
    by (auto intro: tame_trans)
  have "length (filter (\<lambda>p. entries (fleet v) p = None) ids) = length ids"
    using all by (simp add: all_reaped_def shutdown_outcome_def reaped_count_def entries_def)
  then have gone: "entries (fleet v) p = None" if "p \<in> set ids" for p
    using length_filter_less [OF that, of "\<lambda>p. entries (fleet v) p = None"] by linarith
  have "entries (fleet v) p = None" for p
  proof (cases "p \<in> set ids")
    case False
    then have "entries (fleet w) p = None" by (simp add: ids entries_def map_of_eq_None_iff)
    with tameD [OF later, of p] show ?thesis by (cases "entries (fleet v) p") auto
  qed (rule gone)
  then have "map_of (processes (fleet v)) = Map.empty" by (intro ext) (simp add: entries_def)
  then show ?thesis by simp
qed

text \<open>
  The two ways \<open>shutdown_all_until\<close> returns: it took its snapshot, and any steps followed until it counted what was
  left; or it waited for the locks, while others stepped, until the graceful deadline had passed.
\<close>

inductive shutdown_reports :: "FleetWorld \<Rightarrow> FleetWorld \<Rightarrow> RuntimeFleetShutdownOutcome \<Rightarrow> bool" where
  Counted: "begin_shutdown (fleet w) = (S', ids, rs) \<Longrightarrow>
    rtranclp fleet_step (w\<lparr>fleet := S', stopping := stopping w @ concat (map plan_launches rs)\<rparr>) v \<Longrightarrow>
    shutdown_reports w v (shutdown_outcome ids (fleet v) late past_deadline killed)"
| TimedOut: "rtranclp fleet_step w v \<Longrightarrow> shutdown_reports w v (lock_timeout_outcome records)"

inductive_cases shutdown_reportsE: "shutdown_reports w v outcome"

text \<open>
  C13: when a shutdown reports all processes reaped, and either its deadline did not pass, which is what the
  application asks for besides, or it observed any process at all, then no process is left, in any interleaving and
  by either way of returning: the observed processes were all of the fleet, and none was added since.
\<close>

theorem shutdown_complete:
  assumes "reachable_fleet w" and "shutdown_reports w v outcome" and "all_reaped outcome"
    and "deadline_expired outcome \<longrightarrow> 0 < observed_processes outcome"
  shows "processes (fleet v) = []"
proof -
  have "\<not> (all_reaped (lock_timeout_outcome records) \<and> (deadline_expired (lock_timeout_outcome records) \<longrightarrow>
      0 < observed_processes (lock_timeout_outcome records)))" for records
    unfolding lock_timeout_outcome_def all_reaped_def by simp linarith
  with assms show ?thesis by (elim shutdown_reportsE) (blast intro: counted_shutdown)+
qed

definition hermes_fleet :: FleetState where
  "hermes_fleet = fst (begin_shutdown (fleet hermes_demo_world))"

lemma hermes_entry:
  "processes (fleet hermes_demo_world) = [(''h1'', \<lparr>process_id = ''h1'', adapter_kind = HermesCli,
     compatibility = native_binding ''camp'' ''agent'' ''binding'' ''root'', state = Starting, residency = Resident,
     host = None, startup = Some 0, stop = None, run_lease = Some (RunLeaseKey ''h1'' 1), idle_since = None,
     last_used_sequence = 1, retire_after_run = False, retirement = None\<rparr>)]"
  by (simp add: hermes_demo_world_def reserve_start_def Let_def hermes_demo_request_def request_run_lease_def
    advance_sequence_def insert_process_def put_entry_def make_resident_def empty_fleet_def small_sequence)

lemma hermes_shutdown:
  "begin_shutdown (fleet hermes_demo_world) = (hermes_fleet, [''h1''], [PlanStarting 0])"
  "map fst (processes hermes_fleet) = [''h1'']"
  by (simp_all add: hermes_fleet_def begin_shutdown_def Let_def hermes_entry plan_stop_def put_entry_def cancel_startup_def)

theorem shutdown_complete_witness:
  "\<exists>v. shutdown_reports hermes_demo_world v \<lparr>observed_processes = 1, reaped_processes = 1, force_kill_signals_sent = 0,
      deadline_expired = False\<rparr> \<and> processes (fleet v) = []"
proof -
  let ?t = "\<lparr>task_run = RunLeaseKey ''h1'' 1, task_residency = Resident, task_completion = 0, task_phase = Launching\<rparr>"
  let ?u = "hermes_demo_world\<lparr>fleet := hermes_fleet, stopping := stopping hermes_demo_world @ concat (map plan_launches [PlanStarting 0])\<rparr>"
  let ?v = "move_task ''h1'' None (fail_start_operation ''h1'' (task_completion ?t) ''cancelled'' (fleet ?u)) ?u"
  have "fleet_step ?u ?v"
    by (rule Fail) (simp_all add: hermes_demo_world_def)
  then have "rtranclp fleet_step ?u ?v" by blast
  moreover have "shutdown_outcome [''h1''] (fleet ?v) False False 0 =
      \<lparr>observed_processes = 1, reaped_processes = 1, force_kill_signals_sent = 0, deadline_expired = False\<rparr>"
    by (simp add: move_task_def shutdown_outcome_def reaped_count_def fail_start_operation_def
      hermes_fleet_def begin_shutdown_def Let_def hermes_entry plan_stop_def put_entry_def cancel_startup_def
      remove_process_def complete_startup_def complete_retirement_def drop_resident_def)
  ultimately have reports: "shutdown_reports hermes_demo_world ?v
      \<lparr>observed_processes = 1, reaped_processes = 1, force_kill_signals_sent = 0, deadline_expired = False\<rparr>"
    using Counted [OF hermes_shutdown(1), of ?v False False 0] by simp
  with shutdown_complete [OF hermes_demo_reachable reports] show ?thesis by (auto simp: all_reaped_def)
qed

text \<open>
  Without owner records a shutdown that never got the locks reports all processes reaped, whatever there is: the
  report alone, without the deadline, would mean nothing.
\<close>

lemma early_timeout_claims_all:
  "shutdown_reports hermes_demo_world hermes_demo_world (lock_timeout_outcome None)
   \<and> all_reaped (lock_timeout_outcome None) \<and> processes (fleet hermes_demo_world) \<noteq> []"
  by (simp add: hermes_entry all_reaped_def lock_timeout_outcome_def) (rule TimedOut [where records = None, unfolded lock_timeout_outcome_def, simplified], simp)

section \<open>Resident capacity\<close>

lemma resident_count: "resident_count_for_bucket S b = card (members (resident_processes_by_bucket S) b)"
  by (simp add: resident_count_for_bucket_def members_def split: option.splits)

lemma residents_finite: "fleet_ok S \<Longrightarrow> finite (resident_processes S)"
  by (rule finite_subset [where B = "dom (entries S)"])
    (auto simp: fleet_ok_def residents_ok_def may_reside_def entries_def finite_dom_map_of split: option.splits)

lemma members_iff:
  "fleet_ok S \<Longrightarrow> p \<in> members (resident_processes_by_bucket S) b \<longleftrightarrow> p \<in> resident_processes S \<and> in_bucket (entries S) b p"
  by (simp add: fleet_ok_def residents_ok_def)

lemma members_finite: "fleet_ok S \<Longrightarrow> finite (members (resident_processes_by_bucket S) b)"
  by (rule finite_subset [OF _ residents_finite]) (auto simp: members_iff)

text \<open>What an eviction does to the resident processes.\<close>

lemma eviction_residents:
  assumes ok: "fleet_ok S" and plan: "reserve_idle_eviction env p S = (T, Some l)"
  obtains e where "entries S p = Some e" "state e = IdleWarm" "launch_process_id l = p"
    "resident_processes T = resident_processes S - {p}"
    "members (resident_processes_by_bucket T) = (\<lambda>b. members (resident_processes_by_bucket S) b - {p})"
proof -
  from ok plan show ?thesis
  proof (cases rule: reserve_idle_eviction_cases)
    case (Evict e h)
    have "p \<notin> members (resident_processes_by_bucket S) b" if "b \<noteq> bucket e" for b
      using members_iff [OF ok, of p b] index_at(5) [where m = "entries S" and p = p, OF Evict(1)] that by auto
    then have "members (resident_processes_by_bucket T) b = members (resident_processes_by_bucket S) b - {p}" for b
      by (auto simp: Evict(5) begin_stop_def drop_resident_def)
    moreover have "resident_processes T = resident_processes S - {p}"
      by (simp add: Evict(5) begin_stop_def drop_resident_def)
    ultimately show ?thesis using that Evict by (simp add: fun_eq_iff)
  qed simp
qed

lemma reserve_residents:
  "resident_processes (reserve_start req rid r S) = (if r = Resident then insert rid (resident_processes S) else resident_processes S)"
  "members (resident_processes_by_bucket (reserve_start req rid r S)) b =
     (if r = Resident \<and> b = residency_bucket (request_compatibility req)
      then insert rid (members (resident_processes_by_bucket S) b) else members (resident_processes_by_bucket S) b)"
  by (simp_all add: reserve_start_def Let_def advance_sequence_def insert_process_def make_resident_def put_entry_def)

lemma oldest_idle_entry:
  assumes "oldest_idle_for_bucket env S b = Some p \<or> oldest_idle_global env S = Some p"
  obtains e where "entries S p = Some e" "state e = IdleWarm" "oldest_idle_for_bucket env S b = Some p \<Longrightarrow> bucket e = b"
proof (cases "oldest_idle_for_bucket env S b = Some p")
  case True
  then show ?thesis unfolding oldest_idle_for_bucket_def
    by (rule find_idle_Some) (use that in \<open>simp add: bucket_def\<close>)
next
  case False
  with assms have "oldest_idle_global env S = Some p" by simp
  with False show ?thesis unfolding oldest_idle_global_def
    by (elim find_idle_Some) (use that in simp)
qed

text \<open>The two counts after a process was admitted as resident in the place of an idle one.\<close>

lemma evicted_counts:
  assumes ok: "fleet_ok S" and rid: "entries S rid = None" and plan: "reserve_idle_eviction env p S = (T, Some l)"
    and b: "residency_bucket (request_compatibility req) = b"
  shows "p \<in> resident_processes S \<Longrightarrow>
      card (resident_processes (reserve_start req rid Resident T)) = card (resident_processes S)"
    "p \<notin> resident_processes S \<Longrightarrow>
      card (resident_processes (reserve_start req rid Resident T)) = Suc (card (resident_processes S))"
    "p \<in> members (resident_processes_by_bucket S) b \<Longrightarrow>
      resident_count_for_bucket (reserve_start req rid Resident T) b = resident_count_for_bucket S b"
    "p \<notin> members (resident_processes_by_bucket S) b \<Longrightarrow>
      resident_count_for_bucket (reserve_start req rid Resident T) b = Suc (resident_count_for_bucket S b)"
    "c \<noteq> b \<Longrightarrow> resident_count_for_bucket (reserve_start req rid Resident T) c \<le> resident_count_for_bucket S c"
proof -
  obtain e where "entries S p = Some e" "state e = IdleWarm" "launch_process_id l = p" and R: "resident_processes T = resident_processes S - {p}"
    and M: "members (resident_processes_by_bucket T) = (\<lambda>b. members (resident_processes_by_bucket S) b - {p})"
    by (rule eviction_residents [OF ok plan])
  have new: "rid \<notin> resident_processes S"
    using ok index_none [where m = "entries S" and p = rid, OF rid] by (auto simp: fleet_ok_def residents_ok_def)
  then have new': "rid \<notin> members (resident_processes_by_bucket S) c" for c by (simp add: members_iff [OF ok])
  note fin = residents_finite [OF ok] members_finite [OF ok]
  have swap: "p \<in> A \<Longrightarrow> rid \<notin> A \<Longrightarrow> finite A \<Longrightarrow> card (insert rid (A - {p})) = card A" for A
    by (metis card_Suc_Diff1 card_insert_disjoint finite_Diff DiffD1)
  show "p \<in> resident_processes S \<Longrightarrow>
      card (resident_processes (reserve_start req rid Resident T)) = card (resident_processes S)"
    using swap new fin by (simp add: reserve_residents R)
  show "p \<notin> resident_processes S \<Longrightarrow>
      card (resident_processes (reserve_start req rid Resident T)) = Suc (card (resident_processes S))"
    using new fin by (simp add: reserve_residents R)
  show "p \<in> members (resident_processes_by_bucket S) b \<Longrightarrow>
      resident_count_for_bucket (reserve_start req rid Resident T) b = resident_count_for_bucket S b"
    using swap new' fin b by (simp add: resident_count reserve_residents M)
  show "p \<notin> members (resident_processes_by_bucket S) b \<Longrightarrow>
      resident_count_for_bucket (reserve_start req rid Resident T) b = Suc (resident_count_for_bucket S b)"
    using new' fin b by (simp add: resident_count reserve_residents M)
  show "c \<noteq> b \<Longrightarrow> resident_count_for_bucket (reserve_start req rid Resident T) c \<le> resident_count_for_bucket S c"
    using fin b by (simp add: resident_count reserve_residents M card_mono)
qed

lemma evicted_within:
  assumes S: "fleet_ok S" and rid: "entries S rid = None" and plan: "reserve_idle_eviction env p S = (T, Some k)"
    and oldest: "oldest_idle_for_bucket env S (residency_bucket (request_compatibility req)) = Some p
      \<or> resident_count_for_bucket S (residency_bucket (request_compatibility req)) < max_resident_processes_per_member cfg
        \<and> oldest_idle_for_bucket env S (residency_bucket (request_compatibility req)) = None
        \<and> oldest_idle_global env S = Some p"
    and warm: "list_all (\<lambda>(p, e). \<not> (state e = IdleWarm \<and> residency e = Burst)) (processes S)"
  defines "S' \<equiv> reserve_start req rid Resident T"
  shows "card (resident_processes S') \<le> max (card (resident_processes S)) (max_resident_processes_global cfg)
    \<and> resident_count_for_bucket S' b \<le> max (resident_count_for_bucket S b) (max_resident_processes_per_member cfg)"
proof -
  let ?b = "residency_bucket (request_compatibility req)"
  from oldest obtain e where e: "entries S p = Some e" "state e = IdleWarm"
    and own: "oldest_idle_for_bucket env S ?b = Some p \<Longrightarrow> bucket e = ?b"
    by (meson oldest_idle_entry)
  have "residency e = Resident"
    using warm e by (cases "residency e") (auto simp: list_all_iff entries_def dest: map_of_SomeD)
  then have in_R: "p \<in> resident_processes S"
    using S e index_at(4) [where m = "entries S" and p = p, OF e(1)] by (simp add: fleet_ok_def residents_ok_def)
  note counts = evicted_counts [where req = req, OF S rid plan refl, folded S'_def]
  have "resident_count_for_bucket S' ?b \<le> max (resident_count_for_bucket S ?b) (max_resident_processes_per_member cfg)"
  proof (cases "p \<in> members (resident_processes_by_bucket S) ?b")
    case True
    then show ?thesis using counts(3) by simp
  next
    case False
    then have "bucket e \<noteq> ?b" using in_R e index_at(5) [where m = "entries S" and p = p, OF e(1)]
      by (simp add: members_iff [OF S])
    with own oldest have "resident_count_for_bucket S ?b < max_resident_processes_per_member cfg" by blast
    then show ?thesis using counts(4) [OF False] by simp
  qed
  moreover have "resident_count_for_bucket S' b \<le> resident_count_for_bucket S b" if "b \<noteq> ?b"
    using counts(5) [OF that] .
  ultimately have "resident_count_for_bucket S' b \<le> max (resident_count_for_bucket S b) (max_resident_processes_per_member cfg)"
    by (cases "b = ?b") (auto simp: le_max_iff_disj)
  then show ?thesis using counts(1) [OF in_R] by simp
qed

text \<open>
  Resident capacity. As long as no idle process is a burst process, an acquisition raises
  neither the number of resident processes nor that of a member beyond its limit: the numbers stay
  within the limits, or do not grow.
\<close>

theorem acquire_within_capacity:
  assumes w: "reachable_fleet w" and fresh: "map_of (processes (fleet w)) rid = None"
    and plan: "plan_acquire env cfg req rid (fleet w) = (S', r)"
    and warm: "list_all (\<lambda>(p, e). \<not> (state e = IdleWarm \<and> residency e = Burst)) (processes (fleet w))"
  shows "card (resident_processes S') \<le> max (card (resident_processes (fleet w))) (max_resident_processes_global cfg)
    \<and> resident_count_for_bucket S' b \<le>
        max (resident_count_for_bucket (fleet w) b) (max_resident_processes_per_member cfg)"
proof -
  let ?S = "fleet w" let ?b = "residency_bucket (request_compatibility req)"
  have S: "fleet_ok ?S" using reachable_ok [OF w] by (simp add: world_ok_def)
  have rid: "entries ?S rid = None" using fresh by (simp add: entries_def)
  have new: "rid \<notin> resident_processes ?S"
    using S index_none [where m = "entries ?S" and p = rid, OF rid] by (auto simp: fleet_ok_def residents_ok_def)
  from S plan show ?thesis
  proof (cases rule: plan_acquire_cases)
    case (Reused p e h c)
    then show ?thesis by (simp add: reuse_idle_def put_entry_def resident_count)
  next
    case (Spawned T res l)
    from Spawned(7) show ?thesis
    proof (cases rule: admit_residency_cases)
      case Room
      have "rid \<notin> members (resident_processes_by_bucket ?S) ?b" using new by (simp add: members_iff [OF S])
      with Room Spawned(8) new residents_finite [OF S] members_finite [OF S, of ?b] show ?thesis
        by (auto simp: reserve_residents resident_count has_resident_capacity_def)
    next
      case (Evicted p)
      with evicted_within [OF S rid, of env p T _ req cfg b] warm Spawned(8) show ?thesis by auto
    next
      case (Failed p)
      with S Spawned(8) show ?thesis
        by (cases rule: reserve_idle_eviction_cases [OF S Failed(1)]) (auto simp: reserve_residents resident_count)
    qed
  qed (simp_all add: le_max_iff_disj)
qed

theorem acquire_within_capacity_witness:
  "card (resident_processes demo_fleet_3) \<le> 1 \<and> resident_count_for_bucket demo_fleet_3 ''agent'' \<le> 1"
proof -
  have "plan_acquire (demo_env True) demo_config (demo_request ''r2'' ''other'') ''r2'' (fleet (demo_world demo_fleet_2)) =
     (demo_fleet_3, Spawn ''r2'' (RunLeaseKey ''r2'' 1) Burst 1 None)" using demo_3 by (simp add: demo_world_def)
  from acquire_within_capacity [OF demo_reachable_2 _ this, of "''agent''"]
  show ?thesis
    by (simp add: demo_world_def demo_config_def resident_count_for_bucket_def demo_fleet_defs)
qed

text \<open>
  The limits do not hold in general. When an idle burst process is evicted, it frees no
  resident place, and yet the new process is admitted as resident: one of the limits is exceeded.
\<close>

theorem burst_eviction_overcommits:
  assumes w: "reachable_fleet w" and fresh: "map_of (processes (fleet w)) rid = None"
    and plan: "plan_acquire env cfg req rid (fleet w) = (S', Spawn rid run Resident c (Some l))"
    and burst: "map_of (processes (fleet w)) (launch_process_id l) = Some e" "residency e = Burst"
  shows "card (resident_processes S') > max_resident_processes_global cfg
    \<or> resident_count_for_bucket S' (residency_bucket (request_compatibility req)) > max_resident_processes_per_member cfg"
proof -
  let ?S = "fleet w" let ?b = "residency_bucket (request_compatibility req)"
  have S: "fleet_ok ?S" using reachable_ok [OF w] by (simp add: world_ok_def)
  have rid: "entries ?S rid = None" using fresh by (simp add: entries_def)
  from S plan show ?thesis
  proof (cases rule: plan_acquire_cases)
    case (Held p f)
    then show ?thesis by (auto simp: plan_held_def split: FleetProcessState.splits option.splits)
  next
    case (Spawned T res k)
    then have k: "k = Some l" "res = Resident" by auto
    from Spawned(7) show ?thesis
    proof (cases rule: admit_residency_cases)
      case (Evicted p)
      have "launch_process_id l = p" by (rule eviction_residents [OF S Evicted(2) [unfolded k]])
      with burst have e: "entries ?S p = Some e" by (simp add: entries_def)
      then have out: "p \<notin> resident_processes ?S"
        using S burst index_at(3) [where m = "entries ?S" and p = p, OF e] by (auto simp: fleet_ok_def residents_ok_def)
      then have "p \<notin> members (resident_processes_by_bucket ?S) ?b" by (simp add: members_iff [OF S])
      with out evicted_counts(2,4) [OF S rid Evicted(2) [unfolded k] refl] Evicted(1) Spawned(8) k
      show ?thesis by (auto simp: has_resident_capacity_def)
    qed (use k in simp_all)
  qed simp_all
qed

theorem burst_eviction_overcommits_witness:
  "max_resident_processes_global demo_config = 1 \<and> max_resident_processes_per_member demo_config = 1
   \<and> (card (resident_processes demo_fleet_6) > 1 \<or> resident_count_for_bucket demo_fleet_6 ''agent'' > 1)"
proof -
  have "plan_acquire (demo_env False) demo_config (demo_request ''r3'' ''third'') ''r3'' (fleet (demo_world demo_fleet_5)) =
     (demo_fleet_6, Spawn ''r3'' (RunLeaseKey ''r3'' 1) Resident 2 (Some demo_launch))"
    using demo_6 by (simp add: demo_world_def)
  from burst_eviction_overcommits [OF demo_reachable_5 _ this]
  show ?thesis
    by (simp add: demo_world_def demo_config_def demo_launch_def demo_fleet_defs demo_request_def member_session_def)
qed

end
