(* ===== verification/Json.thy ===== *)
theory Json
  imports Prelude
begin

text \<open>
  JSON values as \<^verbatim>\<open>serde_json\<close> holds them, how the sources read and compare them, and the
  results of fallible code: an error text or a value.
\<close>

section \<open>JSON values\<close>

text \<open>
  A number is an unsigned integer, a negative one or a double, given by its bits. The keys of an
  object are distinct; their order means nothing.
\<close>

datatype JNumber =
  PosInt nat
| NegInt int
| Float u64

datatype Value =
  Null
| Bool bool
| Number JNumber
| JString string
| Array "Value list"
| Object "(string \<times> Value) list"

fun get :: "Value \<Rightarrow> string \<Rightarrow> Value option" where
  "get (Object m) k = map_of m k"
| "get Null k = None"
| "get (Bool b) k = None"
| "get (Number n) k = None"
| "get (JString s) k = None"
| "get (Array vs) k = None"

fun as_str :: "Value \<Rightarrow> string option" where
  "as_str (JString s) = Some s"
| "as_str Null = None"
| "as_str (Bool b) = None"
| "as_str (Number n) = None"
| "as_str (Array vs) = None"
| "as_str (Object m) = None"

fun as_array :: "Value \<Rightarrow> Value list option" where
  "as_array (Array vs) = Some vs"
| "as_array Null = None"
| "as_array (Bool b) = None"
| "as_array (Number n) = None"
| "as_array (JString s) = None"
| "as_array (Object m) = None"

fun as_bool :: "Value \<Rightarrow> bool option" where
  "as_bool (Bool b) = Some b"
| "as_bool Null = None"
| "as_bool (Number n) = None"
| "as_bool (JString s) = None"
| "as_bool (Array vs) = None"
| "as_bool (Object m) = None"

fun is_object :: "Value \<Rightarrow> bool" where
  "is_object (Object m) = True"
| "is_object Null = False"
| "is_object (Bool b) = False"
| "is_object (Number n) = False"
| "is_object (JString s) = False"
| "is_object (Array vs) = False"

definition get_str :: "Value \<Rightarrow> string \<Rightarrow> string option" where
  "get_str v k = Option.bind (get v k) as_str"

definition pointer :: "Value \<Rightarrow> string \<Rightarrow> string \<Rightarrow> Value option" where
  "pointer v a b = Option.bind (get v a) (\<lambda>w. get w b)"

text \<open>The fields of a derived \<open>Deserialize\<close>: by name in an object, by position in an array.\<close>

definition struct_fields :: "string list \<Rightarrow> Value \<Rightarrow> Value option list option" where
  "struct_fields names v =
     (case v of
        Object m \<Rightarrow> Some (map (map_of m) names)
      | Array vs \<Rightarrow> if length vs = length names then Some (map Some vs) else None
      | _ \<Rightarrow> None)"

definition string_field :: "Value option \<Rightarrow> string option" where
  "string_field f = Option.bind f as_str"

definition optional_string_field :: "Value option \<Rightarrow> string option option" where
  "optional_string_field f =
     (case f of None \<Rightarrow> Some None | Some Null \<Rightarrow> Some None | Some (JString s) \<Rightarrow> Some (Some s) | _ \<Rightarrow> None)"

text \<open>Equality of values: objects are maps, and the two zeros among the doubles are equal.\<close>

fun number_eq :: "JNumber \<Rightarrow> JNumber \<Rightarrow> bool" where
  "number_eq (Float a) (Float b) = (a = b \<or> (a \<in> {0, 2 ^ 63} \<and> b \<in> {0, 2 ^ 63}))"
| "number_eq a b = (a = b)"

fun value_eq :: "Value \<Rightarrow> Value \<Rightarrow> bool"
  and values_eq :: "Value list \<Rightarrow> Value list \<Rightarrow> bool"
  and fields_eq :: "(string \<times> Value) list \<Rightarrow> (string \<times> Value) list \<Rightarrow> bool" where
  "value_eq (Object m) v = (case v of Object n \<Rightarrow> length m = length n \<and> fields_eq m n | _ \<Rightarrow> False)"
| "value_eq (Array xs) v = (case v of Array ys \<Rightarrow> values_eq xs ys | _ \<Rightarrow> False)"
| "value_eq (Number a) v = (case v of Number b \<Rightarrow> number_eq a b | _ \<Rightarrow> False)"
| "value_eq (JString s) v = (v = JString s)"
| "value_eq (Bool b) v = (v = Bool b)"
| "value_eq Null v = (v = Null)"
| "values_eq [] ys = (ys = [])"
| "values_eq (x # xs) ys = (case ys of [] \<Rightarrow> False | y # ys \<Rightarrow> value_eq x y \<and> values_eq xs ys)"
| "fields_eq [] n = True"
| "fields_eq ((k, x) # m) n = (case map_of n k of None \<Rightarrow> False | Some y \<Rightarrow> value_eq x y \<and> fields_eq m n)"

text \<open>\<open>join\<close> of the standard library\<close>

fun join_with :: "string \<Rightarrow> string list \<Rightarrow> string" where
  "join_with sep [] = []"
| "join_with sep [x] = x"
| "join_with sep (x # xs) = x @ sep @ join_with sep xs"

text \<open>A text counts only if it is not blank.\<close>

definition nonblank :: "string option \<Rightarrow> string option" where
  "nonblank s = (case s of None \<Rightarrow> None | Some t \<Rightarrow> if trim t = [] then None else Some t)"

lemma nonblank_Some: "nonblank s = Some t \<longleftrightarrow> s = Some t \<and> trim t \<noteq> []"
  by (auto simp: nonblank_def split: option.splits)

text \<open>
  Assignment of a field, which makes an object of null, and removal of one. An assignment to any
  other value panics in the code; the callers reach it with objects only.
\<close>

fun set_field :: "string \<Rightarrow> Value \<Rightarrow> Value \<Rightarrow> Value" where
  "set_field k v (Object m) = Object (AList.update k v m)"
| "set_field k v Null = Object [(k, v)]"
| "set_field k v w = w"

fun remove_field :: "string \<Rightarrow> Value \<Rightarrow> Value" where
  "remove_field k (Object m) = Object (AList.delete k m)"
| "remove_field k v = v"

definition field_or_null :: "Value \<Rightarrow> string \<Rightarrow> Value" where
  "field_or_null v k = (case get v k of None \<Rightarrow> Null | Some w \<Rightarrow> w)"

lemma get_Some_object: "get v k = Some w \<Longrightarrow> \<exists>m. v = Object m"
  by (cases v) simp_all

lemma get_set_field: "get p k = Some w \<Longrightarrow> get (set_field k v p) k' = (if k' = k then Some v else get p k')"
  by (auto dest!: get_Some_object simp: update_conv')

section \<open>Results\<close>

definition ok_or :: "'a option \<Rightarrow> string \<Rightarrow> string + 'a" where
  "ok_or x e = (case x of None \<Rightarrow> Inl e | Some y \<Rightarrow> Inr y)"

definition and_then :: "string + 'a \<Rightarrow> ('a \<Rightarrow> string + 'b) \<Rightarrow> string + 'b" where
  "and_then r f = (case r of Inl e \<Rightarrow> Inl e | Inr x \<Rightarrow> f x)"

fun fold_result :: "('a \<Rightarrow> 's \<Rightarrow> string + 's) \<Rightarrow> 'a list \<Rightarrow> 's \<Rightarrow> string + 's" where
  "fold_result f [] s = Inr s"
| "fold_result f (x # xs) s = and_then (f x s) (fold_result f xs)"

definition checked_add :: "nat \<Rightarrow> nat \<Rightarrow> nat option" where
  "checked_add a b = (if a + b < 2 ^ 64 then Some (a + b) else None)"

named_theorems result_simps

lemma and_then_Inr [result_simps]: "and_then r f = Inr y \<longleftrightarrow> (\<exists>x. r = Inr x \<and> f x = Inr y)"
  by (cases r) (simp_all add: and_then_def)

lemma ok_or_Inr [result_simps]: "ok_or x e = Inr y \<longleftrightarrow> x = Some y"
  by (cases x) (simp_all add: ok_or_def)

lemma checked_add_Some [result_simps]: "checked_add a b = Some c \<longleftrightarrow> c = a + b \<and> a + b < 2 ^ 64"
  by (auto simp: checked_add_def)

lemma if_Inr [result_simps]: "(if c then Inl e else r) = Inr y \<longleftrightarrow> \<not> c \<and> r = Inr y"
  by simp

lemma fold_result_invariant:
  assumes "fold_result f xs s = Inr t" and "I s"
    and "\<And>x s s'. I s \<Longrightarrow> f x s = Inr s' \<Longrightarrow> I s'"
  shows "I t"
  using assms(1,2) by (induction xs arbitrary: s) (auto simp: result_simps dest: assms(3))

lemma fold_result_tracks:
  assumes "fold_result f xs s = Inr t"
    and "\<And>x s s'. f x s = Inr s' \<Longrightarrow> if q x then out s' = out s else \<exists>e. out s' = out s @ [e] \<and> Q x e"
  shows "\<exists>es. out t = out s @ es \<and> list_all2 Q (filter (\<lambda>x. \<not> q x) xs) es"
  using assms(1)
proof (induction xs arbitrary: s)
  case (Cons x xs)
  then obtain s' where s': "f x s = Inr s'" "fold_result f xs s' = Inr t" by (auto simp: result_simps)
  from Cons.IH [OF s'(2)] obtain es where es: "out t = out s' @ es" "list_all2 Q (filter (\<lambda>x. \<not> q x) xs) es" by blast
  show ?case
  proof (cases "q x")
    case True
    with assms(2) [OF s'(1)] es show ?thesis by simp
  next
    case False
    with assms(2) [OF s'(1)] obtain e where "out s' = out s @ [e]" "Q x e" by auto
    with es False show ?thesis by (intro exI [of _ "e # es"]) simp
  qed
qed simp


end
