(* ===== verification/Canonical_Json.thy ===== *)
theory Canonical_Json
  imports Json
begin

text \<open>
  The canonical text of a JSON value and its digest, from
  \<^verbatim>\<open>crates/rovai-core/src/command.rs\<close>: commands, permission decisions and frozen
  profiles are compared by it. What \<open>serde_json\<close> writes for a string, a number, a boolean or null
  is the parameter \<open>scalar\<close>, the hash the parameter \<open>sha256\<close>.
\<close>

section \<open>The writer\<close>

fun join_comma :: "string list \<Rightarrow> string" where
  "join_comma [] = []"
| "join_comma [x] = x"
| "join_comma (x # xs) = x @ '','' @ join_comma xs"

lemma size_field: "(k, v) \<in> set m \<Longrightarrow> size v < size (Object m)"
  by (induction m) auto

function write_canonical_json :: "(Value \<Rightarrow> string) \<Rightarrow> Value \<Rightarrow> string" where
  "write_canonical_json scalar (Array vs) = ''['' @ join_comma (map (write_canonical_json scalar) vs) @ '']''"
| "write_canonical_json scalar (Object m) =
     ''{'' @ join_comma (map (\<lambda>(k, v). scalar (JString k) @ '':'' @ write_canonical_json scalar v) (sort_key fst m)) @ ''}''"
| "write_canonical_json scalar Null = scalar Null"
| "write_canonical_json scalar (Bool b) = scalar (Bool b)"
| "write_canonical_json scalar (Number n) = scalar (Number n)"
| "write_canonical_json scalar (JString s) = scalar (JString s)"
  by pat_completeness auto

termination
  by (relation "measure (\<lambda>(scalar, v). size v)") (auto simp: less_Suc_eq_le size_list_estimation' dest!: size_field)

definition canonical_json_digest :: "(Value \<Rightarrow> string) \<Rightarrow> (string \<Rightarrow> string) \<Rightarrow> Value \<Rightarrow> string" where
  "canonical_json_digest scalar sha256 v = sha256 (write_canonical_json scalar v)"

section \<open>Values up to the order of keys\<close>

function key_sorted :: "Value \<Rightarrow> Value" where
  "key_sorted (Array vs) = Array (map key_sorted vs)"
| "key_sorted (Object m) = Object (map (\<lambda>(k, v). (k, key_sorted v)) (sort_key fst m))"
| "key_sorted Null = Null"
| "key_sorted (Bool b) = Bool b"
| "key_sorted (Number n) = Number n"
| "key_sorted (JString s) = JString s"
  by pat_completeness auto

termination
  by (relation "measure size") (auto simp: less_Suc_eq_le size_list_estimation' dest!: size_field)

text \<open>The text of a value whose fields are written as they stand.\<close>

fun plain :: "(Value \<Rightarrow> string) \<Rightarrow> Value \<Rightarrow> string" where
  "plain scalar (Array vs) = ''['' @ join_comma (map (plain scalar) vs) @ '']''"
| "plain scalar (Object m) = ''{'' @ join_comma (map (\<lambda>(k, v). scalar (JString k) @ '':'' @ plain scalar v) m) @ ''}''"
| "plain scalar Null = scalar Null"
| "plain scalar (Bool b) = scalar (Bool b)"
| "plain scalar (Number n) = scalar (Number n)"
| "plain scalar (JString s) = scalar (JString s)"

lemma canonical_plain: "write_canonical_json scalar v = plain scalar (key_sorted v)"
proof (induction scalar v rule: write_canonical_json.induct)
  case (2 scalar m)
  have "map (\<lambda>(k, v). scalar (JString k) @ '':'' @ write_canonical_json scalar v) (sort_key fst m) =
      map (\<lambda>(k, v). scalar (JString k) @ '':'' @ plain scalar v) (map (\<lambda>(k, v). (k, key_sorted v)) (sort_key fst m))"
    by (auto intro!: map_cong 2 simp: comp_def split_def)
  then show ?case by (simp only: write_canonical_json.simps key_sorted.simps plain.simps)
qed (simp_all add: comp_def cong: map_cong)

section \<open>The text determines the value\<close>

definition finite_double :: "u64 \<Rightarrow> bool" where
  "finite_double w = (unat w div 2 ^ 52 mod 2 ^ 11 \<noteq> 2 ^ 11 - 1)"

fun number_ok :: "JNumber \<Rightarrow> bool" where
  "number_ok (PosInt n) = (n < 2 ^ 64)"
| "number_ok (NegInt i) = (- (2 ^ 63) \<le> i \<and> i < 0)"
| "number_ok (Float w) = finite_double w"

text \<open>What the type of the program guarantees of a value.\<close>

fun json_ok :: "Value \<Rightarrow> bool" where
  "json_ok (Array vs) = list_all json_ok vs"
| "json_ok (Object m) = (distinct (map fst m) \<and> list_all (\<lambda>(k, v). json_ok v) m)"
| "json_ok (Number n) = number_ok n"
| "json_ok Null = True"
| "json_ok (Bool b) = True"
| "json_ok (JString s) = True"

fun is_scalar :: "Value \<Rightarrow> bool" where
  "is_scalar (Array vs) = False"
| "is_scalar (Object m) = False"
| "is_scalar (Number n) = number_ok n"
| "is_scalar Null = True"
| "is_scalar (Bool b) = True"
| "is_scalar (JString s) = True"

definition delimited :: "string \<Rightarrow> bool" where
  "delimited s = (s = [] \<or> hd s \<in> set '',:]}'')"

text \<open>
  What is relied on of the scalar texts of JSON: none starts with a bracket, a comma or a colon, and
  where one is followed by a delimiter or by nothing, it can be read in one way only.
\<close>

definition readable_scalars :: "(Value \<Rightarrow> string) \<Rightarrow> bool" where
  "readable_scalars scalar \<longleftrightarrow>
     (\<forall>u. is_scalar u \<longrightarrow> scalar u \<noteq> [] \<and> hd (scalar u) \<notin> set ''[]{},:'')
     \<and> (\<forall>u v s t. is_scalar u \<longrightarrow> is_scalar v \<longrightarrow> delimited s \<longrightarrow> delimited t \<longrightarrow> scalar u @ s = scalar v @ t
           \<longrightarrow> u = v \<and> s = t)"

lemma delimited_simps [simp]: "delimited []" "delimited (c # s) \<longleftrightarrow> c \<in> set '',:]}''"
  by (simp_all add: delimited_def)

lemma join_comma_Cons: "join_comma (x # xs) = x @ (if xs = [] then [] else '','' @ join_comma xs)"
  by (cases xs) simp_all

lemma join_unique:
  assumes "\<And>x y s t. x \<in> set xs \<Longrightarrow> y \<in> set ys \<Longrightarrow> delimited s \<Longrightarrow> delimited t \<Longrightarrow> f x @ s = f y @ t \<Longrightarrow> x = y \<and> s = t"
    and "\<And>x. x \<in> set xs \<union> set ys \<Longrightarrow> f x \<noteq> [] \<and> hd (f x) \<noteq> c"
    and "c \<in> set '']}''" and "join_comma (map f xs) @ c # s = join_comma (map f ys) @ c # t"
  shows "xs = ys \<and> s = t"
  using assms(1,2,4)
proof (induction xs arbitrary: ys)
  case Nil
  show ?case
  proof (cases ys)
    case (Cons y ys')
    with Nil(2) [of y] have "f y \<noteq> []" "hd (f y) \<noteq> c" by simp_all
    with Nil(3) Cons show ?thesis by (cases "f y") (auto simp: join_comma_Cons)
  qed (use Nil(3) in simp)
next
  case (Cons x xs)
  show ?case
  proof (cases ys)
    case Nil
    from Cons.prems(2) [of x] have "f x \<noteq> []" "hd (f x) \<noteq> c" by simp_all
    with Cons.prems(3) Nil show ?thesis by (cases "f x") (auto simp: join_comma_Cons)
  next
    case ys: (Cons y ys')
    let ?rest = "\<lambda>zs u. (if zs = [] then [] else '','' @ join_comma (map f zs)) @ c # u"
    have delim: "delimited (?rest zs u)" for zs u using assms(3) by auto
    have "f x @ ?rest xs s = f y @ ?rest ys' t" using Cons.prems(3) by (simp add: ys join_comma_Cons)
    with Cons.prems(1) [of x y] delim have eq: "x = y" "?rest xs s = ?rest ys' t" by (auto simp: ys)
    from eq(2) assms(3) have "(xs = [] \<and> ys' = [] \<and> s = t)
        \<or> (xs \<noteq> [] \<and> ys' \<noteq> [] \<and> join_comma (map f xs) @ c # s = join_comma (map f ys') @ c # t)"
      by (auto split: if_splits)
    then show ?thesis
    proof (elim disjE conjE)
      assume same: "join_comma (map f xs) @ c # s = join_comma (map f ys') @ c # t"
      have "xs = ys' \<and> s = t"
      proof (rule Cons.IH)
        show "join_comma (map f xs) @ c # s = join_comma (map f ys') @ c # t" by (rule same)
      qed (use Cons.prems(1,2) in \<open>auto simp: ys\<close>)
      then show ?thesis by (simp add: ys eq(1))
    qed (simp add: ys eq(1))
  qed
qed

lemma plain_head:
  assumes "readable_scalars scalar" and "json_ok u"
  shows "plain scalar u \<noteq> [] \<and> hd (plain scalar u) \<notin> set '']},:''"
    and "hd (plain scalar u) = CHR ''['' \<longleftrightarrow> (\<exists>vs. u = Array vs)"
    and "hd (plain scalar u) = CHR ''{'' \<longleftrightarrow> (\<exists>m. u = Object m)"
  using assms by (cases u; simp add: readable_scalars_def; fastforce)+

lemma plain_scalar:
  assumes "readable_scalars scalar" and u: "is_scalar u" "plain scalar u = scalar u" and v: "json_ok v"
    and "delimited s" "delimited t" and eq: "plain scalar u @ s = plain scalar v @ t"
  shows "u = v \<and> s = t"
proof -
  have "hd (scalar u) \<notin> set ''[]{},:''" "scalar u \<noteq> []" using assms(1) u(1) by (auto simp: readable_scalars_def)
  moreover have "hd (plain scalar v) = hd (scalar u)"
    using arg_cong [OF eq, of hd] plain_head(1) [OF assms(1) v] calculation(2) u(2) by simp
  ultimately have "is_scalar v" "plain scalar v = scalar v"
    using plain_head(2,3) [OF assms(1) v] v by (cases v; simp)+
  with assms show ?thesis by (simp add: readable_scalars_def)
qed

lemma plain_unique:
  assumes ok: "readable_scalars scalar"
  shows "json_ok u \<Longrightarrow> json_ok v \<Longrightarrow> delimited s \<Longrightarrow> delimited t \<Longrightarrow> plain scalar u @ s = plain scalar v @ t
    \<Longrightarrow> u = v \<and> s = t"
  using ok
proof (induction scalar u arbitrary: v s t rule: plain.induct)
  case (1 scalar vs)
  have "hd (plain scalar v) = CHR ''[''"
    using arg_cong [OF "1.prems"(5), of hd] plain_head(1) [OF "1.prems"(6,2)] by simp
  then obtain ws where v: "v = Array ws" using plain_head(2) [OF "1.prems"(6,2)] by blast
  have "vs = ws \<and> s = t"
  proof (rule join_unique)
    show "join_comma (map (plain scalar) vs) @ CHR '']'' # s = join_comma (map (plain scalar) ws) @ CHR '']'' # t"
      using "1.prems"(5) by (simp add: v)
    show "plain scalar x \<noteq> [] \<and> hd (plain scalar x) \<noteq> CHR '']''" if "x \<in> set vs \<union> set ws" for x
      using that plain_head(1) [OF "1.prems"(6), of x] "1.prems"(1,2) by (auto simp: v list_all_iff)
  qed (use 1 in \<open>auto simp: v list_all_iff\<close>)
  then show ?case by (simp add: v)
next
  case (2 scalar m)
  let ?f = "\<lambda>(k, v). scalar (JString k) @ '':'' @ plain scalar v"
  have "hd (plain scalar v) = CHR ''{''"
    using arg_cong [OF "2.prems"(5), of hd] plain_head(1) [OF "2.prems"(6,2)] by simp
  then obtain n where v: "v = Object n" using plain_head(3) [OF "2.prems"(6,2)] by blast
  have key: "scalar (JString k) \<noteq> [] \<and> hd (scalar (JString k)) \<noteq> CHR ''}''" for k
    using "2.prems"(6) by (auto simp: readable_scalars_def)
  have "m = n \<and> s = t"
  proof (rule join_unique)
    show "join_comma (map ?f m) @ CHR ''}'' # s = join_comma (map ?f n) @ CHR ''}'' # t"
      using "2.prems"(5) by (simp add: v)
    show "?f x \<noteq> [] \<and> hd (?f x) \<noteq> CHR ''}''" for x using key by (cases x) simp
    fix x y a b
    assume x: "x \<in> set m" and y: "y \<in> set n" and ab: "delimited a" "delimited b" "?f x @ a = ?f y @ b"
    obtain k w k' w' where xy: "x = (k, w)" "y = (k', w')" by (cases x, cases y)
    from ab(3) have "scalar (JString k) @ CHR '':'' # plain scalar w @ a = scalar (JString k') @ CHR '':'' # plain scalar w' @ b"
      by (simp add: xy)
    then have "JString k = JString k' \<and> CHR '':'' # plain scalar w @ a = CHR '':'' # plain scalar w' @ b"
      using "2.prems"(6) unfolding readable_scalars_def by (metis delimited_simps(2) is_scalar.simps(6) list.set_intros(1,2))
    then have k: "k = k'" "plain scalar w @ a = plain scalar w' @ b" by simp_all
    moreover have "json_ok w" "json_ok w'" using x y "2.prems"(1,2) by (auto simp: v xy list_all_iff)
    ultimately show "x = y \<and> a = b"
      using "2.IH" [of x k w w' a b] x xy ab(1,2) "2.prems"(6) by simp
  qed simp
  then show ?case by (simp add: v)
qed (rule plain_scalar; simp; fail)+

lemma json_ok_key_sorted: "json_ok v \<Longrightarrow> json_ok (key_sorted v)"
proof (induction v rule: key_sorted.induct)
  case (2 m)
  have fsts: "map fst (map (\<lambda>(k, v). (k, key_sorted v)) xs) = map fst xs" for xs :: "(string \<times> Value) list"
    by (induction xs) auto
  have "distinct (map fst (sort_key fst m))"
    using 2(2) by (auto simp: distinct_map inj_on_def distinct_sort)
  with 2 show ?case unfolding key_sorted.simps json_ok.simps fsts by (auto simp: list_all_iff)
qed (auto simp: list_all_iff)

text \<open>
  C23: two values have the same canonical text exactly if they differ at most in the order of the
  keys of their objects.
\<close>

theorem canonical_text_determines_value:
  assumes "readable_scalars scalar" and "json_ok u" and "json_ok v"
  shows "write_canonical_json scalar u = write_canonical_json scalar v \<longleftrightarrow> key_sorted u = key_sorted v"
  using plain_unique [OF assms(1) json_ok_key_sorted [OF assms(2)] json_ok_key_sorted [OF assms(3)], of "[]" "[]"]
  by (auto simp: canonical_plain)

text \<open>A writer of scalars of this kind.\<close>

fun escaped :: "string \<Rightarrow> string" where
  "escaped [] = [CHR 0x22]"
| "escaped (c # s) = (if c = CHR 0x22 \<or> c = CHR 0x5C then [CHR 0x5C, c] else [c]) @ escaped s"

fun number_text :: "JNumber \<Rightarrow> string" where
  "number_text (PosInt n) = dec n"
| "number_text (NegInt i) = ''-'' @ dec (nat (- i))"
| "number_text (Float w) = ''e'' @ dec (unat w)"

fun scalar_text :: "Value \<Rightarrow> string" where
  "scalar_text Null = ''null''"
| "scalar_text (Bool b) = (if b then ''true'' else ''false'')"
| "scalar_text (Number n) = number_text n"
| "scalar_text (JString s) = CHR 0x22 # escaped s"
| "scalar_text (Array vs) = []"
| "scalar_text (Object m) = []"

lemma escaped_unique: "escaped a @ s = escaped b @ t \<Longrightarrow> a = b \<and> s = t"
proof (induction a arbitrary: b)
  case Nil
  then show ?case by (cases b) (auto split: if_splits)
next
  case (Cons c a)
  then show ?case by (cases b) (auto split: if_splits)
qed

lemma dec_unique:
  assumes "dec m @ s = dec n @ t" "delimited s" "delimited t"
  shows "m = n \<and> s = t"
proof -
  have stop: "takeWhile is_ascii_digit (dec k @ r) = dec k \<and> dropWhile is_ascii_digit (dec k @ r) = r" if "delimited r" for k r
  proof -
    have "r = [] \<or> \<not> is_ascii_digit (hd r)" using that by (auto simp: delimited_def is_ascii_digit_def)
    moreover have "\<forall>c \<in> set (dec k). is_ascii_digit c" using dec_digits [of k] by (simp add: list_all_iff)
    ultimately show ?thesis by (cases r) (simp_all add: takeWhile_append2 dropWhile_append2)
  qed
  from stop [OF assms(2), of m] stop [OF assms(3), of n] assms(1) have "dec m = dec n" "s = t" by metis+
  then show ?thesis by (metis digits_value_dec)
qed

lemma dec_head: "dec n \<noteq> [] \<and> is_ascii_digit (hd (dec n))"
  using dec_digits [of n] by (cases "dec n") auto

lemma readable_scalar_text: "readable_scalars scalar_text"
proof -
  have digit: "hd (dec n) \<notin> set ''[]{},:ntfe-'' \<and> hd (dec n) \<noteq> CHR 0x22" for n
    using dec_head [of n] by (auto simp: is_ascii_digit_def)
  have number: "number_text a \<noteq> [] \<and> hd (number_text a) \<notin> set ''[]{},:ntf'' \<and> hd (number_text a) \<noteq> CHR 0x22" for a
    using digit dec_head by (cases a) auto
  have numbers: "a = b \<and> s = t"
    if eq: "number_text a @ s = number_text b @ t" and ok: "number_ok a" "number_ok b" and d: "delimited s" "delimited t" for a b s t
  proof -
    have first: "hd (number_text a) = hd (number_text b)"
      using arg_cong [OF eq, of hd] number [of a] number [of b] by simp
    show ?thesis
      using eq ok d first digit
      by (cases a; cases b) (auto dest!: dec_unique simp: dec_head word_unat_eq_iff)
  qed
  have "u = v \<and> s = t"
    if "is_scalar u" "is_scalar v" "delimited s" "delimited t" "scalar_text u @ s = scalar_text v @ t" for u v s t
  proof -
    have "hd (scalar_text u) = hd (scalar_text v)"
      using arg_cong [OF that(5), of hd] number that(1,2) by (cases u; cases v) auto
    with that number show ?thesis
      by (cases u; cases v) (auto dest: numbers escaped_unique split: if_splits)
  qed
  moreover have "scalar_text u \<noteq> [] \<and> hd (scalar_text u) \<notin> set ''[]{},:''" if "is_scalar u" for u
    using that number by (cases u) auto
  ultimately show ?thesis by (auto simp: readable_scalars_def)
qed

theorem canonical_text_determines_value_witness:
  "write_canonical_json scalar_text (Object [(''b'', Null), (''a'', Array [])]) =
   write_canonical_json scalar_text (Object [(''a'', Array []), (''b'', Null)])"
proof -
  have "key_sorted (Object [(''b'', Null), (''a'', Array [])]) = key_sorted (Object [(''a'', Array []), (''b'', Null)])"
    by code_simp
  then show ?thesis
    using canonical_text_determines_value [OF readable_scalar_text, of "Object [(''b'', Null), (''a'', Array [])]"
      "Object [(''a'', Array []), (''b'', Null)]"] by simp
qed

end
