(* ===== verification/Diff_Text.thy ===== *)
theory Diff_Text
  imports Prelude
begin

text \<open>
  The text part of \<^verbatim>\<open>crates/rovai-core/src/runtime_diff.rs\<close>: how a unified diff is built
  from two states of a file, how its lines are counted, and how a snapshot is split into its
  sections. Texts are byte strings.
\<close>

section \<open>Lines\<close>

abbreviation NL :: char where "NL \<equiv> CHR 0x0A"
abbreviation CR :: char where "CR \<equiv> CHR 0x0D"

text \<open>\<open>str::split_inclusive\<close> and \<open>str::lines\<close>\<close>

fun split_inclusive :: "char \<Rightarrow> string \<Rightarrow> string list" where
  "split_inclusive c [] = []"
| "split_inclusive c (x # xs) =
     (if x = c then [x] # split_inclusive c xs
      else (case split_inclusive c xs of [] \<Rightarrow> [[x]] | w # ws \<Rightarrow> (x # w) # ws))"

definition strip_last :: "char \<Rightarrow> string \<Rightarrow> string" where
  "strip_last c s = (if s \<noteq> [] \<and> last s = c then butlast s else s)"

definition text_lines :: "string \<Rightarrow> string list" where
  "text_lines s = map (\<lambda>l. if l \<noteq> [] \<and> last l = NL then strip_last CR (butlast l) else l) (split_inclusive NL s)"

definition split_preserving_line_endings :: "string \<Rightarrow> string list" where
  "split_preserving_line_endings s = (if s = [] then [] else split_inclusive NL s)"

definition no_newline_marker :: string where
  "no_newline_marker = CHR 0x5C # '' No newline at end of file'' @ [NL]"

definition append_unified_line :: "string \<Rightarrow> char \<Rightarrow> string \<Rightarrow> string" where
  "append_unified_line out p line =
     out @ p # line @ (if line \<noteq> [] \<and> last line = NL then [] else NL # no_newline_marker)"

definition u64_count :: "nat \<Rightarrow> u64" where
  "u64_count n = (if n < 2 ^ 64 then of_nat n else - 1)"

definition fragment_line_count :: "string \<Rightarrow> u64" where
  "fragment_line_count s = (if s = [] then 0 else u64_count (length (split_inclusive NL s)))"

definition append_exact_fragment_lines :: "string \<Rightarrow> char \<Rightarrow> string \<Rightarrow> string" where
  "append_exact_fragment_lines out p t =
     fold (\<lambda>line out. out @ p # strip_last CR (strip_last NL line) @ [NL]) (split_inclusive NL t) out"

definition exact_mutation_fragment :: "string \<Rightarrow> string \<Rightarrow> string" where
  "exact_mutation_fragment old_text new_text =
     append_exact_fragment_lines (append_exact_fragment_lines [] (CHR ''-'') old_text) (CHR ''+'') new_text"

section \<open>Building a unified diff\<close>

text \<open>The two loops that look for the common head and the common tail of the lines.\<close>

function prefix_loop :: "string list \<Rightarrow> string list \<Rightarrow> nat \<Rightarrow> nat" where
  "prefix_loop old new p =
     (if p < length old \<and> p < length new \<and> old ! p = new ! p then prefix_loop old new (p + 1) else p)"
  by pat_completeness auto
termination by (relation "measure (\<lambda>(old, new, p). length old - p)") auto

function suffix_loop :: "string list \<Rightarrow> string list \<Rightarrow> nat \<Rightarrow> nat \<Rightarrow> nat" where
  "suffix_loop old new p s =
     (if s < length old - p \<and> s < length new - p \<and> old ! (length old - 1 - s) = new ! (length new - 1 - s)
      then suffix_loop old new p (s + 1) else s)"
  by pat_completeness auto
termination by (relation "measure (\<lambda>(old, new, p, s). length old - s)") auto

declare prefix_loop.simps [simp del] suffix_loop.simps [simp del]

definition is_absolute :: "string \<Rightarrow> bool" where
  "is_absolute path = (path \<noteq> [] \<and> hd path = CHR ''/'')"

definition unified_diff_display_path :: "string \<Rightarrow> string \<Rightarrow> string" where
  "unified_diff_display_path path side = (if is_absolute path then path else side @ ''/'' @ path)"

definition slice :: "nat \<Rightarrow> nat \<Rightarrow> 'a list \<Rightarrow> 'a list" where
  "slice a b xs = take (b - a) (drop a xs)"

definition append_lines :: "char \<Rightarrow> string list \<Rightarrow> string \<Rightarrow> string" where
  "append_lines p ls out = fold (\<lambda>l out. append_unified_line out p l) ls out"

definition hunk_text :: "nat \<Rightarrow> nat \<Rightarrow> nat \<Rightarrow> nat \<Rightarrow> string" where
  "hunk_text a b c d = ''@@ -'' @ dec a @ '','' @ dec b @ '' +'' @ dec c @ '','' @ dec d @ '' @@'' @ [NL]"

definition unified_diff_from_before_after :: "string \<Rightarrow> string option \<Rightarrow> string \<Rightarrow> string" where
  "unified_diff_from_before_after path old_text new_text =
     (let old_lines = split_preserving_line_endings (case old_text of None \<Rightarrow> [] | Some t \<Rightarrow> t);
          new_lines = split_preserving_line_endings new_text;
          pre = prefix_loop old_lines new_lines 0;
          suf = suffix_loop old_lines new_lines pre 0;
          context_before = min pre 3;
          context_after = min suf 3;
          old_changed_end = length old_lines - suf;
          new_changed_end = length new_lines - suf;
          old_start = pre - context_before;
          new_start = pre - context_before;
          old_count = (old_changed_end - old_start) + context_after;
          new_count = (new_changed_end - new_start) + context_after;
          old_header = (if old_text = None then ''/dev/null'' else unified_diff_display_path path ''a'');
          new_header = unified_diff_display_path path ''b'';
          output = ''--- '' @ old_header @ [NL] @ ''+++ '' @ new_header @ [NL]
            @ hunk_text (if old_count = 0 then 0 else old_start + 1) old_count
                (if new_count = 0 then 0 else new_start + 1) new_count
      in append_lines (CHR '' '') (slice new_changed_end (new_changed_end + context_after) new_lines)
           (append_lines (CHR ''+'') (slice pre new_changed_end new_lines)
             (append_lines (CHR ''-'') (slice pre old_changed_end old_lines)
               (append_lines (CHR '' '') (slice old_start pre old_lines) output))))"

definition unified_diff_for_delete :: "string \<Rightarrow> string \<Rightarrow> string" where
  "unified_diff_for_delete path old_text =
     (let old_lines = split_preserving_line_endings old_text in
      append_lines (CHR ''-'') old_lines
        (''--- '' @ unified_diff_display_path path ''a'' @ [NL] @ ''+++ /dev/null'' @ [NL]
         @ hunk_text (if old_lines = [] then 0 else 1) (length old_lines) 0 0))"

definition unified_diff_from_complete_states :: "string \<Rightarrow> string option \<Rightarrow> string option \<Rightarrow> string option" where
  "unified_diff_from_complete_states path before after =
     (if before = after then None
      else (case (before, after) of
          (_, Some a) \<Rightarrow> Some (unified_diff_from_before_after path before a)
        | (Some b, None) \<Rightarrow> Some (unified_diff_for_delete path b)
        | (None, None) \<Rightarrow> None))"

section \<open>Counting\<close>

fun count_lines :: "string list \<Rightarrow> bool \<Rightarrow> u64 \<Rightarrow> u64 \<Rightarrow> u64 \<times> u64" where
  "count_lines [] in_hunk adds dels = (adds, dels)"
| "count_lines (l # ls) in_hunk adds dels =
     (if prefix ''@@ '' l then count_lines ls True adds dels
      else if \<not> in_hunk then count_lines ls in_hunk adds dels
      else if prefix ''+'' l then count_lines ls in_hunk (saturating_add adds 1) dels
      else if prefix ''-'' l then count_lines ls in_hunk adds (saturating_add dels 1)
      else count_lines ls in_hunk adds dels)"

definition unified_diff_counts :: "string \<Rightarrow> u64 \<times> u64" where
  "unified_diff_counts diff = count_lines (text_lines diff) False 0 0"

section \<open>Sections of a snapshot\<close>

definition section_marker :: string where
  "section_marker = ''diff --git ''"

definition section_starts :: "string \<Rightarrow> nat list" where
  "section_starts diff =
     filter (\<lambda>i. prefix section_marker (drop i diff) \<and> (i = 0 \<or> diff ! (i - 1) = NL)) [0..<length diff]"

fun sections_from :: "string \<Rightarrow> nat list \<Rightarrow> string list" where
  "sections_from diff [] = []"
| "sections_from diff [a] = [drop a diff]"
| "sections_from diff (a # b # rest) = slice a b diff # sections_from diff (b # rest)"

definition split_unified_diff_sections :: "string \<Rightarrow> string list" where
  "split_unified_diff_sections diff = sections_from diff (section_starts diff)"

text \<open>\<open>str::rfind\<close>\<close>

definition rfind :: "string \<Rightarrow> string \<Rightarrow> nat option" where
  "rfind p s = (case filter (\<lambda>i. prefix p (drop i s)) [0..<Suc (length s)] of [] \<Rightarrow> None | is \<Rightarrow> Some (last is))"

definition unified_diff_section_paths :: "string \<Rightarrow> (string \<times> string) option" where
  "unified_diff_section_paths section =
     (case text_lines section of
        [] \<Rightarrow> None
      | header # _ \<Rightarrow>
          (case rfind '' b/'' header of
             None \<Rightarrow> None
           | Some marker \<Rightarrow>
               if prefix ''diff --git a/'' header
               then Some (trim (slice (length ''diff --git a/'') marker header), trim (drop (marker + 3) header))
               else None))"

definition unified_diff_section_identity :: "string \<Rightarrow> (string \<times> string) option" where
  "unified_diff_section_identity section =
     (case unified_diff_section_paths section of
        None \<Rightarrow> None
      | Some (_, path) \<Rightarrow> Some (path,
          if list_ex (prefix ''new file mode '') (text_lines section) then ''add''
          else if list_ex (prefix ''deleted file mode '') (text_lines section) then ''delete''
          else ''update''))"

end
