(* ===== verification/Diff_Paths.thy ===== *)
theory Diff_Paths
  imports Diff_Text
begin

text \<open>
  The paths of \<^verbatim>\<open>crates/rovai-core/src/runtime_diff.rs\<close>: how a reported path is resolved
  against the display root, displayed, and kept out of the managed output. A path is a byte string
  and a \<open>PathBuf\<close> that was built from components is the list of them, on a Unix target. The
  parser of \<open>file:\<close> URLs is the argument \<open>url\<close>.
\<close>

section \<open>Components\<close>

datatype Component = RootDir | CurDir | ParentDir | Normal string

definition component_of :: "string \<Rightarrow> Component" where
  "component_of w = (if w = ''..'' then ParentDir else Normal w)"

definition path_words :: "string \<Rightarrow> string list" where
  "path_words p = split_on (\<lambda>c. c = CHR ''/'') p"

text \<open>\<open>Path::components\<close>\<close>

definition components :: "string \<Rightarrow> Component list" where
  "components p =
     (if is_absolute p then [RootDir] else if path_words p \<noteq> [] \<and> hd (path_words p) = ''.'' then [CurDir] else [])
     @ map component_of (filter (\<lambda>w. w \<noteq> [] \<and> w \<noteq> ''.'') (path_words p))"

fun component_text :: "Component \<Rightarrow> string" where
  "component_text RootDir = ''/''"
| "component_text CurDir = ''.''"
| "component_text ParentDir = ''..''"
| "component_text (Normal w) = w"

fun join_words :: "string list \<Rightarrow> string" where
  "join_words [] = []"
| "join_words [w] = w"
| "join_words (w # v # ws) = w @ ''/'' @ join_words (v # ws)"

text \<open>The text of a \<open>PathBuf\<close> that was collected from components.\<close>

fun path_text :: "Component list \<Rightarrow> string" where
  "path_text (RootDir # cs) = ''/'' @ join_words (map component_text cs)"
| "path_text cs = join_words (map component_text cs)"

section \<open>Normalizing\<close>

fun clean_loop :: "Component list \<Rightarrow> Component list \<Rightarrow> nat \<Rightarrow> Component list option" where
  "clean_loop [] clean n = Some clean"
| "clean_loop (Normal w # cs) clean n = clean_loop cs (clean @ [Normal w]) (n + 1)"
| "clean_loop (CurDir # cs) clean n = clean_loop cs clean n"
| "clean_loop (ParentDir # cs) clean n =
     (if n = 0 \<or> clean = [] \<or> last clean = RootDir then None else clean_loop cs (butlast clean) (n - 1))"
| "clean_loop (RootDir # cs) clean n = clean_loop cs [RootDir] n"

definition normalize_components :: "Component list \<Rightarrow> Component list option" where
  "normalize_components cs =
     (case clean_loop cs [] 0 of
        None \<Rightarrow> None
      | Some clean \<Rightarrow> if clean \<noteq> [] \<and> hd clean = RootDir then Some clean else None)"

definition normalize_absolute_path :: "string \<Rightarrow> Component list option" where
  "normalize_absolute_path p = (if is_absolute p then normalize_components (components p) else None)"

definition path_starts_with :: "Component list \<Rightarrow> Component list \<Rightarrow> bool" where
  "path_starts_with path root = prefix root path"

section \<open>Reported paths\<close>

definition resolve_reported_absolute_path ::
    "(string \<Rightarrow> string option) \<Rightarrow> Component list \<Rightarrow> string \<Rightarrow> Component list option" where
  "resolve_reported_absolute_path url display_root reported =
     (if trim reported = [] \<or> CHR 0x00 \<in> set reported then None
      else
        (case (if prefix ''file:'' reported then url reported
               else if str_contains reported ''://'' then None else Some reported) of
           None \<Rightarrow> None
         | Some path \<Rightarrow>
             if is_absolute path then normalize_absolute_path path
             else normalize_components (display_root @ components path)))"

definition is_git :: "Component \<Rightarrow> bool" where
  "is_git c = (case c of Normal w \<Rightarrow> to_ascii_lowercase w = ''.git'' | _ \<Rightarrow> False)"

definition slashes :: "string \<Rightarrow> string" where
  "slashes s = map (\<lambda>c. if c = CHR 0x5C then CHR ''/'' else c) s"

definition display_path_from_resolved :: "Component list \<Rightarrow> Component list \<Rightarrow> string option" where
  "display_path_from_resolved display_root resolved =
     (case (if path_starts_with resolved display_root
            then (if drop (length display_root) resolved = [] then None else Some (drop (length display_root) resolved))
            else Some resolved) of
        None \<Rightarrow> None
      | Some display_path \<Rightarrow> if list_ex is_git display_path then None else Some (slashes (path_text display_path)))"

definition normalize_reported_path_for_display :: "(string \<Rightarrow> string option) \<Rightarrow> string \<Rightarrow> string \<Rightarrow> string option" where
  "normalize_reported_path_for_display url display_root reported =
     (case normalize_absolute_path display_root of
        None \<Rightarrow> None
      | Some root \<Rightarrow>
          (case resolve_reported_absolute_path url root reported of
             None \<Rightarrow> None
           | Some resolved \<Rightarrow> display_path_from_resolved root resolved))"

definition reported_path_is_within_root :: "(string \<Rightarrow> string option) \<Rightarrow> string \<Rightarrow> string \<Rightarrow> string \<Rightarrow> bool" where
  "reported_path_is_within_root url display_root reported root =
     (case normalize_absolute_path display_root of
        None \<Rightarrow> False
      | Some display_root \<Rightarrow>
          (case resolve_reported_absolute_path url display_root reported of
             None \<Rightarrow> False
           | Some resolved \<Rightarrow>
               (case normalize_absolute_path root of
                  None \<Rightarrow> False
                | Some root \<Rightarrow> path_starts_with resolved root)))"

text \<open>The sections of a snapshot that touch no file below the excluded root.\<close>

fun retain_sections ::
    "(string \<Rightarrow> string option) \<Rightarrow> string \<Rightarrow> string \<Rightarrow> string list \<Rightarrow> string \<Rightarrow> string option" where
  "retain_sections url display_root excluded [] retained = Some retained"
| "retain_sections url display_root excluded (section # sections) retained =
     (case unified_diff_section_paths section of
        None \<Rightarrow> None
      | Some (source, destination) \<Rightarrow>
          retain_sections url display_root excluded sections
            (if \<not> reported_path_is_within_root url display_root source excluded
               \<and> \<not> reported_path_is_within_root url display_root destination excluded
             then retained @ section else retained))"

definition filter_unified_diff_snapshot_outside_root ::
    "(string \<Rightarrow> string option) \<Rightarrow> string \<Rightarrow> string \<Rightarrow> string \<Rightarrow> string option" where
  "filter_unified_diff_snapshot_outside_root url diff display_root excluded =
     (if trim diff = [] then Some diff
      else if split_unified_diff_sections diff = [] then None
      else retain_sections url display_root excluded (split_unified_diff_sections diff) [])"

text \<open>A path that Kiro reports below the root of its own view.\<close>

fun rooted_relative :: "Component list \<Rightarrow> Component list \<Rightarrow> Component list option" where
  "rooted_relative [] acc = Some acc"
| "rooted_relative (Normal w # cs) acc =
     (if to_ascii_lowercase w = ''.git'' then None else rooted_relative cs (acc @ [Normal w]))"
| "rooted_relative (ParentDir # cs) acc = None"
| "rooted_relative (RootDir # cs) acc = rooted_relative cs acc"
| "rooted_relative (CurDir # cs) acc = rooted_relative cs acc"

definition reconcile_kiro_rooted_diff_path :: "string \<Rightarrow> string option \<Rightarrow> string option" where
  "reconcile_kiro_rooted_diff_path reported operation_path =
     (if \<not> is_absolute reported then None
      else
        (case rooted_relative (components reported) [] of
           None \<Rightarrow> None
         | Some cs \<Rightarrow>
             (case operation_path of
                None \<Rightarrow> None
              | Some path \<Rightarrow>
                  if is_absolute path then None
                  else if slashes (path_text cs) = path then Some path else None)))"

section \<open>Normalized paths\<close>

definition name_ok :: "string \<Rightarrow> bool" where
  "name_ok w = (w \<noteq> [] \<and> w \<noteq> ''.'' \<and> w \<noteq> ''..'' \<and> CHR ''/'' \<notin> set w)"

definition normal_ok :: "Component \<Rightarrow> bool" where
  "normal_ok c = (case c of Normal w \<Rightarrow> name_ok w | _ \<Rightarrow> False)"

text \<open>A normalized path: the root, then names.\<close>

definition clean_path :: "Component list \<Rightarrow> bool" where
  "clean_path cs = (cs \<noteq> [] \<and> hd cs = RootDir \<and> list_all normal_ok (tl cs))"

lemma split_on_words: "list_all (list_all (\<lambda>c. \<not> P c)) (split_on P s)"
  by (induction P s rule: split_on.induct) (auto split: list.splits)

definition named :: "Component \<Rightarrow> bool" where
  "named c = (case c of Normal w \<Rightarrow> name_ok w | _ \<Rightarrow> True)"

lemma components_named: "list_all named (components p)"
  using split_on_words [of "\<lambda>c. c = CHR ''/''" p]
  by (fastforce simp: components_def list_all_iff named_def component_of_def name_ok_def path_words_def)

lemma clean_loop_ok:
  "clean_loop cs clean n = Some r \<Longrightarrow> list_all named cs \<Longrightarrow> list_all normal_ok clean \<or> clean_path clean \<Longrightarrow>
   list_all normal_ok r \<or> clean_path r"
proof (induction cs clean n rule: clean_loop.induct)
  case (2 w cs clean n)
  then have "normal_ok (Normal w)" by (simp add: named_def normal_ok_def)
  with 2 show ?case by (cases clean) (auto simp: clean_path_def)
next
  case (4 cs clean n)
  then have "list_all normal_ok (butlast clean) \<or> clean_path (butlast clean)"
    by (cases clean rule: rev_cases) (auto simp: clean_path_def hd_append split: if_splits list.splits)
  with 4 show ?case by (auto split: if_splits)
next
  case (5 cs clean n)
  then show ?case by (auto simp: clean_path_def)
qed auto

lemma normalize_clean: "normalize_components cs = Some r \<Longrightarrow> list_all named cs \<Longrightarrow> clean_path r"
  using clean_loop_ok [of cs "[]" 0]
  by (auto simp: normalize_components_def normal_ok_def neq_Nil_conv split: option.splits if_splits Component.splits)

lemma clean_loop_names: "list_all normal_ok cs \<Longrightarrow> clean_loop cs clean n = Some (clean @ cs)"
proof (induction cs arbitrary: clean n)
  case (Cons c cs)
  then obtain w where "c = Normal w" by (cases c) (auto simp: normal_ok_def)
  with Cons show ?case by simp
qed simp

lemma normalize_idem: "clean_path cs \<Longrightarrow> normalize_components cs = Some cs"
  by (cases cs) (auto simp: clean_path_def normalize_components_def clean_loop_names)

section \<open>Displayed paths name what was resolved\<close>

lemma split_on_join: "ws \<noteq> [] \<Longrightarrow> list_all name_ok ws \<Longrightarrow> split_on (\<lambda>c. c = CHR ''/'') (join_words ws) = ws"
proof (induction ws rule: join_words.induct)
  case (2 w)
  then have "list_all (\<lambda>c. \<not> c = CHR ''/'') w" by (auto simp: name_ok_def list_all_iff)
  from split_on_none [OF this] show ?case by simp
next
  case (3 w v ws)
  have "list_all (\<lambda>c. \<not> c = CHR ''/'') w" using 3 by (auto simp: name_ok_def list_all_iff)
  from split_on_sep [OF this, of "CHR ''/''"] 3 show ?case by simp
qed simp


lemma normal_words:
  assumes "list_all normal_ok cs"
  obtains ws where "cs = map Normal ws" "list_all name_ok ws"
proof -
  have "\<exists>ws. cs = map Normal ws \<and> list_all name_ok ws"
    using assms
  proof (induction cs)
    case (Cons c cs)
    then obtain w ws where "c = Normal w" "name_ok w" "cs = map Normal ws" "list_all name_ok ws"
      by (cases c) (auto simp: normal_ok_def)
    then show ?case by (intro exI [of _ "w # ws"]) simp
  qed simp
  with that show ?thesis by blast
qed

lemma words_kept: "list_all name_ok ws \<Longrightarrow> map component_of (filter (\<lambda>w. w \<noteq> [] \<and> w \<noteq> ''.'') ws) = map Normal ws"
  by (induction ws) (auto simp: name_ok_def component_of_def)

lemma texts_of_words: "map component_text (map Normal ws) = ws"
  by (induction ws) simp_all


lemma absolute_components:
  assumes "clean_path cs"
  shows "components (path_text cs) = cs" "is_absolute (path_text cs)"
proof -
  from assms obtain ds where cs: "cs = RootDir # ds" and "list_all normal_ok ds"
    by (cases cs) (auto simp: clean_path_def)
  then obtain ws where ws: "ds = map Normal ws" "list_all name_ok ws" by (auto elim: normal_words)
  have printed: "path_text cs = CHR ''/'' # join_words ws" using texts_of_words [of ws] by (simp add: cs ws)
  then show "is_absolute (path_text cs)" by (simp add: is_absolute_def)
  with printed words_kept [OF ws(2)] split_on_join [OF _ ws(2)]
  show "components (path_text cs) = cs"
    by (cases "ws = []") (simp_all add: components_def path_words_def cs ws(1))
qed

text \<open>
  Normalizing is stable: the text of a normalized path is absolute, names the same path, and
  normalizes to it again; the path holds no dot, no double dot and no empty name.
\<close>

theorem normalize_stable:
  assumes "normalize_absolute_path p = Some r"
  shows "is_absolute (path_text r) \<and> normalize_absolute_path (path_text r) = Some r
    \<and> list_all (\<lambda>c. case c of Normal w \<Rightarrow> name_ok w | _ \<Rightarrow> False) (tl r) \<and> hd r = RootDir"
proof -
  have "clean_path r"
    using assms by (auto simp: normalize_absolute_path_def split: if_splits intro: normalize_clean components_named)
  with absolute_components [OF this] normalize_idem [OF this] show ?thesis
    by (simp add: normalize_absolute_path_def clean_path_def normal_ok_def [abs_def])
qed

theorem normalize_stable_witness:
  "normalize_absolute_path ''/a/b'' = Some [RootDir, Normal ''a'', Normal ''b'']"
proof -
  have "normalize_absolute_path ''/a/./c/../b'' = Some [RootDir, Normal ''a'', Normal ''b'']" by code_simp
  from normalize_stable [OF this] show ?thesis by simp
qed



lemma join_words_append: "ws \<noteq> [] \<Longrightarrow> vs \<noteq> [] \<Longrightarrow> join_words (ws @ vs) = join_words ws @ ''/'' @ join_words vs"
proof (induction ws rule: join_words.induct)
  case (2 w)
  then show ?case by (cases vs) simp_all
qed simp_all




text \<open>
  With a backslash the displayed path may name another file. A file of the display root whose
  name holds backslashes is displayed as an absolute path outside it.
\<close>

theorem backslash_display_escapes:
  "normalize_reported_path_for_display url ''/r'' (CHR 0x5C # ''etc'' @ CHR 0x5C # ''passwd'') = Some ''/etc/passwd''
   \<and> reported_path_is_within_root url ''/r'' (CHR 0x5C # ''etc'' @ CHR 0x5C # ''passwd'') ''/r''
   \<and> \<not> reported_path_is_within_root url ''/r'' ''/etc/passwd'' ''/r''"
  by code_simp

text \<open>Such a path can also be displayed as one in the Git directory, which the display leaves out otherwise.\<close>

lemma backslash_display_names_git:
  "normalize_reported_path_for_display url ''/r'' (''a'' @ CHR 0x5C # ''.git'') = Some ''a/.git''
   \<and> normalize_reported_path_for_display url ''/r'' ''a/.git'' = None"
  by code_simp

end
