(* ===== verification/Claude_Permission.thy ===== *)
theory Claude_Permission
  imports Canonical_Json Diff_Paths
begin

text \<open>
  Tool permissions of Claude Code, from \<^verbatim>\<open>crates/rovai-core/src/claude_permission.rs\<close>
  and \<^verbatim>\<open>crates/rovai-core/src/action.rs\<close>: how a native permission request becomes an
  action with the options a user may choose from. The canonical digest of a value is the argument
  \<open>digest\<close> (\<^verbatim>\<open>canonical_json_digest\<close> of \<open>Canonical_Json\<close>). Text outside ASCII is
  written byte by byte.
\<close>

section \<open>Text\<close>

definition nonempty :: "Value option \<Rightarrow> string option" where
  "nonempty v = nonblank (Option.bind v as_str)"

definition apostrophe :: string where "apostrophe = [CHR 0xE2, CHR 0x80, CHR 0x99]"
definition middle_dot :: string where "middle_dot = [CHR 0xC2, CHR 0xB7]"

definition path_join :: "string \<Rightarrow> string \<Rightarrow> string" where
  "path_join root path =
     (if is_absolute path then path
      else if root = [] \<or> last root = CHR ''/'' then root @ path else root @ ''/'' @ path)"

text \<open>\<open>str::split_once\<close> at two underscores\<close>

fun split_underscores :: "string \<Rightarrow> (string \<times> string) option" where
  "split_underscores (a # b # s) =
     (if a = CHR ''_'' \<and> b = CHR ''_'' then Some ([], s)
      else map_option (\<lambda>(x, y). (a # x, y)) (split_underscores (b # s)))"
| "split_underscores [a] = None"
| "split_underscores [] = None"

section \<open>Options\<close>

record RuntimePermissionOption =
  option_id :: string
  option_kind :: string
  option_label :: string
  option_consequence :: string
  native_response_digest :: string
  native_response :: Value
  allows_action :: bool

definition option_valid :: "(Value \<Rightarrow> string) \<Rightarrow> RuntimePermissionOption \<Rightarrow> string + unit" where
  "option_valid digest p =
     (if trim (option_id p) = [] \<or> trim (option_label p) = [] \<or> trim (option_consequence p) = []
         \<or> option_kind p \<notin> {''allow_once'', ''allow_session'', ''deny'', ''cancel'', ''other''}
      then Inl ''Runtime permission option is incomplete''
      else if digest (native_response p) \<noteq> native_response_digest p
      then Inl ''Runtime permission option response digest does not match''
      else Inr ())"

definition from_native ::
    "(Value \<Rightarrow> string) \<Rightarrow> string \<Rightarrow> string \<Rightarrow> string \<Rightarrow> string \<Rightarrow> Value \<Rightarrow> bool \<Rightarrow> string + RuntimePermissionOption" where
  "from_native digest oid kind label consequence response allows =
     (let p = \<lparr>option_id = oid, option_kind = kind, option_label = label, option_consequence = consequence,
          native_response_digest = digest response, native_response = response, allows_action = allows\<rparr>
      in and_then (option_valid digest p) (\<lambda>_. Inr p))"

definition deny_decision :: "string \<Rightarrow> Value" where
  "deny_decision message = Object [(''behavior'', JString ''deny''), (''message'', JString message)]"

text \<open>The scope and the label of one rule; the code keeps the label of the last.\<close>

definition rule_scope :: "Value \<Rightarrow> (string \<times> string) option" where
  "rule_scope rule =
     (case nonempty (get rule ''toolName'') of
        None \<Rightarrow> None
      | Some tool \<Rightarrow>
          (case get rule ''ruleContent'' of
             None \<Rightarrow> Some (tool, ''Yes, and don'' @ apostrophe @ ''t ask again for any '' @ tool @ '' command'')
           | Some (JString pattern) \<Rightarrow>
               if trim pattern = [] then None
               else Some (tool @ ''('' @ pattern @ '')'', ''Yes, and don'' @ apostrophe @ ''t ask again for: '' @ pattern)
           | Some _ \<Rightarrow> None))"

fun rule_scopes :: "Value list \<Rightarrow> (string \<times> string) list option" where
  "rule_scopes [] = Some []"
| "rule_scopes (rule # rules) =
     (case rule_scope rule of
        None \<Rightarrow> None
      | Some s \<Rightarrow> (case rule_scopes rules of None \<Rightarrow> None | Some ss \<Rightarrow> Some (s # ss)))"

definition remember_destination :: "Value \<Rightarrow> string option" where
  "remember_destination suggestion =
     (case get_str suggestion ''destination'' of
        None \<Rightarrow> None
      | Some d \<Rightarrow>
          if d = ''localSettings'' then Some (''localSettings '' @ middle_dot @ '' .claude/settings.local.json'')
          else if d = ''projectSettings'' then Some (''projectSettings '' @ middle_dot @ '' .claude/settings.json'')
          else if d = ''userSettings'' then Some ''userSettings''
          else if d = ''session'' then Some ''session''
          else None)"

definition remembered_permission_option ::
    "(Value \<Rightarrow> string) \<Rightarrow> Value \<Rightarrow> Value \<Rightarrow> string + RuntimePermissionOption option" where
  "remembered_permission_option digest suggestion tool_input =
     (if get_str suggestion ''type'' \<noteq> Some ''addRules'' \<or> get_str suggestion ''behavior'' \<noteq> Some ''allow'' then Inr None
      else
        (case remember_destination suggestion of
           None \<Rightarrow> Inr None
         | Some destination \<Rightarrow>
             (case Option.bind (get suggestion ''rules'') as_array of
                None \<Rightarrow> Inr None
              | Some rules \<Rightarrow>
                  if rules = [] then Inr None
                  else
                    (case rule_scopes rules of
                       None \<Rightarrow> Inr None
                     | Some ss \<Rightarrow>
                         and_then
                           (from_native digest (''claude.allow_remember.'' @ digest suggestion) ''other''
                              (if length ss = 1 then snd (last ss)
                               else ''Yes, and don'' @ apostrophe @ ''t ask again for: '' @ join_with '', '' (map fst ss))
                              (join_with [NL] (map fst ss) @ [NL] @ destination)
                              (Object [(''behavior'', JString ''allow''), (''updatedInput'', tool_input),
                                 (''updatedPermissions'', Array [suggestion])])
                              True)
                           (\<lambda>p. Inr (Some p))))))"

fun remembered_from ::
    "(Value \<Rightarrow> string) \<Rightarrow> Value \<Rightarrow> Value list \<Rightarrow> RuntimePermissionOption list \<Rightarrow> string + RuntimePermissionOption list" where
  "remembered_from digest tool_input [] options = Inr options"
| "remembered_from digest tool_input (suggestion # suggestions) options =
     and_then (remembered_permission_option digest suggestion tool_input) (\<lambda>p.
       remembered_from digest tool_input suggestions
         (case p of
            None \<Rightarrow> options
          | Some p \<Rightarrow> if option_id p \<in> option_id ` set options then options else options @ [p]))"

definition remembered_permission_options ::
    "(Value \<Rightarrow> string) \<Rightarrow> Value \<Rightarrow> Value \<Rightarrow> string + RuntimePermissionOption list" where
  "remembered_permission_options digest request tool_input =
     (if (case get request ''suppress_always_allow_rule'' of None \<Rightarrow> True | Some v \<Rightarrow> as_bool v = Some False)
      then
        (case Option.bind (get request ''permission_suggestions'') as_array of
           None \<Rightarrow> Inr []
         | Some suggestions \<Rightarrow> remembered_from digest tool_input suggestions [])
      else Inr [])"

section \<open>The action of a request\<close>

text \<open>A timeout in seconds is a double, kept as its bits.\<close>

datatype ShellCommandTransport =
  CommandArgument (command_index: nat) (argument_timeout: "u64 option")
| StandardInput (input_command: string) (input_timeout: "u64 option")

datatype CanonicalActionInput =
  ShellCommand (argv: "string list") (shell_cwd: string) (environment_refs: "string list") (command_transport: "ShellCommandTransport option")
| FileWrite (write_path: string) (write_operation: string) (content_digest: string)
| FileDelete (delete_path: string)
| GitMutation (workspace_path: string) (git_operation: string) (reference_name: "string option") (expected_oid: "string option")
| NetworkWrite (scheme: string) (write_host: string) (write_port: "16 word") (http_method: string) (body_digest: "string option")
| NetworkAccess (protocol: string) (access_host: string) (access_port: "16 word option")
| McpTool (mcp_server: string) (mcp_tool: string) (arguments: Value)
| SensitiveRead (resource: string)
| RuntimePermissionGrant (grant_cwd: string) (permissions: Value) (request_digest: string)
| RuntimeObservedUnknown (native_kind: string) (observation_digest: string)

record RuntimeActionRequestBinding =
  native_method :: string
  native_request_id :: Value
  native_item_id :: string
  native_thread_id :: string
  native_turn_id :: string
  response_context :: Value
  binding_options :: "RuntimePermissionOption list"

record ClaudePermissionAction =
  action_id :: string
  native_action_id :: string
  action_input :: CanonicalActionInput
  runtime_request :: RuntimeActionRequestBinding
  action_reason :: "string option"

abbreviation action_options :: "ClaudePermissionAction \<Rightarrow> RuntimePermissionOption list" where
  "action_options a \<equiv> binding_options (runtime_request a)"

definition CLAUDE_PERMISSION_NATIVE_METHOD :: string where
  "CLAUDE_PERMISSION_NATIVE_METHOD = ''claude/permission_request''"

definition action_input_of :: "string \<Rightarrow> string \<Rightarrow> Value \<Rightarrow> string \<Rightarrow> string + CanonicalActionInput" where
  "action_input_of tool_name cwd tool_input rdigest =
     (if tool_name = ''Bash'' then
        (case nonempty (get tool_input ''command'') of
           Some command \<Rightarrow> Inr (ShellCommand [command] cwd [] None)
         | None \<Rightarrow> Inl ''Claude Bash permission request has no command'')
      else if tool_name \<in> {''Write'', ''Edit'', ''NotebookEdit''} then
        map_sum id (\<lambda>path. FileWrite (path_join cwd path) (if tool_name = ''Write'' then ''create'' else ''patch'') rdigest)
          (ok_or (Option.bind (case get tool_input ''file_path'' of Some v \<Rightarrow> Some v | None \<Rightarrow> get tool_input ''notebook_path'') as_str)
             ''Claude file permission request has no path'')
      else if tool_name = ''Read'' then
        map_sum id SensitiveRead (ok_or (get_str tool_input ''file_path'') ''Claude read permission request has no path'')
      else
        (case strip_prefix ''mcp__'' tool_name of
           Some name \<Rightarrow>
             map_sum id (\<lambda>(server, tool). McpTool server tool tool_input)
               (ok_or (split_underscores name) ''Claude MCP permission request has no server/tool pair'')
         | None \<Rightarrow>
             Inr (RuntimePermissionGrant cwd (Object [(''toolName'', JString tool_name), (''toolInput'', tool_input)]) rdigest)))"

text \<open>The texts shown with the two options that are always there.\<close>

definition user_denied :: string where
  "user_denied =
     ''Rovai '' @ [CHR 0xE7, CHR 0x94, CHR 0xA8, CHR 0xE6, CHR 0x88, CHR 0xB7, CHR 0xE6, CHR 0x8B, CHR 0x92,
     CHR 0xE7, CHR 0xBB, CHR 0x9D, CHR 0xE4, CHR 0xBA, CHR 0x86, CHR 0xE8, CHR 0xBF, CHR 0x99, CHR 0xE6,
     CHR 0xAC, CHR 0xA1] @ '' Claude Code '' @ [CHR 0xE6, CHR 0x93, CHR 0x8D, CHR 0xE4, CHR 0xBD, CHR 0x9C]"

definition deny_text :: string where
  "deny_text =
     [CHR 0xE6, CHR 0x8B, CHR 0x92, CHR 0xE7, CHR 0xBB, CHR 0x9D, CHR 0xE8, CHR 0xBF, CHR 0x99, CHR 0xE4,
     CHR 0xB8, CHR 0x80, CHR 0xE6, CHR 0xAC, CHR 0xA1] @ '' Claude Code '' @ [CHR 0xE6, CHR 0x93, CHR 0x8D,
     CHR 0xE4, CHR 0xBD, CHR 0x9C, CHR 0xE3, CHR 0x80, CHR 0x82]"

definition allow_once_text :: string where
  "allow_once_text =
     [CHR 0xE4, CHR 0xBB, CHR 0x85, CHR 0xE5, CHR 0x85, CHR 0x81, CHR 0xE8, CHR 0xAE, CHR 0xB8, CHR 0xE8,
     CHR 0xBF, CHR 0x99, CHR 0xE4, CHR 0xB8, CHR 0x80, CHR 0xE6, CHR 0xAC, CHR 0xA1] @ '' Claude Code ''
     @ [CHR 0xE6, CHR 0x93, CHR 0x8D, CHR 0xE4, CHR 0xBD, CHR 0x9C, CHR 0xEF, CHR 0xBC, CHR 0x8C, CHR 0xE4,
     CHR 0xB8, CHR 0x8D, CHR 0xE4, CHR 0xBF, CHR 0x9D, CHR 0xE5, CHR 0xAD, CHR 0x98, CHR 0xE8, CHR 0xA7,
     CHR 0x84, CHR 0xE5, CHR 0x88, CHR 0x99, CHR 0xE3, CHR 0x80, CHR 0x82]"

definition base_options :: "(Value \<Rightarrow> string) \<Rightarrow> Value \<Rightarrow> string + RuntimePermissionOption list" where
  "base_options digest tool_input =
     and_then (from_native digest ''claude.deny'' ''deny'' ''No'' deny_text (deny_decision user_denied) False) (\<lambda>deny.
     and_then (from_native digest ''claude.allow_once'' ''allow_once'' ''Yes'' allow_once_text
        (Object [(''behavior'', JString ''allow''), (''updatedInput'', tool_input)]) True) (\<lambda>allow.
     Inr [deny, allow]))"

definition intercepted_action_request ::
    "(Value \<Rightarrow> string) \<Rightarrow> string \<Rightarrow> int \<Rightarrow> string \<Rightarrow> string \<Rightarrow> Value \<Rightarrow> string + ClaudePermissionAction" where
  "intercepted_action_request digest agent_run_id execution_epoch session root control_request =
     (if get_str control_request ''type'' \<noteq> Some ''control_request''
         \<or> (case get control_request ''session_id'' of None \<Rightarrow> False | Some v \<Rightarrow> as_str v \<noteq> Some session)
      then Inl ''Claude permission request is outside the active Native Session''
      else
        and_then (ok_or (nonempty (get control_request ''request_id'')) ''Claude permission request has no request_id'') (\<lambda>request_id.
        let request = (case get control_request ''request'' of None \<Rightarrow> Null | Some v \<Rightarrow> v) in
        if get_str request ''subtype'' \<noteq> Some ''can_use_tool''
        then Inl ''Claude control request is not a tool permission request''
        else
          and_then (ok_or (nonempty (get request ''tool_use_id'')) ''Claude permission request has no reliable tool_use_id'') (\<lambda>tool_use_id.
          and_then (ok_or (nonempty (get request ''tool_name'')) ''Claude permission request has no tool name'') (\<lambda>tool_name.
          if tool_name = ''AskUserQuestion'' then Inl ''Native questionnaires are user input, not execution authorization''
          else
            and_then (ok_or (case get request ''input'' of Some v \<Rightarrow> if is_object v then Some v else None | None \<Rightarrow> None)
               ''Claude permission request has no object tool input'') (\<lambda>tool_input.
            if \<not> is_absolute root then Inl ''Claude execution root must be absolute''
            else
              (let rdigest = digest (Object [(''requestId'', JString request_id), (''request'', control_request)]) in
              and_then (action_input_of tool_name root tool_input rdigest) (\<lambda>input.
              and_then (base_options digest tool_input) (\<lambda>base.
              and_then (remembered_permission_options digest request tool_input) (\<lambda>remembered.
              Inr \<lparr>action_id = ''action-'' @ digest (Object [(''agentRunId'', JString agent_run_id),
                       (''executionEpoch'', Number (if execution_epoch < 0 then NegInt execution_epoch else PosInt (nat execution_epoch))),
                       (''nativeMethod'', JString CLAUDE_PERMISSION_NATIVE_METHOD), (''requestId'', JString request_id)]),
                   native_action_id = request_id, action_input = input,
                   runtime_request =
                     \<lparr>native_method = CLAUDE_PERMISSION_NATIVE_METHOD, native_request_id = JString request_id,
                      native_item_id = tool_use_id, native_thread_id = session,
                      native_turn_id = ''claude-code:'' @ agent_run_id @ '':'' @
                        (if execution_epoch < 0 then ''-'' @ dec (nat (- execution_epoch)) else dec (nat execution_epoch)),
                      response_context = control_request, binding_options = base @ remembered\<rparr>,
                   action_reason = Some (case get_str tool_input ''description'' of Some d \<Rightarrow> d | None \<Rightarrow> tool_name)\<rparr>)))))))))"

end
