(* ===== verification/Claude_Control.thy ===== *)
theory Claude_Control
  imports Claude_Permission
begin

text \<open>
  The stdio control protocol with a running Claude Code process, from
  \<^verbatim>\<open>crates/rovai-core/src/claude_control.rs\<close>: permission requests and decisions, inputs
  steered into the running turn and their receipts, and the end of the session. Every stretch of
  code under the state lock is one operation; \<open>Claude_World\<close> interleaves them. The channels to
  the writer task and from it are part of the state: the queue, the answers given to the callers of
  \<open>steer\<close> and of \<open>write\<close>. Two logs are kept for the theorems only: the frames of which a byte has
  reached the pipe, and the permission requests that were ever registered.
\<close>

section \<open>State\<close>

record PendingPermission =
  pending_input :: Value
  remember_response_digests :: "string list"

record PendingSteer =
  write_started :: bool

record ControlState =
  initialized :: bool
  prompt_sent :: bool
  input_fenced :: bool
  steering :: "(string \<times> PendingSteer) list"
  input_writer :: bool
  closed :: bool
  closing :: bool
  pending :: "(string \<times> PendingPermission) list"
  questionnaire_requests :: "string list"
  session_state :: "string option"
  has_result :: bool
  turn_in_progress :: bool
  tasks :: "string list"

definition default_control_state :: ControlState where
  "default_control_state =
     \<lparr>initialized = False, prompt_sent = False, input_fenced = False, steering = [], input_writer = False,
      closed = False, closing = False, pending = [], questionnaire_requests = [], session_state = None,
      has_result = False, turn_in_progress = False, tasks = []\<rparr>"

definition run_ended :: "ControlState \<Rightarrow> bool" where
  "run_ended s = (prompt_sent s \<and> has_result s \<and> \<not> turn_in_progress s \<and> session_state s = Some ''idle''
     \<and> tasks s = [] \<and> pending s = [])"

record ControlWrite =
  write_frame :: "Value option"
  permission_request_id :: "string option"
  steer_id :: "string option"
  acknowledged :: "nat option"

text \<open>What the caller of \<open>steer\<close> is told: the native receipt, that nothing was written, or neither.\<close>

datatype SteerReceipt = Accepted | ActiveInputNotAccepted | Unreceipted

text \<open>
  Where the writer task stands with a write it took from the queue: it passed the check under the
  lock; the pipe took nothing yet and it waits to be woken; some bytes are out; the write ended; its
  permission request is settled. It ends by closing the pipe, or with an error.
\<close>

datatype WriterState =
  Idle
| Checked ControlWrite
| Parked ControlWrite
| Begun ControlWrite
| Finished ControlWrite "string + unit"
| Settled ControlWrite "string + unit"
| ShuttingDown
| Ended "string + unit"

text \<open>What a call still does after it released the lock.\<close>

datatype Todo = TSend ControlWrite | TMaybeClose

record ClaudeConfig =
  session_id :: string
  permission_mode :: string
  initialize_id :: string
  has_events :: bool

record ClaudeControl =
  control_state :: ControlState
  initialization :: bool
  initialize_result :: "(string + Value) option"
  wqueue :: "ControlWrite list"
  writer :: WriterState
  events :: "(string \<times> Value) list"
  receipts :: "(string \<times> SteerReceipt) list"
  acks :: "(nat \<times> (string + unit)) list"
  next_ack :: nat
  todo :: "Todo list"
  stdin_frames :: "ControlWrite list"
  registered :: "(string \<times> PendingPermission) list"

definition new_control :: ClaudeControl where
  "new_control =
     \<lparr>control_state = default_control_state, initialization = True, initialize_result = None, wqueue = [], writer = Idle,
      events = [], receipts = [], acks = [], next_ack = 0, todo = [], stdin_frames = [], registered = []\<rparr>"

abbreviation on_state :: "(ControlState \<Rightarrow> ControlState) \<Rightarrow> ClaudeControl \<Rightarrow> ClaudeControl" where
  "on_state f c \<equiv> c\<lparr>control_state := f (control_state c)\<rparr>"

definition emit :: "ClaudeConfig \<Rightarrow> string \<Rightarrow> Value \<Rightarrow> ClaudeControl \<Rightarrow> ClaudeControl" where
  "emit cfg event_type payload c = (if has_events cfg then c\<lparr>events := events c @ [(event_type, payload)]\<rparr> else c)"

definition emit_cancel :: "ClaudeConfig \<Rightarrow> string \<Rightarrow> ClaudeControl \<Rightarrow> ClaudeControl" where
  "emit_cancel cfg rid =
     emit cfg ''claude.permission_cancelled''
       (Object [(''nativeSessionId'', JString (session_id cfg)), (''requestId'', JString rid)])"

definition answer :: "string \<Rightarrow> SteerReceipt \<Rightarrow> ClaudeControl \<Rightarrow> ClaudeControl" where
  "answer iid r c = c\<lparr>receipts := receipts c @ [(iid, r)]\<rparr>"

fun writer_gone :: "WriterState \<Rightarrow> bool" where
  "writer_gone (Ended r) = True"
| "writer_gone w = False"

text \<open>\<open>UnboundedSender::send\<close> fails once the writer task is gone.\<close>

definition send :: "ControlWrite \<Rightarrow> ClaudeControl \<Rightarrow> ClaudeControl option" where
  "send w c = (if writer_gone (writer c) then None else Some (c\<lparr>wqueue := wqueue c @ [w]\<rparr>))"

definition wake_input_writer :: "ControlState \<Rightarrow> ControlState" where
  "wake_input_writer s = s\<lparr>input_writer := False\<rparr>"

text \<open>A wake lets the parked writer poll again.\<close>

definition woken :: "ClaudeControl \<Rightarrow> ClaudeControl" where
  "woken c = (if input_writer (control_state c)
     then c\<lparr>control_state := wake_input_writer (control_state c),
            writer := (case writer c of Parked w \<Rightarrow> Checked w | _ \<Rightarrow> writer c)\<rparr>
     else c)"

section \<open>Calls of the host\<close>

definition success_response :: "string \<Rightarrow> Value \<Rightarrow> Value" where
  "success_response rid decision =
     Object [(''type'', JString ''control_response''),
       (''response'', Object [(''subtype'', JString ''success''), (''request_id'', JString rid), (''response'', decision)])]"

definition user_frame :: "ClaudeConfig \<Rightarrow> string \<Rightarrow> string \<Rightarrow> Value" where
  "user_frame cfg uuid prompt =
     Object [(''type'', JString ''user''), (''session_id'', JString (session_id cfg)), (''parent_tool_use_id'', Null),
       (''uuid'', JString uuid), (''message'', Object [(''role'', JString ''user''), (''content'', JString prompt)])]"

text \<open>\<open>write\<close> of the code: the write is sent once the caller gets to it, and its acknowledgement awaited.\<close>

definition write_and_wait :: "Value \<Rightarrow> string option \<Rightarrow> ClaudeControl \<Rightarrow> ClaudeControl" where
  "write_and_wait frame permission c =
     c\<lparr>next_ack := next_ack c + 1,
       todo := todo c @ [TSend \<lparr>write_frame = Some frame, permission_request_id = permission, steer_id = None,
                          acknowledged = Some (next_ack c)\<rparr>]\<rparr>"

definition initialize :: "ClaudeConfig \<Rightarrow> ClaudeControl \<Rightarrow> ClaudeControl" where
  "initialize cfg =
     write_and_wait (Object [(''type'', JString ''control_request''), (''request_id'', JString (initialize_id cfg)),
       (''request'', Object [(''subtype'', JString ''initialize'')])]) None"

definition send_prompt :: "ClaudeConfig \<Rightarrow> string \<Rightarrow> string \<Rightarrow> ClaudeControl \<Rightarrow> (string + unit) \<times> ClaudeControl" where
  "send_prompt cfg uuid prompt c =
     (let s = control_state c in
      if \<not> initialized s \<or> closed s \<or> prompt_sent s then (Inl ''Claude Code control protocol is not ready for input'', c)
      else (Inr (), write_and_wait (user_frame cfg uuid prompt) None (on_state (\<lambda>s. s\<lparr>prompt_sent := True, session_state := None\<rparr>) c)))"

definition fence_active_input :: "ClaudeControl \<Rightarrow> ClaudeControl" where
  "fence_active_input c = woken (on_state (\<lambda>s. s\<lparr>input_fenced := True\<rparr>) c)"

datatype SteerStart = Waiting | Refused | NoWriter

definition steer :: "ClaudeConfig \<Rightarrow> string \<Rightarrow> string \<Rightarrow> ClaudeControl \<Rightarrow> SteerStart \<times> ClaudeControl" where
  "steer cfg iid prompt c =
     (let s = control_state c in
      if \<not> prompt_sent s \<or> closed s \<or> closing s \<or> input_fenced s then (Refused, c)
      else
        (let c = on_state (\<lambda>s. s\<lparr>steering := AList.update iid \<lparr>write_started = False\<rparr> (steering s)\<rparr>) c in
         case send \<lparr>write_frame = Some (user_frame cfg iid prompt), permission_request_id = None, steer_id = Some iid,
                 acknowledged = None\<rparr> c of
           None \<Rightarrow> (NoWriter, c) | Some c \<Rightarrow> (Waiting, c)))"

definition steer_returns :: "string \<Rightarrow> ClaudeControl \<Rightarrow> ClaudeControl" where
  "steer_returns iid = on_state (\<lambda>s. s\<lparr>steering := AList.delete iid (steering s)\<rparr>)"

definition decision_allowed :: "(Value \<Rightarrow> string) \<Rightarrow> PendingPermission \<Rightarrow> Value \<Rightarrow> bool" where
  "decision_allowed digest p decision =
     (case get_str decision ''behavior'' of
        None \<Rightarrow> False
      | Some b \<Rightarrow>
          (b = ''allow''
            \<and> (case get decision ''updatedInput'' of None \<Rightarrow> False | Some v \<Rightarrow> value_eq v (pending_input p))
            \<and> (get decision ''updatedPermissions'' = None \<or> digest decision \<in> set (remember_response_digests p)))
          \<or> (b = ''deny'' \<and> get_str decision ''message'' \<noteq> None))"

definition respond :: "(Value \<Rightarrow> string) \<Rightarrow> Value \<Rightarrow> Value \<Rightarrow> ClaudeControl \<Rightarrow> (string + unit) \<times> ClaudeControl" where
  "respond digest rid decision c =
     (case as_str rid of
        None \<Rightarrow> (Inl ''Claude permission request ID is not a string'', c)
      | Some rid \<Rightarrow>
          if closed (control_state c) then (Inl ''Claude Code control channel is closed'', c)
          else
            (case map_of (pending (control_state c)) rid of
               None \<Rightarrow> (Inl ''Claude permission request is no longer pending'', c)
             | Some p \<Rightarrow>
                 if decision_allowed digest p decision then (Inr (), write_and_wait (success_response rid decision) (Some rid) c)
                 else (Inl ''Claude permission decision changed the reviewed input or rules'', c)))"

section \<open>Frames of the process\<close>

definition plain_write :: "Value \<Rightarrow> ControlWrite" where
  "plain_write frame = \<lparr>write_frame = Some frame, permission_request_id = None, steer_id = None, acknowledged = None\<rparr>"

definition enqueue :: "Value \<Rightarrow> ClaudeControl \<Rightarrow> ClaudeControl" where
  "enqueue frame c = c\<lparr>todo := todo c @ [TSend (plain_write frame)]\<rparr>"

text \<open>A reply of the router, and what it tells the host; without a writer it fails and tells nothing.\<close>

definition reply_and_tell ::
    "Value \<Rightarrow> (ClaudeControl \<Rightarrow> ClaudeControl) \<Rightarrow> ClaudeControl \<Rightarrow> (string + bool) \<times> ClaudeControl" where
  "reply_and_tell frame tell c =
     (if writer_gone (writer c) then (Inl ''Claude Code stdin writer is unavailable'', c)
      else (Inr True, tell (enqueue frame c)))"

definition route_response :: "ClaudeConfig \<Rightarrow> Value \<Rightarrow> ClaudeControl \<Rightarrow> (string + bool) \<times> ClaudeControl" where
  "route_response cfg frame c =
     (case get frame ''response'' of
        None \<Rightarrow> (Inl ''Claude control response has no response'', c)
      | Some response \<Rightarrow>
          if get_str response ''request_id'' \<noteq> Some (initialize_id cfg)
          then (Inl ''Claude Code returned an unknown control response ID'', c)
          else if \<not> initialization c then (Inl ''Claude Code repeated its initialize response'', c)
          else
            (let c = c\<lparr>initialization := False\<rparr> in
             case get response ''response'' of
               Some body \<Rightarrow>
                 if get_str response ''subtype'' = Some ''success'' \<and> is_object body then
                   (if (case get_str body ''current_permission_mode'' of None \<Rightarrow> False | Some m \<Rightarrow> m \<noteq> permission_mode cfg)
                    then (Inr True, c\<lparr>initialize_result := Some (Inl ''Claude Code initialized with a different permission mode'')\<rparr>)
                    else (Inr True, on_state (\<lambda>s. s\<lparr>initialized := True\<rparr>) (c\<lparr>initialize_result := Some (Inr body)\<rparr>)))
                 else (Inr True, c\<lparr>initialize_result := Some (Inl ''Claude Code rejected protocol initialization'')\<rparr>)
             | None \<Rightarrow> (Inr True, c\<lparr>initialize_result := Some (Inl ''Claude Code rejected protocol initialization'')\<rparr>)))"

text \<open>The texts of the refusals.\<close>

definition incompatible_text :: string where
  "incompatible_text =
     ''Claude Code '' @ [CHR 0xE5, CHR 0x8E, CHR 0x9F, CHR 0xE7, CHR 0x94, CHR 0x9F, CHR 0xE6, CHR 0x9D,
     CHR 0x83, CHR 0xE9, CHR 0x99, CHR 0x90, CHR 0xE8, CHR 0xAF, CHR 0xB7, CHR 0xE6, CHR 0xB1, CHR 0x82,
     CHR 0xE7, CHR 0xBC, CHR 0xBA, CHR 0xE5, CHR 0xB0, CHR 0x91, CHR 0xE5, CHR 0x8F, CHR 0xAF, CHR 0xE9,
     CHR 0x9D, CHR 0xA0, CHR 0xE5, CHR 0xB7, CHR 0xA5, CHR 0xE5, CHR 0x85, CHR 0xB7] @ '' ID '' @ [CHR 0xE6,
     CHR 0x88, CHR 0x96, CHR 0xE6, CHR 0x9C, CHR 0x89, CHR 0xE6, CHR 0x95, CHR 0x88, CHR 0xE4, CHR 0xBC,
     CHR 0x9A, CHR 0xE8, CHR 0xAF, CHR 0x9D, CHR 0xE7, CHR 0xBB, CHR 0x91, CHR 0xE5, CHR 0xAE, CHR 0x9A,
     CHR 0xEF, CHR 0xBC, CHR 0x8C, CHR 0xE6, CHR 0x93, CHR 0x8D, CHR 0xE4, CHR 0xBD, CHR 0x9C, CHR 0xE5,
     CHR 0xB7, CHR 0xB2, CHR 0xE6, CHR 0x8B, CHR 0x92, CHR 0xE7, CHR 0xBB, CHR 0x9D]"

definition incompatible_summary :: string where
  "incompatible_summary =
     ''Claude Code '' @ [CHR 0xE5, CHR 0x8E, CHR 0x9F, CHR 0xE7, CHR 0x94, CHR 0x9F, CHR 0xE6, CHR 0x9D,
     CHR 0x83, CHR 0xE9, CHR 0x99, CHR 0x90, CHR 0xE8, CHR 0xAF, CHR 0xB7, CHR 0xE6, CHR 0xB1, CHR 0x82,
     CHR 0xE4, CHR 0xB8, CHR 0x8D, CHR 0xE5, CHR 0x85, CHR 0xBC, CHR 0xE5, CHR 0xAE, CHR 0xB9, CHR 0xEF,
     CHR 0xBC, CHR 0x8C, CHR 0xE6, CHR 0x93, CHR 0x8D, CHR 0xE4, CHR 0xBD, CHR 0x9C, CHR 0xE5, CHR 0xB7,
     CHR 0xB2, CHR 0xE6, CHR 0x8B, CHR 0x92, CHR 0xE7, CHR 0xBB, CHR 0x9D]"

definition questionnaire_text :: string where
  "questionnaire_text =
     [CHR 0xE6, CHR 0x9A, CHR 0x82, CHR 0xE4, CHR 0xB8, CHR 0x8D, CHR 0xE6, CHR 0x94, CHR 0xAF, CHR 0xE6,
     CHR 0x8C, CHR 0x81, CHR 0xE5, CHR 0x8E, CHR 0x9F, CHR 0xE7, CHR 0x94, CHR 0x9F, CHR 0xE9, CHR 0x97,
     CHR 0xAE, CHR 0xE5, CHR 0x8D, CHR 0xB7, CHR 0xEF, CHR 0xBC, CHR 0x8C, CHR 0xE8, CHR 0xAF, CHR 0xB7,
     CHR 0xE9, CHR 0x80, CHR 0x9A, CHR 0xE8, CHR 0xBF, CHR 0x87, CHR 0xE5, CHR 0xAF, CHR 0xB9, CHR 0xE8,
     CHR 0xAF, CHR 0x9D, CHR 0xE8, CHR 0xAF, CHR 0xA2, CHR 0xE9, CHR 0x97, CHR 0xAE, CHR 0xE7, CHR 0x94,
     CHR 0xA8, CHR 0xE6, CHR 0x88, CHR 0xB7]"

definition questionnaire_summary :: string where
  "questionnaire_summary =
     [CHR 0xE5, CHR 0xAE, CHR 0xA2, CHR 0xE6, CHR 0x88, CHR 0xB7, CHR 0xE7, CHR 0xAB, CHR 0xAF, CHR 0xE4,
     CHR 0xB8, CHR 0x8D, CHR 0xE6, CHR 0x94, CHR 0xAF, CHR 0xE6, CHR 0x8C, CHR 0x81, CHR 0xE5, CHR 0x8E,
     CHR 0x9F, CHR 0xE7, CHR 0x94, CHR 0x9F, CHR 0xE9, CHR 0x97, CHR 0xAE, CHR 0xE5, CHR 0x8D, CHR 0xB7,
     CHR 0xEF, CHR 0xBC, CHR 0x8C, CHR 0xE6, CHR 0x9C, CHR 0xAA, CHR 0xE6, CHR 0x8F, CHR 0x90, CHR 0xE4,
     CHR 0xBA, CHR 0xA4, CHR 0xE7, CHR 0xAD, CHR 0x94, CHR 0xE6, CHR 0xA1, CHR 0x88]"

definition diagnostic :: "string \<Rightarrow> string \<Rightarrow> string \<Rightarrow> Value" where
  "diagnostic did code summary =
     Object [(''diagnosticId'', JString did), (''code'', JString code), (''status'', JString ''failed''), (''summary'', JString summary)]"

definition compatible_request :: "ClaudeConfig \<Rightarrow> Value \<Rightarrow> Value \<Rightarrow> ControlState \<Rightarrow> bool" where
  "compatible_request cfg frame request s =
     (has_events cfg \<and> initialized s \<and> prompt_sent s
      \<and> nonempty (get request ''tool_use_id'') \<noteq> None \<and> nonempty (get request ''tool_name'') \<noteq> None
      \<and> (case get request ''input'' of None \<Rightarrow> False | Some v \<Rightarrow> is_object v)
      \<and> (case get frame ''session_id'' of None \<Rightarrow> True | Some v \<Rightarrow> as_str v = Some (session_id cfg)))"

definition register_request ::
    "(Value \<Rightarrow> string) \<Rightarrow> ClaudeConfig \<Rightarrow> string \<Rightarrow> Value \<Rightarrow> Value \<Rightarrow> ClaudeControl \<Rightarrow> (string + bool) \<times> ClaudeControl" where
  "register_request digest cfg rid frame request c =
     (let input = (case get request ''input'' of None \<Rightarrow> Null | Some v \<Rightarrow> v) in
      case remembered_permission_options digest request input of
        Inl e \<Rightarrow> (Inl e, c)
      | Inr options \<Rightarrow>
          (let p = \<lparr>pending_input = input, remember_response_digests = map native_response_digest options\<rparr> in
           (Inr True,
            emit cfg ''claude.permission_request'' (Object [(''nativeSessionId'', JString (session_id cfg)), (''controlRequest'', frame)])
              (on_state (\<lambda>s. s\<lparr>pending := (rid, p) # pending s\<rparr>) (c\<lparr>registered := registered c @ [(rid, p)]\<rparr>)))))"

definition route_request ::
    "(Value \<Rightarrow> string) \<Rightarrow> ClaudeConfig \<Rightarrow> Value \<Rightarrow> ClaudeControl \<Rightarrow> (string + bool) \<times> ClaudeControl" where
  "route_request digest cfg frame c =
     (case nonempty (get frame ''request_id'') of
        None \<Rightarrow> (Inl ''Claude control request has no request_id'', c)
      | Some rid \<Rightarrow>
          (case get frame ''request'' of
             None \<Rightarrow> (Inl ''Claude control request has no request'', c)
           | Some request \<Rightarrow>
               (let s = control_state c in
                if closed s then (Inl ''Claude Code requested permission after channel closure'', c)
                else if map_of (pending s) rid \<noteq> None then (Inl ''Claude Code repeated a pending request_id'', c)
                else if rid \<in> set (questionnaire_requests s) then (Inr True, c)
                else if get_str request ''subtype'' \<noteq> Some ''can_use_tool'' then
                  reply_and_tell (Object [(''type'', JString ''control_response''), (''response'',
                     Object [(''subtype'', JString ''error''), (''request_id'', JString rid),
                       (''error'', JString ''Unsupported Claude control request'')])]) (\<lambda>c. c) c
                else if \<not> compatible_request cfg frame request s then
                  reply_and_tell (success_response rid (deny_decision incompatible_text))
                    (emit cfg ''runtime.diagnostic''
                       (diagnostic ''claude-permission'' ''runtime_permission_incompatible'' incompatible_summary)) c
                else if get_str request ''tool_name'' = Some ''AskUserQuestion'' then
                  reply_and_tell (success_response rid (deny_decision questionnaire_text))
                    (emit cfg ''runtime.diagnostic''
                       (diagnostic ''claude-questionnaire'' ''runtime_questionnaire_unsupported'' questionnaire_summary))
                    (on_state (\<lambda>s. s\<lparr>questionnaire_requests := rid # questionnaire_requests s\<rparr>) c)
                else register_request digest cfg rid frame request c)))"

definition route_cancel :: "ClaudeConfig \<Rightarrow> Value \<Rightarrow> ClaudeControl \<Rightarrow> (string + bool) \<times> ClaudeControl" where
  "route_cancel cfg frame c =
     (case nonempty (get frame ''request_id'') of
        None \<Rightarrow> (Inl ''Claude control cancellation has no request_id'', c)
      | Some rid \<Rightarrow>
          (let removed = map_of (pending (control_state c)) rid \<noteq> None;
               c = on_state (\<lambda>s. s\<lparr>pending := AList.delete rid (pending s)\<rparr>) c;
               c = (if removed then emit_cancel cfg rid c else c)
           in (Inr True, c\<lparr>todo := todo c @ [TMaybeClose]\<rparr>)))"

definition route :: "(Value \<Rightarrow> string) \<Rightarrow> ClaudeConfig \<Rightarrow> Value \<Rightarrow> ClaudeControl \<Rightarrow> (string + bool) \<times> ClaudeControl" where
  "route digest cfg frame c =
     (if get_str frame ''type'' = Some ''control_response'' then route_response cfg frame c
      else if get_str frame ''type'' = Some ''control_request'' then route_request digest cfg frame c
      else if get_str frame ''type'' = Some ''control_cancel_request'' then route_cancel cfg frame c
      else (Inr False, c))"

text \<open>The inputs a frame acknowledges, and the receipts sent for them.\<close>

definition receipt_ids :: "ClaudeConfig \<Rightarrow> Value \<Rightarrow> string list" where
  "receipt_ids cfg frame =
     (if get_str frame ''session_id'' \<noteq> Some (session_id cfg) then []
      else if get_str frame ''type'' = Some ''user'' \<and> get frame ''isReplay'' = Some (Bool True)
      then (case get_str frame ''uuid'' of None \<Rightarrow> [] | Some u \<Rightarrow> [u])
      else if get_str frame ''type'' = Some ''result''
      then (case Option.bind (get frame ''user_message_uuids'') as_array of None \<Rightarrow> [] | Some vs \<Rightarrow> List.map_filter as_str vs)
      else [])"

definition receive_receipt :: "string \<Rightarrow> ClaudeControl \<Rightarrow> ClaudeControl" where
  "receive_receipt iid c =
     (if map_of (steering (control_state c)) iid = None then c
      else answer iid Accepted (on_state (\<lambda>s. s\<lparr>steering := AList.delete iid (steering s)\<rparr>) c))"

definition observe_system :: "ClaudeConfig \<Rightarrow> Value \<Rightarrow> ControlState \<Rightarrow> string + ControlState" where
  "observe_system cfg frame s =
     (let subtype = get_str frame ''subtype'';
          add = (\<lambda>s. case nonempty (get frame ''task_id'') of None \<Rightarrow> s | Some t \<Rightarrow> s\<lparr>tasks := List.insert t (tasks s)\<rparr>);
          drop_task = (\<lambda>s. case nonempty (get frame ''task_id'') of None \<Rightarrow> s | Some t \<Rightarrow> s\<lparr>tasks := removeAll t (tasks s)\<rparr>)
      in
      if subtype = Some ''session_state_changed'' then
        (if get_str frame ''session_id'' \<noteq> Some (session_id cfg)
         then Inl ''Claude Code session state is outside the active session''
         else
           (case get_str frame ''state'' of
              None \<Rightarrow> Inl ''Claude Code emitted an unsupported session state''
            | Some v \<Rightarrow>
                if v \<in> {''idle'', ''running'', ''requires_action''} then Inr (s\<lparr>session_state := Some v\<rparr>)
                else Inl ''Claude Code emitted an unsupported session state''))
      else if subtype = Some ''task_started'' \<and> get_str frame ''task_type'' \<in> {Some ''local_agent'', Some ''local_workflow''}
      then Inr (add s)
      else if subtype = Some ''task_notification'' then Inr (drop_task s)
      else if subtype = Some ''task_updated''
        \<and> Option.bind (pointer frame ''patch'' ''status'') as_str \<in> {Some ''completed'', Some ''failed'', Some ''stopped'', Some ''cancelled''}
      then Inr (drop_task s)
      else Inr s)"

definition observe_turn :: "Value \<Rightarrow> ControlState \<Rightarrow> ControlState" where
  "observe_turn frame s =
     (if get_str frame ''type'' = Some ''result'' then s\<lparr>has_result := True, turn_in_progress := False\<rparr>
      else if get_str frame ''type'' \<in> {Some ''assistant'', Some ''stream_event''}
        \<and> (get frame ''parent_tool_use_id'' = None \<or> get frame ''parent_tool_use_id'' = Some Null)
      then s\<lparr>turn_in_progress := True\<rparr>
      else s)"

definition observe :: "ClaudeConfig \<Rightarrow> Value \<Rightarrow> ClaudeControl \<Rightarrow> (string + unit) \<times> ClaudeControl" where
  "observe cfg frame c =
     (let c = fold receive_receipt (receipt_ids cfg frame) c in
      case (if get_str frame ''type'' = Some ''system'' then observe_system cfg frame (control_state c) else Inr (control_state c)) of
        Inl e \<Rightarrow> (Inl e, c)
      | Inr s \<Rightarrow>
          (let c = woken (c\<lparr>control_state := observe_turn frame s\<rparr>)
           in (Inr (), c\<lparr>todo := todo c @ [TMaybeClose]\<rparr>)))"

definition close_write :: ControlWrite where
  "close_write = \<lparr>write_frame = None, permission_request_id = None, steer_id = None, acknowledged = None\<rparr>"

definition maybe_close :: "ClaudeControl \<Rightarrow> (string + unit) \<times> ClaudeControl" where
  "maybe_close c =
     (let s = control_state c in
      if run_ended s \<and> \<not> closing s \<and> \<not> closed s then
        (let c = on_state (\<lambda>s. s\<lparr>closing := True\<rparr>) c in
         case send close_write c of
           None \<Rightarrow> (Inl ''Claude Code stdin writer is unavailable'', c) | Some c \<Rightarrow> (Inr (), c))
      else (Inr (), c))"

definition disconnect :: "ClaudeConfig \<Rightarrow> ClaudeControl \<Rightarrow> ClaudeControl" where
  "disconnect cfg c =
     (let s = control_state c;
          c = fold (\<lambda>(iid, p). answer iid (if write_started p then Unreceipted else ActiveInputNotAccepted)) (steering s) c;
          c = woken (on_state (\<lambda>s. s\<lparr>closed := True, steering := []\<rparr>) c);
          c = fold (\<lambda>(rid, p). emit_cancel cfg rid) (pending s) (on_state (\<lambda>s. s\<lparr>pending := []\<rparr>) c)
      in if initialization c
         then c\<lparr>initialization := False, initialize_result := Some (Inl ''Claude Code disconnected before initialization'')\<rparr>
         else c)"

section \<open>The writer task\<close>

definition steer_permitted :: "ControlWrite \<Rightarrow> ControlState \<Rightarrow> bool" where
  "steer_permitted w s =
     (case steer_id w of None \<Rightarrow> True | Some i \<Rightarrow> \<not> input_fenced s \<and> \<not> closed s \<and> map_of (steering s) i \<noteq> None)"

text \<open>A steered input that may no longer be written is reported as not accepted, if it still waits.\<close>

definition refuse_steer :: "ControlWrite \<Rightarrow> ClaudeControl \<Rightarrow> ClaudeControl" where
  "refuse_steer w c =
     (case steer_id w of
        None \<Rightarrow> c
      | Some i \<Rightarrow>
          if map_of (steering (control_state c)) i = None then c
          else answer i ActiveInputNotAccepted (on_state (\<lambda>s. s\<lparr>steering := AList.delete i (steering s)\<rparr>) c))"

definition acknowledge :: "ControlWrite \<Rightarrow> string + unit \<Rightarrow> ClaudeControl \<Rightarrow> ClaudeControl" where
  "acknowledge w r c = (case acknowledged w of None \<Rightarrow> c | Some n \<Rightarrow> c\<lparr>acks := acks c @ [(n, r)]\<rparr>)"

definition write_permitted :: "ControlWrite \<Rightarrow> ControlState \<Rightarrow> bool" where
  "write_permitted w s =
     (steer_permitted w s \<and> \<not> closed s
      \<and> (case permission_request_id w of None \<Rightarrow> True | Some rid \<Rightarrow> map_of (pending s) rid \<noteq> None))"

definition take_write :: "ClaudeControl \<Rightarrow> ClaudeControl" where
  "take_write c =
     (case (writer c, wqueue c) of
        (Idle, w # ws) \<Rightarrow>
          (let c = c\<lparr>wqueue := ws\<rparr>; s = control_state c in
           case write_frame w of
             None \<Rightarrow>
               if run_ended s then on_state (\<lambda>s. s\<lparr>closed := True\<rparr>) (c\<lparr>writer := ShuttingDown\<rparr>)
               else on_state (\<lambda>s. s\<lparr>closing := False\<rparr>) c
           | Some frame \<Rightarrow>
               if write_permitted w s then c\<lparr>writer := Checked w\<rparr>
               else acknowledge w (Inl ''Claude permission request was cancelled or disconnected'')
                 (if steer_permitted w s then c else refuse_steer w c))
      | _ \<Rightarrow> c)"

text \<open>What the pipe answers to an attempt to write: it takes nothing yet, some bytes, or fails.\<close>

datatype PipeAnswer = PipePending | PipeTook | PipeFailed string

definition mark_started :: "string \<Rightarrow> ControlState \<Rightarrow> ControlState" where
  "mark_started i s = s\<lparr>input_writer := False, steering := AList.update i \<lparr>write_started = True\<rparr> (steering s),
     session_state := None, has_result := False\<rparr>"

definition poll_steer :: "PipeAnswer \<Rightarrow> ControlWrite \<Rightarrow> string \<Rightarrow> ClaudeControl \<Rightarrow> ClaudeControl" where
  "poll_steer pipe w i c =
     (let s = control_state c in
      if input_fenced s \<or> closed s \<or> map_of (steering s) i = None
      then on_state (\<lambda>s. s\<lparr>input_writer := False\<rparr>) (refuse_steer w (c\<lparr>writer := Finished w (Inr ())\<rparr>))
      else
        (case pipe of
           PipePending \<Rightarrow> on_state (\<lambda>s. s\<lparr>input_writer := True\<rparr>) (c\<lparr>writer := Parked w\<rparr>)
         | PipeTook \<Rightarrow> on_state (mark_started i) (c\<lparr>writer := Begun w, stdin_frames := stdin_frames c @ [w]\<rparr>)
         | PipeFailed e \<Rightarrow> on_state (\<lambda>s. s\<lparr>input_writer := False\<rparr>) (c\<lparr>writer := Finished w (Inl e)\<rparr>)))"

text \<open>The pipe wakes a parked writer; it then polls again.\<close>

definition attempt_write :: "PipeAnswer \<Rightarrow> ClaudeControl \<Rightarrow> ClaudeControl" where
  "attempt_write pipe c =
     (case writer c of
        Checked w \<Rightarrow>
          (case steer_id w of
             Some i \<Rightarrow> poll_steer pipe w i c
           | None \<Rightarrow>
               (case pipe of
                  PipePending \<Rightarrow> c
                | PipeTook \<Rightarrow> c\<lparr>writer := Begun w, stdin_frames := stdin_frames c @ [w]\<rparr>
                | PipeFailed e \<Rightarrow> c\<lparr>writer := Finished w (Inl e)\<rparr>))
      | Parked w \<Rightarrow> (case steer_id w of Some i \<Rightarrow> poll_steer pipe w i c | None \<Rightarrow> c)
      | _ \<Rightarrow> c)"

text \<open>A write under way ends, well or not; any write may run into its time limit.\<close>

definition finish_write :: "string + unit \<Rightarrow> ClaudeControl \<Rightarrow> ClaudeControl" where
  "finish_write r c = (case writer c of Begun w \<Rightarrow> c\<lparr>writer := Finished w r\<rparr> | _ \<Rightarrow> c)"

definition write_timed_out :: "ClaudeControl \<Rightarrow> ClaudeControl" where
  "write_timed_out c =
     (case writer c of
        Checked w \<Rightarrow> c\<lparr>writer := Finished w (Inl ''Claude Code stdin write timed out'')\<rparr>
      | Parked w \<Rightarrow> c\<lparr>writer := Finished w (Inl ''Claude Code stdin write timed out'')\<rparr>
      | Begun w \<Rightarrow> c\<lparr>writer := Finished w (Inl ''Claude Code stdin write timed out'')\<rparr>
      | _ \<Rightarrow> c)"

definition settle_permission :: "ClaudeControl \<Rightarrow> ClaudeControl" where
  "settle_permission c =
     (case writer c of
        Finished w r \<Rightarrow>
          (case permission_request_id w of
             None \<Rightarrow> c\<lparr>writer := Settled w r\<rparr>
           | Some rid \<Rightarrow> on_state (\<lambda>s. s\<lparr>pending := AList.delete rid (pending s)\<rparr>) (c\<lparr>writer := Settled w r\<rparr>))
      | _ \<Rightarrow> c)"

definition complete_write :: "ClaudeControl \<Rightarrow> ClaudeControl" where
  "complete_write c =
     (case writer c of
        Settled w r \<Rightarrow>
          (let c = acknowledge w r c in
           case r of
             Inl e \<Rightarrow> c\<lparr>writer := Ended (Inl ''failed to write Claude Code control JSON'')\<rparr>
           | Inr _ \<Rightarrow> snd (maybe_close (c\<lparr>writer := Idle\<rparr>)))
      | _ \<Rightarrow> c)"

definition shutdown_pipe :: "string + unit \<Rightarrow> ClaudeControl \<Rightarrow> ClaudeControl" where
  "shutdown_pipe r c = (case writer c of ShuttingDown \<Rightarrow> c\<lparr>writer := Ended r\<rparr> | _ \<Rightarrow> c)"

text \<open>One thing left to do by a call.\<close>

fun do_todo :: "Todo \<Rightarrow> ClaudeControl \<Rightarrow> ClaudeControl" where
  "do_todo (TSend w) c = (case send w c of None \<Rightarrow> c | Some c \<Rightarrow> c)"
| "do_todo TMaybeClose c = snd (maybe_close c)"

end
