(* ===== verification/Claude_World.thy ===== *)
theory Claude_World
  imports Claude_Control
begin

text \<open>
  The control protocol at work: the calls of the host, the frames of the process, the sends and the
  closing left to do after a lock was released, and the writer task, in any order. What is left to
  do by concurrent calls may be done in any order, so every interleaving of the code is one here.
\<close>

section \<open>Steps\<close>

text \<open>The inputs that were steered into the run so far, whatever became of them.\<close>

fun held_write :: "WriterState \<Rightarrow> ControlWrite list" where
  "held_write (Checked w) = [w]"
| "held_write (Parked w) = [w]"
| "held_write (Begun w) = [w]"
| "held_write (Finished w r) = [w]"
| "held_write (Settled w r) = [w]"
| "held_write Idle = []"
| "held_write ShuttingDown = []"
| "held_write (Ended r) = []"

definition todo_writes :: "ClaudeControl \<Rightarrow> ControlWrite list" where
  "todo_writes c = List.map_filter (\<lambda>t. case t of TSend w \<Rightarrow> Some w | TMaybeClose \<Rightarrow> None) (todo c)"

definition all_writes :: "ClaudeControl \<Rightarrow> ControlWrite list" where
  "all_writes c = stdin_frames c @ held_write (writer c) @ wqueue c @ todo_writes c"

definition steered :: "ControlWrite list \<Rightarrow> string list" where
  "steered ws = List.map_filter steer_id ws"

definition fresh_input :: "string \<Rightarrow> ClaudeControl \<Rightarrow> bool" where
  "fresh_input i c = (i \<notin> set (map fst (steering (control_state c))) \<union> set (map fst (receipts c)) \<union> set (steered (all_writes c)))"

text \<open>An input identifier is the key of a stored input, which is steered into a run at most once.\<close>

inductive claude_step :: "(Value \<Rightarrow> string) \<Rightarrow> ClaudeConfig \<Rightarrow> ClaudeControl \<Rightarrow> ClaudeControl \<Rightarrow> bool" for digest cfg where
  step_initialize: "claude_step digest cfg c (initialize cfg c)"
| step_send_prompt: "claude_step digest cfg c (snd (send_prompt cfg uuid prompt c))"
| step_fence: "claude_step digest cfg c (fence_active_input c)"
| step_steer: "fresh_input i c \<Longrightarrow> claude_step digest cfg c (snd (steer cfg i prompt c))"
| step_steer_returns: "map_of (receipts c) i \<noteq> None \<Longrightarrow> claude_step digest cfg c (steer_returns i c)"
| step_respond: "claude_step digest cfg c (snd (respond digest rid decision c))"
| step_route: "claude_step digest cfg c (snd (route digest cfg frame c))"
| step_observe: "claude_step digest cfg c (snd (observe cfg frame c))"
| step_disconnect: "claude_step digest cfg c (disconnect cfg c)"
| step_todo: "todo c = before @ t # after \<Longrightarrow> claude_step digest cfg c (do_todo t (c\<lparr>todo := before @ after\<rparr>))"
| step_take: "claude_step digest cfg c (take_write c)"
| step_attempt: "claude_step digest cfg c (attempt_write pipe c)"
| step_finish: "claude_step digest cfg c (finish_write r c)"
| step_timeout: "claude_step digest cfg c (write_timed_out c)"
| step_settle: "claude_step digest cfg c (settle_permission c)"
| step_complete: "claude_step digest cfg c (complete_write c)"
| step_shutdown: "claude_step digest cfg c (shutdown_pipe r c)"

inductive_cases claude_stepE: "claude_step digest cfg c c'"

section \<open>What the small operations leave alone\<close>

named_theorems frame_simps

lemma emit_frame [frame_simps]:
  "control_state (emit cfg t p c) = control_state c" "wqueue (emit cfg t p c) = wqueue c" "writer (emit cfg t p c) = writer c"
  "receipts (emit cfg t p c) = receipts c" "todo (emit cfg t p c) = todo c" "stdin_frames (emit cfg t p c) = stdin_frames c"
  "registered (emit cfg t p c) = registered c"
  by (simp_all add: emit_def)

lemma emit_cancel_frame [frame_simps]:
  "control_state (emit_cancel cfg r c) = control_state c" "wqueue (emit_cancel cfg r c) = wqueue c"
  "writer (emit_cancel cfg r c) = writer c" "receipts (emit_cancel cfg r c) = receipts c" "todo (emit_cancel cfg r c) = todo c"
  "stdin_frames (emit_cancel cfg r c) = stdin_frames c" "registered (emit_cancel cfg r c) = registered c"
  by (simp_all add: emit_cancel_def frame_simps)

lemma emit_cancels_frame [frame_simps]:
  fixes ps :: "(string \<times> PendingPermission) list" and cfg :: ClaudeConfig
  defines "f \<equiv> fold (\<lambda>(rid, p). emit_cancel cfg rid) ps"
  shows "control_state (f c) = control_state c" "wqueue (f c) = wqueue c" "writer (f c) = writer c" "receipts (f c) = receipts c"
    "todo (f c) = todo c" "stdin_frames (f c) = stdin_frames c" "registered (f c) = registered c"
  unfolding f_def by (induction ps arbitrary: c) (auto simp: frame_simps)

lemma answer_frame [frame_simps]:
  "control_state (answer i r c) = control_state c" "wqueue (answer i r c) = wqueue c" "writer (answer i r c) = writer c"
  "receipts (answer i r c) = receipts c @ [(i, r)]" "todo (answer i r c) = todo c" "stdin_frames (answer i r c) = stdin_frames c"
  "registered (answer i r c) = registered c"
  by (simp_all add: answer_def)

lemma acknowledge_frame [frame_simps]:
  "control_state (acknowledge w r c) = control_state c" "wqueue (acknowledge w r c) = wqueue c" "writer (acknowledge w r c) = writer c"
  "receipts (acknowledge w r c) = receipts c" "todo (acknowledge w r c) = todo c" "stdin_frames (acknowledge w r c) = stdin_frames c"
  "registered (acknowledge w r c) = registered c"
  by (simp_all add: acknowledge_def split: option.split)

lemma write_and_wait_frame [frame_simps]:
  "control_state (write_and_wait f p c) = control_state c" "wqueue (write_and_wait f p c) = wqueue c"
  "writer (write_and_wait f p c) = writer c" "receipts (write_and_wait f p c) = receipts c"
  "stdin_frames (write_and_wait f p c) = stdin_frames c" "registered (write_and_wait f p c) = registered c"
  "todo (write_and_wait f p c) =
     todo c @ [TSend \<lparr>write_frame = Some f, permission_request_id = p, steer_id = None, acknowledged = Some (next_ack c)\<rparr>]"
  by (simp_all add: write_and_wait_def)

lemma enqueue_frame [frame_simps]:
  "control_state (enqueue f c) = control_state c" "wqueue (enqueue f c) = wqueue c" "writer (enqueue f c) = writer c"
  "receipts (enqueue f c) = receipts c" "stdin_frames (enqueue f c) = stdin_frames c" "registered (enqueue f c) = registered c"
  "todo (enqueue f c) = todo c @ [TSend (plain_write f)]"
  by (simp_all add: enqueue_def)

lemma woken_frame [frame_simps]:
  "control_state (woken c) = (control_state c)\<lparr>input_writer := False\<rparr>"
  "wqueue (woken c) = wqueue c" "receipts (woken c) = receipts c" "todo (woken c) = todo c"
  "stdin_frames (woken c) = stdin_frames c" "registered (woken c) = registered c"
  "held_write (writer (woken c)) = held_write (writer c)"
  "writer_gone (writer (woken c)) = writer_gone (writer c)"
  by (cases "control_state c"; cases "writer c"; simp add: woken_def wake_input_writer_def)+

lemma receipts_frame [frame_simps]:
  fixes ps :: "(string \<times> PendingSteer) list" and g :: "PendingSteer \<Rightarrow> SteerReceipt"
  defines "f \<equiv> fold (\<lambda>(i, p). answer i (g p)) ps"
  shows "control_state (f c) = control_state c" "wqueue (f c) = wqueue c" "writer (f c) = writer c"
    "receipts (f c) = receipts c @ map (\<lambda>(i, p). (i, g p)) ps"
    "todo (f c) = todo c" "stdin_frames (f c) = stdin_frames c" "registered (f c) = registered c"
  unfolding f_def by (induction ps arbitrary: c) (auto simp: frame_simps)

lemma receive_receipts_frame [frame_simps]:
  fixes rs :: "string list"
  defines "f \<equiv> fold receive_receipt rs"
  shows "wqueue (f c) = wqueue c" "writer (f c) = writer c" "todo (f c) = todo c" "stdin_frames (f c) = stdin_frames c"
    "registered (f c) = registered c"
    "control_state (f c) = (control_state c)\<lparr>steering := filter (\<lambda>x. fst x \<notin> set rs) (steering (control_state c))\<rparr>"
proof -
  have delete: "AList.delete i m = filter (\<lambda>x. fst x \<noteq> i) m" for i and m :: "(string \<times> PendingSteer) list"
    by (induction m) auto
  have same: "filter (\<lambda>x. fst x \<noteq> i \<and> fst x \<notin> S) m = filter (\<lambda>x. fst x \<notin> S) m"
    if "map_of m i = None" for i and S and m :: "(string \<times> PendingSteer) list"
    using that by (induction m) (auto split: if_splits)
  show "wqueue (f c) = wqueue c" "writer (f c) = writer c" "todo (f c) = todo c" "stdin_frames (f c) = stdin_frames c"
      "registered (f c) = registered c"
      "control_state (f c) = (control_state c)\<lparr>steering := filter (\<lambda>x. fst x \<notin> set rs) (steering (control_state c))\<rparr>"
    unfolding f_def
    by (induction rs arbitrary: c) (auto simp: receive_receipt_def frame_simps delete same conj_commute)
qed

section \<open>The end of the session\<close>

fun no_steer_behind :: "ControlWrite list \<Rightarrow> bool" where
  "no_steer_behind [] = True"
| "no_steer_behind (w # ws) = (if write_frame w = None then list_all (\<lambda>v. steer_id v = None) ws else no_steer_behind ws)"

definition close_inv :: "ClaudeControl \<Rightarrow> bool" where
  "close_inv c \<longleftrightarrow>
     (\<not> writer_gone (writer c) \<longrightarrow> length (filter (\<lambda>w. write_frame w = None) (wqueue c)) =
        (if closing (control_state c) \<and> writer c \<noteq> ShuttingDown then 1 else 0))
     \<and> (writer c = ShuttingDown \<longrightarrow> closed (control_state c) \<and> closing (control_state c))"

definition order_inv :: "ClaudeControl \<Rightarrow> bool" where
  "order_inv c \<longleftrightarrow> no_steer_behind (wqueue c)
     \<and> (writer c = ShuttingDown \<longrightarrow> list_all (\<lambda>v. steer_id v = None) (wqueue c))"

definition todo_inv :: "ClaudeControl \<Rightarrow> bool" where
  "todo_inv c \<longleftrightarrow> (\<forall>w. TSend w \<in> set (todo c) \<longrightarrow> write_frame w \<noteq> None \<and> steer_id w = None)"

definition end_inv :: "ClaudeControl \<Rightarrow> bool" where
  "end_inv c \<longleftrightarrow>
     (run_ended (control_state c) \<and> \<not> closing (control_state c) \<and> \<not> closed (control_state c) \<and> \<not> writer_gone (writer c)
        \<longrightarrow> TMaybeClose \<in> set (todo c) \<or> (\<exists>w r. writer c = Settled w r))"

definition park_inv :: "ClaudeControl \<Rightarrow> bool" where
  "park_inv c \<longleftrightarrow>
     (\<forall>w. writer c = Parked w \<longrightarrow> input_writer (control_state c) \<and> steer_id w \<noteq> None \<and> steer_permitted w (control_state c))"

text \<open>
  Every input that was steered into the run waits, is being written, or was answered, and it is
  written only while it waits.
\<close>

definition begun_inputs :: "ClaudeControl \<Rightarrow> string list" where
  "begun_inputs c = steered (stdin_frames c)"

fun unbegun :: "WriterState \<Rightarrow> ControlWrite list" where
  "unbegun (Checked w) = [w]"
| "unbegun (Parked w) = [w]"
| "unbegun (Begun w) = []"
| "unbegun (Finished w r) = []"
| "unbegun (Settled w r) = []"
| "unbegun Idle = []"
| "unbegun ShuttingDown = []"
| "unbegun (Ended r) = []"

definition input_inv :: "ClaudeControl \<Rightarrow> bool" where
  "input_inv c \<longleftrightarrow>
     distinct (map fst (steering (control_state c)))
     \<and> distinct (map fst (receipts c))
     \<and> set (map fst (steering (control_state c))) \<inter> set (map fst (receipts c)) = {}
     \<and> distinct (begun_inputs c @ steered (unbegun (writer c)) @ steered (wqueue c))
     \<and> (\<forall>i. (i, ActiveInputNotAccepted) \<in> set (receipts c) \<longrightarrow> i \<notin> set (begun_inputs c))
     \<and> (\<forall>i p. (i, p) \<in> set (steering (control_state c)) \<longrightarrow> (write_started p \<longleftrightarrow> i \<in> set (begun_inputs c)))"

lemma steered_simps [simp]:
  "steered [] = []" "steered (w # ws) = (case steer_id w of None \<Rightarrow> steered ws | Some i \<Rightarrow> i # steered ws)"
  "steered (ws @ vs) = steered ws @ steered vs"
  by (simp_all add: steered_def List.map_filter_def split: option.split)

lemma todo_writes_simps [simp]:
  "todo c = [] \<Longrightarrow> todo_writes c = []"
  "todo_writes (c\<lparr>todo := ts @ us\<rparr>) = todo_writes (c\<lparr>todo := ts\<rparr>) @ todo_writes (c\<lparr>todo := us\<rparr>)"
  "todo_writes (c\<lparr>todo := TSend w # us\<rparr>) = w # todo_writes (c\<lparr>todo := us\<rparr>)"
  "todo_writes (c\<lparr>todo := TMaybeClose # us\<rparr>) = todo_writes (c\<lparr>todo := us\<rparr>)"
  by (simp_all add: todo_writes_def List.map_filter_def)

lemma map_of_filter_fst: "map_of (filter (\<lambda>x. P (fst x)) m) k = (if P k then map_of m k else None)"
  by (induction m) auto

lemma steering_gone: "map_of m i = None \<Longrightarrow> AList.delete i m = m" for m :: "(string \<times> PendingSteer) list"
  by (simp add: AList.delete_idem map_of_eq_None_iff)

section \<open>The steps keep the end of the session\<close>

lemma no_steer_behind_snoc:
  "no_steer_behind (ws @ [w]) \<longleftrightarrow> no_steer_behind ws \<and> (filter (\<lambda>w. write_frame w = None) ws \<noteq> [] \<longrightarrow> steer_id w = None)"
  by (induction ws) auto

lemma todo_writes_eq: "todo_writes c = List.map_filter (\<lambda>t. case t of TSend w \<Rightarrow> Some w | TMaybeClose \<Rightarrow> None) (todo c)"
  by (simp add: todo_writes_def)

text \<open>What the invariants look at, and what each call makes of it.\<close>

definition view :: "ClaudeControl \<Rightarrow> ControlState \<times> ControlWrite list \<times> WriterState \<times> (string \<times> SteerReceipt) list
    \<times> Todo list \<times> ControlWrite list \<times> (string \<times> PendingPermission) list" where
  "view c = (control_state c, wqueue c, writer c, receipts c, todo c, stdin_frames c, registered c)"

lemma view_emit [simp]: "view (emit cfg t p c) = view c"
  by (simp add: view_def frame_simps)

lemma view_emit_cancel [simp]: "view (emit_cancel cfg r c) = view c"
  by (simp add: view_def frame_simps)

lemma view_acknowledge [simp]: "view (acknowledge w r c) = view c"
  by (simp add: view_def frame_simps)

lemma register_request_view:
  obtains "view (snd (register_request digest cfg rid frame request c)) = view c"
    | p where "view (snd (register_request digest cfg rid frame request c)) =
        view (on_state (\<lambda>s. s\<lparr>pending := (rid, p) # pending s\<rparr>) (c\<lparr>registered := registered c @ [(rid, p)]\<rparr>))"
proof (cases "remembered_permission_options digest request (case get request ''input'' of None \<Rightarrow> Null | Some v \<Rightarrow> v)")
  case (Inl e)
  then show ?thesis using that(1) by (simp add: register_request_def)
next
  case (Inr ps)
  then show ?thesis using that(2) by (simp add: register_request_def Let_def view_def frame_simps)
qed

lemma route_response_view:
  "view (snd (route_response cfg frame c)) \<in> {view c, view (on_state (\<lambda>s. s\<lparr>initialized := True\<rparr>) c)}"
  by (cases "get frame ''response''") (auto simp: route_response_def Let_def view_def split: option.split)

lemma reply_and_tell_view:
  assumes "\<And>d. view (tell d) = view d"
  shows "view (snd (reply_and_tell f tell c)) = view c \<or> view (snd (reply_and_tell f tell c)) = view (enqueue f c)"
  using assms by (simp add: reply_and_tell_def)

lemma route_request_view:
  obtains (same) "view (snd (route_request digest cfg frame c)) = view c"
    | (reply) f where "view (snd (route_request digest cfg frame c)) = view (enqueue f c)"
    | (noted) rid where "view (snd (route_request digest cfg frame c)) =
        view (on_state (\<lambda>s. s\<lparr>questionnaire_requests := rid # questionnaire_requests s\<rparr>) c)"
    | (questionnaire) f rid where "view (snd (route_request digest cfg frame c)) =
        view (enqueue f (on_state (\<lambda>s. s\<lparr>questionnaire_requests := rid # questionnaire_requests s\<rparr>) c))"
    | (registers) rid p where "map_of (pending (control_state c)) rid = None" "\<not> closed (control_state c)"
        "view (snd (route_request digest cfg frame c)) =
          view (on_state (\<lambda>s. s\<lparr>pending := (rid, p) # pending s\<rparr>) (c\<lparr>registered := registered c @ [(rid, p)]\<rparr>))"
proof (cases "nonempty (get frame ''request_id'')")
  case None
  then show ?thesis using same by (simp add: route_request_def)
next
  case rid: (Some rid)
  show ?thesis
  proof (cases "get frame ''request''")
    case None
    then show ?thesis using same by (simp add: route_request_def rid)
  next
    case request: (Some request)
    let ?s = "control_state c"
    note defn = route_request_def rid request option.case Let_def
    consider "closed ?s" | "\<not> closed ?s" "map_of (pending ?s) rid \<noteq> None"
      | "\<not> closed ?s" "map_of (pending ?s) rid = None" "rid \<in> set (questionnaire_requests ?s)"
      | "\<not> closed ?s" "map_of (pending ?s) rid = None" "rid \<notin> set (questionnaire_requests ?s)"
        "get_str request ''subtype'' \<noteq> Some ''can_use_tool''"
      | "\<not> closed ?s" "map_of (pending ?s) rid = None" "rid \<notin> set (questionnaire_requests ?s)"
        "get_str request ''subtype'' = Some ''can_use_tool''" "\<not> compatible_request cfg frame request ?s"
      | "\<not> closed ?s" "map_of (pending ?s) rid = None" "rid \<notin> set (questionnaire_requests ?s)"
        "get_str request ''subtype'' = Some ''can_use_tool''" "compatible_request cfg frame request ?s"
        "get_str request ''tool_name'' = Some ''AskUserQuestion''"
      | "\<not> closed ?s" "map_of (pending ?s) rid = None" "rid \<notin> set (questionnaire_requests ?s)"
        "get_str request ''subtype'' = Some ''can_use_tool''" "compatible_request cfg frame request ?s"
        "get_str request ''tool_name'' \<noteq> Some ''AskUserQuestion''"
      by blast
    then show ?thesis
    proof cases
      case 4
      then obtain f where "route_request digest cfg frame c = reply_and_tell f (\<lambda>c. c) c" by (simp add: defn)
      with reply_and_tell_view [of "\<lambda>c. c" f c] same reply show ?thesis by fastforce
    next
      case 5
      then obtain f t p where "route_request digest cfg frame c = reply_and_tell f (emit cfg t p) c" by (simp add: defn)
      with reply_and_tell_view [of "emit cfg t p" f c] same reply show ?thesis by fastforce
    next
      case 6
      let ?d = "on_state (\<lambda>s. s\<lparr>questionnaire_requests := rid # questionnaire_requests s\<rparr>) c"
      from 6 obtain f t p where "route_request digest cfg frame c = reply_and_tell f (emit cfg t p) ?d" by (simp add: defn)
      with reply_and_tell_view [of "emit cfg t p" f ?d] noted questionnaire show ?thesis by fastforce
    next
      case 7
      then have "route_request digest cfg frame c = register_request digest cfg rid frame request c" by (simp add: defn)
      with register_request_view [of digest cfg rid frame request c] same registers 7 show ?thesis by metis
    qed (use same in \<open>simp add: defn\<close>)+
  qed
qed

lemma route_cancel_view:
  "view (snd (route_cancel cfg frame c)) = view c \<or>
   (\<exists>rid. view (snd (route_cancel cfg frame c)) =
      view ((on_state (\<lambda>s. s\<lparr>pending := AList.delete rid (pending s)\<rparr>) c)\<lparr>todo := todo c @ [TMaybeClose]\<rparr>))"
  by (cases "nonempty (get frame ''request_id'')") (auto simp: route_cancel_def Let_def view_def frame_simps)

lemma route_view:
  obtains (same) "view (snd (route digest cfg frame c)) = view c"
    | (initialized) "view (snd (route digest cfg frame c)) = view (on_state (\<lambda>s. s\<lparr>initialized := True\<rparr>) c)"
    | (reply) f where "view (snd (route digest cfg frame c)) = view (enqueue f c)"
    | (noted) rid where "view (snd (route digest cfg frame c)) =
        view (on_state (\<lambda>s. s\<lparr>questionnaire_requests := rid # questionnaire_requests s\<rparr>) c)"
    | (questionnaire) f rid where "view (snd (route digest cfg frame c)) =
        view (enqueue f (on_state (\<lambda>s. s\<lparr>questionnaire_requests := rid # questionnaire_requests s\<rparr>) c))"
    | (registers) rid p where "map_of (pending (control_state c)) rid = None" "\<not> closed (control_state c)"
        "view (snd (route digest cfg frame c)) =
          view (on_state (\<lambda>s. s\<lparr>pending := (rid, p) # pending s\<rparr>) (c\<lparr>registered := registered c @ [(rid, p)]\<rparr>))"
    | (cancels) rid where "view (snd (route digest cfg frame c)) =
        view ((on_state (\<lambda>s. s\<lparr>pending := AList.delete rid (pending s)\<rparr>) c)\<lparr>todo := todo c @ [TMaybeClose]\<rparr>)"
proof -
  consider "get_str frame ''type'' = Some ''control_response''" | "get_str frame ''type'' = Some ''control_request''"
    | "get_str frame ''type'' = Some ''control_cancel_request''"
    | "get_str frame ''type'' \<notin> {Some ''control_response'', Some ''control_request'', Some ''control_cancel_request''}" by blast
  then show ?thesis
  proof cases
    case 1
    with route_response_view [of cfg frame c] same initialized show ?thesis by (auto simp: route_def)
  next
    case 2
    then have r: "route digest cfg frame c = route_request digest cfg frame c" by (simp add: route_def)
    show ?thesis
      by (cases rule: route_request_view [of digest cfg frame c]) (use r same reply noted questionnaire registers in metis)+
  next
    case 3
    with route_cancel_view [of cfg frame c] same cancels show ?thesis by (auto simp: route_def)
  next
    case 4
    with same show ?thesis by (simp add: route_def)
  qed
qed

text \<open>The part of the state that a frame of the output may change.\<close>

definition output_part :: "ControlState \<Rightarrow> ControlState \<Rightarrow> bool" where
  "output_part s t \<longleftrightarrow> t = s\<lparr>session_state := session_state t, has_result := has_result t,
     turn_in_progress := turn_in_progress t, tasks := tasks t\<rparr>"

lemma output_part_refl: "output_part s s"
  by (simp add: output_part_def)

lemma output_part_fields:
  "output_part s t \<Longrightarrow> steering t = steering s \<and> pending t = pending s \<and> closed t = closed s \<and> closing t = closing s
     \<and> input_fenced t = input_fenced s \<and> input_writer t = input_writer s \<and> prompt_sent t = prompt_sent s"
  by (cases s; cases t) (auto simp: output_part_def)

lemma observe_system_part: "observe_system cfg frame s = Inr t \<Longrightarrow> output_part s t"
  by (cases s) (auto simp: observe_system_def Let_def output_part_def split: option.splits if_splits)

lemma observe_turn_part: "output_part s (observe_turn frame s)"
  by (cases s) (auto simp: observe_turn_def output_part_def)

lemma output_part_trans: "output_part s t \<Longrightarrow> output_part t u \<Longrightarrow> output_part s u"
  by (cases s; cases t; cases u) (auto simp: output_part_def)

lemma observe_view:
  obtains (same) "view (snd (observe cfg frame c)) = view c"
    | (observed) t where "output_part (control_state (fold receive_receipt (receipt_ids cfg frame) c)) t"
        "view (snd (observe cfg frame c)) =
          view ((woken ((fold receive_receipt (receipt_ids cfg frame) c)\<lparr>control_state := t\<rparr>))\<lparr>todo := todo c @ [TMaybeClose]\<rparr>)"
proof -
  let ?d = "fold receive_receipt (receipt_ids cfg frame) c"
  let ?r = "if get_str frame ''type'' = Some ''system'' then observe_system cfg frame (control_state ?d) else Inr (control_state ?d)"
  show ?thesis
  proof (cases ?r)
    case (Inl e)
    then have "get_str frame ''type'' = Some ''system''" by (simp split: if_splits)
    then have "receipt_ids cfg frame = []" by (simp add: receipt_ids_def)
    with Inl show ?thesis by (intro same) (auto simp: observe_def Let_def split: if_splits)
  next
    case (Inr s)
    then have "output_part (control_state ?d) s"
      by (auto split: if_splits intro: observe_system_part output_part_refl)
    then have part: "output_part (control_state ?d) (observe_turn frame s)"
      using observe_turn_part output_part_trans by blast
    show ?thesis
      by (rule observed [OF part]) (simp add: observe_def Let_def Inr view_def frame_simps)
  qed
qed

lemma maybe_close_view:
  obtains (same) "snd (maybe_close c) = c" "\<not> run_ended (control_state c) \<or> closing (control_state c) \<or> closed (control_state c)"
    | (closes) "run_ended (control_state c)" "\<not> closing (control_state c)" "\<not> closed (control_state c)"
        "\<not> writer_gone (writer c)"
        "snd (maybe_close c) = (on_state (\<lambda>s. s\<lparr>closing := True\<rparr>) c)\<lparr>wqueue := wqueue c @ [close_write]\<rparr>"
    | (gone) "writer_gone (writer c)" "snd (maybe_close c) = on_state (\<lambda>s. s\<lparr>closing := True\<rparr>) c"
proof (cases "run_ended (control_state c) \<and> \<not> closing (control_state c) \<and> \<not> closed (control_state c)")
  case True
  then show ?thesis using closes gone by (cases "writer_gone (writer c)") (auto simp: maybe_close_def send_def Let_def)
next
  case False
  then show ?thesis using same by (auto simp: maybe_close_def Let_def)
qed

lemma steer_view:
  obtains (refused) "snd (steer cfg i prompt c) = c"
    | (waits) w where "prompt_sent (control_state c)" "\<not> closed (control_state c)" "\<not> closing (control_state c)"
        "\<not> input_fenced (control_state c)" "\<not> writer_gone (writer c)"
        "write_frame w \<noteq> None" "permission_request_id w = None" "steer_id w = Some i" "acknowledged w = None"
        "snd (steer cfg i prompt c) =
          (on_state (\<lambda>s. s\<lparr>steering := AList.update i \<lparr>write_started = False\<rparr> (steering s)\<rparr>) c)\<lparr>wqueue := wqueue c @ [w]\<rparr>"
    | (gone) "writer_gone (writer c)"
        "snd (steer cfg i prompt c) = on_state (\<lambda>s. s\<lparr>steering := AList.update i \<lparr>write_started = False\<rparr> (steering s)\<rparr>) c"
proof (cases "\<not> prompt_sent (control_state c) \<or> closed (control_state c) \<or> closing (control_state c) \<or> input_fenced (control_state c)")
  case True
  then show ?thesis using refused by (auto simp: steer_def Let_def)
next
  case False
  then show ?thesis
    using gone waits [of "\<lparr>write_frame = Some (user_frame cfg i prompt), permission_request_id = None, steer_id = Some i, acknowledged = None\<rparr>"]
    by (cases "writer_gone (writer c)") (auto simp: steer_def Let_def send_def)
qed

lemma disconnect_view:
  "view (disconnect cfg c) =
   view (on_state (\<lambda>s. s\<lparr>pending := []\<rparr>) (woken (on_state (\<lambda>s. s\<lparr>closed := True, steering := []\<rparr>)
     (c\<lparr>receipts := receipts c @ map (\<lambda>(i, p). (i, if write_started p then Unreceipted else ActiveInputNotAccepted))
        (steering (control_state c))\<rparr>))))"
  by (cases "writer c") (simp_all add: disconnect_def Let_def view_def frame_simps woken_def wake_input_writer_def)

section \<open>The steps keep the end of the session\<close>

lemma inv_view:
  assumes "view c = view d"
  shows "close_inv c = close_inv d" "order_inv c = order_inv d" "todo_inv c = todo_inv d" "end_inv c = end_inv d" "park_inv c = park_inv d"
  using assms by (simp_all add: view_def close_inv_def order_inv_def todo_inv_def end_inv_def park_inv_def)

text \<open>
  All steps, by what they do to the part of the state the invariants look at.
\<close>

definition decided :: "(Value \<Rightarrow> string) \<Rightarrow> ControlWrite \<Rightarrow> (string \<times> PendingPermission) list \<Rightarrow> bool" where
  "decided digest w requests \<longleftrightarrow>
     (\<forall>rid. permission_request_id w = Some rid \<longrightarrow>
        (\<exists>p d. (rid, p) \<in> set requests \<and> decision_allowed digest p d \<and> write_frame w = Some (success_response rid d)))"

lemma claude_step_view:
  assumes step: "claude_step digest cfg c c'"
  obtains (same) "view c' = view c"
    | (sends) w where "write_frame w \<noteq> None" "steer_id w = None" "decided digest w (pending (control_state c))"
        "view c' = view (c\<lparr>todo := todo c @ [TSend w]\<rparr>)"
    | (prompts) w where "write_frame w \<noteq> None" "steer_id w = None" "permission_request_id w = None"
        "view c' = view (on_state (\<lambda>s. s\<lparr>prompt_sent := True, session_state := None\<rparr>) (c\<lparr>todo := todo c @ [TSend w]\<rparr>))"
    | (initialized) "view c' = view (on_state (\<lambda>s. s\<lparr>initialized := True\<rparr>) c)"
    | (noted) rid where "view c' = view (on_state (\<lambda>s. s\<lparr>questionnaire_requests := rid # questionnaire_requests s\<rparr>) c)"
    | (questionnaire) w rid where "write_frame w \<noteq> None" "steer_id w = None" "permission_request_id w = None"
        "view c' = view ((on_state (\<lambda>s. s\<lparr>questionnaire_requests := rid # questionnaire_requests s\<rparr>) c)\<lparr>todo := todo c @ [TSend w]\<rparr>)"
    | (registers) rid p where "map_of (pending (control_state c)) rid = None" "\<not> closed (control_state c)"
        "view c' = view (on_state (\<lambda>s. s\<lparr>pending := (rid, p) # pending s\<rparr>) (c\<lparr>registered := registered c @ [(rid, p)]\<rparr>))"
    | (cancels) rid where
        "view c' = view ((on_state (\<lambda>s. s\<lparr>pending := AList.delete rid (pending s)\<rparr>) c)\<lparr>todo := todo c @ [TMaybeClose]\<rparr>)"
    | (fences) "view c' = view (woken (on_state (\<lambda>s. s\<lparr>input_fenced := True\<rparr>) c))"
    | (steers) i w where "fresh_input i c" "prompt_sent (control_state c)" "\<not> closed (control_state c)"
        "\<not> closing (control_state c)" "\<not> input_fenced (control_state c)" "\<not> writer_gone (writer c)"
        "write_frame w \<noteq> None" "permission_request_id w = None" "steer_id w = Some i"
        "view c' = view ((on_state (\<lambda>s. s\<lparr>steering := AList.update i \<lparr>write_started = False\<rparr> (steering s)\<rparr>) c)
           \<lparr>wqueue := wqueue c @ [w]\<rparr>)"
    | (steer_unsent) i where "fresh_input i c" "writer_gone (writer c)"
        "view c' = view (on_state (\<lambda>s. s\<lparr>steering := AList.update i \<lparr>write_started = False\<rparr> (steering s)\<rparr>) c)"
    | (returns) i where "map_of (receipts c) i \<noteq> None" "view c' = view (steer_returns i c)"
    | (observes) rs t where "output_part (control_state (fold receive_receipt rs c)) t"
        "view c' = view ((woken ((fold receive_receipt rs c)\<lparr>control_state := t\<rparr>))\<lparr>todo := todo c @ [TMaybeClose]\<rparr>)"
    | (disconnects) "view c' = view (on_state (\<lambda>s. s\<lparr>pending := []\<rparr>) (woken (on_state (\<lambda>s. s\<lparr>closed := True, steering := []\<rparr>)
        (c\<lparr>receipts := receipts c @ map (\<lambda>(i, p). (i, if write_started p then Unreceipted else ActiveInputNotAccepted))
           (steering (control_state c))\<rparr>))))"
    | (sent) before w after where "todo c = before @ TSend w # after" "\<not> writer_gone (writer c)"
        "view c' = view (c\<lparr>todo := before @ after, wqueue := wqueue c @ [w]\<rparr>)"
    | (unsent) before w after where "todo c = before @ TSend w # after" "writer_gone (writer c)"
        "view c' = view (c\<lparr>todo := before @ after\<rparr>)"
    | (stays_open) before after where "todo c = before @ TMaybeClose # after"
        "\<not> run_ended (control_state c) \<or> closing (control_state c) \<or> closed (control_state c)"
        "view c' = view (c\<lparr>todo := before @ after\<rparr>)"
    | (closes) before after where "todo c = before @ TMaybeClose # after" "run_ended (control_state c)"
        "\<not> closing (control_state c)" "\<not> closed (control_state c)" "\<not> writer_gone (writer c)"
        "view c' = view ((on_state (\<lambda>s. s\<lparr>closing := True\<rparr>) c)\<lparr>todo := before @ after, wqueue := wqueue c @ [close_write]\<rparr>)"
    | (close_unsent) before after where "todo c = before @ TMaybeClose # after" "writer_gone (writer c)"
        "view c' = view ((on_state (\<lambda>s. s\<lparr>closing := True\<rparr>) c)\<lparr>todo := before @ after\<rparr>)"
    | (writes) "c' \<in> {take_write c, finish_write (Inr ()) c, write_timed_out c, settle_permission c, complete_write c}
         \<union> range (\<lambda>pipe. attempt_write pipe c) \<union> range (\<lambda>r. finish_write r c) \<union> range (\<lambda>r. shutdown_pipe r c)"
  using step
proof (cases rule: claude_step.cases)
  case step_initialize
  then show ?thesis
    by (intro sends [of "\<lparr>write_frame = Some (Object [(''type'', JString ''control_request''),
          (''request_id'', JString (initialize_id cfg)), (''request'', Object [(''subtype'', JString ''initialize'')])]),
        permission_request_id = None, steer_id = None, acknowledged = Some (next_ack c)\<rparr>"])
      (simp_all add: initialize_def view_def frame_simps decided_def)
next
  case (step_send_prompt uuid prompt)
  then show ?thesis
    using prompts [of "\<lparr>write_frame = Some (user_frame cfg uuid prompt), permission_request_id = None, steer_id = None,
        acknowledged = Some (next_ack c)\<rparr>"] same
    by (auto simp: send_prompt_def Let_def view_def frame_simps split: if_splits)
next
  case step_fence
  then show ?thesis by (intro fences) (simp add: fence_active_input_def)
next
  case (step_steer i prompt)
  then show ?thesis using same steers steer_unsent by (cases rule: steer_view [of cfg i prompt c]) simp_all
next
  case (step_steer_returns i)
  then show ?thesis by (intro returns) simp_all
next
  case (step_respond rid decision)
  show ?thesis
  proof (cases "fst (respond digest rid decision c)")
    case (Inl e)
    then show ?thesis using step_respond same by (auto simp: respond_def split: option.splits if_splits)
  next
    case (Inr u)
    then obtain i p where "as_str rid = Some i" "map_of (pending (control_state c)) i = Some p" "decision_allowed digest p decision"
        "c' = write_and_wait (success_response i decision) (Some i) c"
      using step_respond by (auto simp: respond_def split: option.splits if_splits)
    then show ?thesis
      by (intro sends [of "\<lparr>write_frame = Some (success_response i decision), permission_request_id = Some i, steer_id = None,
            acknowledged = Some (next_ack c)\<rparr>"])
        (auto simp: view_def frame_simps decided_def dest: map_of_SomeD)
  qed
next
  case (step_route frame)
  have plain: "write_frame (plain_write f) \<noteq> None" "steer_id (plain_write f) = None" "permission_request_id (plain_write f) = None"
    "decided digest (plain_write f) m" for f m
    by (simp_all add: plain_write_def decided_def)
  show ?thesis
    by (cases rule: route_view [of digest cfg frame c])
      (use step_route same initialized registers cancels noted sends [OF plain(1,2,4)] questionnaire [OF plain(1,2,3)] in
        \<open>simp_all add: enqueue_def\<close>)
next
  case (step_observe frame)
  show ?thesis
    by (cases rule: observe_view [of cfg frame c]) (use step_observe same observes in simp_all)
next
  case step_disconnect
  then show ?thesis using disconnects disconnect_view by simp
next
  case (step_todo before t after)
  show ?thesis
  proof (cases t)
    case (TSend w)
    then show ?thesis using step_todo sent unsent by (cases "writer_gone (writer c)") (simp_all add: send_def)
  next
    case TMaybeClose
    let ?d = "c\<lparr>todo := before @ after\<rparr>"
    show ?thesis
      by (cases rule: maybe_close_view [of ?d])
        (use step_todo TMaybeClose stays_open closes close_unsent in \<open>simp_all add: view_def\<close>)
  qed
qed (use writes in blast)+

lemma steer_permitted_iff:
  "steer_id w = Some i \<Longrightarrow> steer_permitted w s \<longleftrightarrow> \<not> (input_fenced s \<or> closed s \<or> map_of (steering s) i = None)"
  by (simp add: steer_permitted_def)

lemma poll_steer_view:
  assumes i: "steer_id w = Some i" and w: "writer c = Checked w \<or> writer c = Parked w"
  obtains (parks) "steer_permitted w (control_state c)"
        "view (poll_steer pipe w i c) = view (on_state (\<lambda>s. s\<lparr>input_writer := True\<rparr>) (c\<lparr>writer := Parked w\<rparr>))"
    | (begins) "steer_permitted w (control_state c)"
        "view (poll_steer pipe w i c) = view (on_state (mark_started i) (c\<lparr>writer := Begun w, stdin_frames := stdin_frames c @ [w]\<rparr>))"
    | (gives_up) "\<not> steer_permitted w (control_state c)"
        "view (poll_steer pipe w i c) = view (on_state (\<lambda>s. s\<lparr>input_writer := False\<rparr>) (refuse_steer w (c\<lparr>writer := Finished w (Inr ())\<rparr>)))"
    | (fails) e where "view (poll_steer pipe w i c) = view (on_state (\<lambda>s. s\<lparr>input_writer := False\<rparr>) (c\<lparr>writer := Finished w (Inl e)\<rparr>))"
proof (cases "steer_permitted w (control_state c)")
  case True
  then have go: "\<not> (input_fenced (control_state c) \<or> closed (control_state c) \<or> map_of (steering (control_state c)) i = None)"
    using steer_permitted_iff [OF i] by simp
  show ?thesis
    using True parks begins fails by (cases pipe) (simp_all only: poll_steer_def Let_def go if_False PipeAnswer.case)
next
  case False
  then have stop: "input_fenced (control_state c) \<or> closed (control_state c) \<or> map_of (steering (control_state c)) i = None"
    using steer_permitted_iff [OF i] by simp
  show ?thesis using False gives_up by (simp only: poll_steer_def Let_def stop if_True simp_thms)
qed

lemma writer_view:
  assumes "c' \<in> {take_write c, finish_write (Inr ()) c, write_timed_out c, settle_permission c, complete_write c}
         \<union> range (\<lambda>pipe. attempt_write pipe c) \<union> range (\<lambda>r. finish_write r c) \<union> range (\<lambda>r. shutdown_pipe r c)"
  obtains (same) "view c' = view c"
    | (shuts) w ws where "writer c = Idle" "wqueue c = w # ws" "write_frame w = None" "run_ended (control_state c)"
        "view c' = view (on_state (\<lambda>s. s\<lparr>closed := True\<rparr>) (c\<lparr>wqueue := ws, writer := ShuttingDown\<rparr>))"
    | (reopens) w ws where "writer c = Idle" "wqueue c = w # ws" "write_frame w = None" "\<not> run_ended (control_state c)"
        "view c' = view (on_state (\<lambda>s. s\<lparr>closing := False\<rparr>) (c\<lparr>wqueue := ws\<rparr>))"
    | (takes) w ws where "writer c = Idle" "wqueue c = w # ws" "write_frame w \<noteq> None" "write_permitted w (control_state c)"
        "view c' = view (c\<lparr>wqueue := ws, writer := Checked w\<rparr>)"
    | (skips) w ws where "writer c = Idle" "wqueue c = w # ws" "write_frame w \<noteq> None" "view c' = view (c\<lparr>wqueue := ws\<rparr>)"
    | (refuses) w ws where "writer c = Idle" "wqueue c = w # ws" "write_frame w \<noteq> None"
        "view c' = view (refuse_steer w (c\<lparr>wqueue := ws\<rparr>))"
    | (parks) w where "writer c = Checked w \<or> writer c = Parked w" "steer_id w \<noteq> None" "steer_permitted w (control_state c)"
        "view c' = view (on_state (\<lambda>s. s\<lparr>input_writer := True\<rparr>) (c\<lparr>writer := Parked w\<rparr>))"
    | (begins_steer) w i where "writer c = Checked w \<or> writer c = Parked w" "steer_id w = Some i" "steer_permitted w (control_state c)"
        "view c' = view (on_state (mark_started i) (c\<lparr>writer := Begun w, stdin_frames := stdin_frames c @ [w]\<rparr>))"
    | (begins) w where "writer c = Checked w" "steer_id w = None"
        "view c' = view (c\<lparr>writer := Begun w, stdin_frames := stdin_frames c @ [w]\<rparr>)"
    | (gives_up) w i where "writer c = Checked w \<or> writer c = Parked w" "steer_id w = Some i" "\<not> steer_permitted w (control_state c)"
        "view c' = view (on_state (\<lambda>s. s\<lparr>input_writer := False\<rparr>) (refuse_steer w (c\<lparr>writer := Finished w (Inr ())\<rparr>)))"
    | (ends) w r b where "writer c = Checked w \<or> writer c = Parked w \<or> writer c = Begun w"
        "view c' = view (on_state (\<lambda>s. s\<lparr>input_writer := b\<rparr>) (c\<lparr>writer := Finished w r\<rparr>))"
    | (settles) w r where "writer c = Finished w r" "permission_request_id w = None" "view c' = view (c\<lparr>writer := Settled w r\<rparr>)"
    | (settles_permission) w r rid where "writer c = Finished w r" "permission_request_id w = Some rid"
        "view c' = view (on_state (\<lambda>s. s\<lparr>pending := AList.delete rid (pending s)\<rparr>) (c\<lparr>writer := Settled w r\<rparr>))"
    | (fails) w e r where "writer c = Settled w (Inl e)" "view c' = view (c\<lparr>writer := Ended r\<rparr>)"
    | (completes) w where "writer c = Settled w (Inr ())"
        "\<not> run_ended (control_state c) \<or> closing (control_state c) \<or> closed (control_state c)"
        "view c' = view (c\<lparr>writer := Idle\<rparr>)"
    | (completes_closing) w where "writer c = Settled w (Inr ())" "run_ended (control_state c)" "\<not> closing (control_state c)"
        "\<not> closed (control_state c)"
        "view c' = view ((on_state (\<lambda>s. s\<lparr>closing := True\<rparr>) c)\<lparr>writer := Idle, wqueue := wqueue c @ [close_write]\<rparr>)"
    | (shut) r where "writer c = ShuttingDown" "view c' = view (c\<lparr>writer := Ended r\<rparr>)"
proof -
  consider (take) "c' = take_write c" | (finish) r where "c' = finish_write r c" | (timeout) "c' = write_timed_out c"
    | (settle) "c' = settle_permission c" | (complete) "c' = complete_write c" | (attempt) pipe where "c' = attempt_write pipe c"
    | (shutdown) r where "c' = shutdown_pipe r c"
    using assms by auto
  then show ?thesis
  proof cases
    case take
    show ?thesis
    proof (cases "writer c = Idle \<and> wqueue c \<noteq> []")
      case True
      then obtain w ws where q: "writer c = Idle" "wqueue c = w # ws" by (auto simp: neq_Nil_conv)
      show ?thesis
      proof (cases "write_frame w")
        case None
        then show ?thesis
          using take q shuts reopens by (cases "run_ended (control_state c)") (simp_all add: take_write_def Let_def)
      next
        case (Some f)
        then show ?thesis
          using take q takes skips refuses
          by (cases "write_permitted w (control_state c)"; cases "steer_permitted w (control_state c)")
            (simp_all add: take_write_def Let_def)
      qed
    next
      case False
      then show ?thesis using take same by (auto simp: take_write_def split: WriterState.split list.split)
    qed
  next
    case (attempt pipe)
    show ?thesis
    proof (cases "\<exists>w. writer c = Checked w \<or> writer c = Parked w")
      case True
      then obtain w where w: "writer c = Checked w \<or> writer c = Parked w" by blast
      show ?thesis
      proof (cases "steer_id w")
        case None
        show ?thesis
          using attempt w None same begins ends [where b = "input_writer (control_state c)"]
          by (cases pipe) (auto simp: attempt_write_def)
      next
        case (Some i)
        then have c': "c' = poll_steer pipe w i c" using attempt w by (auto simp: attempt_write_def)
        show ?thesis
          by (cases rule: poll_steer_view [OF Some w, of pipe])
            (use c' w Some parks begins_steer gives_up ends [where b = False] in auto)
      qed
    next
      case False
      then show ?thesis using attempt same by (auto simp: attempt_write_def split: WriterState.split)
    qed
  next
    case (finish r)
    then show ?thesis using same ends [where b = "input_writer (control_state c)"]
      by (cases "writer c") (auto simp: finish_write_def)
  next
    case timeout
    then show ?thesis using same ends [where b = "input_writer (control_state c)"]
      by (cases "writer c") (auto simp: write_timed_out_def)
  next
    case settle
    show ?thesis
    proof (cases "writer c")
      case (Finished w r)
      then show ?thesis using settle settles settles_permission
        by (cases "permission_request_id w") (simp_all add: settle_permission_def)
    qed (use settle same in \<open>simp_all add: settle_permission_def\<close>)
  next
    case complete
    show ?thesis
    proof (cases "writer c")
      case (Settled w r)
      show ?thesis
      proof (cases r)
        case (Inl e)
        then show ?thesis using complete Settled fails
          by (auto simp: complete_write_def Let_def view_def frame_simps)
      next
        case (Inr u)
        let ?d = "(acknowledge w r c)\<lparr>writer := Idle\<rparr>"
        have c': "c' = snd (maybe_close ?d)" using complete Settled Inr by (simp add: complete_write_def Let_def)
        show ?thesis
          by (cases rule: maybe_close_view [of ?d])
            (use c' Settled Inr completes completes_closing in \<open>auto simp: view_def frame_simps\<close>)
      qed
    qed (use complete same in \<open>simp_all add: complete_write_def\<close>)
  next
    case (shutdown r)
    then show ?thesis using same shut by (cases "writer c") (simp_all add: shutdown_pipe_def)
  qed
qed

lemma refuse_steer_frame [frame_simps]:
  "wqueue (refuse_steer w c) = wqueue c" "writer (refuse_steer w c) = writer c" "todo (refuse_steer w c) = todo c"
  "stdin_frames (refuse_steer w c) = stdin_frames c" "registered (refuse_steer w c) = registered c"
  "control_state (refuse_steer w c) = (control_state c)\<lparr>steering :=
     (case steer_id w of None \<Rightarrow> steering (control_state c) | Some i \<Rightarrow> AList.delete i (steering (control_state c)))\<rparr>"
  by (auto simp: refuse_steer_def frame_simps AList.delete_idem map_of_eq_None_iff split: option.split)

lemma run_ended_fields [simp]:
  "run_ended (s\<lparr>steering := x\<rparr>) = run_ended s" "run_ended (s\<lparr>input_writer := b\<rparr>) = run_ended s"
  "run_ended (s\<lparr>closed := b\<rparr>) = run_ended s" "run_ended (s\<lparr>closing := b\<rparr>) = run_ended s"
  "run_ended (s\<lparr>input_fenced := b\<rparr>) = run_ended s" "run_ended (s\<lparr>initialized := b\<rparr>) = run_ended s"
  "run_ended (s\<lparr>questionnaire_requests := q\<rparr>) = run_ended s"
  by (simp_all add: run_ended_def)

lemma writer_woken: "writer (woken c) = (if input_writer (control_state c) then case writer c of Parked w \<Rightarrow> Checked w | _ \<Rightarrow> writer c else writer c)"
  by (simp add: woken_def)

lemma writer_gone_cases: "writer_gone w \<longleftrightarrow> (\<exists>r. w = Ended r)"
  by (cases w) simp_all

lemma todo_invD:
  assumes "todo_inv c" "todo c = before @ TSend w # after"
  shows "write_frame w \<noteq> None" "steer_id w = None"
proof -
  have "TSend w \<in> set (todo c)" unfolding assms(2) by simp
  with assms(1) show "write_frame w \<noteq> None" "steer_id w = None" unfolding todo_inv_def by blast+
qed

lemma todo_inv_step:
  assumes step: "claude_step digest cfg c c'" and inv: "todo_inv c"
  shows "todo_inv c'"
  using step
proof (cases rule: claude_step_view)
  case writes
  then show ?thesis by (cases rule: writer_view) (use inv in \<open>auto dest!: inv_view(3) simp: todo_inv_def frame_simps\<close>)
qed (use inv in \<open>auto dest!: inv_view(3) simp: todo_inv_def frame_simps steer_returns_def\<close>)

text \<open>How many requests to close the pipe wait in the queue.\<close>

definition closes_waiting :: "ControlWrite list \<Rightarrow> nat" where
  "closes_waiting ws = length (filter (\<lambda>w. write_frame w = None) ws)"

lemma closes_waiting_simps [simp]:
  "closes_waiting [] = 0" "closes_waiting (w # ws) = (if write_frame w = None then Suc (closes_waiting ws) else closes_waiting ws)"
  "closes_waiting (ws @ vs) = closes_waiting ws + closes_waiting vs"
  by (simp_all add: closes_waiting_def)

lemma close_inv_alt:
  "close_inv c \<longleftrightarrow>
     (\<not> writer_gone (writer c) \<longrightarrow> closes_waiting (wqueue c) = (if closing (control_state c) \<and> writer c \<noteq> ShuttingDown then 1 else 0))
     \<and> (writer c = ShuttingDown \<longrightarrow> closed (control_state c) \<and> closing (control_state c))"
  by (simp add: close_inv_def closes_waiting_def)

lemma close_inv_same:
  assumes "closes_waiting (wqueue c') = closes_waiting (wqueue c)" "closing (control_state c') = closing (control_state c)"
    "closed (control_state c) \<longrightarrow> closed (control_state c')" "writer_gone (writer c) \<longrightarrow> writer_gone (writer c')"
    "writer c' = ShuttingDown \<longleftrightarrow> writer c = ShuttingDown" "close_inv c"
  shows "close_inv c'"
  using assms by (auto simp: close_inv_alt)

lemma view_eqD:
  assumes "view c = view d"
  shows "control_state c = control_state d" "wqueue c = wqueue d" "writer c = writer d" "receipts c = receipts d" "todo c = todo d"
    "stdin_frames c = stdin_frames d" "registered c = registered d"
  using assms by (simp_all add: view_def)

lemma writer_woken_shutting: "writer (woken c) = ShuttingDown \<longleftrightarrow> writer c = ShuttingDown"
  by (simp add: writer_woken split: WriterState.split)

lemma close_inv_step:
  assumes step: "claude_step digest cfg c c'" and inv: "close_inv c" "todo_inv c"
  shows "close_inv c'"
proof -
  note [simp] = frame_simps writer_woken_shutting close_write_def mark_started_def
  note keeps = close_inv_same [OF _ _ _ _ _ inv(1)]
  from step show ?thesis
  proof (cases rule: claude_step_view)
    case writes
    then show ?thesis
    proof (cases rule: writer_view)
      case (shuts w ws) then show ?thesis using inv(1) by (auto simp: view_def close_inv_alt split: if_splits)
    next
      case (reopens w ws) then show ?thesis using inv(1) by (auto simp: view_def close_inv_alt split: if_splits)
    next
      case (completes_closing w) then show ?thesis using inv(1) by (auto simp: view_def close_inv_alt split: if_splits)
    next
      case (shut r) then show ?thesis by (auto simp: view_def close_inv_alt)
    next
      case (fails w e r) then show ?thesis by (auto simp: view_def close_inv_alt)
    qed (intro keeps; auto simp: view_def)+
  next
    case (sent before w after)
    with todo_invD [OF inv(2) sent(1)] show ?thesis by (intro keeps) (auto simp: view_def)
  next
    case (closes before after)
    then show ?thesis using inv(1) by (auto simp: view_def close_inv_alt split: if_splits)
  next
    case (close_unsent before after)
    then show ?thesis by (auto simp: view_def close_inv_alt writer_gone_cases)
  next
    case (observes rs t)
    then show ?thesis using output_part_fields [OF observes(1)] by (intro keeps) (auto simp: view_def)
  qed (intro keeps; auto simp: view_def steer_returns_def)+
qed

lemma unsteered_no_steer_behind: "list_all (\<lambda>v. steer_id v = None) ws \<Longrightarrow> no_steer_behind ws"
  by (induction ws) auto

text \<open>How the queue may change: it is kept, its head is taken, or a write is appended.\<close>

lemma order_inv_same:
  "wqueue c' = wqueue c \<Longrightarrow> writer c' = ShuttingDown \<longrightarrow> writer c = ShuttingDown \<Longrightarrow> order_inv c \<Longrightarrow> order_inv c'"
  by (simp add: order_inv_def)

lemma order_inv_tail:
  "wqueue c = w # wqueue c' \<Longrightarrow> writer c' = ShuttingDown \<longrightarrow> write_frame w = None \<Longrightarrow> order_inv c \<Longrightarrow> order_inv c'"
  by (auto simp: order_inv_def unsteered_no_steer_behind split: if_splits)

lemma order_inv_snoc:
  "wqueue c' = wqueue c @ [w] \<Longrightarrow> steer_id w = None \<Longrightarrow> writer c' = ShuttingDown \<longrightarrow> writer c = ShuttingDown
    \<Longrightarrow> order_inv c \<Longrightarrow> order_inv c'"
  by (simp add: order_inv_def no_steer_behind_snoc)

lemma order_inv_snoc_steer:
  "wqueue c' = wqueue c @ [w] \<Longrightarrow> writer c' = writer c \<Longrightarrow> \<not> closing (control_state c) \<Longrightarrow> \<not> writer_gone (writer c) \<Longrightarrow> close_inv c
    \<Longrightarrow> order_inv c \<Longrightarrow> order_inv c'"
  by (auto simp: order_inv_def close_inv_def no_steer_behind_snoc)

lemma order_inv_step:
  assumes step: "claude_step digest cfg c c'" and inv: "order_inv c" "close_inv c" "todo_inv c"
  shows "order_inv c'"
proof -
  note [simp] = frame_simps writer_woken_shutting close_write_def
  note keeps = order_inv_same [OF _ _ inv(1)] and tail = order_inv_tail [OF _ _ inv(1)] and snoc = order_inv_snoc [OF _ _ _ inv(1)]
  from step show ?thesis
  proof (cases rule: claude_step_view)
    case writes
    then show ?thesis
    proof (cases rule: writer_view)
      case (shuts w ws) then show ?thesis by (intro tail [of w]) (auto simp: view_def)
    next
      case (reopens w ws) then show ?thesis by (intro tail [of w]) (auto simp: view_def)
    next
      case (takes w ws) then show ?thesis by (intro tail [of w]) (auto simp: view_def)
    next
      case (skips w ws) then show ?thesis by (intro tail [of w]) (auto simp: view_def)
    next
      case (refuses w ws) then show ?thesis by (intro tail [of w]) (auto simp: view_def)
    next
      case (completes_closing w) then show ?thesis by (intro snoc [of _ close_write]) (auto simp: view_def)
    qed (intro keeps; auto simp: view_def)+
  next
    case (steers i w)
    then show ?thesis by (intro order_inv_snoc_steer [OF _ _ _ _ inv(2,1)]) (auto simp: view_def)
  next
    case (sent before w after)
    with todo_invD [OF inv(3) sent(1)] show ?thesis by (intro snoc [of _ w]) (auto simp: view_def)
  next
    case (closes before after)
    then show ?thesis by (intro snoc [of _ close_write]) (auto simp: view_def)
  qed (intro keeps; auto simp: view_def steer_returns_def)+
qed

end
