(* ===== verification/Claude_Safety.thy ===== *)
theory Claude_Safety
  imports Claude_World
begin

text \<open>
  What the control protocol guarantees: the end of the run is not missed and no wake is lost, an
  input that is reported as not accepted was not written, and every permission decision that is
  written answers a request that was received with a decision it allows.
\<close>

section \<open>The inputs\<close>

lemma receive_receipts_receipts:
  fixes rs :: "string list"
  assumes "distinct (map fst (steering (control_state c)))"
  obtains xs where "receipts (fold receive_receipt rs c) = receipts c @ map (\<lambda>i. (i, Accepted)) xs" "distinct xs"
    "set xs = set rs \<inter> set (map fst (steering (control_state c)))"
  using assms
proof (induction rs arbitrary: c thesis)
  case Nil
  then show ?case by (metis append_Nil2 distinct.simps(1) empty_set fold_simps(1) inf_bot_left list.map(1))
next
  case (Cons r rs)
  show ?case
  proof (cases "map_of (steering (control_state c)) r")
    case None
    then have r: "r \<notin> set (map fst (steering (control_state c)))" by (simp add: map_of_eq_None_iff)
    obtain xs where xs: "receipts (fold receive_receipt rs c) = receipts c @ map (\<lambda>i. (i, Accepted)) xs" "distinct xs"
        "set xs = set rs \<inter> set (map fst (steering (control_state c)))"
      using Cons.IH [OF _ Cons.prems(2)] by blast
    show ?thesis
      by (rule Cons.prems(1) [of xs]) (use xs r None in \<open>auto simp: receive_receipt_def [of r c]\<close>)
  next
    case (Some p)
    let ?d = "answer r Accepted (on_state (\<lambda>s. s\<lparr>steering := AList.delete r (steering s)\<rparr>) c)"
    have d: "distinct (map fst (steering (control_state ?d)))"
      using Cons.prems(2) by (simp add: frame_simps distinct_delete)
    obtain xs where xs: "receipts (fold receive_receipt rs ?d) = receipts ?d @ map (\<lambda>i. (i, Accepted)) xs" "distinct xs"
        "set xs = set rs \<inter> set (map fst (steering (control_state ?d)))"
      using Cons.IH [OF _ d] by blast
    have r: "r \<in> set (map fst (steering (control_state c)))" using Some by (metis map_of_SomeD fst_conv image_eqI set_map)
    have keys: "set (map fst (steering (control_state ?d))) = set (map fst (steering (control_state c))) - {r}"
      by (simp add: frame_simps delete_keys flip: set_map)
    show ?thesis
      by (rule Cons.prems(1) [of "r # xs"]) (use xs r keys Some in \<open>auto simp: receive_receipt_def [of r c] frame_simps\<close>)
  qed
qed

text \<open>An input waits for its receipt, or it was answered, once.\<close>

abbreviation waiting :: "ClaudeControl \<Rightarrow> string list" where
  "waiting c \<equiv> map fst (steering (control_state c))"

abbreviation answered :: "ClaudeControl \<Rightarrow> string list" where
  "answered c \<equiv> map fst (receipts c)"

definition answered_inv :: "ClaudeControl \<Rightarrow> bool" where
  "answered_inv c \<longleftrightarrow> distinct (waiting c @ answered c)"

lemma answered_inv_same: "waiting c' = waiting c \<Longrightarrow> receipts c' = receipts c \<Longrightarrow> answered_inv c \<Longrightarrow> answered_inv c'"
  by (simp add: answered_inv_def)

lemma answered_inv_delete:
  "steering (control_state c') = AList.delete i (steering (control_state c)) \<Longrightarrow> receipts c' = receipts c \<Longrightarrow> answered_inv c
    \<Longrightarrow> answered_inv c'"
  by (auto simp: answered_inv_def delete_keys distinct_removeAll)

lemma waiting_update: "i \<in> set (waiting c) \<Longrightarrow> map fst (AList.update i p (steering (control_state c))) = waiting c"
  by (simp add: update_keys)

lemma refuse_steer_cases:
  obtains (nothing) "view (refuse_steer w c) = view c" "\<And>i. steer_id w = Some i \<Longrightarrow> i \<notin> set (waiting c)"
    | (refused) i where "steer_id w = Some i" "i \<in> set (waiting c)"
        "view (refuse_steer w c) = view (on_state (\<lambda>s. s\<lparr>steering := AList.delete i (steering s)\<rparr>)
           (c\<lparr>receipts := receipts c @ [(i, ActiveInputNotAccepted)]\<rparr>))"
proof (cases "\<exists>i. steer_id w = Some i \<and> i \<in> set (waiting c)")
  case True
  then obtain i where "steer_id w = Some i" "i \<in> set (waiting c)" by blast
  then show ?thesis by (intro refused) (auto simp: refuse_steer_def view_def frame_simps map_of_eq_None_iff)
next
  case False
  then have out: "i \<notin> set (waiting c)" if "steer_id w = Some i" for i using that by blast
  then have "refuse_steer w c = c" by (auto simp: refuse_steer_def map_of_eq_None_iff split: option.split)
  then have "view (refuse_steer w c) = view c" by simp
  show ?thesis by (rule nothing) (fact, erule out)
qed

lemma answered_inv_refuse:
  assumes "answered_inv c"
  shows "answered_inv (refuse_steer w c)"
  by (cases rule: refuse_steer_cases [of w c])
    (use assms in \<open>auto simp: view_def answered_inv_def delete_keys distinct_removeAll\<close>)

lemma answered_inv_view: "view c = view d \<Longrightarrow> answered_inv c = answered_inv d"
  by (simp add: view_def answered_inv_def)

lemma answered_inv_step:
  assumes step: "claude_step digest cfg c c'" and inv: "answered_inv c"
  shows "answered_inv c'"
proof -
  note [simp] = frame_simps mark_started_def
  note keeps = answered_inv_same [OF _ _ inv]
  from step show ?thesis
  proof (cases rule: claude_step_view)
    case writes
    then show ?thesis
    proof (cases rule: writer_view)
      case (refuses w ws)
      have "answered_inv (c\<lparr>wqueue := ws\<rparr>)" using inv by (simp add: answered_inv_def)
      with refuses show ?thesis using answered_inv_view answered_inv_refuse by blast
    next
      case (gives_up w i)
      have "answered_inv (c\<lparr>writer := Finished w (Inr ())\<rparr>)" using inv by (simp add: answered_inv_def)
      then have "answered_inv (refuse_steer w (c\<lparr>writer := Finished w (Inr ())\<rparr>))" by (rule answered_inv_refuse)
      with gives_up show ?thesis by (simp add: view_def answered_inv_def)
    next
      case (begins_steer w i)
      then have "i \<in> set (waiting c)" by (auto simp: steer_permitted_iff map_of_eq_None_iff)
      with begins_steer show ?thesis by (intro keeps) (simp_all add: view_def waiting_update)
    qed (intro keeps; auto simp: view_def)+
  next
    case (steers i w)
    then show ?thesis using inv by (auto simp: view_def answered_inv_def update_keys fresh_input_def)
  next
    case (steer_unsent i)
    then show ?thesis using inv by (auto simp: view_def answered_inv_def update_keys fresh_input_def)
  next
    case (returns i)
    then show ?thesis by (intro answered_inv_delete [OF _ _ inv, of _ i]) (auto simp: view_def steer_returns_def)
  next
    case (observes rs t)
    have d: "distinct (waiting c)" using inv by (simp add: answered_inv_def)
    show ?thesis
      by (rule receive_receipts_receipts [OF d, of rs])
        (use observes(2) output_part_fields [OF observes(1)] inv in
          \<open>auto simp: view_def answered_inv_def distinct_map_filter comp_def\<close>)
  next
    case disconnects
    then show ?thesis using inv by (auto simp: view_def answered_inv_def case_prod_unfold comp_def)
  qed (intro keeps; auto simp: view_def)+
qed

text \<open>An input is handed to the pipe at most once.\<close>

definition input_order :: "ClaudeControl \<Rightarrow> string list" where
  "input_order c = begun_inputs c @ steered (unbegun (writer c)) @ steered (wqueue c)"

definition written_inv :: "ClaudeControl \<Rightarrow> bool" where
  "written_inv c \<longleftrightarrow> distinct (input_order c)"

lemma written_inv_same: "input_order c' = input_order c \<Longrightarrow> written_inv c \<Longrightarrow> written_inv c'"
  by (simp add: written_inv_def)

lemma written_inv_fewer:
  "input_order c = xs @ ys @ zs \<Longrightarrow> input_order c' = xs @ zs \<Longrightarrow> written_inv c \<Longrightarrow> written_inv c'"
  by (auto simp: written_inv_def)

lemma unbegun_woken [simp]: "unbegun (writer (woken c)) = unbegun (writer c)"
  by (simp add: writer_woken split: WriterState.split)

lemma unbegun_held: "set (unbegun w) \<subseteq> set (held_write w)"
  by (cases w) simp_all

lemma set_steered: "set (steered ws) = {i. \<exists>w \<in> set ws. steer_id w = Some i}"
  by (induction ws) (auto split: option.splits)

lemma fresh_input_order: "fresh_input i c \<Longrightarrow> i \<notin> set (input_order c)"
  using unbegun_held [of "writer c"]
  by (auto simp: fresh_input_def input_order_def begun_inputs_def all_writes_def set_steered)

lemma written_inv_step:
  assumes step: "claude_step digest cfg c c'" and inv: "written_inv c" "todo_inv c"
  shows "written_inv c'"
proof -
  note [simp] = frame_simps mark_started_def input_order_def begun_inputs_def close_write_def
  note keeps = written_inv_same [OF _ inv(1)] and fewer = written_inv_fewer [OF _ _ inv(1)]
  from step show ?thesis
  proof (cases rule: claude_step_view)
    case writes
    then show ?thesis
    proof (cases rule: writer_view)
      case (shuts w ws) then show ?thesis
        by (intro fewer [of "begun_inputs c" "steered [w]" "steered ws"]) (auto simp: view_def split: option.split)
    next
      case (reopens w ws) then show ?thesis
        by (intro fewer [of "begun_inputs c" "steered [w]" "steered ws"]) (auto simp: view_def split: option.split)
    next
      case (skips w ws) then show ?thesis
        by (intro fewer [of "begun_inputs c" "steered [w]" "steered ws"]) (auto simp: view_def split: option.split)
    next
      case (refuses w ws) then show ?thesis
        by (intro fewer [of "begun_inputs c" "steered [w]" "steered ws"]) (auto simp: view_def split: option.split)
    next
      case (takes w ws) then show ?thesis by (intro keeps) (auto simp: view_def split: option.split)
    next
      case (gives_up w i) then show ?thesis
        by (intro fewer [of "begun_inputs c" "steered [w]" "steered (wqueue c)"]) (auto simp: view_def)
    next
      case (ends w r b) then show ?thesis
        by (intro fewer [of "begun_inputs c" "steered (unbegun (writer c))" "steered (wqueue c)"]) (auto simp: view_def)
    qed (intro keeps; auto simp: view_def)+
  next
    case (steers i w)
    then have "input_order c' = input_order c @ [i]" by (auto simp: view_def)
    with fresh_input_order [OF steers(1)] inv(1) show ?thesis by (simp add: written_inv_def del: input_order_def)
  next
    case (sent before w after)
    with todo_invD [OF inv(2) sent(1)] show ?thesis by (intro keeps) (auto simp: view_def)
  qed (intro keeps; auto simp: view_def steer_returns_def)+
qed

text \<open>
  An input of which the caller is told that it was not accepted was not written, and the one that
  still waits knows whether it was.
\<close>

definition refused_inv :: "ClaudeControl \<Rightarrow> bool" where
  "refused_inv c \<longleftrightarrow>
     (\<forall>i. (i, ActiveInputNotAccepted) \<in> set (receipts c) \<longrightarrow> i \<notin> set (begun_inputs c))
     \<and> (\<forall>i p. (i, p) \<in> set (steering (control_state c)) \<longrightarrow> (write_started p \<longleftrightarrow> i \<in> set (begun_inputs c)))"

lemma refused_inv_fewer:
  "set (steering (control_state c')) \<subseteq> set (steering (control_state c)) \<Longrightarrow> begun_inputs c' = begun_inputs c
    \<Longrightarrow> {i. (i, ActiveInputNotAccepted) \<in> set (receipts c')} \<subseteq> {i. (i, ActiveInputNotAccepted) \<in> set (receipts c)} \<Longrightarrow> refused_inv c
    \<Longrightarrow> refused_inv c'"
  by (auto simp: refused_inv_def)

lemma set_delete: "set (AList.delete i m) = {x \<in> set m. fst x \<noteq> i}"
  by (auto simp: AList.delete_eq)

lemma refused_inv_refuse:
  assumes inv: "refused_inv c" and out: "\<And>i. steer_id w = Some i \<Longrightarrow> i \<notin> set (begun_inputs c)"
  shows "refused_inv (refuse_steer w c)"
proof (cases rule: refuse_steer_cases [of w c])
  case nothing
  then show ?thesis using inv by (simp add: view_def refused_inv_def begun_inputs_def)
next
  case (refused i)
  with out [OF refused(1)] inv show ?thesis by (auto simp: view_def refused_inv_def begun_inputs_def set_delete)
qed

lemma refused_inv_view: "view c = view d \<Longrightarrow> refused_inv c = refused_inv d"
  by (simp add: view_def refused_inv_def begun_inputs_def)

lemma set_update: "distinct (map fst m) \<Longrightarrow> set (AList.update k v m) = insert (k, v) {x \<in> set m. fst x \<noteq> k}"
  by (induction m) force+

lemma refused_inv_step:
  assumes step: "claude_step digest cfg c c'" and inv: "refused_inv c" "written_inv c" "answered_inv c" "todo_inv c"
  shows "refused_inv c'"
proof -
  note [simp] = frame_simps begun_inputs_def close_write_def
  note keeps = refused_inv_fewer [OF _ _ _ inv(1)]
  have keys: "distinct (waiting c)" using inv(3) by (simp add: answered_inv_def)
  have unbegun_input: "i \<notin> set (begun_inputs c)" if "i \<in> set (steered (unbegun (writer c))) \<union> set (steered (wqueue c))" for i
    using that inv(2) by (auto simp: written_inv_def input_order_def)
  from step show ?thesis
  proof (cases rule: claude_step_view)
    case writes
    then show ?thesis
    proof (cases rule: writer_view)
      case (refuses w ws)
      have "refused_inv (c\<lparr>wqueue := ws\<rparr>)" using inv(1) by (simp add: refused_inv_def)
      then have "refused_inv (refuse_steer w (c\<lparr>wqueue := ws\<rparr>))"
        by (rule refused_inv_refuse) (use unbegun_input refuses in auto)
      with refuses show ?thesis using refused_inv_view by blast
    next
      case (gives_up w i)
      have "refused_inv (c\<lparr>writer := Finished w (Inr ())\<rparr>)" using inv(1) by (simp add: refused_inv_def)
      then have "refused_inv (refuse_steer w (c\<lparr>writer := Finished w (Inr ())\<rparr>))"
        by (rule refused_inv_refuse) (use unbegun_input gives_up in auto)
      with gives_up show ?thesis by (simp add: view_def refused_inv_def)
    next
      case (begins_steer w i)
      then have w: "i \<in> set (waiting c)" by (auto simp: steer_permitted_iff map_of_eq_None_iff)
      then have "i \<notin> set (answered c)" using inv(3) by (auto simp: answered_inv_def)
      then have "(i, ActiveInputNotAccepted) \<notin> set (receipts c)" by force
      with begins_steer inv(1) show ?thesis
        by (auto simp: view_def refused_inv_def mark_started_def set_update [OF keys])
    qed (intro keeps; auto simp: view_def split: option.split)+
  next
    case (steers i w)
    with fresh_input_order [OF steers(1)] inv(1) show ?thesis
      by (auto simp: view_def refused_inv_def set_update [OF keys] input_order_def)
  next
    case (steer_unsent i)
    with fresh_input_order [OF steer_unsent(1)] inv(1) show ?thesis
      by (auto simp: view_def refused_inv_def set_update [OF keys] input_order_def)
  next
    case (observes rs t)
    show ?thesis
      by (rule receive_receipts_receipts [OF keys, of rs])
        (use observes(2) output_part_fields [OF observes(1)] in \<open>intro keeps; auto simp: view_def\<close>)
  next
    case disconnects
    then show ?thesis using inv(1) by (auto simp: view_def refused_inv_def split: if_splits)
  qed (intro keeps; auto simp: view_def steer_returns_def set_delete)+
qed

section \<open>No wake is lost\<close>

lemma park_inv_same:
  assumes "\<And>w. writer c' = Parked w \<Longrightarrow> writer c = Parked w" "input_writer (control_state c') = input_writer (control_state c)"
    "steering (control_state c') = steering (control_state c)" "input_fenced (control_state c') = input_fenced (control_state c)"
    "closed (control_state c') = closed (control_state c)" "park_inv c"
  shows "park_inv c'"
  using assms by (auto simp: park_inv_def steer_permitted_def split: option.splits)

lemma park_inv_awake: "(\<And>w. writer c \<noteq> Parked w) \<Longrightarrow> park_inv c"
  by (simp add: park_inv_def)

lemma woken_awake: "park_inv c \<Longrightarrow> input_writer s = input_writer (control_state c) \<Longrightarrow> writer d = writer c
    \<Longrightarrow> writer (woken (d\<lparr>control_state := s\<rparr>)) \<noteq> Parked w"
  by (auto simp: park_inv_def writer_woken split: WriterState.split)

lemma park_inv_step:
  assumes step: "claude_step digest cfg c c'" and inv: "park_inv c" "answered_inv c"
  shows "park_inv c'"
proof -
  note [simp] = frame_simps
  note keeps = park_inv_same [OF _ _ _ _ _ inv(1)]
  from step show ?thesis
  proof (cases rule: claude_step_view)
    case writes
    then show ?thesis
    proof (cases rule: writer_view)
      case (parks w)
      then show ?thesis by (auto simp: view_def park_inv_def steer_permitted_def split: option.split)
    next
      case (shuts w ws) then show ?thesis by (intro park_inv_awake) (auto simp: view_def)
    next
      case (refuses w ws) then show ?thesis by (intro park_inv_awake) (auto simp: view_def)
    next
      case (begins_steer w i) then show ?thesis by (intro park_inv_awake) (auto simp: view_def)
    next
      case (gives_up w i) then show ?thesis by (intro park_inv_awake) (auto simp: view_def)
    next
      case (ends w r b) then show ?thesis by (intro park_inv_awake) (auto simp: view_def)
    qed (intro keeps; auto simp: view_def)+
  next
    case fences
    then show ?thesis by (intro park_inv_awake) (use woken_awake [OF inv(1)] in \<open>auto simp: view_def\<close>)
  next
    case (observes rs t)
    then show ?thesis
      using output_part_fields [OF observes(1)] by (intro park_inv_awake) (use woken_awake [OF inv(1)] in \<open>auto simp: view_def\<close>)
  next
    case disconnects
    then show ?thesis by (intro park_inv_awake) (use woken_awake [OF inv(1)] in \<open>auto simp: view_def\<close>)
  next
    case (returns i)
    then have "i \<in> set (answered c)" by (auto simp: map_of_eq_None_iff)
    then have "i \<notin> set (waiting c)" using inv(2) by (auto simp: answered_inv_def)
    then have "AList.delete i (steering (control_state c)) = steering (control_state c)"
      by (simp add: AList.delete_idem)
    with returns show ?thesis by (intro keeps) (auto simp: view_def steer_returns_def)
  next
    case (steers i w)
    then show ?thesis using inv(1) by (auto simp: view_def park_inv_def steer_permitted_def update_conv' split: option.splits)
  next
    case (steer_unsent i)
    then show ?thesis by (intro park_inv_awake) (auto simp: view_def writer_gone_cases)
  qed (intro keeps; auto simp: view_def)+
qed

section \<open>The end of the run is not missed\<close>

lemma end_inv_same:
  assumes "run_ended (control_state c') \<Longrightarrow> run_ended (control_state c)" "closing (control_state c') = closing (control_state c)"
    "closed (control_state c) \<Longrightarrow> closed (control_state c')" "writer_gone (writer c) \<Longrightarrow> writer_gone (writer c')"
    "TMaybeClose \<in> set (todo c) \<Longrightarrow> TMaybeClose \<in> set (todo c')"
    "\<And>w r. writer c = Settled w r \<Longrightarrow> \<exists>w r. writer c' = Settled w r" "end_inv c"
  shows "end_inv c'"
  using assms unfolding end_inv_def by metis

lemma end_inv_checked: "TMaybeClose \<in> set (todo c) \<Longrightarrow> end_inv c"
  by (simp add: end_inv_def)

lemma end_inv_settled: "writer c = Settled w r \<Longrightarrow> end_inv c"
  by (simp add: end_inv_def)

lemma end_inv_over:
  "closed (control_state c) \<or> closing (control_state c) \<or> writer_gone (writer c) \<or> \<not> run_ended (control_state c) \<Longrightarrow> end_inv c"
  by (auto simp: end_inv_def)

lemma settled_woken: "writer (woken c) = Settled w r \<longleftrightarrow> writer c = Settled w r"
  by (simp add: writer_woken split: WriterState.split)

lemma end_inv_step:
  assumes step: "claude_step digest cfg c c'" and inv: "end_inv c"
  shows "end_inv c'"
proof -
  note [simp] = frame_simps settled_woken
  note keeps = end_inv_same [OF _ _ _ _ _ _ inv]
  from step show ?thesis
  proof (cases rule: claude_step_view)
    case writes
    then show ?thesis
    proof (cases rule: writer_view)
      case (shuts w ws) then show ?thesis by (intro end_inv_over) (auto simp: view_def)
    next
      case (reopens w ws) then show ?thesis by (intro end_inv_over) (auto simp: view_def)
    next
      case (begins_steer w i) then show ?thesis by (intro end_inv_over) (auto simp: view_def mark_started_def run_ended_def)
    next
      case (settles w r) then show ?thesis by (intro end_inv_settled [of _ w r]) (auto simp: view_def)
    next
      case (settles_permission w r rid) then show ?thesis by (intro end_inv_settled [of _ w r]) (auto simp: view_def)
    next
      case (fails w e r) then show ?thesis by (intro end_inv_over) (auto simp: view_def)
    next
      case (completes w) then show ?thesis by (intro end_inv_over) (auto simp: view_def)
    next
      case (completes_closing w) then show ?thesis by (intro end_inv_over) (auto simp: view_def)
    next
      case (shut r) then show ?thesis by (intro end_inv_over) (auto simp: view_def)
    qed (intro keeps; auto simp: view_def)+
  next
    case (prompts w)
    then show ?thesis by (intro end_inv_over) (auto simp: view_def run_ended_def)
  next
    case (registers rid p)
    then show ?thesis by (intro end_inv_over) (auto simp: view_def run_ended_def)
  next
    case (cancels rid)
    then show ?thesis by (intro end_inv_checked) (auto simp: view_def)
  next
    case (observes rs t)
    then show ?thesis by (intro end_inv_checked) (auto simp: view_def)
  next
    case disconnects
    then show ?thesis by (intro end_inv_over) (auto simp: view_def)
  next
    case (stays_open before after)
    then show ?thesis by (intro end_inv_over) (auto simp: view_def)
  next
    case (closes before after)
    then show ?thesis by (intro end_inv_over) (auto simp: view_def)
  next
    case (close_unsent before after)
    then show ?thesis by (intro end_inv_over) (auto simp: view_def)
  qed (intro keeps; auto simp: view_def steer_returns_def)+
qed

section \<open>Permission decisions\<close>

lemma all_writes_view: "view c = view d \<Longrightarrow> all_writes c = all_writes d"
  by (simp add: view_def all_writes_def todo_writes_def)

definition decided_inv :: "(Value \<Rightarrow> string) \<Rightarrow> ClaudeControl \<Rightarrow> bool" where
  "decided_inv digest c \<longleftrightarrow>
     distinct (map fst (pending (control_state c)))
     \<and> set (pending (control_state c)) \<subseteq> set (registered c)
     \<and> (\<forall>w \<in> set (all_writes c). decided digest w (registered c))
     \<and> (\<forall>w \<in> set (all_writes c). steer_id w \<noteq> None \<longrightarrow> permission_request_id w = None)"

lemma decided_mono: "decided digest w m \<Longrightarrow> set m \<subseteq> set m' \<Longrightarrow> decided digest w m'"
  unfolding decided_def by blast

lemma decided_inv_fewer:
  assumes "decided_inv digest c" "set (all_writes c') \<subseteq> set (all_writes c)" "registered c' = registered c"
    "set (pending (control_state c')) \<subseteq> set (pending (control_state c))" "distinct (map fst (pending (control_state c')))"
  shows "decided_inv digest c'"
  using assms unfolding decided_inv_def by (metis subsetD subset_trans)

lemma decided_inv_more:
  assumes "decided_inv digest c" "set (all_writes c') \<subseteq> insert w (set (all_writes c))" "decided digest w (pending (control_state c))"
    "steer_id w = None \<or> permission_request_id w = None" "registered c' = registered c"
    "pending (control_state c') = pending (control_state c)"
  shows "decided_inv digest c'"
  using assms decided_mono [OF assms(3), of "registered c"] unfolding decided_inv_def
  by (metis (no_types, lifting) insert_iff subsetD)

lemma set_all_writes:
  "set (all_writes c) = set (stdin_frames c) \<union> set (held_write (writer c)) \<union> set (wqueue c) \<union> {w. TSend w \<in> set (todo c)}"
proof -
  have "set (todo_writes c) = {w. TSend w \<in> set (todo c)}"
    by (force simp: todo_writes_def List.map_filter_def image_iff split: Todo.splits option.splits)
  then show ?thesis by (auto simp: all_writes_def)
qed

lemma decided_inv_step:
  assumes step: "claude_step digest cfg c c'" and inv: "decided_inv digest c"
  shows "decided_inv digest c'"
proof -
  note [simp] = frame_simps set_all_writes
  have keys: "distinct (map fst (pending (control_state c)))" using inv by (simp add: decided_inv_def)
  note keeps = decided_inv_fewer [OF inv] and more = decided_inv_more [OF inv]
  have d: "decided digest w (pending (control_state c))" if "permission_request_id w = None" for w
    using that by (simp add: decided_def)
  from step show ?thesis
  proof (cases rule: claude_step_view)
    case writes
    then show ?thesis
    proof (cases rule: writer_view)
      case (settles_permission w r rid)
      with keys show ?thesis by (intro keeps) (auto simp: view_def distinct_delete set_delete)
    next
      case (completes_closing w)
      with keys show ?thesis by (intro more [of _ close_write]) (auto simp: view_def close_write_def decided_def)
    qed (use keys in \<open>intro keeps; auto simp: view_def mark_started_def\<close>)+
  next
    case (sends w)
    then show ?thesis by (intro more [of _ w]) (auto simp: view_def)
  next
    case (prompts w)
    then show ?thesis by (intro more [of _ w]) (auto simp: view_def decided_def)
  next
    case (questionnaire w rid)
    then show ?thesis by (intro more [of _ w]) (auto simp: view_def decided_def)
  next
    case (steers i w)
    then show ?thesis by (intro more [of _ w]) (auto simp: view_def decided_def)
  next
    case (closes before after)
    then show ?thesis by (intro more [of _ close_write]) (auto simp: view_def close_write_def decided_def)
  next
    case (registers rid p)
    have "decided digest w (registered c)" "decided digest w (registered c) \<Longrightarrow> decided digest w (registered c @ [(rid, p)])"
      if "w \<in> set (all_writes c)" for w
      using inv that decided_mono [of digest w "registered c" "registered c @ [(rid, p)]"] by (auto simp: decided_inv_def)
    with registers inv show ?thesis by (auto simp: view_def decided_inv_def map_of_eq_None_iff)
  next
    case (cancels rid)
    with keys show ?thesis by (intro keeps) (auto simp: view_def distinct_delete set_delete)
  next
    case (observes rs t)
    with keys show ?thesis
      using output_part_fields [OF observes(1)] by (intro keeps) (auto simp: view_def)
  qed (use keys in \<open>intro keeps; auto simp: view_def steer_returns_def\<close>)+
qed

text \<open>
  An answer to a request is handed to the pipe at most once for each time a request with that
  identifier was received: the answer under way uses up what the next one would need.
\<close>

definition answers_to :: "string \<Rightarrow> ControlWrite list \<Rightarrow> nat" where
  "answers_to rid ws = length (filter (\<lambda>w. permission_request_id w = Some rid) ws)"

definition requests_with :: "string \<Rightarrow> ClaudeControl \<Rightarrow> nat" where
  "requests_with rid c = length (filter (\<lambda>x. fst x = rid) (registered c))"

fun out_or_over :: "WriterState \<Rightarrow> ControlWrite list" where
  "out_or_over (Begun w) = [w]"
| "out_or_over (Finished w r) = [w]"
| "out_or_over (Checked w) = []"
| "out_or_over (Parked w) = []"
| "out_or_over (Settled w r) = []"
| "out_or_over Idle = []"
| "out_or_over ShuttingDown = []"
| "out_or_over (Ended r) = []"

definition answerable :: "string \<Rightarrow> ClaudeControl \<Rightarrow> bool" where
  "answerable rid c \<longleftrightarrow>
     answers_to rid (out_or_over (writer c)) = 0
     \<and> (map_of (pending (control_state c)) rid \<noteq> None \<or> answers_to rid (unbegun (writer c)) \<noteq> 0)"

definition answers_inv :: "ClaudeControl \<Rightarrow> bool" where
  "answers_inv c \<longleftrightarrow> (\<forall>rid. answers_to rid (stdin_frames c) + (if answerable rid c then 1 else 0) \<le> requests_with rid c)"

lemma answers_to_simps [simp]:
  "answers_to rid [] = 0"
  "answers_to rid (w # ws) = (if permission_request_id w = Some rid then Suc (answers_to rid ws) else answers_to rid ws)"
  "answers_to rid (ws @ vs) = answers_to rid ws + answers_to rid vs"
  by (simp_all add: answers_to_def)

lemma answers_inv_fewer:
  assumes "stdin_frames c' = stdin_frames c" "registered c' = registered c" "\<And>rid. answerable rid c' \<Longrightarrow> answerable rid c" "answers_inv c"
  shows "answers_inv c'"
proof -
  have "answers_to rid (stdin_frames c') + (if answerable rid c' then 1 else 0) \<le> requests_with rid c'" for rid
    using assms(1,2) assms(3) [of rid] assms(4) [unfolded answers_inv_def, rule_format, of rid]
    by (auto simp: requests_with_def split: if_splits)
  then show ?thesis by (simp add: answers_inv_def)
qed

lemma woken_phases [simp]:
  "out_or_over (writer (woken c)) = out_or_over (writer c)"
  by (simp add: writer_woken split: WriterState.split)

lemma answers_inv_step:
  assumes step: "claude_step digest cfg c c'" and inv: "answers_inv c"
  shows "answers_inv c'"
proof -
  note [simp] = frame_simps
  note keeps = answers_inv_fewer [OF _ _ _ inv]
  from step show ?thesis
  proof (cases rule: claude_step_view)
    case writes
    then show ?thesis
    proof (cases rule: writer_view)
      case (takes w ws)
      then show ?thesis
        by (intro keeps) (auto simp: view_def answerable_def write_permitted_def split: if_splits)
    next
      case (begins_steer w i)
      have "answers_to rid (stdin_frames c') + (if answerable rid c' then 1 else 0) \<le> requests_with rid c'" for rid
        using begins_steer inv [unfolded answers_inv_def, rule_format, of rid]
        by (auto simp: view_def answerable_def mark_started_def requests_with_def split: if_splits)
      then show ?thesis by (simp add: answers_inv_def)
    next
      case (begins w)
      have "answers_to rid (stdin_frames c') + (if answerable rid c' then 1 else 0) \<le> requests_with rid c'" for rid
        using begins inv [unfolded answers_inv_def, rule_format, of rid]
        by (auto simp: view_def answerable_def requests_with_def split: if_splits)
      then show ?thesis by (simp add: answers_inv_def)
    next
      case (settles_permission w r rid)
      then show ?thesis by (intro keeps) (auto simp: view_def answerable_def delete_conv' split: if_splits)
    qed (intro keeps; auto simp: view_def answerable_def mark_started_def split: if_splits)+
  next
    case (registers rid p)
    have "answers_to k (stdin_frames c') + (if answerable k c' then 1 else 0) \<le> requests_with k c'" for k
      using registers inv [unfolded answers_inv_def, rule_format, of k]
      by (auto simp: view_def answerable_def requests_with_def split: if_splits)
    then show ?thesis by (simp add: answers_inv_def)
  next
    case (cancels rid)
    then show ?thesis by (intro keeps) (auto simp: view_def answerable_def delete_conv' split: if_splits)
  next
    case (observes rs t)
    then show ?thesis
      using output_part_fields [OF observes(1)] by (intro keeps) (auto simp: view_def answerable_def)
  qed (intro keeps; auto simp: view_def answerable_def steer_returns_def)+
qed

section \<open>All invariants\<close>

definition claude_inv :: "(Value \<Rightarrow> string) \<Rightarrow> ClaudeControl \<Rightarrow> bool" where
  "claude_inv digest c \<longleftrightarrow> close_inv c \<and> order_inv c \<and> todo_inv c \<and> end_inv c \<and> park_inv c \<and> answered_inv c \<and> written_inv c
     \<and> refused_inv c \<and> decided_inv digest c \<and> answers_inv c"

lemma claude_inv_new: "claude_inv digest new_control"
  by (simp add: claude_inv_def close_inv_def order_inv_def todo_inv_def end_inv_def park_inv_def answered_inv_def written_inv_def
      refused_inv_def decided_inv_def answers_inv_def new_control_def default_control_state_def run_ended_def input_order_def
      begun_inputs_def set_all_writes answerable_def)

lemma claude_inv_step: "claude_step digest cfg c c' \<Longrightarrow> claude_inv digest c \<Longrightarrow> claude_inv digest c'"
  unfolding claude_inv_def
  by (auto intro: close_inv_step order_inv_step todo_inv_step end_inv_step park_inv_step answered_inv_step written_inv_step
      refused_inv_step decided_inv_step answers_inv_step)

interpretation claude: invariant_system "\<lambda>c. c = new_control" "claude_step digest cfg" "claude_inv digest" for digest cfg
  by unfold_locales (auto intro: claude_inv_new claude_inv_step)

section \<open>Runs\<close>

datatype ClaudeEvent =
  HostInitializes
| HostPrompts string string
| HostFences
| HostSteers string string
| HostResponds Value Value
| Receives Value
| Observes Value
| Disconnects
| CallGoesOn
| WriterTakes
| PipeAnswers PipeAnswer
| WriteEnds "string + unit"
| WriteTimesOut
| PermissionSettles
| WriteCompletes
| PipeCloses "string + unit"

fun happens :: "(Value \<Rightarrow> string) \<Rightarrow> ClaudeConfig \<Rightarrow> ClaudeEvent \<Rightarrow> ClaudeControl \<Rightarrow> ClaudeControl" where
  "happens digest cfg HostInitializes c = initialize cfg c"
| "happens digest cfg (HostPrompts u p) c = snd (send_prompt cfg u p c)"
| "happens digest cfg HostFences c = fence_active_input c"
| "happens digest cfg (HostSteers i p) c = (if fresh_input i c then snd (steer cfg i p c) else c)"
| "happens digest cfg (HostResponds rid d) c = snd (respond digest rid d c)"
| "happens digest cfg (Receives f) c = snd (route digest cfg f c)"
| "happens digest cfg (Observes f) c = snd (observe cfg f c)"
| "happens digest cfg Disconnects c = disconnect cfg c"
| "happens digest cfg CallGoesOn c = (case todo c of [] \<Rightarrow> c | t # ts \<Rightarrow> do_todo t (c\<lparr>todo := ts\<rparr>))"
| "happens digest cfg WriterTakes c = take_write c"
| "happens digest cfg (PipeAnswers a) c = attempt_write a c"
| "happens digest cfg (WriteEnds r) c = finish_write r c"
| "happens digest cfg WriteTimesOut c = write_timed_out c"
| "happens digest cfg PermissionSettles c = settle_permission c"
| "happens digest cfg WriteCompletes c = complete_write c"
| "happens digest cfg (PipeCloses r) c = shutdown_pipe r c"

lemma happens_step: "rtranclp (claude_step digest cfg) c (happens digest cfg e c)"
proof -
  have todo: "rtranclp (claude_step digest cfg) c (happens digest cfg CallGoesOn c)"
  proof (cases "todo c")
    case (Cons t ts)
    then show ?thesis using step_todo [of c "[]" t ts digest cfg] by (simp add: r_into_rtranclp)
  qed simp
  show ?thesis
    by (cases e) (use todo in \<open>auto intro!: r_into_rtranclp intro: claude_step.intros\<close>)
qed

lemma events_reachable: "rtranclp (claude_step digest cfg) c (fold (happens digest cfg) es c)"
  by (induction es arbitrary: c) (auto intro: rtranclp_trans [OF happens_step])

section \<open>Properties\<close>

lemma claude_invD:
  assumes "rtranclp (claude_step digest cfg) new_control c"
  shows "close_inv c" "order_inv c" "end_inv c" "park_inv c" "answered_inv c" "written_inv c" "refused_inv c" "decided_inv digest c"
    "answers_inv c"
  using claude.inv_reachable [OF refl assms] by (simp_all add: claude_inv_def)

definition example_cfg :: ClaudeConfig where
  "example_cfg = \<lparr>session_id = ''s'', permission_mode = ''default'', initialize_id = ''i'', has_events = True\<rparr>"

definition written_out :: "ClaudeEvent list" where
  "written_out = [WriterTakes, PipeAnswers PipeTook, WriteEnds (Inr ()), PermissionSettles, WriteCompletes]"

definition session_started :: "ClaudeEvent list" where
  "session_started = [HostInitializes, CallGoesOn] @ written_out
     @ [Receives (Object [(''type'', JString ''control_response''), (''response'', Object [(''request_id'', JString ''i''),
          (''subtype'', JString ''success''), (''response'', Object [])])]), HostPrompts ''u'' ''hello'', CallGoesOn] @ written_out"

definition permission_frame :: "string \<Rightarrow> string \<Rightarrow> Value" where
  "permission_frame tool command =
     Object [(''type'', JString ''control_request''), (''request_id'', JString ''r''),
       (''request'', Object [(''subtype'', JString ''can_use_tool''), (''tool_name'', JString tool), (''tool_use_id'', JString ''t''),
          (''input'', Object [(''command'', JString command)])])]"

definition allow_command :: "string \<Rightarrow> Value" where
  "allow_command command = Object [(''behavior'', JString ''allow''), (''updatedInput'', Object [(''command'', JString command)])]"

definition example_run :: "ClaudeEvent list \<Rightarrow> ClaudeControl" where
  "example_run es = fold (happens (\<lambda>v. ''digest'') example_cfg) es new_control"

lemma example_run_reachable: "rtranclp (claude_step (\<lambda>v. ''digest'') example_cfg) new_control (example_run es)"
  unfolding example_run_def by (rule events_reachable)

text \<open>Runs are evaluated with the operations unfolded and the frames kept.\<close>

lemmas claude_ops = initialize_def send_prompt_def fence_active_input_def steer_def respond_def send_def woken_def wake_input_writer_def
  write_and_wait_def new_control_def default_control_state_def take_write_def attempt_write_def finish_write_def settle_permission_def
  complete_write_def maybe_close_def acknowledge_def write_permitted_def steer_permitted_def run_ended_def Let_def

lemmas steer_ops = poll_steer_def mark_started_def refuse_steer_def answer_def fresh_input_def all_writes_def todo_writes_def
  List.map_filter_def

lemmas claude_frames = route_def route_response_def get_str_def

lemma example_cfg_fields [simp]:
  "session_id example_cfg = ''s''" "permission_mode example_cfg = ''default''" "initialize_id example_cfg = ''i''" "has_events example_cfg"
  by (simp_all add: example_cfg_def)

lemma nonempty_examples [simp]:
  "nonempty (Some (JString ''r'')) = Some ''r''" "nonempty (Some (JString ''t'')) = Some ''t''" "nonempty (Some (JString ''Bash'')) = Some ''Bash''"
  by code_simp+

definition reviewed :: "string \<Rightarrow> PendingPermission" where
  "reviewed command = \<lparr>pending_input = Object [(''command'', JString command)], remember_response_digests = []\<rparr>"

lemma route_permission_frame:
  assumes "initialized (control_state c)" "prompt_sent (control_state c)" "\<not> closed (control_state c)"
    "map_of (pending (control_state c)) ''r'' = None" "questionnaire_requests (control_state c) = []"
  shows "snd (route digest example_cfg (permission_frame ''Bash'' command) c) =
    emit example_cfg ''claude.permission_request'' (Object [(''nativeSessionId'', JString ''s''),
        (''controlRequest'', permission_frame ''Bash'' command)])
      (on_state (\<lambda>s. s\<lparr>pending := (''r'', reviewed command) # pending s\<rparr>) (c\<lparr>registered := registered c @ [(''r'', reviewed command)]\<rparr>))"
  using assms
  by (simp add: permission_frame_def route_def route_request_def compatible_request_def register_request_def
      remembered_permission_options_def get_str_def reviewed_def Let_def)

lemma route_cancel_frame:
  "snd (route digest example_cfg (Object [(''type'', JString ''control_cancel_request''), (''request_id'', JString ''r'')]) c) =
     (let removed = map_of (pending (control_state c)) ''r'' \<noteq> None;
          c = on_state (\<lambda>s. s\<lparr>pending := AList.delete ''r'' (pending s)\<rparr>) c;
          c = (if removed then emit_cancel example_cfg ''r'' c else c)
      in c\<lparr>todo := todo c @ [TMaybeClose]\<rparr>)"
  by (simp add: route_def route_cancel_def get_str_def Let_def)

lemma allow_reviewed: "decision_allowed digest (reviewed x) (allow_command y) \<longleftrightarrow> x = y"
  by (simp add: decision_allowed_def reviewed_def allow_command_def get_str_def)

lemmas permission_ops = route_permission_frame route_cancel_frame allow_reviewed emit_def emit_cancel_def

definition started_control :: ClaudeControl where
  "started_control = new_control
     \<lparr>control_state := default_control_state\<lparr>initialized := True, prompt_sent := True\<rparr>, initialization := False,
      initialize_result := Some (Inr (Object [])), acks := [(0, Inr ()), (1, Inr ())], next_ack := 2,
      stdin_frames := [\<lparr>write_frame = Some (Object [(''type'', JString ''control_request''), (''request_id'', JString ''i''),
         (''request'', Object [(''subtype'', JString ''initialize'')])]), permission_request_id = None, steer_id = None, acknowledged = Some 0\<rparr>,
        \<lparr>write_frame = Some (user_frame example_cfg ''u'' ''hello''), permission_request_id = None, steer_id = None, acknowledged = Some 1\<rparr>]\<rparr>"

lemma session_starts: "fold (happens (\<lambda>v. ''digest'') example_cfg) session_started new_control = started_control"
  by (simp add: claude_ops claude_frames session_started_def written_out_def started_control_def)

lemma example_run_started: "example_run (session_started @ es) = fold (happens (\<lambda>v. ''digest'') example_cfg) es started_control"
  by (simp add: example_run_def session_starts)

text \<open>C20: An input that was steered into the run is handed to the pipe at most once and answered at most once, and when its
  caller is told that it was not accepted, no byte of it was ever written.\<close>

theorem refused_input_never_written:
  assumes "rtranclp (claude_step digest cfg) new_control c"
  shows "distinct (map fst (receipts c)) \<and> distinct (steered (stdin_frames c))
    \<and> (\<forall>i. (i, ActiveInputNotAccepted) \<in> set (receipts c) \<longrightarrow> i \<notin> set (steered (stdin_frames c)))"
  using claude_invD(5-7) [OF assms]
  by (simp add: answered_inv_def written_inv_def refused_inv_def input_order_def begun_inputs_def)

lemma refused_input_never_written_witness:
  "\<exists>c :: ClaudeControl. receipts c = [(''b'', ActiveInputNotAccepted)] \<and> steered (stdin_frames c) = [''a'']
     \<and> ''b'' \<notin> set (steered (stdin_frames c))"
proof -
  let ?c = "example_run (session_started @ [HostSteers ''a'' ''x'', HostSteers ''b'' ''y'', WriterTakes, PipeAnswers PipePending,
    PipeAnswers PipeTook, HostFences, WriteEnds (Inr ()), PermissionSettles, WriteCompletes, WriterTakes])"
  have c: "receipts ?c = [(''b'', ActiveInputNotAccepted)]" "steered (stdin_frames ?c) = [''a'']"
    by (simp_all add: example_run_started started_control_def claude_ops steer_ops)
  have "\<forall>i. (i, ActiveInputNotAccepted) \<in> set (receipts ?c) \<longrightarrow> i \<notin> set (steered (stdin_frames ?c))"
    using refused_input_never_written [OF example_run_reachable] by blast
  then have "''b'' \<notin> set (steered (stdin_frames ?c))" unfolding c(1) by simp
  with c show ?thesis by (intro exI [of _ ?c] conjI)
qed

text \<open>C19: Every permission decision that is written answers a request that was received under its identifier, with a decision this
  request allows, and no more decisions are written under an identifier than requests were received under it.\<close>

theorem written_decisions_answer_requests:
  assumes "rtranclp (claude_step digest cfg) new_control c" "w \<in> set (stdin_frames c)" "permission_request_id w = Some rid"
  shows "(\<exists>p d. (rid, p) \<in> set (registered c) \<and> decision_allowed digest p d \<and> write_frame w = Some (success_response rid d))
    \<and> length (filter (\<lambda>w. permission_request_id w = Some rid) (stdin_frames c)) \<le> length (filter (\<lambda>x. fst x = rid) (registered c))"
proof
  have "decided digest w (registered c)" using claude_invD(8) [OF assms(1)] assms(2) by (simp add: decided_inv_def set_all_writes)
  then show "\<exists>p d. (rid, p) \<in> set (registered c) \<and> decision_allowed digest p d \<and> write_frame w = Some (success_response rid d)"
    using assms(3) by (simp add: decided_def)
  show "length (filter (\<lambda>w. permission_request_id w = Some rid) (stdin_frames c)) \<le> length (filter (\<lambda>x. fst x = rid) (registered c))"
    using claude_invD(9) [OF assms(1), unfolded answers_inv_def, rule_format, of rid] by (simp add: answers_to_def requests_with_def)
qed

lemma written_decisions_answer_requests_witness:
  "\<exists>(c :: ClaudeControl) (w :: ControlWrite) (p :: PendingPermission) d. w \<in> set (stdin_frames c) \<and> permission_request_id w = Some ''r'' \<and> (''r'', p) \<in> set (registered c)
     \<and> decision_allowed (\<lambda>v. ''digest'') p d \<and> write_frame w = Some (success_response ''r'' d)"
proof -
  let ?c = "example_run (session_started @ [Receives (permission_frame ''Bash'' ''ls''), HostResponds (JString ''r'') (allow_command ''ls''),
    CallGoesOn, WriterTakes, PipeAnswers PipeTook])"
  let ?w = "\<lparr>write_frame = Some (success_response ''r'' (allow_command ''ls'')), permission_request_id = Some ''r'', steer_id = None,
    acknowledged = Some 2\<rparr>"
  have w: "?w \<in> set (stdin_frames ?c)"
    by (simp add: example_run_started started_control_def claude_ops permission_ops)
  have r: "permission_request_id ?w = Some ''r''" by simp
  from written_decisions_answer_requests [OF example_run_reachable w r]
  obtain p d where "(''r'', p) \<in> set (registered ?c)" "decision_allowed (\<lambda>v. ''digest'') p d"
      "write_frame ?w = Some (success_response ''r'' d)" by blast
  with w r show ?thesis by (intro exI [of _ ?c] exI [of _ ?w] exI [of _ p] exI [of _ d] conjI)
qed

text \<open>
  C22: while the writer waits for the pipe with a steered input, the terminal fence, a disconnection and every frame that
  the observation of the output accepts wake it, and after the fence it ends the write without a byte of it, and its
  caller is told so. (Control frames are routed before they would be observed, and a refused frame changes nothing: neither
  of them wakes it.)
\<close>

theorem parked_input_is_wakeable:
  assumes "rtranclp (claude_step digest cfg) new_control c" "writer c = Parked w"
  shows "writer (fence_active_input c) = Checked w \<and> writer (disconnect cfg c) = Checked w
    \<and> (\<forall>frame. fst (observe cfg frame c) = Inr () \<longrightarrow> writer (snd (observe cfg frame c)) = Checked w)
    \<and> (\<exists>i. steer_id w = Some i \<and> writer (attempt_write pipe (fence_active_input c)) = Finished w (Inr ())
          \<and> (i, ActiveInputNotAccepted) \<in> set (receipts (attempt_write pipe (fence_active_input c)))
          \<and> stdin_frames (attempt_write pipe (fence_active_input c)) = stdin_frames c)"
proof -
  have park: "input_writer (control_state c)" "steer_id w \<noteq> None" "steer_permitted w (control_state c)"
    using claude_invD(4) [OF assms(1)] assms(2) by (simp_all add: park_inv_def)
  then obtain i where i: "steer_id w = Some i" "i \<in> set (waiting c)"
    by (auto simp: steer_permitted_def map_of_eq_None_iff split: option.splits)
  have woken: "writer (woken (d\<lparr>control_state := s\<rparr>)) = Checked w"
    if "input_writer s" "writer d = Parked w" for d s
    using that by (simp add: woken_def)
  have fence: "writer (fence_active_input c) = Checked w" using woken park(1) assms(2) by (simp add: fence_active_input_def)
  have disconnect: "writer (disconnect cfg c) = Checked w"
    using woken park(1) assms(2) view_eqD(3) [OF disconnect_view [of cfg c]] by simp
  have observed: "writer (snd (observe cfg frame c)) = Checked w" if "fst (observe cfg frame c) = Inr ()" for frame
  proof (cases "if get_str frame ''type'' = Some ''system''
      then observe_system cfg frame (control_state (fold receive_receipt (receipt_ids cfg frame) c))
      else Inr (control_state (fold receive_receipt (receipt_ids cfg frame) c))")
    case (Inl e)
    with that show ?thesis by (simp add: observe_def Let_def)
  next
    case (Inr s)
    let ?d = "fold receive_receipt (receipt_ids cfg frame) c"
    have "output_part (control_state ?d) s"
      using Inr by (auto split: if_splits intro: observe_system_part output_part_refl)
    then have "output_part (control_state ?d) (observe_turn frame s)" by (rule output_part_trans) (rule observe_turn_part)
    from output_part_fields [OF this] have "input_writer (observe_turn frame s) = input_writer (control_state ?d)" by blast
    then have "input_writer (observe_turn frame s)" using park(1) by (simp add: frame_simps)
    moreover have "writer ?d = Parked w" using assms(2) by (simp add: frame_simps)
    ultimately show ?thesis using woken Inr by (simp add: observe_def Let_def)
  qed
  have "writer (attempt_write pipe (fence_active_input c)) = Finished w (Inr ())
      \<and> (i, ActiveInputNotAccepted) \<in> set (receipts (attempt_write pipe (fence_active_input c)))
      \<and> stdin_frames (attempt_write pipe (fence_active_input c)) = stdin_frames c"
    using i park(1) assms(2)
    by (auto simp: attempt_write_def poll_steer_def fence_active_input_def woken_def wake_input_writer_def refuse_steer_def answer_def
        Let_def map_of_eq_None_iff)
  with fence disconnect observed i(1) show ?thesis by blast
qed

lemma parked_input_is_wakeable_witness:
  "\<exists>c w. writer c = Parked w \<and> steer_id w = Some ''a'' \<and> writer (fence_active_input c) = Checked w"
proof -
  let ?w = "\<lparr>write_frame = Some (user_frame example_cfg ''a'' ''x''), permission_request_id = None, steer_id = Some ''a'', acknowledged = None\<rparr>"
  let ?c = "example_run (session_started @ [HostSteers ''a'' ''x'', WriterTakes, PipeAnswers PipePending])"
  have c: "writer ?c = Parked ?w"
    by (simp add: example_run_started started_control_def claude_ops steer_ops)
  show ?thesis
    using parked_input_is_wakeable [OF example_run_reachable c, where pipe = PipeTook] c by (intro exI [of _ ?c] exI [of _ ?w]) simp
qed

text \<open>C21: When the run has ended and the end of the session was not yet asked for, a step that asks for it is due: no order of the
  calls, the frames and the writes misses it.\<close>

theorem end_of_run_not_missed:
  assumes "rtranclp (claude_step digest cfg) new_control c" "run_ended (control_state c)" "\<not> closing (control_state c)"
    "\<not> closed (control_state c)" "\<not> writer_gone (writer c)"
  shows "\<exists>c'. claude_step digest cfg c c' \<and> (closing (control_state c') \<or> writer_gone (writer c'))"
proof -
  have closes: "closing (control_state (snd (maybe_close d)))" if "control_state d = control_state c" for d
    using that assms(2-5) by (cases rule: maybe_close_view [of d]) auto
  consider "TMaybeClose \<in> set (todo c)" | w r where "writer c = Settled w r"
    using claude_invD(3) [OF assms(1)] assms(2-5) by (auto simp: end_inv_def)
  then show ?thesis
  proof cases
    case 1
    then obtain before after where "todo c = before @ TMaybeClose # after" by (meson split_list)
    then have "claude_step digest cfg c (do_todo TMaybeClose (c\<lparr>todo := before @ after\<rparr>))" by (rule step_todo)
    moreover have "closing (control_state (do_todo TMaybeClose (c\<lparr>todo := before @ after\<rparr>)))" using closes by simp
    ultimately show ?thesis by blast
  next
    case 2
    then have "closing (control_state (complete_write c)) \<or> writer_gone (writer (complete_write c))"
      using closes [of "(acknowledge w r c)\<lparr>writer := Idle\<rparr>"]
      by (auto simp: complete_write_def Let_def frame_simps split: sum.split)
    then show ?thesis using step_complete by blast
  qed
qed

text \<open>The pipe is closed for the one request to close it, when no input may be steered any more and none is left in the queue.\<close>

theorem pipe_closes_behind_inputs:
  assumes "rtranclp (claude_step digest cfg) new_control c" "writer c = ShuttingDown"
  shows "closed (control_state c) \<and> steered (wqueue c) = [] \<and> (\<forall>w \<in> set (wqueue c). write_frame w \<noteq> None)
    \<and> fst (steer cfg i prompt c) = Refused"
proof -
  have "closed (control_state c)" "closes_waiting (wqueue c) = 0"
    using claude_invD(1) [OF assms(1)] assms(2) by (simp_all add: close_inv_alt)
  moreover have "steered (wqueue c) = []"
    using claude_invD(2) [OF assms(1)] assms(2) by (auto simp: order_inv_def list_all_iff steered_def map_filter_def filter_empty_conv)
  ultimately show ?thesis by (auto simp: closes_waiting_def filter_empty_conv steer_def Let_def)
qed

lemma end_of_run_not_missed_witness:
  "\<exists>c. run_ended (control_state c) \<and> \<not> closing (control_state c)
     \<and> (\<exists>c'. claude_step (\<lambda>v. ''digest'') example_cfg c c' \<and> (closing (control_state c') \<or> writer_gone (writer c')))"
proof -
  let ?c = "example_run (session_started @ [Observes (Object [(''type'', JString ''result'')]),
    Observes (Object [(''type'', JString ''system''), (''subtype'', JString ''session_state_changed''), (''session_id'', JString ''s''),
      (''state'', JString ''idle'')])])"
  have c: "run_ended (control_state ?c)" "\<not> closing (control_state ?c)" "\<not> closed (control_state ?c)" "\<not> writer_gone (writer ?c)"
    by (simp_all add: example_run_started started_control_def claude_ops observe_def observe_system_def observe_turn_def receipt_ids_def get_str_def)
  show ?thesis using end_of_run_not_missed [OF example_run_reachable c] c(1,2) by blast
qed

lemma pipe_closes_behind_inputs_witness:
  "\<exists>c :: ClaudeControl. writer c = ShuttingDown \<and> closed (control_state c) \<and> steered (wqueue c) = []"
proof -
  let ?c = "example_run (session_started @ [Observes (Object [(''type'', JString ''result'')]),
    Observes (Object [(''type'', JString ''system''), (''subtype'', JString ''session_state_changed''), (''session_id'', JString ''s''),
      (''state'', JString ''idle'')]), CallGoesOn, CallGoesOn, WriterTakes])"
  have c: "writer ?c = ShuttingDown"
    by (simp add: example_run_started started_control_def claude_ops observe_def observe_system_def observe_turn_def receipt_ids_def get_str_def
        close_write_def)
  from pipe_closes_behind_inputs [OF example_run_reachable c] have "closed (control_state ?c)" "steered (wqueue ?c) = []" by simp_all
  with c show ?thesis by (intro exI [of _ ?c] conjI)
qed

section \<open>What an identifier does not tell\<close>

text \<open>
  A decision that waits in the queue names its request by the identifier alone. When the process
  withdraws the request and asks again under the same identifier, the decision on the first request
  is written as the answer to the second one, which was never decided on.
\<close>

theorem stale_decision_answers_reused_identifier:
  "\<exists>c (w :: ControlWrite) (p :: PendingPermission). w \<in> set (stdin_frames c) \<and> rtranclp (claude_step (\<lambda>v. ''digest'') example_cfg) new_control c
     \<and> write_frame w = Some (success_response ''r'' (allow_command ''ls''))
     \<and> map_of (pending (control_state c)) ''r'' = Some p \<and> pending_input p = Object [(''command'', JString ''rm'')]
     \<and> \<not> decision_allowed (\<lambda>v. ''digest'') p (allow_command ''ls'')"
proof -
  let ?c = "example_run (session_started @ [Receives (permission_frame ''Bash'' ''ls''), HostResponds (JString ''r'') (allow_command ''ls''),
    Receives (Object [(''type'', JString ''control_cancel_request''), (''request_id'', JString ''r'')]),
    Receives (permission_frame ''Bash'' ''rm''), CallGoesOn, WriterTakes, PipeAnswers PipeTook])"
  let ?w = "\<lparr>write_frame = Some (success_response ''r'' (allow_command ''ls'')), permission_request_id = Some ''r'', steer_id = None,
    acknowledged = Some 2\<rparr>"
  let ?p = "reviewed ''rm''"
  have w: "?w \<in> set (stdin_frames ?c)"
    by (simp add: example_run_started started_control_def claude_ops permission_ops)
  have p: "map_of (pending (control_state ?c)) ''r'' = Some ?p"
    by (simp add: example_run_started started_control_def claude_ops permission_ops)
  have d: "\<not> decision_allowed (\<lambda>v. ''digest'') ?p (allow_command ''ls'')"
    by (simp add: allow_reviewed)
  show ?thesis
    by (intro exI [of _ ?c] exI [of _ ?w] exI [of _ ?p] conjI) (use w p d example_run_reachable in \<open>simp_all add: reviewed_def\<close>)
qed

end
