(* ===== verification/Claude_Options.thy ===== *)
theory Claude_Options
  imports Claude_Safety
begin

text \<open>
  The two readings of a permission request agree: the options that \<open>Claude_Permission\<close> makes of it for
  the user are decisions that \<open>Claude_Control\<close> accepts for it.
\<close>

section \<open>The options of an action\<close>

lemma fields_eq_self:
  assumes "\<And>k v. (k, v) \<in> set m \<Longrightarrow> value_eq v v" "distinct (map fst n)" "set m \<subseteq> set n"
  shows "fields_eq m n"
  using assms
proof (induction m)
  case (Cons x m)
  obtain k v where x: "x = (k, v)" by force
  then have "map_of n k = Some v" using Cons.prems(2,3) by simp
  moreover have "fields_eq m n" using Cons.IH Cons.prems by auto
  moreover have "value_eq v v" using Cons.prems(1) x by auto
  ultimately show ?case by (simp add: x)
qed simp

lemma values_eq_self: "(\<And>v. v \<in> set xs \<Longrightarrow> value_eq v v) \<Longrightarrow> values_eq xs xs"
  by (induction xs) simp_all

lemma value_eq_refl: "json_ok v \<Longrightarrow> value_eq v v"
proof (induction v)
  case (Object m)
  have "fields_eq m m"
  proof (rule fields_eq_self)
    show "value_eq v v" if "(k, v) \<in> set m" for k v
      using Object.IH [of "(k, v)" v] Object.prems that by (auto simp: list_all_iff)
  qed (use Object.prems in auto)
  then show ?case by simp
next
  case (Array vs)
  then show ?case by (auto simp: list_all_iff intro: values_eq_self)
next
  case (Number n)
  then show ?case by (cases n) simp_all
qed simp_all

lemma json_ok_get: "json_ok v \<Longrightarrow> get v k = Some w \<Longrightarrow> json_ok w"
  by (cases v) (auto simp: list_all_iff dest: map_of_SomeD)

lemma from_native_Inr:
  "from_native digest oid kind label consequence response allows = Inr p \<longleftrightarrow>
     p = \<lparr>option_id = oid, option_kind = kind, option_label = label, option_consequence = consequence,
          native_response_digest = digest response, native_response = response, allows_action = allows\<rparr>
     \<and> option_valid digest p = Inr ()"
  by (auto simp: from_native_def Let_def result_simps)

text \<open>An option that remembers a rule carries the reviewed input and its own digest.\<close>

definition allows_reviewed :: "(Value \<Rightarrow> string) \<Rightarrow> Value \<Rightarrow> RuntimePermissionOption \<Rightarrow> bool" where
  "allows_reviewed digest tool_input p \<longleftrightarrow>
     get_str (native_response p) ''behavior'' = Some ''allow'' \<and> get (native_response p) ''updatedInput'' = Some tool_input
     \<and> native_response_digest p = digest (native_response p)"

lemma remembered_option_reviewed:
  "remembered_permission_option digest suggestion tool_input = Inr (Some p) \<Longrightarrow> allows_reviewed digest tool_input p \<and> allows_action p"
  by (auto simp: remembered_permission_option_def result_simps from_native_Inr allows_reviewed_def get_str_def
      split: option.splits if_splits)

lemma remembered_from_reviewed:
  assumes "remembered_from digest tool_input suggestions options = Inr options'"
    and "\<And>p. p \<in> set options \<Longrightarrow> allows_reviewed digest tool_input p \<and> allows_action p" and "p \<in> set options'"
  shows "allows_reviewed digest tool_input p \<and> allows_action p"
  using assms
proof (induction suggestions arbitrary: options)
  case (Cons suggestion suggestions)
  from Cons.prems(1) obtain q where q: "remembered_permission_option digest suggestion tool_input = Inr q"
      "remembered_from digest tool_input suggestions
         (case q of None \<Rightarrow> options | Some p \<Rightarrow> if option_id p \<in> option_id ` set options then options else options @ [p]) = Inr options'"
    by (auto simp: result_simps)
  show ?case
    by (rule Cons.IH [OF q(2) _ Cons.prems(3)])
      (use q(1) Cons.prems(2) in \<open>auto dest: remembered_option_reviewed split: option.splits if_splits\<close>)
qed simp

lemma remembered_options_reviewed:
  assumes "remembered_permission_options digest request tool_input = Inr options" "p \<in> set options"
  shows "allows_reviewed digest tool_input p \<and> allows_action p"
proof -
  have new: ?thesis if "remembered_from digest tool_input suggestions [] = Inr options" for suggestions
    by (rule remembered_from_reviewed [OF that _ assms(2)]) simp
  have old: ?thesis if "options = []"
    using assms(2) that by simp
  show ?thesis
  proof (cases "if (case get request ''suppress_always_allow_rule'' of None \<Rightarrow> True | Some v \<Rightarrow> as_bool v = Some False)
      then Option.bind (get request ''permission_suggestions'') as_array else None")
    case None
    then have "options = []" using assms(1) by (simp add: remembered_permission_options_def split: if_splits)
    then show ?thesis by (rule old)
  next
    case (Some suggestions)
    then have "remembered_from digest tool_input suggestions [] = Inr options"
      using assms(1) by (simp add: remembered_permission_options_def split: if_splits)
    then show ?thesis by (rule new)
  qed
qed

text \<open>What an action request was checked for before an action was made of it.\<close>

lemma intercepted_request:
  assumes "intercepted_action_request digest run epoch session root frame = Inr a"
  obtains request tool_input base remembered where
    "nonempty (get frame ''request_id'') = Some (native_action_id a)" "get_str frame ''type'' = Some ''control_request''"
    "case get frame ''session_id'' of None \<Rightarrow> True | Some v \<Rightarrow> as_str v = Some session"
    "get frame ''request'' = Some request" "get_str request ''subtype'' = Some ''can_use_tool''"
    "nonempty (get request ''tool_use_id'') \<noteq> None" "nonempty (get request ''tool_name'') \<noteq> None"
    "get_str request ''tool_name'' \<noteq> Some ''AskUserQuestion''" "get request ''input'' = Some tool_input" "is_object tool_input"
    "base_options digest tool_input = Inr base" "remembered_permission_options digest request tool_input = Inr remembered"
    "action_options a = base @ remembered"
proof (cases "get frame ''request''")
  case None
  have "get_str Null k = None" for k by (simp add: get_str_def)
  with None assms show ?thesis by (simp add: intercepted_action_request_def Let_def result_simps)
next
  case (Some request)
  have name: "get_str v k = Some n" if "nonempty (get v k) = Some n" for v k n
    using that by (auto simp: nonempty_def nonblank_def get_str_def split: option.splits if_splits)
  have blank: "n = m" if "nonempty (get v k) = Some n" "get_str v k = Some m" for v k n m
    using name [OF that(1)] that(2) by simp
  note facts = assms [unfolded intercepted_action_request_def Let_def result_simps Some option.case]
  show ?thesis
    using facts
    apply (elim exE conjE)
    subgoal premises prems for rid tool_use tool input act base remembered
    proof (rule that [of request input base remembered])
      have a: "native_action_id a = rid" "action_options a = base @ remembered"
        using prems(12) by auto
      show "nonempty (get frame ''request_id'') = Some (native_action_id a)" "action_options a = base @ remembered"
        using prems(2) a by simp_all
      show "get_str frame ''type'' = Some ''control_request''" "case get frame ''session_id'' of None \<Rightarrow> True | Some v \<Rightarrow> as_str v = Some session"
        using prems(1) by (simp_all split: option.splits)
      show "get request ''input'' = Some input" "is_object input"
        using prems(7) by (simp_all split: option.splits if_splits)
      show "get_str request ''tool_name'' \<noteq> Some ''AskUserQuestion''" using prems(6) blank [OF prems(5)] by blast
    qed (use prems(3-5,10,11) Some in simp_all)
    done
qed

text \<open>Every option of the action made from a permission request is a decision that the control channel accepts for this
  request once it received the same frame: an option that allows the action carries exactly the reviewed input, and an option
  that denies it allows nothing.\<close>

theorem offered_options_are_accepted:
  assumes action: "intercepted_action_request digest run epoch (session_id cfg) root frame = Inr a" "option \<in> set (action_options a)"
    and frame: "json_ok frame"
    and ready: "initialized (control_state c)" "prompt_sent (control_state c)" "has_events cfg" "\<not> closed (control_state c)"
      "map_of (pending (control_state c)) (native_action_id a) = None" "native_action_id a \<notin> set (questionnaire_requests (control_state c))"
  shows "fst (respond digest (JString (native_action_id a)) (native_response option) (snd (route digest cfg frame c))) = Inr ()
    \<and> get_str (native_response option) ''behavior'' = Some (if allows_action option then ''allow'' else ''deny'')
    \<and> (allows_action option \<longrightarrow>
        get (native_response option) ''updatedInput'' = Option.bind (get frame ''request'') (\<lambda>request. get request ''input''))"
proof -
  from intercepted_request [OF action(1)] obtain request tool_input base remembered where
      rid: "nonempty (get frame ''request_id'') = Some (native_action_id a)"
    and frame_type: "get_str frame ''type'' = Some ''control_request''"
      "case get frame ''session_id'' of None \<Rightarrow> True | Some v \<Rightarrow> as_str v = Some (session_id cfg)"
    and request: "get frame ''request'' = Some request" "get_str request ''subtype'' = Some ''can_use_tool''"
      "nonempty (get request ''tool_use_id'') \<noteq> None" "nonempty (get request ''tool_name'') \<noteq> None"
      "get_str request ''tool_name'' \<noteq> Some ''AskUserQuestion''" "get request ''input'' = Some tool_input" "is_object tool_input"
    and options: "base_options digest tool_input = Inr base" "remembered_permission_options digest request tool_input = Inr remembered"
      "action_options a = base @ remembered" by metis
  let ?p = "\<lparr>pending_input = tool_input, remember_response_digests = map native_response_digest remembered\<rparr>"
  let ?c = "snd (route digest cfg frame c)"
  have compatible: "compatible_request cfg frame request (control_state c)"
    using request frame_type(2) ready by (simp add: compatible_request_def)
  have "route digest cfg frame c = register_request digest cfg (native_action_id a) frame request c"
    using rid frame_type(1) request ready compatible by (simp add: route_def route_request_def)
  then have registered: "control_state ?c = (control_state c)\<lparr>pending := (native_action_id a, ?p) # pending (control_state c)\<rparr>"
    using request(6) options(2) by (simp add: register_request_def frame_simps Let_def)
  have same: "value_eq tool_input tool_input"
    using value_eq_refl json_ok_get frame request(1,6) by blast
  consider (base) "option \<in> set base" | (remembered) "option \<in> set remembered" using action(2) options(3) by auto
  then have "decision_allowed digest ?p (native_response option)
      \<and> get_str (native_response option) ''behavior'' = Some (if allows_action option then ''allow'' else ''deny'')
      \<and> (allows_action option \<longrightarrow> get (native_response option) ''updatedInput'' = Some tool_input)"
  proof cases
    case base
    with options(1) same show ?thesis
      by (auto simp: base_options_def result_simps from_native_Inr deny_decision_def decision_allowed_def get_str_def)
  next
    case remembered
    then have "native_response_digest option \<in> set (map native_response_digest remembered)" by simp
    with remembered_options_reviewed [OF options(2) remembered] same show ?thesis
      by (auto simp: allows_reviewed_def decision_allowed_def)
  qed
  then show ?thesis
    using registered ready(4) request(1,6) by (simp add: respond_def)
qed

lemma example_action:
  obtains a option where
    "intercepted_action_request (\<lambda>v. ''digest'') ''run'' 1 (session_id example_cfg) ''/w'' (permission_frame ''Bash'' ''ls'') = Inr a"
    "native_action_id a = ''r''" "option \<in> set (action_options a)" "allows_action option"
proof -
  let ?r = "intercepted_action_request (\<lambda>v. ''digest'') ''run'' 1 ''s'' ''/w'' (permission_frame ''Bash'' ''ls'')"
  have "case ?r of Inl e \<Rightarrow> False | Inr a \<Rightarrow> native_action_id a = ''r'' \<and> map allows_action (action_options a) = [False, True]"
    by code_simp
  then obtain a where a: "?r = Inr a" "native_action_id a = ''r''" "map allows_action (action_options a) = [False, True]"
    by (auto split: sum.splits)
  then obtain p q where "action_options a = [p, q]" "allows_action q" by (auto simp: map_eq_Cons_conv)
  with a show ?thesis by (intro that [of a q]) simp_all
qed

lemma offered_options_are_accepted_witness:
  "\<exists>(a :: ClaudePermissionAction) (option :: RuntimePermissionOption). option \<in> set (action_options a) \<and> allows_action option
     \<and> fst (respond (\<lambda>v. ''digest'') (JString (native_action_id a)) (native_response option)
         (snd (route (\<lambda>v. ''digest'') example_cfg (permission_frame ''Bash'' ''ls'') started_control))) = Inr ()"
proof -
  have ok: "json_ok (permission_frame ''Bash'' ''ls'')" by code_simp
  obtain a option where a:
      "intercepted_action_request (\<lambda>v. ''digest'') ''run'' 1 (session_id example_cfg) ''/w'' (permission_frame ''Bash'' ''ls'') = Inr a"
      "native_action_id a = ''r''" "option \<in> set (action_options a)" "allows_action option"
    by (rule example_action)
  have "fst (respond (\<lambda>v. ''digest'') (JString (native_action_id a)) (native_response option)
      (snd (route (\<lambda>v. ''digest'') example_cfg (permission_frame ''Bash'' ''ls'') started_control))) = Inr ()"
    using offered_options_are_accepted [OF a(1,3) ok, of started_control]
    by (simp add: started_control_def new_control_def default_control_state_def)
  with a show ?thesis by blast
qed

end
