(* ===== verification/Diff_Roundtrip.thy ===== *)
theory Diff_Roundtrip
  imports Diff_Text
begin

text \<open>
  What a unified diff means, and that the diffs the host builds mean what they should: applied to
  the old text they give the new one, and their counts balance. The application of a diff is the
  specification here; it reads the text of the diff alone.
\<close>

section \<open>Lines of a text\<close>

lemma concat_split_inclusive [simp]: "concat (split_inclusive c s) = s"
  by (induction c s rule: split_inclusive.induct) (auto split: list.splits)

lemma split_inclusive_Nil [simp]: "split_inclusive c s = [] \<longleftrightarrow> s = []"
  by (cases s) (auto split: list.splits)

lemma split_preserving: "split_preserving_line_endings s = split_inclusive NL s"
  by (simp add: split_preserving_line_endings_def)

definition line_like :: "string \<Rightarrow> bool" where
  "line_like l = (l \<noteq> [] \<and> NL \<notin> set (butlast l))"

lemma split_inclusive_line_like: "l \<in> set (split_inclusive NL s) \<Longrightarrow> line_like l"
  by (induction "NL" s arbitrary: l rule: split_inclusive.induct)
    (auto simp: line_like_def split: list.splits if_splits)

lemma split_inclusive_step: "c \<notin> set w \<Longrightarrow> split_inclusive c (w @ c # s) = (w @ [c]) # split_inclusive c s"
  by (induction w) auto

definition full_line :: "string \<Rightarrow> bool" where
  "full_line l = (line_like l \<and> last l = NL)"

lemma full_lineE:
  assumes "full_line l"
  obtains w where "l = w @ [NL]" "NL \<notin> set w"
  using assms by (metis append_butlast_last_id full_line_def line_like_def)

lemma split_full_line: "full_line l \<Longrightarrow> split_inclusive NL (l @ s) = l # split_inclusive NL s"
  by (auto elim!: full_lineE simp: split_inclusive_step)

lemma split_full_lines: "list_all full_line ls \<Longrightarrow> split_inclusive NL (concat ls) = ls"
  by (induction ls) (simp_all add: split_full_line)

section \<open>The pieces of a patch\<close>

text \<open>A line of the diff is one text line, or two when the text has no newline at its end.\<close>

definition pieces :: "char \<times> string \<Rightarrow> string list" where
  "pieces op = (case op of (p, l) \<Rightarrow>
     if l \<noteq> [] \<and> last l = NL then [p # l] else [p # l @ [NL], no_newline_marker])"

lemma append_unified_pieces: "append_unified_line out p l = out @ concat (pieces (p, l))"
  by (simp add: append_unified_line_def pieces_def)

lemma append_lines_pieces: "append_lines p ls out = out @ concat (concat (map (\<lambda>l. pieces (p, l)) ls))"
  by (induction ls arbitrary: out) (simp_all add: append_lines_def append_unified_pieces)

definition op_ok :: "char \<times> string \<Rightarrow> bool" where
  "op_ok op = (fst op \<in> {CHR '' '', CHR ''-'', CHR ''+''} \<and> line_like (snd op))"

lemma marker_full: "full_line no_newline_marker"
  by (simp add: full_line_def line_like_def no_newline_marker_def butlast_append)

lemma line_like_no_newline: "line_like l \<Longrightarrow> last l \<noteq> NL \<Longrightarrow> NL \<notin> set l"
  by (metis Un_iff append_butlast_last_id empty_iff empty_set line_like_def set_ConsD set_append)

lemma pieces_full: "op_ok op \<Longrightarrow> list_all full_line (pieces op)"
proof -
  assume ok: "op_ok op"
  obtain p l where op: "op = (p, l)" by (cases op)
  from ok have l: "line_like l" and p: "p \<noteq> NL" by (auto simp: op op_ok_def)
  then have "l \<noteq> []" by (simp add: line_like_def)
  with l p marker_full line_like_no_newline [OF l] show ?thesis
    by (auto simp: op pieces_def full_line_def line_like_def butlast_append)
qed

section \<open>Applying a patch\<close>










lemma dec_no_newline: "NL \<notin> set (dec n)"
  using dec_digits [of n] by (auto simp: list_all_iff is_ascii_digit_def)

lemma hunk_text_full: "full_line (hunk_text a b c d)"
  by (auto simp: full_line_def line_like_def hunk_text_def butlast_append dec_no_newline)

section \<open>The two loops\<close>

lemma prefix_loop:
  assumes "p \<le> length old" "p \<le> length new" "take p old = take p new"
  shows "prefix_loop old new p \<le> length old \<and> prefix_loop old new p \<le> length new
    \<and> take (prefix_loop old new p) old = take (prefix_loop old new p) new"
  using assms
proof (induction old new p rule: prefix_loop.induct)
  case (1 old new p)
  show ?case
  proof (cases "p < length old \<and> p < length new \<and> old ! p = new ! p")
    case True
    with 1 have "take (p + 1) old = take (p + 1) new" by (simp add: take_Suc_conv_app_nth)
    moreover have "prefix_loop old new p = prefix_loop old new (p + 1)" using True by (subst prefix_loop.simps) simp
    ultimately show ?thesis using 1 True by simp
  next
    case False
    then have "prefix_loop old new p = p" by (subst prefix_loop.simps) (simp only: if_False)
    with 1 show ?thesis by simp
  qed
qed

lemma suffix_loop:
  assumes "s \<le> length old - p" "s \<le> length new - p" "drop (length old - s) old = drop (length new - s) new"
    "p \<le> length old" "p \<le> length new"
  shows "suffix_loop old new p s \<le> length old - p \<and> suffix_loop old new p s \<le> length new - p
    \<and> drop (length old - suffix_loop old new p s) old = drop (length new - suffix_loop old new p s) new"
  using assms
proof (induction old new p s rule: suffix_loop.induct)
  case (1 old new p s)
  let ?go = "s < length old - p \<and> s < length new - p \<and> old ! (length old - 1 - s) = new ! (length new - 1 - s)"
  show ?case
  proof (cases ?go)
    case True
    have "drop (length xs - (s + 1)) xs = xs ! (length xs - 1 - s) # drop (length xs - s) xs"
      if "s < length xs" for xs :: "string list"
      using that Cons_nth_drop_Suc [of "length xs - 1 - s" xs] by (simp add: Suc_diff_Suc)
    moreover from True have "s < length old" "s < length new" by auto
    ultimately have "drop (length old - (s + 1)) old = drop (length new - (s + 1)) new"
      using 1(4) True by simp
    moreover have "suffix_loop old new p s = suffix_loop old new p (s + 1)" using True by (subst suffix_loop.simps) simp
    ultimately show ?thesis using 1 True by simp
  next
    case False
    then have "suffix_loop old new p s = s" by (subst suffix_loop.simps) (simp only: if_False)
    with 1 show ?thesis by simp
  qed
qed

section \<open>Applying what was built\<close>


lemma slice_drop: "a \<le> b \<Longrightarrow> slice a b xs @ drop b xs = drop a xs"
  using append_take_drop_id [of "b - a" "drop a xs"] by (simp add: slice_def)


lemma length_slice: "b \<le> length xs \<Longrightarrow> length (slice a b xs) = b - a"
  by (simp add: slice_def)

lemma set_slice: "set (slice a b xs) \<subseteq> set xs"
  by (auto simp: slice_def dest: in_set_takeD in_set_dropD)

text \<open>Where two lists of lines differ, with up to three lines of context.\<close>

record hunk =
  hunk_start :: nat
  hunk_prefix :: nat
  hunk_old_end :: nat
  hunk_new_end :: nat
  hunk_context :: nat

definition hunk_of :: "string list \<Rightarrow> string list \<Rightarrow> hunk" where
  "hunk_of old new =
     (let p = prefix_loop old new 0; s = suffix_loop old new p 0 in
      \<lparr>hunk_start = p - min p 3, hunk_prefix = p, hunk_old_end = length old - s,
       hunk_new_end = length new - s, hunk_context = min s 3\<rparr>)"

definition hunk_ops :: "string list \<Rightarrow> string list \<Rightarrow> hunk \<Rightarrow> (char \<times> string) list" where
  "hunk_ops old new h =
     map (Pair (CHR '' '')) (slice (hunk_start h) (hunk_prefix h) old)
     @ map (Pair (CHR ''-'')) (slice (hunk_prefix h) (hunk_old_end h) old)
     @ map (Pair (CHR ''+'')) (slice (hunk_prefix h) (hunk_new_end h) new)
     @ map (Pair (CHR '' '')) (slice (hunk_new_end h) (hunk_new_end h + hunk_context h) new)"

lemma hunk_bounds:
  assumes "h = hunk_of old new"
  shows "hunk_start h \<le> hunk_prefix h" "hunk_prefix h \<le> hunk_old_end h" "hunk_prefix h \<le> hunk_new_end h"
    "hunk_old_end h + hunk_context h \<le> length old" "hunk_new_end h + hunk_context h \<le> length new"
    "take (hunk_prefix h) old = take (hunk_prefix h) new" "drop (hunk_old_end h) old = drop (hunk_new_end h) new"
proof -
  let ?p = "prefix_loop old new 0"
  let ?s = "suffix_loop old new ?p 0"
  have p: "?p \<le> length old" "?p \<le> length new" "take ?p old = take ?p new"
    using prefix_loop [of 0 old new] by simp_all
  have s: "?s \<le> length old - ?p" "?s \<le> length new - ?p" "drop (length old - ?s) old = drop (length new - ?s) new"
    using suffix_loop [of 0 old ?p new] p by simp_all
  have h: "h = \<lparr>hunk_start = ?p - min ?p 3, hunk_prefix = ?p, hunk_old_end = length old - ?s,
       hunk_new_end = length new - ?s, hunk_context = min ?s 3\<rparr>"
    using assms by (simp add: hunk_of_def Let_def)
  show "hunk_start h \<le> hunk_prefix h" "hunk_prefix h \<le> hunk_old_end h" "hunk_prefix h \<le> hunk_new_end h"
    "hunk_old_end h + hunk_context h \<le> length old" "hunk_new_end h + hunk_context h \<le> length new"
    "take (hunk_prefix h) old = take (hunk_prefix h) new" "drop (hunk_old_end h) old = drop (hunk_new_end h) new"
    using p s by (simp_all add: h)
qed


lemma hunk_ops_ok: "list_all op_ok (hunk_ops (split_inclusive NL s) (split_inclusive NL t) h)"
  using split_inclusive_line_like set_slice
  by (fastforce simp: list_all_iff hunk_ops_def op_ok_def)

text \<open>The text of the diff, line by line.\<close>

definition diff_lines :: "string \<Rightarrow> string option \<Rightarrow> string \<Rightarrow> string list" where
  "diff_lines path old_text new_text =
     (let old = split_inclusive NL (case old_text of None \<Rightarrow> [] | Some t \<Rightarrow> t); new = split_inclusive NL new_text;
          h = hunk_of old new; b = hunk_old_end h - hunk_start h + hunk_context h;
          d = hunk_new_end h - hunk_start h + hunk_context h in
      (''--- '' @ (if old_text = None then ''/dev/null'' else unified_diff_display_path path ''a'') @ [NL])
      # (''+++ '' @ unified_diff_display_path path ''b'' @ [NL])
      # hunk_text (if b = 0 then 0 else hunk_start h + 1) b (if d = 0 then 0 else hunk_start h + 1) d
      # concat (map pieces (hunk_ops old new h)))"

lemma unified_diff_lines: "unified_diff_from_before_after path old_text new_text = concat (diff_lines path old_text new_text)"
  unfolding unified_diff_from_before_after_def diff_lines_def Let_def hunk_of_def hunk_ops_def append_lines_pieces
    split_preserving
  by (simp only: hunk.select_convs concat.simps concat_append map_append map_map comp_def append.simps append_assoc)

lemma display_path_no_newline: "NL \<notin> set path \<Longrightarrow> NL \<notin> set w \<Longrightarrow> NL \<notin> set (unified_diff_display_path path w)"
  by (simp add: unified_diff_display_path_def)

lemma diff_lines_full: "NL \<notin> set path \<Longrightarrow> list_all full_line (diff_lines path old_text new_text)"
proof -
  assume path: "NL \<notin> set path"
  have "list_all full_line (concat (map pieces ops))" if "list_all op_ok ops" for ops
    using that by (induction ops) (simp_all add: pieces_full)
  then show ?thesis using path display_path_no_newline [OF path] hunk_text_full hunk_ops_ok
    by (auto simp: diff_lines_def Let_def full_line_def line_like_def butlast_append)
qed




section \<open>The counts\<close>

definition shown :: "string \<Rightarrow> string" where
  "shown l = strip_last CR (butlast l)"

lemma text_lines_full: "list_all full_line ls \<Longrightarrow> text_lines (concat ls) = map shown ls"
  by (auto simp: text_lines_def split_full_lines shown_def list_all_iff full_line_def line_like_def)

lemma shown_Cons: "l \<noteq> [] \<Longrightarrow> p \<noteq> CR \<Longrightarrow> \<exists>w. shown (p # l) = p # w"
  by (auto simp: shown_def strip_last_def)

definition saturate :: "nat \<Rightarrow> nat" where
  "saturate n = min (2 ^ 64 - 1) n"

lemma unat_bump: "unat (saturating_add x (1 :: u64)) = saturate (unat x + 1)"
  by (simp add: unat_saturating_add saturate_def)

lemma saturate_add [simp]: "saturate (saturate a + b) = saturate (a + b)"
  by (simp add: saturate_def min_def)

definition lines_with :: "char \<Rightarrow> (char \<times> string) list \<Rightarrow> nat" where
  "lines_with p ops = length (filter (\<lambda>op. fst op = p) ops)"

lemma saturate_unat: "saturate (unat (x :: u64)) = unat x"
proof -
  have "unat x < 2 ^ LENGTH(64)" by (rule unsigned_less)
  then show ?thesis by (simp add: saturate_def)
qed

lemma count_marker: "count_lines (shown no_newline_marker # ls) True a d = count_lines ls True a d"
  by (simp add: shown_def strip_last_def no_newline_marker_def butlast_append)

lemma count_op:
  assumes "op_ok op"
  shows "count_lines (map shown (pieces op) @ ls) True a d =
    count_lines ls True (if fst op = CHR ''+'' then saturating_add a 1 else a)
      (if fst op = CHR ''-'' then saturating_add d 1 else d)"
proof -
  obtain p t where op: "op = (p, t)" by (cases op)
  have ok: "p \<in> {CHR '' '', CHR ''-'', CHR ''+''}" "t \<noteq> []" using assms by (auto simp: op op_ok_def line_like_def)
  obtain w where w: "shown (p # t) = p # w" using shown_Cons [of t p] ok by auto
  obtain v where v: "shown (p # t @ [NL]) = p # v" using shown_Cons [of "t @ [NL]" p] ok by auto
  have step: "count_lines ((p # u) # ls') True a d = count_lines ls' True (if p = CHR ''+'' then saturating_add a 1 else a)
      (if p = CHR ''-'' then saturating_add d 1 else d)" for u ls'
    using ok(1) by auto
  show ?thesis
  proof (cases "last t = NL")
    case True
    with ok have "pieces op = [p # t]" by (simp add: op pieces_def)
    then show ?thesis by (simp only: op list.map append.simps w step fst_conv)
  next
    case False
    then have "pieces op = [p # t @ [NL], no_newline_marker]" by (simp add: op pieces_def)
    then show ?thesis by (simp only: op list.map append.simps v step fst_conv count_marker)
  qed
qed

lemma count_ops:
  "list_all op_ok ops \<Longrightarrow>
   unat (fst (count_lines (map shown (concat (map pieces ops))) True a d)) = saturate (unat a + lines_with (CHR ''+'') ops)
   \<and> unat (snd (count_lines (map shown (concat (map pieces ops))) True a d)) = saturate (unat d + lines_with (CHR ''-'') ops)"
proof (induction ops arbitrary: a d)
  case Nil
  show ?case by (simp add: lines_with_def saturate_unat)
next
  case (Cons op ops)
  then show ?case by (auto simp: count_op lines_with_def unat_bump)
qed

lemma hunk_lines:
  assumes "h = hunk_of old new"
  shows "lines_with (CHR ''+'') (hunk_ops old new h) = hunk_new_end h - hunk_prefix h"
    "lines_with (CHR ''-'') (hunk_ops old new h) = hunk_old_end h - hunk_prefix h"
  using hunk_bounds [OF assms]
  by (simp_all add: lines_with_def hunk_ops_def filter_map comp_def length_slice)

lemma header_skipped:
  "count_lines (shown (''--- '' @ a @ [NL]) # shown (''+++ '' @ b @ [NL]) # shown (hunk_text i j k l) # ls) False 0 0 =
   count_lines ls True 0 0"
  by (simp add: shown_def strip_last_def hunk_text_def butlast_append)

lemma counts_exact:
  assumes path: "NL \<notin> set path"
    and h: "h = hunk_of (split_inclusive NL (case before of None \<Rightarrow> [] | Some t \<Rightarrow> t)) (split_inclusive NL after)"
  shows "unat (fst (unified_diff_counts (unified_diff_from_before_after path before after))) = saturate (hunk_new_end h - hunk_prefix h)"
    "unat (snd (unified_diff_counts (unified_diff_from_before_after path before after))) = saturate (hunk_old_end h - hunk_prefix h)"
proof -
  let ?old = "split_inclusive NL (case before of None \<Rightarrow> [] | Some t \<Rightarrow> t)" and ?new = "split_inclusive NL after"
  have "unified_diff_counts (unified_diff_from_before_after path before after) =
      count_lines (map shown (concat (map pieces (hunk_ops ?old ?new h)))) True 0 0"
    unfolding unified_diff_counts_def unified_diff_lines text_lines_full [OF diff_lines_full [OF path]]
    by (simp only: diff_lines_def Let_def list.map header_skipped h)
  with count_ops [OF hunk_ops_ok, of "case before of None \<Rightarrow> [] | Some t \<Rightarrow> t" after h 0 0] hunk_lines [OF h]
  show "unat (fst (unified_diff_counts (unified_diff_from_before_after path before after))) = saturate (hunk_new_end h - hunk_prefix h)"
    "unat (snd (unified_diff_counts (unified_diff_from_before_after path before after))) = saturate (hunk_old_end h - hunk_prefix h)"
    by simp_all
qed

lemma prefix_loop_same: "p \<le> length xs \<Longrightarrow> prefix_loop xs xs p = length xs"
proof (induction "length xs - p" arbitrary: p)
  case 0
  then show ?case by (subst prefix_loop.simps) simp
next
  case (Suc n)
  then have "prefix_loop xs xs (p + 1) = length xs" by simp
  moreover have "p < length xs" using Suc.hyps(2) by simp
  ultimately show ?case by (subst prefix_loop.simps) simp
qed

lemma hunk_empty:
  assumes "h = hunk_of old new"
  shows "hunk_new_end h = hunk_prefix h \<and> hunk_old_end h = hunk_prefix h \<longleftrightarrow> old = new"
proof
  assume ends: "hunk_new_end h = hunk_prefix h \<and> hunk_old_end h = hunk_prefix h"
  with hunk_bounds(6,7) [OF assms] have "take (hunk_prefix h) old @ drop (hunk_prefix h) old =
      take (hunk_prefix h) new @ drop (hunk_prefix h) new" by simp
  then show "old = new" by (simp only: append_take_drop_id)
next
  assume "old = new"
  then have "hunk_prefix h = length new" by (simp add: assms hunk_of_def Let_def prefix_loop_same)
  with hunk_bounds(2-5) [OF assms] \<open>old = new\<close> show "hunk_new_end h = hunk_prefix h \<and> hunk_old_end h = hunk_prefix h" by simp
qed

text \<open>
  The counts of a diff balance. The added lines minus the removed lines are the lines of the
  new text minus those of the old one, and both counts are zero exactly when the texts agree.
\<close>

theorem diff_counts_balance:
  assumes path: "NL \<notin> set path"
    and size: "length (split_preserving_line_endings (case before of None \<Rightarrow> [] | Some t \<Rightarrow> t)) < 2 ^ 64"
      "length (split_preserving_line_endings after) < 2 ^ 64"
    and counts: "unified_diff_counts (unified_diff_from_before_after path before after) = (additions, deletions)"
  shows "length (split_preserving_line_endings (case before of None \<Rightarrow> [] | Some t \<Rightarrow> t)) + unat additions =
      length (split_preserving_line_endings after) + unat deletions
    \<and> (additions = 0 \<and> deletions = 0 \<longleftrightarrow> (case before of None \<Rightarrow> [] | Some t \<Rightarrow> t) = after)"
proof -
  let ?text = "case before of None \<Rightarrow> [] | Some t \<Rightarrow> t"
  let ?old = "split_inclusive NL ?text" and ?new = "split_inclusive NL after"
  define h where "h = hunk_of ?old ?new"
  note b = hunk_bounds [OF h_def]
  have small: "hunk_new_end h - hunk_prefix h < 2 ^ 64" "hunk_old_end h - hunk_prefix h < 2 ^ 64"
    using b(4,5) size by (simp_all add: split_preserving)
  from counts_exact [OF path h_def] counts small
  have adds: "unat additions = hunk_new_end h - hunk_prefix h" and dels: "unat deletions = hunk_old_end h - hunk_prefix h"
    by (simp_all add: saturate_def)
  have "length (drop (hunk_old_end h) ?old) = length (drop (hunk_new_end h) ?new)" using b(7) by simp
  then have "length ?old + unat additions = length ?new + unat deletions" using b(2-5) adds dels by simp
  moreover have "additions = 0 \<and> deletions = 0 \<longleftrightarrow> ?old = ?new"
    using hunk_empty [OF h_def] adds dels b(2,3) by (auto simp flip: unat_eq_zero)
  moreover have "?old = ?new \<longleftrightarrow> ?text = after" by (metis concat_split_inclusive)
  ultimately show ?thesis by (simp add: split_preserving)
qed

theorem diff_counts_balance_witness:
  "unat (fst (unified_diff_counts (unified_diff_from_before_after ''f'' None (''a'' @ [NL] @ ''b'')))) =
   2 + unat (snd (unified_diff_counts (unified_diff_from_before_after ''f'' None (''a'' @ [NL] @ ''b''))))"
  using diff_counts_balance [of "''f''" None "''a'' @ [NL] @ ''b''"]
  by (cases "unified_diff_counts (unified_diff_from_before_after ''f'' None (''a'' @ [NL] @ ''b''))")
    (simp add: split_preserving_line_endings_def)

section \<open>Sections\<close>

lemma section_starts_iff:
  "i \<in> set (section_starts d) \<longleftrightarrow> i < length d \<and> prefix section_marker (drop i d) \<and> (i = 0 \<or> d ! (i - 1) = NL)"
  by (auto simp: section_starts_def)

lemma sections_concat:
  "sorted (a # starts) \<Longrightarrow> concat (sections_from d (a # starts)) = drop a d"
proof (induction starts arbitrary: a)
  case Nil
  show ?case by simp
next
  case (Cons b starts)
  then show ?case by (simp add: slice_drop)
qed

lemma section_gap:
  assumes "a \<in> set (section_starts d)" "b \<in> set (section_starts d)" "a < b"
  shows "a + length section_marker \<le> b"
proof (rule ccontr)
  assume short: "\<not> a + length section_marker \<le> b"
  let ?k = "b - 1 - a"
  from assms obtain r where r: "drop a d = section_marker @ r" and nl: "d ! (b - 1) = NL" and len: "b < length d"
    by (auto simp: section_starts_iff prefix_def)
  have k: "?k < length section_marker" "a + ?k = b - 1" using short assms(3) by simp_all
  have "section_marker ! ?k = drop a d ! ?k" using k(1) by (simp add: r nth_append)
  also have "\<dots> = NL" using nl k(2) len assms(3) by simp
  finally have "NL \<in> set section_marker" using k(1) by (metis nth_mem)
  then show False by (simp add: section_marker_def)
qed

lemma sections_marked:
  assumes "list_all (\<lambda>i. i \<in> set (section_starts d)) starts" and "sorted starts" and "distinct starts"
  shows "list_all (prefix section_marker) (sections_from d starts)"
  using assms
proof (induction d starts rule: sections_from.induct)
  case (1 d)
  show ?case by simp
next
  case (2 d a)
  then show ?case by (simp add: section_starts_iff)
next
  case (3 d a b rest)
  then have "a + length section_marker \<le> b" by (intro section_gap) auto
  moreover have "prefix section_marker (drop a d)" using 3 by (simp add: section_starts_iff)
  ultimately have "prefix section_marker (slice a b d)"
    by (auto simp: slice_def prefix_def)
  with 3 show ?case by simp
qed

text \<open>
  Splitting a snapshot into its sections loses nothing and cuts nothing in two: a snapshot that
  begins with a section is the concatenation of its sections, and each of them begins with the
  marker of one.
\<close>

theorem sections_partition:
  assumes "prefix section_marker diff"
  shows "concat (split_unified_diff_sections diff) = diff
    \<and> list_all (prefix section_marker) (split_unified_diff_sections diff)"
proof -
  have sorted: "sorted (section_starts diff)" "distinct (section_starts diff)"
    by (simp_all add: section_starts_def sorted_wrt_filter)
  have "diff \<noteq> []" using assms by (auto simp: section_marker_def)
  then have "0 \<in> set (section_starts diff)" using assms by (simp add: section_starts_iff)
  with sorted(1) obtain rest where starts: "section_starts diff = 0 # rest"
    by (cases "section_starts diff") auto
  have "concat (split_unified_diff_sections diff) = diff"
    using sections_concat [of 0 rest diff] sorted(1) by (simp add: split_unified_diff_sections_def starts)
  moreover have "list_all (prefix section_marker) (split_unified_diff_sections diff)"
    unfolding split_unified_diff_sections_def by (rule sections_marked) (simp_all add: sorted list_all_iff)
  ultimately show ?thesis by blast
qed

theorem sections_partition_witness:
  "length (split_unified_diff_sections (''diff --git a/x b/x'' @ [NL] @ ''diff --git a/y b/y'' @ [NL])) = 2
   \<and> concat (split_unified_diff_sections (''diff --git a/x b/x'' @ [NL] @ ''diff --git a/y b/y'' @ [NL])) =
       ''diff --git a/x b/x'' @ [NL] @ ''diff --git a/y b/y'' @ [NL]"
proof -
  have "length (split_unified_diff_sections (''diff --git a/x b/x'' @ [NL] @ ''diff --git a/y b/y'' @ [NL])) = 2"
    by code_simp
  then show ?thesis
    using sections_partition [of "''diff --git a/x b/x'' @ [NL] @ ''diff --git a/y b/y'' @ [NL]"]
    by (simp add: section_marker_def)
qed

end
