(* ===== verification/Diff_Evidence.thy ===== *)
theory Diff_Evidence
  imports Diff_Paths Diff_Roundtrip Adapter Json
begin

text \<open>
  The evidence of a runtime's diff in \<^verbatim>\<open>crates/rovai-core/src/runtime_diff.rs\<close>: the
  limits, the entries of a projection, and how each kind of evidence entry is stored and read back.
\<close>

section \<open>Limits, entries and evidence\<close>

definition COMMAND_DIFF_SCHEMA_VERSION :: nat where "COMMAND_DIFF_SCHEMA_VERSION = 1"
definition RUNTIME_DIFF_MANAGED_OUTPUT_ROOT :: string where
  "RUNTIME_DIFF_MANAGED_OUTPUT_ROOT = ''runtime_diff_managed_output_root''"
definition MAX_DIFF_FILES :: nat where "MAX_DIFF_FILES = 256"
definition MAX_DIFF_BYTES :: nat where "MAX_DIFF_BYTES = 8 * 1024 * 1024"
definition MAX_SINGLE_DIFF_BYTES :: nat where "MAX_SINGLE_DIFF_BYTES = 2 * 1024 * 1024"

record NormalizedDiffEntry =
  entry_path :: string
  entry_change_kind :: string
  entry_additions :: u64
  entry_deletions :: u64
  entry_diff :: string

record AdmittedCommandDiff =
  admitted_kind :: string
  admitted_entries :: "NormalizedDiffEntry list"
  evidence_entries :: Value

datatype ReportedMutationFragment = Fragment (fragment_old: string) (fragment_new: string)

text \<open>How the evidence entries are stored and read back.\<close>

definition exact_mutation_value :: "string \<Rightarrow> string \<Rightarrow> string \<Rightarrow> Value" where
  "exact_mutation_value path old_text new_text =
     Object [(''semantics'', JString ''exact_mutation''), (''path'', JString path),
       (''oldText'', JString old_text), (''newText'', JString new_text)]"

definition exact_mutation_of :: "Value \<Rightarrow> (string \<times> string \<times> string \<times> string) option" where
  "exact_mutation_of v =
     (case struct_fields [''semantics'', ''path'', ''oldText'', ''newText''] v of
        Some [a, b, c, d] \<Rightarrow>
          (case (string_field a, string_field b, string_field c, string_field d) of
             (Some semantics, Some path, Some old_text, Some new_text) \<Rightarrow> Some (semantics, path, old_text, new_text)
           | _ \<Rightarrow> None)
      | _ \<Rightarrow> None)"

definition fragment_value :: "ReportedMutationFragment \<Rightarrow> Value" where
  "fragment_value f = Object [(''oldText'', JString (fragment_old f)), (''newText'', JString (fragment_new f))]"

definition fragment_of :: "Value \<Rightarrow> ReportedMutationFragment option" where
  "fragment_of v =
     (case struct_fields [''oldText'', ''newText''] v of
        Some [a, b] \<Rightarrow>
          (case (string_field a, string_field b) of
             (Some old_text, Some new_text) \<Rightarrow> Some (Fragment old_text new_text) | _ \<Rightarrow> None)
      | _ \<Rightarrow> None)"

fun collect :: "('a \<Rightarrow> 'b option) \<Rightarrow> 'a list \<Rightarrow> 'b list option" where
  "collect f [] = Some []"
| "collect f (x # xs) =
     (case f x of None \<Rightarrow> None | Some y \<Rightarrow> (case collect f xs of None \<Rightarrow> None | Some ys \<Rightarrow> Some (y # ys)))"

definition reported_mutation_value :: "string \<Rightarrow> ReportedMutationFragment list \<Rightarrow> Value" where
  "reported_mutation_value path fragments =
     Object [(''semantics'', JString ''reported_mutation''), (''path'', JString path),
       (''fragments'', Array (map fragment_value fragments))]"

definition reported_mutation_of :: "Value \<Rightarrow> (string \<times> string \<times> ReportedMutationFragment list) option" where
  "reported_mutation_of v =
     (case struct_fields [''semantics'', ''path'', ''fragments''] v of
        Some [a, b, c] \<Rightarrow>
          (case (string_field a, string_field b, Option.bind (Option.bind c as_array) (collect fragment_of)) of
             (Some semantics, Some path, Some fragments) \<Rightarrow> Some (semantics, path, fragments)
           | _ \<Rightarrow> None)
      | _ \<Rightarrow> None)"

definition optional_value :: "string option \<Rightarrow> Value" where
  "optional_value s = (case s of None \<Rightarrow> Null | Some t \<Rightarrow> JString t)"

definition full_before_after_value :: "string \<Rightarrow> string \<Rightarrow> string option \<Rightarrow> string option \<Rightarrow> Value" where
  "full_before_after_value path change_kind before after =
     Object [(''semantics'', JString ''full_before_after''), (''path'', JString path),
       (''changeKind'', JString change_kind), (''before'', optional_value before), (''after'', optional_value after)]"

definition full_before_after_of :: "Value \<Rightarrow> (string \<times> string \<times> string \<times> string option \<times> string option) option" where
  "full_before_after_of v =
     (case struct_fields [''semantics'', ''path'', ''changeKind'', ''before'', ''after''] v of
        Some [a, b, c, d, e] \<Rightarrow>
          (case (string_field a, string_field b, string_field c, optional_string_field d, optional_string_field e) of
             (Some semantics, Some path, Some change_kind, Some before, Some after) \<Rightarrow>
               Some (semantics, path, change_kind, before, after)
           | _ \<Rightarrow> None)
      | _ \<Rightarrow> None)"

definition unified_diff_value :: "string \<Rightarrow> string \<Rightarrow> string \<Rightarrow> Value" where
  "unified_diff_value path change_kind diff =
     Object [(''semantics'', JString ''unified_diff_snapshot''), (''path'', JString path),
       (''changeKind'', JString change_kind), (''diff'', JString diff)]"

definition unified_diff_of :: "Value \<Rightarrow> (string \<times> string \<times> string \<times> string) option" where
  "unified_diff_of v =
     (case struct_fields [''semantics'', ''path'', ''changeKind'', ''diff''] v of
        Some [a, b, c, d] \<Rightarrow>
          (case (string_field a, string_field b, string_field c, string_field d) of
             (Some semantics, Some path, Some change_kind, Some diff) \<Rightarrow> Some (semantics, path, change_kind, diff)
           | _ \<Rightarrow> None)
      | _ \<Rightarrow> None)"

end
