(* ===== verification/Diff_Admission.thy ===== *)
theory Diff_Admission
  imports Diff_Evidence
begin

text \<open>
  The admission of a runtime's diff and its projection, from
  \<^verbatim>\<open>crates/rovai-core/src/runtime_diff.rs\<close>: which sources may report a diff, what each
  kind of entry must hold and how it is normalized, and how projections are rebuilt from evidence
  and merged.
\<close>

section \<open>Fragments and native patches\<close>

fun fragment_loop ::
    "ReportedMutationFragment list \<Rightarrow> string \<Rightarrow> nat \<Rightarrow> u64 \<Rightarrow> u64 \<Rightarrow> (string \<times> u64 \<times> u64) option" where
  "fragment_loop [] diff source_bytes additions deletions = Some (diff, additions, deletions)"
| "fragment_loop (Fragment old_text new_text # fs) diff source_bytes additions deletions =
     (case Option.bind (checked_add source_bytes (length old_text)) (\<lambda>n. checked_add n (length new_text)) of
        None \<Rightarrow> None
      | Some source_bytes \<Rightarrow>
          if old_text = new_text \<or> source_bytes > MAX_SINGLE_DIFF_BYTES then None
          else
            (case checked_add (length diff) (length (exact_mutation_fragment old_text new_text)) of
               None \<Rightarrow> None
             | Some n \<Rightarrow>
                 if n > MAX_SINGLE_DIFF_BYTES then None
                 else fragment_loop fs (diff @ exact_mutation_fragment old_text new_text) source_bytes
                   (additions + fragment_line_count new_text) (deletions + fragment_line_count old_text)))"

definition reported_fragment_diff :: "ReportedMutationFragment list \<Rightarrow> (string \<times> u64 \<times> u64) option" where
  "reported_fragment_diff fs = (if fs = [] \<or> length fs > 1024 then None else fragment_loop fs [] 0 0 0)"

definition reported_mutation_diff :: "Value \<Rightarrow> (string \<times> u64 \<times> u64) option" where
  "reported_mutation_diff v =
     (case reported_mutation_of v of
        None \<Rightarrow> None
      | Some (semantics, path, fragments) \<Rightarrow>
          if semantics = ''reported_mutation'' then reported_fragment_diff fragments else None)"

text \<open>\<open>str::split_once\<close> at a newline\<close>

definition split_once :: "string \<Rightarrow> (string \<times> string) option" where
  "split_once s = (if NL \<in> set s then Some (takeWhile (\<lambda>c. c \<noteq> NL) s, tl (dropWhile (\<lambda>c. c \<noteq> NL) s)) else None)"

definition normalize_pi_edit_patch :: "string \<Rightarrow> string \<Rightarrow> string \<Rightarrow> string + string" where
  "normalize_pi_edit_patch patch reported normalized =
     (if list_ex (\<lambda>c. c = CR \<or> c = NL \<or> c = CHR 0x00) reported then Inl ''runtime_diff_path_invalid''
      else
        and_then (ok_or (split_once patch) ''runtime_diff_content_invalid'') (\<lambda>(old_header, rest).
        and_then (ok_or (split_once rest) ''runtime_diff_content_invalid'') (\<lambda>(new_header, body).
          if old_header \<noteq> ''--- '' @ reported \<or> new_header \<noteq> ''+++ '' @ reported
            \<or> \<not> list_ex (prefix ''@@ '') (text_lines body)
          then Inl ''runtime_diff_content_invalid''
          else
            (let n = ''--- '' @ unified_diff_display_path normalized ''a'' @ [NL] @ ''+++ ''
                   @ unified_diff_display_path normalized ''b'' @ [NL] @ body in
             if unified_diff_counts n = (0, 0) then Inl ''runtime_diff_no_changes'' else Inr n))))"

definition minimax_separator :: string where
  "minimax_separator = ''===================================================================''"

definition normalize_minimax_file_patch ::
    "(string \<Rightarrow> string option) \<Rightarrow> string \<Rightarrow> string \<Rightarrow> string \<Rightarrow> string + string" where
  "normalize_minimax_file_patch url patch normalized execution_root =
     and_then
       (case strip_prefix ''Index: '' patch of
          None \<Rightarrow> Inr (None, patch)
        | Some rest \<Rightarrow>
            and_then (ok_or (split_once rest) ''runtime_diff_content_invalid'') (\<lambda>(path, rest).
            and_then (ok_or (split_once rest) ''runtime_diff_content_invalid'') (\<lambda>(separator, body).
              if separator \<noteq> minimax_separator then Inl ''runtime_diff_content_invalid'' else Inr (Some path, body))))
       (\<lambda>(index_path, patch).
        and_then
          (ok_or (case text_lines patch of [] \<Rightarrow> None | line # _ \<Rightarrow> strip_prefix ''--- '' line) ''runtime_diff_content_invalid'')
          (\<lambda>header_path.
            if (case index_path of None \<Rightarrow> False | Some path \<Rightarrow> path \<noteq> header_path)
              \<or> normalize_reported_path_for_display url execution_root header_path \<noteq> Some normalized
            then Inl ''runtime_diff_content_invalid''
            else normalize_pi_edit_patch patch header_path normalized))"

section \<open>Exact and reported mutations\<close>

record Admission =
  total_bytes :: nat
  evidence :: "Value list"
  projected :: "NormalizedDiffEntry list"
  excluded_managed_output :: bool

definition no_admission :: Admission where
  "no_admission = \<lparr>total_bytes = 0, evidence = [], projected = [], excluded_managed_output = False\<rparr>"

definition is_managed :: "(string \<Rightarrow> string option) \<Rightarrow> string \<Rightarrow> string option \<Rightarrow> string \<Rightarrow> bool" where
  "is_managed url execution_root managed path =
     (case managed of None \<Rightarrow> False | Some root \<Rightarrow> reported_path_is_within_root url execution_root path root)"

definition add_entry :: "NormalizedDiffEntry \<Rightarrow> Value \<Rightarrow> nat \<Rightarrow> Admission \<Rightarrow> Admission" where
  "add_entry entry v bytes s = s\<lparr>total_bytes := bytes, evidence := evidence s @ [v], projected := projected s @ [entry]\<rparr>"

definition replace_all_rejected :: "Value option \<Rightarrow> bool" where
  "replace_all_rejected v = (v \<noteq> None \<and> v \<noteq> Some (Bool False))"

definition charge :: "nat \<Rightarrow> nat \<Rightarrow> string + nat" where
  "charge bytes n =
     and_then (ok_or (checked_add bytes n) ''runtime_diff_size_limit'')
       (\<lambda>bytes. if bytes > MAX_DIFF_BYTES then Inl ''runtime_diff_size_limit'' else Inr bytes)"

definition admit_exact_mutation ::
    "(string \<Rightarrow> string option) \<Rightarrow> string \<Rightarrow> string option \<Rightarrow> Value \<Rightarrow> Admission \<Rightarrow> string + Admission" where
  "admit_exact_mutation url execution_root managed raw s =
     (if get_str raw ''semantics'' \<noteq> Some ''exact_mutation'' then Inl ''runtime_diff_semantics_invalid''
      else if replace_all_rejected (get raw ''replace_all'') \<or> replace_all_rejected (get raw ''replaceAll'')
      then Inl ''runtime_diff_replace_all_unsupported''
      else
        and_then (ok_or (get_str raw ''path'') ''runtime_diff_path_invalid'') (\<lambda>raw_path.
          if is_managed url execution_root managed raw_path then Inr (s\<lparr>excluded_managed_output := True\<rparr>)
          else
            and_then (ok_or (normalize_reported_path_for_display url execution_root raw_path) ''runtime_diff_path_invalid'') (\<lambda>path.
            and_then (ok_or (get_str raw ''oldText'') ''runtime_diff_content_invalid'') (\<lambda>old_text.
            and_then (ok_or (get_str raw ''newText'') ''runtime_diff_content_invalid'') (\<lambda>new_text.
              if old_text = new_text then Inl ''runtime_diff_no_changes''
              else
                and_then (ok_or (checked_add (length old_text) (length new_text)) ''runtime_diff_size_limit'') (\<lambda>source_bytes.
                  if source_bytes > MAX_SINGLE_DIFF_BYTES then Inl ''runtime_diff_item_limit''
                  else
                    and_then (charge (total_bytes s) source_bytes) (\<lambda>bytes.
                      if length (exact_mutation_fragment old_text new_text) > MAX_SINGLE_DIFF_BYTES
                      then Inl ''runtime_diff_item_limit''
                      else Inr (add_entry
                        \<lparr>entry_path = path, entry_change_kind = ''update'',
                         entry_additions = fragment_line_count new_text, entry_deletions = fragment_line_count old_text,
                         entry_diff = exact_mutation_fragment old_text new_text\<rparr>
                        (exact_mutation_value path old_text new_text) bytes s))))))))"

definition admit_exact_mutations ::
    "(string \<Rightarrow> string option) \<Rightarrow> Value list \<Rightarrow> string \<Rightarrow> string option \<Rightarrow> string + AdmittedCommandDiff" where
  "admit_exact_mutations url raw_entries execution_root managed =
     and_then (fold_result (admit_exact_mutation url execution_root managed) raw_entries no_admission) (\<lambda>s.
       if projected s = [] \<and> excluded_managed_output s then Inl RUNTIME_DIFF_MANAGED_OUTPUT_ROOT
       else Inr \<lparr>admitted_kind = ''exact_mutation'', admitted_entries = projected s, evidence_entries = Array (evidence s)\<rparr>)"

definition fragment_bytes :: "ReportedMutationFragment list \<Rightarrow> nat" where
  "fragment_bytes fs = sum_list (map (\<lambda>f. length (fragment_old f) + length (fragment_new f)) fs)"

text \<open>The set of paths the code keeps is that of the entries admitted so far.\<close>

definition admit_reported_mutation ::
    "(string \<Rightarrow> string option) \<Rightarrow> string \<Rightarrow> string option \<Rightarrow> Value \<Rightarrow> Admission \<Rightarrow> string + Admission" where
  "admit_reported_mutation url execution_root managed raw s =
     and_then (ok_or (reported_mutation_of raw) ''runtime_diff_content_invalid'') (\<lambda>(semantics, raw_path, fragments).
       if semantics \<noteq> ''reported_mutation'' then Inl ''runtime_diff_semantics_invalid''
       else if is_managed url execution_root managed raw_path then Inr s
       else
         and_then (ok_or (normalize_reported_path_for_display url execution_root raw_path) ''runtime_diff_path_invalid'') (\<lambda>path.
           if path \<in> set (map entry_path (projected s)) then Inl ''runtime_diff_path_invalid''
           else
             and_then (ok_or (reported_fragment_diff fragments) ''runtime_diff_content_invalid'') (\<lambda>(diff, additions, deletions).
             and_then (charge (total_bytes s) (max (length diff) (fragment_bytes fragments))) (\<lambda>bytes.
               Inr (add_entry
                 \<lparr>entry_path = path, entry_change_kind = ''update'', entry_additions = additions,
                  entry_deletions = deletions, entry_diff = diff\<rparr>
                 (reported_mutation_value path fragments) bytes s)))))"

definition admit_reported_mutations ::
    "(string \<Rightarrow> string option) \<Rightarrow> Value list \<Rightarrow> string \<Rightarrow> string option \<Rightarrow> string + AdmittedCommandDiff" where
  "admit_reported_mutations url raw_entries execution_root managed =
     and_then (fold_result (admit_reported_mutation url execution_root managed) raw_entries no_admission) (\<lambda>s.
       if projected s = [] then Inl RUNTIME_DIFF_MANAGED_OUTPUT_ROOT
       else Inr \<lparr>admitted_kind = ''reported_mutation'', admitted_entries = projected s, evidence_entries = Array (evidence s)\<rparr>)"

section \<open>Admission of a candidate\<close>

definition PROTOCOL :: string where "PROTOCOL = ''zcode-app-server-v1''"

definition completed_update :: string where "completed_update = ''session/update.tool_call_update.completed''"

text \<open>The allow list of sources.\<close>

definition admitted_source :: "AdapterKind \<Rightarrow> string \<Rightarrow> string \<Rightarrow> string \<Rightarrow> bool" where
  "admitted_source adapter protocol_family source_event_kind semantic_kind =
     (case adapter of
        CodexCli \<Rightarrow> protocol_family = ''codex-app-server''
          \<and> source_event_kind = ''item/completed.fileChange.completed'' \<and> semantic_kind = ''codex_file_change_snapshot''
      | ZcodeApp \<Rightarrow> protocol_family = PROTOCOL \<and> source_event_kind = ''tool.updated.result''
          \<and> semantic_kind = ''zcode_edit_patch''
      | HermesCli \<Rightarrow> False
      | MinimaxCodeCli \<Rightarrow> protocol_family = ''acp-v1'' \<and> source_event_kind = completed_update
          \<and> semantic_kind = ''minimax_file_patch''
      | _ \<Rightarrow>
          if adapter = CommandCodeCli \<and> semantic_kind = ''reported_mutation''
          then protocol_family = ''acp-v1'' \<and> source_event_kind = completed_update @ ''.edit_file''
          else if adapter = ClineCli \<and> semantic_kind = ''reported_mutation''
          then protocol_family = ''acp-v1''
            \<and> (source_event_kind = completed_update @ ''.apply_patch'' \<or> source_event_kind = completed_update @ ''.editor'')
          else if uses_acp adapter
          then protocol_family = ''acp-v1'' \<and> source_event_kind = completed_update \<and> semantic_kind = ''complete_before_after''
          else if adapter = ClaudeCodeCli
          then protocol_family = ''claude-stream-json''
            \<and> source_event_kind = ''assistant.tool_use.Edit+user.tool_result.completed'' \<and> semantic_kind = ''exact_mutation''
          else if adapter = Pi
          then protocol_family = ''pi-jsonl-rpc-v1'' \<and> source_event_kind = ''tool_execution_end.completed''
            \<and> semantic_kind = ''pi_edit_patch''
          else False)"

definition normalized_change_kind :: "Value \<Rightarrow> string \<Rightarrow> string + string" where
  "normalized_change_kind raw semantic_kind =
     (case (case get_str raw ''changeKind'' of Some k \<Rightarrow> Some k | None \<Rightarrow> Option.bind (pointer raw ''kind'' ''type'') as_str) of
        Some kind \<Rightarrow> if kind = ''add'' \<or> kind = ''delete'' \<or> kind = ''update'' then Inr kind
          else Inl ''runtime_diff_change_kind_invalid''
      | None \<Rightarrow>
          if semantic_kind \<noteq> ''complete_before_after'' then Inl ''runtime_diff_change_kind_invalid''
          else Inr (if get raw ''oldText'' = None \<or> get raw ''oldText'' = Some Null then ''add'' else ''update''))"

text \<open>The diff and the evidence entry of one reported change.\<close>

definition native_patch :: "string \<Rightarrow> bool" where
  "native_patch k =
     (k = ''codex_file_change_snapshot'' \<or> k = ''pi_edit_patch'' \<or> k = ''zcode_edit_patch'' \<or> k = ''minimax_file_patch'')"

definition native_content ::
    "(string \<Rightarrow> string option) \<Rightarrow> string \<Rightarrow> string \<Rightarrow> string \<Rightarrow> string \<Rightarrow> string \<Rightarrow> Value \<Rightarrow> string + string" where
  "native_content url execution_root semantic_kind change_kind raw_path path raw =
     and_then (ok_or (get_str raw ''diff'') ''runtime_diff_content_invalid'') (\<lambda>content.
       if length content > MAX_SINGLE_DIFF_BYTES then Inl ''runtime_diff_item_limit''
       else if semantic_kind = ''minimax_file_patch'' then
         (if change_kind \<noteq> ''update'' then Inl ''runtime_diff_change_kind_invalid''
          else normalize_minimax_file_patch url content path execution_root)
       else if semantic_kind = ''pi_edit_patch'' \<or> semantic_kind = ''zcode_edit_patch'' then
         (if change_kind \<noteq> ''update'' then Inl ''runtime_diff_change_kind_invalid''
          else normalize_pi_edit_patch content raw_path path)
       else Inr content)"

definition native_diff :: "string \<Rightarrow> string \<Rightarrow> string \<Rightarrow> string \<Rightarrow> string + (string \<times> Value)" where
  "native_diff change_kind path source_path content =
     (if change_kind = ''add''
      then Inr (unified_diff_from_before_after path None content,
                full_before_after_value path change_kind None (Some content))
      else if change_kind = ''delete''
      then Inr (unified_diff_for_delete source_path content,
                full_before_after_value source_path change_kind (Some content) None)
      else if change_kind = ''update''
      then (if content \<noteq> [] then Inr (content, unified_diff_value path change_kind content)
            else Inl ''runtime_diff_content_invalid'')
      else Inl ''runtime_diff_change_kind_invalid'')"

definition complete_diff :: "string \<Rightarrow> string \<Rightarrow> Value \<Rightarrow> string + (string \<times> Value)" where
  "complete_diff change_kind path raw =
     and_then
       (case get raw ''oldText'' of
          Some (JString v) \<Rightarrow> Inr (Some v) | Some Null \<Rightarrow> Inr None | None \<Rightarrow> Inr None
        | _ \<Rightarrow> Inl ''runtime_diff_content_invalid'')
       (\<lambda>old_text. and_then (ok_or (get_str raw ''newText'') ''runtime_diff_content_invalid'') (\<lambda>new_text.
          if old_text = Some new_text then Inl ''runtime_diff_no_changes''
          else if (case old_text of None \<Rightarrow> False | Some t \<Rightarrow> length t > MAX_SINGLE_DIFF_BYTES)
            \<or> length new_text > MAX_SINGLE_DIFF_BYTES then Inl ''runtime_diff_item_limit''
          else Inr (unified_diff_from_before_after path old_text new_text,
                    full_before_after_value path change_kind old_text (Some new_text))))"

definition reported_move_path :: "Value \<Rightarrow> string option" where
  "reported_move_path raw =
     Option.bind (case pointer raw ''kind'' ''movePath'' of
         Some v \<Rightarrow> Some v | None \<Rightarrow> pointer raw ''kind'' ''move_path'') as_str"

definition admit_change ::
    "(string \<Rightarrow> string option) \<Rightarrow> AdapterKind \<Rightarrow> string \<Rightarrow> string \<Rightarrow> string option \<Rightarrow> string option \<Rightarrow> bool \<Rightarrow>
     Value \<Rightarrow> Admission \<Rightarrow> string + Admission" where
  "admit_change url adapter semantic_kind execution_root operation_path managed single raw s =
     and_then (ok_or (get_str raw ''path'') ''runtime_diff_path_invalid'') (\<lambda>raw_path.
     if is_managed url execution_root managed raw_path
       \<or> (case reported_move_path raw of None \<Rightarrow> False | Some path \<Rightarrow> is_managed url execution_root managed path)
     then Inr (s\<lparr>excluded_managed_output := True\<rparr>)
     else
       and_then (ok_or
         (case (if adapter = KiroCli \<and> single then reconcile_kiro_rooted_diff_path raw_path operation_path else None) of
            Some path \<Rightarrow> Some path
          | None \<Rightarrow> normalize_reported_path_for_display url execution_root raw_path) ''runtime_diff_path_invalid'') (\<lambda>source_path.
       and_then (normalized_change_kind raw semantic_kind) (\<lambda>change_kind.
       and_then
         (if adapter = CodexCli \<and> change_kind = ''update'' then
            (case reported_move_path raw of
               None \<Rightarrow> Inr source_path
             | Some move \<Rightarrow>
                 ok_or (normalize_reported_path_for_display url execution_root move) ''runtime_diff_path_invalid'')
          else Inr source_path) (\<lambda>path.
       and_then
         (if native_patch semantic_kind then
            and_then (native_content url execution_root semantic_kind change_kind raw_path path raw)
              (native_diff change_kind path source_path)
          else if semantic_kind = ''complete_before_after'' then complete_diff change_kind path raw
          else Inl ''runtime_diff_semantics_invalid'') (\<lambda>(diff, evidence_entry).
       if length diff > MAX_SINGLE_DIFF_BYTES then Inl ''runtime_diff_item_limit''
       else
         and_then (charge (total_bytes s) (length diff)) (\<lambda>bytes.
         Inr (add_entry
           \<lparr>entry_path = path, entry_change_kind = change_kind, entry_additions = fst (unified_diff_counts diff),
            entry_deletions = snd (unified_diff_counts diff), entry_diff = diff\<rparr>
           evidence_entry bytes s)))))))"

definition admit_candidate ::
    "(string \<Rightarrow> string option) \<Rightarrow> Value \<Rightarrow> string \<Rightarrow> string option \<Rightarrow> string option \<Rightarrow> string option \<Rightarrow>
     string + AdmittedCommandDiff" where
  "admit_candidate url candidate execution_root frozen_adapter_kind operation_path managed =
     and_then (ok_or (get_str candidate ''adapterKind'') ''runtime_diff_source_invalid'') (\<lambda>adapter_kind.
     if frozen_adapter_kind \<noteq> Some adapter_kind then Inl ''runtime_diff_adapter_mismatch''
     else
       and_then (ok_or (get_str candidate ''protocolFamily'') ''runtime_diff_source_invalid'') (\<lambda>protocol_family.
       and_then (ok_or (get_str candidate ''sourceEventKind'') ''runtime_diff_source_invalid'') (\<lambda>source_event_kind.
       and_then (ok_or (get_str candidate ''semanticKind'') ''runtime_diff_semantics_invalid'') (\<lambda>semantic_kind.
       and_then (ok_or (adapter_from_str adapter_kind) ''runtime_diff_adapter_invalid'') (\<lambda>adapter.
       if \<not> admitted_source adapter protocol_family source_event_kind semantic_kind
       then Inl ''runtime_diff_source_not_allowlisted''
       else
         and_then (ok_or (Option.bind (get candidate ''entries'') as_array) ''runtime_diff_entries_invalid'') (\<lambda>raw_entries.
         if raw_entries = [] \<or> length raw_entries > MAX_DIFF_FILES then Inl ''runtime_diff_file_limit''
         else if semantic_kind = ''exact_mutation'' then admit_exact_mutations url raw_entries execution_root managed
         else if semantic_kind = ''reported_mutation'' then admit_reported_mutations url raw_entries execution_root managed
         else
           and_then (fold_result (admit_change url adapter semantic_kind execution_root operation_path managed
                       (length raw_entries = 1)) raw_entries no_admission) (\<lambda>s.
           if projected s = [] \<and> excluded_managed_output s then Inl RUNTIME_DIFF_MANAGED_OUTPUT_ROOT
           else Inr
             \<lparr>admitted_kind = (if native_patch semantic_kind then ''unified_diff_snapshot'' else semantic_kind),
              admitted_entries = projected s, evidence_entries = Array (evidence s)\<rparr>)))))))"

definition admit_runtime_diff_with_file_operation_path_and_managed_output_root ::
    "(string \<Rightarrow> string option) \<Rightarrow> Value \<Rightarrow> string \<Rightarrow> string option \<Rightarrow> string option \<Rightarrow> string option \<Rightarrow>
     (string + AdmittedCommandDiff) option" where
  "admit_runtime_diff_with_file_operation_path_and_managed_output_root url payload execution_root frozen operation_path managed =
     (case get payload ''runtimeDiff'' of
        None \<Rightarrow> None
      | Some candidate \<Rightarrow> Some (admit_candidate url candidate execution_root frozen operation_path managed))"

definition admit_runtime_diff_with_file_operation_path ::
    "(string \<Rightarrow> string option) \<Rightarrow> Value \<Rightarrow> string \<Rightarrow> string option \<Rightarrow> string option \<Rightarrow> (string + AdmittedCommandDiff) option" where
  "admit_runtime_diff_with_file_operation_path url payload execution_root frozen operation_path =
     admit_runtime_diff_with_file_operation_path_and_managed_output_root url payload execution_root frozen operation_path None"

definition admit_runtime_diff ::
    "(string \<Rightarrow> string option) \<Rightarrow> Value \<Rightarrow> string \<Rightarrow> string option \<Rightarrow> (string + AdmittedCommandDiff) option" where
  "admit_runtime_diff url payload execution_root frozen =
     admit_runtime_diff_with_file_operation_path_and_managed_output_root url payload execution_root frozen None None"

section \<open>Projections\<close>

record CommandDiffProjection =
  schema_version :: nat
  projection_source :: string
  revision :: int
  source_evidence_ids :: "string list"
  projection_status :: string
  projection_kind :: "string option"
  projection_entries :: "NormalizedDiffEntry list option"
  safe_reason_code :: "string option"

definition projection_from_admitted :: "AdmittedCommandDiff \<Rightarrow> string \<Rightarrow> CommandDiffProjection" where
  "projection_from_admitted admitted evidence_id =
     \<lparr>schema_version = COMMAND_DIFF_SCHEMA_VERSION, projection_source = ''runtime_reported'', revision = 1,
      source_evidence_ids = [evidence_id], projection_status = ''available'',
      projection_kind = Some (admitted_kind admitted), projection_entries = Some (admitted_entries admitted),
      safe_reason_code = None\<rparr>"

definition unavailable_projection :: "string \<Rightarrow> string \<Rightarrow> CommandDiffProjection" where
  "unavailable_projection reason evidence_id =
     \<lparr>schema_version = COMMAND_DIFF_SCHEMA_VERSION, projection_source = ''runtime_reported'', revision = 1,
      source_evidence_ids = [evidence_id], projection_status = ''unavailable'', projection_kind = None,
      projection_entries = None, safe_reason_code = Some reason\<rparr>"

definition exact_entry :: "Value \<Rightarrow> NormalizedDiffEntry option" where
  "exact_entry v =
     (case exact_mutation_of v of
        None \<Rightarrow> None
      | Some (semantics, path, old_text, new_text) \<Rightarrow>
          if old_text \<noteq> new_text
          then Some \<lparr>entry_path = path, entry_change_kind = ''update'',
                 entry_additions = fragment_line_count new_text, entry_deletions = fragment_line_count old_text,
                 entry_diff = exact_mutation_fragment old_text new_text\<rparr>
          else None)"

definition full_entry :: "Value \<Rightarrow> NormalizedDiffEntry option" where
  "full_entry v =
     (case full_before_after_of v of
        None \<Rightarrow> None
      | Some (semantics, path, change_kind, before, after) \<Rightarrow>
          map_option (\<lambda>patch. \<lparr>entry_path = path, entry_change_kind = change_kind,
              entry_additions = fst (unified_diff_counts patch), entry_deletions = snd (unified_diff_counts patch),
              entry_diff = patch\<rparr>)
            (unified_diff_from_complete_states path before after))"

definition command_diff_entry_from_evidence :: "Value \<Rightarrow> NormalizedDiffEntry option" where
  "command_diff_entry_from_evidence v =
     (case get_str v ''semantics'' of
        None \<Rightarrow> None
      | Some semantics \<Rightarrow>
          if semantics = ''reported_mutation'' then
            (case (reported_mutation_diff v, get_str v ''path'') of
               (Some (diff, additions, deletions), Some path) \<Rightarrow>
                 Some \<lparr>entry_path = path, entry_change_kind = ''update'', entry_additions = additions,
                   entry_deletions = deletions, entry_diff = diff\<rparr>
             | _ \<Rightarrow> None)
          else if semantics = ''exact_mutation'' then exact_entry v
          else if semantics = ''full_before_after'' then full_entry v
          else if semantics = ''unified_diff_snapshot'' then
            (case unified_diff_of v of
               None \<Rightarrow> None
             | Some (semantics, path, change_kind, diff) \<Rightarrow>
                 Some \<lparr>entry_path = path, entry_change_kind = change_kind,
                   entry_additions = fst (unified_diff_counts diff), entry_deletions = snd (unified_diff_counts diff),
                   entry_diff = diff\<rparr>)
          else None)"

definition projection_from_evidence :: "Value \<Rightarrow> string \<Rightarrow> CommandDiffProjection option" where
  "projection_from_evidence payload evidence_id =
     (case get payload ''runtimeDiff'' of
        None \<Rightarrow> None
      | Some diff \<Rightarrow>
          if get diff ''schemaVersion'' \<noteq> Some (Number (PosInt COMMAND_DIFF_SCHEMA_VERSION)) then None
          else if get_str diff ''status'' = Some ''available'' then
            (case (get_str diff ''semanticKind'', Option.bind (get diff ''entries'') as_array) of
               (Some semantic_kind, Some raw_entries) \<Rightarrow>
                 map_option (\<lambda>entries. projection_from_admitted
                     \<lparr>admitted_kind = semantic_kind, admitted_entries = entries, evidence_entries = Array raw_entries\<rparr>
                     evidence_id)
                   (collect command_diff_entry_from_evidence raw_entries)
             | _ \<Rightarrow> None)
          else if get_str diff ''status'' = Some ''unavailable'' then
            Some (unavailable_projection
              (case get_str diff ''safeReasonCode'' of None \<Rightarrow> ''runtime_diff_unavailable'' | Some r \<Rightarrow> r) evidence_id)
          else None)"

definition add_evidence_ids :: "string list \<Rightarrow> string list \<Rightarrow> string list" where
  "add_evidence_ids incoming current =
     fold (\<lambda>i ids. if i \<in> set ids then ids else ids @ [i]) incoming current"

definition merge_projection :: "CommandDiffProjection option \<Rightarrow> CommandDiffProjection \<Rightarrow> CommandDiffProjection" where
  "merge_projection current incoming =
     (case current of
        None \<Rightarrow> incoming
      | Some c \<Rightarrow>
          (let c = c\<lparr>source_evidence_ids := add_evidence_ids (source_evidence_ids incoming) (source_evidence_ids c)\<rparr> in
           if projection_status c = projection_status incoming \<and> projection_kind c = projection_kind incoming
             \<and> projection_entries c = projection_entries incoming \<and> safe_reason_code c = safe_reason_code incoming
           then c
           else c\<lparr>revision := min (2 ^ 63 - 1) (revision c + 1), projection_status := ''conflict'',
                  projection_kind := None, projection_entries := None,
                  safe_reason_code := Some ''runtime_diff_conflicting_terminal_snapshots''\<rparr>))"

end
