(* ===== verification/File_Operation.thy ===== *)
theory File_Operation
  imports Diff_Admission
begin

text \<open>
  The file operations a runtime reports, from
  \<^verbatim>\<open>crates/rovai-core/src/runtime_file_operation.rs\<close>, and the normalization of a
  public payload before it is stored, from \<^verbatim>\<open>crates/rovai-core/src/execution_evidence.rs\<close>:
  the candidates a runtime sent in \<open>runtimeFileOperation\<close>, \<open>runtimeDiff\<close> and \<open>runtimeRunDiff\<close>
  are replaced by what the core admitted of them. The JSON parser that reads the workspace is the
  parameter \<open>from_str\<close>.
\<close>

section \<open>Admission of a file operation\<close>

definition FILE_OPERATION_SCHEMA_VERSION :: nat where "FILE_OPERATION_SCHEMA_VERSION = 2"
definition RUNTIME_FILE_OPERATION_MANAGED_OUTPUT_ROOT :: string where
  "RUNTIME_FILE_OPERATION_MANAGED_OUTPUT_ROOT = ''runtime_file_operation_managed_output_root''"

record AdmittedRuntimeFileOperation =
  operation_kind :: string
  operation_path :: string
  operation_change_kind :: "string option"

definition file_change_kind :: "string \<Rightarrow> Value \<Rightarrow> string + string option" where
  "file_change_kind operation candidate =
     (case get candidate ''changeKind'' of
        None \<Rightarrow> Inr None
      | Some Null \<Rightarrow> Inr None
      | Some (JString change) \<Rightarrow>
          if operation = ''write'' \<and> (change = ''add'' \<or> change = ''update'') then Inr (Some change)
          else Inl ''runtime_file_operation_change_kind_invalid''
      | Some _ \<Rightarrow> Inl ''runtime_file_operation_change_kind_invalid'')"

definition file_source_allowlisted :: "AdapterKind \<Rightarrow> string \<Rightarrow> string option \<Rightarrow> string option \<Rightarrow> bool" where
  "file_source_allowlisted adapter operation protocol_family source_event_kind =
     (if adapter = ZcodeApp then protocol_family = Some PROTOCOL \<and> source_event_kind = Some ''tool.updated.result''
      else if uses_acp adapter then protocol_family = Some ''acp-v1'' \<and> source_event_kind = Some completed_update
      else
        (case adapter of
           CodexCli \<Rightarrow> operation = ''read'' \<and> protocol_family = Some ''codex-app-server''
             \<and> source_event_kind = Some ''activity.commandExecution.read''
         | ClaudeCodeCli \<Rightarrow> protocol_family = Some ''claude-stream-json''
             \<and> source_event_kind = Some ''assistant.tool_use.file+user.tool_result.completed''
         | Pi \<Rightarrow> protocol_family = Some ''pi-jsonl-rpc-v1'' \<and> source_event_kind = Some ''tool_execution_end.completed''
         | _ \<Rightarrow> False))"

definition admit_file_candidate ::
    "(string \<Rightarrow> string option) \<Rightarrow> Value \<Rightarrow> string \<Rightarrow> string option \<Rightarrow> string option \<Rightarrow> string + AdmittedRuntimeFileOperation" where
  "admit_file_candidate url candidate execution_root frozen managed =
     and_then (ok_or (get_str candidate ''adapterKind'') ''runtime_file_operation_source_invalid'') (\<lambda>adapter_kind.
     if frozen \<noteq> Some adapter_kind then Inl ''runtime_file_operation_adapter_mismatch''
     else
       and_then (ok_or (adapter_from_str adapter_kind) ''runtime_file_operation_adapter_invalid'') (\<lambda>adapter.
       and_then (ok_or (get_str candidate ''operationKind'') ''runtime_file_operation_kind_invalid'') (\<lambda>operation.
       if operation \<noteq> ''read'' \<and> operation \<noteq> ''write'' then Inl ''runtime_file_operation_kind_invalid''
       else
         and_then (file_change_kind operation candidate) (\<lambda>change.
         if \<not> file_source_allowlisted adapter operation (get_str candidate ''protocolFamily'') (get_str candidate ''sourceEventKind'')
         then Inl ''runtime_file_operation_source_not_allowlisted''
         else
           and_then (ok_or (get_str candidate ''path'') ''runtime_file_operation_path_invalid'') (\<lambda>raw_path.
           if is_managed url execution_root managed raw_path then Inl RUNTIME_FILE_OPERATION_MANAGED_OUTPUT_ROOT
           else
             and_then (ok_or (normalize_reported_path_for_display url execution_root raw_path) ''runtime_file_operation_path_invalid'')
               (\<lambda>path. Inr \<lparr>operation_kind = operation, operation_path = path, operation_change_kind = change\<rparr>))))))"

definition admit_runtime_file_operation_with_managed_output_root ::
    "(string \<Rightarrow> string option) \<Rightarrow> Value \<Rightarrow> string \<Rightarrow> string option \<Rightarrow> string option \<Rightarrow>
     (string + AdmittedRuntimeFileOperation) option" where
  "admit_runtime_file_operation_with_managed_output_root url payload execution_root frozen managed =
     (case get payload ''runtimeFileOperation'' of
        None \<Rightarrow> None
      | Some candidate \<Rightarrow> Some (admit_file_candidate url candidate execution_root frozen managed))"

definition admit_runtime_file_operation ::
    "(string \<Rightarrow> string option) \<Rightarrow> Value \<Rightarrow> string \<Rightarrow> string option \<Rightarrow> (string + AdmittedRuntimeFileOperation) option" where
  "admit_runtime_file_operation url payload execution_root frozen =
     admit_runtime_file_operation_with_managed_output_root url payload execution_root frozen None"

text \<open>Reading a stored operation back; the reference has the fields of an admitted one.\<close>

definition operation_from_evidence :: "Value \<Rightarrow> AdmittedRuntimeFileOperation option" where
  "operation_from_evidence payload =
     (case get payload ''runtimeFileOperation'' of
        None \<Rightarrow> None
      | Some projection \<Rightarrow>
          if get projection ''schemaVersion'' \<noteq> Some (Number (PosInt FILE_OPERATION_SCHEMA_VERSION))
            \<or> get_str projection ''status'' \<noteq> Some ''available'' then None
          else
            (case get_str projection ''operationKind'' of
               None \<Rightarrow> None
             | Some kind \<Rightarrow>
                 if kind \<noteq> ''read'' \<and> kind \<noteq> ''write'' then None
                 else
                   map_option (\<lambda>path. \<lparr>operation_kind = kind, operation_path = path, operation_change_kind =
                       (case get_str projection ''changeKind'' of
                          Some change \<Rightarrow> if change = ''add'' \<or> change = ''update'' then Some change else None
                        | None \<Rightarrow> None)\<rparr>)
                     (get_str projection ''path'')))"

definition path_from_evidence :: "Value \<Rightarrow> string option" where
  "path_from_evidence payload =
     (case operation_from_evidence payload of
        None \<Rightarrow> None
      | Some operation \<Rightarrow> if operation_kind operation = ''write'' then Some (operation_path operation) else None)"

section \<open>Normalizing a payload\<close>

definition execution_root_of :: "(string \<Rightarrow> Value option) \<Rightarrow> string option \<Rightarrow> string option" where
  "execution_root_of from_str workspace_json =
     Option.bind (Option.bind workspace_json from_str) (\<lambda>workspace. get_str workspace ''executionRoot'')"

definition source_metadata :: "Value \<Rightarrow> string option \<Rightarrow> Value" where
  "source_metadata candidate observed_version =
     Object [(''adapterKind'', field_or_null candidate ''adapterKind''),
       (''observedRuntimeVersion'', optional_value observed_version),
       (''sourceEventKind'', field_or_null candidate ''sourceEventKind'')]"

definition unavailable_value :: "nat \<Rightarrow> string \<Rightarrow> Value \<Rightarrow> Value" where
  "unavailable_value version reason metadata =
     Object [(''schemaVersion'', Number (PosInt version)), (''source'', JString ''runtime_reported''),
       (''status'', JString ''unavailable''), (''safeReasonCode'', JString reason), (''sourceMetadata'', metadata)]"

definition available_diff_value :: "AdmittedCommandDiff \<Rightarrow> Value \<Rightarrow> Value" where
  "available_diff_value admitted metadata =
     Object [(''schemaVersion'', Number (PosInt COMMAND_DIFF_SCHEMA_VERSION)), (''source'', JString ''runtime_reported''),
       (''status'', JString ''available''), (''semanticKind'', JString (admitted_kind admitted)),
       (''entries'', evidence_entries admitted), (''sourceMetadata'', metadata)]"

definition available_operation_value :: "AdmittedRuntimeFileOperation \<Rightarrow> Value \<Rightarrow> Value" where
  "available_operation_value admitted metadata =
     (let projection = Object [(''schemaVersion'', Number (PosInt FILE_OPERATION_SCHEMA_VERSION)),
          (''source'', JString ''runtime_reported''), (''status'', JString ''available''),
          (''operationKind'', JString (operation_kind admitted)), (''path'', JString (operation_path admitted)),
          (''sourceMetadata'', metadata)]
      in case operation_change_kind admitted of
           None \<Rightarrow> projection
         | Some change \<Rightarrow> set_field ''changeKind'' (JString change) projection)"

definition normalize_runtime_file_operation_evidence ::
    "(string \<Rightarrow> string option) \<Rightarrow> (string \<Rightarrow> Value option) \<Rightarrow> string option \<Rightarrow> string option \<Rightarrow> string option \<Rightarrow>
     string option \<Rightarrow> Value \<Rightarrow> Value" where
  "normalize_runtime_file_operation_evidence url from_str workspace_json frozen observed_version managed payload =
     (case get payload ''runtimeFileOperation'' of
        None \<Rightarrow> payload
      | Some Null \<Rightarrow> payload
      | Some candidate \<Rightarrow>
          set_field ''runtimeFileOperation''
            (case map_option (\<lambda>root. case admit_runtime_file_operation_with_managed_output_root url payload root frozen managed of
                 None \<Rightarrow> Inl ''runtime_file_operation_candidate_missing'' | Some r \<Rightarrow> r)
               (execution_root_of from_str workspace_json) of
               Some (Inr admitted) \<Rightarrow> available_operation_value admitted (source_metadata candidate observed_version)
             | Some (Inl reason) \<Rightarrow>
                 unavailable_value FILE_OPERATION_SCHEMA_VERSION reason (source_metadata candidate observed_version)
             | None \<Rightarrow> unavailable_value FILE_OPERATION_SCHEMA_VERSION ''runtime_file_operation_execution_root_missing''
                 (source_metadata candidate observed_version))
            payload)"

definition diff_admission ::
    "(string \<Rightarrow> string option) \<Rightarrow> Value \<Rightarrow> Value \<Rightarrow> string option \<Rightarrow> string option \<Rightarrow> string \<Rightarrow> string + AdmittedCommandDiff" where
  "diff_admission url payload candidate frozen managed root =
     (if Option.bind (pointer payload ''runtimeFileOperation'' ''safeReasonCode'') as_str =
           Some RUNTIME_FILE_OPERATION_MANAGED_OUTPUT_ROOT
         \<and> (case Option.bind (get candidate ''entries'') as_array of None \<Rightarrow> False | Some entries \<Rightarrow> length entries = 1)
      then Inl RUNTIME_DIFF_MANAGED_OUTPUT_ROOT
      else
        (case admit_runtime_diff_with_file_operation_path_and_managed_output_root url payload root frozen
                (path_from_evidence payload) managed of
           None \<Rightarrow> Inl ''runtime_diff_candidate_missing'' | Some r \<Rightarrow> r))"

definition normalize_runtime_diff_evidence ::
    "(string \<Rightarrow> string option) \<Rightarrow> (string \<Rightarrow> Value option) \<Rightarrow> string option \<Rightarrow> string option \<Rightarrow> string option \<Rightarrow>
     string option \<Rightarrow> Value \<Rightarrow> Value" where
  "normalize_runtime_diff_evidence url from_str workspace_json frozen observed_version managed payload =
     (case get payload ''runtimeDiff'' of
        None \<Rightarrow> payload
      | Some Null \<Rightarrow> payload
      | Some candidate \<Rightarrow>
          set_field ''runtimeDiff''
            (case map_option (diff_admission url payload candidate frozen managed) (execution_root_of from_str workspace_json) of
               Some (Inr admitted) \<Rightarrow> available_diff_value admitted (source_metadata candidate observed_version)
             | Some (Inl reason) \<Rightarrow>
                 unavailable_value COMMAND_DIFF_SCHEMA_VERSION reason (source_metadata candidate observed_version)
             | None \<Rightarrow> unavailable_value COMMAND_DIFF_SCHEMA_VERSION ''runtime_diff_execution_root_unavailable''
                 (source_metadata candidate observed_version))
            payload)"

definition set_runtime_run_diff_unavailable :: "string \<Rightarrow> Value \<Rightarrow> Value" where
  "set_runtime_run_diff_unavailable reason payload =
     set_field ''runtimeRunDiff''
       (unavailable_value 1 reason (case pointer payload ''runtimeRunDiff'' ''sourceMetadata'' of None \<Rightarrow> Null | Some v \<Rightarrow> v))
       payload"

definition normalize_runtime_run_diff_evidence ::
    "(string \<Rightarrow> string option) \<Rightarrow> (string \<Rightarrow> Value option) \<Rightarrow> string option \<Rightarrow> string option \<Rightarrow> Value \<Rightarrow> Value" where
  "normalize_runtime_run_diff_evidence url from_str workspace_json managed payload =
     (case managed of
        None \<Rightarrow> payload
      | Some managed_root \<Rightarrow>
          (case Option.bind (pointer payload ''runtimeRunDiff'' ''diff'') as_str of
             None \<Rightarrow> payload
           | Some diff \<Rightarrow>
               (case execution_root_of from_str workspace_json of
                  None \<Rightarrow> set_runtime_run_diff_unavailable ''runtime_run_diff_execution_root_missing'' payload
                | Some root \<Rightarrow>
                    (case filter_unified_diff_snapshot_outside_root url diff root managed_root of
                       Some filtered \<Rightarrow>
                         set_field ''runtimeRunDiff''
                           (set_field ''diff'' (JString filtered) (field_or_null payload ''runtimeRunDiff'')) payload
                     | None \<Rightarrow> set_runtime_run_diff_unavailable ''runtime_run_diff_managed_output_filter_unsafe'' payload))))"

text \<open>The read candidate that a Codex command yields: all its actions read one and the same path.\<close>

fun unique_read_path :: "Value list \<Rightarrow> string option \<Rightarrow> string option" where
  "unique_read_path [] unique = unique"
| "unique_read_path (action # actions) unique =
     (if get_str action ''type'' \<noteq> Some ''read'' then None
      else
        (case map_option trim (get_str action ''path'') of
           None \<Rightarrow> None
         | Some path \<Rightarrow>
             if path = [] then None
             else
               (case unique of
                  Some existing \<Rightarrow> if existing \<noteq> path then None else unique_read_path actions unique
                | None \<Rightarrow> unique_read_path actions (Some path))))"

definition insert_codex_command_read_candidate ::
    "string \<Rightarrow> Value \<Rightarrow> string option \<Rightarrow> Value \<Rightarrow> Value" where
  "insert_codex_command_read_candidate event_type source frozen payload =
     (if frozen \<noteq> Some ''codex-cli'' then payload
      else
        (let payload = remove_field ''runtimeFileOperation'' payload in
         if (event_type \<noteq> ''activity.started'' \<and> event_type \<noteq> ''activity.completed'')
           \<or> Option.bind (pointer source ''item'' ''type'') as_str \<noteq> Some ''commandExecution'' then payload
         else
           (case Option.bind (pointer source ''item'' ''commandActions'') as_array of
              None \<Rightarrow> payload
            | Some [] \<Rightarrow> payload
            | Some actions \<Rightarrow>
                (case unique_read_path actions None of
                   None \<Rightarrow> payload
                 | Some path \<Rightarrow>
                     set_field ''runtimeFileOperation''
                       (Object [(''adapterKind'', JString ''codex-cli''), (''protocolFamily'', JString ''codex-app-server''),
                         (''sourceEventKind'', JString ''activity.commandExecution.read''),
                         (''operationKind'', JString ''read''), (''path'', JString path)])
                       payload))))"

end
