(* ===== verification/Diff_Safety.thy ===== *)
theory Diff_Safety
  imports Diff_Admission
begin

text \<open>
  What the admission of a runtime's diff guarantees: the limits, which files an admitted diff
  names, that the stored evidence rebuilds exactly the admitted projection, and how projections of
  one operation merge.
\<close>

section \<open>Results\<close>

lemma charge_Inr [result_simps]: "charge bytes n = Inr m \<longleftrightarrow> m = bytes + n \<and> bytes + n \<le> MAX_DIFF_BYTES"
  by (auto simp: charge_def result_simps MAX_DIFF_BYTES_def)

section \<open>Stored evidence\<close>

named_theorems stored_simps

lemma exact_mutation_stored [stored_simps]: "exact_mutation_of (exact_mutation_value path old new) = Some (''exact_mutation'', path, old, new)"
  by (simp add: exact_mutation_of_def exact_mutation_value_def struct_fields_def string_field_def)

lemma fragments_stored: "collect fragment_of (map fragment_value fs) = Some fs"
  by (induction fs) (simp_all add: fragment_of_def fragment_value_def struct_fields_def string_field_def)

lemma reported_mutation_stored [stored_simps]:
  "reported_mutation_of (reported_mutation_value path fs) = Some (''reported_mutation'', path, fs)"
  by (simp add: reported_mutation_of_def reported_mutation_value_def struct_fields_def string_field_def fragments_stored)

lemma optional_stored: "optional_string_field (Some (optional_value s)) = Some s"
  by (cases s) (simp_all add: optional_string_field_def optional_value_def)

lemma full_before_after_stored [stored_simps]:
  "full_before_after_of (full_before_after_value path kind before after) = Some (''full_before_after'', path, kind, before, after)"
  by (simp add: full_before_after_of_def full_before_after_value_def struct_fields_def string_field_def optional_stored)

lemma unified_diff_stored [stored_simps]:
  "unified_diff_of (unified_diff_value path kind diff) = Some (''unified_diff_snapshot'', path, kind, diff)"
  by (simp add: unified_diff_of_def unified_diff_value_def struct_fields_def string_field_def)

lemma stored_names [stored_simps]:
  "get_str (exact_mutation_value path old new) ''semantics'' = Some ''exact_mutation''"
  "get_str (reported_mutation_value path fs) ''semantics'' = Some ''reported_mutation''"
  "get_str (reported_mutation_value path fs) ''path'' = Some path"
  "get_str (full_before_after_value path kind before after) ''semantics'' = Some ''full_before_after''"
  "get_str (unified_diff_value path kind diff) ''semantics'' = Some ''unified_diff_snapshot''"
  by (simp_all add: get_str_def exact_mutation_value_def reported_mutation_value_def full_before_after_value_def
      unified_diff_value_def)

lemma collect_append:
  "collect f xs = Some as \<Longrightarrow> collect f ys = Some bs \<Longrightarrow> collect f (xs @ ys) = Some (as @ bs)"
  by (induction xs arbitrary: as) (auto split: option.splits)

section \<open>One entry\<close>

definition stripped :: "string \<Rightarrow> string" where
  "stripped l = strip_last CR (strip_last NL l)"

lemma stripped_Cons: "w \<noteq> [] \<Longrightarrow> length (stripped (x # w)) \<le> length (stripped w) + 1"
  by (cases w rule: rev_cases) (auto simp: stripped_def strip_last_def)

lemma stripped_lines: "sum_list (map (\<lambda>l. length (stripped l) + 2) (split_inclusive NL s)) \<le> 2 * length s + 1"
proof (induction "NL" s rule: split_inclusive.induct)
  case (2 x xs)
  have single: "length (stripped [x]) \<le> 1" by (simp add: stripped_def strip_last_def)
  show ?case
  proof (cases "x = NL")
    case True
    then show ?thesis using 2 by (simp add: stripped_def strip_last_def)
  next
    case False
    show ?thesis
    proof (cases "split_inclusive NL xs")
      case Nil
      then show ?thesis using False single by simp
    next
      case (Cons w ws)
      then have "w \<noteq> []" using split_inclusive_line_like [of w xs] by (simp add: line_like_def)
      then show ?thesis using False 2 Cons stripped_Cons [of w x] by simp
    qed
  qed
qed simp

lemma exact_lines_length: "length (append_exact_fragment_lines out p s) \<le> length out + 2 * length s + 1" for p
proof -
  have "length (fold (\<lambda>line out. out @ p # strip_last CR (strip_last NL line) @ [NL]) ls out) =
      length out + sum_list (map (\<lambda>l. length (stripped l) + 2) ls)" for ls
    by (induction ls arbitrary: out) (simp_all add: stripped_def)
  with stripped_lines [of s] show ?thesis by (simp add: append_exact_fragment_lines_def)
qed

lemma exact_fragment_length: "length (exact_mutation_fragment old new) \<le> 2 * (length old + length new) + 2"
  using exact_lines_length [of "append_exact_fragment_lines [] CHR ''-'' old" "CHR ''+''" new]
    exact_lines_length [of "[]" "CHR ''-''" old]
  by (simp add: exact_mutation_fragment_def)

lemma fragment_loop_length:
  "fragment_loop fs diff n a d = Some (out, a', d') \<Longrightarrow> length diff \<le> MAX_SINGLE_DIFF_BYTES \<Longrightarrow> length out \<le> MAX_SINGLE_DIFF_BYTES"
  by (induction fs diff n a d rule: fragment_loop.induct) (auto split: option.splits if_splits simp: checked_add_def)

text \<open>What adding one entry does.\<close>

definition added :: "(nat \<Rightarrow> nat) \<Rightarrow> Admission \<Rightarrow> NormalizedDiffEntry \<Rightarrow> Admission \<Rightarrow> bool" where
  "added weight s e s' \<longleftrightarrow>
     (\<exists>n v. s' = add_entry e v (total_bytes s + n) s \<and> total_bytes s + n \<le> MAX_DIFF_BYTES
        \<and> length (entry_diff e) \<le> min MAX_SINGLE_DIFF_BYTES (weight n)
        \<and> command_diff_entry_from_evidence v = Some e)"

definition reported_path :: "string \<Rightarrow> Value \<Rightarrow> string option" where
  "reported_path kind raw =
     (if kind = ''reported_mutation'' then map_option (\<lambda>(semantics, path, fragments). path) (reported_mutation_of raw)
      else get_str raw ''path'')"

lemma exact_entry_stored:
  "old \<noteq> new \<Longrightarrow> command_diff_entry_from_evidence (exact_mutation_value path old new) =
     Some \<lparr>entry_path = path, entry_change_kind = ''update'', entry_additions = fragment_line_count new,
       entry_deletions = fragment_line_count old, entry_diff = exact_mutation_fragment old new\<rparr>"
  by (simp add: command_diff_entry_from_evidence_def exact_entry_def stored_simps)

lemma addedI:
  assumes "s' = add_entry e v (total_bytes s + n) s" and "total_bytes s + n \<le> MAX_DIFF_BYTES"
    and "command_diff_entry_from_evidence v = Some e"
    and "length (entry_diff e) \<le> MAX_SINGLE_DIFF_BYTES" and "length (entry_diff e) \<le> weight n"
  shows "added weight s e s'"
  using assms by (auto simp: added_def)

lemma admit_exact_mutation_added:
  assumes "admit_exact_mutation url root managed raw s = Inr s'"
  obtains (skipped) p where "get_str raw ''path'' = Some p" "is_managed url root managed p"
      "s' = s\<lparr>excluded_managed_output := True\<rparr>"
    | (entry) p e where "get_str raw ''path'' = Some p" "\<not> is_managed url root managed p"
      "added (\<lambda>n. 2 * n + 2) s e s'" "normalize_reported_path_for_display url root p = Some (entry_path e)"
proof -
  from assms obtain p where p: "get_str raw ''path'' = Some p"
    by (auto simp: admit_exact_mutation_def result_simps split: if_splits)
  show thesis
  proof (cases "is_managed url root managed p")
    case True
    with assms p show thesis by (intro skipped) (auto simp: admit_exact_mutation_def result_simps split: if_splits)
  next
    case False
    with assms p obtain path old new where e: "normalize_reported_path_for_display url root p = Some path"
        "old \<noteq> new" "total_bytes s + (length old + length new) \<le> MAX_DIFF_BYTES"
        "length (exact_mutation_fragment old new) \<le> MAX_SINGLE_DIFF_BYTES"
        "s' = add_entry \<lparr>entry_path = path, entry_change_kind = ''update'', entry_additions = fragment_line_count new,
          entry_deletions = fragment_line_count old, entry_diff = exact_mutation_fragment old new\<rparr>
          (exact_mutation_value path old new) (total_bytes s + (length old + length new)) s"
      by (auto simp: admit_exact_mutation_def result_simps not_less split: if_splits)
    show thesis
      by (rule entry [OF p False addedI [OF e(5,3) exact_entry_stored [OF e(2)]]])
        (use e exact_fragment_length [of old new] in simp_all)
  qed
qed

lemma admit_reported_mutation_added:
  assumes "admit_reported_mutation url root managed raw s = Inr s'"
  obtains (skipped) p where "reported_path ''reported_mutation'' raw = Some p" "is_managed url root managed p" "s' = s"
    | (entry) p e where "reported_path ''reported_mutation'' raw = Some p" "\<not> is_managed url root managed p"
      "added (\<lambda>n. n) s e s'" "normalize_reported_path_for_display url root p = Some (entry_path e)"
      "entry_path e \<notin> entry_path ` set (projected s)"
proof -
  from assms obtain semantics p fs where raw: "reported_mutation_of raw = Some (semantics, p, fs)"
    by (auto simp: admit_reported_mutation_def result_simps)
  then have p: "reported_path ''reported_mutation'' raw = Some p" by (simp add: reported_path_def)
  show thesis
  proof (cases "is_managed url root managed p")
    case True
    with assms raw p show thesis by (intro skipped) (auto simp: admit_reported_mutation_def result_simps split: if_splits)
  next
    case False
    with assms raw obtain path diff a d where e: "normalize_reported_path_for_display url root p = Some path"
        "path \<notin> entry_path ` set (projected s)" "reported_fragment_diff fs = Some (diff, a, d)"
        "total_bytes s + max (length diff) (fragment_bytes fs) \<le> MAX_DIFF_BYTES"
        "s' = add_entry \<lparr>entry_path = path, entry_change_kind = ''update'', entry_additions = a,
          entry_deletions = d, entry_diff = diff\<rparr>
          (reported_mutation_value path fs) (total_bytes s + max (length diff) (fragment_bytes fs)) s"
      by (auto simp: admit_reported_mutation_def result_simps split: if_splits)
    have stored: "command_diff_entry_from_evidence (reported_mutation_value path fs) =
        Some \<lparr>entry_path = path, entry_change_kind = ''update'', entry_additions = a, entry_deletions = d, entry_diff = diff\<rparr>"
      using e(3) by (simp add: command_diff_entry_from_evidence_def reported_mutation_diff_def stored_simps)
    have "length diff \<le> MAX_SINGLE_DIFF_BYTES"
      using e(3) fragment_loop_length [of fs "[]"] by (auto simp: reported_fragment_diff_def split: if_splits)
    then show thesis
      by (intro entry [OF p False addedI [OF e(5,4) stored]]) (use e in simp_all)
  qed
qed

abbreviation counted :: "string \<Rightarrow> string \<Rightarrow> string \<Rightarrow> NormalizedDiffEntry" where
  "counted path kind diff \<equiv>
     \<lparr>entry_path = path, entry_change_kind = kind, entry_additions = fst (unified_diff_counts diff),
      entry_deletions = snd (unified_diff_counts diff), entry_diff = diff\<rparr>"

lemma native_diff_stored:
  assumes "native_diff kind path source content = Inr (diff, ev)" and "kind \<noteq> ''update'' \<Longrightarrow> path = source"
  shows "command_diff_entry_from_evidence ev = Some (counted path kind diff)"
  using assms
  by (auto simp: native_diff_def command_diff_entry_from_evidence_def full_entry_def stored_simps
      unified_diff_from_complete_states_def split: if_splits)

lemma complete_diff_stored:
  assumes "complete_diff kind path raw = Inr (diff, ev)"
  shows "command_diff_entry_from_evidence ev = Some (counted path kind diff)"
proof -
  from assms obtain old new where "old \<noteq> Some new" "diff = unified_diff_from_before_after path old new"
      "ev = full_before_after_value path kind old (Some new)"
    by (auto simp: complete_diff_def result_simps split: if_splits)
  then show ?thesis
    by (simp add: command_diff_entry_from_evidence_def full_entry_def stored_simps unified_diff_from_complete_states_def
        split: option.splits)
qed

definition is_managed_change :: "(string \<Rightarrow> string option) \<Rightarrow> string \<Rightarrow> string option \<Rightarrow> Value \<Rightarrow> bool" where
  "is_managed_change url root managed raw \<longleftrightarrow>
     list_ex (is_managed url root managed)
       ((case get_str raw ''path'' of None \<Rightarrow> [] | Some p \<Rightarrow> [p]) @ (case reported_move_path raw of None \<Rightarrow> [] | Some p \<Rightarrow> [p]))"

lemma change_committed:
  assumes "(case r of (diff, ev) \<Rightarrow>
      if length diff > MAX_SINGLE_DIFF_BYTES then Inl ''runtime_diff_item_limit''
      else and_then (charge (total_bytes s) (length diff)) (\<lambda>bytes. Inr (add_entry (counted path change diff) ev bytes s))) = Inr s'"
  shows "length (fst r) \<le> MAX_SINGLE_DIFF_BYTES \<and> total_bytes s + length (fst r) \<le> MAX_DIFF_BYTES
    \<and> s' = add_entry (counted path change (fst r)) (snd r) (total_bytes s + length (fst r)) s"
  using assms by (cases r) (auto simp: result_simps not_less)

lemma admit_change_added:
  assumes "admit_change url adapter kind root operation managed single raw s = Inr s'"
  obtains (skipped) "is_managed_change url root managed raw" "s' = s\<lparr>excluded_managed_output := True\<rparr>"
    | (entry) e where "\<not> is_managed_change url root managed raw" "added (\<lambda>n. n) s e s'"
      "Some (entry_path e) \<in> {if adapter = KiroCli then operation else None, Option.bind (get_str raw ''path'') (normalize_reported_path_for_display url root),
         Option.bind (reported_move_path raw) (normalize_reported_path_for_display url root)}"
proof -
  from assms obtain p where p: "get_str raw ''path'' = Some p"
    by (auto simp: admit_change_def result_simps)
  show thesis
  proof (cases "is_managed_change url root managed raw")
    case True
    with assms p show thesis
      by (intro skipped) (auto simp: admit_change_def result_simps is_managed_change_def split: option.splits if_splits)
  next
    case False
    let ?kiro = "if adapter = KiroCli \<and> single then reconcile_kiro_rooted_diff_path p operation else None"
    let ?display = "normalize_reported_path_for_display url root"
    define source where "source = (case ?kiro of Some path \<Rightarrow> Some path | None \<Rightarrow> ?display p)"
    from False p have unmanaged: "\<not> (is_managed url root managed p \<or>
        (case reported_move_path raw of None \<Rightarrow> False | Some path \<Rightarrow> is_managed url root managed path))"
      by (auto simp: is_managed_change_def split: option.splits)
    let ?moved = "\<lambda>src change. if adapter = CodexCli \<and> change = ''update'' then
            (case reported_move_path raw of None \<Rightarrow> Inr src | Some move \<Rightarrow> ok_or (?display move) ''runtime_diff_path_invalid'')
          else Inr src"
    let ?diff = "\<lambda>src change path. if native_patch kind then
            and_then (native_content url root kind change p path raw) (native_diff change path src)
          else if kind = ''complete_before_after'' then complete_diff change path raw
          else Inl ''runtime_diff_semantics_invalid''"
    from assms have "\<exists>src change path r. source = Some src \<and> ?moved src change = Inr path \<and> ?diff src change path = Inr r
        \<and> length (fst r) \<le> MAX_SINGLE_DIFF_BYTES \<and> total_bytes s + length (fst r) \<le> MAX_DIFF_BYTES
        \<and> s' = add_entry (counted path change (fst r)) (snd r) (total_bytes s + length (fst r)) s"
      unfolding admit_change_def source_def
      apply (simp only: p ok_or_def [of "Some p"] option.case and_then_def [of "Inr p"] sum.case unmanaged if_False)
      apply (simp only: and_then_Inr ok_or_Inr charge_Inr)
      apply (elim exE conjE)
      subgoal for src change path r
        by (drule change_committed, intro exI [of _ src] exI [of _ change] exI [of _ path] exI [of _ r])
          (simp only: simp_thms)
      done
    then obtain src change path diff ev where e: "source = Some src" "?moved src change = Inr path"
        "?diff src change path = Inr (diff, ev)"
        "length diff \<le> MAX_SINGLE_DIFF_BYTES" "total_bytes s + length diff \<le> MAX_DIFF_BYTES"
        "s' = add_entry (counted path change diff) ev (total_bytes s + length diff) s"
      by auto
    have src: "src = path \<or> (adapter = CodexCli \<and> change = ''update'' \<and>
        (\<exists>move. reported_move_path raw = Some move \<and> ?display move = Some path))"
      using e(2) by (auto simp: result_simps split: if_splits option.splits)
    have stored: "command_diff_entry_from_evidence ev = Some (counted path change diff)"
      using e(3) src
      by (auto simp: result_simps split: if_splits intro: native_diff_stored complete_diff_stored)
    have "source \<in> {if adapter = KiroCli then operation else None, ?display p}"
      by (auto simp: source_def reconcile_kiro_rooted_diff_path_def split: option.splits if_splits)
    with e(1) src p have "Some path \<in> {if adapter = KiroCli then operation else None, Option.bind (get_str raw ''path'') ?display,
        Option.bind (reported_move_path raw) ?display}" by auto
    then show thesis by (intro entry [OF False addedI [OF e(6,5) stored]]) (use e(4) in simp_all)
  qed
qed

section \<open>An admitted diff\<close>

lemma fold_result_established:
  assumes "fold_result f xs s = Inr t" and "xs \<noteq> []" and "\<And>x s s'. f x s = Inr s' \<Longrightarrow> I s'"
  shows "I t"
proof -
  from assms(1,2) obtain x ys s' where "xs = x # ys" "f x s = Inr s'" "fold_result f ys s' = Inr t"
    by (cases xs) (auto simp: result_simps)
  then show ?thesis using fold_result_invariant [of f ys s' t I] assms(3) by blast
qed

text \<open>What holds of the entries collected so far, when an entry that costs n bytes weighs at most a * n + b.\<close>

definition kept :: "nat \<Rightarrow> nat \<Rightarrow> Admission \<Rightarrow> bool" where
  "kept a b s \<longleftrightarrow> total_bytes s \<le> MAX_DIFF_BYTES
     \<and> list_all (\<lambda>e. length (entry_diff e) \<le> MAX_SINGLE_DIFF_BYTES) (projected s)
     \<and> sum_list (map (\<lambda>e. length (entry_diff e)) (projected s)) \<le> a * total_bytes s + b * length (projected s)
     \<and> collect command_diff_entry_from_evidence (evidence s) = Some (projected s)"

lemma kept_no_admission: "kept a b no_admission"
  by (simp add: kept_def no_admission_def)

lemma kept_excluded: "kept a b (s\<lparr>excluded_managed_output := x\<rparr>) = kept a b s"
  by (simp add: kept_def)

lemma kept_added:
  assumes "added weight s e s'" and "\<And>n. weight n \<le> a * n + b" and "kept a b s"
  shows "kept a b s'"
proof -
  from assms(1) obtain n v where s': "s' = add_entry e v (total_bytes s + n) s"
      and n: "total_bytes s + n \<le> MAX_DIFF_BYTES" "length (entry_diff e) \<le> MAX_SINGLE_DIFF_BYTES"
        "length (entry_diff e) \<le> weight n"
      and v: "command_diff_entry_from_evidence v = Some e"
    by (auto simp: added_def)
  have "length (entry_diff e) \<le> a * n + b" using n(3) assms(2) [of n] by simp
  moreover have "collect command_diff_entry_from_evidence (evidence s @ [v]) = Some (projected s @ [e])"
    using assms(3) v by (intro collect_append) (simp_all add: kept_def)
  ultimately show ?thesis using assms(3) n(1,2) by (simp add: kept_def s' add_entry_def algebra_simps)
qed

lemma added_projected: "added weight s e s' \<Longrightarrow> projected s' = projected s @ [e]"
  by (auto simp: added_def add_entry_def)

text \<open>The three ways a candidate is admitted.\<close>

lemma admit_candidateE:
  assumes "admit_candidate url candidate root frozen operation managed = Inr a"
  obtains (entries) adapter name kind raws f s where
    "frozen = Some name" "get_str candidate ''adapterKind'' = Some name" "adapter_from_str name = Some adapter"
    "get_str candidate ''semanticKind'' = Some kind" "Option.bind (get candidate ''entries'') as_array = Some raws"
    "raws \<noteq> []" "length raws \<le> MAX_DIFF_FILES" "fold_result f raws no_admission = Inr s"
    "f = (if kind = ''exact_mutation'' then admit_exact_mutation url root managed
       else if kind = ''reported_mutation'' then admit_reported_mutation url root managed
       else admit_change url adapter kind root operation managed (length raws = 1))"
    "if kind = ''reported_mutation'' then projected s \<noteq> [] else projected s = [] \<longrightarrow> \<not> excluded_managed_output s"
    "admitted_entries a = projected s" "evidence_entries a = Array (evidence s)"
    "admitted_kind a = (if native_patch kind then ''unified_diff_snapshot'' else kind)"
proof -
  from assms obtain name where name: "get_str candidate ''adapterKind'' = Some name" "frozen = Some name"
    unfolding admit_candidate_def by (auto simp: and_then_Inr ok_or_Inr split: if_split_asm)
  from assms name obtain family event kind adapter raws where c:
      "get_str candidate ''semanticKind'' = Some kind" "adapter_from_str name = Some adapter"
      "Option.bind (get candidate ''entries'') as_array = Some raws" "raws \<noteq> []" "length raws \<le> MAX_DIFF_FILES"
      "(if kind = ''exact_mutation'' then admit_exact_mutations url raws root managed
        else if kind = ''reported_mutation'' then admit_reported_mutations url raws root managed
        else and_then (fold_result (admit_change url adapter kind root operation managed (length raws = 1)) raws no_admission) (\<lambda>s.
           if projected s = [] \<and> excluded_managed_output s then Inl RUNTIME_DIFF_MANAGED_OUTPUT_ROOT
           else Inr \<lparr>admitted_kind = (if native_patch kind then ''unified_diff_snapshot'' else kind),
              admitted_entries = projected s, evidence_entries = Array (evidence s)\<rparr>)) = Inr a"
    unfolding admit_candidate_def by (simp only: and_then_Inr ok_or_Inr if_Inr not_not de_Morgan_disj not_less) blast
  have kinds: "\<not> native_patch ''exact_mutation''" "\<not> native_patch ''reported_mutation''" by (simp_all add: native_patch_def)
  define f where "f = (if kind = ''exact_mutation'' then admit_exact_mutation url root managed
     else if kind = ''reported_mutation'' then admit_reported_mutation url root managed
     else admit_change url adapter kind root operation managed (length raws = 1))"
  have "\<exists>s. fold_result f raws no_admission = Inr s
    \<and> (if kind = ''reported_mutation'' then projected s \<noteq> [] else projected s = [] \<longrightarrow> \<not> excluded_managed_output s)
    \<and> admitted_entries a = projected s \<and> evidence_entries a = Array (evidence s)
    \<and> admitted_kind a = (if native_patch kind then ''unified_diff_snapshot'' else kind)"
  proof (cases "kind = ''exact_mutation'' \<or> kind = ''reported_mutation''")
    case True
    with c(6) kinds show ?thesis
      by (elim disjE) (simp_all add: f_def admit_exact_mutations_def admit_reported_mutations_def and_then_Inr if_Inr, auto)
  next
    case False
    with c(6) show ?thesis by (simp add: f_def and_then_Inr if_Inr) auto
  qed
  then show thesis using entries [OF name(2,1) c(2,1,3-5)] f_def by blast
qed

lemma candidate_kept:
  assumes "admit_candidate url candidate root frozen operation managed = Inr a"
  obtains adapter kind raws f s where
    "get_str candidate ''semanticKind'' = Some kind" "Option.bind (get candidate ''entries'') as_array = Some raws"
    "raws \<noteq> []" "length raws \<le> MAX_DIFF_FILES" "fold_result f raws no_admission = Inr s"
    "f = (if kind = ''exact_mutation'' then admit_exact_mutation url root managed
       else if kind = ''reported_mutation'' then admit_reported_mutation url root managed
       else admit_change url adapter kind root operation managed (length raws = 1))"
    "admitted_entries a = projected s" "evidence_entries a = Array (evidence s)" "projected s \<noteq> []"
    "kept (if kind = ''exact_mutation'' then 2 else 1) (if kind = ''exact_mutation'' then 2 else 0) s"
  using assms
proof (cases rule: admit_candidateE)
  case (entries adapter name kind raws f s)
  have step: "kept (if kind = ''exact_mutation'' then 2 else 1) (if kind = ''exact_mutation'' then 2 else 0) y"
    if "kept (if kind = ''exact_mutation'' then 2 else 1) (if kind = ''exact_mutation'' then 2 else 0) x" "f raw x = Inr y" for raw x y
    using that entries(9)
    by (auto simp: kept_excluded split: if_splits
        elim!: admit_exact_mutation_added admit_reported_mutation_added admit_change_added intro: kept_added)
  have "projected s \<noteq> [] \<or> excluded_managed_output s" if "kind \<noteq> ''reported_mutation''"
    using entries(8,6)
  proof (rule fold_result_established)
    fix raw x y assume "f raw x = Inr y"
    then show "projected y \<noteq> [] \<or> excluded_managed_output y"
      using entries(9) that
      by (auto split: if_splits dest: added_projected elim!: admit_exact_mutation_added admit_change_added)
  qed
  then have "projected s \<noteq> []" using entries(10) by (auto split: if_splits)
  moreover have "kept (if kind = ''exact_mutation'' then 2 else 1) (if kind = ''exact_mutation'' then 2 else 0) s"
    using entries(8) kept_no_admission by (rule fold_result_invariant) (rule step)
  ultimately show thesis by (intro that [OF entries(4-9,11,12)])
qed

text \<open>
  C16: an admitted diff is bounded. It has between one and 256 entries, each with at most 2 MiB of
  diff, and at most 8 MiB in all; for exact mutations, where the limit counts the texts and not the
  diff made of them, at most twice that and two bytes per entry.
\<close>

theorem admission_limits:
  assumes "admit_candidate url candidate root frozen operation managed = Inr a"
  shows "admitted_entries a \<noteq> [] \<and> length (admitted_entries a) \<le> 256
    \<and> list_all (\<lambda>e. length (entry_diff e) \<le> 2 * 1024 * 1024) (admitted_entries a)
    \<and> sum_list (map (\<lambda>e. length (entry_diff e)) (admitted_entries a)) \<le>
        (if get_str candidate ''semanticKind'' = Some ''exact_mutation'' then 2 * (8 * 1024 * 1024) + 2 * 256 else 8 * 1024 * 1024)"
  using assms
proof (rule candidate_kept)
  fix adapter kind raws f s
  assume c: "get_str candidate ''semanticKind'' = Some kind" "raws \<noteq> []" "length raws \<le> MAX_DIFF_FILES"
      "fold_result f raws no_admission = Inr s"
      "f = (if kind = ''exact_mutation'' then admit_exact_mutation url root managed
       else if kind = ''reported_mutation'' then admit_reported_mutation url root managed
       else admit_change url adapter kind root operation managed (length raws = 1))"
      "admitted_entries a = projected s" "projected s \<noteq> []"
      "kept (if kind = ''exact_mutation'' then 2 else 1) (if kind = ''exact_mutation'' then 2 else 0) s"
  have "length (projected t) \<le> length (projected u) + length xs" if "fold_result f xs u = Inr t" for xs u t
    using that
  proof (induction xs arbitrary: u)
    case (Cons x xs)
    then obtain v where v: "f x u = Inr v" "fold_result f xs v = Inr t" by (auto simp: result_simps)
    from v(1) have "length (projected v) \<le> length (projected u) + 1"
      using c(5) by (auto split: if_splits dest: added_projected
          elim!: admit_exact_mutation_added admit_reported_mutation_added admit_change_added)
    with Cons.IH [OF v(2)] show ?case by simp
  qed simp
  from this [OF c(4)] c(3) have n: "length (projected s) \<le> 256"
    by (simp add: no_admission_def MAX_DIFF_FILES_def)
  have "sum_list (map (\<lambda>e. length (entry_diff e)) (projected s)) \<le>
      (if kind = ''exact_mutation'' then 2 * total_bytes s + 2 * length (projected s) else total_bytes s)"
    using c(8) by (simp add: kept_def split: if_splits)
  moreover have "total_bytes s \<le> 8 * 1024 * 1024" using c(8) by (simp add: kept_def MAX_DIFF_BYTES_def)
  ultimately have "sum_list (map (\<lambda>e. length (entry_diff e)) (projected s)) \<le>
      (if kind = ''exact_mutation'' then 2 * (8 * 1024 * 1024) + 2 * 256 else 8 * 1024 * 1024)"
    using n by (simp split: if_splits)
  moreover have "list_all (\<lambda>e. length (entry_diff e) \<le> 2 * 1024 * 1024) (projected s)"
    using c(8) by (simp add: kept_def MAX_SINGLE_DIFF_BYTES_def)
  ultimately show ?thesis using n c(1,6,7) by simp
qed

definition sample_candidate :: Value where
  "sample_candidate = Object [(''adapterKind'', JString ''claude-code-cli''), (''protocolFamily'', JString ''claude-stream-json''),
     (''sourceEventKind'', JString ''assistant.tool_use.Edit+user.tool_result.completed''),
     (''semanticKind'', JString ''exact_mutation''),
     (''entries'', Array [Object [(''semantics'', JString ''exact_mutation''), (''path'', JString ''a''),
        (''oldText'', JString ''x''), (''newText'', JString ''y'')],
       Object [(''semantics'', JString ''exact_mutation''), (''path'', JString ''/m/out''),
        (''oldText'', JString ''x''), (''newText'', JString ''y'')]])]"

definition sample_admitted :: AdmittedCommandDiff where
  "sample_admitted =
     \<lparr>admitted_kind = ''exact_mutation'',
      admitted_entries = [\<lparr>entry_path = ''a'', entry_change_kind = ''update'', entry_additions = 1, entry_deletions = 1,
        entry_diff = ''-x'' @ [NL] @ ''+y'' @ [NL]\<rparr>],
      evidence_entries = Array [exact_mutation_value ''a'' ''x'' ''y'']\<rparr>"

lemma sample_admission:
  "admit_candidate (\<lambda>_. None) sample_candidate ''/r'' (Some ''claude-code-cli'') None (Some ''/m'') = Inr sample_admitted"
proof -
  have "normalize_reported_path_for_display (\<lambda>_. None) ''/r'' ''a'' = Some ''a''"
      "\<not> reported_path_is_within_root (\<lambda>_. None) ''/r'' ''a'' ''/m''"
      "reported_path_is_within_root (\<lambda>_. None) ''/r'' ''/m/out'' ''/m''"
      "exact_mutation_fragment ''x'' ''y'' = ''-x'' @ [NL] @ ''+y'' @ [NL]"
      "adapter_from_str ''claude-code-cli'' = Some ClaudeCodeCli" "\<not> uses_acp ClaudeCodeCli"
    by code_simp+
  moreover have "fragment_line_count ''x'' = 1" "fragment_line_count ''y'' = 1"
    by (simp_all add: fragment_line_count_def u64_count_def)
  ultimately show ?thesis
    by (simp add: admit_candidate_def sample_candidate_def sample_admitted_def get_str_def and_then_def ok_or_def
        admitted_source_def MAX_DIFF_FILES_def admit_exact_mutations_def admit_exact_mutation_def is_managed_def
        no_admission_def replace_all_rejected_def checked_add_def charge_def MAX_DIFF_BYTES_def MAX_SINGLE_DIFF_BYTES_def
        add_entry_def)
qed

theorem admission_limits_witness:
  "length (admitted_entries sample_admitted) \<le> 256"
  using admission_limits [OF sample_admission] by simp

definition raw_managed :: "(string \<Rightarrow> string option) \<Rightarrow> string \<Rightarrow> string option \<Rightarrow> string \<Rightarrow> Value \<Rightarrow> bool" where
  "raw_managed url root managed kind raw =
     (if kind = ''exact_mutation'' \<or> kind = ''reported_mutation''
      then (case reported_path kind raw of None \<Rightarrow> False | Some p \<Rightarrow> is_managed url root managed p)
      else is_managed_change url root managed raw)"

definition names_file ::
    "(string \<Rightarrow> string option) \<Rightarrow> string \<Rightarrow> string option \<Rightarrow> string \<Rightarrow> Value \<Rightarrow> NormalizedDiffEntry \<Rightarrow> bool" where
  "names_file url root operation kind raw e \<longleftrightarrow>
     Some (entry_path e) \<in> {operation, Option.bind (reported_path kind raw) (normalize_reported_path_for_display url root),
       Option.bind (reported_move_path raw) (normalize_reported_path_for_display url root)}"

text \<open>
  C17: an admitted diff names the reported files. Its entries are, one for one and in order, the
  reported ones outside the managed output root, each under the display path of the path it
  reported, of the path it was moved to, or, for Kiro alone, of the file operation it belongs to;
  and no two reported mutations name one file.
\<close>

theorem admitted_files:
  assumes a: "admit_candidate url candidate root frozen operation managed = Inr a"
    and kind: "get_str candidate ''semanticKind'' = Some kind"
    and raws: "Option.bind (get candidate ''entries'') as_array = Some raws"
  shows "list_all2
      (names_file url root (if Option.bind frozen adapter_from_str = Some KiroCli then operation else None) kind)
      (filter (\<lambda>raw. \<not> raw_managed url root managed kind raw) raws) (admitted_entries a)
    \<and> (kind = ''reported_mutation'' \<longrightarrow> distinct (map entry_path (admitted_entries a)))"
  using a
proof (cases rule: admit_candidateE)
  case (entries adapter name kind' raws' f s)
  with kind raws have eq: "kind' = kind" "raws' = raws" by simp_all
  note f = entries(9) [unfolded eq] and run = entries(8) [unfolded eq]
  define op where "op = (if Option.bind frozen adapter_from_str = Some KiroCli then operation else None)"
  have op: "op = (if adapter = KiroCli then operation else None)" using entries(1,3) by (simp add: op_def)
  have step: "if raw_managed url root managed kind raw then projected y = projected x
      else \<exists>e. projected y = projected x @ [e] \<and> names_file url root op kind raw e"
    if "f raw x = Inr y" for raw x y
  proof -
    consider (exact) "kind = ''exact_mutation''" | (reported) "kind = ''reported_mutation''"
      | (change) "kind \<noteq> ''exact_mutation''" "kind \<noteq> ''reported_mutation''" by blast
    then show ?thesis
    proof cases
      case exact
      with that f show ?thesis
        by (auto simp: raw_managed_def names_file_def reported_path_def dest: added_projected elim!: admit_exact_mutation_added)
    next
      case reported
      with that f show ?thesis
        by (auto simp: raw_managed_def names_file_def dest: added_projected elim!: admit_reported_mutation_added)
    next
      case change
      with that f have "admit_change url adapter kind root operation managed (length raws = 1) raw x = Inr y" by simp
      then show ?thesis
        using change
        by (cases rule: admit_change_added) (auto simp: raw_managed_def names_file_def reported_path_def op dest: added_projected)
    qed
  qed
  have "list_all2 (names_file url root op kind) (filter (\<lambda>raw. \<not> raw_managed url root managed kind raw) raws) (projected s)"
    using fold_result_tracks [where f = f and out = projected and q = "raw_managed url root managed kind"
        and Q = "names_file url root op kind", OF run step]
    by (auto simp: no_admission_def)
  moreover have "distinct (map entry_path (projected s))" if "kind = ''reported_mutation''"
    using run
  proof (rule fold_result_invariant)
    show "distinct (map entry_path (projected no_admission))" by (simp add: no_admission_def)
    fix raw x y assume "distinct (map entry_path (projected x))" "f raw x = Inr y"
    then show "distinct (map entry_path (projected y))"
      using f that by (auto dest: added_projected elim!: admit_reported_mutation_added)
  qed
  ultimately show ?thesis using entries(11) by (simp add: op_def)
qed

theorem admitted_files_witness:
  "list_all2 (names_file (\<lambda>_. None) ''/r'' None ''exact_mutation'')
     (filter (\<lambda>raw. \<not> raw_managed (\<lambda>_. None) ''/r'' (Some ''/m'') ''exact_mutation'' raw)
       (the (Option.bind (get sample_candidate ''entries'') as_array)))
     (admitted_entries sample_admitted)"
proof -
  have "adapter_from_str ''claude-code-cli'' = Some ClaudeCodeCli" by code_simp
  with admitted_files [OF sample_admission, of "''exact_mutation''" "the (Option.bind (get sample_candidate ''entries'') as_array)"]
  show ?thesis by (simp add: sample_candidate_def get_str_def)
qed

lemma evidence_collects:
  assumes "admit_candidate url candidate root frozen operation managed = Inr a"
  obtains vs where "evidence_entries a = Array vs" "collect command_diff_entry_from_evidence vs = Some (admitted_entries a)"
  using assms by (rule candidate_kept) (auto simp: kept_def split: if_splits)

section \<open>Merging\<close>

definition conclusion :: "CommandDiffProjection \<Rightarrow> string \<times> string option \<times> NormalizedDiffEntry list option \<times> string option" where
  "conclusion p = (projection_status p, projection_kind p, projection_entries p, safe_reason_code p)"

definition conflict :: "string \<times> string option \<times> NormalizedDiffEntry list option \<times> string option" where
  "conflict = (''conflict'', None, None, Some ''runtime_diff_conflicting_terminal_snapshots'')"

definition merge_all :: "CommandDiffProjection \<Rightarrow> CommandDiffProjection list \<Rightarrow> CommandDiffProjection" where
  "merge_all p ps = fold (\<lambda>q c. merge_projection (Some c) q) ps p"

lemma add_evidence_ids:
  "set (add_evidence_ids new ids) = set ids \<union> set new" "distinct ids \<Longrightarrow> distinct (add_evidence_ids new ids)"
  "prefix ids (add_evidence_ids new ids)"
proof -
  show "set (add_evidence_ids new ids) = set ids \<union> set new"
    unfolding add_evidence_ids_def by (induction new arbitrary: ids) auto
  show "distinct ids \<Longrightarrow> distinct (add_evidence_ids new ids)"
    unfolding add_evidence_ids_def by (induction new arbitrary: ids) auto
  show "prefix ids (add_evidence_ids new ids)"
    unfolding add_evidence_ids_def
    by (induction new arbitrary: ids) (auto intro: prefix_order.trans [OF prefixI [OF refl]])
qed

lemma merge_one:
  "conclusion (merge_projection (Some c) q) = (if conclusion q = conclusion c then conclusion c else conflict)"
  "source_evidence_ids (merge_projection (Some c) q) = add_evidence_ids (source_evidence_ids q) (source_evidence_ids c)"
  "revision (merge_projection (Some c) q) =
     (if conclusion q = conclusion c then revision c else min (2 ^ 63 - 1) (revision c + 1))"
  by (auto simp: merge_projection_def conclusion_def conflict_def Let_def)

text \<open>
  However many projections of one operation are merged, the result keeps the first conclusion
  if they all agree with it and is a conflict otherwise, for good; its lineage starts with the first
  one's and holds the evidence of all, each once; and its revision is a later one exactly if they
  disagreed.
\<close>

theorem merge_history:
  assumes "distinct (source_evidence_ids p)" and "revision p < 2 ^ 63 - 1"
  shows "conclusion (merge_all p ps) = (if list_all (\<lambda>q. conclusion q = conclusion p) ps then conclusion p else conflict)
    \<and> prefix (source_evidence_ids p) (source_evidence_ids (merge_all p ps))
    \<and> distinct (source_evidence_ids (merge_all p ps))
    \<and> set (source_evidence_ids (merge_all p ps)) = \<Union> (set (map (\<lambda>q. set (source_evidence_ids q)) (p # ps)))
    \<and> (revision (merge_all p ps) > revision p \<longleftrightarrow> \<not> list_all (\<lambda>q. conclusion q = conclusion p) ps)
    \<and> revision (merge_all p ps) \<ge> revision p"
  using assms
proof (induction ps rule: rev_induct)
  case (snoc q ps)
  let ?c = "merge_all p ps"
  have step: "merge_all p (ps @ [q]) = merge_projection (Some ?c) q" by (simp add: merge_all_def)
  show ?case
    using snoc add_evidence_ids [where new = "source_evidence_ids q" and ids = "source_evidence_ids ?c"]
    unfolding step merge_one
    by (auto intro: prefix_order.trans split: if_splits)
qed (simp add: merge_all_def)

definition sample_projection :: CommandDiffProjection where
  "sample_projection = projection_from_admitted sample_admitted ''e1''"

theorem merge_history_witness:
  "conclusion (merge_all sample_projection [unavailable_projection ''r'' ''e2'']) = conflict"
  using merge_history [of sample_projection "[unavailable_projection ''r'' ''e2'']"]
  by (simp add: sample_projection_def projection_from_admitted_def unavailable_projection_def conclusion_def)

end
