(* ===== verification/Ingest_Safety.thy ===== *)
theory Ingest_Safety
  imports File_Operation Diff_Safety
begin

text \<open>
  What is read back from a stored payload is what was admitted of the candidate a runtime sent.
\<close>

section \<open>Fields\<close>

lemma as_str_optional_value: "as_str (optional_value s) = s"
  by (cases s) (simp_all add: optional_value_def)

section \<open>Diffs\<close>

lemma projection_of_unavailable:
  "get payload ''runtimeDiff'' = Some (unavailable_value COMMAND_DIFF_SCHEMA_VERSION reason metadata) \<Longrightarrow>
   projection_from_evidence payload eid = Some (unavailable_projection reason eid)"
  by (simp add: projection_from_evidence_def unavailable_value_def get_str_def)

lemma projection_of_available:
  assumes "get payload ''runtimeDiff'' = Some (available_diff_value admitted metadata)"
    and "admit_candidate url candidate root frozen operation managed = Inr admitted"
  shows "projection_from_evidence payload eid = Some (projection_from_admitted admitted eid)"
proof -
  obtain vs where "evidence_entries admitted = Array vs" "collect command_diff_entry_from_evidence vs = Some (admitted_entries admitted)"
    by (rule evidence_collects [OF assms(2)])
  with assms(1) show ?thesis
    by (simp add: projection_from_evidence_def available_diff_value_def get_str_def projection_from_admitted_def)
qed

lemma diff_admission_candidate:
  assumes "diff_admission url payload candidate frozen managed root = Inr a" and "get payload ''runtimeDiff'' = Some candidate"
  shows "admit_candidate url candidate root frozen (path_from_evidence payload) managed = Inr a"
  using assms
  by (auto simp: diff_admission_def admit_runtime_diff_with_file_operation_path_and_managed_output_root_def split: if_splits)

text \<open>
  C18: the stored evidence holds the whole diff. Whatever candidate a runtime sends, the projection
  read back from the normalized payload is exactly the projection of what was admitted, or the
  unavailable one with the reason it was refused for.
\<close>

theorem diff_ingest_roundtrip:
  assumes "get payload ''runtimeDiff'' = Some candidate" and "candidate \<noteq> Null"
  shows "projection_from_evidence (normalize_runtime_diff_evidence url from_str workspace frozen version managed payload) eid =
    Some (case map_option (diff_admission url payload candidate frozen managed) (execution_root_of from_str workspace) of
        Some (Inr admitted) \<Rightarrow> projection_from_admitted admitted eid
      | Some (Inl reason) \<Rightarrow> unavailable_projection reason eid
      | None \<Rightarrow> unavailable_projection ''runtime_diff_execution_root_unavailable'' eid)"
proof -
  let ?p = "normalize_runtime_diff_evidence url from_str workspace frozen version managed payload"
  let ?r = "map_option (diff_admission url payload candidate frozen managed) (execution_root_of from_str workspace)"
  have "?p = set_field ''runtimeDiff''
      (case ?r of
         Some (Inr admitted) \<Rightarrow> available_diff_value admitted (source_metadata candidate version)
       | Some (Inl reason) \<Rightarrow> unavailable_value COMMAND_DIFF_SCHEMA_VERSION reason (source_metadata candidate version)
       | None \<Rightarrow> unavailable_value COMMAND_DIFF_SCHEMA_VERSION ''runtime_diff_execution_root_unavailable''
           (source_metadata candidate version)) payload"
    using assms by (cases candidate) (auto simp: normalize_runtime_diff_evidence_def)
  then have stored: "get ?p ''runtimeDiff'' = Some
      (case ?r of
         Some (Inr admitted) \<Rightarrow> available_diff_value admitted (source_metadata candidate version)
       | Some (Inl reason) \<Rightarrow> unavailable_value COMMAND_DIFF_SCHEMA_VERSION reason (source_metadata candidate version)
       | None \<Rightarrow> unavailable_value COMMAND_DIFF_SCHEMA_VERSION ''runtime_diff_execution_root_unavailable''
           (source_metadata candidate version))"
    by (simp add: get_set_field [OF assms(1)])
  show ?thesis
  proof (cases "execution_root_of from_str workspace")
    case None
    with stored show ?thesis by (simp add: projection_of_unavailable)
  next
    case (Some root)
    show ?thesis
    proof (cases "diff_admission url payload candidate frozen managed root")
      case (Inl reason)
      with Some stored show ?thesis by (simp add: projection_of_unavailable)
    next
      case (Inr admitted)
      with Some stored projection_of_available [OF _ diff_admission_candidate [OF Inr assms(1)]] show ?thesis by simp
    qed
  qed
qed

definition sample_payload :: Value where
  "sample_payload = Object [(''runtimeDiff'', sample_candidate)]"

definition sample_workspace :: "string \<Rightarrow> Value option" where
  "sample_workspace s = (if s = ''w'' then Some (Object [(''executionRoot'', JString ''/r'')]) else None)"

theorem diff_ingest_roundtrip_witness:
  "projection_from_evidence (normalize_runtime_diff_evidence (\<lambda>_. None) sample_workspace (Some ''w'') (Some ''claude-code-cli'')
      None (Some ''/m'') sample_payload) ''e1'' = Some (projection_from_admitted sample_admitted ''e1'')"
proof -
  have "execution_root_of sample_workspace (Some ''w'') = Some ''/r''"
    by (simp add: execution_root_of_def sample_workspace_def get_str_def)
  moreover have "diff_admission (\<lambda>_. None) sample_payload sample_candidate (Some ''claude-code-cli'') (Some ''/m'') ''/r'' =
      Inr sample_admitted"
    using sample_admission
    by (simp add: diff_admission_def pointer_def sample_payload_def path_from_evidence_def operation_from_evidence_def
        admit_runtime_diff_with_file_operation_path_and_managed_output_root_def)
  ultimately show ?thesis
    using diff_ingest_roundtrip [of sample_payload sample_candidate "\<lambda>_. None" sample_workspace "Some ''w''"
      "Some ''claude-code-cli''" None "Some ''/m''" "''e1''"]
    by (simp add: sample_payload_def sample_candidate_def)
qed

section \<open>File operations\<close>

lemma operation_of_unavailable:
  "get payload ''runtimeFileOperation'' = Some (unavailable_value version reason metadata) \<Longrightarrow>
   operation_from_evidence payload = None"
  by (simp add: operation_from_evidence_def unavailable_value_def get_str_def)

lemma change_kinds:
  assumes "file_change_kind operation candidate = Inr c"
  shows "c \<in> {None, Some ''add'', Some ''update''}"
proof (cases "get candidate ''changeKind''")
  case (Some v)
  with assms show ?thesis
    by (cases v) (simp_all only: file_change_kind_def option.case Value.case if_Inr split: if_split_asm, auto)
qed (use assms in \<open>simp add: file_change_kind_def\<close>)

lemma operation_of_available:
  assumes "get payload ''runtimeFileOperation'' = Some (available_operation_value a metadata)"
    and "admit_file_candidate url candidate root frozen managed = Inr a"
  shows "operation_from_evidence payload = Some a"
proof -
  from assms(2) have kind: "operation_kind a = ''read'' \<or> operation_kind a = ''write''"
    and change: "\<exists>operation. file_change_kind operation candidate = Inr (operation_change_kind a)"
    by (auto simp: admit_file_candidate_def result_simps)
  from change have change: "operation_change_kind a \<in> {None, Some ''add'', Some ''update''}" by (auto dest: change_kinds)
  obtain k path c where a: "a = \<lparr>operation_kind = k, operation_path = path, operation_change_kind = c\<rparr>" by (cases a)
  have "k = ''read'' \<or> k = ''write''" "c = None \<or> c = Some ''add'' \<or> c = Some ''update''" using kind change by (simp_all add: a)
  then show ?thesis
    by (elim disjE) (simp_all add: operation_from_evidence_def assms(1) available_operation_value_def get_str_def a)
qed

text \<open>
  The same holds of a file operation: it is read back from the normalized payload exactly if it
  was admitted and as it was admitted, and then it lies outside the managed output root.
\<close>

theorem file_operation_roundtrip:
  assumes "get payload ''runtimeFileOperation'' = Some candidate" and "candidate \<noteq> Null"
  shows "operation_from_evidence
      (normalize_runtime_file_operation_evidence url from_str workspace frozen version managed payload) =
    (case execution_root_of from_str workspace of
       None \<Rightarrow> None
     | Some root \<Rightarrow>
         (case admit_file_candidate url candidate root frozen managed of Inl reason \<Rightarrow> None | Inr admitted \<Rightarrow> Some admitted))
    \<and> (case (execution_root_of from_str workspace, operation_from_evidence
            (normalize_runtime_file_operation_evidence url from_str workspace frozen version managed payload), get_str candidate ''path'') of
         (Some root, Some operation, Some path) \<Rightarrow>
           \<not> is_managed url root managed path
           \<and> normalize_reported_path_for_display url root path = Some (operation_path operation)
       | (None, Some _, _) \<Rightarrow> False | (_, Some _, None) \<Rightarrow> False | (_, None, _) \<Rightarrow> True)"
proof -
  let ?p = "normalize_runtime_file_operation_evidence url from_str workspace frozen version managed payload"
  have stored: "get ?p ''runtimeFileOperation'' = Some
      (case execution_root_of from_str workspace of
         None \<Rightarrow> unavailable_value FILE_OPERATION_SCHEMA_VERSION ''runtime_file_operation_execution_root_missing''
           (source_metadata candidate version)
       | Some root \<Rightarrow>
           (case admit_file_candidate url candidate root frozen managed of
              Inr admitted \<Rightarrow> available_operation_value admitted (source_metadata candidate version)
            | Inl reason \<Rightarrow> unavailable_value FILE_OPERATION_SCHEMA_VERSION reason (source_metadata candidate version)))"
    using assms
    by (cases candidate)
      (simp_all add: normalize_runtime_file_operation_evidence_def admit_runtime_file_operation_with_managed_output_root_def
        get_set_field split: option.split sum.split)
  have read: "operation_from_evidence ?p =
    (case execution_root_of from_str workspace of
       None \<Rightarrow> None
     | Some root \<Rightarrow>
         (case admit_file_candidate url candidate root frozen managed of Inl reason \<Rightarrow> None | Inr admitted \<Rightarrow> Some admitted))"
    using stored
    by (auto simp: operation_of_unavailable split: option.split sum.split intro: operation_of_available)
  have path: "\<exists>path. get_str candidate ''path'' = Some path \<and> \<not> is_managed url root managed path
      \<and> normalize_reported_path_for_display url root path = Some (operation_path a)"
    if "admit_file_candidate url candidate root frozen managed = Inr a" for root a
    using that by (auto simp: admit_file_candidate_def result_simps)
  show ?thesis
  proof (cases "execution_root_of from_str workspace")
    case None
    with read show ?thesis by simp
  next
    case (Some root)
    with read show ?thesis
      by (cases "admit_file_candidate url candidate root frozen managed") (auto dest!: path)
  qed
qed

theorem file_operation_roundtrip_witness:
  "operation_from_evidence (normalize_runtime_file_operation_evidence (\<lambda>_. None) sample_workspace (Some ''w'') (Some ''pi'') None
      (Some ''/m'') (Object [(''runtimeFileOperation'', Object [(''adapterKind'', JString ''pi''), (''operationKind'', JString ''read''),
        (''protocolFamily'', JString ''pi-jsonl-rpc-v1''), (''sourceEventKind'', JString ''tool_execution_end.completed''),
        (''path'', JString ''a'')])])) = Some \<lparr>operation_kind = ''read'', operation_path = ''a'', operation_change_kind = None\<rparr>"
proof -
  let ?c = "Object [(''adapterKind'', JString ''pi''), (''operationKind'', JString ''read''),
        (''protocolFamily'', JString ''pi-jsonl-rpc-v1''), (''sourceEventKind'', JString ''tool_execution_end.completed''),
        (''path'', JString ''a'')]"
  have root: "execution_root_of sample_workspace (Some ''w'') = Some ''/r''"
    by (simp add: execution_root_of_def sample_workspace_def get_str_def)
  have admitted: "admit_file_candidate (\<lambda>_. None) ?c ''/r'' (Some ''pi'') (Some ''/m'') =
      Inr \<lparr>operation_kind = ''read'', operation_path = ''a'', operation_change_kind = None\<rparr>"
    by code_simp
  show ?thesis
    using file_operation_roundtrip [of "Object [(''runtimeFileOperation'', ?c)]" ?c "\<lambda>_. None" sample_workspace "Some ''w''"
        "Some ''pi''" None "Some ''/m''"] root admitted
    by simp
qed

end
