(* ===== verification/Search_Operation.thy ===== *)
theory Search_Operation
  imports Ingest_Safety
begin

text \<open>
  The web searches a runtime reports, from
  \<^verbatim>\<open>crates/rovai-core/src/runtime_search_operation.rs\<close>: the candidates the hosts build
  from the events of Codex, Claude Code and the ACP runtimes, what the core admits of a candidate, and
  the normalization of a public payload from \<^verbatim>\<open>crates/rovai-core/src/execution_evidence.rs\<close>.
\<close>

section \<open>Queries\<close>

definition SEARCH_OPERATION_SCHEMA_VERSION :: nat where "SEARCH_OPERATION_SCHEMA_VERSION = 1"
definition SEARCH_OPERATION_CANDIDATE_FIELD :: string where
  "SEARCH_OPERATION_CANDIDATE_FIELD = ''runtimeSearchOperationCandidate''"

definition CODEX_WEB_SEARCH_RULE :: string where "CODEX_WEB_SEARCH_RULE = ''codex.web_search.item.v1''"
definition CLAUDE_WEB_SEARCH_RULE :: string where "CLAUDE_WEB_SEARCH_RULE = ''claude.web_search.tool_use.v1''"
definition ACP_EXPLICIT_WEB_SEARCH_RULE :: string where "ACP_EXPLICIT_WEB_SEARCH_RULE = ''acp.explicit_web_search.v1''"
definition COPILOT_QUERY_ONLY_RULE :: string where "COPILOT_QUERY_ONLY_RULE = ''copilot.search.query_only.v1''"
definition QODER_QUERY_ONLY_RULE :: string where "QODER_QUERY_ONLY_RULE = ''qoder.search.query_only.v1''"
definition KIRO_QUERY_ONLY_RULE :: string where "KIRO_QUERY_ONLY_RULE = ''kiro.search.query_only.v1''"
definition CODEBUDDY_QUERY_ONLY_RULE :: string where "CODEBUDDY_QUERY_ONLY_RULE = ''codebuddy.fetch.query_only.v1''"

lemmas search_rules = CODEX_WEB_SEARCH_RULE_def CLAUDE_WEB_SEARCH_RULE_def ACP_EXPLICIT_WEB_SEARCH_RULE_def
  COPILOT_QUERY_ONLY_RULE_def QODER_QUERY_ONLY_RULE_def KIRO_QUERY_ONLY_RULE_def CODEBUDDY_QUERY_ONLY_RULE_def

fun queries_of :: "Value \<Rightarrow> string list option" where
  "queries_of (JString q) = (if trim q = [] then None else Some [q])"
| "queries_of (Array vs) = (if vs = [] then None else collect (\<lambda>v. nonblank (as_str v)) vs)"
| "queries_of Null = None"
| "queries_of (Bool b) = None"
| "queries_of (Number n) = None"
| "queries_of (Object m) = None"

definition nonempty_queries :: "Value option \<Rightarrow> string list option" where
  "nonempty_queries q = Option.bind q queries_of"

fun query_only :: "Value \<Rightarrow> string list option" where
  "query_only (Object m) = (if length m = 1 then nonempty_queries (map_of m ''query'') else None)"
| "query_only v = None"

definition required_string :: "Value \<Rightarrow> string \<Rightarrow> string + string" where
  "required_string v k = ok_or (get_str v k) ''runtime_search_operation_candidate_invalid''"

definition candidate_queries :: "Value \<Rightarrow> string + string list" where
  "candidate_queries cand =
     and_then (required_string cand ''query'') (\<lambda>query.
       if trim query = [] then Inl ''runtime_search_operation_query_invalid''
       else
         (case get cand ''queries'' of
            None \<Rightarrow> Inr [query]
          | Some qs \<Rightarrow>
              ok_or (case queries_of qs of
                       Some qs \<Rightarrow> if 1 < length qs \<and> hd qs = query then Some qs else None | None \<Rightarrow> None)
                ''runtime_search_operation_query_invalid''))"

definition source_queries_match :: "Value option \<Rightarrow> string list \<Rightarrow> bool" where
  "source_queries_match source expected = (nonempty_queries source = Some expected)"

section \<open>Candidates\<close>

definition candidate :: "AdapterKind \<Rightarrow> string \<Rightarrow> string \<Rightarrow> string \<Rightarrow> string \<Rightarrow> string list \<Rightarrow> Value" where
  "candidate adapter protocol_family source_event_kind admission_rule native_kind queries =
     (let value = Object [(''adapterKind'', JString (Adapter.as_str adapter)), (''protocolFamily'', JString protocol_family),
          (''sourceEventKind'', JString source_event_kind), (''admissionRule'', JString admission_rule),
          (''nativeKind'', JString native_kind), (''searchKind'', JString ''web''), (''query'', JString (hd queries))]
      in if 1 < length queries then set_field ''queries'' (Array (map JString queries)) value else value)"

definition codex_web_search_candidate :: "string \<Rightarrow> Value option \<Rightarrow> Value option" where
  "codex_web_search_candidate item_method item =
     (if item_method \<notin> {''item/started'', ''item/completed''} then None
      else
        (case item of
           None \<Rightarrow> None
         | Some item \<Rightarrow>
             if get_str item ''type'' \<noteq> Some ''webSearch'' then None
             else map_option (candidate CodexCli ''codex-app-server'' item_method CODEX_WEB_SEARCH_RULE ''webSearch'')
               (nonempty_queries (get item ''query''))))"

definition claude_source :: "string \<Rightarrow> bool" where
  "claude_source source_event_kind =
     (source_event_kind \<in> {''assistant.tool_use.WebSearch'', ''assistant.tool_use.WebSearch+user.tool_result''})"

definition claude_web_search_candidate :: "string \<Rightarrow> string \<Rightarrow> Value option \<Rightarrow> Value option" where
  "claude_web_search_candidate source_event_kind tool_name query =
     (if tool_name \<noteq> ''WebSearch'' \<or> \<not> claude_source source_event_kind then None
      else map_option (candidate ClaudeCodeCli ''claude-stream-json'' source_event_kind CLAUDE_WEB_SEARCH_RULE ''WebSearch'')
        (nonempty_queries query))"

definition acp_source_event :: "string option \<Rightarrow> string \<Rightarrow> string option" where
  "acp_source_event session_update status =
     (if session_update = Some ''tool_call'' then Some ''session/update.tool_call''
      else if session_update = Some ''tool_call_update'' then
        (if status = ''completed'' then Some ''session/update.tool_call_update.completed''
         else if status = ''failed'' then Some ''session/update.tool_call_update.failed''
         else Some ''session/update.tool_call_update'')
      else None)"

definition query_only_rule :: "AdapterKind \<Rightarrow> string \<Rightarrow> string \<Rightarrow> string option" where
  "query_only_rule adapter native_kind status =
     (if adapter = CopilotCli \<and> native_kind = ''search'' then Some COPILOT_QUERY_ONLY_RULE
      else if adapter = QoderCli \<and> native_kind = ''search'' then Some QODER_QUERY_ONLY_RULE
      else if adapter = KiroCli \<and> native_kind = ''search'' then Some KIRO_QUERY_ONLY_RULE
      else if adapter = CodebuddyCli \<and> native_kind = ''fetch'' \<and> (status = ''completed'' \<or> status = ''failed'')
      then Some CODEBUDDY_QUERY_ONLY_RULE
      else None)"

definition acp_web_search_candidate ::
    "AdapterKind \<Rightarrow> string option \<Rightarrow> string \<Rightarrow> string \<Rightarrow> Value option \<Rightarrow> Value option" where
  "acp_web_search_candidate adapter session_update status native_kind raw_input =
     (case acp_source_event session_update status of
        None \<Rightarrow> None
      | Some source_event_kind \<Rightarrow>
          (let native_kind = trim native_kind in
           if native_kind = ''web_search'' then
             map_option (candidate adapter ''acp-v1'' source_event_kind ACP_EXPLICIT_WEB_SEARCH_RULE native_kind)
               (Option.bind raw_input (\<lambda>v. nonempty_queries (get v ''query'')))
           else
             (case (Option.bind raw_input query_only, query_only_rule adapter native_kind status) of
                (Some queries, Some rule) \<Rightarrow> Some (candidate adapter ''acp-v1'' source_event_kind rule native_kind queries)
              | _ \<Rightarrow> None)))"

fun insert_candidate :: "Value \<Rightarrow> Value option \<Rightarrow> Value" where
  "insert_candidate (Object m) (Some c) = set_field SEARCH_OPERATION_CANDIDATE_FIELD c (Object m)"
| "insert_candidate payload c = payload"

section \<open>Admission\<close>

record AdmittedRuntimeSearchOperation =
  search_kind :: string
  search_query :: string
  search_queries :: "string list"
  search_adapter_kind :: string
  search_protocol_family :: string
  search_source_event_kind :: string
  search_admission_rule :: string
  search_observed_version :: "string option"

definition version_token_char :: "char \<Rightarrow> bool" where
  "version_token_char c = (is_ascii_alphanumeric c \<or> c \<in> {CHR ''.'', CHR ''-'', CHR ''+'', CHR ''_''})"

definition version_contains_token :: "string \<Rightarrow> string \<Rightarrow> bool" where
  "version_contains_token observed expected =
     list_ex (\<lambda>token. token = expected \<or> strip_prefix ''v'' token = Some expected) (split_on (\<lambda>c. \<not> version_token_char c) observed)"

definition acp_source_event_is_allowlisted :: "string \<Rightarrow> bool" where
  "acp_source_event_is_allowlisted source_event_kind =
     (source_event_kind \<in> {''session/update.tool_call'', ''session/update.tool_call_update'',
        ''session/update.tool_call_update.completed'', ''session/update.tool_call_update.failed''})"

definition acp_source_event_matches_payload :: "string \<Rightarrow> Value \<Rightarrow> bool" where
  "acp_source_event_matches_payload source_event_kind payload =
     (let status = get_str payload ''status'' in
      if source_event_kind \<in> {''session/update.tool_call'', ''session/update.tool_call_update''}
      then status \<notin> {Some ''completed'', Some ''failed''}
      else if source_event_kind = ''session/update.tool_call_update.completed'' then status = Some ''completed''
      else if source_event_kind = ''session/update.tool_call_update.failed'' then status = Some ''failed''
      else False)"

definition inferred_acp_source_is_allowlisted ::
    "AdapterKind \<Rightarrow> AdapterKind \<Rightarrow> string \<Rightarrow> string \<Rightarrow> string \<Rightarrow> string \<Rightarrow> string \<Rightarrow> string option \<Rightarrow> string \<Rightarrow> bool" where
  "inferred_acp_source_is_allowlisted observed_adapter expected_adapter protocol_family event_type source_event_kind native_kind
       expected_native_kind observed_version qualified_version =
     (observed_adapter = expected_adapter \<and> protocol_family = ''acp-v1'' \<and> event_type = ''runtime.action''
      \<and> acp_source_event_is_allowlisted source_event_kind \<and> native_kind = expected_native_kind
      \<and> (case observed_version of None \<Rightarrow> False | Some v \<Rightarrow> version_contains_token v qualified_version))"

definition search_source_allowlisted ::
    "string \<Rightarrow> AdapterKind \<Rightarrow> string \<Rightarrow> string \<Rightarrow> string \<Rightarrow> string \<Rightarrow> Value \<Rightarrow> string list \<Rightarrow> string option \<Rightarrow> bool" where
  "search_source_allowlisted rule adapter protocol_family event_type source_event_kind native_kind payload queries observed_version =
     (if rule = CODEX_WEB_SEARCH_RULE then
        adapter = CodexCli \<and> protocol_family = ''codex-app-server''
        \<and> ((event_type = ''activity.started'' \<and> source_event_kind = ''item/started'')
           \<or> (event_type = ''activity.completed'' \<and> source_event_kind = ''item/completed''))
        \<and> native_kind = ''webSearch'' \<and> Option.bind (pointer payload ''item'' ''type'') as_str = Some ''webSearch''
        \<and> source_queries_match (pointer payload ''item'' ''query'') queries
      else if rule = CLAUDE_WEB_SEARCH_RULE then
        adapter = ClaudeCodeCli \<and> protocol_family = ''claude-stream-json'' \<and> event_type = ''runtime.action''
        \<and> claude_source source_event_kind \<and> native_kind = ''WebSearch'' \<and> get_str payload ''toolName'' = Some ''WebSearch''
      else if rule = ACP_EXPLICIT_WEB_SEARCH_RULE then
        uses_acp adapter \<and> protocol_family = ''acp-v1'' \<and> event_type = ''runtime.action''
        \<and> acp_source_event_is_allowlisted source_event_kind \<and> native_kind = ''web_search''
      else if rule = COPILOT_QUERY_ONLY_RULE then
        inferred_acp_source_is_allowlisted adapter CopilotCli protocol_family event_type source_event_kind native_kind
          ''search'' observed_version ''1.0.79''
      else if rule = QODER_QUERY_ONLY_RULE then
        inferred_acp_source_is_allowlisted adapter QoderCli protocol_family event_type source_event_kind native_kind
          ''search'' observed_version ''1.1.28''
      else if rule = KIRO_QUERY_ONLY_RULE then
        inferred_acp_source_is_allowlisted adapter KiroCli protocol_family event_type source_event_kind native_kind
          ''search'' observed_version ''2.18.1''
      else if rule = CODEBUDDY_QUERY_ONLY_RULE then
        inferred_acp_source_is_allowlisted adapter CodebuddyCli protocol_family event_type source_event_kind native_kind
          ''fetch'' observed_version ''2.133.1''
        \<and> source_event_kind \<in> {''session/update.tool_call_update.completed'', ''session/update.tool_call_update.failed''}
      else False)"

definition admit_search_candidate ::
    "string \<Rightarrow> Value \<Rightarrow> Value \<Rightarrow> string option \<Rightarrow> string option \<Rightarrow> string + AdmittedRuntimeSearchOperation" where
  "admit_search_candidate event_type payload cand frozen observed_version =
     and_then (required_string cand ''adapterKind'') (\<lambda>adapter_kind.
     if frozen \<noteq> Some adapter_kind then Inl ''runtime_search_operation_adapter_mismatch''
     else
       and_then (ok_or (adapter_from_str adapter_kind) ''runtime_search_operation_adapter_invalid'') (\<lambda>adapter.
       and_then (required_string cand ''protocolFamily'') (\<lambda>protocol_family.
       and_then (required_string cand ''sourceEventKind'') (\<lambda>source_event_kind.
       and_then (required_string cand ''admissionRule'') (\<lambda>admission_rule.
       and_then (required_string cand ''nativeKind'') (\<lambda>native_kind.
       and_then (candidate_queries cand) (\<lambda>queries.
       if get_str cand ''searchKind'' \<noteq> Some ''web'' then Inl ''runtime_search_operation_query_invalid''
       else if \<not> search_source_allowlisted admission_rule adapter protocol_family event_type source_event_kind native_kind
                  payload queries observed_version
         \<or> (protocol_family = ''acp-v1'' \<and> \<not> acp_source_event_matches_payload source_event_kind payload)
       then Inl ''runtime_search_operation_source_not_allowlisted''
       else Inr \<lparr>search_kind = ''web'', search_query = hd queries, search_queries = queries, search_adapter_kind = adapter_kind,
           search_protocol_family = protocol_family, search_source_event_kind = source_event_kind,
           search_admission_rule = admission_rule, search_observed_version = observed_version\<rparr>)))))))"

definition admit_runtime_search_operation ::
    "string \<Rightarrow> Value \<Rightarrow> string option \<Rightarrow> string option \<Rightarrow> (string + AdmittedRuntimeSearchOperation) option" where
  "admit_runtime_search_operation event_type payload frozen observed_version =
     map_option (\<lambda>cand. admit_search_candidate event_type payload cand frozen observed_version)
       (get payload SEARCH_OPERATION_CANDIDATE_FIELD)"

section \<open>What is stored\<close>

definition into_projection :: "AdmittedRuntimeSearchOperation \<Rightarrow> Value" where
  "into_projection a =
     (let projection = Object [(''schemaVersion'', Number (PosInt SEARCH_OPERATION_SCHEMA_VERSION)),
          (''source'', JString ''runtime_reported''), (''status'', JString ''available''), (''searchKind'', JString (search_kind a)),
          (''query'', JString (search_query a)),
          (''sourceMetadata'', Object [(''adapterKind'', JString (search_adapter_kind a)),
             (''protocolFamily'', JString (search_protocol_family a)), (''sourceEventKind'', JString (search_source_event_kind a)),
             (''admissionRule'', JString (search_admission_rule a)), (''observedRuntimeVersion'', optional_value (search_observed_version a))])]
      in if 1 < length (search_queries a) then set_field ''queries'' (Array (map JString (search_queries a))) projection else projection)"

definition unavailable_search_projection :: "string \<Rightarrow> Value option \<Rightarrow> string option \<Rightarrow> Value" where
  "unavailable_search_projection reason cand observed_version =
     (let field = (\<lambda>k. case cand of None \<Rightarrow> Null | Some c \<Rightarrow> field_or_null c k) in
      Object [(''schemaVersion'', Number (PosInt SEARCH_OPERATION_SCHEMA_VERSION)), (''source'', JString ''runtime_reported''),
        (''status'', JString ''unavailable''), (''searchKind'', JString ''web''), (''safeReasonCode'', JString reason),
        (''sourceMetadata'', Object [(''adapterKind'', field ''adapterKind''), (''protocolFamily'', field ''protocolFamily''),
           (''sourceEventKind'', field ''sourceEventKind''), (''admissionRule'', field ''admissionRule''),
           (''observedRuntimeVersion'', optional_value observed_version)])])"

definition normalize_runtime_search_operation_evidence ::
    "string \<Rightarrow> Value \<Rightarrow> string option \<Rightarrow> string option \<Rightarrow> Value \<Rightarrow> Value" where
  "normalize_runtime_search_operation_evidence event_type source_payload frozen observed_version payload =
     (case admit_runtime_search_operation event_type source_payload frozen observed_version of
        None \<Rightarrow> payload
      | Some (Inr admitted) \<Rightarrow>
          set_field ''runtimeSearchOperation'' (into_projection admitted)
            (if event_type = ''runtime.action'' then set_field ''kind'' (JString ''web_search'') payload else payload)
      | Some (Inl reason) \<Rightarrow>
          set_field ''runtimeSearchOperation''
            (unavailable_search_projection reason (get source_payload SEARCH_OPERATION_CANDIDATE_FIELD) observed_version) payload)"

end
