(* ===== verification/Search_Safety.thy ===== *)
theory Search_Safety
  imports Search_Operation
begin

text \<open>
  What the hosts report of a web search is what the core admits, and what it admits is a search of
  the runtime the run was started with.
\<close>

section \<open>Reading a candidate\<close>

lemma collect_Some: "collect f xs = Some ys \<longleftrightarrow> map f xs = map Some ys"
proof (induction xs arbitrary: ys)
  case (Cons x xs)
  show ?case
  proof (cases ys)
    case (Cons z zs)
    then show ?thesis using Cons.IH [of zs] by (cases "f x"; cases "collect f xs") auto
  qed (auto split: option.splits)
qed auto

lemma collect_strings: "collect (\<lambda>v. nonblank (as_str v)) (map JString qs) = Some rs \<longleftrightarrow> rs = qs \<and> (\<forall>q \<in> set qs. trim q \<noteq> [])"
  by (induction qs arbitrary: rs) (auto simp: nonblank_def split: option.splits)

lemma queries_of_nonblank:
  assumes "queries_of v = Some qs"
  shows "qs \<noteq> [] \<and> (\<forall>q \<in> set qs. trim q \<noteq> [])"
proof (cases v)
  case (Array vs)
  then have c: "map (\<lambda>v. nonblank (as_str v)) vs = map Some qs" "vs \<noteq> []"
    using assms by (auto simp: collect_Some split: if_splits)
  have "trim q \<noteq> []" if "q \<in> set qs" for q
  proof -
    from that have "Some q \<in> set (map Some qs)" by simp
    then obtain v where "nonblank (as_str v) = Some q" unfolding c(1) [symmetric] by auto
    then show ?thesis by (simp add: nonblank_Some)
  qed
  with c show ?thesis by auto
next
  case (JString s)
  then show ?thesis using assms by (cases "trim s = []") auto
qed (use assms in simp_all)

lemma nonempty_queries_nonblank: "nonempty_queries q = Some qs \<Longrightarrow> qs \<noteq> [] \<and> (\<forall>q \<in> set qs. trim q \<noteq> [])"
  by (cases q) (auto simp: nonempty_queries_def dest: queries_of_nonblank)

lemma query_only_nonblank: "query_only v = Some qs \<Longrightarrow> qs \<noteq> [] \<and> (\<forall>q \<in> set qs. trim q \<noteq> [])"
  by (cases v) (auto dest: nonempty_queries_nonblank split: if_splits)

lemma candidate_fields:
  "required_string (candidate adapter pf se rule nk qs) ''adapterKind'' = Inr (Adapter.as_str adapter)"
  "required_string (candidate adapter pf se rule nk qs) ''protocolFamily'' = Inr pf"
  "required_string (candidate adapter pf se rule nk qs) ''sourceEventKind'' = Inr se"
  "required_string (candidate adapter pf se rule nk qs) ''admissionRule'' = Inr rule"
  "required_string (candidate adapter pf se rule nk qs) ''nativeKind'' = Inr nk"
  "required_string (candidate adapter pf se rule nk qs) ''query'' = Inr (hd qs)"
  "get_str (candidate adapter pf se rule nk qs) ''searchKind'' = Some ''web''"
  "get (candidate adapter pf se rule nk qs) ''queries'' = (if 1 < length qs then Some (Array (map JString qs)) else None)"
  by (simp_all add: candidate_def required_string_def get_str_def ok_or_def Let_def)

lemma candidate_queries_candidate:
  assumes "qs \<noteq> []" "\<forall>q \<in> set qs. trim q \<noteq> []"
  shows "candidate_queries (candidate adapter pf se rule nk qs) = Inr qs"
proof -
  have "queries_of (Array (map JString qs)) = Some qs"
    using assms by (simp add: collect_strings)
  moreover have "trim (hd qs) \<noteq> []" using assms by simp
  moreover have "[hd qs] = qs" if "\<not> Suc 0 < length qs" using assms(1) that by (cases qs) auto
  ultimately show ?thesis
    by (simp add: candidate_queries_def candidate_fields and_then_def ok_or_def del: queries_of.simps)
qed

lemma candidate_queries_nonblank:
  assumes "candidate_queries c = Inr qs"
  shows "qs \<noteq> [] \<and> (\<forall>q \<in> set qs. trim q \<noteq> [])"
proof (cases "get c ''queries''")
  case None
  with assms show ?thesis by (auto simp: candidate_queries_def result_simps)
next
  case (Some v)
  with assms have "queries_of v = Some qs"
    by (cases "queries_of v") (auto simp: candidate_queries_def result_simps split: if_splits)
  then show ?thesis by (rule queries_of_nonblank)
qed

lemma adapter_from_as_str: "adapter_from_str (Adapter.as_str adapter) = Some adapter"
  by (rule adapter.of_as_text)

text \<open>The admission of a candidate that a host built for the runtime of the run.\<close>

definition admitted_search :: "AdapterKind \<Rightarrow> string \<Rightarrow> string \<Rightarrow> string \<Rightarrow> string list \<Rightarrow> string option \<Rightarrow> AdmittedRuntimeSearchOperation" where
  "admitted_search adapter pf se rule qs version =
     \<lparr>search_kind = ''web'', search_query = hd qs, search_queries = qs, search_adapter_kind = Adapter.as_str adapter,
      search_protocol_family = pf, search_source_event_kind = se, search_admission_rule = rule, search_observed_version = version\<rparr>"

lemma admit_built_candidate:
  assumes "qs \<noteq> []" "\<forall>q \<in> set qs. trim q \<noteq> []"
  shows "admit_search_candidate event payload (candidate adapter pf se rule nk qs) (Some (Adapter.as_str adapter)) version =
    (if search_source_allowlisted rule adapter pf event se nk payload qs version
        \<and> (pf = ''acp-v1'' \<longrightarrow> acp_source_event_matches_payload se payload)
     then Inr (admitted_search adapter pf se rule qs version)
     else Inl ''runtime_search_operation_source_not_allowlisted'')"
  by (simp add: admit_search_candidate_def candidate_fields candidate_queries_candidate [OF assms] and_then_def ok_or_def
      adapter_from_as_str admitted_search_def)

section \<open>Properties\<close>

text \<open>The release of a runtime for which a search with nothing but a query is known to be one of the web.\<close>

definition qualified_release :: "string \<Rightarrow> string option" where
  "qualified_release rule =
     (if rule = COPILOT_QUERY_ONLY_RULE then Some ''1.0.79'' else if rule = QODER_QUERY_ONLY_RULE then Some ''1.1.28''
      else if rule = KIRO_QUERY_ONLY_RULE then Some ''2.18.1'' else if rule = CODEBUDDY_QUERY_ONLY_RULE then Some ''2.133.1''
      else None)"

definition release_qualifies :: "string \<Rightarrow> string option \<Rightarrow> bool" where
  "release_qualifies rule version =
     (case qualified_release rule of
        None \<Rightarrow> True | Some release \<Rightarrow> (case version of None \<Rightarrow> False | Some v \<Rightarrow> version_contains_token v release))"

lemma acp_source_event_cases:
  "acp_source_event update status = Some se \<Longrightarrow> acp_source_event_is_allowlisted se
     \<and> (status \<in> {''completed'', ''failed''} \<and> update = Some ''tool_call_update''
        \<longrightarrow> se \<in> {''session/update.tool_call_update.completed'', ''session/update.tool_call_update.failed''})"
  by (auto simp: acp_source_event_def acp_source_event_is_allowlisted_def split: if_splits)

lemma acp_candidate_cases:
  assumes "acp_web_search_candidate adapter update status native raw = Some c"
  obtains (explicit) se qs where "acp_source_event update status = Some se" "trim native = ''web_search''"
      "qs \<noteq> []" "\<forall>q \<in> set qs. trim q \<noteq> []" "c = candidate adapter ''acp-v1'' se ACP_EXPLICIT_WEB_SEARCH_RULE ''web_search'' qs"
    | (query_only) se qs rule where "acp_source_event update status = Some se" "query_only_rule adapter (trim native) status = Some rule"
      "qs \<noteq> []" "\<forall>q \<in> set qs. trim q \<noteq> []" "c = candidate adapter ''acp-v1'' se rule (trim native) qs"
proof (cases "trim native = ''web_search''")
  case True
  with assms obtain se qs where "acp_source_event update status = Some se"
      "Option.bind raw (\<lambda>v. nonempty_queries (get v ''query'')) = Some qs"
      "c = candidate adapter ''acp-v1'' se ACP_EXPLICIT_WEB_SEARCH_RULE ''web_search'' qs"
    by (auto simp: acp_web_search_candidate_def Let_def split: option.splits)
  moreover from this(2) obtain v where "nonempty_queries (get v ''query'') = Some qs" by (auto simp: bind_eq_Some_conv)
  ultimately show ?thesis using True nonempty_queries_nonblank explicit [of se qs] by blast
next
  case False
  with assms obtain se qs rule where "acp_source_event update status = Some se" "Option.bind raw query_only = Some qs"
      "query_only_rule adapter (trim native) status = Some rule" "c = candidate adapter ''acp-v1'' se rule (trim native) qs"
    by (auto simp: acp_web_search_candidate_def Let_def split: option.splits)
  moreover from this(2) obtain v where "query_only v = Some qs" by (auto simp: bind_eq_Some_conv)
  ultimately show ?thesis using query_only_nonblank query_only [of se rule qs] by blast
qed

lemma query_only_rule_allowlisted:
  assumes "query_only_rule adapter nk status = Some rule" "acp_source_event update status = Some se"
    "status \<in> {''completed'', ''failed''} \<longrightarrow> update = Some ''tool_call_update''"
  shows "search_source_allowlisted rule adapter ''acp-v1'' ''runtime.action'' se nk payload qs version = release_qualifies rule version"
proof -
  have se: "acp_source_event_is_allowlisted se" using acp_source_event_cases [OF assms(2)] by blast
  have final: "se \<in> {''session/update.tool_call_update.completed'', ''session/update.tool_call_update.failed''}"
    if "status = ''completed'' \<or> status = ''failed''"
    using acp_source_event_cases [OF assms(2)] assms(3) that by blast
  consider "adapter = CopilotCli" "nk = ''search''" "rule = COPILOT_QUERY_ONLY_RULE"
    | "adapter = QoderCli" "nk = ''search''" "rule = QODER_QUERY_ONLY_RULE"
    | "adapter = KiroCli" "nk = ''search''" "rule = KIRO_QUERY_ONLY_RULE"
    | "adapter = CodebuddyCli" "nk = ''fetch''" "rule = CODEBUDDY_QUERY_ONLY_RULE" "status = ''completed'' \<or> status = ''failed''"
    using assms(1) by (auto simp: query_only_rule_def split: if_splits)
  then show ?thesis
  proof cases
    case 4
    with final se show ?thesis
      by (simp add: search_source_allowlisted_def inferred_acp_source_is_allowlisted_def release_qualifies_def qualified_release_def
          search_rules)
  qed (use se in \<open>simp_all add: search_source_allowlisted_def inferred_acp_source_is_allowlisted_def release_qualifies_def
        qualified_release_def search_rules\<close>)
qed

text \<open>
  The candidate that an ACP host builds from an event is admitted, with all its queries in
  order, exactly if the release of the runtime qualifies for the rule and the payload it was put into
  carries the status of the event; otherwise it is refused for its source.
\<close>

theorem acp_search_admitted_exactly:
  assumes built: "acp_web_search_candidate adapter update status native raw = Some c" and acp: "uses_acp adapter"
    and terminal: "status \<in> {''completed'', ''failed''} \<longrightarrow> update = Some ''tool_call_update''"
    and payload: "payload = insert_candidate (Object m) (Some c)" "map_of m ''status'' = Some (JString status)"
  shows "\<exists>se rule qs. qs \<noteq> [] \<and> (\<forall>q \<in> set qs. trim q \<noteq> [])
     \<and> c = candidate adapter ''acp-v1'' se rule (trim native) qs
     \<and> admit_runtime_search_operation ''runtime.action'' payload (Some (Adapter.as_str adapter)) version =
       Some (if release_qualifies rule version then Inr (admitted_search adapter ''acp-v1'' se rule qs version)
             else Inl ''runtime_search_operation_source_not_allowlisted'')"
proof -
  have read: "admit_runtime_search_operation ''runtime.action'' payload (Some (Adapter.as_str adapter)) version =
      Some (admit_search_candidate ''runtime.action'' payload c (Some (Adapter.as_str adapter)) version)"
    by (simp add: payload(1) admit_runtime_search_operation_def update_conv')
  have status: "get_str payload ''status'' = Some status"
    using payload(2) by (simp add: payload(1) get_str_def SEARCH_OPERATION_CANDIDATE_FIELD_def update_conv')
  have matches: "acp_source_event_matches_payload se payload" if "acp_source_event update status = Some se" for se
    using that terminal by (auto simp: acp_source_event_matches_payload_def status Let_def acp_source_event_def split: if_splits)
  from built show ?thesis
  proof (cases rule: acp_candidate_cases)
    case (explicit se qs)
    have "search_source_allowlisted ACP_EXPLICIT_WEB_SEARCH_RULE adapter ''acp-v1'' ''runtime.action'' se ''web_search'' payload qs version"
      using acp acp_source_event_cases [OF explicit(1)] by (simp add: search_source_allowlisted_def search_rules)
    moreover have "release_qualifies ACP_EXPLICIT_WEB_SEARCH_RULE version"
      by (simp add: release_qualifies_def qualified_release_def search_rules)
    ultimately show ?thesis
      using explicit matches [OF explicit(1)] admit_built_candidate [OF explicit(3,4)]
      by (intro exI [of _ se] exI [of _ ACP_EXPLICIT_WEB_SEARCH_RULE] exI [of _ qs]) (simp add: read)
  next
    case (query_only se qs rule)
    show ?thesis
      using query_only matches [OF query_only(1)] admit_built_candidate [OF query_only(3,4)]
        query_only_rule_allowlisted [OF query_only(2,1) terminal]
      by (intro exI [of _ se] exI [of _ rule] exI [of _ qs]) (simp add: read)
  qed
qed

lemma allowlisted_release:
  assumes "search_source_allowlisted rule adapter pf event se nk payload qs version"
  shows "release_qualifies rule version"
proof -
  consider (query_only) "rule \<in> {COPILOT_QUERY_ONLY_RULE, QODER_QUERY_ONLY_RULE, KIRO_QUERY_ONLY_RULE, CODEBUDDY_QUERY_ONLY_RULE}"
    | (other) "qualified_release rule = None"
    by (cases "rule \<in> {COPILOT_QUERY_ONLY_RULE, QODER_QUERY_ONLY_RULE, KIRO_QUERY_ONLY_RULE, CODEBUDDY_QUERY_ONLY_RULE}")
      (simp_all add: qualified_release_def)
  then show ?thesis
  proof cases
    case query_only
    then have "rule = COPILOT_QUERY_ONLY_RULE \<or> rule = QODER_QUERY_ONLY_RULE \<or> rule = KIRO_QUERY_ONLY_RULE \<or> rule = CODEBUDDY_QUERY_ONLY_RULE"
      by simp
    then show ?thesis
      by (elim disjE)
        (use assms in \<open>simp_all add: search_source_allowlisted_def inferred_acp_source_is_allowlisted_def release_qualifies_def
          qualified_release_def search_rules\<close>)
  qed (simp add: release_qualifies_def)
qed

text \<open>
  A search is admitted only of the runtime the run was frozen to, with queries that all say
  something, the first of them its query; of an ACP runtime only while the status of the payload is
  that of the event, and by a rule for queries only with a release that qualifies.
\<close>

theorem admitted_search_sound:
  assumes "admit_runtime_search_operation event_type payload frozen version = Some (Inr a)"
  shows "frozen = Some (search_adapter_kind a) \<and> (\<exists>adapter. Adapter.as_str adapter = search_adapter_kind a)
    \<and> search_queries a \<noteq> [] \<and> (\<forall>q \<in> set (search_queries a). trim q \<noteq> []) \<and> search_query a = hd (search_queries a)
    \<and> release_qualifies (search_admission_rule a) version
    \<and> (search_protocol_family a = ''acp-v1'' \<longrightarrow> acp_source_event_matches_payload (search_source_event_kind a) payload)
    \<and> (search_admission_rule a = CODEX_WEB_SEARCH_RULE
        \<longrightarrow> nonempty_queries (pointer payload ''item'' ''query'') = Some (search_queries a))"
proof -
  from assms obtain c where "admit_search_candidate event_type payload c frozen version = Inr a"
    by (auto simp: admit_runtime_search_operation_def)
  then obtain ak adapter pf se rule nk qs where
      frozen: "frozen = Some ak" "adapter_from_str ak = Some adapter" and qs: "candidate_queries c = Inr qs"
    and allowed: "search_source_allowlisted rule adapter pf event_type se nk payload qs version"
      "pf = ''acp-v1'' \<longrightarrow> acp_source_event_matches_payload se payload"
    and a: "a = \<lparr>search_kind = ''web'', search_query = hd qs, search_queries = qs, search_adapter_kind = ak,
       search_protocol_family = pf, search_source_event_kind = se, search_admission_rule = rule, search_observed_version = version\<rparr>"
    by (auto simp: admit_search_candidate_def result_simps)
  have "qs \<noteq> [] \<and> (\<forall>q \<in> set qs. trim q \<noteq> [])"
    using qs by (rule candidate_queries_nonblank)
  moreover have "Adapter.as_str adapter = ak" using frozen(2) by (simp add: adapter.of_text_iff)
  moreover have "release_qualifies rule version"
    using allowed(1) by (rule allowlisted_release)
  moreover have "rule = CODEX_WEB_SEARCH_RULE \<longrightarrow> nonempty_queries (pointer payload ''item'' ''query'') = Some qs"
    using allowed(1) by (auto simp: search_source_allowlisted_def source_queries_match_def)
  ultimately show ?thesis using frozen(1) allowed(2) by (auto simp: a)
qed

text \<open>
  A call that is reported once, already completed, is a candidate of the ACP hosts, but its source
  never agrees with the status of its payload: it is refused for every release.
\<close>

lemma completed_tool_call_refused:
  fixes version :: "string option"
  defines "c \<equiv> candidate OpencodeCli ''acp-v1'' ''session/update.tool_call'' ACP_EXPLICIT_WEB_SEARCH_RULE ''web_search'' [''q'']"
  shows "acp_web_search_candidate OpencodeCli (Some ''tool_call'') ''completed'' ''web_search''
           (Some (Object [(''query'', JString ''q'')])) = Some c
    \<and> admit_runtime_search_operation ''runtime.action''
        (insert_candidate (Object [(''status'', JString ''completed'')]) (Some c)) (Some ''opencode-cli'') version =
      Some (Inl ''runtime_search_operation_source_not_allowlisted'')"
proof
  have q: "trim ''q'' \<noteq> []" "trim ''web_search'' = ''web_search''" by code_simp+
  then show "acp_web_search_candidate OpencodeCli (Some ''tool_call'') ''completed'' ''web_search''
      (Some (Object [(''query'', JString ''q'')])) = Some c"
    by (simp add: acp_web_search_candidate_def acp_source_event_def nonempty_queries_def c_def Let_def)
  have "admit_search_candidate ''runtime.action'' (insert_candidate (Object [(''status'', JString ''completed'')]) (Some c)) c
      (Some (Adapter.as_str OpencodeCli)) version = Inl ''runtime_search_operation_source_not_allowlisted''"
  proof -
    have "\<not> acp_source_event_matches_payload ''session/update.tool_call'' (insert_candidate (Object [(''status'', JString ''completed'')]) (Some c))"
      by (simp add: acp_source_event_matches_payload_def get_str_def SEARCH_OPERATION_CANDIDATE_FIELD_def)
    then show ?thesis using q(1) unfolding c_def by (subst admit_built_candidate) auto
  qed
  then show "admit_runtime_search_operation ''runtime.action''
      (insert_candidate (Object [(''status'', JString ''completed'')]) (Some c)) (Some ''opencode-cli'') version =
      Some (Inl ''runtime_search_operation_source_not_allowlisted'')"
    by (simp add: admit_runtime_search_operation_def SEARCH_OPERATION_CANDIDATE_FIELD_def)
qed

lemma acp_search_admitted_exactly_witness:
  "\<exists>c. acp_web_search_candidate QoderCli (Some ''tool_call_update'') ''completed'' ''search'' (Some (Object [(''query'', JString ''q'')])) = Some c
     \<and> (\<exists>a. admit_runtime_search_operation ''runtime.action'' (insert_candidate (Object [(''status'', JString ''completed'')]) (Some c))
          (Some (Adapter.as_str QoderCli)) (Some ''qoder v1.1.28'') = Some (Inr a) \<and> search_queries a = [''q''])"
proof -
  have "trim ''q'' \<noteq> []" "trim ''search'' = ''search''" by code_simp+
  then have c: "acp_web_search_candidate QoderCli (Some ''tool_call_update'') ''completed'' ''search''
      (Some (Object [(''query'', JString ''q'')])) =
      Some (candidate QoderCli ''acp-v1'' ''session/update.tool_call_update.completed'' QODER_QUERY_ONLY_RULE ''search'' [''q''])"
    (is "_ = Some ?c")
    by (simp add: acp_web_search_candidate_def acp_source_event_def nonempty_queries_def query_only_rule_def Let_def)
  have acp: "uses_acp QoderCli" by (simp add: uses_acp_def)
  have version: "version_contains_token ''qoder v1.1.28'' ''1.1.28''" by code_simp
  have terminal: "''completed'' \<in> {''completed'', ''failed''} \<longrightarrow> Some ''tool_call_update'' = Some ''tool_call_update''" by simp
  have status: "map_of [(''status'', JString ''completed'')] ''status'' = Some (JString ''completed'')" by simp
  from acp_search_admitted_exactly [OF c acp terminal refl status, of "Some ''qoder v1.1.28''"]
  obtain se rule qs where r: "qs \<noteq> []" "?c = candidate QoderCli ''acp-v1'' se rule (trim ''search'') qs"
      "admit_runtime_search_operation ''runtime.action'' (insert_candidate (Object [(''status'', JString ''completed'')]) (Some ?c))
         (Some (Adapter.as_str QoderCli)) (Some ''qoder v1.1.28'') =
       Some (if release_qualifies rule (Some ''qoder v1.1.28'') then Inr (admitted_search QoderCli ''acp-v1'' se rule qs (Some ''qoder v1.1.28''))
             else Inl ''runtime_search_operation_source_not_allowlisted'')"
    by blast
  have "rule = QODER_QUERY_ONLY_RULE" using arg_cong [OF r(2), of "\<lambda>c. required_string c ''admissionRule''"] by (simp add: candidate_fields)
  moreover have "hd qs = ''q''" using arg_cong [OF r(2), of "\<lambda>c. required_string c ''query''"] by (simp add: candidate_fields)
  moreover have "\<not> 1 < length qs" using arg_cong [OF r(2), of "\<lambda>c. get c ''queries''"] by (auto simp: candidate_fields split: if_splits)
  ultimately have ok: "qs = [''q'']" "release_qualifies rule (Some ''qoder v1.1.28'')"
    using r(1) version by (cases qs; simp add: release_qualifies_def qualified_release_def search_rules)+
  let ?a = "admitted_search QoderCli ''acp-v1'' se rule qs (Some ''qoder v1.1.28'')"
  have "admit_runtime_search_operation ''runtime.action'' (insert_candidate (Object [(''status'', JString ''completed'')]) (Some ?c))
      (Some (Adapter.as_str QoderCli)) (Some ''qoder v1.1.28'') = Some (Inr ?a)"
    using r(3) ok(2) by (simp only: if_True)
  moreover have "search_queries ?a = [''q'']" using ok(1) by (simp add: admitted_search_def)
  ultimately show ?thesis using c by blast
qed

lemma admitted_search_sound_witness:
  "\<exists>a. admit_runtime_search_operation ''activity.started''
       (insert_candidate (Object [(''item'', Object [(''type'', JString ''webSearch''), (''query'', JString ''q'')])])
         (codex_web_search_candidate ''item/started'' (Some (Object [(''type'', JString ''webSearch''), (''query'', JString ''q'')]))))
       (Some ''codex-cli'') None = Some (Inr a)
     \<and> search_query (a :: AdmittedRuntimeSearchOperation) = hd (search_queries a)"
proof -
  let ?item = "Object [(''type'', JString ''webSearch''), (''query'', JString ''q'')]"
  let ?c = "candidate CodexCli ''codex-app-server'' ''item/started'' CODEX_WEB_SEARCH_RULE ''webSearch'' [''q'']"
  let ?p = "insert_candidate (Object [(''item'', ?item)]) (Some ?c)"
  let ?a = "admitted_search CodexCli ''codex-app-server'' ''item/started'' CODEX_WEB_SEARCH_RULE [''q''] None"
  have q: "trim ''q'' \<noteq> []" by code_simp
  then have c: "codex_web_search_candidate ''item/started'' (Some ?item) = Some ?c"
    by (simp add: codex_web_search_candidate_def get_str_def nonempty_queries_def)
  have "admit_search_candidate ''activity.started'' ?p ?c (Some (Adapter.as_str CodexCli)) None =
      Inr (admitted_search CodexCli ''codex-app-server'' ''item/started'' CODEX_WEB_SEARCH_RULE [''q''] None)"
    using q
    by (subst admit_built_candidate)
      (simp_all add: search_source_allowlisted_def pointer_def source_queries_match_def nonempty_queries_def
        SEARCH_OPERATION_CANDIDATE_FIELD_def)
  then have "admit_runtime_search_operation ''activity.started'' ?p (Some ''codex-cli'') None =
      Some (Inr (admitted_search CodexCli ''codex-app-server'' ''item/started'' CODEX_WEB_SEARCH_RULE [''q''] None))"
    by (simp add: admit_runtime_search_operation_def SEARCH_OPERATION_CANDIDATE_FIELD_def)
  note admitted = this
  from admitted_search_sound [OF admitted] have "search_query ?a = hd (search_queries ?a)" by blast
  with admitted show ?thesis unfolding c by blast
qed

end
