(* ===== verification/Thread_Compat.thy ===== *)
theory Thread_Compat
  imports Canonical_Json "HOL-Library.Multiset"
begin

text \<open>
  The names of the built-in tools, from \<^verbatim>\<open>crates/rovai-core/src/builtin_tool_transport.rs\<close>,
  and the renaming of camps to threads, from \<^verbatim>\<open>crates/rovai-core/src/thread_compat.rs\<close>:
  new callers use the new names, stored identities keep the old ones.
\<close>

section \<open>Built-in tools\<close>

record BuiltinToolCliIdentity =
  tool_operation :: string
  tool_group :: string
  tool_action :: string

abbreviation identity :: "string \<Rightarrow> string \<Rightarrow> string \<Rightarrow> BuiltinToolCliIdentity" where
  "identity operation grp action \<equiv> \<lparr>tool_operation = operation, tool_group = grp, tool_action = action\<rparr>"

definition BUILTIN_TOOL_CLI_IDENTITIES :: "BuiltinToolCliIdentity list" where
  "BUILTIN_TOOL_CLI_IDENTITIES =
     [identity ''thread.message.send'' ''send'' '''',
      identity ''member.list'' ''member'' ''list'',
      identity ''member.get'' ''member'' ''get'',
      identity ''member.update'' ''member'' ''update'',
      identity ''member.create'' ''member'' ''create'',
      identity ''team.create_task'' ''task'' ''create'',
      identity ''team.get_task'' ''task'' ''get'',
      identity ''team.list_tasks'' ''task'' ''list'',
      identity ''team.update_task'' ''task'' ''update'',
      identity ''thread.list'' ''thread'' ''list'',
      identity ''thread.search'' ''thread'' ''search'',
      identity ''thread.read'' ''thread'' ''read'',
      identity ''thread.runs'' ''thread'' ''runs'',
      identity ''single_chat.history'' ''single-chat'' ''history'',
      identity ''history.search'' ''history'' ''search'',
      identity ''memory.view'' ''memory'' ''view'',
      identity ''memory.search'' ''memory'' ''search'',
      identity ''memory.read'' ''memory'' ''read'',
      identity ''memory.write'' ''memory'' ''write'',
      identity ''mission.list'' ''mission'' ''list'',
      identity ''mission.get'' ''mission'' ''get'',
      identity ''mission.update'' ''mission'' ''update'',
      identity ''mission.status'' ''mission'' ''status'',
      identity ''automation.list'' ''automation'' ''list'',
      identity ''automation.get'' ''automation'' ''get'',
      identity ''automation.create'' ''automation'' ''create'',
      identity ''automation.run'' ''automation'' ''run'',
      identity ''automation.close'' ''automation'' ''close'',
      identity ''automation.update'' ''automation'' ''update'',
      identity ''automation.delete'' ''automation'' ''delete'']"

definition canonical_operation :: "string \<Rightarrow> string" where
  "canonical_operation operation =
     (if operation = ''camp.list'' then ''thread.list''
      else if operation = ''camp.search'' then ''thread.search''
      else if operation = ''camp.read'' then ''thread.read''
      else if operation = ''camp.message.send'' then ''thread.message.send''
      else operation)"

definition stored_operation :: "string \<Rightarrow> string" where
  "stored_operation operation =
     (if operation = ''thread.list'' then ''camp.list''
      else if operation = ''thread.search'' then ''camp.search''
      else if operation = ''thread.read'' then ''camp.read''
      else if operation = ''thread.message.send'' then ''camp.message.send''
      else operation)"

definition builtin_tool_identity_by_operation :: "string \<Rightarrow> BuiltinToolCliIdentity option" where
  "builtin_tool_identity_by_operation operation =
     find (\<lambda>i. tool_operation i = canonical_operation operation) BUILTIN_TOOL_CLI_IDENTITIES"

definition builtin_tool_identity_by_command :: "string \<Rightarrow> string \<Rightarrow> BuiltinToolCliIdentity option" where
  "builtin_tool_identity_by_command grp action =
     (let grp = (if grp = ''camp'' then ''thread'' else grp) in
      find (\<lambda>i. tool_group i = grp \<and> tool_action i = action) BUILTIN_TOOL_CLI_IDENTITIES)"

section \<open>Names of host methods\<close>

text \<open>\<open>str::replace\<close>, from left to right; the code never replaces the empty text.\<close>

lemma strip_prefix_shorter: "p \<noteq> [] \<Longrightarrow> strip_prefix p s = Some t \<Longrightarrow> length t < length s"
  by (auto simp: strip_prefix_Some)

function str_replace :: "string \<Rightarrow> string \<Rightarrow> string \<Rightarrow> string" where
  "str_replace pat by_text s =
     (if pat = [] then s
      else
        (case strip_prefix pat s of
           Some t \<Rightarrow> by_text @ str_replace pat by_text t
         | None \<Rightarrow> (case s of [] \<Rightarrow> [] | c # cs \<Rightarrow> c # str_replace pat by_text cs)))"
  by pat_completeness auto
termination
  by (relation "measure (\<lambda>(pat, by_text, s). length s)") (auto dest: strip_prefix_shorter)

declare str_replace.simps [simp del]

definition stored_host_method :: "string \<Rightarrow> string" where
  "stored_host_method name =
     (let name = str_replace ''Thread'' ''Camp'' name in
      case strip_prefix ''thread.'' name of
        Some rest \<Rightarrow> ''camp.'' @ rest
      | None \<Rightarrow>
          (case strip_prefix ''threads.'' name of
             Some rest \<Rightarrow> ''camps.'' @ rest
           | None \<Rightarrow> str_replace ''.threads'' ''.camps'' (str_replace ''.thread.'' ''.camp.'' name)))"

definition public_host_method :: "string \<Rightarrow> string" where
  "public_host_method name =
     (case strip_prefix ''camp.'' name of
        Some rest \<Rightarrow> ''thread.'' @ rest
      | None \<Rightarrow> (case strip_prefix ''camps.'' name of Some rest \<Rightarrow> ''threads.'' @ rest | None \<Rightarrow> name))"

section \<open>Inputs\<close>

definition alias_conflict :: "string \<Rightarrow> string \<Rightarrow> string" where
  "alias_conflict old new = old @ '' and '' @ new @ '' cannot be supplied together''"

fun alias_field :: "string \<Rightarrow> string \<Rightarrow> Value \<Rightarrow> string + Value" where
  "alias_field old new (Object m) =
     (case map_of m old of
        None \<Rightarrow> Inr (Object m)
      | Some v \<Rightarrow>
          (let m = AList.delete old m in
           if map_of m new \<noteq> None then Inl (alias_conflict old new) else Inr (Object (AList.update new v m))))"
| "alias_field old new v = Inr v"

definition normalize_builtin_input :: "string \<Rightarrow> Value \<Rightarrow> string + Value" where
  "normalize_builtin_input operation input =
     (let operation = canonical_operation operation in
      if operation = ''thread.search'' then alias_field ''campId'' ''threadId'' input
      else if operation = ''thread.read'' then and_then (alias_field ''campId'' ''threadId'' input) (alias_field ''thread'' ''replyChain'')
      else if operation = ''history.search'' then alias_field ''campIds'' ''threadIds'' input
      else Inr input)"

definition canonical_flag :: "string \<Rightarrow> string \<Rightarrow> string" where
  "canonical_flag operation flag =
     (let operation = canonical_operation operation in
      if operation \<in> {''thread.search'', ''thread.read''} \<and> flag = ''--camp-id'' then ''--thread-id''
      else if operation = ''thread.read'' \<and> flag = ''--thread'' then ''--reply-chain''
      else if operation = ''history.search'' \<and> flag = ''--camp-ids'' then ''--thread-ids''
      else if operation = ''thread.message.send'' \<and> flag = ''--to-principal'' then ''--to-user''
      else flag)"

definition stored_builtin_input :: "string \<Rightarrow> Value \<Rightarrow> string + Value" where
  "stored_builtin_input operation input =
     and_then (normalize_builtin_input operation input) (\<lambda>input.
       let operation = canonical_operation operation in
       if operation = ''thread.search'' then alias_field ''threadId'' ''campId'' input
       else if operation = ''thread.read'' then and_then (alias_field ''threadId'' ''campId'' input) (alias_field ''replyChain'' ''thread'')
       else if operation = ''history.search'' then alias_field ''threadIds'' ''campIds'' input
       else Inr input)"

section \<open>Results\<close>

text \<open>Changing a field in place, and every element of an array.\<close>

fun at_field :: "string \<Rightarrow> (Value \<Rightarrow> string + Value) \<Rightarrow> Value \<Rightarrow> string + Value" where
  "at_field k f (Object m) =
     (case map_of m k of None \<Rightarrow> Inr (Object m) | Some v \<Rightarrow> and_then (f v) (\<lambda>w. Inr (Object (AList.update k w m))))"
| "at_field k f v = Inr v"

fun each_result :: "(Value \<Rightarrow> string + Value) \<Rightarrow> Value list \<Rightarrow> string + Value list" where
  "each_result f [] = Inr []"
| "each_result f (v # vs) = and_then (f v) (\<lambda>w. and_then (each_result f vs) (\<lambda>ws. Inr (w # ws)))"

fun each_row :: "(Value \<Rightarrow> string + Value) \<Rightarrow> Value \<Rightarrow> string + Value" where
  "each_row f (Array vs) = and_then (each_result f vs) (\<lambda>ws. Inr (Array ws))"
| "each_row f v = Inr v"

fun project_quote :: "bool \<Rightarrow> Value \<Rightarrow> string + Value" where
  "project_quote legacy quote =
     (if \<not> legacy then Inr (remove_field ''source'' quote)
      else at_field ''source''
        (\<lambda>source.
           Inr (case source of
                  Object m \<Rightarrow>
                    (if get_str source ''scope'' = Some ''current_messages''
                     then set_field ''scope'' (JString ''current_conversation_messages'') source
                     else if get_str source ''scope'' = Some ''thread_messages'' then set_field ''scope'' (JString ''camp_messages'') source
                     else source)
                | _ \<Rightarrow> source)) quote)"

definition project_quote_scopes :: "Value \<Rightarrow> bool \<Rightarrow> string + Value" where
  "project_quote_scopes message legacy = at_field ''quotes'' (each_row (project_quote legacy)) message"

definition scope :: "Value \<Rightarrow> string + Value" where
  "scope row =
     and_then (alias_field ''campId'' ''threadId'' row) (\<lambda>row.
     and_then (alias_field ''campTitle'' ''threadTitle'' row) (\<lambda>row.
     alias_field ''campTurnId'' ''threadTurnId'' row))"

definition messages_field :: "string \<Rightarrow> string option" where
  "messages_field operation =
     (if operation = ''thread.read'' then Some ''items''
      else if operation \<in> {''thread.search'', ''history.search''} then Some ''results''
      else if operation = ''single_chat.history'' then Some ''messages''
      else None)"

definition project_builtin_result :: "string \<Rightarrow> Value \<Rightarrow> string + Value" where
  "project_builtin_result operation result =
     and_then (scope result) (\<lambda>result.
     and_then (case messages_field operation of
                 None \<Rightarrow> Inr result
               | Some k \<Rightarrow> at_field k (each_row (\<lambda>message. project_quote_scopes message False)) result) (\<lambda>result.
     if operation = ''thread.list'' then
       and_then (alias_field ''camps'' ''threads'' result) (at_field ''threads'' (each_row scope))
     else if operation = ''thread.read'' then
       and_then (alias_field ''threadRootMessageId'' ''replyChainRootMessageId'' result) (\<lambda>result.
         Inr (if get_str result ''mode'' = Some ''thread'' then set_field ''mode'' (JString ''reply_chain'') result else result))
     else if operation \<in> {''thread.search'', ''history.search''} then at_field ''results'' (each_row scope) result
     else if operation = ''mission.list'' then at_field ''missions'' (each_row scope) result
     else if operation = ''automation.list'' then at_field ''automations'' (each_row (at_field ''lastRun'' scope)) result
     else if operation \<in> {''automation.get'', ''automation.create'', ''automation.update'', ''automation.close''} then
       at_field ''lastRun'' scope result
     else if operation = ''automation.run'' then Inr (remove_field ''conversationId'' result)
     else Inr result))"

definition project_command_result :: "string \<Rightarrow> Value \<Rightarrow> string + Value" where
  "project_command_result command_type payload =
     and_then
       (fold_result (\<lambda>(old, new). alias_field old new)
          [(''campId'', ''threadId''), (''campTurnId'', ''threadTurnId''), (''campMessageId'', ''threadMessageId''),
           (''campCreated'', ''threadCreated''), (''replyToCampMessageId'', ''replyToThreadMessageId'')] payload)
       (project_builtin_result (canonical_operation command_type))"

section \<open>Renaming a field\<close>

definition renamed :: "string \<Rightarrow> string \<Rightarrow> (string \<Rightarrow> Value option) \<Rightarrow> string \<Rightarrow> Value option" where
  "renamed old new f = (if f old = None then f else f(old := None, new := f old))"

definition fields_ok :: "Value \<Rightarrow> bool" where
  "fields_ok v = (case v of Object m \<Rightarrow> distinct (map fst m) | _ \<Rightarrow> True)"

lemma alias_object:
  assumes "distinct (map fst m)" "old \<noteq> new"
  shows "alias_field old new (Object m) =
    (if map_of m old \<noteq> None \<and> map_of m new \<noteq> None then Inl (alias_conflict old new)
     else Inr (Object (case map_of m old of None \<Rightarrow> m | Some v \<Rightarrow> AList.update new v (AList.delete old m))))"
  using assms by (auto simp: delete_conv' Let_def split: option.split)

lemma alias_ok:
  assumes "fields_ok v" "old \<noteq> new" "alias_field old new v = Inr w"
  shows "fields_ok w \<and> is_object w = is_object v \<and> (\<not> is_object v \<longrightarrow> w = v)
    \<and> get w = renamed old new (get v) \<and> (get v old = None \<or> get v new = None)"
proof (cases v)
  case (Object m)
  have d: "distinct (map fst m)" using assms(1) by (simp add: fields_ok_def Object)
  show ?thesis
    using assms(3) alias_object [OF d assms(2)]
    by (auto simp: Object fields_ok_def renamed_def fun_eq_iff update_conv' delete_conv' d distinct_update distinct_delete
        split: if_splits option.splits)
qed (use assms in \<open>auto simp: fields_ok_def renamed_def fun_eq_iff\<close>)

lemma alias_accepts:
  assumes "fields_ok v" "old \<noteq> new" "get v old = None \<or> get v new = None"
  obtains w where "alias_field old new v = Inr w"
proof (cases v)
  case (Object m)
  have d: "distinct (map fst m)" using assms(1) by (simp add: fields_ok_def Object)
  show ?thesis using that alias_object [OF d assms(2)] assms(3) by (auto simp: Object split: if_splits)
qed (use that in auto)

lemma alias_unused: "get v old = None \<Longrightarrow> alias_field old new v = Inr v"
  by (cases v) auto

text \<open>Values with the same fields have the same canonical text.\<close>

lemma same_fields_sorted:
  assumes "distinct (map fst m)" "distinct (map fst n)" "map_of m = map_of n"
  shows "sort_key fst m = sort_key fst n"
proof -
  have "set m = set n" using assms map_of_inject_set by blast
  moreover have "distinct m" "distinct n" using assms(1,2) by (simp_all add: distinct_map)
  ultimately have "mset m = mset n" using set_eq_iff_mset_eq_distinct by blast
  then have "mset m = mset (sort_key fst n)" by simp
  moreover have "inj_on fst (set m)" using assms(1) by (simp add: distinct_map)
  ultimately show ?thesis by (intro sort_key_inj_key_eq) auto
qed

lemma same_fields_text:
  assumes "fields_ok u" "fields_ok v" "is_object u = is_object v" "\<not> is_object u \<longrightarrow> u = v" "get u = get v"
  shows "write_canonical_json scalar u = write_canonical_json scalar v"
proof (cases "is_object u")
  case True
  then obtain m n where o: "u = Object m" "v = Object n" using assms(3) by (cases u; cases v) auto
  then have "sort_key fst m = sort_key fst n"
    using assms by (intro same_fields_sorted) (auto simp: fields_ok_def fun_eq_iff)
  then show ?thesis by (simp add: o)
qed (use assms(4) in simp)

section \<open>Properties\<close>

text \<open>One renaming and back, seen through the fields.\<close>

lemma renamed_back:
  assumes "old \<noteq> new" "f old = None \<or> f new = None"
  shows "renamed old new f old = None" "renamed new old (renamed old new f) new = None"
    "renamed new old (renamed old new (renamed new old (renamed old new f))) = renamed new old (renamed old new f)"
  using assms by (auto simp: renamed_def fun_eq_iff)

lemma renamed_other: "k \<noteq> old \<Longrightarrow> k \<noteq> new \<Longrightarrow> renamed old new f k = f k"
  by (simp add: renamed_def)

lemma renamed_commute:
  assumes "distinct [a, b, c, d]"
  shows "renamed a b (renamed c d f) = renamed c d (renamed a b f)"
  using assms by (auto simp: renamed_def fun_eq_iff)

text \<open>The pairs of an operation, in the order of the code.\<close>

definition owned_names :: "string \<Rightarrow> (string \<times> string) list" where
  "owned_names operation =
     (let operation = canonical_operation operation in
      if operation = ''thread.search'' then [(''campId'', ''threadId'')]
      else if operation = ''thread.read'' then [(''campId'', ''threadId''), (''thread'', ''replyChain'')]
      else if operation = ''history.search'' then [(''campIds'', ''threadIds'')]
      else [])"

definition rename_all :: "(string \<times> string) list \<Rightarrow> Value \<Rightarrow> string + Value" where
  "rename_all ps = fold_result (\<lambda>(old, new). alias_field old new) ps"

abbreviation undo :: "(string \<times> string) list \<Rightarrow> (string \<times> string) list" where
  "undo ps \<equiv> map (\<lambda>(old, new). (new, old)) ps"

lemma and_then_right [simp]: "and_then r Inr = r"
  by (cases r) (simp_all add: and_then_def)

lemma and_then_Inr_left [simp]: "and_then (Inr x) f = f x"
  by (simp add: and_then_def)

lemma rename_all_simps:
  "rename_all [] v = Inr v" "rename_all ((a, b) # ps) v = and_then (alias_field a b v) (rename_all ps)"
  "rename_all [] = Inr" "rename_all [(a, b)] = alias_field a b"
  by (auto simp: rename_all_def fun_eq_iff and_then_def split: sum.split)

lemma normalize_as_renaming: "normalize_builtin_input operation input = rename_all (owned_names operation) input"
  by (simp add: normalize_builtin_input_def owned_names_def rename_all_simps Let_def)

lemma stored_as_renaming:
  "stored_builtin_input operation input = and_then (rename_all (owned_names operation) input) (rename_all (undo (owned_names operation)))"
proof -
  have "rename_all [(a, b), (c, d)] = (\<lambda>v. and_then (alias_field a b v) (alias_field c d))" for a b c d
    by (simp add: fun_eq_iff rename_all_simps)
  then show ?thesis
    unfolding stored_builtin_input_def normalize_as_renaming by (simp add: owned_names_def rename_all_simps Let_def)
qed

definition names_ok :: "(string \<times> string) list \<Rightarrow> bool" where
  "names_ok ps \<longleftrightarrow> distinct (map fst ps @ map snd ps)"

lemma names_ok_Cons:
  assumes "names_ok ((a, b) # ps)"
  shows "names_ok ps" "a \<noteq> b" "a \<notin> set (map fst ps @ map snd ps)" "b \<notin> set (map fst ps @ map snd ps)"
  using assms unfolding names_ok_def by simp_all

lemma names_of_pair: "(old, new) \<in> set ps \<Longrightarrow> old \<in> set (map fst ps @ map snd ps) \<and> new \<in> set (map fst ps @ map snd ps)"
  by (force simp del: map_append)

lemma owned_names_ok: "names_ok (owned_names operation)"
  by (simp add: names_ok_def owned_names_def Let_def)

definition all_renamed :: "(string \<times> string) list \<Rightarrow> (string \<Rightarrow> Value option) \<Rightarrow> string \<Rightarrow> Value option" where
  "all_renamed ps f = fold (\<lambda>(old, new). renamed old new) ps f"

definition unambiguous :: "(string \<times> string) list \<Rightarrow> (string \<Rightarrow> Value option) \<Rightarrow> bool" where
  "unambiguous ps f \<longleftrightarrow> (\<forall>(old, new) \<in> set ps. f old = None \<or> f new = None)"

lemma rename_all_Inr:
  assumes "fields_ok v" "names_ok ps"
  shows "rename_all ps v = Inr w \<Longrightarrow> unambiguous ps (get v) \<and> fields_ok w \<and> is_object w = is_object v
      \<and> (\<not> is_object v \<longrightarrow> w = v) \<and> get w = all_renamed ps (get v)"
    and "unambiguous ps (get v) \<Longrightarrow> \<exists>w. rename_all ps v = Inr w"
proof -
  have "(rename_all ps v = Inr w \<longrightarrow> unambiguous ps (get v) \<and> fields_ok w \<and> is_object w = is_object v
      \<and> (\<not> is_object v \<longrightarrow> w = v) \<and> get w = all_renamed ps (get v))
    \<and> (unambiguous ps (get v) \<longrightarrow> (\<exists>w. rename_all ps v = Inr w))"
    using assms
  proof (induction ps arbitrary: v)
    case Nil
    show ?case by (simp add: rename_all_def all_renamed_def unambiguous_def) (use Nil.prems(1) in blast)
  next
    case (Cons p ps)
    obtain old new where p: "p = (old, new)" by force
    note split = names_ok_Cons [OF Cons.prems(2) [unfolded p]]
    have ne: "old \<noteq> new" and ok: "names_ok ps" using split by simp_all
    have out: "o' \<noteq> old \<and> o' \<noteq> new \<and> n' \<noteq> old \<and> n' \<noteq> new" if "(o', n') \<in> set ps" for o' n'
      using split names_of_pair [OF that] by auto
    have same: "unambiguous ps (renamed old new f) = unambiguous ps f" for f
      using out by (auto simp: unambiguous_def renamed_other)
    show ?case
    proof (cases "alias_field old new v")
      case (Inl e)
      then have "\<not> (get v old = None \<or> get v new = None)" using alias_accepts [OF Cons.prems(1) ne] by fastforce
      with Inl show ?thesis by (auto simp: rename_all_def p and_then_def unambiguous_def)
    next
      case (Inr u)
      note u = alias_ok [OF Cons.prems(1) ne Inr]
      have "rename_all (p # ps) v = rename_all ps u" by (simp add: rename_all_def p Inr)
      moreover have "all_renamed (p # ps) (get v) = all_renamed ps (get u)" using u by (simp only: all_renamed_def p fold_simps prod.case o_apply)
      moreover have "unambiguous ps (get u) = unambiguous ps (get v)" using u same [of "get v"] by metis
      then have "unambiguous (p # ps) (get v) = unambiguous ps (get u)" using u by (simp add: unambiguous_def p)
      moreover have "fields_ok u" using u by blast
      note Cons.IH [OF this ok]
      ultimately show ?thesis using u by metis
    qed
  qed
  then show "rename_all ps v = Inr w \<Longrightarrow> unambiguous ps (get v) \<and> fields_ok w \<and> is_object w = is_object v
      \<and> (\<not> is_object v \<longrightarrow> w = v) \<and> get w = all_renamed ps (get v)"
    and "unambiguous ps (get v) \<Longrightarrow> \<exists>w. rename_all ps v = Inr w" by blast+
qed

lemma all_renamed_outside:
  assumes "k \<notin> set (map fst ps @ map snd ps)"
  shows "all_renamed ps f k = f k"
  using assms
proof (induction ps arbitrary: f)
  case (Cons p ps)
  obtain a b where p: "p = (a, b)" by force
  show ?case using Cons by (simp add: all_renamed_def p renamed_other)
qed (simp add: all_renamed_def)

lemma all_renamed_pair:
  assumes "names_ok ps" "(old, new) \<in> set ps"
  shows "all_renamed ps f old = None \<and> all_renamed ps f new = (case f old of None \<Rightarrow> f new | Some v \<Rightarrow> Some v)"
  using assms
proof (induction ps arbitrary: f)
  case (Cons p ps)
  obtain a b where p: "p = (a, b)" by force
  note split = names_ok_Cons [OF Cons.prems(1) [unfolded p]]
  have step: "all_renamed (p # ps) f = all_renamed ps (renamed a b f)" by (simp add: all_renamed_def p)
  show ?case
  proof (cases "(old, new) \<in> set ps")
    case True
    then have "old \<noteq> a" "old \<noteq> b" "new \<noteq> a" "new \<noteq> b" using split names_of_pair [OF True] by auto
    then show ?thesis using Cons.IH [OF split(1) True, of "renamed a b f"] by (simp add: step renamed_other split: option.split)
  next
    case False
    then have "old = a" "new = b" using Cons.prems(2) p by auto
    then show ?thesis
      using all_renamed_outside [OF split(3), of "renamed a b f"] all_renamed_outside [OF split(4), of "renamed a b f"] split(2)
      by (auto simp: step renamed_def split: option.split)
  qed
qed simp

lemma all_renamed_apply:
  assumes "names_ok ps"
  shows "(old, new) \<in> set ps \<Longrightarrow> all_renamed ps f old = None"
    and "(old, new) \<in> set ps \<Longrightarrow> all_renamed ps f new = (case f old of None \<Rightarrow> f new | Some v \<Rightarrow> Some v)"
    and "k \<notin> set (map fst ps @ map snd ps) \<Longrightarrow> all_renamed ps f k = f k"
  using all_renamed_pair [OF assms] all_renamed_outside by blast+

lemma names_ok_undo: "names_ok ps \<Longrightarrow> names_ok (undo ps)"
  by (auto simp: names_ok_def comp_def case_prod_unfold)

lemma all_renamed_there_and_back:
  assumes "names_ok ps"
  defines "stored f \<equiv> all_renamed (undo ps) (all_renamed ps f)"
  shows "all_renamed ps (stored f) = all_renamed ps f" and "(old, new) \<in> set ps \<Longrightarrow> stored f new = None"
proof -
  note there = all_renamed_apply [OF assms(1)] and home = all_renamed_apply [OF names_ok_undo [OF assms(1)]]
  have new: "stored f new = None" and old: "stored f old = all_renamed ps f new" if "(old, new) \<in> set ps" for old new
  proof -
    have "(new, old) \<in> set (undo ps)" using that by force
    from home(1) [OF this] home(2) [OF this] show "stored f new = None" "stored f old = all_renamed ps f new"
      using there(1) [OF that] by (auto simp: stored_def split: option.split)
  qed
  then show "(old, new) \<in> set ps \<Longrightarrow> stored f new = None" by blast
  show "all_renamed ps (stored f) = all_renamed ps f"
  proof
    fix k
    consider old new where "(old, new) \<in> set ps" "k = old" | old new where "(old, new) \<in> set ps" "k = new"
      | "k \<notin> set (map fst ps @ map snd ps)" by force
    then show "all_renamed ps (stored f) k = all_renamed ps f k"
    proof cases
      case 1
      then show ?thesis using there(1) by simp
    next
      case 2
      then show ?thesis
        using there(2) [OF 2(1), of "stored f"] old [OF 2(1)] new [OF 2(1)] by (auto split: option.splits)
    next
      case 3
      then have "k \<notin> set (map fst (undo ps) @ map snd (undo ps))" by (auto simp: image_iff)
      then show ?thesis using there(3) [OF 3] home(3) by (simp add: stored_def)
    qed
  qed
qed

lemma rename_all_unused: "(\<And>old new. (old, new) \<in> set ps \<Longrightarrow> get v old = None) \<Longrightarrow> rename_all ps v = Inr v"
proof (induction ps)
  case (Cons p ps)
  obtain a b where p: "p = (a, b)" by force
  have "alias_field a b v = Inr v" using Cons.prems [of a b] by (intro alias_unused) (simp add: p)
  moreover have "rename_all ps v = Inr v" by (rule Cons.IH) (erule Cons.prems [OF list.set_intros(2)])
  ultimately show ?case by (simp add: p rename_all_simps)
qed (simp add: rename_all_simps)

lemma operation_names: "canonical_operation (stored_operation operation) = canonical_operation operation"
  "stored_operation (canonical_operation operation) = stored_operation operation"
  "canonical_operation (canonical_operation operation) = canonical_operation operation"
  by (auto simp: canonical_operation_def stored_operation_def)

text \<open>
  C24: the identity of a built-in call in the journal does not depend on the names its caller used, and is the one it
  had before the fields were renamed. An input that is accepted has a stored form, the input under the new names has
  the very same one, under either name of the operation, and storing it again keeps its canonical text. The
  stored form has every renamed field under its old name, whatever name it came with, none under a new name, and
  all other fields as they were; so an input that uses no new name is stored with its own canonical text.
\<close>

theorem stored_identity_of_renamed_input:
  assumes "fields_ok input" and "normalize_builtin_input operation input = Inr named"
  shows "\<exists>s. stored_builtin_input operation input = Inr s \<and> stored_builtin_input operation named = Inr s
    \<and> stored_builtin_input (stored_operation operation) input = Inr s
    \<and> (\<exists>s'. stored_builtin_input operation s = Inr s' \<and> write_canonical_json scalar s' = write_canonical_json scalar s)
    \<and> (\<forall>(old, new) \<in> set (owned_names operation).
          get s old = (case get input old of None \<Rightarrow> get input new | Some v \<Rightarrow> Some v) \<and> get s new = None)
    \<and> (\<forall>k. k \<notin> fst ` set (owned_names operation) \<union> snd ` set (owned_names operation) \<longrightarrow> get s k = get input k)
    \<and> ((\<forall>(old, new) \<in> set (owned_names operation). get input new = None) \<longrightarrow>
          write_canonical_json scalar s = write_canonical_json scalar input)"
proof -
  let ?ps = "owned_names operation"
  note ok = owned_names_ok [of operation]
  note at_pair = all_renamed_apply [OF ok] and round = all_renamed_there_and_back [OF ok]
  have n: "rename_all ?ps input = Inr named" using assms(2) by (simp add: normalize_as_renaming)
  note named = rename_all_Inr(1) [OF assms(1) ok n]
  have gone: "get named old = None" if "(old, new) \<in> set ?ps" for old new
    using at_pair(1) [OF that] named by simp
  have "unambiguous (undo ?ps) (get named)" using gone by (auto simp: unambiguous_def)
  then obtain s where s: "rename_all (undo ?ps) named = Inr s"
    using rename_all_Inr(2) [OF _ names_ok_undo [OF ok]] named by blast
  note stored = rename_all_Inr(1) [OF _ names_ok_undo [OF ok] s]
  have fs: "fields_ok s" "get s = all_renamed (undo ?ps) (all_renamed ?ps (get input))" "is_object s = is_object input"
      "\<not> is_object input \<longrightarrow> s = input"
    using stored named by auto
  have "unambiguous ?ps (get s)"
    using round(2) [of _ _ "get input"] fs(2) by (auto simp: unambiguous_def)
  then obtain n' where n': "rename_all ?ps s = Inr n'" using rename_all_Inr(2) [OF fs(1) ok] by blast
  note again = rename_all_Inr(1) [OF fs(1) ok n']
  have gn': "get n' = get named" using again named fs(2) round(1) by simp
  then have "unambiguous (undo ?ps) (get n')" using gone by (auto simp: unambiguous_def)
  then obtain s' where s': "rename_all (undo ?ps) n' = Inr s'"
    using rename_all_Inr(2) [OF _ names_ok_undo [OF ok]] again by blast
  note final = rename_all_Inr(1) [OF _ names_ok_undo [OF ok] s']
  have "write_canonical_json scalar s' = write_canonical_json scalar s"
  proof (rule same_fields_text)
    show "get s' = get s" using final again gn' stored named by simp
  qed (use final again fs in auto)
  moreover have "rename_all ?ps named = Inr named" using gone by (intro rename_all_unused) blast
  moreover have "owned_names (stored_operation operation) = ?ps" by (simp add: owned_names_def operation_names)
  moreover have old_name: "get s old = (case get input old of None \<Rightarrow> get input new | Some v \<Rightarrow> Some v)" "get s new = None"
    if "(old, new) \<in> set ?ps" for old new
  proof -
    have turned: "(new, old) \<in> set (undo ?ps)" using that by force
    note home = all_renamed_apply [OF names_ok_undo [OF ok]]
    show "get s new = None" using home(1) [OF turned] fs(2) by simp
    have "get s old = (case get named new of None \<Rightarrow> get named old | Some v \<Rightarrow> Some v)"
      using home(2) [OF turned] fs(2) named by (simp split: option.split)
    then show "get s old = (case get input old of None \<Rightarrow> get input new | Some v \<Rightarrow> Some v)"
      using at_pair(2) [OF that] named gone [OF that] by (auto split: option.splits)
  qed
  moreover have others: "get s k = get input k" if "k \<notin> fst ` set ?ps \<union> snd ` set ?ps" for k
  proof -
    have "k \<notin> set (map fst ?ps @ map snd ?ps)" "k \<notin> set (map fst (undo ?ps) @ map snd (undo ?ps))" using that by force+
    then show ?thesis using fs(2) all_renamed_apply(3) [OF ok] all_renamed_apply(3) [OF names_ok_undo [OF ok]] by simp
  qed
  moreover have "write_canonical_json scalar s = write_canonical_json scalar input"
    if "\<forall>(old, new) \<in> set ?ps. get input new = None"
  proof (rule same_fields_text)
    have "get s k = get input k" for k
    proof (cases "k \<in> fst ` set ?ps \<union> snd ` set ?ps")
      case True
      then obtain old new where pair: "(old, new) \<in> set ?ps" "k = old \<or> k = new" by force
      moreover have "get input new = None" using that pair(1) by blast
      ultimately show ?thesis using old_name [OF pair(1)] by (auto split: option.split)
    qed (rule others)
    then show "get s = get input" by (rule ext)
  qed (use fs assms(1) in auto)
  ultimately show ?thesis unfolding stored_as_renaming by (intro exI [of _ s]) (auto simp: n s n' s')
qed

lemma stored_identity_of_renamed_input_witness:
  "stored_builtin_input ''thread.read'' (Object [(''thread'', JString ''m''), (''threadId'', JString ''c'')]) =
   stored_builtin_input ''camp.read'' (Object [(''replyChain'', JString ''m''), (''threadId'', JString ''c'')])"
proof -
  let ?input = "Object [(''thread'', JString ''m''), (''threadId'', JString ''c'')]"
  have n: "normalize_builtin_input ''thread.read'' ?input = Inr (Object [(''threadId'', JString ''c''), (''replyChain'', JString ''m'')])"
    by code_simp
  have ok: "fields_ok ?input" by (simp add: fields_ok_def)
  have s: "stored_builtin_input ''thread.read'' ?input = Inr (Object [(''campId'', JString ''c''), (''thread'', JString ''m'')])"
    "stored_builtin_input ''camp.read'' (Object [(''replyChain'', JString ''m''), (''threadId'', JString ''c'')]) =
       Inr (Object [(''campId'', JString ''c''), (''thread'', JString ''m'')])"
    by code_simp+
  from stored_identity_of_renamed_input [OF ok n, of "\<lambda>_. []"] obtain t where
    "stored_builtin_input ''thread.read'' ?input = Inr t"
    "stored_builtin_input ''thread.read'' (Object [(''threadId'', JString ''c''), (''replyChain'', JString ''m'')]) = Inr t"
    by blast
  then show ?thesis using s by simp
qed

lemma find_by_key: "distinct (map f xs) \<Longrightarrow> find (\<lambda>y. f y = f x) xs = Some x \<longleftrightarrow> x \<in> set xs"
proof (induction xs)
  case (Cons y ys)
  show ?case
  proof (cases "f y = f x")
    case True
    with Cons.prems have "x \<notin> set ys" by (auto simp: image_iff)
    with True show ?thesis by auto
  next
    case False
    with Cons show ?thesis by auto
  qed
qed simp

lemma tool_table:
  "distinct (map tool_operation BUILTIN_TOOL_CLI_IDENTITIES)"
  "distinct (map (\<lambda>i. (tool_group i, tool_action i)) BUILTIN_TOOL_CLI_IDENTITIES)"
  "list_all (\<lambda>i. canonical_operation (tool_operation i) = tool_operation i \<and> tool_group i \<noteq> ''camp'') BUILTIN_TOOL_CLI_IDENTITIES"
  by code_simp+

text \<open>
  An operation has the same tool under its old and its new name, and every tool, and nothing
  else, is found by its operation and by its command.
\<close>

theorem builtin_tools_unambiguous:
  "builtin_tool_identity_by_operation (stored_operation operation) = builtin_tool_identity_by_operation operation
   \<and> (builtin_tool_identity_by_operation (tool_operation i) = Some i \<longleftrightarrow> i \<in> set BUILTIN_TOOL_CLI_IDENTITIES)
   \<and> (builtin_tool_identity_by_command (tool_group i) (tool_action i) = Some i \<longleftrightarrow> i \<in> set BUILTIN_TOOL_CLI_IDENTITIES)"
proof (intro conjI)
  show "builtin_tool_identity_by_operation (stored_operation operation) = builtin_tool_identity_by_operation operation"
    by (simp add: builtin_tool_identity_by_operation_def operation_names)
  have found: "x \<in> set xs" if "find P xs = Some x" for P and x and xs :: "BuiltinToolCliIdentity list"
    using that by (auto simp: find_Some_iff)
  have canonical: "canonical_operation (tool_operation i) = tool_operation i \<and> tool_group i \<noteq> ''camp''"
    if "i \<in> set BUILTIN_TOOL_CLI_IDENTITIES"
    using tool_table(3) that by (auto simp: list_all_iff)
  show "builtin_tool_identity_by_operation (tool_operation i) = Some i \<longleftrightarrow> i \<in> set BUILTIN_TOOL_CLI_IDENTITIES"
    using found canonical find_by_key [OF tool_table(1), of i] unfolding builtin_tool_identity_by_operation_def by metis
  show "builtin_tool_identity_by_command (tool_group i) (tool_action i) = Some i \<longleftrightarrow> i \<in> set BUILTIN_TOOL_CLI_IDENTITIES"
  proof
    assume "i \<in> set BUILTIN_TOOL_CLI_IDENTITIES"
    with canonical find_by_key [OF tool_table(2), of i]
    show "builtin_tool_identity_by_command (tool_group i) (tool_action i) = Some i"
      by (simp add: builtin_tool_identity_by_command_def)
  qed (auto simp: builtin_tool_identity_by_command_def dest: found)
qed

lemma str_replace_absent: "\<not> str_contains s pat \<Longrightarrow> str_replace pat by_text s = s"
proof (induction pat by_text s rule: str_replace.induct)
  case (1 pat by_text s)
  show ?case
  proof (cases s)
    case Nil
    then show ?thesis by (subst str_replace.simps) (auto simp: strip_prefix_def)
  next
    case (Cons c cs)
    with "1.prems" have "strip_prefix pat s = None" by (simp add: strip_prefix_def)
    moreover from this have "str_replace pat by_text cs = cs" if "pat \<noteq> []"
      using "1.IH" [OF that] "1.prems" Cons by simp
    ultimately show ?thesis using Cons by (subst str_replace.simps) simp
  qed
qed

text \<open>The name under which the host stores a method is read back from its public name.\<close>

theorem host_method_roundtrip:
  assumes "name = ''camp.'' @ rest \<or> name = ''camps.'' @ rest" and "\<not> str_contains rest ''Thread''"
  shows "stored_host_method (public_host_method name) = name"
proof -
  have public: "public_host_method (''camp.'' @ rest) = ''thread.'' @ rest" "public_host_method (''camps.'' @ rest) = ''threads.'' @ rest"
    by (simp_all add: public_host_method_def strip_prefix_def)
  have "\<not> str_contains (''thread.'' @ rest) ''Thread''" "\<not> str_contains (''threads.'' @ rest) ''Thread''"
    using assms(2) by simp_all
  then have "stored_host_method (''thread.'' @ rest) = ''camp.'' @ rest" "stored_host_method (''threads.'' @ rest) = ''camps.'' @ rest"
    by (simp_all add: stored_host_method_def str_replace_absent Let_def strip_prefix_def del: append.simps) (simp_all add: strip_prefix_def)
  with assms(1) public show ?thesis by auto
qed

lemma host_method_roundtrip_witness:
  "stored_host_method (public_host_method ''camps.list'') = ''camps.list''"
  using host_method_roundtrip [of "''camps.list''" "''list''"] by simp

end
