(* ===== verification/Activity_Mapping.thy ===== *)
theory Activity_Mapping
  imports Search_Safety Thread_Compat
begin

text \<open>
  The registry that maps reported events to kinds of activity, from
  \<^verbatim>\<open>crates/rovai-core/src/runtime_activity_mapping.rs\<close>: the versions of the classifier,
  one descriptor for each adapter, the classification itself, and the texts the first version showed.
  Text outside ASCII is written byte by byte.
\<close>

section \<open>The registry\<close>

definition LEGACY_CLASSIFIER_VERSION :: string where "LEGACY_CLASSIFIER_VERSION = ''activity-v1''"
definition INTERMEDIATE_CLASSIFIER_VERSION :: string where "INTERMEDIATE_CLASSIFIER_VERSION = ''activity-v2''"
definition PREVIOUS_CLASSIFIER_VERSION :: string where "PREVIOUS_CLASSIFIER_VERSION = ''activity-v3''"
definition V4_CLASSIFIER_VERSION :: string where "V4_CLASSIFIER_VERSION = ''activity-v4''"
definition CLASSIFIER_VERSION :: string where "CLASSIFIER_VERSION = ''activity-v5''"

lemmas classifier_versions = LEGACY_CLASSIFIER_VERSION_def INTERMEDIATE_CLASSIFIER_VERSION_def PREVIOUS_CLASSIFIER_VERSION_def
  V4_CLASSIFIER_VERSION_def CLASSIFIER_VERSION_def

record RuntimeActivityMappingDescriptor =
  descriptor_adapter_kind :: AdapterKind
  descriptor_protocol_family :: string
  baseline_coverage :: string
  registry_entry :: string

definition descriptor :: "AdapterKind \<Rightarrow> string \<Rightarrow> string \<Rightarrow> string \<Rightarrow> RuntimeActivityMappingDescriptor" where
  "descriptor adapter_kind protocol_family coverage entry =
     \<lparr>descriptor_adapter_kind = adapter_kind, descriptor_protocol_family = protocol_family, baseline_coverage = coverage,
      registry_entry = entry\<rparr>"

definition RUNTIME_ACTIVITY_MAPPINGS :: "RuntimeActivityMappingDescriptor list" where
  "RUNTIME_ACTIVITY_MAPPINGS =
     [descriptor CodexCli ''codex-app-server'' ''fine_grained'' ''codex'',
      descriptor Pi ''pi-jsonl-rpc-v1'' ''fine_grained'' ''pi'',
      descriptor ZcodeApp PROTOCOL ''fine_grained'' ''zcode'',
      descriptor OpencodeCli ''acp-v1'' ''fine_grained'' ''acp'',
      descriptor CopilotCli ''acp-v1'' ''fine_grained'' ''acp'',
      descriptor ClaudeCodeCli ''claude-stream-json'' ''fine_grained'' ''claude-code'',
      descriptor KiroCli ''acp-v1'' ''fine_grained'' ''acp'',
      descriptor QoderCli ''acp-v1'' ''fine_grained'' ''acp'',
      descriptor CodebuddyCli ''acp-v1'' ''fine_grained'' ''acp'',
      descriptor QwenCode ''acp-v1'' ''fine_grained'' ''acp'',
      descriptor TraeCnCli ''acp-v1'' ''fine_grained'' ''acp'',
      descriptor CursorAgent ''acp-v1'' ''run_level'' ''acp'',
      descriptor HermesCli ''acp-v1'' ''fine_grained'' ''acp'',
      descriptor MinimaxCodeCli ''acp-v1'' ''fine_grained'' ''acp'',
      descriptor KimiCodeCli ''acp-v1'' ''run_level'' ''acp'',
      descriptor GrokBuild ''acp-v1'' ''run_level'' ''acp'',
      descriptor ClineCli ''acp-v1'' ''run_level'' ''cline'',
      descriptor CommandCodeCli ''acp-v1'' ''run_level'' ''acp'',
      descriptor DeepseekHarness ''acp-v1'' ''fine_grained'' ''acp'',
      descriptor AntigravityApp ''antigravity-stream-json-or-text'' ''run_level'' ''antigravity'']"

text \<open>The code panics if there is none; \<open>registry_complete\<close> shows that there always is one.\<close>

definition descriptor_for :: "AdapterKind \<Rightarrow> RuntimeActivityMappingDescriptor option" where
  "descriptor_for adapter_kind = find (\<lambda>d. descriptor_adapter_kind d = adapter_kind) RUNTIME_ACTIVITY_MAPPINGS"

section \<open>Classification\<close>

definition structured_domain :: "string \<Rightarrow> string \<Rightarrow> string \<times> string option \<times> bool" where
  "structured_domain activity_domain semantic_kind = (activity_domain, Some semantic_kind, True)"

text \<open>The kinds that the type of a native item tells, the one that a runtime names, and the one of the evidence.\<close>

definition item_domain :: "string \<Rightarrow> (string \<times> string) option" where
  "item_domain item_type =
     (if item_type = ''commandExecution'' then Some (''shell'', ''shell.execute'')
      else if item_type = ''fileChange'' then Some (''file'', ''file.write'')
      else if item_type = ''webSearch'' then Some (''tool'', ''tool.web.search'')
      else if item_type = ''imageGeneration'' then Some (''tool'', ''tool.image.generate'')
      else if item_type = ''mcpToolCall'' then Some (''tool'', ''tool.mcp.call'')
      else if item_type \<in> {''dynamicToolCall'', ''collabToolCall'', ''collabAgentToolCall''} then Some (''tool'', ''tool.call'')
      else if item_type \<in> {''runtime'', ''run''} then Some (''runtime'', ''runtime.run'')
      else None)"

definition kind_domain :: "string \<Rightarrow> (string \<times> string) option" where
  "kind_domain runtime_kind =
     (if runtime_kind \<in> {''read'', ''read_file'', ''readfile''} then Some (''file'', ''file.read'')
      else if runtime_kind \<in> {''edit'', ''write'', ''write_file'', ''apply_patch''} then Some (''file'', ''file.write'')
      else if runtime_kind \<in> {''execute'', ''command'', ''terminal'', ''shell''} then Some (''shell'', ''shell.execute'')
      else if runtime_kind = ''file_search'' then Some (''file'', ''file.search'')
      else if runtime_kind = ''web_search'' then Some (''tool'', ''tool.web.search'')
      else if runtime_kind = ''search'' then Some (''tool'', ''tool.search'')
      else if runtime_kind \<in> {''mcp_tool_call'', ''tool''} then Some (''tool'', ''tool.call'')
      else if runtime_kind \<in> {''runtime'', ''run''} then Some (''runtime'', ''runtime.run'')
      else None)"

definition evidence_domain :: "string \<Rightarrow> string \<times> string option" where
  "evidence_domain evidence_kind =
     (if evidence_kind = ''command'' then (''shell'', Some ''shell.execute'')
      else if evidence_kind = ''file_change'' then (''file'', Some ''file.write'')
      else if evidence_kind \<in> {''tool_call'', ''tool_result''} then (''tool'', Some ''tool.call'')
      else if evidence_kind = ''runtime_activity'' then (''runtime'', Some ''runtime.run'')
      else (''unknown'', None))"

definition classify_with_structure_for_version :: "string \<Rightarrow> string \<Rightarrow> string \<Rightarrow> Value \<Rightarrow> string \<times> string option \<times> bool" where
  "classify_with_structure_for_version version item_type evidence_kind payload =
     (if version = CLASSIFIER_VERSION \<and> get_str payload ''runtimeToolType'' = Some ''agent'' then structured_domain ''tool'' ''tool.agent''
      else
        (case item_domain item_type of
           Some (d, k) \<Rightarrow> structured_domain d k
         | None \<Rightarrow>
             (let runtime_kind = to_ascii_lowercase (case get_str payload ''kind'' of None \<Rightarrow> [] | Some k \<Rightarrow> k) in
              if version = LEGACY_CLASSIFIER_VERSION \<and> runtime_kind \<in> {''search'', ''web_search'', ''file_search''}
              then structured_domain ''tool'' ''tool.web.search''
              else
                (case kind_domain runtime_kind of
                   Some (d, k) \<Rightarrow> structured_domain d k
                 | None \<Rightarrow> (let (d, k) = evidence_domain evidence_kind in (d, k, False))))))"

definition classify_with_structure :: "string \<Rightarrow> string \<Rightarrow> Value \<Rightarrow> string \<times> string option \<times> bool" where
  "classify_with_structure = classify_with_structure_for_version CLASSIFIER_VERSION"

definition classify :: "string \<Rightarrow> string \<Rightarrow> Value \<Rightarrow> string \<times> string option" where
  "classify item_type evidence_kind payload =
     (let (activity_domain, semantic_kind, _) = classify_with_structure item_type evidence_kind payload
      in (activity_domain, semantic_kind))"

section \<open>The texts of the first version\<close>

definition text_shell :: string where
  "text_shell = [CHR 0xE6, CHR 0x89, CHR 0xA7, CHR 0xE8, CHR 0xA1, CHR 0x8C] @ '' Shell '' @ [CHR 0xE5, CHR 0x91, CHR 0xBD, CHR 0xE4, CHR 0xBB, CHR 0xA4]"
definition text_read_file :: string where
  "text_read_file = [CHR 0xE8, CHR 0xAF, CHR 0xBB, CHR 0xE5, CHR 0x8F, CHR 0x96, CHR 0xE6, CHR 0x96, CHR 0x87, CHR 0xE4, CHR 0xBB, CHR 0xB6]"
definition text_change_file :: string where
  "text_change_file = [CHR 0xE4, CHR 0xBF, CHR 0xAE, CHR 0xE6, CHR 0x94, CHR 0xB9, CHR 0xE6, CHR 0x96, CHR 0x87, CHR 0xE4, CHR 0xBB, CHR 0xB6]"
definition text_web_search :: string where
  "text_web_search = ''Web '' @ [CHR 0xE6, CHR 0x90, CHR 0x9C, CHR 0xE7, CHR 0xB4, CHR 0xA2]"
definition text_tool :: string where
  "text_tool = ''Runtime '' @ [CHR 0xE5, CHR 0xB7, CHR 0xA5, CHR 0xE5, CHR 0x85, CHR 0xB7, CHR 0xE8, CHR 0xB0, CHR 0x83, CHR 0xE7, CHR 0x94, CHR 0xA8]"
definition text_running :: string where
  "text_running = ''Agent '' @ [CHR 0xE6, CHR 0xAD, CHR 0xA3, CHR 0xE5, CHR 0x9C, CHR 0xA8, CHR 0xE5, CHR 0xA4, CHR 0x84, CHR 0xE7, CHR 0x90, CHR 0x86]"
definition text_list_files :: string where
  "text_list_files = [CHR 0xE5, CHR 0x88, CHR 0x97, CHR 0xE5, CHR 0x87, CHR 0xBA, CHR 0xE6, CHR 0x96, CHR 0x87, CHR 0xE4, CHR 0xBB, CHR 0xB6]"
definition text_search_files :: string where
  "text_search_files = [CHR 0xE6, CHR 0x90, CHR 0x9C, CHR 0xE7, CHR 0xB4, CHR 0xA2, CHR 0xE9, CHR 0xA1, CHR 0xB9, CHR 0xE7, CHR 0x9B, CHR 0xAE, CHR 0xE6, CHR 0x96, CHR 0x87, CHR 0xE4, CHR 0xBB, CHR 0xB6]"
definition text_look_up_files :: string where
  "text_look_up_files = [CHR 0xE6, CHR 0xA3, CHR 0x80, CHR 0xE7, CHR 0xB4, CHR 0xA2, CHR 0xE9, CHR 0xA1, CHR 0xB9, CHR 0xE7, CHR 0x9B, CHR 0xAE, CHR 0xE6, CHR 0x96, CHR 0x87, CHR 0xE4, CHR 0xBB, CHR 0xB6]"
definition verb_read :: string where
  "verb_read = [CHR 0xE8, CHR 0xAF, CHR 0xBB, CHR 0xE5, CHR 0x8F, CHR 0x96]"
definition verb_add :: string where
  "verb_add = [CHR 0xE6, CHR 0x96, CHR 0xB0, CHR 0xE5, CHR 0xA2, CHR 0x9E]"
definition verb_delete :: string where
  "verb_delete = [CHR 0xE5, CHR 0x88, CHR 0xA0, CHR 0xE9, CHR 0x99, CHR 0xA4]"
definition verb_change :: string where
  "verb_change = [CHR 0xE4, CHR 0xBF, CHR 0xAE, CHR 0xE6, CHR 0x94, CHR 0xB9]"
definition text_file :: string where
  "text_file = [CHR 0xE6, CHR 0x96, CHR 0x87, CHR 0xE4, CHR 0xBB, CHR 0xB6]"
definition text_n_files :: string where
  "text_n_files = '' '' @ [CHR 0xE4, CHR 0xB8, CHR 0xAA, CHR 0xE6, CHR 0x96, CHR 0x87, CHR 0xE4, CHR 0xBB, CHR 0xB6]"
definition ellipsis :: string where
  "ellipsis = [CHR 0xE2, CHR 0x80, CHR 0xA6]"

definition legacy_v1_default_presentation_hint :: "string \<Rightarrow> string option \<Rightarrow> string option" where
  "legacy_v1_default_presentation_hint activity_domain semantic_kind =
     (if activity_domain = ''shell'' then Some text_shell
      else if activity_domain = ''file'' then Some (if semantic_kind = Some ''file.read'' then text_read_file else text_change_file)
      else if activity_domain = ''tool'' then Some (if semantic_kind = Some ''tool.web.search'' then text_web_search else text_tool)
      else if activity_domain = ''runtime'' then Some text_running
      else None)"

text \<open>
  Characters of a text in UTF-8: a character begins at each byte that does not continue one. Words are
  separated by white space.
\<close>

definition begins_char :: "char \<Rightarrow> bool" where
  "begins_char c = (\<not> (128 \<le> (of_char c :: nat) \<and> (of_char c :: nat) < 192))"

definition char_count :: "string \<Rightarrow> nat" where
  "char_count s = length (filter begins_char s)"

fun take_chars :: "nat \<Rightarrow> string \<Rightarrow> string" where
  "take_chars n [] = []"
| "take_chars n (c # s) =
     (if begins_char c then (case n of 0 \<Rightarrow> [] | Suc m \<Rightarrow> c # take_chars m s) else c # take_chars n s)"

function split_whitespace :: "string \<Rightarrow> string \<Rightarrow> string list" where
  "split_whitespace word s =
     (case s of
        [] \<Rightarrow> if word = [] then [] else [word]
      | c # cs \<Rightarrow>
          if leading_white s = 0 then split_whitespace (word @ [c]) cs
          else (if word = [] then [] else [word]) @ split_whitespace [] (drop (leading_white s) s))"
  by pat_completeness auto
termination
proof (relation "measure (\<lambda>(word, s). length s)")
  fix word s cs :: string and c
  assume s: "s = c # cs"
  show "((word @ [c], cs), word, s) \<in> measure (\<lambda>(word, s). length s)" by (simp add: s)
  assume "leading_white s \<noteq> 0"
  then show "(([], drop (leading_white s) s), word, s) \<in> measure (\<lambda>(word, s). length s)"
    using leading_white_le [of s] by (simp add: s diff_less)
qed simp

declare split_whitespace.simps [simp del]

definition is_separator :: "char \<Rightarrow> bool" where
  "is_separator c = (c = CHR ''/'' \<or> c = CHR 0x5C)"

definition MAX_CHARS :: nat where "MAX_CHARS = 56"

definition compact_path_label :: "string \<Rightarrow> string option" where
  "compact_path_label path =
     (let path = rev (dropWhile is_separator (rev (trim path)));
          leaf = trim (last (split_on is_separator path)) in
      if leaf = [] \<or> leaf = ''.'' \<or> leaf = ''..'' then None
      else
        (let flattened = join_with '' '' (split_whitespace [] leaf) in
         if char_count flattened \<le> MAX_CHARS then Some flattened else Some (take_chars MAX_CHARS flattened @ ellipsis)))"

definition command_actions_presentation_hint :: "Value \<Rightarrow> string option" where
  "command_actions_presentation_hint item =
     (case Option.bind (get item ''commandActions'') as_array of
        None \<Rightarrow> None
      | Some actions \<Rightarrow>
          if actions = [] then None
          else
            (case collect (\<lambda>action. get_str action ''type'') actions of
               None \<Rightarrow> None
             | Some kinds \<Rightarrow>
                 if list_ex (\<lambda>kind. kind \<notin> {''read'', ''listFiles'', ''search''}) kinds then None
                 else if list_all (\<lambda>kind. kind = ''read'') kinds then
                   (case remdups_adj (sort (List.map_filter (\<lambda>action. Option.bind (get_str action ''path'') compact_path_label) actions)) of
                      [path] \<Rightarrow> Some (verb_read @ '' '' @ path)
                    | [] \<Rightarrow> Some text_read_file
                    | paths \<Rightarrow> Some (verb_read @ '' '' @ dec (length paths) @ text_n_files))
                 else if list_all (\<lambda>kind. kind = ''listFiles'') kinds then Some text_list_files
                 else if list_all (\<lambda>kind. kind = ''search'') kinds then Some text_search_files
                 else Some text_look_up_files))"

definition file_changes_presentation_hint :: "Value \<Rightarrow> string option" where
  "file_changes_presentation_hint item =
     (case Option.bind (get item ''changes'') as_array of
        None \<Rightarrow> None
      | Some [] \<Rightarrow> None
      | Some [change] \<Rightarrow>
          (let path = Option.bind (get_str change ''path'') compact_path_label;
               kind = Option.bind (pointer change ''kind'' ''type'') as_str;
               verb = (if kind = Some ''add'' then verb_add else if kind = Some ''delete'' then verb_delete else verb_change)
           in Some (case path of None \<Rightarrow> verb @ text_file | Some path \<Rightarrow> verb @ '' '' @ path))
      | Some changes \<Rightarrow> Some (verb_change @ '' '' @ dec (length changes) @ text_n_files))"

definition legacy_v1_structured_presentation_hint :: "string \<Rightarrow> Value \<Rightarrow> string option" where
  "legacy_v1_structured_presentation_hint item_type item =
     (if item_type = ''commandExecution'' then command_actions_presentation_hint item
      else if item_type = ''fileChange'' then file_changes_presentation_hint item
      else None)"

definition legacy_v1_file_operation_presentation_hint :: "string \<Rightarrow> string option" where
  "legacy_v1_file_operation_presentation_hint path = map_option (\<lambda>path. verb_change @ '' '' @ path) (compact_path_label path)"

section \<open>Properties\<close>

text \<open>
  The registry has exactly one descriptor for each adapter, and the adapters that speak ACP are
  those whose events it reads as ACP, except Zcode, which has a protocol family of its own.
\<close>

theorem registry_complete:
  "\<exists>d. descriptor_for kind = Some d \<and> filter (\<lambda>d. descriptor_adapter_kind d = kind) RUNTIME_ACTIVITY_MAPPINGS = [d]
    \<and> (descriptor_protocol_family d = ''acp-v1'' \<longleftrightarrow> uses_acp kind \<and> kind \<noteq> ZcodeApp)"
  by (cases kind) (simp_all add: descriptor_for_def RUNTIME_ACTIVITY_MAPPINGS_def descriptor_def uses_acp_def PROTOCOL_def)

text \<open>
  C71: every kind of activity is one of its domain, an activity without a kind is unknown, and what a
  structured field tells is never unknown, whatever the version and the payload.
\<close>

definition kind_of_domain :: "string \<Rightarrow> string option \<Rightarrow> bool" where
  "kind_of_domain d k =
     (case k of None \<Rightarrow> d = ''unknown'' | Some k \<Rightarrow> d \<in> {''shell'', ''file'', ''tool'', ''runtime''} \<and> strip_prefix (d @ ''.'') k \<noteq> None)"

text \<open>A table is a chain of conditions, all of whose results have to be right.\<close>

definition right_entry :: "(string \<times> string) option \<Rightarrow> bool" where
  "right_entry r = pred_option (\<lambda>(d, k). kind_of_domain d (Some k)) r"

lemma right_entry_if: "right_entry x \<Longrightarrow> right_entry y \<Longrightarrow> right_entry (if c then x else y)"
  by simp

lemma right_entry_None: "right_entry None"
  by (simp add: right_entry_def)

lemma right_entry_Some: "kind_of_domain d (Some k) \<Longrightarrow> right_entry (Some (d, k))"
  by (simp add: right_entry_def)

lemma item_domain_kind: "right_entry (item_domain item_type)"
  unfolding item_domain_def
  by (intro right_entry_if right_entry_None right_entry_Some) (simp_all add: kind_of_domain_def strip_prefix_def)

lemma kind_domain_kind: "right_entry (kind_domain runtime_kind)"
  unfolding kind_domain_def
  by (intro right_entry_if right_entry_None right_entry_Some) (simp_all add: kind_of_domain_def strip_prefix_def)

lemma kind_of_domain_if:
  "case_prod kind_of_domain x \<Longrightarrow> case_prod kind_of_domain y \<Longrightarrow> case_prod kind_of_domain (if c then x else y)"
  by simp

lemma evidence_domain_kind: "case_prod kind_of_domain (evidence_domain evidence_kind)"
  unfolding evidence_domain_def
  by (intro kind_of_domain_if) (simp_all add: kind_of_domain_def strip_prefix_def)

lemma table_cases:
  assumes "c = (if a then p else case i of Some (d, k) \<Rightarrow> f d k
      | None \<Rightarrow> if s then q else case j of Some (d, k) \<Rightarrow> f d k | None \<Rightarrow> r)"
  obtains (first) "c = p" | (second) "c = q"
    | (item) d k where "i = Some (d, k)" "c = f d k" | (kind) d k where "j = Some (d, k)" "c = f d k"
    | (otherwise) "c = r"
  using assms by (cases a; cases i; cases s; cases j) auto

lemma classify_cases:
  assumes "\<And>d k. classify_with_structure_for_version version item_type evidence_kind payload = (d, Some k, True)
      \<Longrightarrow> kind_of_domain d (Some k) \<Longrightarrow> thesis"
    and "\<And>d k. classify_with_structure_for_version version item_type evidence_kind payload = (d, k, False)
      \<Longrightarrow> kind_of_domain d k \<Longrightarrow> thesis"
  shows thesis
proof -
  let ?c = "classify_with_structure_for_version version item_type evidence_kind payload"
  let ?kind = "to_ascii_lowercase (case get_str payload ''kind'' of None \<Rightarrow> [] | Some k \<Rightarrow> k)"
  let ?agent = "version = CLASSIFIER_VERSION \<and> get_str payload ''runtimeToolType'' = Some ''agent''"
  let ?search = "version = LEGACY_CLASSIFIER_VERSION \<and> ?kind \<in> {''search'', ''web_search'', ''file_search''}"
  have tool: "kind_of_domain ''tool'' (Some ''tool.agent'')" "kind_of_domain ''tool'' (Some ''tool.web.search'')"
    by (simp_all add: kind_of_domain_def strip_prefix_def)
  obtain ed ek where e: "evidence_domain evidence_kind = (ed, ek)" by (cases "evidence_domain evidence_kind")
  have c: "?c = (if ?agent then structured_domain ''tool'' ''tool.agent''
      else case item_domain item_type of
        Some (d, k) \<Rightarrow> structured_domain d k
      | None \<Rightarrow> if ?search then structured_domain ''tool'' ''tool.web.search''
          else case kind_domain ?kind of Some (d, k) \<Rightarrow> structured_domain d k | None \<Rightarrow> (ed, ek, False))"
    unfolding classify_with_structure_for_version_def Let_def e prod.case by (rule refl)
  show thesis
    using c
  proof (cases rule: table_cases)
    case first
    then show ?thesis using tool(1) by (intro assms(1)) (simp_all only: structured_domain_def)
  next
    case second
    then show ?thesis using tool(2) by (intro assms(1)) (simp_all only: structured_domain_def)
  next
    case (item d k)
    then show ?thesis
      using item_domain_kind [of item_type] by (intro assms(1) [of d k]) (simp_all add: structured_domain_def right_entry_def)
  next
    case (kind d k)
    then show ?thesis
      using kind_domain_kind [of ?kind] by (intro assms(1) [of d k]) (simp_all add: structured_domain_def right_entry_def)
  next
    case otherwise
    then show ?thesis using evidence_domain_kind [of evidence_kind] e by (intro assms(2) [of ed ek]) simp_all
  qed
qed

theorem kinds_belong_to_domains:
  "case classify_with_structure_for_version version item_type evidence_kind payload of (d, k, structured) \<Rightarrow>
     kind_of_domain d k \<and> \<not> (structured \<and> k = None)"
  by (rule classify_cases [of version item_type evidence_kind payload]) simp_all

text \<open>
  The versions of the classifier disagree on two things only, the tools that start agents and
  the runtime kinds \<open>search\<close> and \<open>file_search\<close>: everything else keeps its kind when history is
  classified again.
\<close>

theorem versions_keep_kinds:
  assumes "get_str payload ''runtimeToolType'' \<noteq> Some ''agent''"
    and "item_domain item_type \<noteq> None
      \<or> to_ascii_lowercase (case get_str payload ''kind'' of None \<Rightarrow> [] | Some k \<Rightarrow> k) \<notin> {''search'', ''file_search''}"
  shows "classify_with_structure_for_version v item_type evidence_kind payload =
    classify_with_structure_for_version w item_type evidence_kind payload"
proof (cases "item_domain item_type")
  case (Some dk)
  then show ?thesis using assms(1) by (simp add: classify_with_structure_for_version_def split: prod.split)
next
  case None
  let ?kind = "to_ascii_lowercase (case get_str payload ''kind'' of None \<Rightarrow> [] | Some k \<Rightarrow> k)"
  have k: "?kind \<notin> {''search'', ''file_search''}" using assms(2) None by blast
  have web: "kind_domain ''web_search'' = Some (''tool'', ''tool.web.search'')" by (simp add: kind_domain_def)
  have "classify_with_structure_for_version u item_type evidence_kind payload =
      (case kind_domain ?kind of Some (d, k) \<Rightarrow> structured_domain d k
       | None \<Rightarrow> (let (d, k) = evidence_domain evidence_kind in (d, k, False)))" for u
  proof (cases "?kind = ''web_search''")
    case True
    then show ?thesis
      using assms(1) None web
      by (cases "u = LEGACY_CLASSIFIER_VERSION") (simp_all only: classify_with_structure_for_version_def Let_def option.case, simp_all)
  next
    case False
    with k have "?kind \<notin> {''search'', ''web_search'', ''file_search''}" by blast
    then show ?thesis
      using assms(1) None by (simp only: classify_with_structure_for_version_def Let_def option.case simp_thms if_False)
  qed
  then show ?thesis by (simp only:)
qed

theorem versions_keep_kinds_witness:
  "classify_with_structure_for_version LEGACY_CLASSIFIER_VERSION [] ''tool_call'' (Object [(''kind'', JString ''execute'')]) =
    classify_with_structure_for_version CLASSIFIER_VERSION [] ''tool_call'' (Object [(''kind'', JString ''execute'')])"
proof (rule versions_keep_kinds)
  show "get_str (Object [(''kind'', JString ''execute'')]) ''runtimeToolType'' \<noteq> Some ''agent''"
    by code_simp
  show "item_domain [] \<noteq> None \<or> to_ascii_lowercase (case get_str (Object [(''kind'', JString ''execute'')]) ''kind'' of
      None \<Rightarrow> [] | Some k \<Rightarrow> k) \<notin> {''search'', ''file_search''}"
    by (simp add: get_str_def to_ascii_lowercase_def)
qed

section \<open>Labels of paths\<close>

lemma split_whitespace_set:
  "list_all (\<lambda>w. set w \<subseteq> set word \<union> set s) (split_whitespace word s)"
proof (induction word s rule: split_whitespace.induct)
  case (1 word s)
  show ?case
  proof (cases s)
    case Nil
    then show ?thesis by (simp add: split_whitespace.simps)
  next
    case (Cons c cs)
    show ?thesis
    proof (cases "leading_white s = 0")
      case True
      have "list_all (\<lambda>w. set w \<subseteq> set (word @ [c]) \<union> set cs) (split_whitespace (word @ [c]) cs)"
        using 1(1) [OF Cons True] .
      then show ?thesis using True Cons by (subst split_whitespace.simps) (simp add: Un_assoc insert_commute)
    next
      case False
      have "list_all (\<lambda>w. set w \<subseteq> set [] \<union> set (drop (leading_white s) s)) (split_whitespace [] (drop (leading_white s) s))"
        using 1(2) [OF Cons False] .
      moreover have "set (drop (leading_white s) s) \<subseteq> set s" by (rule set_drop_subset)
      ultimately have "list_all (\<lambda>w. set w \<subseteq> set word \<union> set s) (split_whitespace [] (drop (leading_white s) s))"
        by (fastforce simp: list_all_iff)
      then show ?thesis using False Cons by (subst split_whitespace.simps) auto
    qed
  qed
qed

lemma join_with_set: "list_all (\<lambda>w. set w \<subseteq> A) ws \<Longrightarrow> set sep \<subseteq> A \<Longrightarrow> set (join_with sep ws) \<subseteq> A"
  by (induction sep ws rule: join_with.induct) auto

lemma take_chars_set: "set (take_chars n s) \<subseteq> set s"
  by (induction n s rule: take_chars.induct) (auto split: nat.splits)

lemma take_chars_count: "char_count (take_chars n s) \<le> n"
  by (induction n s rule: take_chars.induct) (auto simp: char_count_def split: nat.splits)

lemma trim_start_set: "set (trim_start s) \<subseteq> set s"
proof (induction s rule: trim_start.induct)
  case (1 s)
  show ?case
  proof (cases "leading_white s = 0")
    case False
    then show ?thesis using 1 set_drop_subset [of "leading_white s" s] by (subst trim_start.simps) auto
  qed (subst trim_start.simps, simp)
qed

lemma trim_end_set: "set (trim_end s) \<subseteq> set s"
proof (induction s rule: trim_end.induct)
  case (1 s)
  show ?case
  proof (cases "trailing_white s = 0")
    case False
    then show ?thesis using 1 set_take_subset [of "length s - trailing_white s" s] by (subst trim_end.simps) auto
  qed (subst trim_end.simps, simp)
qed

lemma trim_set: "set (trim s) \<subseteq> set s"
  unfolding trim_def using trim_start_set trim_end_set by blast

text \<open>
  The label of a path is never longer than 57 characters and is no path itself, whatever the path is.
\<close>

theorem label_is_short:
  "case compact_path_label path of None \<Rightarrow> True
   | Some label \<Rightarrow> char_count label \<le> MAX_CHARS + 1 \<and> filter is_separator label = []"
proof -
  define stem where "stem = rev (dropWhile is_separator (rev (trim path)))"
  define leaf where "leaf = trim (last (split_on is_separator stem))"
  define flattened where "flattened = join_with '' '' (split_whitespace [] leaf)"
  let ?A = "{c. \<not> is_separator c}"
  have "split_on is_separator stem \<noteq> []" by (cases stem) (auto split: list.splits)
  with split_on_words [of is_separator stem] have "set (last (split_on is_separator stem)) \<subseteq> ?A"
    by (auto simp: list_all_iff dest!: last_in_set)
  then have leaf: "set leaf \<subseteq> ?A" unfolding leaf_def using trim_set by blast
  have sep: "set '' '' \<subseteq> ?A" "set ellipsis \<subseteq> ?A" by (simp_all add: is_separator_def ellipsis_def)
  have words: "list_all (\<lambda>w. set w \<subseteq> ?A) (split_whitespace [] leaf)"
    using split_whitespace_set [of "[]" leaf] leaf by (fastforce simp: list_all_iff)
  have flat: "set flattened \<subseteq> ?A" unfolding flattened_def by (rule join_with_set [OF words sep(1)])
  have kept: "set (take_chars MAX_CHARS flattened @ ellipsis) \<subseteq> ?A"
    using take_chars_set [of MAX_CHARS flattened] flat sep(2) by auto
  have one: "char_count ellipsis = 1" by (simp add: char_count_def ellipsis_def begins_char_def)
  have short: "char_count (take_chars MAX_CHARS flattened @ ellipsis) \<le> MAX_CHARS + 1"
    using take_chars_count [of MAX_CHARS flattened] one by (simp add: char_count_def)
  have none: "set label \<subseteq> ?A \<Longrightarrow> filter is_separator label = []" for label
    by (auto simp: filter_empty_conv)
  show ?thesis
    using short none [OF flat] none [OF kept]
    unfolding compact_path_label_def Let_def stem_def [symmetric] leaf_def [symmetric] flattened_def [symmetric]
    by (simp split: option.split)
qed

end
