(* ===== verification/Canonical_Activity.thy ===== *)
theory Canonical_Activity
  imports Activity_Mapping
begin

text \<open>
  The activities that are shown of a run, from \<^verbatim>\<open>crates/rovai-core/src/canonical_activity.rs\<close>:
  what one piece of evidence tells, and how the pieces about one operation are merged; and from
  \<^verbatim>\<open>execution_evidence.rs\<close> how they are recorded in the table of activities. The hash
  is the parameter \<open>sha256\<close>, its digest in hexadecimal.
\<close>

section \<open>Data\<close>

record CanonicalRuntimeActivity =
  activity_operation_id :: string
  activity_classifier_version :: string
  activity_domain :: string
  activity_semantic_kind :: "string option"
  activity_tool_name :: "string option"
  activity_presentation_hint :: "string option"
  activity_diff_projection :: "CommandDiffProjection option"
  activity_phase :: string
  activity_outcome :: string
  activity_credibility :: string
  activity_coverage_level :: string
  activity_source_authority :: string
  activity_source_evidence_ids :: "string list"
  first_evidence_sequence :: int
  last_evidence_sequence :: int
  activity_revision :: "64 word"

record EvidenceActivityFacts =
  facts_is_activity :: bool
  facts_operation_id :: string
  facts_identity_authority :: string
  facts_domain :: string
  facts_semantic_kind :: "string option"
  classification_is_structured :: bool
  facts_tool_name :: "string option"
  facts_presentation_hint :: "string option"
  presentation_hint_is_explicit :: bool
  facts_diff_projection :: "CommandDiffProjection option"
  facts_phase :: string
  facts_outcome :: string
  facts_credibility :: string
  facts_coverage_level :: string
  facts_source_authority :: string

definition RUNTIME_COMPACTION_DISPLAY_EVENT :: string where
  "RUNTIME_COMPACTION_DISPLAY_EVENT = ''runtime.compaction.display''"

section \<open>What evidence tells\<close>

definition dec_int :: "int \<Rightarrow> string" where
  "dec_int n = (if n < 0 then CHR ''-'' # dec (nat (- n)) else dec (nat n))"

definition or_else :: "'a option \<Rightarrow> 'a option \<Rightarrow> 'a option" where
  "or_else x y = (case x of None \<Rightarrow> y | Some a \<Rightarrow> Some a)"

definition is_pi_edit_diff_evidence :: "Value \<Rightarrow> bool" where
  "is_pi_edit_diff_evidence payload =
     (let metadata = (\<lambda>k. Option.bind (pointer payload ''runtimeDiff'' ''sourceMetadata'') (\<lambda>m. get_str m k)) in
      metadata ''adapterKind'' = Some ''pi'' \<and> metadata ''protocolFamily'' = Some ''pi-jsonl-rpc-v1''
      \<and> metadata ''sourceEventKind'' = Some ''tool_execution_end.completed''
      \<and> Option.bind (pointer payload ''runtimeDiff'' ''semanticKind'') as_str = Some ''unified_diff_snapshot'')"

definition canonical_phase :: "string \<Rightarrow> string \<Rightarrow> Value \<Rightarrow> string" where
  "canonical_phase event_type phase payload =
     (if event_type = ''activity.started'' \<or> phase = ''started'' then ''started''
      else if event_type = ''activity.completed'' \<or> phase \<in> {''completed'', ''failed''} then ''terminal''
      else if (case get_str payload ''status'' of None \<Rightarrow> False
          | Some status \<Rightarrow> status \<in> {''completed'', ''succeeded'', ''failed'', ''declined'', ''cancelled'', ''error''})
      then ''terminal''
      else ''progress'')"

definition outcome_of_status :: "string \<Rightarrow> string option" where
  "outcome_of_status status =
     (if status \<in> {''succeeded'', ''completed'', ''success''} then Some ''succeeded''
      else if status \<in> {''failed'', ''error''} then Some ''failed''
      else if status \<in> {''declined'', ''denied''} then Some ''denied''
      else if status \<in> {''cancelled'', ''canceled''} then Some ''cancelled''
      else if status = ''not_executed'' then Some ''not_executed''
      else None)"

definition canonical_outcome :: "string \<Rightarrow> Value \<Rightarrow> string" where
  "canonical_outcome phase payload =
     (case Option.bind (or_else (get_str payload ''status'') (Option.bind (pointer payload ''item'' ''status'') as_str)) outcome_of_status of
        Some outcome \<Rightarrow> outcome
      | None \<Rightarrow> if phase = ''terminal'' then ''unsettled'' else ''unknown'')"

definition is_settled_outcome :: "string \<Rightarrow> bool" where
  "is_settled_outcome outcome = (outcome \<in> {''succeeded'', ''failed'', ''denied'', ''cancelled'', ''not_executed''})"

definition credibility_rank :: "string \<Rightarrow> nat" where
  "credibility_rank credibility =
     (if credibility = ''core_verified'' then 3 else if credibility = ''runtime_structured'' then 2
      else if credibility = ''runtime_reported'' then 1 else 0)"

definition stable_operation_id :: "(string \<Rightarrow> string) \<Rightarrow> string \<Rightarrow> int \<Rightarrow> string \<Rightarrow> string" where
  "stable_operation_id sha256 agent_run_id execution_epoch name =
     ''operation:sha256:'' @ sha256 (agent_run_id @ ''|'' @ dec_int execution_epoch @ ''|'' @ name)"

definition evidence_is_activity :: "string \<Rightarrow> string \<Rightarrow> bool" where
  "evidence_is_activity event_type kind =
     (kind \<notin> {''reasoning_summary'', ''narration'', ''plan''}
      \<and> event_type \<notin> {''agent.reasoning.summary.delta'', ''agent.thought.delta'', ''agent.text.delta'', ''runtime.plan'',
          ''runtime.plan.delta'', ''runtime.diagnostic'', ''runtime.fast.observed'', ''runtime.file_changes.snapshot'',
          RUNTIME_COMPACTION_DISPLAY_EVENT})"

definition item_of :: "Value \<Rightarrow> Value" where
  "item_of payload = (case get payload ''item'' of None \<Rightarrow> Null | Some item \<Rightarrow> item)"

definition validated_core_tool :: "Value \<Rightarrow> string option" where
  "validated_core_tool payload =
     (if get_str payload ''sourceAuthority'' = Some ''core''
      then map_option tool_operation (Option.bind (get_str payload ''canonicalTool'') builtin_tool_identity_by_operation)
      else None)"

definition runtime_tool_name :: "Value \<Rightarrow> string option" where
  "runtime_tool_name payload =
     (let item = item_of payload in
      or_else (get_str payload ''toolName'') (or_else (get_str item ''toolName'')
        (or_else
          (case (get_str item ''server'', or_else (get_str item ''tool'') (get_str item ''name'')) of
             (Some server, Some tool) \<Rightarrow> Some (server @ ''/'' @ tool)
           | _ \<Rightarrow> None)
          (get_str item ''tool''))))"

text \<open>The identity that evidence names, and who vouches for it.\<close>

definition core_identity :: "Value \<Rightarrow> string option" where
  "core_identity payload = (if get_str payload ''sourceAuthority'' = Some ''core'' then get_str payload ''coreActionId'' else None)"

definition stable_identity :: "Value \<Rightarrow> string option" where
  "stable_identity payload =
     or_else (core_identity payload) (or_else (get_str payload ''operationId'') (or_else (get_str payload ''toolCallId'')
       (or_else (get_str payload ''itemId'') (get_str (item_of payload) ''id''))))"

definition activity_identity :: "Value \<Rightarrow> string \<Rightarrow> string" where
  "activity_identity payload evidence_id = (case stable_identity payload of None \<Rightarrow> ''evidence:'' @ evidence_id | Some i \<Rightarrow> i)"

text \<open>The kind of the activity: the registry's, unless a stored file operation or diff tells that it is about a file.\<close>

definition evidence_diff :: "string \<Rightarrow> Value \<Rightarrow> string \<Rightarrow> CommandDiffProjection option" where
  "evidence_diff classifier_version payload evidence_id =
     (if classifier_version \<in> {CLASSIFIER_VERSION, V4_CLASSIFIER_VERSION} \<or> \<not> is_pi_edit_diff_evidence payload
      then projection_from_evidence payload evidence_id else None)"

definition evidence_classification :: "string \<Rightarrow> string \<Rightarrow> string \<Rightarrow> Value \<Rightarrow> string \<times> string option \<times> bool" where
  "evidence_classification classifier_version evidence_id kind payload =
     (let item_type = (case get_str (item_of payload) ''type'' of None \<Rightarrow> [] | Some t \<Rightarrow> t);
          (domain, semantic_kind, structured) = classify_with_structure_for_version classifier_version item_type kind payload;
          file_operation = operation_from_evidence payload;
          diff_projection = evidence_diff classifier_version payload evidence_id;
          (domain, semantic_kind) =
            (if classifier_version \<in> {CLASSIFIER_VERSION, V4_CLASSIFIER_VERSION, PREVIOUS_CLASSIFIER_VERSION}
               \<and> map_option operation_kind file_operation = Some ''read''
             then (''file'', Some ''file.read'')
             else if path_from_evidence payload \<noteq> None \<or> map_option projection_status diff_projection = Some ''available''
             then (''file'', Some ''file.write'')
             else (domain, semantic_kind))
      in (domain, semantic_kind,
          structured \<or> validated_core_tool payload \<noteq> None \<or> file_operation \<noteq> None \<or> diff_projection \<noteq> None))"

definition observed_presentation_hint :: "string \<Rightarrow> Value \<Rightarrow> string option" where
  "observed_presentation_hint classifier_version payload =
     (let item = item_of payload;
          item_type = (case get_str item ''type'' of None \<Rightarrow> [] | Some t \<Rightarrow> t);
          runtime_presentation_hint = or_else (get_str payload ''title'') (get_str item ''title'') in
      if classifier_version = LEGACY_CLASSIFIER_VERSION
      then or_else (Option.bind (path_from_evidence payload) legacy_v1_file_operation_presentation_hint)
             (or_else runtime_presentation_hint (legacy_v1_structured_presentation_hint item_type item))
      else runtime_presentation_hint)"

definition evidence_credibility :: "Value \<Rightarrow> string" where
  "evidence_credibility payload =
     (let item_type = (case get_str (item_of payload) ''type'' of None \<Rightarrow> [] | Some t \<Rightarrow> t) in
      if validated_core_tool payload \<noteq> None then ''core_verified''
      else if runtime_tool_name payload \<noteq> None \<or> item_type \<noteq> [] \<or> get_str payload ''kind'' \<noteq> None then ''runtime_structured''
      else ''runtime_reported'')"

definition classify_evidence_with_version ::
    "(string \<Rightarrow> string) \<Rightarrow> string \<Rightarrow> string \<Rightarrow> int \<Rightarrow> string \<Rightarrow> string \<Rightarrow> string \<Rightarrow> string \<Rightarrow> Value \<Rightarrow> EvidenceActivityFacts" where
  "classify_evidence_with_version sha256 classifier_version agent_run_id execution_epoch evidence_id event_type kind phase payload =
     (let (domain, semantic_kind, structured) = evidence_classification classifier_version evidence_id kind payload;
          phase = canonical_phase event_type phase payload;
          observed = observed_presentation_hint classifier_version payload in
      \<lparr>facts_is_activity = evidence_is_activity event_type kind,
       facts_operation_id = stable_operation_id sha256 agent_run_id execution_epoch (activity_identity payload evidence_id),
       facts_identity_authority =
         (if core_identity payload \<noteq> None then ''core'' else if stable_identity payload \<noteq> None then ''runtime'' else ''evidence''),
       facts_domain = domain, facts_semantic_kind = semantic_kind, classification_is_structured = structured,
       facts_tool_name = or_else (validated_core_tool payload) (runtime_tool_name payload),
       facts_presentation_hint =
         (if classifier_version = LEGACY_CLASSIFIER_VERSION
          then or_else observed (legacy_v1_default_presentation_hint domain semantic_kind) else observed),
       presentation_hint_is_explicit = observed \<noteq> None,
       facts_diff_projection = evidence_diff classifier_version payload evidence_id,
       facts_phase = phase, facts_outcome = canonical_outcome phase payload,
       facts_credibility = evidence_credibility payload,
       facts_coverage_level =
         (if domain = ''runtime'' then ''run_level'' else if domain = ''unknown'' then ''unknown'' else ''fine_grained''),
       facts_source_authority = (case get_str payload ''sourceAuthority'' of None \<Rightarrow> ''runtime'' | Some a \<Rightarrow> a)\<rparr>)"

definition classify_evidence ::
    "(string \<Rightarrow> string) \<Rightarrow> string \<Rightarrow> int \<Rightarrow> string \<Rightarrow> string \<Rightarrow> string \<Rightarrow> string \<Rightarrow> Value \<Rightarrow> EvidenceActivityFacts" where
  "classify_evidence sha256 = classify_evidence_with_version sha256 CLASSIFIER_VERSION"

section \<open>Merging what is told about one operation\<close>

definition new_projection_for_version :: "EvidenceActivityFacts \<Rightarrow> string \<Rightarrow> string \<Rightarrow> int \<Rightarrow> CanonicalRuntimeActivity option" where
  "new_projection_for_version f classifier_version evidence_id sequence =
     (if facts_is_activity f
      then Some
        \<lparr>activity_operation_id = facts_operation_id f, activity_classifier_version = classifier_version,
         activity_domain = facts_domain f, activity_semantic_kind = facts_semantic_kind f,
         activity_tool_name = facts_tool_name f, activity_presentation_hint = facts_presentation_hint f,
         activity_diff_projection = facts_diff_projection f, activity_phase = facts_phase f,
         activity_outcome = facts_outcome f, activity_credibility = facts_credibility f,
         activity_coverage_level = facts_coverage_level f, activity_source_authority = facts_source_authority f,
         activity_source_evidence_ids = [evidence_id], first_evidence_sequence = sequence,
         last_evidence_sequence = sequence, activity_revision = 1\<rparr>
      else None)"

definition new_projection :: "EvidenceActivityFacts \<Rightarrow> string \<Rightarrow> int \<Rightarrow> CanonicalRuntimeActivity option" where
  "new_projection f = new_projection_for_version f CLASSIFIER_VERSION"

definition merged_outcome :: "CanonicalRuntimeActivity \<Rightarrow> EvidenceActivityFacts \<Rightarrow> string" where
  "merged_outcome p f =
     (if activity_phase p = ''terminal'' \<and> facts_phase f = ''terminal'' \<and> is_settled_outcome (activity_outcome p)
        \<and> is_settled_outcome (facts_outcome f) \<and> activity_outcome p \<noteq> facts_outcome f then ''unsettled''
      else if facts_outcome f \<noteq> ''unknown'' then facts_outcome f
      else activity_outcome p)"

definition replace_classification :: "CanonicalRuntimeActivity \<Rightarrow> EvidenceActivityFacts \<Rightarrow> bool" where
  "replace_classification p f =
     ((classification_is_structured f \<or> activity_domain p = ''unknown'' \<and> facts_domain f \<noteq> ''unknown'')
      \<and> credibility_rank (activity_credibility p) \<le> credibility_rank (facts_credibility f))"

definition prior_default_presentation_hint :: "CanonicalRuntimeActivity \<Rightarrow> string option" where
  "prior_default_presentation_hint p =
     (if activity_classifier_version p = LEGACY_CLASSIFIER_VERSION
      then legacy_v1_default_presentation_hint (activity_domain p) (activity_semantic_kind p) else None)"

definition merge_activity :: "CanonicalRuntimeActivity \<Rightarrow> EvidenceActivityFacts \<Rightarrow> string \<Rightarrow> int \<Rightarrow> CanonicalRuntimeActivity" where
  "merge_activity p f evidence_id sequence =
     (let prior_rank = credibility_rank (activity_credibility p);
          incoming_rank = credibility_rank (facts_credibility f) in
      p\<lparr>activity_diff_projection :=
          (case facts_diff_projection f of None \<Rightarrow> activity_diff_projection p
           | Some incoming \<Rightarrow> Some (merge_projection (activity_diff_projection p) incoming)),
        activity_outcome := merged_outcome p f,
        activity_phase := (if facts_phase f = ''terminal'' \<or> facts_phase f = ''progress'' then facts_phase f else activity_phase p),
        activity_domain := (if replace_classification p f then facts_domain f else activity_domain p),
        activity_semantic_kind := (if replace_classification p f then facts_semantic_kind f else activity_semantic_kind p),
        activity_tool_name :=
          (if facts_tool_name f \<noteq> None \<and> prior_rank \<le> incoming_rank then facts_tool_name f else activity_tool_name p),
        activity_presentation_hint :=
          (if presentation_hint_is_explicit f \<or> activity_presentation_hint p = None
             \<or> replace_classification p f \<and> activity_presentation_hint p = prior_default_presentation_hint p
           then facts_presentation_hint f else activity_presentation_hint p),
        activity_credibility := (if prior_rank < incoming_rank then facts_credibility f else activity_credibility p),
        activity_coverage_level :=
          (if activity_coverage_level p = ''unknown'' then facts_coverage_level f else activity_coverage_level p),
        activity_source_authority :=
          (if activity_source_authority p \<noteq> ''core'' then facts_source_authority f else activity_source_authority p),
        activity_source_evidence_ids :=
          (if evidence_id \<in> set (activity_source_evidence_ids p) then activity_source_evidence_ids p
           else activity_source_evidence_ids p @ [evidence_id]),
        last_evidence_sequence := sequence,
        activity_revision := activity_revision p + 1\<rparr>)"

section \<open>The table of activities\<close>

text \<open>A row of \<open>canonical_runtime_activity\<close>; its key is the run, the epoch, the operation and the version.\<close>

record ActivityRow =
  row_run :: string
  row_epoch :: int
  row_activity :: CanonicalRuntimeActivity
  row_started_at :: "string option"
  row_terminal_at :: "string option"

record RecordedEvidence =
  evidence_id :: string
  evidence_sequence :: int
  evidence_occurred_at :: string
  evidence_event_type :: string
  evidence_kind :: string
  evidence_phase :: string
  evidence_payload :: Value

text \<open>The versions in the order in which an existing row is looked for.\<close>

definition version_preference :: "string list" where
  "version_preference =
     [CLASSIFIER_VERSION, V4_CLASSIFIER_VERSION, PREVIOUS_CLASSIFIER_VERSION, INTERMEDIATE_CLASSIFIER_VERSION,
      LEGACY_CLASSIFIER_VERSION]"

definition row_has_key :: "string \<Rightarrow> int \<Rightarrow> string \<Rightarrow> string \<Rightarrow> ActivityRow \<Rightarrow> bool" where
  "row_has_key agent_run_id execution_epoch operation_id version r =
     (row_run r = agent_run_id \<and> row_epoch r = execution_epoch \<and> activity_operation_id (row_activity r) = operation_id
      \<and> activity_classifier_version (row_activity r) = version)"

fun find_in_versions :: "string \<Rightarrow> int \<Rightarrow> string \<Rightarrow> string list \<Rightarrow> ActivityRow list \<Rightarrow> ActivityRow option" where
  "find_in_versions agent_run_id execution_epoch operation_id [] rows = None"
| "find_in_versions agent_run_id execution_epoch operation_id (v # vs) rows =
     (case find (row_has_key agent_run_id execution_epoch operation_id v) rows of
        Some r \<Rightarrow> Some r
      | None \<Rightarrow> find_in_versions agent_run_id execution_epoch operation_id vs rows)"

definition existing_row :: "string \<Rightarrow> int \<Rightarrow> string \<Rightarrow> ActivityRow list \<Rightarrow> ActivityRow option" where
  "existing_row agent_run_id execution_epoch operation_id rows =
     find_in_versions agent_run_id execution_epoch operation_id version_preference rows"

text \<open>\<open>INSERT ... ON CONFLICT ... DO UPDATE\<close>: the first start and the last end are kept.\<close>

fun upsert_row :: "ActivityRow \<Rightarrow> ActivityRow list \<Rightarrow> ActivityRow list" where
  "upsert_row new [] = [new]"
| "upsert_row new (r # rows) =
     (if row_has_key (row_run new) (row_epoch new) (activity_operation_id (row_activity new))
          (activity_classifier_version (row_activity new)) r
      then r\<lparr>row_activity := (row_activity new)\<lparr>first_evidence_sequence := first_evidence_sequence (row_activity r)\<rparr>,
             row_started_at := or_else (row_started_at r) (row_started_at new),
             row_terminal_at := or_else (row_terminal_at new) (row_terminal_at r)\<rparr> # rows
      else r # upsert_row new rows)"

text \<open>The classifications of one piece of evidence are a function of the version.\<close>

definition upsert_canonical_activity ::
    "string \<Rightarrow> int \<Rightarrow> int \<Rightarrow> string \<Rightarrow> string \<Rightarrow> (string \<Rightarrow> EvidenceActivityFacts) \<Rightarrow> ActivityRow list \<Rightarrow> ActivityRow list" where
  "upsert_canonical_activity agent_run_id execution_epoch sequence source occurred_at classifications rows =
     (let f = classifications CLASSIFIER_VERSION in
      if \<not> facts_is_activity f then rows
      else
        (let existing = existing_row agent_run_id execution_epoch (facts_operation_id f) rows;
             selected = (case existing of
                None \<Rightarrow> f
              | Some r \<Rightarrow>
                  (let v = activity_classifier_version (row_activity r) in
                   if v \<in> {V4_CLASSIFIER_VERSION, PREVIOUS_CLASSIFIER_VERSION, INTERMEDIATE_CLASSIFIER_VERSION, LEGACY_CLASSIFIER_VERSION}
                   then classifications v else f));
             projection = (case existing of
                Some r \<Rightarrow> Some (merge_activity (row_activity r) selected source sequence)
              | None \<Rightarrow> new_projection_for_version selected CLASSIFIER_VERSION source sequence) in
         case projection of
           None \<Rightarrow> rows
         | Some p \<Rightarrow>
             upsert_row \<lparr>row_run = agent_run_id, row_epoch = execution_epoch, row_activity = p,
                 row_started_at = (if facts_phase f = ''started'' then Some occurred_at else None),
                 row_terminal_at = (if facts_phase f = ''terminal'' then Some occurred_at else None)\<rparr> rows))"

definition facts_of :: "(string \<Rightarrow> string) \<Rightarrow> string \<Rightarrow> int \<Rightarrow> RecordedEvidence \<Rightarrow> string \<Rightarrow> EvidenceActivityFacts" where
  "facts_of sha256 agent_run_id execution_epoch e version =
     classify_evidence_with_version sha256 version agent_run_id execution_epoch (evidence_id e) (evidence_event_type e)
       (evidence_kind e) (evidence_phase e) (evidence_payload e)"

definition record_activity :: "(string \<Rightarrow> string) \<Rightarrow> string \<Rightarrow> int \<Rightarrow> RecordedEvidence \<Rightarrow> ActivityRow list \<Rightarrow> ActivityRow list" where
  "record_activity sha256 agent_run_id execution_epoch e rows =
     upsert_canonical_activity agent_run_id execution_epoch (evidence_sequence e) (evidence_id e) (evidence_occurred_at e)
       (facts_of sha256 agent_run_id execution_epoch e) rows"

text \<open>
  Filling in the diff of a summary from the payload it came from: only a summary that is available, and
  only by a projection of the same kind.
\<close>

definition hydrate_operation_diff :: "CanonicalRuntimeActivity \<Rightarrow> Value \<Rightarrow> string \<Rightarrow> CanonicalRuntimeActivity" where
  "hydrate_operation_diff a payload source =
     (case activity_diff_projection a of
        None \<Rightarrow> a
      | Some summary \<Rightarrow>
          if projection_status summary \<noteq> ''available'' then a
          else
            (case projection_from_evidence payload source of
               None \<Rightarrow> a
             | Some full \<Rightarrow>
                 if projection_status full = ''available'' \<and> projection_kind full = projection_kind summary
                 then a\<lparr>activity_diff_projection := Some (summary\<lparr>projection_entries := projection_entries full\<rparr>)\<rparr>
                 else a))"

end
