(* ===== verification/Activity_Safety.thy ===== *)
theory Activity_Safety
  imports Canonical_Activity
begin

text \<open>
  What the table of activities holds: for each operation, the history of its own evidence, whatever
  else was recorded in between.
\<close>

section \<open>Histories\<close>

definition merge_evidence :: "(RecordedEvidence \<Rightarrow> EvidenceActivityFacts) \<Rightarrow> RecordedEvidence \<Rightarrow> CanonicalRuntimeActivity \<Rightarrow> CanonicalRuntimeActivity" where
  "merge_evidence facts e a = merge_activity a (facts e) (evidence_id e) (evidence_sequence e)"

definition first_activity :: "EvidenceActivityFacts \<Rightarrow> RecordedEvidence \<Rightarrow> CanonicalRuntimeActivity" where
  "first_activity f e = the (new_projection (f\<lparr>facts_is_activity := True\<rparr>) (evidence_id e) (evidence_sequence e))"

text \<open>The history of an operation: its first evidence, and the others merged in the order of recording.\<close>

fun activity_history :: "(RecordedEvidence \<Rightarrow> EvidenceActivityFacts) \<Rightarrow> RecordedEvidence list \<Rightarrow> CanonicalRuntimeActivity option" where
  "activity_history facts [] = None"
| "activity_history facts (e # es) = Some (fold (merge_evidence facts) es (first_activity (facts e) e))"

definition started_time :: "(RecordedEvidence \<Rightarrow> EvidenceActivityFacts) \<Rightarrow> RecordedEvidence list \<Rightarrow> string option" where
  "started_time facts es = map_option evidence_occurred_at (find (\<lambda>e. facts_phase (facts e) = ''started'') es)"

definition terminal_time :: "(RecordedEvidence \<Rightarrow> EvidenceActivityFacts) \<Rightarrow> RecordedEvidence list \<Rightarrow> string option" where
  "terminal_time facts es = map_option evidence_occurred_at (find (\<lambda>e. facts_phase (facts e) = ''terminal'') (rev es))"

definition own_evidence :: "(RecordedEvidence \<Rightarrow> EvidenceActivityFacts) \<Rightarrow> string \<Rightarrow> RecordedEvidence list \<Rightarrow> RecordedEvidence list" where
  "own_evidence facts operation_id es = filter (\<lambda>e. facts_is_activity (facts e) \<and> facts_operation_id (facts e) = operation_id) es"

definition current_facts :: "(string \<Rightarrow> string) \<Rightarrow> string \<Rightarrow> int \<Rightarrow> RecordedEvidence \<Rightarrow> EvidenceActivityFacts" where
  "current_facts sha256 agent_run_id execution_epoch e = facts_of sha256 agent_run_id execution_epoch e CLASSIFIER_VERSION"

lemma activity_history_snoc:
  "activity_history facts (es @ [e]) =
    Some (case activity_history facts es of None \<Rightarrow> first_activity (facts e) e | Some a \<Rightarrow> merge_evidence facts e a)"
  by (cases es) simp_all

lemma merge_activity_kept [simp]:
  "activity_operation_id (merge_activity a f i n) = activity_operation_id a"
  "activity_classifier_version (merge_activity a f i n) = activity_classifier_version a"
  "first_evidence_sequence (merge_activity a f i n) = first_evidence_sequence a"
  "last_evidence_sequence (merge_activity a f i n) = n"
  "activity_revision (merge_activity a f i n) = activity_revision a + 1"
  by (simp_all add: merge_activity_def Let_def)

section \<open>Rows\<close>

definition current_rows :: "ActivityRow list \<Rightarrow> bool" where
  "current_rows rows = list_all (\<lambda>r. activity_classifier_version (row_activity r) = CLASSIFIER_VERSION) rows"

lemma existing_row_current:
  assumes "current_rows rows"
  shows "existing_row run epoch oid rows = find (row_has_key run epoch oid CLASSIFIER_VERSION) rows"
proof -
  have none: "find (row_has_key run epoch oid v) rows = None" if "v \<noteq> CLASSIFIER_VERSION" for v
    using assms that by (auto simp: find_None_iff current_rows_def list_all_iff row_has_key_def)
  have "V4_CLASSIFIER_VERSION \<noteq> CLASSIFIER_VERSION" "PREVIOUS_CLASSIFIER_VERSION \<noteq> CLASSIFIER_VERSION"
    "INTERMEDIATE_CLASSIFIER_VERSION \<noteq> CLASSIFIER_VERSION" "LEGACY_CLASSIFIER_VERSION \<noteq> CLASSIFIER_VERSION"
    by (simp_all add: classifier_versions)
  then show ?thesis
    by (simp add: existing_row_def version_preference_def none split: option.split)
qed

definition has_new_key :: "ActivityRow \<Rightarrow> ActivityRow \<Rightarrow> bool" where
  "has_new_key new = row_has_key (row_run new) (row_epoch new) (activity_operation_id (row_activity new))
     (activity_classifier_version (row_activity new))"

definition updated_row :: "ActivityRow \<Rightarrow> ActivityRow \<Rightarrow> ActivityRow" where
  "updated_row new r = r\<lparr>row_activity := (row_activity new)\<lparr>first_evidence_sequence := first_evidence_sequence (row_activity r)\<rparr>,
     row_started_at := or_else (row_started_at r) (row_started_at new),
     row_terminal_at := or_else (row_terminal_at new) (row_terminal_at r)\<rparr>"

lemma upsert_row_cons: "upsert_row new (r # rows) = (if has_new_key new r then updated_row new r # rows else r # upsert_row new rows)"
  by (simp add: has_new_key_def updated_row_def)

declare upsert_row.simps(2) [simp del]
declare upsert_row_cons [simp]

lemma updated_row_key: "has_new_key new r \<Longrightarrow> row_has_key run epoch oid v (updated_row new r) = row_has_key run epoch oid v new"
  by (auto simp: has_new_key_def updated_row_def row_has_key_def)

lemma new_key_refl: "has_new_key new new"
  by (simp add: has_new_key_def row_has_key_def)

lemma same_key: "has_new_key new r \<Longrightarrow> row_has_key run epoch oid v r = row_has_key run epoch oid v new"
  by (auto simp: has_new_key_def row_has_key_def)

lemma find_upsert_same:
  "row_has_key run epoch oid v new \<Longrightarrow>
    find (row_has_key run epoch oid v) (upsert_row new rows) =
      Some (case find (row_has_key run epoch oid v) rows of None \<Rightarrow> new | Some r \<Rightarrow> updated_row new r)"
proof (induction rows)
  case (Cons r rows)
  have "has_new_key new r \<longleftrightarrow> row_has_key run epoch oid v r"
    using Cons.prems by (auto simp: has_new_key_def row_has_key_def)
  then show ?case using Cons by (simp add: updated_row_key)
qed simp

lemma find_upsert_other:
  "\<not> row_has_key run epoch oid v new \<Longrightarrow>
    find (row_has_key run epoch oid v) (upsert_row new rows) = find (row_has_key run epoch oid v) rows"
  by (induction rows) (simp_all add: updated_row_key same_key)

lemma current_rows_upsert:
  "current_rows rows \<Longrightarrow> activity_classifier_version (row_activity new) = CLASSIFIER_VERSION \<Longrightarrow> current_rows (upsert_row new rows)"
  by (induction rows) (simp_all add: current_rows_def updated_row_def)

section \<open>Recording\<close>

definition recorded_row :: "string \<Rightarrow> int \<Rightarrow> RecordedEvidence \<Rightarrow> EvidenceActivityFacts \<Rightarrow> CanonicalRuntimeActivity \<Rightarrow> ActivityRow" where
  "recorded_row run epoch e f a =
     \<lparr>row_run = run, row_epoch = epoch, row_activity = a,
      row_started_at = (if facts_phase f = ''started'' then Some (evidence_occurred_at e) else None),
      row_terminal_at = (if facts_phase f = ''terminal'' then Some (evidence_occurred_at e) else None)\<rparr>"

lemma record_activity_current:
  assumes "current_rows rows" and f: "f = current_facts sha256 run epoch e"
  shows "record_activity sha256 run epoch e rows =
    (if facts_is_activity f
     then upsert_row (recorded_row run epoch e f
       (case existing_row run epoch (facts_operation_id f) rows of
          None \<Rightarrow> first_activity f e | Some r \<Rightarrow> merge_activity (row_activity r) f (evidence_id e) (evidence_sequence e))) rows
     else rows)"
proof (cases "facts_is_activity f")
  case False
  then show ?thesis by (simp add: record_activity_def upsert_canonical_activity_def f current_facts_def)
next
  case True
  have up: "f\<lparr>facts_is_activity := True\<rparr> = f" using True by simp
  show ?thesis
  proof (cases "existing_row run epoch (facts_operation_id f) rows")
    case None
    then show ?thesis
      using True up
      by (simp add: record_activity_def upsert_canonical_activity_def f current_facts_def Let_def recorded_row_def first_activity_def
          new_projection_def new_projection_for_version_def)
  next
    case (Some r)
    then have "r \<in> set rows" unfolding existing_row_current [OF assms(1)] by (auto simp: find_Some_iff)
    with assms(1) have "activity_classifier_version (row_activity r) = CLASSIFIER_VERSION"
      by (simp add: current_rows_def list_all_iff)
    moreover have "CLASSIFIER_VERSION \<notin> {V4_CLASSIFIER_VERSION, PREVIOUS_CLASSIFIER_VERSION, INTERMEDIATE_CLASSIFIER_VERSION, LEGACY_CLASSIFIER_VERSION}"
      by (simp add: classifier_versions)
    ultimately show ?thesis
      using True Some
      by (simp add: record_activity_def upsert_canonical_activity_def f current_facts_def Let_def recorded_row_def)
  qed
qed

lemma first_activity_fields [simp]:
  "activity_operation_id (first_activity f e) = facts_operation_id f"
  "activity_classifier_version (first_activity f e) = CLASSIFIER_VERSION"
  "first_evidence_sequence (first_activity f e) = evidence_sequence e"
  "last_evidence_sequence (first_activity f e) = evidence_sequence e"
  "activity_revision (first_activity f e) = 1"
  "activity_source_evidence_ids (first_activity f e) = [evidence_id e]"
  "activity_credibility (first_activity f e) = facts_credibility f"
  "activity_source_authority (first_activity f e) = facts_source_authority f"
  "activity_outcome (first_activity f e) = facts_outcome f"
  "activity_phase (first_activity f e) = facts_phase f"
  by (simp_all add: first_activity_def new_projection_def new_projection_for_version_def)

lemma started_time_snoc:
  "started_time facts (es @ [e]) =
    or_else (started_time facts es) (if facts_phase (facts e) = ''started'' then Some (evidence_occurred_at e) else None)"
  by (induction es) (auto simp: started_time_def or_else_def)

lemma terminal_time_snoc:
  "terminal_time facts (es @ [e]) =
    or_else (if facts_phase (facts e) = ''terminal'' then Some (evidence_occurred_at e) else None) (terminal_time facts es)"
  by (simp add: terminal_time_def or_else_def)

lemma own_evidence_snoc:
  "own_evidence facts oid (es @ [e]) =
    own_evidence facts oid es @ (if facts_is_activity (facts e) \<and> facts_operation_id (facts e) = oid then [e] else [])"
  by (simp add: own_evidence_def)

lemma history_None: "activity_history facts es = None \<longleftrightarrow> es = []"
  by (cases es) simp_all

definition row_view :: "ActivityRow \<Rightarrow> CanonicalRuntimeActivity \<times> string option \<times> string option" where
  "row_view r = (row_activity r, row_started_at r, row_terminal_at r)"

lemma row_view_updated:
  "first_evidence_sequence (row_activity new) = first_evidence_sequence (row_activity r) \<Longrightarrow>
    row_view (updated_row new r) =
      (row_activity new, or_else (row_started_at r) (row_started_at new), or_else (row_terminal_at new) (row_terminal_at r))"
  by (simp add: row_view_def updated_row_def)

definition history_view :: "(RecordedEvidence \<Rightarrow> EvidenceActivityFacts) \<Rightarrow> RecordedEvidence list \<Rightarrow>
    (CanonicalRuntimeActivity \<times> string option \<times> string option) option" where
  "history_view facts es = map_option (\<lambda>a. (a, started_time facts es, terminal_time facts es)) (activity_history facts es)"

lemma history_view_None: "history_view facts es = None \<longleftrightarrow> es = []"
  by (simp add: history_view_def history_None)

lemma history_view_first:
  "history_view facts [e] = Some (row_view (recorded_row run epoch e (facts e) (first_activity (facts e) e)))"
  by (simp add: history_view_def row_view_def recorded_row_def started_time_def terminal_time_def)

lemma history_view_next:
  assumes "history_view facts es = Some (row_view r)"
  shows "history_view facts (es @ [e]) =
    Some (row_view (updated_row (recorded_row run epoch e (facts e)
      (merge_activity (row_activity r) (facts e) (evidence_id e) (evidence_sequence e))) r))"
  using assms
  by (auto simp: history_view_def row_view_def updated_row_def recorded_row_def started_time_snoc terminal_time_snoc
      activity_history_snoc merge_evidence_def)

lemma recorded_row_key:
  "row_has_key run epoch oid CLASSIFIER_VERSION (recorded_row run epoch e f a) \<longleftrightarrow>
    activity_operation_id a = oid \<and> activity_classifier_version a = CLASSIFIER_VERSION"
  by (simp add: row_has_key_def recorded_row_def)

lemma recorded_row_activity [simp]: "row_activity (recorded_row run epoch e f a) = a"
  by (simp add: recorded_row_def)

lemma record_activity_step:
  assumes cur: "current_rows rows" and f: "f = current_facts sha256 run epoch e"
    and view: "map_option row_view (existing_row run epoch oid rows) = history_view facts own"
    and facts: "facts e = f"
  shows "current_rows (record_activity sha256 run epoch e rows)"
    and "map_option row_view (existing_row run epoch oid (record_activity sha256 run epoch e rows)) =
      history_view facts (own @ (if facts_is_activity f \<and> facts_operation_id f = oid then [e] else []))"
proof -
  let ?row = "\<lambda>i. find (row_has_key run epoch i CLASSIFIER_VERSION) rows"
  define a where "a = (case ?row (facts_operation_id f) of
      None \<Rightarrow> first_activity f e | Some r \<Rightarrow> merge_activity (row_activity r) f (evidence_id e) (evidence_sequence e))"
  define new where "new = recorded_row run epoch e f a"
  have rec: "record_activity sha256 run epoch e rows = (if facts_is_activity f then upsert_row new rows else rows)"
    unfolding record_activity_current [OF cur f] existing_row_current [OF cur] new_def a_def ..
  have found: "row_has_key run epoch i CLASSIFIER_VERSION r" if "?row i = Some r" for i r
    using that by (auto simp: find_Some_iff)
  have a: "activity_operation_id a = facts_operation_id f" "activity_classifier_version a = CLASSIFIER_VERSION"
    using found [of "facts_operation_id f"] by (auto simp: a_def row_has_key_def split: option.split)
  have cur': "current_rows (upsert_row new rows)" using cur a by (simp add: current_rows_upsert new_def)
  show "current_rows (record_activity sha256 run epoch e rows)" using cur cur' by (simp add: rec)
  have key: "row_has_key run epoch oid CLASSIFIER_VERSION new \<longleftrightarrow> facts_operation_id f = oid"
    using a by (simp add: new_def recorded_row_key)
  show "map_option row_view (existing_row run epoch oid (record_activity sha256 run epoch e rows)) =
      history_view facts (own @ (if facts_is_activity f \<and> facts_operation_id f = oid then [e] else []))"
  proof (cases "facts_is_activity f \<and> facts_operation_id f = oid")
    case False
    then have "existing_row run epoch oid (record_activity sha256 run epoch e rows) = existing_row run epoch oid rows"
      using key find_upsert_other [of run epoch oid CLASSIFIER_VERSION new rows]
      by (auto simp: rec existing_row_current [OF cur] existing_row_current [OF cur'])
    then show ?thesis unfolding view if_not_P [OF False] by (simp add: view)
  next
    case True
    then have row: "existing_row run epoch oid (record_activity sha256 run epoch e rows) =
        Some (case ?row oid of None \<Rightarrow> new | Some r \<Rightarrow> updated_row new r)"
      using key by (simp add: rec existing_row_current [OF cur'] find_upsert_same)
    show ?thesis
    proof (cases "?row oid")
      case None
      then have "own = []" using view by (simp add: existing_row_current [OF cur] flip: history_view_None [of facts])
      with True None row facts show ?thesis
        by (simp add: new_def a_def history_view_first [of facts e run epoch])
    next
      case (Some r)
      then have "history_view facts own = Some (row_view r)" using view by (simp add: existing_row_current [OF cur])
      from history_view_next [OF this, of e run epoch] True Some row facts show ?thesis
        by (simp add: new_def a_def)
    qed
  qed
qed

definition record_all :: "(string \<Rightarrow> string) \<Rightarrow> string \<Rightarrow> int \<Rightarrow> RecordedEvidence list \<Rightarrow> ActivityRow list" where
  "record_all sha256 run epoch es = fold (record_activity sha256 run epoch) es []"

lemma recorded_history:
  "current_rows (record_all sha256 run epoch es)
   \<and> map_option row_view (existing_row run epoch oid (record_all sha256 run epoch es)) =
      history_view (current_facts sha256 run epoch) (own_evidence (current_facts sha256 run epoch) oid es)"
proof (induction es rule: rev_induct)
  case Nil
  have "current_rows []" by (simp add: current_rows_def)
  then show ?case by (simp add: record_all_def existing_row_current own_evidence_def history_view_def)
next
  case (snoc e es)
  let ?f = "current_facts sha256 run epoch"
  show ?case
    using snoc record_activity_step [of "record_all sha256 run epoch es" "?f e" sha256 run epoch e oid ?f "own_evidence ?f oid es"]
    by (simp add: record_all_def own_evidence_snoc)
qed

text \<open>
  C25: the row of an operation is the history of its own evidence, with the time of its first start and
  of its last end, whatever evidence about other operations was recorded in between.
\<close>

theorem rows_are_histories:
  "map_option row_view (existing_row run epoch oid (record_all sha256 run epoch es)) =
    history_view (current_facts sha256 run epoch) (own_evidence (current_facts sha256 run epoch) oid es)"
  using recorded_history [of sha256 run epoch es oid] by (rule conjunct2)

section \<open>What a history tells\<close>

definition history_ranks :: "(RecordedEvidence \<Rightarrow> EvidenceActivityFacts) \<Rightarrow> RecordedEvidence list \<Rightarrow> nat list" where
  "history_ranks facts es = map (\<lambda>e. credibility_rank (facts_credibility (facts e))) es"

definition authorities :: "(RecordedEvidence \<Rightarrow> EvidenceActivityFacts) \<Rightarrow> RecordedEvidence list \<Rightarrow> string list" where
  "authorities facts es = map (\<lambda>e. facts_source_authority (facts e)) es"

lemma add_evidence_ids_snoc:
  "add_evidence_ids (is @ [i]) ids = (if i \<in> set (add_evidence_ids is ids) then add_evidence_ids is ids else add_evidence_ids is ids @ [i])"
  by (simp add: add_evidence_ids_def)

lemma add_evidence_ids_distinct: "distinct ids \<Longrightarrow> distinct (add_evidence_ids is ids) \<and> set (add_evidence_ids is ids) = set is \<union> set ids"
  by (induction "is" rule: rev_induct) (auto simp: add_evidence_ids_snoc, simp_all add: add_evidence_ids_def)

lemma history_exact:
  "case activity_history facts es of
     None \<Rightarrow> es = []
   | Some a \<Rightarrow> es \<noteq> [] \<and> activity_operation_id a = facts_operation_id (facts (hd es))
       \<and> activity_classifier_version a = CLASSIFIER_VERSION
       \<and> first_evidence_sequence a = evidence_sequence (hd es) \<and> last_evidence_sequence a = evidence_sequence (last es)
       \<and> activity_revision a = of_nat (length es)
       \<and> activity_source_evidence_ids a = add_evidence_ids (map evidence_id es) []
       \<and> credibility_rank (activity_credibility a) = fold max (history_ranks facts es) 0
       \<and> activity_source_authority a = (if ''core'' \<in> set (authorities facts es) then ''core'' else last (authorities facts es))"
proof (induction es rule: rev_induct)
  case (snoc e es)
  show ?case
  proof (cases "activity_history facts es")
    case None
    then have "es = []" by (simp add: history_None)
    then show ?thesis by (simp add: add_evidence_ids_def history_ranks_def authorities_def)
  next
    case (Some a)
    then have ne: "es \<noteq> []" using snoc by simp
    then have "last (authorities facts es) \<in> set (authorities facts es)"
      by (intro last_in_set) (simp add: authorities_def)
    moreover have "authorities facts (es @ [e]) = authorities facts es @ [facts_source_authority (facts e)]"
      by (simp add: authorities_def)
    ultimately show ?thesis
      using snoc Some ne
      by (auto simp: activity_history_snoc merge_evidence_def add_evidence_ids_snoc history_ranks_def
          merge_activity_def Let_def max_def)
  qed
qed simp

lemma own_evidence_ids: "list_all (\<lambda>e. facts_operation_id (facts e) = oid) (own_evidence facts oid es)"
  by (simp add: own_evidence_def list_all_iff)

text \<open>
  C26: the activity recorded of an operation names each piece of its evidence once, in the order of first
  recording; it carries the numbers of the first and of the last piece and counts them all; it is as
  credible as the most credible of them, and the core, once it vouched for it, remains its authority.
\<close>

theorem recorded_activity_exact:
  "let facts = current_facts sha256 run epoch; own = own_evidence facts oid es in
   case existing_row run epoch oid (record_all sha256 run epoch es) of
     None \<Rightarrow> own = []
   | Some r \<Rightarrow> (let a = row_activity r in
       own \<noteq> [] \<and> activity_operation_id a = oid
       \<and> first_evidence_sequence a = evidence_sequence (hd own) \<and> last_evidence_sequence a = evidence_sequence (last own)
       \<and> activity_revision a = of_nat (length own)
       \<and> activity_source_evidence_ids a = add_evidence_ids (map evidence_id own) [] \<and> distinct (activity_source_evidence_ids a)
       \<and> credibility_rank (activity_credibility a) = fold max (history_ranks facts own) 0
       \<and> activity_source_authority a = (if ''core'' \<in> set (authorities facts own) then ''core'' else last (authorities facts own)))"
proof -
  let ?f = "current_facts sha256 run epoch"
  let ?own = "own_evidence ?f oid es"
  have d: "distinct (add_evidence_ids (map evidence_id ?own) [])"
    using add_evidence_ids_distinct [of "[]"] by simp
  have own: "facts_operation_id (?f (hd ?own)) = oid" if "?own \<noteq> []"
    using own_evidence_ids [of ?f oid es] that by (simp add: list_all_iff)
  have view: "map_option row_view (existing_row run epoch oid (record_all sha256 run epoch es)) = history_view ?f ?own"
    using recorded_history by blast
  show ?thesis
  proof (cases "existing_row run epoch oid (record_all sha256 run epoch es)")
    case None
    then have "?own = []" using view by (simp flip: history_view_None [of ?f])
    then show ?thesis by (simp add: None)
  next
    case (Some r)
    then have "activity_history ?f ?own = Some (row_activity r)" using view by (cases "activity_history ?f ?own") (auto simp: Some history_view_def row_view_def)
    with history_exact [where facts = ?f and es = ?own] d own show ?thesis by (simp add: Some Let_def)
  qed
qed

section \<open>Outcomes\<close>

text \<open>
  An operation that has ended in one way and is then reported to have ended in another is unsettled.
  Any other report that tells an outcome decides it, and one that tells none leaves it.
\<close>

theorem merged_outcome_exact:
  "activity_outcome (merge_activity a f i n) =
    (if facts_outcome f = ''unknown'' then activity_outcome a
     else if activity_phase a = ''terminal'' \<and> facts_phase f = ''terminal''
       \<and> {activity_outcome a, facts_outcome f} \<subseteq> Collect is_settled_outcome \<and> activity_outcome a \<noteq> facts_outcome f
     then ''unsettled'' else facts_outcome f)"
  by (auto simp: merge_activity_def Let_def merged_outcome_def is_settled_outcome_def)

text \<open>A conflict lasts until the next end: the third one decides alone, also when it repeats one of the two.\<close>

lemma third_end_decides:
  assumes "activity_outcome a = ''unsettled''" and "facts_phase f = ''terminal''" and "is_settled_outcome (facts_outcome f)"
  shows "activity_outcome (merge_activity a f i n) = facts_outcome f"
  using assms by (auto simp: merge_activity_def Let_def merged_outcome_def is_settled_outcome_def)

text \<open>A late report of progress takes an ended operation back, with the outcome it ended with.\<close>

lemma progress_reopens:
  assumes "facts_phase f = ''progress''" and "facts_outcome f = ''unknown''"
  shows "activity_phase (merge_activity a f i n) = ''progress'' \<and> activity_outcome (merge_activity a f i n) = activity_outcome a"
  using assms by (simp add: merge_activity_def Let_def merged_outcome_def)

section \<open>Well-formed rows\<close>

definition phase_ok :: "string \<Rightarrow> bool" where
  "phase_ok phase = (phase \<in> {''started'', ''progress'', ''terminal''})"

definition outcome_ok :: "string \<Rightarrow> bool" where
  "outcome_ok outcome = (is_settled_outcome outcome \<or> outcome \<in> {''unsettled'', ''unknown''})"

definition credibility_ok :: "string \<Rightarrow> bool" where
  "credibility_ok credibility = (credibility \<in> {''core_verified'', ''runtime_structured'', ''runtime_reported''})"

definition coverage_ok :: "string \<Rightarrow> bool" where
  "coverage_ok coverage = (coverage \<in> {''run_level'', ''unknown'', ''fine_grained''})"

definition activity_ok :: "CanonicalRuntimeActivity \<Rightarrow> bool" where
  "activity_ok a =
     (phase_ok (activity_phase a) \<and> outcome_ok (activity_outcome a) \<and> credibility_ok (activity_credibility a)
      \<and> coverage_ok (activity_coverage_level a) \<and> kind_of_domain (activity_domain a) (activity_semantic_kind a))"

definition facts_ok :: "EvidenceActivityFacts \<Rightarrow> bool" where
  "facts_ok f =
     (phase_ok (facts_phase f) \<and> outcome_ok (facts_outcome f) \<and> credibility_ok (facts_credibility f)
      \<and> coverage_ok (facts_coverage_level f) \<and> kind_of_domain (facts_domain f) (facts_semantic_kind f))"

lemma canonical_phase_ok: "phase_ok (canonical_phase event_type phase payload)"
  by (simp add: canonical_phase_def phase_ok_def)

lemma outcome_of_status_ok: "pred_option outcome_ok (outcome_of_status status)"
  by (simp add: outcome_of_status_def outcome_ok_def is_settled_outcome_def)

lemma canonical_outcome_ok: "outcome_ok (canonical_outcome phase payload)"
proof -
  define o' where "o' = Option.bind (or_else (get_str payload ''status'') (Option.bind (pointer payload ''item'' ''status'') as_str)) outcome_of_status"
  have "pred_option outcome_ok o'"
    unfolding o'_def using outcome_of_status_ok by (cases "or_else (get_str payload ''status'') (Option.bind (pointer payload ''item'' ''status'') as_str)") simp_all
  then show ?thesis
    unfolding canonical_outcome_def o'_def [symmetric] by (cases o') (simp_all add: outcome_ok_def)
qed

lemma evidence_classification_kind:
  "case evidence_classification v i kind payload of (d, k, s) \<Rightarrow> kind_of_domain d k"
proof -
  let ?t = "case get_str (item_of payload) ''type'' of None \<Rightarrow> [] | Some t \<Rightarrow> t"
  have files: "kind_of_domain ''file'' (Some ''file.read'')" "kind_of_domain ''file'' (Some ''file.write'')"
    by (simp_all add: kind_of_domain_def strip_prefix_def)
  obtain d k s where c: "classify_with_structure_for_version v ?t kind payload = (d, k, s)" and k: "kind_of_domain d k"
    by (rule classify_cases [of v ?t kind payload])
  show ?thesis unfolding evidence_classification_def Let_def c using k files by simp
qed

lemma classified_facts_ok: "facts_ok (classify_evidence_with_version sha256 v run epoch i event_type kind phase payload)"
proof -
  obtain d k s where c: "evidence_classification v i kind payload = (d, k, s)" by (cases "evidence_classification v i kind payload")
  with evidence_classification_kind [of v i kind payload] have "kind_of_domain d k" by simp
  then show ?thesis
    by (simp add: facts_ok_def classify_evidence_with_version_def c Let_def canonical_phase_ok canonical_outcome_ok
        credibility_ok_def evidence_credibility_def coverage_ok_def)
qed

lemma first_activity_ok: "facts_ok f \<Longrightarrow> activity_ok (first_activity f e)"
  by (simp add: facts_ok_def activity_ok_def first_activity_def new_projection_def new_projection_for_version_def)

lemma merge_activity_ok: "activity_ok a \<Longrightarrow> facts_ok f \<Longrightarrow> activity_ok (merge_activity a f i n)"
  by (simp add: facts_ok_def activity_ok_def merge_activity_def Let_def merged_outcome_def, simp add: outcome_ok_def)

lemma upsert_row_ok:
  "list_all (\<lambda>r. activity_ok (row_activity r)) rows \<Longrightarrow> activity_ok (row_activity new) \<Longrightarrow>
    list_all (\<lambda>r. activity_ok (row_activity r)) (upsert_row new rows)"
  by (induction rows) (simp_all add: updated_row_def activity_ok_def)

lemma record_activity_ok:
  assumes "current_rows rows" and "list_all (\<lambda>r. activity_ok (row_activity r)) rows"
  shows "list_all (\<lambda>r. activity_ok (row_activity r)) (record_activity sha256 run epoch e rows)"
proof -
  let ?f = "current_facts sha256 run epoch e"
  have f: "facts_ok ?f" unfolding current_facts_def facts_of_def by (rule classified_facts_ok)
  have "activity_ok (row_activity r)" if "existing_row run epoch i rows = Some r" for r i
    using that assms by (auto simp: existing_row_current find_Some_iff list_all_length)
  then have "activity_ok (case existing_row run epoch (facts_operation_id ?f) rows of
      None \<Rightarrow> first_activity ?f e | Some r \<Rightarrow> merge_activity (row_activity r) ?f (evidence_id e) (evidence_sequence e))"
    using f by (simp add: first_activity_ok merge_activity_ok split: option.split)
  then show ?thesis
    unfolding record_activity_current [OF assms(1) refl] using assms(2) by (simp add: upsert_row_ok)
qed

text \<open>
  C27: whatever a runtime reports, every recorded activity has one of the three phases, one of the seven
  outcomes, a known credibility and coverage, and a kind that belongs to its domain.
\<close>

theorem recorded_rows_well_formed: "list_all (\<lambda>r. activity_ok (row_activity r)) (record_all sha256 run epoch es)"
proof (induction es rule: rev_induct)
  case (snoc e es)
  moreover have "current_rows (record_all sha256 run epoch es)" using recorded_history by blast
  ultimately show ?case using record_activity_ok by (simp add: record_all_def)
qed (simp add: record_all_def)

section \<open>From a search to its activity\<close>

text \<open>
  A search that is admitted for an event \<open>runtime.action\<close> is classified as a web search, whatever kind
  the runtime gave it, by every version of the classifier, unless another structured field tells what it is.
\<close>

theorem admitted_search_is_web_search:
  assumes "admit_runtime_search_operation ''runtime.action'' source frozen observed = Some (Inr admitted)"
    and "get_str payload ''runtimeToolType'' \<noteq> Some ''agent''" and "is_object payload"
    and "item_domain (case get_str (item_of payload) ''type'' of None \<Rightarrow> [] | Some t \<Rightarrow> t) = None"
    and "get payload ''runtimeFileOperation'' = None" and "get payload ''runtimeDiff'' = None"
  shows "evidence_classification version ev kind
      (normalize_runtime_search_operation_evidence ''runtime.action'' source frozen observed payload) =
    (''tool'', Some ''tool.web.search'', True)"
proof -
  let ?p = "normalize_runtime_search_operation_evidence ''runtime.action'' source frozen observed payload"
  have get: "get ?p k = (if k = ''runtimeSearchOperation'' then Some (into_projection admitted)
      else if k = ''kind'' then Some (JString ''web_search'') else get payload k)" for k
    using assms(1,3)
    by (cases payload) (simp_all add: normalize_runtime_search_operation_evidence_def update_conv')
  have item: "item_of ?p = item_of payload" by (simp add: item_of_def get)
  have strs: "get_str ?p ''runtimeToolType'' = get_str payload ''runtimeToolType''" "get_str ?p ''kind'' = Some ''web_search''"
    by (simp_all add: get_str_def get)
  have none: "operation_from_evidence ?p = None" "path_from_evidence ?p = None" "projection_from_evidence ?p ev = None"
    using assms(5,6) by (simp_all add: operation_from_evidence_def path_from_evidence_def projection_from_evidence_def get)
  have lower: "to_ascii_lowercase ''web_search'' = ''web_search''" by code_simp
  have web: "kind_domain ''web_search'' = Some (''tool'', ''tool.web.search'')" by code_simp
  have c: "classify_with_structure_for_version version (case get_str (item_of ?p) ''type'' of None \<Rightarrow> [] | Some t \<Rightarrow> t) kind ?p =
      (''tool'', Some ''tool.web.search'', True)"
    unfolding classify_with_structure_for_version_def item assms(4) strs Let_def option.case lower web
    using assms(2) by (simp add: structured_domain_def)
  show ?thesis unfolding evidence_classification_def Let_def c by (simp add: none evidence_diff_def)
qed

theorem admitted_search_is_web_search_witness:
  "\<exists>p. p = normalize_runtime_search_operation_evidence ''runtime.action''
        (insert_candidate (Object [(''status'', JString ''completed'')])
          (Some (candidate OpencodeCli ''acp-v1'' ''session/update.tool_call_update.completed'' ACP_EXPLICIT_WEB_SEARCH_RULE ''web_search'' [''q''])))
        (Some ''opencode-cli'') None (Object [(''status'', JString ''completed''), (''kind'', JString ''execute'')])
    \<and> evidence_classification CLASSIFIER_VERSION ''e'' ''tool_result'' p = (''tool'', Some ''tool.web.search'', True)"
proof -
  let ?se = "''session/update.tool_call_update.completed''"
  let ?c = "candidate OpencodeCli ''acp-v1'' ?se ACP_EXPLICIT_WEB_SEARCH_RULE ''web_search'' [''q'']"
  let ?s = "insert_candidate (Object [(''status'', JString ''completed'')]) (Some ?c)"
  let ?payload = "Object [(''status'', JString ''completed''), (''kind'', JString ''execute'')]"
  have q: "trim ''q'' \<noteq> []" by code_simp
  have se: "acp_source_event_is_allowlisted ?se" by code_simp
  have "get_str ?s ''status'' = Some ''completed''"
    by (simp add: get_str_def SEARCH_OPERATION_CANDIDATE_FIELD_def)
  then have m: "acp_source_event_matches_payload ?se ?s"
    by (simp add: acp_source_event_matches_payload_def Let_def)
  have "admit_search_candidate ''runtime.action'' ?s ?c (Some (Adapter.as_str OpencodeCli)) None =
      Inr (admitted_search OpencodeCli ''acp-v1'' ?se ACP_EXPLICIT_WEB_SEARCH_RULE [''q''] None)"
    using q se m by (subst admit_built_candidate) (simp_all add: search_source_allowlisted_def search_rules uses_acp_def)
  then have a: "admit_runtime_search_operation ''runtime.action'' ?s (Some ''opencode-cli'') None =
      Some (Inr (admitted_search OpencodeCli ''acp-v1'' ?se ACP_EXPLICIT_WEB_SEARCH_RULE [''q''] None))"
    by (simp add: admit_runtime_search_operation_def SEARCH_OPERATION_CANDIDATE_FIELD_def)
  have "get_str ?payload ''runtimeToolType'' \<noteq> Some ''agent''" "is_object ?payload" "get ?payload ''runtimeFileOperation'' = None"
    "get ?payload ''runtimeDiff'' = None" "item_of ?payload = Null"
    by (simp_all add: get_str_def item_of_def)
  moreover have "item_domain [] = None" by (simp add: item_domain_def)
  ultimately show ?thesis
    using admitted_search_is_web_search [OF a, of ?payload CLASSIFIER_VERSION "''e''" "''tool_result''"] by (simp add: get_str_def)
qed

end
