(* ===== verification/Clocks.thy ===== *)
theory Clocks
  imports Prelude
begin

text \<open>
  The clocks the core decides by: the clock of execution budgets and the budgets frozen for a turn, from
  \<^verbatim>\<open>crates/rovai-core/src/execution_budget.rs\<close>, and the clock of automations with its
  detection of device sleep, from \<^verbatim>\<open>automation_clock.rs\<close>. Times are nanoseconds; the texts
  and the range of dates are those of the date library and are parameters.
\<close>

section \<open>Budgets\<close>

definition CAMP_TURN_EXECUTION_BUDGET_SCHEMA_VERSION :: int where "CAMP_TURN_EXECUTION_BUDGET_SCHEMA_VERSION = 1"
definition UNBOUNDED_EXECUTION_BUDGET_SCHEMA_VERSION :: int where "UNBOUNDED_EXECUTION_BUDGET_SCHEMA_VERSION = 2"
definition PRODUCT_MAX_AGENT_RUN_RESPONSIBILITIES :: int where "PRODUCT_MAX_AGENT_RUN_RESPONSIBILITIES = 32"
definition PRODUCT_MAX_ACCEPTED_A2A :: int where "PRODUCT_MAX_ACCEPTED_A2A = 16"

lemmas budget_constants = CAMP_TURN_EXECUTION_BUDGET_SCHEMA_VERSION_def UNBOUNDED_EXECUTION_BUDGET_SCHEMA_VERSION_def
  PRODUCT_MAX_AGENT_RUN_RESPONSIBILITIES_def PRODUCT_MAX_ACCEPTED_A2A_def

datatype ThreadTurnExecutionBudgetExhaustionReason = Elapsed | AgentRunResponsibilities | AcceptedA2a

fun exhaustion_as_str :: "ThreadTurnExecutionBudgetExhaustionReason \<Rightarrow> string" where
  "exhaustion_as_str Elapsed = ''elapsed''"
| "exhaustion_as_str AgentRunResponsibilities = ''agent_run_responsibilities''"
| "exhaustion_as_str AcceptedA2a = ''accepted_a2a''"

record ThreadTurnExecutionBudgetRequest =
  request_elapsed_seconds :: "int option"
  request_max_agent_run_responsibilities :: int
  request_max_accepted_a2a :: int

definition validate_budget :: "ThreadTurnExecutionBudgetRequest \<Rightarrow> string option" where
  "validate_budget r =
     (if (case request_elapsed_seconds r of None \<Rightarrow> False | Some seconds \<Rightarrow> seconds < 1)
      then Some ''Execution Budget elapsedSeconds must be positive''
      else if request_max_agent_run_responsibilities r < 1
      then Some ''Execution Budget maxAgentRunResponsibilities must be positive''
      else if request_max_accepted_a2a r < 0 then Some ''Execution Budget maxAcceptedA2a must not be negative''
      else None)"

record FrozenThreadTurnExecutionBudget =
  budget_schema_version :: int
  budget_accepted_at :: string
  budget_deadline_at :: "string option"
  budget_elapsed_seconds :: "int option"
  budget_max_agent_run_responsibilities :: int
  budget_max_accepted_a2a :: int
  budget_root_agent_run_responsibilities :: int

text \<open>
  A duration holds at most \<open>i64::MAX\<close> milliseconds. The time after a positive duration is none if it is
  later than the last date, \<open>max_utc\<close>.
\<close>

definition try_seconds :: "int \<Rightarrow> int option" where
  "try_seconds seconds = (if \<bar>seconds\<bar> \<le> (2 ^ 63 - 1) div 1000 then Some (seconds * 10 ^ 9) else None)"

definition checked_add :: "int \<Rightarrow> int \<Rightarrow> int \<Rightarrow> int option" where
  "checked_add max_utc time duration = (if time + duration \<le> max_utc then Some (time + duration) else None)"

definition freeze_camp_turn_execution_budget ::
    "(int \<Rightarrow> string) \<Rightarrow> int \<Rightarrow> ThreadTurnExecutionBudgetRequest option \<Rightarrow> int \<Rightarrow> int \<Rightarrow> string + FrozenThreadTurnExecutionBudget" where
  "freeze_camp_turn_execution_budget to_rfc3339 max_utc requested accepted_at root =
     (case Option.bind requested validate_budget of
        Some error \<Rightarrow> Inl error
      | None \<Rightarrow>
          if root < 1 then Inl ''Execution Budget requires at least one root AgentRun responsibility''
          else
            (let elapsed_seconds = Option.bind requested request_elapsed_seconds;
                 max_responsibilities =
                   min (case requested of None \<Rightarrow> PRODUCT_MAX_AGENT_RUN_RESPONSIBILITIES | Some r \<Rightarrow> request_max_agent_run_responsibilities r)
                     PRODUCT_MAX_AGENT_RUN_RESPONSIBILITIES;
                 max_a2a = min (case requested of None \<Rightarrow> PRODUCT_MAX_ACCEPTED_A2A | Some r \<Rightarrow> request_max_accepted_a2a r)
                   PRODUCT_MAX_ACCEPTED_A2A;
                 budget = (\<lambda>deadline_at.
                   \<lparr>budget_schema_version = (if elapsed_seconds = None then UNBOUNDED_EXECUTION_BUDGET_SCHEMA_VERSION
                        else CAMP_TURN_EXECUTION_BUDGET_SCHEMA_VERSION),
                    budget_accepted_at = to_rfc3339 accepted_at, budget_deadline_at = map_option to_rfc3339 deadline_at,
                    budget_elapsed_seconds = elapsed_seconds, budget_max_agent_run_responsibilities = max_responsibilities,
                    budget_max_accepted_a2a = max_a2a, budget_root_agent_run_responsibilities = root\<rparr>) in
             if root > max_responsibilities then Inl ''Execution Budget cannot admit every root AgentRun responsibility''
             else
               (case elapsed_seconds of
                  None \<Rightarrow> Inr (budget None)
                | Some seconds \<Rightarrow>
                    (case Option.bind (try_seconds seconds) (checked_add max_utc accepted_at) of
                       None \<Rightarrow> Inl ''Execution Budget deadline overflow''
                     | Some deadline \<Rightarrow> Inr (budget (Some deadline))))))"

text \<open>Whether a deadline is over; a text that is no date is an error.\<close>

definition execution_deadline_elapsed :: "(string \<Rightarrow> int option) \<Rightarrow> string option \<Rightarrow> int \<Rightarrow> string + bool" where
  "execution_deadline_elapsed parse_from_rfc3339 deadline now =
     (case deadline of
        None \<Rightarrow> Inr False
      | Some text' \<Rightarrow> (case parse_from_rfc3339 text' of None \<Rightarrow> Inl ''invalid date'' | Some d \<Rightarrow> Inr (d \<le> now)))"

section \<open>The clock of budgets\<close>

record ProcessExecutionBudgetClock =
  started_wall :: int
  started_awake :: int
  last_observed :: int

definition reconcile_execution_budget_time :: "int \<Rightarrow> int \<Rightarrow> int \<Rightarrow> int" where
  "reconcile_execution_budget_time wall_now awake_now last_time = max (max wall_now awake_now) last_time"

text \<open>
  The clock is started by its first reading. A reading takes the wall clock and the monotonic clock, which
  stands still while the device sleeps; the time awake saturates at the last date.
\<close>

definition camp_turn_execution_budget_now ::
    "int \<Rightarrow> int \<Rightarrow> int \<Rightarrow> ProcessExecutionBudgetClock option \<Rightarrow> int \<times> ProcessExecutionBudgetClock option" where
  "camp_turn_execution_budget_now max_utc wall_now instant clock =
     (let clock = (case clock of
            None \<Rightarrow> \<lparr>started_wall = wall_now, started_awake = instant, last_observed = wall_now\<rparr> | Some c \<Rightarrow> c);
          awake_now = (case checked_add max_utc (started_wall clock) (instant - started_awake clock) of None \<Rightarrow> max_utc | Some t \<Rightarrow> t);
          observed = reconcile_execution_budget_time wall_now awake_now (last_observed clock)
      in (observed, Some (clock\<lparr>last_observed := observed\<rparr>)))"

fun observe_times :: "int \<Rightarrow> ProcessExecutionBudgetClock option \<Rightarrow> (int \<times> int) list \<Rightarrow> int list" where
  "observe_times max_utc clock [] = []"
| "observe_times max_utc clock ((wall, instant) # readings) =
     (let (observed, clock) = camp_turn_execution_budget_now max_utc wall instant clock
      in observed # observe_times max_utc clock readings)"

section \<open>The clock of automations\<close>

text \<open>Sleep offsets are nanoseconds below \<open>2 ^ 64\<close>.\<close>

record AutomationClock =
  recovery_boundary :: int
  sleep_offset :: "nat option"

definition nanos :: "nat \<Rightarrow> nat \<Rightarrow> nat \<Rightarrow> nat option" where
  "nanos numer denom ticks = (let n = ticks * numer div denom in if n < 2 ^ 64 then Some n else None)"

text \<open>
  A sample of the sleep offset, on the one system that has both clocks: the clock that counts sleep, read
  between two readings of the one that does not.
\<close>

definition sleep_offset_bounds :: "nat \<Rightarrow> nat \<Rightarrow> nat \<Rightarrow> nat \<Rightarrow> nat \<Rightarrow> (nat \<times> nat) option" where
  "sleep_offset_bounds numer denom before continuous after =
     (if after < before then None
      else
        (case nanos numer denom (after - before) of
           None \<Rightarrow> None
         | Some width \<Rightarrow>
             if 1000000 < width then None
             else
               (case nanos numer denom (continuous - after) of
                  None \<Rightarrow> None
                | Some lower \<Rightarrow>
                    if continuous < before then None
                    else map_option (\<lambda>upper. (lower, upper)) (nanos numer denom (continuous - before)))))"

definition start_automation_clock :: "int \<Rightarrow> (nat \<times> nat) option \<Rightarrow> AutomationClock" where
  "start_automation_clock now sample = \<lparr>recovery_boundary = now, sleep_offset = map_option snd sample\<rparr>"

definition observe ::
    "int \<Rightarrow> int \<Rightarrow> (nat \<times> nat) option \<Rightarrow> AutomationClock \<Rightarrow> (int \<times> int) option \<times> AutomationClock" where
  "observe now observed_at sample clock =
     (case sample of
        None \<Rightarrow> (None, clock)
      | Some (lower, upper) \<Rightarrow>
          (case sleep_offset clock of
             Some previous \<Rightarrow>
               if min (2 ^ 64 - 1) (previous + 1000000) < lower
               then (None, clock\<lparr>recovery_boundary := max (recovery_boundary clock) observed_at, sleep_offset := Some upper\<rparr>)
               else (Some (now, recovery_boundary clock), clock\<lparr>sleep_offset := Some (min previous upper)\<rparr>)
           | None \<Rightarrow>
               (None, clock\<lparr>recovery_boundary := max (recovery_boundary clock) observed_at, sleep_offset := Some upper\<rparr>)))"

text \<open>A tick reads the wall clock before the sample and again after it.\<close>

type_synonym tick = "int \<times> int \<times> (nat \<times> nat) option"

fun run_ticks :: "AutomationClock \<Rightarrow> tick list \<Rightarrow> (int \<times> int) option list" where
  "run_ticks clock [] = []"
| "run_ticks clock ((now, observed_at, sample) # ticks) =
     (let (claim, clock) = observe now observed_at sample clock in claim # run_ticks clock ticks)"

section \<open>Properties of budgets\<close>

text \<open>
  C28: a budget is frozen exactly if the limits of the request are positive or, for messages, not negative, the
  product's limits leave room for every root responsibility and the deadline is a date: a time that fits into milliseconds of 64 bits and is no later than
  the last one of the calendar. It then promises no more than was asked for and than the product allows, and
  its deadline is the accepted time and the seconds asked for. A request that is refused violates one of these.
\<close>

theorem frozen_budget_exact:
  "case freeze_camp_turn_execution_budget rfc max_utc requested accepted_at root of
     Inl error \<Rightarrow>
       (case requested of None \<Rightarrow> False
        | Some r \<Rightarrow> (case request_elapsed_seconds r of None \<Rightarrow> False | Some s \<Rightarrow> s < 1)
            \<or> request_max_agent_run_responsibilities r < 1 \<or> request_max_accepted_a2a r < 0)
       \<or> root < 1
       \<or> root > min 32 (case requested of None \<Rightarrow> 32 | Some r \<Rightarrow> request_max_agent_run_responsibilities r)
       \<or> (case Option.bind requested request_elapsed_seconds of None \<Rightarrow> False
          | Some s \<Rightarrow> (2 ^ 63 - 1) div 1000 < s \<or> max_utc < accepted_at + s * 10 ^ 9)
   | Inr b \<Rightarrow>
       (case requested of None \<Rightarrow> True
        | Some r \<Rightarrow> (case request_elapsed_seconds r of None \<Rightarrow> True | Some s \<Rightarrow> 1 \<le> s)
            \<and> 1 \<le> request_max_agent_run_responsibilities r \<and> 0 \<le> request_max_accepted_a2a r)
       \<and> budget_accepted_at b = rfc accepted_at \<and> budget_elapsed_seconds b = Option.bind requested request_elapsed_seconds
       \<and> budget_root_agent_run_responsibilities b = root \<and> 1 \<le> root
       \<and> budget_root_agent_run_responsibilities b \<le> budget_max_agent_run_responsibilities b
       \<and> budget_max_agent_run_responsibilities b = min 32 (case requested of None \<Rightarrow> 32 | Some r \<Rightarrow> request_max_agent_run_responsibilities r)
       \<and> 0 \<le> budget_max_accepted_a2a b
       \<and> budget_max_accepted_a2a b = min 16 (case requested of None \<Rightarrow> 16 | Some r \<Rightarrow> request_max_accepted_a2a r)
       \<and> (case Option.bind requested request_elapsed_seconds of None \<Rightarrow> True
          | Some s \<Rightarrow> s \<le> (2 ^ 63 - 1) div 1000 \<and> accepted_at + s * 10 ^ 9 \<le> max_utc)
       \<and> budget_deadline_at b =
          map_option (\<lambda>s. rfc (accepted_at + s * 10 ^ 9)) (Option.bind requested request_elapsed_seconds)
       \<and> (budget_schema_version b = UNBOUNDED_EXECUTION_BUDGET_SCHEMA_VERSION \<longleftrightarrow> budget_deadline_at b = None)"
  by (cases requested)
    (auto simp: freeze_camp_turn_execution_budget_def Let_def budget_constants validate_budget_def try_seconds_def checked_add_def
      split: option.split if_split)

theorem frozen_budget_exact_witness:
  "\<exists>b. freeze_camp_turn_execution_budget (\<lambda>t. if t = 60000000005 then ''later'' else ''now'') (2 ^ 62)
      (Some \<lparr>request_elapsed_seconds = Some 60, request_max_agent_run_responsibilities = 40, request_max_accepted_a2a = 3\<rparr>) 5 2 = Inr b
    \<and> budget_deadline_at b = Some ''later'' \<and> budget_max_agent_run_responsibilities b = 32"
proof -
  let ?rfc = "\<lambda>t :: int. if t = 60000000005 then ''later'' else ''now''"
  let ?r = "\<lparr>request_elapsed_seconds = Some 60, request_max_agent_run_responsibilities = 40, request_max_accepted_a2a = 3\<rparr>"
  let ?f = "freeze_camp_turn_execution_budget ?rfc (2 ^ 62) (Some ?r) 5 2"
  show ?thesis
  proof (cases ?f)
    case (Inl e)
    with frozen_budget_exact [where rfc = ?rfc and max_utc = "2 ^ 62" and requested = "Some ?r" and accepted_at = 5 and root = 2] show ?thesis by (simp add: validate_budget_def)
  next
    case (Inr b)
    with frozen_budget_exact [where rfc = ?rfc and max_utc = "2 ^ 62" and requested = "Some ?r" and accepted_at = 5 and root = 2] show ?thesis by simp
  qed
qed

section \<open>Properties of the clock of budgets\<close>

lemma observed_bounds:
  assumes "camp_turn_execution_budget_now max_utc wall instant clock = (observed, clock')"
  shows "wall \<le> observed" "clock' \<noteq> None" "last_observed (the clock') = observed"
    and "clock = Some c \<Longrightarrow> last_observed c \<le> observed"
    and "started_wall (the clock') = (case clock of None \<Rightarrow> wall | Some c \<Rightarrow> started_wall c)"
    and "started_awake (the clock') = (case clock of None \<Rightarrow> instant | Some c \<Rightarrow> started_awake c)"
    and "min max_utc (started_wall (the clock') + (instant - started_awake (the clock'))) \<le> observed"
  using assms
  by (auto simp: camp_turn_execution_budget_now_def Let_def reconcile_execution_budget_time_def checked_add_def
      split: option.splits if_split_asm)

definition times_from :: "int \<Rightarrow> int \<Rightarrow> int \<Rightarrow> int \<Rightarrow> (int \<times> int) list \<Rightarrow> int list \<Rightarrow> bool" where
  "times_from max_utc wall awake earliest readings ts =
     (sorted (earliest # ts) \<and> list_all2 (\<lambda>(w, i) t. w \<le> t \<and> min max_utc (wall + (i - awake)) \<le> t) readings ts)"

lemma observe_times_started:
  "times_from max_utc (started_wall c) (started_awake c) (last_observed c) readings (observe_times max_utc (Some c) readings)"
proof (induction readings arbitrary: c)
  case (Cons r readings)
  obtain w i where r: "r = (w, i)" by (cases r)
  obtain t c' where now: "camp_turn_execution_budget_now max_utc w i (Some c) = (t, c')" by (cases "camp_turn_execution_budget_now max_utc w i (Some c)")
  note bounds = observed_bounds [OF now]
  obtain d where d: "c' = Some d" using bounds(2) by blast
  have "times_from max_utc (started_wall c) (started_awake c) t readings (observe_times max_utc (Some d) readings)"
    using Cons [of d] bounds(3,5,6) d by simp
  then show ?case
    using bounds(1) bounds(4) [OF refl] bounds(5,6,7) d by (auto simp: times_from_def r now)
qed (simp add: times_from_def)

text \<open>
  The time that budgets are charged by never goes back, however the wall clock is set, is never before the
  wall clock, and moves at least as far as the device was awake.
\<close>

theorem budget_time_never_goes_back:
  "sorted (observe_times max_utc None readings)
   \<and> (case readings of [] \<Rightarrow> True | (wall, awake) # _ \<Rightarrow>
        list_all2 (\<lambda>(w, i) t. w \<le> t \<and> min max_utc (wall + (i - awake)) \<le> t) readings (observe_times max_utc None readings))"
proof (cases readings)
  case (Cons r rest)
  obtain w i where r: "r = (w, i)" by (cases r)
  obtain t c where now: "camp_turn_execution_budget_now max_utc w i None = (t, c)" by (cases "camp_turn_execution_budget_now max_utc w i None")
  note bounds = observed_bounds [OF now]
  obtain d where d: "c = Some d" using bounds(2) by blast
  have "times_from max_utc w i t rest (observe_times max_utc (Some d) rest)"
    using observe_times_started [of max_utc d rest] bounds(3,5,6) d by simp
  then show ?thesis using bounds(1,7) by (auto simp: Cons r now d times_from_def)
qed simp

text \<open>A deadline that is over at one reading is over at every later one.\<close>

lemma elapsed_stays:
  "execution_deadline_elapsed parse deadline t = Inr True \<Longrightarrow> t \<le> u \<Longrightarrow> execution_deadline_elapsed parse deadline u = Inr True"
  by (auto simp: execution_deadline_elapsed_def split: option.splits)

section \<open>Properties of the clock of automations\<close>

lemma nanos_mono: "nanos n d a = Some x \<Longrightarrow> nanos n d b = Some y \<Longrightarrow> a \<le> b \<Longrightarrow> x \<le> y"
  by (auto simp: nanos_def Let_def intro: div_le_mono split: if_split_asm)

lemma div_add_le: "0 < d \<Longrightarrow> (a + b) div d \<le> a div d + b div d + (1 :: nat)"
proof -
  assume d: "0 < d"
  have "a mod d + b mod d < 2 * d" using mod_less_divisor [OF d, of a] mod_less_divisor [OF d, of b] by linarith
  then have "(a mod d + b mod d) div d < 2" by (rule less_mult_imp_div_less)
  then show ?thesis by (subst div_add1_eq) simp
qed

text \<open>
  A sample contains the true sleep offset, the difference of the two clocks at the moment the second one
  was read, whatever the unit of the clocks, and is at most a millisecond and a nanosecond wide.
\<close>

theorem sample_contains_offset:
  assumes "sleep_offset_bounds numer denom before (moment + offset) after = Some (lower, upper)" and "0 < denom"
    and "before \<le> moment" and "moment \<le> after"
  shows "lower \<le> offset * numer div denom \<and> offset * numer div denom \<le> upper \<and> upper \<le> lower + 1000001"
proof -
  from assms(1) obtain width where ba: "before \<le> after"
    and width: "nanos numer denom (after - before) = Some width" "width \<le> 1000000"
    and lower: "nanos numer denom (moment + offset - after) = Some lower"
    and upper: "nanos numer denom (moment + offset - before) = Some upper"
    by (auto simp: sleep_offset_bounds_def split: if_split_asm option.splits)
  have l: "lower = (moment + offset - after) * numer div denom" and u: "upper = (moment + offset - before) * numer div denom"
    and w: "width = (after - before) * numer div denom"
    using lower upper width(1) by (auto simp: nanos_def Let_def split: if_split_asm)
  have "lower \<le> offset * numer div denom" unfolding l using assms(4) by (intro div_le_mono mult_le_mono1) simp
  moreover have "offset * numer div denom \<le> upper" unfolding u using assms(3) by (intro div_le_mono mult_le_mono1) simp
  moreover have "upper \<le> lower + width + 1"
  proof -
    have "(moment + offset - before) * numer \<le> (moment + offset - after) * numer + (after - before) * numer"
      unfolding distrib_right [symmetric] using ba by (intro mult_le_mono1) simp
    then have "upper \<le> ((moment + offset - after) * numer + (after - before) * numer) div denom"
      unfolding u by (rule div_le_mono)
    also have "\<dots> \<le> lower + width + 1"
      unfolding l w by (rule div_add_le [OF assms(2)])
    finally show ?thesis .
  qed
  ultimately show ?thesis using width(2) by simp
qed

theorem sample_contains_offset_witness:
  "\<exists>lower upper. sleep_offset_bounds 125 3 1000 (1010 + 4800) 1020 = Some (lower, upper) \<and> lower \<le> 200000 \<and> 200000 \<le> upper"
proof -
  have s: "sleep_offset_bounds 125 3 1000 (1010 + 4800) 1020 = Some (199583, 200416)"
    by (simp add: sleep_offset_bounds_def nanos_def)
  have "199583 \<le> 4800 * 125 div (3 :: nat) \<and> 4800 * 125 div (3 :: nat) \<le> 200416 \<and> (200416 :: nat) \<le> 199583 + 1000001"
    using s by (rule sample_contains_offset) simp_all
  then show ?thesis using s by auto
qed

text \<open>A sample that fits a sleep offset; while the device does not sleep, the offset stays.\<close>

definition fits :: "nat \<Rightarrow> (nat \<times> nat) option \<Rightarrow> bool" where
  "fits off sample = (case sample of None \<Rightarrow> True | Some (lower, upper) \<Rightarrow> lower \<le> off \<and> off \<le> upper \<and> upper \<le> lower + 1000001)"

abbreviation tick_sample :: "tick \<Rightarrow> (nat \<times> nat) option" where
  "tick_sample t \<equiv> snd (snd t)"

definition claim_at :: "int \<Rightarrow> tick \<Rightarrow> (int \<times> int) option" where
  "claim_at boundary t = (if tick_sample t = None then None else Some (fst t, boundary))"

lemma observe_awake:
  assumes "fits off sample" and "sleep_offset clock = Some p" and "off \<le> p" and "off < 2 ^ 64"
  shows "observe now at sample clock =
    (case sample of None \<Rightarrow> (None, clock)
     | Some (lower, upper) \<Rightarrow> (Some (now, recovery_boundary clock), clock\<lparr>sleep_offset := Some (min p upper)\<rparr>))"
  using assms by (auto simp: observe_def fits_def min_def split: option.split)

lemma awake_ticks:
  assumes "list_all (\<lambda>t. fits off (tick_sample t)) ticks" and "sleep_offset clock = Some p"
    and "off \<le> p" "p \<le> off + 1000001" and "off < 2 ^ 64"
  shows "\<exists>p' clock'. off \<le> p' \<and> p' \<le> off + 1000001 \<and> clock' = clock\<lparr>sleep_offset := Some p'\<rparr>
    \<and> (\<forall>more. run_ticks clock (ticks @ more) = map (claim_at (recovery_boundary clock)) ticks @ run_ticks clock' more)"
  using assms
proof (induction ticks arbitrary: clock p)
  case Nil
  then show ?case by (intro exI [of _ p] exI [of _ clock]) simp
next
  case (Cons t ticks)
  obtain now at' sample where t: "t = (now, at', sample)" by (cases t)
  then have "fits off sample" using Cons.prems(1) by simp
  note step = observe_awake [OF this Cons.prems(2,3,5), of now at']
  show ?case
  proof (cases sample)
    case None
    then show ?thesis using Cons.IH [OF _ Cons.prems(2-5)] Cons.prems(1) step by (simp add: t claim_at_def)
  next
    case (Some s)
    obtain lower upper where s: "s = (lower, upper)" by (cases s)
    let ?clock = "clock\<lparr>sleep_offset := Some (min p upper)\<rparr>"
    have "off \<le> min p upper" "min p upper \<le> off + 1000001"
      using Cons.prems(1,3,4) by (simp_all add: t Some s fits_def)
    from Cons.IH [OF _ _ this Cons.prems(5), of ?clock] Cons.prems(1)
    show ?thesis using step by (simp add: t Some s claim_at_def)
  qed
qed

text \<open>
  While the device does not sleep, every claim of the clock names the boundary it began with, however late
  the ticks and however the wall clock is set; when it has slept three milliseconds or more, the first
  tick that can be sampled claims nothing and moves the boundary to its time, and every later claim
  names that boundary: nothing that became due during the sleep is claimed as missed in time.
\<close>

theorem sleep_moves_boundary_once:
  assumes "fits off (Some start)" and "list_all (\<lambda>t. fits off (tick_sample t)) before"
    and "fits off' (Some wake)" and "list_all (\<lambda>t. fits off' (tick_sample t)) after"
    and "off + 3000003 \<le> off'" and "off' < 2 ^ 63"
  shows "run_ticks (start_automation_clock began (Some start)) (before @ (now, observed_at, Some wake) # after) =
    map (claim_at began) before @ None # map (claim_at (max began observed_at)) after"
proof -
  let ?c = "start_automation_clock began (Some start)"
  have start: "off \<le> snd start" "snd start \<le> off + 1000001" using assms(1) by (auto simp: fits_def)
  have wake: "fst wake \<le> off'" "off' \<le> snd wake" "snd wake \<le> fst wake + 1000001" using assms(3) by (auto simp: fits_def)
  have "off < 2 ^ 64" "off' < 2 ^ 64" using assms(5,6) by simp_all
  from awake_ticks [OF assms(2) _ start this(1), of ?c] obtain p where p: "off \<le> p" "p \<le> off + 1000001"
    and first: "\<And>more. run_ticks ?c (before @ more) = map (claim_at began) before @ run_ticks (?c\<lparr>sleep_offset := Some p\<rparr>) more"
    by (auto simp: start_automation_clock_def)
  let ?d = "\<lparr>recovery_boundary = max began observed_at, sleep_offset = Some (snd wake)\<rparr>"
  have "min (2 ^ 64 - 1) (p + 1000000) < fst wake" using p(2) wake(2,3) assms(5) by linarith
  then have slept: "observe now observed_at (Some wake) (?c\<lparr>sleep_offset := Some p\<rparr>) = (None, ?d)"
    by (simp add: observe_def start_automation_clock_def case_prod_unfold)
  have "snd wake \<le> off' + 1000001" using wake by linarith
  from awake_ticks [OF assms(4) _ wake(2) this \<open>off' < 2 ^ 64\<close>, of ?d]
  have "run_ticks ?d after = map (claim_at (max began observed_at)) after"
    by (metis AutomationClock.select_convs append_Nil2 run_ticks.simps(1))
  then show ?thesis by (simp add: first slept)
qed

theorem sleep_moves_boundary_once_witness:
  "run_ticks (start_automation_clock 5 (Some (90, 110))) [(10, 11, Some (95, 120)), (12, 13, None), (20, 21, Some (4000000, 4000010)),
      (30, 31, Some (4000000, 4000009))] = [Some (10, 5), None, None, Some (30, 21)]"
proof -
  have "run_ticks (start_automation_clock 5 (Some (90, 110))) ([(10, 11, Some (95, 120)), (12, 13, None)] @ (20, 21, Some (4000000, 4000010)) #
      [(30, 31, Some (4000000, 4000009))]) =
    map (claim_at 5) [(10, 11, Some (95, 120)), (12, 13, None)] @ None # map (claim_at (max 5 21)) [(30, 31, Some (4000000, 4000009))]"
    by (rule sleep_moves_boundary_once [of 100 _ _ 4000005]) (simp_all add: fits_def)
  then show ?thesis by (simp add: claim_at_def)
qed

end
