(* ===== verification/Execution_Text.thy ===== *)
theory Execution_Text
  imports Canonical_Activity
begin

text \<open>
  The text a runtime streams, from \<^verbatim>\<open>crates/rovai-core/src/execution_text.rs\<close>: the open
  blocks held in memory or in a spool file, what an event of a runtime does to them, how a block is
  finished, and the maintenance that finishes the blocks of runs that have ended. What may fail outside,
  fresh identifiers, times and the text \<open>json\<close> of a value come in as arguments.
\<close>

section \<open>Bodies\<close>

definition MEMORY_BYTES :: nat where "MEMORY_BYTES = 64 * 1024"
definition MAX_OPEN_BLOCKS :: nat where "MAX_OPEN_BLOCKS = 128"
definition RETRY_INITIAL_DELAY :: nat where "RETRY_INITIAL_DELAY = 500 * 10 ^ 6"
definition RETRY_MAX_DELAY :: nat where "RETRY_MAX_DELAY = 30 * 10 ^ 9"

text \<open>The spool is given by what the file holds.\<close>

record Body =
  body_memory :: string
  body_spool :: "string option"
  body_bytes :: nat

definition empty_body :: Body where
  "empty_body = \<lparr>body_memory = [], body_spool = None, body_bytes = 0\<rparr>"

text \<open>
  The answers of the file system: whether the file can be created and takes the text held in memory, whether
  its end is found, how much of a text is written when the write fails, and whether the file can then be cut.
\<close>

record AppendIo =
  spool_created :: bool
  memory_copied :: bool
  end_found :: bool
  written_before_failure :: "nat option"
  cut_back :: bool

definition move_to_spool :: "AppendIo \<Rightarrow> Body \<Rightarrow> string + Body" where
  "move_to_spool io b =
     (if \<not> spool_created io then Inl ''spool not created''
      else if \<not> memory_copied io then Inl ''memory not copied''
      else Inr (b\<lparr>body_memory := [], body_spool := Some (body_memory b)\<rparr>))"

definition body_append :: "AppendIo \<Rightarrow> string \<Rightarrow> Body \<Rightarrow> string option \<times> Body" where
  "body_append io text' b =
     (case (if body_spool b = None \<and> body_bytes b + length text' > MEMORY_BYTES then move_to_spool io b else Inr b) of
        Inl e \<Rightarrow> (Some e, b)
      | Inr b \<Rightarrow>
          (case body_spool b of
             Some contents \<Rightarrow>
               if \<not> end_found io then (Some ''seek failed'', b)
               else
                 (case written_before_failure io of
                    Some n \<Rightarrow>
                      (if cut_back io
                       then (Some ''write failed'', b\<lparr>body_spool := Some (take (body_bytes b) (contents @ take n text'))\<rparr>)
                       else (Some ''truncation failed'', b\<lparr>body_spool := Some (contents @ take n text')\<rparr>))
                  | None \<Rightarrow> (None, b\<lparr>body_spool := Some (contents @ text'), body_bytes := body_bytes b + length text'\<rparr>))
           | None \<Rightarrow> (None, b\<lparr>body_memory := body_memory b @ text', body_bytes := body_bytes b + length text'\<rparr>)))"

definition body_text :: "Body \<Rightarrow> string" where
  "body_text b = (case body_spool b of Some contents \<Rightarrow> contents | None \<Rightarrow> body_memory b)"

text \<open>The number of UTF-16 units of a text: two for a character of four bytes.\<close>

definition utf16_units :: "string \<Rightarrow> nat" where
  "utf16_units s = char_count s + length (filter (\<lambda>c. 240 \<le> (of_char c :: nat)) s)"

section \<open>State\<close>

record TextBlock =
  block_id :: string
  block_run :: string
  block_epoch :: int
  block_native :: "string option"
  block_kind :: string
  block_sequence :: int
  block_revision :: int
  block_change_sequence :: int
  block_started_at :: string
  block_body :: Body
  block_utf16 :: nat

record FlushRetry =
  retry_failures :: nat
  retry_not_before :: nat

record ExecutionTextBuffer =
  blocks :: "(string \<times> TextBlock) list"
  retry :: "FlushRetry option"

text \<open>The rows of the runs and of the evidence, as far as they are read or written here.\<close>

record RunRow =
  run_status :: string
  run_epoch :: int
  run_cancel_requested_at :: "string option"
  run_change_sequence :: int

record TextRow =
  text_row_id :: string
  text_row_run :: string
  text_row_epoch :: int
  text_row_sequence :: int
  text_row_event_type :: string
  text_row_kind :: string
  text_row_phase :: string
  text_row_source_key :: "string option"
  text_row_preview :: Value
  text_row_blob :: "Value option"
  text_row_bytes :: nat
  text_row_occurred_at :: string
  text_row_revision :: int
  text_row_change_sequence :: int
  text_row_updated_at :: string

record TextWorld =
  world_runs :: "string \<Rightarrow> RunRow option"
  world_rows :: "TextRow list"
  buffer :: ExecutionTextBuffer

text \<open>Evidence as it is handed to the callers.\<close>

record TextEvidence =
  evidence_row_id :: string
  evidence_run :: string
  evidence_epoch :: int
  evidence_row_sequence :: int
  evidence_revision :: "int option"
  evidence_change_sequence :: "int option"
  evidence_type :: string
  evidence_text_kind :: string
  evidence_text_phase :: string
  evidence_value :: Value
  evidence_blob :: "Value option"
  evidence_bytes :: nat
  evidence_time :: string

text \<open>What may go wrong in one call; the finishing of a block is one transaction, named by the key.\<close>

record TextEnv =
  admission_fails :: bool
  lookup_fails :: bool
  start_fails :: bool
  finish_fails :: "string \<Rightarrow> bool"
  append_io :: AppendIo
  fresh_id :: string
  wall_time :: string

section \<open>Names\<close>

definition is_text_delta :: "string \<Rightarrow> bool" where
  "is_text_delta event = (event = ''agent.text.delta'')"

definition event_kind :: "string \<Rightarrow> string" where
  "event_kind event = ''narration''"

definition block_event :: "string \<Rightarrow> string" where
  "block_event kind = ''agent.text.block''"

definition nonblank_str :: "Value \<Rightarrow> string \<Rightarrow> string option" where
  "nonblank_str v field = nonblank (get_str v field)"

definition native_identity :: "Value \<Rightarrow> string \<Rightarrow> string option" where
  "native_identity payload kind =
     find_map (nonblank_str payload) ([''itemId'', ''messageId''] @ (if kind \<noteq> ''narration'' then [''toolCallId''] else []))"

definition int_number :: "int \<Rightarrow> Value" where
  "int_number i = Number (if 0 \<le> i then PosInt (nat i) else NegInt i)"

definition block_key :: "(Value \<Rightarrow> string) \<Rightarrow> string \<Rightarrow> int \<Rightarrow> string \<Rightarrow> string option \<Rightarrow> string" where
  "block_key json run epoch kind native =
     json (Array [JString run, int_number epoch, JString kind, case native of None \<Rightarrow> Null | Some n \<Rightarrow> JString n])"

definition source_key :: "(Value \<Rightarrow> string) \<Rightarrow> int \<Rightarrow> string \<Rightarrow> string \<Rightarrow> string" where
  "source_key json epoch kind native = ''text-block:'' @ block_key json [] epoch kind (Some native)"

definition foreign_fields :: "string list" where
  "foreign_fields =
     [''agentId'', ''sourceAgentId'', ''subagentId'', ''parentAgentId'', ''parentSessionId'', ''parent_tool_use_id'',
      ''parentToolCallId'', ''parent_tool_call_id'', ''opencode/child-session'', ''subAgentId'', ''source_agent_id'',
      ''codebuddy.ai/parentToolCallId'', ''replay'', ''isReplay'', ''historical'', ''snapshot'', ''isSnapshot'']"

definition output_scopes :: "Value \<Rightarrow> Value list" where
  "output_scopes payload =
     (let at = field_or_null in
      [payload, at payload ''_meta'', at payload ''content'', at (at payload ''content'') ''_meta'', at payload ''message'',
       at payload ''assistantMessageEvent'', at (at payload ''assistantMessageEvent'') ''partial'', at payload ''payload'',
       at (at payload ''payload'') ''_meta'', at (at payload ''_meta'') ''github.com/copilot''])"

definition is_root_output :: "Value \<Rightarrow> bool" where
  "is_root_output payload =
     (get payload ''runtimeRootOutput'' \<noteq> Some (Bool False)
      \<and> list_all (\<lambda>v. \<not> list_ex (\<lambda>field. case get v field of None \<Rightarrow> False | Some w \<Rightarrow> w \<noteq> Null \<and> w \<noteq> Bool False) foreign_fields)
          (output_scopes payload))"

definition admitted :: "TextWorld \<Rightarrow> string \<Rightarrow> int \<Rightarrow> bool" where
  "admitted w run epoch =
     (case world_runs w run of
        None \<Rightarrow> False
      | Some r \<Rightarrow> run_epoch r = epoch \<and> run_status r \<in> {''running'', ''waiting''} \<and> run_cancel_requested_at r = None)"

section \<open>Blocks\<close>

definition block_payload :: "TextBlock \<Rightarrow> string \<Rightarrow> string \<Rightarrow> nat \<Rightarrow> Value" where
  "block_payload b text' status units =
     Object [(''blockId'', JString (block_id b)), (''itemId'', JString (block_id b)),
       (''nativeItemId'', optional_value (block_native b)), (''text'', JString text'), (''status'', JString status),
       (''textLength'', Number (PosInt units)), (''blockStartedAt'', JString (block_started_at b)),
       (''contentLimitExceeded'', Bool False)]"

definition block_evidence :: "(Value \<Rightarrow> string) \<Rightarrow> TextBlock \<Rightarrow> Value \<Rightarrow> string \<Rightarrow> TextEvidence" where
  "block_evidence json b payload phase =
     \<lparr>evidence_row_id = block_id b, evidence_run = block_run b, evidence_epoch = block_epoch b,
      evidence_row_sequence = block_sequence b, evidence_revision = Some (block_revision b),
      evidence_change_sequence = Some (block_change_sequence b), evidence_type = block_event (block_kind b),
      evidence_text_kind = block_kind b, evidence_text_phase = phase, evidence_value = payload, evidence_blob = None,
      evidence_bytes = length (json payload), evidence_time = block_started_at b\<rparr>"

definition max_sequence :: "TextWorld \<Rightarrow> string \<Rightarrow> int" where
  "max_sequence w run = fold max (map text_row_sequence (filter (\<lambda>r. text_row_run r = run) (world_rows w))) 0"

definition allocate_change_sequence :: "string \<Rightarrow> TextWorld \<Rightarrow> (int \<times> TextWorld) option" where
  "allocate_change_sequence run w =
     map_option (\<lambda>r.
         (let next_sequence = max (run_change_sequence r) (max_sequence w run) + 1 in
          (next_sequence, w\<lparr>world_runs := (world_runs w)(run := Some (r\<lparr>run_change_sequence := next_sequence\<rparr>))\<rparr>)))
       (world_runs w run)"

definition start_block ::
    "(Value \<Rightarrow> string) \<Rightarrow> TextEnv \<Rightarrow> string \<Rightarrow> int \<Rightarrow> string \<Rightarrow> string option \<Rightarrow> TextWorld \<Rightarrow> string + (TextBlock \<times> TextWorld)" where
  "start_block json env run epoch kind native w =
     (if start_fails env then Inl ''start failed''
      else
        (case allocate_change_sequence run w of
           None \<Rightarrow> Inl ''AgentRun does not exist while allocating an Evidence change sequence''
         | Some (change_sequence, w') \<Rightarrow>
             (let b = \<lparr>block_id = fresh_id env, block_run = run, block_epoch = epoch, block_native = native, block_kind = kind,
                  block_sequence = max_sequence w run + 1, block_revision = 1, block_change_sequence = change_sequence,
                  block_started_at = wall_time env, block_body = empty_body, block_utf16 = 0\<rparr>;
                  payload = block_payload b [] ''streaming'' 0;
                  r = \<lparr>text_row_id = block_id b, text_row_run = run, text_row_epoch = epoch, text_row_sequence = block_sequence b,
                    text_row_event_type = block_event kind, text_row_kind = kind, text_row_phase = ''updated'',
                    text_row_source_key = map_option (source_key json epoch kind) native, text_row_preview = payload,
                    text_row_blob = None, text_row_bytes = length (json payload), text_row_occurred_at = block_started_at b,
                    text_row_revision = 1, text_row_change_sequence = change_sequence, text_row_updated_at = block_started_at b\<rparr>
              in Inr (b, w'\<lparr>world_rows := world_rows w' @ [r]\<rparr>))))"

definition set_blocks :: "((string \<times> TextBlock) list \<Rightarrow> (string \<times> TextBlock) list) \<Rightarrow> TextWorld \<Rightarrow> TextWorld" where
  "set_blocks f w = w\<lparr>buffer := (buffer w)\<lparr>blocks := f (blocks (buffer w))\<rparr>\<rparr>"

abbreviation open_blocks :: "TextWorld \<Rightarrow> (string \<times> TextBlock) list" where
  "open_blocks w \<equiv> blocks (buffer w)"

text \<open>
  Finishing a block: its row gets the text that the runtime says is complete, or else what was streamed; a long
  payload goes into a blob, and its row keeps the beginning. Any failure leaves the block open.
\<close>

definition INLINE_PAYLOAD_BYTES :: nat where "INLINE_PAYLOAD_BYTES = 16 * 1024"
definition PREVIEW_CHARS :: nat where "PREVIEW_CHARS = 4000"

definition finished_row :: "TextRow \<Rightarrow> Value \<Rightarrow> Value option \<Rightarrow> string \<Rightarrow> nat \<Rightarrow> int \<Rightarrow> int \<Rightarrow> string \<Rightarrow> TextRow" where
  "finished_row r preview blob phase bytes row_revision change_sequence now =
     r\<lparr>text_row_phase := phase, text_row_preview := preview, text_row_blob := blob, text_row_bytes := bytes,
       text_row_revision := row_revision, text_row_change_sequence := change_sequence, text_row_updated_at := now\<rparr>"

definition finish ::
    "(Value \<Rightarrow> string) \<Rightarrow> TextEnv \<Rightarrow> string \<Rightarrow> string option \<Rightarrow> string \<Rightarrow> TextWorld \<Rightarrow> (string + TextEvidence option) \<times> TextWorld" where
  "finish json env k authoritative status w =
     (case map_of (open_blocks w) k of
        None \<Rightarrow> (Inr None, w)
      | Some b \<Rightarrow>
          (let text' = (case authoritative of Some t \<Rightarrow> t | None \<Rightarrow> body_text (block_body b));
               payload = block_payload b text' status (utf16_units text');
               encoded = length (json payload);
               blob = (if encoded > INLINE_PAYLOAD_BYTES then Some payload else None);
               preview = (if blob \<noteq> None then set_field ''text'' (JString (take_chars PREVIEW_CHARS text')) payload else payload);
               phase = (if status = ''completed'' then ''completed'' else ''failed'');
               row_revision = min (2 ^ 63 - 1) (block_revision b + 1) in
           if finish_fails env k then (Inl ''finish failed'', w)
           else
             (case allocate_change_sequence (block_run b) w of
                None \<Rightarrow> (Inl ''AgentRun does not exist while allocating an Evidence change sequence'', w)
              | Some (change_sequence, w') \<Rightarrow>
                  if length (filter (\<lambda>r. text_row_id r = block_id b) (world_rows w')) \<noteq> 1
                  then (Inl ''Execution text block disappeared before finalization'', w)
                  else
                    (Inr (Some ((block_evidence json b payload phase)
                        \<lparr>evidence_blob := blob, evidence_revision := Some row_revision,
                         evidence_change_sequence := Some change_sequence, evidence_bytes := encoded\<rparr>)),
                     set_blocks (bm_remove k)
                       (w'\<lparr>world_rows := map (\<lambda>r. if text_row_id r = block_id b
                          then finished_row r preview blob phase encoded row_revision change_sequence (wall_time env) else r)
                          (world_rows w')\<rparr>)))))"

fun finish_each :: "(Value \<Rightarrow> string) \<Rightarrow> TextEnv \<Rightarrow> string list \<Rightarrow> TextWorld \<Rightarrow> string option \<times> TextWorld" where
  "finish_each json env [] w = (None, w)"
| "finish_each json env (k # ks) w =
     (case finish json env k None ''completed'' w of
        (Inl e, w) \<Rightarrow> (Some e, w)
      | (Inr _, w) \<Rightarrow> finish_each json env ks w)"

section \<open>Events\<close>

definition private_reasoning :: "string \<Rightarrow> Value \<Rightarrow> bool" where
  "private_reasoning event payload =
     (event \<in> {''agent.thought.delta'', ''agent.thought.block'', ''agent.thought.started'', ''agent.thought.completed'',
        ''agent.thinking.title'', ''agent.reasoning.summary.delta'', ''agent.reasoning.summary.block''}
      \<or> Option.bind (pointer payload ''item'' ''type'') as_str = Some ''reasoning'')"

definition native_type_is :: "string \<Rightarrow> Value \<Rightarrow> bool" where
  "native_type_is t payload = (Option.bind (pointer payload ''item'' ''type'') as_str = Some t)"

definition is_completion :: "string \<Rightarrow> Value \<Rightarrow> bool" where
  "is_completion event payload =
     (event = ''agent.text.completed'' \<or> event = ''activity.completed'' \<and> native_type_is ''agentMessage'' payload)"

definition is_boundary :: "string \<Rightarrow> bool" where
  "is_boundary event = (event = ''agent.text.boundary'')"

definition delta_text :: "Value \<Rightarrow> string" where
  "delta_text payload =
     (case or_else (get_str payload ''delta'') (or_else (get_str payload ''text'')
             (Option.bind (pointer payload ''content'' ''text'') as_str)) of
        None \<Rightarrow> [] | Some t \<Rightarrow> t)"

definition completion_native :: "Value \<Rightarrow> string option" where
  "completion_native payload =
     or_else (nonblank (Option.bind (pointer payload ''item'' ''id'') as_str)) (native_identity payload ''narration'')"

definition summary_text :: "Value \<Rightarrow> string option" where
  "summary_text payload =
     map_option (\<lambda>items. join_with [CHR 0x0A] (List.map_filter (\<lambda>v. or_else (as_str v) (get_str v ''text'')) items))
       (Option.bind (pointer payload ''item'' ''summary'') as_array)"

definition complete_text :: "Value \<Rightarrow> string option" where
  "complete_text payload =
     (case or_else (Option.bind (or_else (pointer payload ''item'' ''text'') (get payload ''text'')) as_str) (summary_text payload) of
        None \<Rightarrow> None
      | Some t \<Rightarrow> if t = [] then None else Some t)"

definition completion_status :: "Value \<Rightarrow> string" where
  "completion_status payload =
     (case Option.bind (or_else (pointer payload ''item'' ''status'') (get payload ''status'')) as_str of
        None \<Rightarrow> ''completed''
      | Some s \<Rightarrow> if s \<in> {''failed'', ''interrupted'', ''cancelled'', ''aborted'', ''error''} then ''interrupted'' else ''completed'')"

text \<open>The anonymous blocks of an execution.\<close>

definition anonymous_keys :: "(string option \<Rightarrow> string \<Rightarrow> bool) \<Rightarrow> string \<Rightarrow> int \<Rightarrow> TextWorld \<Rightarrow> string list" where
  "anonymous_keys P run epoch w =
     map fst (filter (\<lambda>(k, b). block_run b = run \<and> block_epoch b = epoch \<and> block_native b = None
        \<and> P (block_native b) (block_kind b)) (open_blocks w))"

definition native_known :: "(Value \<Rightarrow> string) \<Rightarrow> string \<Rightarrow> int \<Rightarrow> string \<Rightarrow> string \<Rightarrow> TextWorld \<Rightarrow> bool" where
  "native_known json run epoch kind native w =
     list_ex (\<lambda>r. text_row_run r = run \<and> text_row_epoch r = epoch
        \<and> text_row_source_key r = Some (source_key json epoch kind native)) (world_rows w)"

text \<open>
  The block of a key, opened if there is none: \<open>None\<close> if the native item has a row already and is
  not open any more.
\<close>

definition open_block ::
    "(Value \<Rightarrow> string) \<Rightarrow> TextEnv \<Rightarrow> string \<Rightarrow> int \<Rightarrow> string \<Rightarrow> string option \<Rightarrow> TextWorld \<Rightarrow> string + TextWorld option" where
  "open_block json env run epoch kind native w =
     (if native \<noteq> None \<and> lookup_fails env then Inl ''lookup failed''
      else if (case native of None \<Rightarrow> False | Some n \<Rightarrow> native_known json run epoch kind n w) then Inr None
      else
        (case start_block json env run epoch kind native w of
           Inl e \<Rightarrow> Inl e
         | Inr (b, w) \<Rightarrow> Inr (Some (set_blocks (bm_insert (block_key json run epoch kind native) b) w))))"

definition too_many_blocks :: string where
  "too_many_blocks = ''Too many unfinished Execution text items (limit 128)''"

definition live_evidence :: "(Value \<Rightarrow> string) \<Rightarrow> TextBlock \<Rightarrow> string \<Rightarrow> string \<Rightarrow> nat \<Rightarrow> TextEvidence" where
  "live_evidence json b event text' offset =
     (block_evidence json b
        (Object [(''itemId'', JString (block_id b)), (''blockId'', JString (block_id b)), (''delta'', JString text'),
           (''textOffset'', Number (PosInt offset)), (''blockStartedAt'', JString (block_started_at b))]) ''updated'')
       \<lparr>evidence_row_id := block_id b @ '':delta:'' @ dec offset, evidence_type := event, evidence_revision := None,
        evidence_change_sequence := None\<rparr>"

definition append_delta ::
    "(Value \<Rightarrow> string) \<Rightarrow> TextEnv \<Rightarrow> string \<Rightarrow> string \<Rightarrow> string \<Rightarrow> TextWorld \<Rightarrow> (string + TextEvidence option option) \<times> TextWorld" where
  "append_delta json env k event text' w =
     (case map_of (open_blocks w) k of
        None \<Rightarrow> (Inl ''created block'', w)
      | Some b \<Rightarrow>
          (case body_append (append_io env) text' (block_body b) of
             (Some e, body) \<Rightarrow> (Inl e, set_blocks (bm_insert k (b\<lparr>block_body := body\<rparr>)) w)
           | (None, body) \<Rightarrow>
               (Inr (Some (Some (live_evidence json b event text' (block_utf16 b)))),
                set_blocks (bm_insert k (b\<lparr>block_body := body, block_utf16 := block_utf16 b + utf16_units text'\<rparr>)) w)))"

definition observe_delta ::
    "(Value \<Rightarrow> string) \<Rightarrow> TextEnv \<Rightarrow> string \<Rightarrow> int \<Rightarrow> string \<Rightarrow> Value \<Rightarrow> TextWorld \<Rightarrow> (string + TextEvidence option option) \<times> TextWorld" where
  "observe_delta json env run epoch event payload w =
     (let kind = event_kind event; native = native_identity payload kind in
      case finish_each json env (anonymous_keys (\<lambda>n k. native \<noteq> None \<or> k \<noteq> kind) run epoch w) w of
        (Some e, w) \<Rightarrow> (Inl e, w)
      | (None, w) \<Rightarrow>
          (let text' = delta_text payload; k = block_key json run epoch kind native in
           if text' = [] then (Inr (Some None), w)
           else if map_of (open_blocks w) k \<noteq> None then append_delta json env k event text' w
           else if MAX_OPEN_BLOCKS \<le> length (open_blocks w) then (Inl too_many_blocks, w)
           else
             (case open_block json env run epoch kind native w of
                Inl e \<Rightarrow> (Inl e, w)
              | Inr None \<Rightarrow> (Inr (Some None), w)
              | Inr (Some w) \<Rightarrow> append_delta json env k event text' w)))"

definition observe_completion ::
    "(Value \<Rightarrow> string) \<Rightarrow> TextEnv \<Rightarrow> string \<Rightarrow> int \<Rightarrow> Value \<Rightarrow> TextWorld \<Rightarrow> (string + TextEvidence option option) \<times> TextWorld" where
  "observe_completion json env run epoch payload w =
     (let native = completion_native payload; k = block_key json run epoch ''narration'' native; text' = complete_text payload;
          done = (\<lambda>w. case finish json env k text' (completion_status payload) w of
             (Inl e, w) \<Rightarrow> (Inl e, w) | (Inr r, w) \<Rightarrow> (Inr (Some r), w)) in
      if map_of (open_blocks w) k \<noteq> None then done w
      else if MAX_OPEN_BLOCKS \<le> length (open_blocks w) then (Inl too_many_blocks, w)
      else if text' = None then (Inr (Some None), w)
      else
        (case open_block json env run epoch ''narration'' native w of
           Inl e \<Rightarrow> (Inl e, w)
         | Inr None \<Rightarrow> (Inr (Some None), w)
         | Inr (Some w) \<Rightarrow> done w))"

text \<open>
  What an event does: \<open>Some None\<close> is an event that is handled and not public, \<open>None\<close> one that is no text.
\<close>

definition closes_anonymous :: "string \<Rightarrow> bool" where
  "closes_anonymous event =
     (is_boundary event \<or> event \<in> {''runtime.action'', ''activity.started'', ''activity.completed'', ''runtime.plan'',
        RUNTIME_COMPACTION_DISPLAY_EVENT})"

definition observe_text ::
    "(Value \<Rightarrow> string) \<Rightarrow> TextEnv \<Rightarrow> string \<Rightarrow> int \<Rightarrow> string \<Rightarrow> Value \<Rightarrow> TextWorld \<Rightarrow> (string + TextEvidence option option) \<times> TextWorld" where
  "observe_text json env run epoch event payload w =
     (let delta = is_text_delta event; native_text = native_type_is ''agentMessage'' payload;
          native_user = native_type_is ''userMessage'' payload; private = private_reasoning event payload;
          completion = is_completion event payload; boundary = is_boundary event in
      if (delta \<or> native_text \<or> completion \<or> boundary \<or> private)
        \<and> (\<not> is_root_output payload \<or> \<not> is_root_output (field_or_null payload ''item'')) then (Inr (Some None), w)
      else if admission_fails env then (Inl ''admission failed'', w)
      else if \<not> admitted w run epoch then
        (Inr (if delta \<or> private \<or> native_text \<or> native_user \<or> completion \<or> boundary then Some None else None), w)
      else if private then
        (case finish_each json env (anonymous_keys (\<lambda>_ _. True) run epoch w) w of
           (Some e, w) \<Rightarrow> (Inl e, w) | (None, w) \<Rightarrow> (Inr (Some None), w))
      else if delta then observe_delta json env run epoch event payload w
      else if completion then observe_completion json env run epoch payload w
      else if event = ''activity.started'' \<and> native_text then (Inr (Some None), w)
      else
        (case (if closes_anonymous event then finish_each json env (anonymous_keys (\<lambda>_ _. True) run epoch w) w else (None, w)) of
           (Some e, w) \<Rightarrow> (Inl e, w)
         | (None, w) \<Rightarrow>
             (Inr (if boundary \<or> native_user \<and> event \<in> {''activity.started'', ''activity.completed''} then Some None else None), w)))"

section \<open>Maintenance\<close>

definition retry_delay :: "nat \<Rightarrow> nat" where
  "retry_delay failures = min (RETRY_INITIAL_DELAY * 2 ^ min (failures - 1) 6) RETRY_MAX_DELAY"

definition set_retry :: "FlushRetry option \<Rightarrow> TextWorld \<Rightarrow> TextWorld" where
  "set_retry r w = w\<lparr>buffer := (buffer w)\<lparr>retry := r\<rparr>\<rparr>"

definition schedule_retry :: "nat \<Rightarrow> TextWorld \<Rightarrow> TextWorld" where
  "schedule_retry now w =
     (let failures = (case retry (buffer w) of None \<Rightarrow> 1 | Some r \<Rightarrow> min (2 ^ 32 - 1) (retry_failures r + 1)) in
      set_retry (Some \<lparr>retry_failures = failures, retry_not_before = now + retry_delay failures\<rparr>) w)"

definition request_settlement :: "nat \<Rightarrow> TextWorld \<Rightarrow> TextWorld" where
  "request_settlement now w =
     (if open_blocks w = [] \<or> retry (buffer w) \<noteq> None then w
      else set_retry (Some \<lparr>retry_failures = 0, retry_not_before = now\<rparr>) w)"

definition retry_deadline :: "TextWorld \<Rightarrow> nat option" where
  "retry_deadline w = map_option retry_not_before (retry (buffer w))"

text \<open>With what status a block is to be finished, if its run is not going on.\<close>

definition close_status :: "TextWorld \<Rightarrow> TextBlock \<Rightarrow> string option" where
  "close_status w b =
     (case world_runs w (block_run b) of
        Some r \<Rightarrow>
          if run_epoch r = block_epoch b then
            (if run_cancel_requested_at r \<noteq> None \<or> run_status r \<in> {''succeeded'', ''failed'', ''cancelled''}
             then Some (if run_status r = ''succeeded'' \<and> run_cancel_requested_at r = None then ''completed'' else ''interrupted'')
             else None)
          else Some ''interrupted''
      | None \<Rightarrow> Some ''interrupted'')"

definition closable :: "TextWorld \<Rightarrow> (string \<times> string) list" where
  "closable w = List.map_filter (\<lambda>(k, b). map_option (\<lambda>status. (k, status)) (close_status w b)) (open_blocks w)"

text \<open>
  One attempt. With a deadline, the clock is looked at before each block is examined and before each is
  finished; \<open>looks\<close> counts the looks before it has passed. What was finished before a failure remains.
\<close>

fun flush_closable ::
    "(Value \<Rightarrow> string) \<Rightarrow> TextEnv \<Rightarrow> nat option \<Rightarrow> (string \<times> string) list \<Rightarrow> TextWorld \<Rightarrow>
     TextEvidence list \<times> string option \<times> TextWorld" where
  "flush_closable json env looks [] w = ([], None, w)"
| "flush_closable json env looks ((k, status) # ks) w =
     (if looks = Some 0 then ([], Some ''Execution text shutdown persistence exceeded its deadline'', w)
      else
        (case finish json env k None status w of
           (Inl e, w) \<Rightarrow> ([], Some e, w)
         | (Inr r, w) \<Rightarrow>
             (let (finalized, e, w) = flush_closable json env (map_option (\<lambda>n. n - 1) looks) ks w
              in ((case r of None \<Rightarrow> [] | Some x \<Rightarrow> [x]) @ finalized, e, w))))"

definition attempt_flush_settled ::
    "(Value \<Rightarrow> string) \<Rightarrow> TextEnv \<Rightarrow> nat option \<Rightarrow> TextWorld \<Rightarrow> TextEvidence list \<times> string option \<times> TextWorld" where
  "attempt_flush_settled json env looks w =
     (let late = ''Execution text shutdown persistence exceeded its deadline'' in
      if looks = Some 0 \<and> open_blocks w \<noteq> [] then ([], Some late, w)
      else if lookup_fails env \<and> open_blocks w \<noteq> [] then ([], Some ''lookup failed'', w)
      else if (case looks of None \<Rightarrow> False | Some n \<Rightarrow> n < length (open_blocks w)) then ([], Some late, w)
      else flush_closable json env (map_option (\<lambda>n. n - length (open_blocks w)) looks) (closable w) w)"

record MaintenanceOutcome =
  outcome_attempted :: bool
  outcome_finalized :: "TextEvidence list"
  outcome_error :: "string option"

definition maintain_settled_until ::
    "(Value \<Rightarrow> string) \<Rightarrow> TextEnv \<Rightarrow> nat \<Rightarrow> nat option \<Rightarrow> TextWorld \<Rightarrow> MaintenanceOutcome \<times> TextWorld" where
  "maintain_settled_until json env now looks w =
     (let due = (case retry (buffer w) of None \<Rightarrow> False | Some r \<Rightarrow> retry_not_before r \<le> now);
          idle = \<lparr>outcome_attempted = False, outcome_finalized = [], outcome_error = None\<rparr> in
      if \<not> due \<and> looks = None then (idle, w)
      else if open_blocks w = [] then (idle, set_retry None w)
      else
        (case attempt_flush_settled json env looks w of
           (finalized, e, w) \<Rightarrow>
             (\<lparr>outcome_attempted = True, outcome_finalized = finalized, outcome_error = e\<rparr>,
              if e \<noteq> None then schedule_retry now w else set_retry None w)))"

definition maintain_settled :: "(Value \<Rightarrow> string) \<Rightarrow> TextEnv \<Rightarrow> nat \<Rightarrow> TextWorld \<Rightarrow> MaintenanceOutcome \<times> TextWorld" where
  "maintain_settled json env now = maintain_settled_until json env now None"

definition settle_before_shutdown :: "(Value \<Rightarrow> string) \<Rightarrow> TextEnv \<Rightarrow> nat \<Rightarrow> nat \<Rightarrow> TextWorld \<Rightarrow> MaintenanceOutcome \<times> TextWorld" where
  "settle_before_shutdown json env now looks = maintain_settled_until json env now (Some looks)"

section \<open>Reading while text is streamed\<close>

definition live_payload :: "TextWorld \<Rightarrow> string \<Rightarrow> Value option" where
  "live_payload w i =
     map_option (\<lambda>(k, b). block_payload b (body_text (block_body b)) ''streaming'' (block_utf16 b))
       (find (\<lambda>(k, b). block_id b = i) (open_blocks w))"

definition overlay :: "(Value \<Rightarrow> string) \<Rightarrow> TextWorld \<Rightarrow> (string \<times> Value \<times> nat) list \<Rightarrow> (string \<times> Value \<times> nat) list" where
  "overlay json w views =
     map (\<lambda>(i, payload, bytes). case live_payload w i of None \<Rightarrow> (i, payload, bytes) | Some p \<Rightarrow> (i, p, length (json p))) views"

end
