(* ===== verification/Text_Safety.thy ===== *)
theory Text_Safety
  imports Execution_Text
begin

text \<open>
  What becomes of streamed text: over every history of events, failures, maintenance and changes of the
  runs by others, an open block holds exactly what was streamed to it, and a finished row holds that,
  or the text the runtime called complete. The one exception is a block whose file could not be cut back
  after a failed write; the log names it.
\<close>

section \<open>Logs\<close>

text \<open>
  What the callers were told: the deltas they passed on, and the complete texts. Beside that the log names the
  blocks with a torn file, and it begins with the rows that were there before.
\<close>

datatype TextLog = Streamed string string | Completed string string | Torn string | Earlier TextRow

definition log_of :: "Value \<Rightarrow> string + TextEvidence option option \<Rightarrow> TextLog list" where
  "log_of payload r =
     (case r of
        Inr (Some (Some e)) \<Rightarrow>
          (case (get_str (evidence_value e) ''blockId'', get_str (evidence_value e) ''delta'', complete_text payload) of
             (Some i, Some d, _) \<Rightarrow> [Streamed i d]
           | (Some i, None, Some t) \<Rightarrow> [Completed i t]
           | _ \<Rightarrow> [])
      | _ \<Rightarrow> [])"

fun log_id :: "TextLog \<Rightarrow> string" where
  "log_id (Streamed i d) = i"
| "log_id (Completed i t) = i"
| "log_id (Torn i) = i"
| "log_id (Earlier r) = text_row_id r"

fun streamed :: "string \<Rightarrow> TextLog list \<Rightarrow> string" where
  "streamed i [] = []"
| "streamed i (Streamed j d # log) = (if j = i then d @ streamed i log else streamed i log)"
| "streamed i (Completed j t # log) = streamed i log"
| "streamed i (Torn j # log) = streamed i log"
| "streamed i (Earlier r # log) = streamed i log"

fun completed_text :: "string \<Rightarrow> TextLog list \<Rightarrow> string option" where
  "completed_text i [] = None"
| "completed_text i (Streamed j d # log) = completed_text i log"
| "completed_text i (Completed j t # log) = (if j = i then Some t else completed_text i log)"
| "completed_text i (Torn j # log) = completed_text i log"
| "completed_text i (Earlier r # log) = completed_text i log"

definition final_text :: "string \<Rightarrow> TextLog list \<Rightarrow> string" where
  "final_text i log = (case completed_text i log of None \<Rightarrow> streamed i log | Some t \<Rightarrow> t)"

lemma log_of_simps [simp]:
  "log_of payload (Inl e) = []" "log_of payload (Inr None) = []" "log_of payload (Inr (Some None)) = []"
  by (simp_all add: log_of_def)

lemma or_else_None [simp]: "or_else None x = x" "or_else x None = x"
  by (cases x; simp add: or_else_def)+

lemma streamed_append [simp]: "streamed i (log @ log') = streamed i log @ streamed i log'"
  by (induction i log rule: streamed.induct) auto

lemma completed_append [simp]: "completed_text i (log @ log') = or_else (completed_text i log) (completed_text i log')"
  by (induction i log rule: completed_text.induct) (auto simp: or_else_def)

lemma unknown_id: "i \<notin> log_id ` set log \<Longrightarrow> streamed i log = [] \<and> completed_text i log = None"
  by (induction i log rule: streamed.induct) auto

section \<open>Bodies\<close>

definition body_ok :: "Body \<Rightarrow> bool" where
  "body_ok b = (body_bytes b = length (body_text b))"

text \<open>A write fails, and then the file cannot be cut back either: part of the text may stay in it.\<close>

definition io_torn :: "AppendIo \<Rightarrow> bool" where
  "io_torn io = (written_before_failure io \<noteq> None \<and> \<not> cut_back io)"

text \<open>The blocks whose file is then longer than it is accounted for.\<close>

definition tears :: "TextEnv \<Rightarrow> TextWorld \<Rightarrow> TextLog list" where
  "tears env w =
     (if io_torn (append_io env)
      then map (\<lambda>(k, b). Torn (block_id b)) (filter (\<lambda>(k, b). \<not> body_ok (block_body b)) (open_blocks w)) else [])"

lemma streamed_tears [simp]: "streamed i (tears env w) = []"
proof -
  have "streamed i (map (\<lambda>(k, b). Torn (block_id b)) bs) = []" for bs :: "(string \<times> TextBlock) list" by (induction bs) auto
  then show ?thesis by (simp add: tears_def)
qed

lemma completed_tears [simp]: "completed_text i (tears env w) = None"
proof -
  have "completed_text i (map (\<lambda>(k, b). Torn (block_id b)) bs) = None" for bs :: "(string \<times> TextBlock) list" by (induction bs) auto
  then show ?thesis by (simp add: tears_def)
qed

lemma earlier_tears [simp]: "Earlier r \<notin> set (tears env w)"
  by (auto simp: tears_def)

lemma earlier_log_of [simp]: "Earlier r \<notin> set (log_of payload x)" "Torn i \<notin> set (log_of payload x)"
  by (auto simp: log_of_def split: sum.splits option.splits)

lemma untorn:
  assumes "map_of (open_blocks w) k = Some b" and "Torn (block_id b) \<notin> set (tears env w)" and "io_torn (append_io env)"
  shows "body_ok (block_body b)"
  using assms map_of_SomeD [OF assms(1)] by (force simp: tears_def)

lemma move_to_spool_text: "move_to_spool io b = Inr b' \<Longrightarrow> body_spool b = None \<Longrightarrow> body_text b' = body_text b \<and> body_bytes b' = body_bytes b"
  by (auto simp: move_to_spool_def body_text_def split: if_split_asm)

text \<open>
  Appending keeps all of the text or, when it fails, exactly the text before, unless what a failed write has
  left behind cannot be cut off again.
\<close>

lemma body_append_text:
  assumes "body_append io t b = (r, b')" and "body_ok b"
  shows "io_torn io \<and> r \<noteq> None \<and> \<not> body_ok b' \<or> body_ok b' \<and> body_text b' = body_text b @ (if r = None then t else [])"
proof -
  define c where "c = (if body_spool b = None \<and> body_bytes b + length t > MEMORY_BYTES then move_to_spool io b else Inr b)"
  show ?thesis
  proof (cases c)
    case (Inl e)
    then have "r = Some e \<and> b' = b" using assms(1) unfolding body_append_def c_def [symmetric] by simp
    then show ?thesis using assms(2) by simp
  next
    case (Inr d)
    then have d: "body_text d = body_text b" "body_bytes d = body_bytes b"
      using move_to_spool_text [of io b d] by (auto simp: c_def split: if_split_asm)
    show ?thesis
      using assms d Inr unfolding body_append_def c_def [symmetric]
      by (auto simp: body_ok_def body_text_def io_torn_def min_def split: option.split_asm if_split_asm)
  qed
qed

text \<open>
  A torn file goes on being used: what is streamed next is written behind the partial frame, and the next cut,
  which counts the accepted bytes only, cuts off accepted text.
\<close>

lemma uncut_frame_corrupts_text:
  fixes io :: AppendIo
  defines "io \<equiv> \<lparr>spool_created = True, memory_copied = True, end_found = True, written_before_failure = None, cut_back = True\<rparr>"
  shows "(let b = \<lparr>body_memory = [], body_spool = Some ''ab'', body_bytes = 2\<rparr>;
            (r1, b1) = body_append (io\<lparr>written_before_failure := Some 1, cut_back := False\<rparr>) ''xy'' b;
            (r2, b2) = body_append io ''cd'' b1;
            (r3, b3) = body_append (io\<lparr>written_before_failure := Some 0\<rparr>) ''ef'' b2
          in r1 \<noteq> None \<and> r2 = None \<and> body_text b2 = ''abxcd'' \<and> r3 \<noteq> None \<and> body_text b3 = ''abxc'')"
  by (simp add: io_def body_append_def body_text_def)

lemma utf16_units_append: "utf16_units (s @ t) = utf16_units s + utf16_units t"
  by (simp add: utf16_units_def char_count_def)

section \<open>The invariant\<close>

definition row_text :: "TextRow \<Rightarrow> string option" where
  "row_text r = (case text_row_blob r of Some p \<Rightarrow> get_str p ''text'' | None \<Rightarrow> get_str (text_row_preview r) ''text'')"

definition is_text_row :: "TextRow \<Rightarrow> bool" where
  "is_text_row r = (text_row_event_type r = ''agent.text.block'')"

definition block_ok :: "TextLog list \<Rightarrow> TextBlock \<Rightarrow> bool" where
  "block_ok log b =
     (block_utf16 b = utf16_units (streamed (block_id b) log) \<and> completed_text (block_id b) log = None
      \<and> (Torn (block_id b) \<notin> set log \<longrightarrow> body_ok (block_body b) \<and> body_text (block_body b) = streamed (block_id b) log))"

definition open_id :: "TextWorld \<Rightarrow> string \<Rightarrow> bool" where
  "open_id w i = (\<exists>k b. map_of (open_blocks w) k = Some b \<and> block_id b = i)"

text \<open>The text of a finished block, as far as it is known: all but torn text.\<close>

definition known_text :: "string \<Rightarrow> TextLog list \<Rightarrow> string \<Rightarrow> bool" where
  "known_text i log t = (Torn i \<notin> set log \<or> completed_text i log \<noteq> None \<longrightarrow> t = final_text i log)"

text \<open>A row written here: still streaming, or final; a row that was there before belongs to no open block.\<close>

definition row_ok :: "TextWorld \<Rightarrow> TextLog list \<Rightarrow> TextRow \<Rightarrow> bool" where
  "row_ok w log r =
     (if is_text_row r \<and> Earlier r \<notin> set log
      then (if text_row_phase r = ''updated'' then open_id w (text_row_id r)
            else \<not> open_id w (text_row_id r)
              \<and> (\<exists>t. row_text r = Some t \<and> known_text (text_row_id r) log t))
      else \<not> open_id w (text_row_id r))"

lemma row_ok_world: "open_id w' (text_row_id r) = open_id w (text_row_id r) \<Longrightarrow> row_ok w log r \<Longrightarrow> row_ok w' log r"
  by (simp only: row_ok_def)

text \<open>How a log may grow without touching what is said of the blocks with other identifiers.\<close>

definition log_grows :: "string \<Rightarrow> TextLog list \<Rightarrow> TextLog list \<Rightarrow> bool" where
  "log_grows i log log' =
     ((\<forall>j. j \<noteq> i \<longrightarrow> streamed j log' = streamed j log \<and> completed_text j log' = completed_text j log)
      \<and> (\<forall>j. Torn j \<in> set log \<longrightarrow> Torn j \<in> set log') \<and> (\<forall>r. Earlier r \<in> set log' \<longleftrightarrow> Earlier r \<in> set log))"

lemma log_grows_refl [simp]: "log_grows i log log"
  by (simp add: log_grows_def)

lemma log_grows_block: "log_grows i log log' \<Longrightarrow> block_id b \<noteq> i \<Longrightarrow> block_ok log b \<Longrightarrow> block_ok log' b"
  by (auto simp: log_grows_def block_ok_def)

lemma log_grows_row:
  assumes "log_grows i log log'" and "text_row_id r \<noteq> i" and "row_ok w log r"
  shows "row_ok w log' r"
proof -
  have "streamed (text_row_id r) log' = streamed (text_row_id r) log" "completed_text (text_row_id r) log' = completed_text (text_row_id r) log"
    using assms(1,2) by (simp_all add: log_grows_def)
  then have "known_text (text_row_id r) log t \<Longrightarrow> known_text (text_row_id r) log' t" for t
    using assms(1) by (auto simp: known_text_def final_text_def log_grows_def split: option.split)
  then show ?thesis using assms(1,3) unfolding row_ok_def log_grows_def by auto
qed

lemma log_grows_tears:
  "log_grows i log (log @ Streamed i d # tears env w)"
  "log_grows i log (log @ [Completed i t])"
  by (auto simp: log_grows_def or_else_def split: option.split)

definition text_inv :: "TextWorld \<Rightarrow> TextLog list \<Rightarrow> bool" where
  "text_inv w log \<longleftrightarrow>
     bm_ok (open_blocks w) \<and> length (open_blocks w) \<le> MAX_OPEN_BLOCKS
     \<and> (\<forall>k b. map_of (open_blocks w) k = Some b \<longrightarrow> block_ok log b)
     \<and> (\<forall>k b k' b'. map_of (open_blocks w) k = Some b \<longrightarrow> map_of (open_blocks w) k' = Some b' \<longrightarrow> block_id b = block_id b' \<longrightarrow> k = k')
     \<and> (\<forall>r \<in> set (world_rows w). row_ok w log r)"

lemma inv_tears: "text_inv w log \<Longrightarrow> text_inv w (log @ tears env v)"
proof -
  have "block_ok (log @ tears env v) b" if "block_ok log b" for b using that by (auto simp: block_ok_def)
  moreover have "row_ok w (log @ tears env v) r" if "row_ok w log r" for r
    using that by (auto simp: row_ok_def known_text_def final_text_def split: if_split_asm option.split)
  moreover assume "text_inv w log"
  ultimately show ?thesis unfolding text_inv_def by blast
qed

lemma bm_length: "bm_ok m \<Longrightarrow> length m = card (dom (map_of m))"
  by (metis bm_ok_distinct distinct_card dom_map_of_conv_image_fst length_map set_map)

lemma bm_insert_length:
  assumes "bm_ok m"
  shows "length (bm_insert k v m) = length m + (if map_of m k = None then 1 else 0)"
proof -
  have "dom (map_of (bm_insert k v m)) = insert k (dom (map_of m))"
    using assms by (auto simp: map_of_bm_insert)
  moreover have "finite (dom (map_of m))" by (rule finite_dom_map_of)
  ultimately show ?thesis
    using bm_length [OF assms] bm_length [OF bm_ok_insert [OF assms, of k v]] by (auto simp: card_insert_if)
qed

lemma bm_remove_length: "length (bm_remove k m) \<le> length m"
  by (simp add: bm_remove_def)

lemma set_blocks_simps [simp]:
  "open_blocks (set_blocks f w) = f (open_blocks w)"
  "world_rows (set_blocks f w) = world_rows w"
  "world_runs (set_blocks f w) = world_runs w"
  by (simp_all add: set_blocks_def)

section \<open>Finishing\<close>

definition rewritten :: "string \<Rightarrow> (TextRow \<Rightarrow> TextRow) \<Rightarrow> TextRow list \<Rightarrow> TextRow list" where
  "rewritten i g rows = map (\<lambda>r. if text_row_id r = i then g r else r) rows"

lemma allocate_keeps:
  "allocate_change_sequence run w = Some (n, w') \<Longrightarrow> world_rows w' = world_rows w \<and> buffer w' = buffer w"
  by (auto simp: allocate_change_sequence_def Let_def)

lemma block_payload_fields:
  "get_str (block_payload b t status n) ''blockId'' = Some (block_id b)"
  "get_str (block_payload b t status n) ''delta'' = None"
  "get_str (block_payload b t status n) ''text'' = Some t"
  by (simp_all add: block_payload_def get_str_def)

text \<open>Either nothing has happened, or the block is gone and its row holds the text.\<close>

lemma finish_cases:
  assumes "finish json env k auth status w = (r, w')"
  obtains (unchanged) "w' = w" "r = Inr None \<and> map_of (open_blocks w) k = None \<or> (\<exists>e. r = Inl e)"
  | (finished) b e g where "map_of (open_blocks w) k = Some b" "r = Inr (Some e)"
      "get_str (evidence_value e) ''blockId'' = Some (block_id b)" "get_str (evidence_value e) ''delta'' = None"
      "evidence_row_id e = block_id b"
      "open_blocks w' = bm_remove k (open_blocks w)" "retry (buffer w') = retry (buffer w)"
      "world_rows w' = rewritten (block_id b) g (world_rows w)"
      "\<And>r. text_row_id (g r) = text_row_id r" "\<And>r. is_text_row (g r) = is_text_row r"
      "\<And>r. text_row_phase (g r) \<noteq> ''updated''" "\<And>r. text_row_source_key (g r) = text_row_source_key r"
      "\<And>r. row_text (g r) = Some (case auth of Some t \<Rightarrow> t | None \<Rightarrow> body_text (block_body b))"
      "length (filter (\<lambda>r. text_row_id r = block_id b) (world_rows w)) = 1"
proof (cases "map_of (open_blocks w) k")
  case None
  then have same: "w' = w" "r = Inr None" using assms by (simp_all add: finish_def)
  show ?thesis by (rule unchanged) (simp_all add: same None)
next
  case (Some b)
  let ?t = "case auth of Some t \<Rightarrow> t | None \<Rightarrow> body_text (block_body b)"
  let ?p = "block_payload b ?t status (utf16_units ?t)"
  let ?blob = "if length (json ?p) > INLINE_PAYLOAD_BYTES then Some ?p else None"
  let ?preview = "if ?blob \<noteq> None then set_field ''text'' (JString (take_chars PREVIEW_CHARS ?t)) ?p else ?p"
  let ?phase = "if status = ''completed'' then ''completed'' else ''failed''"
  let ?rev = "min (2 ^ 63 - 1) (block_revision b + 1)"
  show ?thesis
  proof (cases "finish_fails env k")
    case True
    then have same: "w' = w" "\<exists>e. r = Inl e" using assms by (auto simp: finish_def Some Let_def)
    show ?thesis by (rule unchanged) (simp_all add: same)
  next
    case ok: False
    show ?thesis
    proof (cases "allocate_change_sequence (block_run b) w")
      case None
      then have same: "w' = w" "\<exists>e. r = Inl e" using assms ok by (auto simp: finish_def Some Let_def)
      show ?thesis by (rule unchanged) (simp_all add: same)
    next
      case (Some a)
      note alloc = this
      obtain n v where a: "a = (n, v)" by (cases a)
      have v: "world_rows v = world_rows w" "buffer v = buffer w" using allocate_keeps alloc a by blast+
      show ?thesis
      proof (cases "length (filter (\<lambda>r. text_row_id r = block_id b) (world_rows w)) = 1")
        case False
        then have same: "w' = w" "\<exists>e. r = Inl e"
          using assms ok alloc a v \<open>map_of (open_blocks w) k = Some b\<close> by (auto simp: finish_def Let_def)
        show ?thesis by (rule unchanged) (simp_all add: same)
      next
        case True
        let ?g = "\<lambda>r. finished_row r ?preview ?blob ?phase (length (json ?p)) ?rev n (wall_time env)"
        have w': "w' = set_blocks (bm_remove k) (v\<lparr>world_rows := rewritten (block_id b) ?g (world_rows w)\<rparr>)"
          and r: "r = Inr (Some ((block_evidence json b ?p ?phase)\<lparr>evidence_blob := ?blob, evidence_revision := Some ?rev,
                         evidence_change_sequence := Some n, evidence_bytes := length (json ?p)\<rparr>))"
          using assms ok alloc a v True \<open>map_of (open_blocks w) k = Some b\<close>
          by (auto simp: finish_def Let_def rewritten_def)
        have text_value: "row_text (?g r) = Some ?t" for r
          by (simp add: row_text_def finished_row_def block_payload_fields)
        show ?thesis
          by (rule finished [OF \<open>map_of (open_blocks w) k = Some b\<close> r, of ?g])
            (use text_value True v in \<open>simp_all add: w' set_blocks_def block_evidence_def block_payload_fields finished_row_def is_text_row_def\<close>)
      qed
    qed
  qed
qed

text \<open>A finished block leaves the open ones; the log has to say what its text was.\<close>

lemma inv_finished:
  assumes inv: "text_inv w log" and b: "map_of (open_blocks w) k = Some b"
    and blocks: "open_blocks w' = bm_remove k (open_blocks w)" and rows: "world_rows w' = rewritten (block_id b) g (world_rows w)"
    and g: "\<And>r. text_row_id (g r) = text_row_id r" "\<And>r. is_text_row (g r) = is_text_row r"
      "\<And>r. text_row_phase (g r) \<noteq> ''updated''" "\<And>r. row_text (g r) = Some t"
    and log: "log_grows (block_id b) log log'"
      "known_text (block_id b) log' t"
  shows "text_inv w' log'"
proof -
  have ok: "bm_ok (open_blocks w)" "length (open_blocks w) \<le> MAX_OPEN_BLOCKS"
    "\<And>k b. map_of (open_blocks w) k = Some b \<Longrightarrow> block_ok log b"
    "\<And>k b k' b'. map_of (open_blocks w) k = Some b \<Longrightarrow> map_of (open_blocks w) k' = Some b' \<Longrightarrow> block_id b = block_id b' \<Longrightarrow> k = k'"
    "\<And>r. r \<in> set (world_rows w) \<Longrightarrow> row_ok w log r"
    using inv unfolding text_inv_def by blast+
  have open': "map_of (open_blocks w') k' = (if k' = k then None else map_of (open_blocks w) k')" for k'
    by (simp add: blocks map_of_bm_remove)
  have other: "block_id b' \<noteq> block_id b" if "map_of (open_blocks w') k' = Some b'" for k' b'
    using that ok(4) [OF b, of k' b'] by (auto simp: open' split: if_split_asm)
  have open_id: "open_id w' i \<longleftrightarrow> open_id w i \<and> i \<noteq> block_id b" for i
    unfolding open_id_def using other b open' by (metis option.distinct(1) option.inject)
  have "block_ok log' b'" if "map_of (open_blocks w') k' = Some b'" for k' b'
    using that ok(3) [of k' b'] log_grows_block [OF log(1) other [OF that]] by (auto simp: open' split: if_split_asm)
  moreover have "row_ok w' log' r" if "r \<in> set (world_rows w')" for r
  proof -
    from that obtain r0 where r0: "r0 \<in> set (world_rows w)" "r = (if text_row_id r0 = block_id b then g r0 else r0)"
      by (auto simp: rows rewritten_def)
    show ?thesis
    proof (cases "text_row_id r0 = block_id b")
      case True
      then show ?thesis using r0(2) g log(2) by (simp add: row_ok_def open_id)
    next
      case False
      have "row_ok w log' r0" using log_grows_row [OF log(1) False ok(5) [OF r0(1)]] .
      then show ?thesis using False r0(2) row_ok_world [of w' r0 w] by (simp add: open_id)
    qed
  qed
  moreover have "bm_ok (open_blocks w')" "length (open_blocks w') \<le> MAX_OPEN_BLOCKS"
    using ok(1,2) bm_remove_length [of k "open_blocks w"] by (simp_all add: blocks bm_ok_remove)
  moreover have "k1 = k2" if "map_of (open_blocks w') k1 = Some b1" "map_of (open_blocks w') k2 = Some b2" "block_id b1 = block_id b2"
    for k1 b1 k2 b2
    using that ok(4) [of k1 b1 k2 b2] by (auto simp: open' split: if_split_asm)
  ultimately show ?thesis unfolding text_inv_def by blast
qed

lemma finish_inv:
  assumes "finish json env k None status w = (r, w')" and inv: "text_inv w log"
  shows "text_inv w' log"
  using assms(1)
proof (cases rule: finish_cases)
  case unchanged
  then show ?thesis using inv by simp
next
  case (finished b e g)
  have "block_ok log b" using inv finished(1) by (simp add: text_inv_def)
  then have "known_text (block_id b) log (body_text (block_body b))"
    by (auto simp: known_text_def block_ok_def final_text_def)
  with finished show ?thesis by (intro inv_finished [OF inv finished(1,6,8,9,10,11)]) auto
qed

lemma finish_each_inv: "finish_each json env ks w = (e, w') \<Longrightarrow> text_inv w log \<Longrightarrow> text_inv w' log"
proof (induction ks arbitrary: w)
  case (Cons k ks)
  obtain r v where f: "finish json env k None ''completed'' w = (r, v)" by (cases "finish json env k None ''completed'' w")
  have "text_inv v log" using finish_inv [OF f Cons.prems(2)] .
  then show ?case using Cons f by (auto split: sum.split_asm)
qed simp

section \<open>Opening and appending\<close>

text \<open>A fresh identifier has not been used before: they are drawn at random from 122 bits.\<close>

definition env_ok :: "TextEnv \<Rightarrow> TextWorld \<Rightarrow> TextLog list \<Rightarrow> bool" where
  "env_ok env w log =
     (fresh_id env \<notin> log_id ` set log \<and> fresh_id env \<notin> text_row_id ` set (world_rows w) \<and> \<not> open_id w (fresh_id env))"

lemma open_block_cases:
  assumes "open_block json env run epoch kind native w = Inr (Some w')"
  obtains b r runs where "block_id b = fresh_id env" "block_body b = empty_body" "block_utf16 b = 0" "block_run b = run"
    "block_epoch b = epoch" "block_native b = native" "block_kind b = kind"
    "w' = w\<lparr>world_runs := runs, world_rows := world_rows w @ [r],
       buffer := (buffer w)\<lparr>blocks := bm_insert (block_key json run epoch kind native) b (open_blocks w)\<rparr>\<rparr>"
    "text_row_id r = fresh_id env" "is_text_row r" "text_row_phase r = ''updated''"
    "text_row_source_key r = map_option (source_key json epoch kind) native" "text_row_run r = run" "text_row_epoch r = epoch"
    "case native of None \<Rightarrow> True | Some n \<Rightarrow> \<not> native_known json run epoch kind n w"
proof -
  from assms obtain b v where s: "start_block json env run epoch kind native w = Inr (b, v)"
    and w': "w' = set_blocks (bm_insert (block_key json run epoch kind native) b) v"
    and n: "case native of None \<Rightarrow> True | Some n \<Rightarrow> \<not> native_known json run epoch kind n w"
    by (auto simp: open_block_def split: if_split_asm sum.split_asm option.split_asm)
  show ?thesis
    using s n
    by (auto simp: start_block_def allocate_change_sequence_def Let_def w' set_blocks_def is_text_row_def block_event_def
        split: if_split_asm option.split_asm intro!: that)
qed

lemma open_block_inv:
  assumes op: "open_block json env run epoch kind native w = Inr (Some w')" and inv: "text_inv w log" and env: "env_ok env w log"
    and absent: "map_of (open_blocks w) (block_key json run epoch kind native) = None" and room: "length (open_blocks w) < MAX_OPEN_BLOCKS"
  shows "text_inv w' log" and "map_of (open_blocks w') (block_key json run epoch kind native) \<noteq> None"
proof -
  let ?k = "block_key json run epoch kind native"
  have ok: "bm_ok (open_blocks w)" "\<And>k b. map_of (open_blocks w) k = Some b \<Longrightarrow> block_ok log b"
    "\<And>k b k' b'. map_of (open_blocks w) k = Some b \<Longrightarrow> map_of (open_blocks w) k' = Some b' \<Longrightarrow> block_id b = block_id b' \<Longrightarrow> k = k'"
    "\<And>r. r \<in> set (world_rows w) \<Longrightarrow> row_ok w log r"
    using inv unfolding text_inv_def by blast+
  from op obtain b r runs where b: "block_id b = fresh_id env" "block_body b = empty_body" "block_utf16 b = 0"
    and w': "w' = w\<lparr>world_runs := runs, world_rows := world_rows w @ [r], buffer := (buffer w)\<lparr>blocks := bm_insert ?k b (open_blocks w)\<rparr>\<rparr>"
    and r: "text_row_id r = fresh_id env" "is_text_row r" "text_row_phase r = ''updated''"
    by (rule open_block_cases) blast
  have open': "map_of (open_blocks w') k' = (if k' = ?k then Some b else map_of (open_blocks w) k')" for k'
    using ok(1) by (simp add: w' map_of_bm_insert)
  then show "map_of (open_blocks w') ?k \<noteq> None" by simp
  have fresh: "block_id b' \<noteq> fresh_id env" if "map_of (open_blocks w) k' = Some b'" for k' b'
    using env that by (auto simp: env_ok_def open_id_def)
  have open_id: "open_id w' i \<longleftrightarrow> open_id w i \<or> i = fresh_id env" for i
    unfolding open_id_def using absent b(1) open' by (metis option.distinct(1) option.inject)
  have "block_ok log b"
    using env unknown_id [of "fresh_id env" log] b
    by (simp add: env_ok_def block_ok_def empty_body_def body_ok_def body_text_def utf16_units_def char_count_def)
  then have "block_ok log b'" if "map_of (open_blocks w') k' = Some b'" for k' b'
    using that ok(2) by (auto simp: open' split: if_split_asm)
  moreover have "k1 = k2" if "map_of (open_blocks w') k1 = Some b1" "map_of (open_blocks w') k2 = Some b2" "block_id b1 = block_id b2"
    for k1 b1 k2 b2
    using that ok(3) [of k1 b1 k2 b2] fresh b(1) by (auto simp: open' split: if_split_asm)
  moreover have "row_ok w' log r'" if "r' \<in> set (world_rows w')" for r'
  proof (cases "r' = r")
    case True
    moreover have "Earlier r \<notin> set log" using env r(1) by (force simp: env_ok_def)
    ultimately show ?thesis using r by (simp add: row_ok_def open_id)
  next
    case False
    then have "r' \<in> set (world_rows w)" using that by (simp add: w')
    moreover from this have "text_row_id r' \<noteq> fresh_id env" using env by (auto simp: env_ok_def image_iff)
    ultimately show ?thesis using ok(4) [of r'] row_ok_world [of w' r' w] by (simp add: open_id)
  qed
  moreover have "bm_ok (open_blocks w')" "length (open_blocks w') \<le> MAX_OPEN_BLOCKS"
    using ok(1) absent room by (simp_all add: w' bm_ok_insert bm_insert_length)
  ultimately show "text_inv w' log" unfolding text_inv_def by blast
qed

text \<open>Replacing the body of an open block.\<close>

lemma inv_body:
  assumes inv: "text_inv w log" and b: "map_of (open_blocks w) k = Some b"
    and w': "open_blocks w' = bm_insert k b' (open_blocks w)" "world_rows w' = world_rows w" and i: "block_id b' = block_id b"
    and b': "block_ok log' b'" and log: "log_grows (block_id b) log log'"
  shows "text_inv w' log'"
proof -
  have ok: "bm_ok (open_blocks w)" "length (open_blocks w) \<le> MAX_OPEN_BLOCKS"
    "\<And>k b. map_of (open_blocks w) k = Some b \<Longrightarrow> block_ok log b"
    "\<And>k b k' b'. map_of (open_blocks w) k = Some b \<Longrightarrow> map_of (open_blocks w) k' = Some b' \<Longrightarrow> block_id b = block_id b' \<Longrightarrow> k = k'"
    "\<And>r. r \<in> set (world_rows w) \<Longrightarrow> row_ok w log r"
    using inv unfolding text_inv_def by blast+
  have open': "map_of (open_blocks w') k' = (if k' = k then Some b' else map_of (open_blocks w) k')" for k'
    using ok(1) by (simp add: w' map_of_bm_insert)
  have open_id: "open_id w' i \<longleftrightarrow> open_id w i" for i
    unfolding open_id_def using b i open' by (metis option.inject)
  have "block_ok log' c" if "map_of (open_blocks w') k' = Some c" for k' c
  proof (cases "k' = k")
    case True
    then show ?thesis using that b' by (simp add: open')
  next
    case False
    then have c: "map_of (open_blocks w) k' = Some c" using that by (simp add: open')
    then have "block_id c \<noteq> block_id b" using ok(4) [OF c b] False by blast
    then show ?thesis using log_grows_block [OF log _ ok(3) [OF c]] by blast
  qed
  moreover have "k1 = k2" if "map_of (open_blocks w') k1 = Some b1" "map_of (open_blocks w') k2 = Some b2" "block_id b1 = block_id b2"
    for k1 b1 k2 b2
  proof -
    have "\<exists>c. map_of (open_blocks w) k' = Some c \<and> block_id c = block_id d" if "map_of (open_blocks w') k' = Some d" for k' d
      using that b i by (cases "k' = k") (auto simp: open')
    with that ok(4) show ?thesis by metis
  qed
  moreover have "row_ok w' log' r" if "r \<in> set (world_rows w')" for r
  proof -
    have r: "row_ok w log r" using that ok(5) by (simp add: w')
    have "row_ok w log' r"
    proof (cases "text_row_id r = block_id b")
      case True
      then have "open_id w (text_row_id r)" using b unfolding open_id_def by metis
      then show ?thesis using r log by (auto simp: row_ok_def log_grows_def split: if_split_asm)
    next
      case False
      show ?thesis by (rule log_grows_row [OF log False r])
    qed
    then show ?thesis using row_ok_world [of w' r w] by (simp add: open_id)
  qed
  moreover have "bm_ok (open_blocks w')" "length (open_blocks w') \<le> MAX_OPEN_BLOCKS"
    using ok(1,2) b by (simp_all add: w' bm_ok_insert bm_insert_length)
  ultimately show ?thesis unfolding text_inv_def by blast
qed

lemma append_delta_inv:
  assumes "append_delta json env k event t w = (r, w')" and inv: "text_inv w log"
    and b: "map_of (open_blocks w) k = Some b"
  shows "text_inv w' (log @ log_of payload r @ tears env w')"
proof -
  obtain e body where a: "body_append (append_io env) t (block_body b) = (e, body)" by (cases "body_append (append_io env) t (block_body b)")
  have ok: "block_ok log b" and bm: "bm_ok (open_blocks w)" using inv b by (auto simp: text_inv_def)
  have body: "io_torn (append_io env) \<and> e \<noteq> None \<and> \<not> body_ok body
      \<or> body_ok body \<and> body_text body = streamed (block_id b) log @ (if e = None then t else [])"
    if "Torn (block_id b) \<notin> set log"
    using that body_append_text [OF a] ok by (simp add: block_ok_def)
  show ?thesis
  proof (cases e)
    case (Some x)
    let ?b = "b\<lparr>block_body := body\<rparr>"
    have r: "log_of payload r = []" and w': "w' = set_blocks (bm_insert k ?b) w"
      using assms(1) by (auto simp: append_delta_def b a Some)
    have "map_of (open_blocks w') k = Some ?b" using bm by (simp add: w' map_of_bm_insert)
    from untorn [OF this, of env] have "block_ok (log @ tears env w') ?b"
      using ok body by (auto simp: block_ok_def Some or_else_def)
    then show ?thesis
      by (simp add: r, intro inv_body [OF inv b, of _ ?b]) (simp_all add: w' log_grows_def or_else_def split: option.split)
  next
    case None
    let ?b = "b\<lparr>block_body := body, block_utf16 := block_utf16 b + utf16_units t\<rparr>"
    have r: "log_of payload r = [Streamed (block_id b) t]" and w': "w' = set_blocks (bm_insert k ?b) w"
      using assms(1) by (auto simp: append_delta_def b a None log_of_def live_evidence_def block_evidence_def get_str_def)
    have "block_ok (log @ Streamed (block_id b) t # tears env w') ?b"
      using ok body by (auto simp: block_ok_def None utf16_units_append or_else_def)
    then show ?thesis
      by (simp add: r, intro inv_body [OF inv b, of _ ?b]) (simp_all add: w' log_grows_tears)
  qed
qed

text \<open>Finishing with the text the runtime calls complete.\<close>

definition handled :: "string + TextEvidence option \<Rightarrow> string + TextEvidence option option" where
  "handled r = (case r of Inl e \<Rightarrow> Inl e | Inr x \<Rightarrow> Inr (Some x))"

lemma finish_complete_inv:
  assumes "finish json env k (complete_text payload) status w = (r, w')" and inv: "text_inv w log"
  shows "text_inv w' (log @ log_of payload (handled r))"
  using assms(1)
proof (cases rule: finish_cases)
  case unchanged
  then have "log_of payload (handled r) = []" by (auto simp: log_of_def handled_def)
  then show ?thesis using unchanged inv by simp
next
  case (finished b e g)
  have ok: "block_ok log b" using inv finished(1) by (simp add: text_inv_def)
  show ?thesis
  proof (cases "complete_text payload")
    case None
    then have "log_of payload (handled r) = []" by (simp add: log_of_def handled_def finished(2,3,4))
    moreover have "text_inv w' log" using finish_inv assms None by metis
    ultimately show ?thesis by simp
  next
    case (Some t)
    then have "log_of payload (handled r) = [Completed (block_id b) t]" by (simp add: log_of_def handled_def finished(2,3,4))
    then show ?thesis
      using ok finished Some
      by (simp, intro inv_finished [OF inv finished(1,6,8,9,10,11)])
        (simp_all add: log_grows_tears known_text_def final_text_def block_ok_def or_else_def split: option.split)
  qed
qed

lemma finish_ids:
  assumes "finish json env k auth status w = (r, w')"
  shows "text_row_id ` set (world_rows w') = text_row_id ` set (world_rows w) \<and> (open_id w' i \<longrightarrow> open_id w i)"
  using assms
proof (cases rule: finish_cases)
  case unchanged
  then show ?thesis by simp
next
  case (finished b e g)
  have "map text_row_id (world_rows w') = map text_row_id (world_rows w)"
    by (simp add: finished(8,9) rewritten_def)
  then have "text_row_id ` set (world_rows w') = text_row_id ` set (world_rows w)" by (metis set_map)
  moreover have "open_id w' i \<Longrightarrow> open_id w i"
    unfolding open_id_def finished(6) map_of_bm_remove by (metis option.distinct(1))
  ultimately show ?thesis by blast
qed

lemma finish_env:
  assumes "finish json env k auth status w = (r, w')" and "env_ok env' w log"
  shows "env_ok env' w' log"
proof -
  note ids = finish_ids [OF assms(1), of "fresh_id env'"]
  then have rows: "text_row_id ` set (world_rows w') = text_row_id ` set (world_rows w)" by (rule conjunct1)
  show ?thesis using assms(2) ids unfolding env_ok_def rows by blast
qed

lemma finish_each_env: "finish_each json env ks w = (e, w') \<Longrightarrow> env_ok env' w log \<Longrightarrow> env_ok env' w' log"
proof (induction ks arbitrary: w)
  case (Cons k ks)
  obtain r v where f: "finish json env k None ''completed'' w = (r, v)" by (cases "finish json env k None ''completed'' w")
  then show ?case using Cons finish_env [OF f Cons.prems(2)] by (auto split: sum.split_asm)
qed simp

section \<open>Events\<close>

lemma observe_delta_inv:
  assumes run: "observe_delta json env run epoch event payload w = (r, w')" and inv: "text_inv w log" and env: "env_ok env w log"
  shows "text_inv w' (log @ log_of payload r @ tears env w')"
proof -
  let ?native = "native_identity payload (event_kind event)"
  let ?k = "block_key json run epoch (event_kind event) ?native"
  let ?keys = "anonymous_keys (\<lambda>n k. ?native \<noteq> None \<or> k \<noteq> event_kind event) run epoch w"
  obtain e v where f: "finish_each json env ?keys w = (e, v)" by (cases "finish_each json env ?keys w")
  have v: "text_inv v log" "env_ok env v log" using finish_each_inv [OF f inv] finish_each_env [OF f env] by simp_all
  consider (quiet) "w' = v" "log_of payload r = []"
    | (append) "append_delta json env ?k event (delta_text payload) v = (r, w')" "map_of (open_blocks v) ?k \<noteq> None"
    | (opened) u where "open_block json env run epoch (event_kind event) ?native v = Inr (Some u)"
        "map_of (open_blocks v) ?k = None" "length (open_blocks v) < MAX_OPEN_BLOCKS"
        "append_delta json env ?k event (delta_text payload) u = (r, w')"
    using run unfolding observe_delta_def Let_def f
    by (auto split: option.split_asm if_split_asm sum.split_asm)
  then show ?thesis
  proof cases
    case quiet
    then show ?thesis using inv_tears [OF v(1)] by simp
  next
    case append
    then show ?thesis using append_delta_inv [OF append(1) v(1)] by blast
  next
    case (opened u)
    note u = open_block_inv [OF opened(1) v opened(2,3)]
    then show ?thesis using append_delta_inv [OF opened(4) u(1)] by blast
  qed
qed

lemma observe_completion_inv:
  assumes run: "observe_completion json env run epoch payload w = (r, w')" and inv: "text_inv w log" and env: "env_ok env w log"
  shows "text_inv w' (log @ log_of payload r @ tears env w')"
proof -
  let ?native = "completion_native payload"
  let ?k = "block_key json run epoch ''narration'' ?native"
  consider (quiet) "w' = w" "log_of payload r = []"
    | (finishes) x where "finish json env ?k (complete_text payload) (completion_status payload) w = (x, w')" "r = handled x"
    | (opened) u x where "open_block json env run epoch ''narration'' ?native w = Inr (Some u)"
        "map_of (open_blocks w) ?k = None" "length (open_blocks w) < MAX_OPEN_BLOCKS"
        "finish json env ?k (complete_text payload) (completion_status payload) u = (x, w')" "r = handled x"
    using run by (auto simp: observe_completion_def Let_def handled_def split: option.split_asm if_split_asm sum.split_asm prod.split_asm)
  then show ?thesis
  proof cases
    case quiet
    then show ?thesis using inv_tears [OF inv] by simp
  next
    case (finishes x)
    then show ?thesis using inv_tears [OF finish_complete_inv [OF finishes(1) inv]] by simp
  next
    case (opened u x)
    note u = open_block_inv [OF opened(1) inv env opened(2,3)]
    then show ?thesis using inv_tears [OF finish_complete_inv [OF opened(4) u(1)]] opened(5) by simp
  qed
qed

lemma observe_text_cases:
  assumes "observe_text json env run epoch event payload w = (r, w')"
  obtains (ignored) "w' = w" "log_of payload r = []"
  | (closing) e where "finish_each json env (anonymous_keys (\<lambda>_ _. True) run epoch w) w = (e, w')" "log_of payload r = []"
      "private_reasoning event payload \<or> closes_anonymous event" "(\<exists>x. r = Inl x) = (e \<noteq> None)"
  | (delta) "observe_delta json env run epoch event payload w = (r, w')" "admitted w run epoch" "is_text_delta event"
  | (completion) "observe_completion json env run epoch payload w = (r, w')" "admitted w run epoch" "is_completion event payload"
  using assms unfolding observe_text_def Let_def
  by (auto split: if_split_asm option.split_asm prod.split_asm intro: that)

lemma observe_text_inv:
  assumes "observe_text json env run epoch event payload w = (r, w')" and "text_inv w log" and "env_ok env w log"
  shows "text_inv w' (log @ log_of payload r @ tears env w')"
  using assms(1)
proof (cases rule: observe_text_cases)
  case ignored
  then show ?thesis using inv_tears [OF assms(2)] by simp
next
  case closing
  then show ?thesis using inv_tears [OF finish_each_inv [OF _ assms(2)]] by simp
next
  case delta
  then show ?thesis using observe_delta_inv assms(2,3) by blast
next
  case completion
  then show ?thesis using observe_completion_inv assms(2,3) by blast
qed

section \<open>Maintenance\<close>

lemma flush_closable_inv: "flush_closable json env looks ks w = (es, e, w') \<Longrightarrow> text_inv w log \<Longrightarrow> text_inv w' log"
proof (induction ks arbitrary: w looks es e)
  case (Cons c ks)
  obtain k status where c: "c = (k, status)" by (cases c)
  obtain r v where f: "finish json env k None status w = (r, v)" by (cases "finish json env k None status w")
  have "text_inv v log" using finish_inv [OF f Cons.prems(2)] .
  then show ?case
    using Cons.IH [of "map_option (\<lambda>n. n - 1) looks" v] Cons.prems f
    by (auto simp: c split: if_split_asm sum.split_asm prod.split_asm)
qed simp

lemma set_retry_inv [simp]: "text_inv (set_retry x w) log = text_inv w log"
  by (simp add: text_inv_def set_retry_def row_ok_def open_id_def)

lemma maintain_inv:
  assumes "maintain_settled_until json env now looks w = (out, w')" and "text_inv w log"
  shows "text_inv w' log"
proof -
  obtain es e v where a: "attempt_flush_settled json env looks w = (es, e, v)" by (cases "attempt_flush_settled json env looks w")
  have "text_inv v log"
    using a assms(2) unfolding attempt_flush_settled_def Let_def by (auto split: if_split_asm dest: flush_closable_inv)
  then show ?thesis
    using assms by (auto simp: maintain_settled_until_def Let_def a schedule_retry_def split: if_split_asm)
qed

section \<open>Histories\<close>

text \<open>
  What others may do: change the runs as they like, delete rows, and add rows of other kinds; the rows of text
  blocks are written here only.
\<close>

definition others_act :: "TextWorld \<Rightarrow> TextWorld \<Rightarrow> bool" where
  "others_act w w' =
     (buffer w' = buffer w
      \<and> (\<forall>r \<in> set (world_rows w'). if is_text_row r then r \<in> set (world_rows w) else \<not> open_id w (text_row_id r)))"

inductive text_step :: "(Value \<Rightarrow> string) \<Rightarrow> TextWorld \<times> TextLog list \<Rightarrow> TextWorld \<times> TextLog list \<Rightarrow> bool" for json where
  step_observes: "env_ok env w log \<Longrightarrow> observe_text json env run epoch event payload w = (r, w') \<Longrightarrow>
     text_step json (w, log) (w', log @ log_of payload r @ tears env w')"
| step_requests: "text_step json (w, log) (request_settlement now w, log)"
| step_maintains: "maintain_settled_until json env now looks w = (out, w') \<Longrightarrow> text_step json (w, log) (w', log)"
| step_others: "others_act w w' \<Longrightarrow> text_step json (w, log) (w', log)"

inductive_cases text_stepE: "text_step json s t"

text \<open>A process starts with nothing open, on whatever rows its predecessors have left.\<close>

definition text_start :: "TextWorld \<times> TextLog list \<Rightarrow> bool" where
  "text_start s = (open_blocks (fst s) = [] \<and> snd s = map Earlier (filter is_text_row (world_rows (fst s))))"

lemma text_inv_start: "text_start s \<Longrightarrow> text_inv (fst s) (snd s)"
  by (auto simp: text_start_def text_inv_def bm_ok_def row_ok_def open_id_def)

lemma earlier_step: "text_step json s t \<Longrightarrow> Earlier r \<in> set (snd t) \<longleftrightarrow> Earlier r \<in> set (snd s)"
  by (erule text_stepE) auto

lemma earlier_rows:
  assumes "rtranclp (text_step json) s t" and "text_start s"
  shows "Earlier r \<in> set (snd t) \<longleftrightarrow> is_text_row r \<and> r \<in> set (world_rows (fst s))"
  using assms(1)
proof (induction rule: rtranclp_induct)
  case base
  then show ?case using assms(2) by (auto simp: text_start_def)
next
  case (step t u)
  then show ?case using earlier_step by blast
qed

lemma others_inv: "others_act w w' \<Longrightarrow> text_inv w log \<Longrightarrow> text_inv w' log"
  unfolding text_inv_def others_act_def row_ok_def open_id_def by (auto split: if_split_asm)

lemma text_inv_step: "text_step json s t \<Longrightarrow> text_inv (fst s) (snd s) \<Longrightarrow> text_inv (fst t) (snd t)"
  by (erule text_stepE) (auto intro: observe_text_inv maintain_inv others_inv simp: request_settlement_def)

interpretation text_system: invariant_system text_start "text_step json" "\<lambda>s. text_inv (fst s) (snd s)" for json
  by unfold_locales (auto intro: text_inv_start text_inv_step)

text \<open>
  C29: text is never lost, doubled or mixed up: at any moment an open block holds exactly what was streamed to it,
  in order, and the row of a block that is not open any more holds all of that, or the text the runtime
  called complete; a row that is still streaming has its block open. Rows that were there when the process
  started are left as they are. Every file or database operation may fail, and only one failure costs
  text: what was streamed to a block is not known any more if a write to its file failed and the file could
  then not be cut back (its row still takes a complete text). The identifiers of new blocks are assumed to be
  fresh.
\<close>

theorem text_survives:
  assumes "rtranclp (text_step json) s (w, log)" and "text_start s"
  shows "(\<forall>k b. map_of (open_blocks w) k = Some b \<longrightarrow> Torn (block_id b) \<notin> set log \<longrightarrow>
        body_text (block_body b) = streamed (block_id b) log)
    \<and> length (open_blocks w) \<le> 128
    \<and> (\<forall>r \<in> set (world_rows w). is_text_row r \<longrightarrow> r \<notin> set (world_rows (fst s)) \<longrightarrow>
        (if text_row_phase r = ''updated'' then open_id w (text_row_id r)
         else \<not> open_id w (text_row_id r)
           \<and> (\<exists>t. row_text r = Some t
                \<and> (Torn (text_row_id r) \<notin> set log \<or> completed_text (text_row_id r) log \<noteq> None \<longrightarrow>
                    t = (case completed_text (text_row_id r) log of None \<Rightarrow> streamed (text_row_id r) log | Some c \<Rightarrow> c)))))"
proof -
  have inv: "text_inv w log" using text_system.inv_reachable [OF assms(2,1)] by simp
  have earlier: "Earlier r \<in> set log \<longleftrightarrow> is_text_row r \<and> r \<in> set (world_rows (fst s))" for r
    using earlier_rows [OF assms, of r] by simp
  have "if text_row_phase r = ''updated'' then open_id w (text_row_id r)
      else \<not> open_id w (text_row_id r)
        \<and> (\<exists>t. row_text r = Some t
             \<and> (Torn (text_row_id r) \<notin> set log \<or> completed_text (text_row_id r) log \<noteq> None \<longrightarrow>
                 t = (case completed_text (text_row_id r) log of None \<Rightarrow> streamed (text_row_id r) log | Some c \<Rightarrow> c)))"
    if "r \<in> set (world_rows w)" "is_text_row r" "r \<notin> set (world_rows (fst s))" for r
  proof -
    have "row_ok w log r" using inv that(1) by (simp add: text_inv_def)
    then show ?thesis using that(2,3) earlier [of r] by (simp only: row_ok_def known_text_def final_text_def) simp
  qed
  then have "\<forall>r \<in> set (world_rows w). is_text_row r \<longrightarrow> r \<notin> set (world_rows (fst s)) \<longrightarrow>
      (if text_row_phase r = ''updated'' then open_id w (text_row_id r)
       else \<not> open_id w (text_row_id r)
         \<and> (\<exists>t. row_text r = Some t
              \<and> (Torn (text_row_id r) \<notin> set log \<or> completed_text (text_row_id r) log \<noteq> None \<longrightarrow>
                  t = (case completed_text (text_row_id r) log of None \<Rightarrow> streamed (text_row_id r) log | Some c \<Rightarrow> c))))"
    by blast
  moreover have "\<forall>k b. map_of (open_blocks w) k = Some b \<longrightarrow> Torn (block_id b) \<notin> set log \<longrightarrow>
      body_text (block_body b) = streamed (block_id b) log" "length (open_blocks w) \<le> 128"
    using inv by (auto simp: text_inv_def block_ok_def MAX_OPEN_BLOCKS_def)
  ultimately show ?thesis by blast
qed

section \<open>Boundaries\<close>

lemma finish_removes:
  assumes "finish json env k auth status w = (Inr x, w')"
  shows "set (open_blocks w') = {e \<in> set (open_blocks w). fst e \<noteq> k}"
  using assms
proof (cases rule: finish_cases)
  case unchanged
  then have "map_of (open_blocks w) k = None" by simp
  then show ?thesis using unchanged(1) by (force simp: map_of_eq_None_iff)
next
  case (finished b e g)
  then show ?thesis by (auto simp: bm_remove_def)
qed

lemma finish_each_removes:
  "finish_each json env ks w = (None, w') \<Longrightarrow> set (open_blocks w') = {e \<in> set (open_blocks w). fst e \<notin> set ks}"
proof (induction ks arbitrary: w)
  case (Cons k ks)
  obtain r v where f: "finish json env k None ''completed'' w = (r, v)" by (cases "finish json env k None ''completed'' w")
  with Cons.prems obtain x where r: "r = Inr x" by (cases r) auto
  then have "set (open_blocks w') = {e \<in> set (open_blocks v). fst e \<notin> set ks}" using Cons f by simp
  then show ?case using finish_removes [OF f [unfolded r]] by auto
qed simp

text \<open>
  Anonymous text never spans what happens in between: when thought, a boundary, an action, an item or a plan
  of an execution has been observed without an error, no anonymous block of that execution is open; only
  the messages of the runtime itself are no boundary.
\<close>

theorem boundary_closes_anonymous:
  assumes "observe_text json env run epoch event payload w = (Inr x, w')" and "admitted w run epoch"
    and "private_reasoning event payload \<or> closes_anonymous event"
    and "is_root_output payload" and "is_root_output (field_or_null payload ''item'')"
    and "private_reasoning event payload \<or> \<not> native_type_is ''agentMessage'' payload"
  shows "anonymous_keys (\<lambda>_ _. True) run epoch w' = []"
proof -
  let ?keys = "anonymous_keys (\<lambda>_ _. True) run epoch w"
  have "finish_each json env ?keys w = (None, w')"
  proof (cases "private_reasoning event payload")
    case True
    then show ?thesis using assms(1,2,4,5) unfolding observe_text_def Let_def by (auto split: if_split_asm option.split_asm prod.split_asm)
  next
    case False
    then have c: "closes_anonymous event" "\<not> native_type_is ''agentMessage'' payload" using assms(3,6) by blast+
    then have "\<not> is_text_delta event" "\<not> is_completion event payload"
      by (auto simp: closes_anonymous_def is_text_delta_def is_completion_def is_boundary_def RUNTIME_COMPACTION_DISPLAY_EVENT_def)
    then show ?thesis
      using assms(1,2,4,5) False c unfolding observe_text_def Let_def by (auto split: if_split_asm option.split_asm prod.split_asm)
  qed
  from finish_each_removes [OF this]
  have "set (open_blocks w') = {e \<in> set (open_blocks w). fst e \<notin> set ?keys}" .
  then have left: "e \<in> set (open_blocks w) \<and> fst e \<notin> set ?keys" if "e \<in> set (open_blocks w')" for e using that by blast
  let ?P = "\<lambda>(k, b). block_run b = run \<and> block_epoch b = epoch \<and> block_native b = None \<and> True"
  have keys: "set ?keys = fst ` {e \<in> set (open_blocks w). ?P e}" by (simp add: anonymous_keys_def)
  have "\<not> ?P e" if "e \<in> set (open_blocks w')" for e
  proof
    assume "?P e"
    with left [OF that] have "fst e \<in> set ?keys" unfolding keys by (intro imageI CollectI conjI) simp_all
    with left [OF that] show False by blast
  qed
  then have "filter ?P (open_blocks w') = []" by (simp only: filter_empty_conv) blast
  then show ?thesis by (simp add: anonymous_keys_def)
qed

section \<open>Deltas\<close>

text \<open>
  C30: every delta that is passed on tells how much of its block came before it, in UTF-16 units, and its block then
  ends with it, unless the file of the block is torn; the identifiers of two deltas of a block differ, since a
  delta is never empty. The identifiers of new blocks are assumed to be fresh.
\<close>

theorem delta_continues_block:
  assumes "rtranclp (text_step json) s (w, log)" and "text_start s" and "env_ok env w log"
    and "observe_text json env run epoch event payload w = (Inr (Some (Some e)), w')" and "is_text_delta event"
  shows "\<exists>k b. delta_text payload \<noteq> [] \<and> map_of (open_blocks w') k = Some b
    \<and> evidence_row_id e = block_id b @ '':delta:'' @ dec (utf16_units (streamed (block_id b) log))
    \<and> get (evidence_value e) ''textOffset'' = Some (Number (PosInt (utf16_units (streamed (block_id b) log))))
    \<and> (Torn (block_id b) \<notin> set log \<longrightarrow> body_text (block_body b) = streamed (block_id b) log @ delta_text payload)"
proof -
  have inv: "text_inv w log" using text_system.inv_reachable [OF assms(2,1)] by simp
  have run: "observe_delta json env run epoch event payload w = (Inr (Some (Some e)), w')"
    using assms(4,5) unfolding observe_text_def Let_def by (auto split: if_split_asm option.split_asm prod.split_asm)
  let ?native = "native_identity payload (event_kind event)"
  let ?k = "block_key json run epoch (event_kind event) ?native"
  let ?keys = "anonymous_keys (\<lambda>n k. ?native \<noteq> None \<or> k \<noteq> event_kind event) run epoch w"
  obtain e1 v where f: "finish_each json env ?keys w = (e1, v)" by (cases "finish_each json env ?keys w")
  have v: "text_inv v log" "env_ok env v log" using finish_each_inv [OF f inv] finish_each_env [OF f assms(3)] by simp_all
  have "\<exists>u. text_inv u log \<and> delta_text payload \<noteq> [] \<and> append_delta json env ?k event (delta_text payload) u = (Inr (Some (Some e)), w')"
    using run v unfolding observe_delta_def Let_def f
    by (auto split: option.split_asm if_split_asm sum.split_asm dest: open_block_inv(1))
  then obtain u where u: "text_inv u log" "delta_text payload \<noteq> []"
      "append_delta json env ?k event (delta_text payload) u = (Inr (Some (Some e)), w')" by blast
  then obtain b where b: "map_of (open_blocks u) ?k = Some b" by (auto simp: append_delta_def split: option.split_asm)
  obtain r body where a: "body_append (append_io env) (delta_text payload) (block_body b) = (r, body)"
    by (cases "body_append (append_io env) (delta_text payload) (block_body b)")
  with u(3) b have r: "r = None" by (auto simp: append_delta_def split: option.split_asm)
  let ?b = "b\<lparr>block_body := body, block_utf16 := block_utf16 b + utf16_units (delta_text payload)\<rparr>"
  have e: "e = live_evidence json b event (delta_text payload) (block_utf16 b)" and w': "w' = set_blocks (bm_insert ?k ?b) u"
    using u(3) by (auto simp: append_delta_def b a r)
  have ok: "block_ok log b" and bm: "bm_ok (open_blocks u)" using u(1) b by (auto simp: text_inv_def)
  have "Torn (block_id b) \<notin> set log \<longrightarrow> body_text body = streamed (block_id b) log @ delta_text payload"
    using body_append_text [OF a] ok by (auto simp: block_ok_def r)
  moreover have "map_of (open_blocks w') ?k = Some ?b" using bm by (simp add: w' map_of_bm_insert)
  ultimately show ?thesis
    using ok u(2) by (intro exI [of _ ?k] exI [of _ ?b]) (simp add: e live_evidence_def block_evidence_def block_ok_def)
qed

section \<open>Settling\<close>

lemma retry_delay_bounds: "RETRY_INITIAL_DELAY \<le> retry_delay n \<and> retry_delay n \<le> RETRY_MAX_DELAY"
  by (simp add: retry_delay_def RETRY_INITIAL_DELAY_def RETRY_MAX_DELAY_def)

lemma allocate_status:
  assumes "allocate_change_sequence run w = Some (n, w')"
  shows "close_status w' b = close_status w b"
proof -
  from assms obtain r where r: "world_runs w run = Some r"
    and w': "w' = w\<lparr>world_runs := (world_runs w)(run := Some (r\<lparr>run_change_sequence := n\<rparr>))\<rparr>"
    by (auto simp: allocate_change_sequence_def Let_def)
  show ?thesis by (cases "block_run b = run") (simp_all add: close_status_def w' r)
qed

lemma close_status_set_blocks [simp]: "close_status (set_blocks f w) b = close_status w b"
  "close_status (w\<lparr>world_rows := rows\<rparr>) b = close_status w b" "close_status (set_retry x w) b = close_status w b"
  by (simp_all add: close_status_def set_blocks_def set_retry_def)

lemma finish_status: "finish json env k auth status w = (r, w') \<Longrightarrow> close_status w' b = close_status w b"
  by (auto simp: finish_def Let_def allocate_status split: option.split_asm if_split_asm prod.split_asm)

lemma flush_removes:
  "flush_closable json env looks ks w = (es, None, w') \<Longrightarrow>
    set (open_blocks w') = {e \<in> set (open_blocks w). fst e \<notin> fst ` set ks} \<and> close_status w' b = close_status w b"
proof (induction ks arbitrary: w looks es)
  case (Cons c ks)
  obtain k status where c: "c = (k, status)" by (cases c)
  obtain r v where f: "finish json env k None status w = (r, v)" by (cases "finish json env k None status w")
  with Cons.prems obtain x where r: "r = Inr x" by (cases r) (auto simp: c split: if_split_asm)
  from Cons.prems obtain es' where "flush_closable json env (map_option (\<lambda>n. n - 1) looks) ks v = (es', None, w')"
    by (auto simp: c f r split: if_split_asm prod.split_asm)
  from Cons.IH [OF this] finish_removes [OF f [unfolded r]] finish_status [OF f] show ?case by (auto simp: c)
qed simp

text \<open>The run that a block belongs to goes on: it is there, at the block's epoch, not cancelled and not over.\<close>

definition run_goes_on :: "TextWorld \<Rightarrow> TextBlock \<Rightarrow> bool" where
  "run_goes_on w b =
     (case world_runs w (block_run b) of
        None \<Rightarrow> False
      | Some r \<Rightarrow> run_epoch r = block_epoch b \<and> run_cancel_requested_at r = None
          \<and> run_status r \<noteq> ''succeeded'' \<and> run_status r \<noteq> ''failed'' \<and> run_status r \<noteq> ''cancelled'')"

lemma close_status_None: "close_status w b = None \<longleftrightarrow> run_goes_on w b"
  by (auto simp: close_status_def run_goes_on_def split: option.split)

lemma map_filter_keys:
  "k \<in> fst ` set (List.map_filter (\<lambda>(k, b). map_option (\<lambda>x. (k, x)) (f b)) xs) \<longleftrightarrow> list_ex (\<lambda>(k', b). k' = k \<and> f b \<noteq> None) xs"
  by (induction xs) (auto simp: List.map_filter_simps split: option.splits)

lemma keys_of_closable:
  assumes "bm_ok (open_blocks w)" and "(k, b) \<in> set (open_blocks w)"
  shows "k \<in> fst ` set (closable w) \<longleftrightarrow> \<not> run_goes_on w b"
proof -
  have same: "b' = b" if "(k, b') \<in> set (open_blocks w)" for b'
    using that assms(2) by (simp only: bm_ok_map_of [OF assms(1)] option.inject)
  have "k \<in> fst ` set (closable w) \<longleftrightarrow> list_ex (\<lambda>(k', b). k' = k \<and> close_status w b \<noteq> None) (open_blocks w)"
    unfolding closable_def by (rule map_filter_keys)
  also have "\<dots> \<longleftrightarrow> (\<exists>b'. (k, b') \<in> set (open_blocks w) \<and> close_status w b' \<noteq> None)" by (auto simp: list_ex_iff)
  also have "\<dots> \<longleftrightarrow> close_status w b \<noteq> None" using assms(2) same by blast
  finally show ?thesis by (simp add: close_status_None)
qed

lemma flush_keeps:
  "flush_closable json env looks ks w = (es, e, w') \<Longrightarrow>
    {x \<in> set (open_blocks w). fst x \<notin> fst ` set ks} \<subseteq> set (open_blocks w')"
proof (induction ks arbitrary: w looks es e)
  case (Cons c ks)
  obtain k status where c: "c = (k, status)" by (cases c)
  obtain r v where f: "finish json env k None status w = (r, v)" by (cases "finish json env k None status w")
  have v: "{x \<in> set (open_blocks w). fst x \<noteq> k} \<subseteq> set (open_blocks v)"
    using f by (cases rule: finish_cases) (auto simp: bm_remove_def)
  consider "w' = w" | "w' = v" | es' e' where "flush_closable json env (map_option (\<lambda>n. n - 1) looks) ks v = (es', e', w')"
    using Cons.prems by (auto simp: c f split: if_split_asm sum.split_asm prod.split_asm)
  then show ?case
  proof cases
    case 3
    then have "{x \<in> set (open_blocks v). fst x \<notin> fst ` set ks} \<subseteq> set (open_blocks w')" by (rule Cons.IH)
    then show ?thesis using v by (auto simp: c)
  qed (use v in \<open>auto simp: c\<close>)
qed simp

text \<open>
  C31: maintenance never closes a block of a run that goes on. If it ends without an error, exactly the blocks of
  these runs are left open, and nothing to retry: those of a run that is over, was cancelled, was deleted or
  has moved on to another epoch are finished. An error is retried between half a second and half a minute
  later. An attempt is left out only if no block is open, or outside a shutdown while no attempt is due. The
  open blocks are a map: no two have the same key.
\<close>

theorem maintenance_settles:
  assumes "maintain_settled_until json env now looks w = (out, w')" and "bm_ok (open_blocks w)"
  shows "{(k, b) \<in> set (open_blocks w). run_goes_on w b} \<subseteq> set (open_blocks w')
    \<and> (if outcome_attempted out then
          (case outcome_error out of
             None \<Rightarrow> retry (buffer w') = None \<and> set (open_blocks w') = {(k, b) \<in> set (open_blocks w). run_goes_on w b}
           | Some e \<Rightarrow> \<exists>r. retry (buffer w') = Some r
               \<and> now + 500 * 10 ^ 6 \<le> retry_not_before r \<and> retry_not_before r \<le> now + 30 * 10 ^ 9)
        else open_blocks w = [] \<or> looks = None \<and> w' = w
          \<and> (case retry (buffer w) of None \<Rightarrow> True | Some r \<Rightarrow> now < retry_not_before r))"
proof -
  let ?due = "case retry (buffer w) of None \<Rightarrow> False | Some r \<Rightarrow> retry_not_before r \<le> now"
  let ?going = "{(k, b) \<in> set (open_blocks w). run_goes_on w b}"
  consider (waits) "\<not> ?due" "looks = None" "w' = w" "\<not> outcome_attempted out"
    | (idle) "open_blocks w = []" "\<not> outcome_attempted out"
    | (attempts) es e v where "attempt_flush_settled json env looks w = (es, e, v)" "outcome_attempted out"
        "outcome_error out = e" "w' = (if e \<noteq> None then schedule_retry now v else set_retry None v)"
    using assms(1) unfolding maintain_settled_until_def Let_def
    by (auto split: if_split_asm prod.split_asm intro: that)
  then show ?thesis
  proof cases
    case waits
    then show ?thesis by (auto split: option.splits)
  next
    case idle
    then show ?thesis by simp
  next
    case (attempts es e v)
    have blocks: "open_blocks w' = open_blocks v" by (simp add: attempts(4) schedule_retry_def set_retry_def Let_def)
    define ended where "ended = fst ` set (closable w)"
    have "run_goes_on w b \<longleftrightarrow> k \<notin> ended" if "(k, b) \<in> set (open_blocks w)" for k b
      using keys_of_closable [OF assms(2) that] by (simp add: ended_def)
    then have "?going = {x \<in> set (open_blocks w). fst x \<notin> ended}" by auto
    then have going: "?going = {x \<in> set (open_blocks w). fst x \<notin> fst ` set (closable w)}" by (simp only: ended_def)
    consider "v = w" "e \<noteq> None" | looks' where "flush_closable json env looks' (closable w) w = (es, e, v)"
      using attempts(1) unfolding attempt_flush_settled_def Let_def by (auto split: if_split_asm)
    then have flush: "?going \<subseteq> set (open_blocks v) \<and> (e = None \<longrightarrow> set (open_blocks v) = ?going)"
    proof cases
      case 1
      then show ?thesis by auto
    next
      case (2 looks')
      have "set (open_blocks v) = ?going" if "e = None"
        unfolding going using flush_removes [OF 2 [unfolded that]] by (rule conjunct1)
      then show ?thesis using flush_keeps [OF 2] unfolding going by blast
    qed
    have "RETRY_INITIAL_DELAY \<le> retry_delay n" "retry_delay n \<le> RETRY_MAX_DELAY" for n using retry_delay_bounds by blast+
    then have "e \<noteq> None \<Longrightarrow> \<exists>r. retry (buffer w') = Some r
        \<and> now + 500 * 10 ^ 6 \<le> retry_not_before r \<and> retry_not_before r \<le> now + 30 * 10 ^ 9"
      by (auto simp: attempts(4) schedule_retry_def Let_def set_retry_def RETRY_INITIAL_DELAY_def RETRY_MAX_DELAY_def)
    moreover have "e = None \<Longrightarrow> retry (buffer w') = None" by (simp add: attempts(4) set_retry_def)
    ultimately show ?thesis using flush by (simp add: attempts(2,3) blocks split: option.split)
  qed
qed

text \<open>
  A block whose row has been deleted, or whose run has, can never be finished. If it is the first to be closed, no
  attempt ever finishes any other block: the attempt ends with it.
\<close>

lemma lost_row_blocks_settlement:
  assumes "closable w = (k, status) # rest" and "map_of (open_blocks w) k = Some b"
    and "world_runs w (block_run b) = None \<or> (\<forall>r \<in> set (world_rows w). text_row_id r \<noteq> block_id b)"
  shows "\<exists>e. attempt_flush_settled json env looks w = ([], Some e, w)"
proof -
  have "\<exists>e. finish json env k None status w = (Inl e, w)"
  proof (cases "allocate_change_sequence (block_run b) w")
    case None
    then show ?thesis using assms(2) by (simp add: finish_def Let_def)
  next
    case (Some a)
    obtain n v where a: "a = (n, v)" by (cases a)
    have "filter (\<lambda>r. text_row_id r = block_id b) (world_rows v) = []"
      using assms(3) Some allocate_keeps [of "block_run b" w n v] by (auto simp: a allocate_change_sequence_def filter_empty_conv)
    then show ?thesis using assms(2) Some by (simp add: finish_def Let_def a)
  qed
  then show ?thesis unfolding attempt_flush_settled_def Let_def assms(1) by (auto split: if_split option.split)
qed

section \<open>A history\<close>

text \<open>Two deltas of one message, the end of the run, and the maintenance after it.\<close>

abbreviation demo_json :: "Value \<Rightarrow> string" where
  "demo_json v \<equiv> ''k''"

definition demo_env :: "string \<Rightarrow> TextEnv" where
  "demo_env i =
     \<lparr>admission_fails = False, lookup_fails = False, start_fails = False, finish_fails = (\<lambda>k. False),
      append_io = \<lparr>spool_created = True, memory_copied = True, end_found = True, written_before_failure = None, cut_back = True\<rparr>,
      fresh_id = i, wall_time = ''now''\<rparr>"

definition demo_run :: "string \<Rightarrow> RunRow option" where
  "demo_run status = Some \<lparr>run_status = status, run_epoch = 1, run_cancel_requested_at = None, run_change_sequence = 0\<rparr>"

definition demo_start :: TextWorld where
  "demo_start = \<lparr>world_runs = (\<lambda>r. demo_run ''running''), world_rows = [], buffer = \<lparr>blocks = [], retry = None\<rparr>\<rparr>"

definition demo_delta :: "string \<Rightarrow> Value" where
  "demo_delta t = Object [(''delta'', JString t)]"

definition demo_observe :: "string \<Rightarrow> string \<Rightarrow> TextWorld \<Rightarrow> (string + TextEvidence option option) \<times> TextWorld" where
  "demo_observe i t = observe_text demo_json (demo_env i) ''r'' 1 ''agent.text.delta'' (demo_delta t)"

definition demo_one :: TextWorld where "demo_one = snd (demo_observe ''b1'' ''ab'' demo_start)"
definition demo_two :: TextWorld where "demo_two = snd (demo_observe ''b2'' ''c'' demo_one)"
definition demo_ended :: TextWorld where "demo_ended = request_settlement 5 (demo_two\<lparr>world_runs := (\<lambda>r. demo_run ''succeeded'')\<rparr>)"
definition demo_settled :: TextWorld where "demo_settled = snd (maintain_settled demo_json (demo_env ''b3'') 7 demo_ended)"

lemma not_open: "list_all (\<lambda>(k, b). block_id b \<noteq> i) (open_blocks w) \<Longrightarrow> \<not> open_id w i"
  by (auto simp: open_id_def list_all_iff dest!: map_of_SomeD)

lemma demo_env_ok:
  assumes "i \<notin> log_id ` set log" "list_all (\<lambda>r. text_row_id r \<noteq> i) (world_rows w)" "list_all (\<lambda>(k, b). block_id b \<noteq> i) (open_blocks w)"
  shows "env_ok (demo_env i) w log"
  using assms not_open [OF assms(3)] by (auto simp: env_ok_def demo_env_def list_all_iff)

lemma demo_untorn [simp]: "tears (demo_env i) w = []"
  by (simp add: tears_def io_torn_def demo_env_def)

lemma demo_step:
  assumes "env_ok (demo_env i) w log" and "log' = log @ log_of (demo_delta t) (fst (demo_observe i t w))"
  shows "text_step demo_json (w, log) (snd (demo_observe i t w), log')"
  using step_observes [of "demo_env i" w log demo_json "''r''" 1 "''agent.text.delta''" "demo_delta t"] assms
  by (simp add: demo_observe_def)

lemma demo_root: "is_root_output (demo_delta t)" "is_root_output (field_or_null (demo_delta t) ''item'')"
  by (simp_all add: is_root_output_def output_scopes_def foreign_fields_def demo_delta_def field_or_null_def Let_def)

lemma demo_kind: "native_identity (demo_delta t) k = None" "delta_text (demo_delta t) = t"
  "native_type_is x (demo_delta t) = False" "private_reasoning ''agent.text.delta'' (demo_delta t) = False"
  "is_completion ''agent.text.delta'' (demo_delta t) = False"
  by (simp_all add: native_identity_def nonblank_str_def get_str_def demo_delta_def nonblank_def delta_text_def or_else_def
     native_type_is_def pointer_def private_reasoning_def is_completion_def)

lemma demo_observe_eq:
  assumes "admitted w ''r'' 1" "list_all (\<lambda>(k, b). block_kind b = ''narration'') (open_blocks w)" "t \<noteq> []"
  shows "demo_observe i t w =
    (if map_of (open_blocks w) ''k'' \<noteq> None then append_delta demo_json (demo_env i) ''k'' ''agent.text.delta'' t w
     else if 128 \<le> length (open_blocks w) then (Inl too_many_blocks, w)
     else case open_block demo_json (demo_env i) ''r'' 1 ''narration'' None w of
         Inl e \<Rightarrow> (Inl e, w) | Inr None \<Rightarrow> (Inr (Some None), w)
       | Inr (Some w) \<Rightarrow> append_delta demo_json (demo_env i) ''k'' ''agent.text.delta'' t w)"
proof -
  have "anonymous_keys (\<lambda>n k. k \<noteq> ''narration'') ''r'' 1 w = []"
    using assms(2) by (auto simp: anonymous_keys_def filter_empty_conv list_all_iff)
  moreover have "\<not> admission_fails (demo_env i)" by (simp add: demo_env_def)
  ultimately show ?thesis
    using assms(1,3)
    by (simp add: demo_observe_def observe_text_def Let_def demo_root demo_kind is_text_delta_def observe_delta_def event_kind_def
        block_key_def MAX_OPEN_BLOCKS_def)
qed

definition demo_block :: "string \<Rightarrow> TextBlock" where
  "demo_block t = \<lparr>block_id = ''b1'', block_run = ''r'', block_epoch = 1, block_native = None, block_kind = ''narration'',
     block_sequence = 1, block_revision = 1, block_change_sequence = 1, block_started_at = ''now'',
     block_body = \<lparr>body_memory = t, body_spool = None, body_bytes = length t\<rparr>, block_utf16 = utf16_units t\<rparr>"

lemma demo_one_eq:
  "open_blocks demo_one = [(''k'', demo_block ''ab'')] \<and> map text_row_id (world_rows demo_one) = [''b1''] \<and> list_all is_text_row (world_rows demo_one)
   \<and> log_of (demo_delta ''ab'') (fst (demo_observe ''b1'' ''ab'' demo_start)) = [Streamed ''b1'' ''ab'']
   \<and> retry (buffer demo_one) = None \<and> admitted demo_one ''r'' 1"
  by (simp add: demo_one_def demo_observe_eq demo_start_def admitted_def demo_run_def open_block_def demo_env_def start_block_def
      allocate_change_sequence_def Let_def max_sequence_def set_blocks_def bm_insert_def block_event_def append_delta_def body_append_def block_key_def
      empty_body_def MEMORY_BYTES_def demo_block_def is_text_row_def utf16_units_def char_count_def log_of_def live_evidence_def
      block_evidence_def get_str_def)

lemma demo_admitted: "admitted demo_one ''r'' 1"
  using demo_one_eq by blast

lemma demo_two_eq:
  "open_blocks demo_two = [(''k'', demo_block ''abc'')] \<and> world_rows demo_two = world_rows demo_one \<and> retry (buffer demo_two) = None
   \<and> log_of (demo_delta ''c'') (fst (demo_observe ''b2'' ''c'' demo_one)) = [Streamed ''b1'' ''c'']"
proof -
  have k: "list_all (\<lambda>(k, b). block_kind b = ''narration'') (open_blocks demo_one)" by (simp add: demo_one_eq demo_block_def)
  show ?thesis
  by (simp add: demo_two_def demo_observe_eq [OF demo_admitted k] demo_one_eq
      append_delta_def demo_env_def body_append_def demo_block_def set_blocks_def bm_insert_def utf16_units_def char_count_def
      begins_char_def MEMORY_BYTES_def log_of_def live_evidence_def block_evidence_def get_str_def)
qed

lemma demo_settled_eq:
  "map (\<lambda>r. (text_row_id r, text_row_phase r, is_text_row r)) (world_rows demo_settled) = [(''b1'', ''completed'', True)]"
proof -
  obtain r where r: "world_rows demo_one = [r]" "text_row_id r = ''b1''" "is_text_row r" using demo_one_eq by (cases "world_rows demo_one") auto
  show ?thesis
    by (simp add: demo_settled_def maintain_settled_def maintain_settled_until_def demo_ended_def request_settlement_def demo_two_eq
      attempt_flush_settled_def closable_def List.map_filter_def close_status_def demo_block_def demo_run_def demo_env_def set_retry_def
      finish_def allocate_change_sequence_def Let_def INLINE_PAYLOAD_BYTES_def r finished_row_def set_blocks_def bm_remove_def
      r(3) [unfolded is_text_row_def] is_text_row_def)
qed

lemma demo_steps:
  "rtranclp (text_step demo_json) (demo_start, []) (demo_settled, [Streamed ''b1'' ''ab'', Streamed ''b1'' ''c''])"
proof -
  let ?log = "[Streamed ''b1'' ''ab'', Streamed ''b1'' ''c'']"
  let ?over = "demo_two\<lparr>world_runs := (\<lambda>r. demo_run ''succeeded'')\<rparr>"
  have ids: "list_all (\<lambda>r. text_row_id r \<noteq> ''b2'') (world_rows demo_one)"
    using demo_one_eq by (cases "world_rows demo_one") auto
  have "text_step demo_json (demo_start, []) (demo_one, [Streamed ''b1'' ''ab''])"
    unfolding demo_one_def by (rule demo_step [OF demo_env_ok]) (simp_all add: demo_start_def demo_one_eq [unfolded demo_start_def])
  moreover have "text_step demo_json (demo_one, [Streamed ''b1'' ''ab'']) (demo_two, ?log)"
    unfolding demo_two_def by (rule demo_step [OF demo_env_ok]) (simp_all add: ids demo_one_eq demo_two_eq demo_block_def)
  moreover have "text_step demo_json (demo_two, ?log) (?over, ?log)"
    using demo_one_eq by (intro step_others) (simp add: others_act_def demo_two_eq list_all_iff)
  moreover have "text_step demo_json (?over, ?log) (demo_ended, ?log)" unfolding demo_ended_def by (rule step_requests)
  moreover have "text_step demo_json (demo_ended, ?log) (demo_settled, ?log)"
    unfolding demo_settled_def maintain_settled_def
    by (rule step_maintains [of _ "demo_env ''b3''" 7 None _ "fst (maintain_settled_until demo_json (demo_env ''b3'') 7 None demo_ended)"]) simp
  ultimately show ?thesis by (meson rtranclp.rtrancl_into_rtrancl rtranclp.rtrancl_refl)
qed

theorem text_survives_witness:
  "\<exists>w log r. rtranclp (text_step demo_json) (demo_start, []) (w, log) \<and> world_rows w = [r] \<and> row_text r = Some ''abc''"
proof -
  obtain r where r: "world_rows demo_settled = [r]" "text_row_id r = ''b1''" "text_row_phase r = ''completed''" "is_text_row r"
    using demo_settled_eq by (cases "world_rows demo_settled") auto
  have "text_start (demo_start, [])" by (simp add: text_start_def demo_start_def)
  from text_survives [OF demo_steps this] r have "row_text r = Some ''abc''" by (simp add: demo_start_def)
  with demo_steps r(1) show ?thesis by blast
qed

theorem boundary_closes_anonymous_witness:
  "\<exists>w. observe_text demo_json (demo_env ''b2'') ''r'' 1 ''runtime.action'' (Object []) demo_one = (Inr None, w)
    \<and> open_blocks demo_one \<noteq> [] \<and> anonymous_keys (\<lambda>_ _. True) ''r'' 1 w = []"
proof -
  let ?r = "observe_text demo_json (demo_env ''b2'') ''r'' 1 ''runtime.action'' (Object []) demo_one"
  obtain r where r: "world_rows demo_one = [r]" "text_row_id r = ''b1''" using demo_one_eq by (cases "world_rows demo_one") auto
  obtain run where run: "world_runs demo_one ''r'' = Some run" using demo_admitted by (auto simp: admitted_def split: option.split_asm)
  have root: "is_root_output (Object [])" "is_root_output (field_or_null (Object []) ''item'')"
    by (simp_all add: is_root_output_def output_scopes_def foreign_fields_def field_or_null_def Let_def)
  have action: "\<not> private_reasoning ''runtime.action'' (Object [])" "\<not> native_type_is x (Object [])" "closes_anonymous ''runtime.action''" for x
    by (simp_all add: private_reasoning_def native_type_is_def pointer_def closes_anonymous_def)
  have "anonymous_keys (\<lambda>_ _. True) ''r'' 1 demo_one = [''k'']" by (simp add: anonymous_keys_def demo_one_eq demo_block_def)
  then have "fst ?r = Inr None"
    by (simp add: observe_text_def Let_def action demo_admitted is_text_delta_def is_completion_def is_boundary_def
        finish_def demo_one_eq demo_block_def demo_env_def allocate_change_sequence_def run r)
  then obtain w where w: "?r = (Inr None, w)" by (metis prod.collapse)
  have "anonymous_keys (\<lambda>_ _. True) ''r'' 1 w = []"
    using w demo_admitted disjI2 [OF action(3)] root disjI2 [OF action(2)] by (rule boundary_closes_anonymous)
  then show ?thesis using w demo_one_eq by auto
qed

theorem delta_continues_block_witness:
  "\<exists>e w k b. demo_observe ''b2'' ''c'' demo_one = (Inr (Some (Some e)), w) \<and> map_of (open_blocks w) k = Some b
    \<and> body_text (block_body b) = streamed (block_id b) [Streamed ''b1'' ''ab''] @ ''c''"
proof -
  let ?log = "[Streamed ''b1'' ''ab'']"
  have ids: "list_all (\<lambda>r. text_row_id r \<noteq> ''b2'') (world_rows demo_one)"
    using demo_one_eq by (cases "world_rows demo_one") auto
  have one: "rtranclp (text_step demo_json) (demo_start, []) (demo_one, ?log)"
    unfolding demo_one_def
    by (rule r_into_rtranclp, rule demo_step [OF demo_env_ok]) (simp_all add: demo_start_def demo_one_eq [unfolded demo_start_def])
  have env: "env_ok (demo_env ''b2'') demo_one ?log"
    by (rule demo_env_ok) (simp_all add: ids demo_one_eq demo_block_def)
  have "log_of (demo_delta ''c'') (fst (demo_observe ''b2'' ''c'' demo_one)) \<noteq> []" using demo_two_eq by simp
  then obtain e where "fst (demo_observe ''b2'' ''c'' demo_one) = Inr (Some (Some e))"
    by (auto simp: log_of_def split: sum.split_asm option.split_asm)
  then obtain w where w: "demo_observe ''b2'' ''c'' demo_one = (Inr (Some (Some e)), w)" by (metis prod.collapse)
  have "text_start (demo_start, [])" by (simp add: text_start_def demo_start_def)
  moreover have "is_text_delta ''agent.text.delta''" by (simp add: is_text_delta_def)
  ultimately obtain k b where "map_of (open_blocks w) k = Some b"
      "Torn (block_id b) \<notin> set ?log \<longrightarrow> body_text (block_body b) = streamed (block_id b) ?log @ delta_text (demo_delta ''c'')"
    using delta_continues_block [OF one _ env w [unfolded demo_observe_def]] by blast
  then have "map_of (open_blocks w) k = Some b"
      "body_text (block_body b) = streamed (block_id b) ?log @ delta_text (demo_delta ''c'')" by simp_all
  with w show ?thesis unfolding demo_kind by blast
qed

theorem maintenance_settles_witness:
  "\<exists>out w. maintain_settled_until demo_json (demo_env ''b3'') 7 None demo_ended = (out, w) \<and> outcome_attempted out
    \<and> outcome_error out = None \<and> retry (buffer w) = None"
proof -
  obtain r where r: "world_rows demo_one = [r]" "text_row_id r = ''b1''" using demo_one_eq by (cases "world_rows demo_one") auto
  let ?m = "maintain_settled_until demo_json (demo_env ''b3'') 7 None demo_ended"
  have "outcome_attempted (fst ?m) \<and> outcome_error (fst ?m) = None"
    by (simp add: maintain_settled_until_def demo_ended_def request_settlement_def demo_two_eq
      attempt_flush_settled_def closable_def List.map_filter_def close_status_def demo_block_def demo_run_def demo_env_def set_retry_def
      finish_def allocate_change_sequence_def Let_def r)
  moreover obtain out w where "?m = (out, w)" by (cases ?m)
  moreover have "bm_ok (open_blocks demo_ended)" by (simp add: demo_ended_def request_settlement_def demo_two_eq set_retry_def bm_ok_def)
  ultimately show ?thesis using maintenance_settles [of demo_json "demo_env ''b3''" 7 None demo_ended out w] by auto
qed

end
