(* ===== verification/Runtime_Failure.thy ===== *)
theory Runtime_Failure
  imports Activity_Mapping Net_Failure
begin

text \<open>
  What a failed runtime tells the user, from \<^verbatim>\<open>crates/rovai-core/src/runtime_failure.rs\<close>: the
  classification of its output, and the text of it that is made public, without control characters, paths, payloads
  and credentials. The home and temporary directories and the resolution of paths are arguments. Texts are bytes; an
  operation that would panic gives \<open>None\<close>.
\<close>

section \<open>Failures\<close>

definition PUBLIC_RUNTIME_ERROR_MAX_CHARS :: nat where "PUBLIC_RUNTIME_ERROR_MAX_CHARS = 2048"
definition PUBLIC_RUNTIME_ERROR_MAX_LINES :: nat where "PUBLIC_RUNTIME_ERROR_MAX_LINES = 4"
definition PUBLIC_RUNTIME_ERROR_SUMMARY_MAX_CHARS :: nat where "PUBLIC_RUNTIME_ERROR_SUMMARY_MAX_CHARS = 240"

datatype RuntimeFailureOrigin = RuntimeOrigin | CompatibilityOrigin | EnvironmentOrigin | RovaiOrigin | UnknownOrigin

datatype RuntimeFailurePhase = SpawnPhase | AuthenticationPhase | ModelCatalogPhase | ExecutionPhase | TerminalPhase

record RuntimeFailureView =
  failure_runtime_kind :: AdapterKind
  failure_origin :: RuntimeFailureOrigin
  failure_phase :: RuntimeFailurePhase
  failure_code :: string
  failure_summary :: string
  failure_detail :: "string option"
  failure_retryable :: bool

abbreviation failure ::
    "AdapterKind \<Rightarrow> RuntimeFailureOrigin \<Rightarrow> RuntimeFailurePhase \<Rightarrow> string \<Rightarrow> string \<Rightarrow> string option \<Rightarrow> bool \<Rightarrow> RuntimeFailureView" where
  "failure kind origin phase code summary detail retryable \<equiv>
     \<lparr>failure_runtime_kind = kind, failure_origin = origin, failure_phase = phase, failure_code = code,
      failure_summary = summary, failure_detail = detail, failure_retryable = retryable\<rparr>"

text \<open>The characters of a text: a character begins at each byte that does not continue one.\<close>

fun char_groups :: "string \<Rightarrow> string list" where
  "char_groups [] = []"
| "char_groups (c # s) =
     (case char_groups s of
        [] \<Rightarrow> [[c]]
      | g # gs \<Rightarrow> if begins_char (hd g) then [c] # g # gs else (c # g) # gs)"

definition control_group :: "string \<Rightarrow> bool" where
  "control_group g =
     (case g of
        [] \<Rightarrow> False
      | c # r \<Rightarrow> (of_char c :: nat) < 32 \<or> (of_char c :: nat) = 127
          \<or> (of_char c :: nat) = 194 \<and> r \<noteq> [] \<and> 128 \<le> (of_char (hd r) :: nat) \<and> (of_char (hd r) :: nat) < 160)"

definition newline :: char where "newline = CHR 0x0A"

definition failure_code_char :: "char \<Rightarrow> bool" where
  "failure_code_char c = (c \<in> set ''abcdefghijklmnopqrstuvwxyz0123456789_'')"

definition failure_detail_valid :: "string \<Rightarrow> bool" where
  "failure_detail_valid d =
     (trim d \<noteq> [] \<and> char_count d \<le> PUBLIC_RUNTIME_ERROR_MAX_CHARS
      \<and> list_all (\<lambda>g. control_group g \<longrightarrow> g = [newline]) (char_groups d))"

definition validate_failure :: "RuntimeFailureView \<Rightarrow> string option" where
  "validate_failure f =
     (if trim (failure_code f) = [] \<or> 120 < length (failure_code f) \<or> \<not> list_all failure_code_char (failure_code f)
      then Some ''public Runtime failure code is invalid''
      else if trim (failure_summary f) = [] \<or> PUBLIC_RUNTIME_ERROR_SUMMARY_MAX_CHARS < char_count (failure_summary f)
        \<or> list_ex control_group (char_groups (failure_summary f))
      then Some ''public Runtime failure summary is invalid''
      else if (case failure_detail f of None \<Rightarrow> False | Some d \<Rightarrow> \<not> failure_detail_valid d)
      then Some ''public Runtime failure detail is invalid''
      else None)"

section \<open>Control characters\<close>

definition byte :: "char \<Rightarrow> nat" where "byte c = of_char c"

text \<open>The rest of a text behind an escape sequence: up to a final byte, or to the end of a string command.\<close>

fun skip_csi :: "string \<Rightarrow> string" where
  "skip_csi [] = []"
| "skip_csi (c # s) = (if 0x40 \<le> byte c \<and> byte c \<le> 0x7E then s else skip_csi s)"

fun skip_osc :: "string \<Rightarrow> string" where
  "skip_osc [] = []"
| "skip_osc (c # s) =
     (if byte c = 0x07 then s else if byte c = 0x1B \<and> s \<noteq> [] \<and> byte (hd s) = 0x5C then tl s else skip_osc s)"

lemma skip_csi_le: "length (skip_csi s) \<le> length s"
  by (induction s) auto

lemma skip_osc_le: "length (skip_osc s) \<le> length s"
  by (induction s) auto

definition plain_byte :: "char \<Rightarrow> string" where
  "plain_byte c =
     (if byte c = 0x0A \<or> byte c = 0x0D then [newline] else if byte c = 0x09 then '' ''
      else if byte c < 0x20 \<or> byte c = 0x7F then [] else [c])"

function strip_escapes :: "string \<Rightarrow> string" where
  "strip_escapes s =
     (case s of
        [] \<Rightarrow> []
      | c # s' \<Rightarrow>
          if byte c = 0x1B then
            (case s' of
               [] \<Rightarrow> []
             | d # s'' \<Rightarrow>
                 if byte d = 0x5B then strip_escapes (skip_csi s'')
                 else if byte d = 0x5D then strip_escapes (skip_osc s'')
                 else strip_escapes s'')
          else plain_byte c @ strip_escapes s')"
  by pat_completeness auto
termination
  by (relation "measure length") (auto simp: le_imp_less_Suc skip_csi_le skip_osc_le less_SucI)

declare strip_escapes.simps [simp del]

text \<open>
  \<open>String::from_utf8_lossy\<close>, character by character: a byte or sequence that is no character in UTF-8
  gives the replacement character, the longest valid beginning of one counting once.
\<close>

definition continues :: "string \<Rightarrow> nat \<Rightarrow> nat \<Rightarrow> bool" where
  "continues s lo hi = (s \<noteq> [] \<and> lo \<le> byte (hd s) \<and> byte (hd s) \<le> hi)"

definition second_byte :: "nat \<Rightarrow> nat \<times> nat" where
  "second_byte b = (if b = 0xE0 then (0xA0, 0xBF) else if b = 0xED then (0x80, 0x9F) else if b = 0xF0 then (0x90, 0xBF)
     else if b = 0xF4 then (0x80, 0x8F) else (0x80, 0xBF))"

definition replacement_character :: string where "replacement_character = [CHR 0xEF, CHR 0xBF, CHR 0xBD]"

definition utf8_width :: "nat \<Rightarrow> nat" where
  "utf8_width b = (if b < 0x80 then 1 else if 0xC2 \<le> b \<and> b \<le> 0xDF then 2 else if 0xE0 \<le> b \<and> b \<le> 0xEF then 3
     else if 0xF0 \<le> b \<and> b \<le> 0xF4 then 4 else 0)"

text \<open>The length of the first character or of its longest valid beginning, and whether it is complete.\<close>

definition first_char :: "char \<Rightarrow> string \<Rightarrow> nat \<times> bool" where
  "first_char c s =
     (let w = utf8_width (byte c); (lo, hi) = second_byte (byte c) in
      if w = 1 then (1, True)
      else if w = 0 \<or> \<not> continues s lo hi then (1, False)
      else if w = 2 then (2, True)
      else if \<not> continues (drop 1 s) 0x80 0xBF then (2, False)
      else if w = 3 then (3, True)
      else if \<not> continues (drop 2 s) 0x80 0xBF then (3, False)
      else (4, True))"

function lossy_chars :: "string \<Rightarrow> string list" where
  "lossy_chars s =
     (case s of
        [] \<Rightarrow> []
      | c # r \<Rightarrow> (let (n, complete) = first_char c r in
          (if complete then take n s else replacement_character) # lossy_chars (drop (n - 1) r)))"
  by pat_completeness auto
termination
  by (relation "measure length") auto

declare lossy_chars.simps [simp del]

definition strip_ansi_and_controls :: "string \<Rightarrow> string" where
  "strip_ansi_and_controls raw =
     concat (filter (\<lambda>g. \<not> control_group g \<or> g = [newline]) (lossy_chars (strip_escapes raw)))"

section \<open>Credentials\<close>

definition REDACTED :: string where "REDACTED = ''[redacted]''"

definition is_char_boundary :: "string \<Rightarrow> nat \<Rightarrow> bool" where
  "is_char_boundary s i = (i = 0 \<or> i = length s \<or> i < length s \<and> begins_char (s ! i))"

text \<open>The first occurrence of a text, and the first white space.\<close>

fun find_sub :: "string \<Rightarrow> string \<Rightarrow> nat option" where
  "find_sub pat [] = (if pat = [] then Some 0 else None)"
| "find_sub pat (c # s) = (if prefix pat (c # s) then Some 0 else map_option Suc (find_sub pat s))"

fun white_from :: "string \<Rightarrow> nat" where
  "white_from [] = 0"
| "white_from (c # s) = (if leading_white (c # s) \<noteq> 0 then 0 else Suc (white_from s))"

lemma find_sub_le: "find_sub pat s = Some i \<Longrightarrow> i + length pat \<le> length s"
  by (induction s arbitrary: i) (auto split: if_split_asm dest: prefix_length_le)

lemma white_from_le: "white_from s \<le> length s"
  by (induction s) auto

definition replace_range :: "nat \<Rightarrow> nat \<Rightarrow> string \<Rightarrow> string" where
  "replace_range first_byte last_byte s = take first_byte s @ REDACTED @ drop last_byte s"

function redact_bearer :: "string \<Rightarrow> nat \<Rightarrow> string option" where
  "redact_bearer s from_byte =
     (if length s < from_byte \<or> \<not> is_char_boundary s from_byte then None
      else
        (case find_sub ''bearer '' (to_ascii_lowercase (drop from_byte s)) of
           None \<Rightarrow> Some s
         | Some relative \<Rightarrow>
             (let first_byte = from_byte + relative + 7; last_byte = first_byte + white_from (drop first_byte s) in
              redact_bearer (if first_byte < last_byte then replace_range first_byte last_byte s else s) (first_byte + 10))))"
  by pat_completeness auto
termination
proof (relation "measure (\<lambda>(s, i). length s - i)")
  fix s :: string and i r f l
  assume "\<not> (length s < i \<or> \<not> is_char_boundary s i)" and r: "find_sub ''bearer '' (to_ascii_lowercase (drop i s)) = Some r"
    and f: "f = i + r + 7" and l: "l = f + white_from (drop f s)"
  have "r + 7 \<le> length s - i" using find_sub_le [OF r] by (simp add: to_ascii_lowercase_def)
  moreover have "l \<le> length s" using white_from_le [of "drop f s"] calculation f l by simp
  ultimately show "((if f < l then replace_range f l s else s, f + 10), s, i) \<in> measure (\<lambda>(s, i). length s - i)"
    using f by (auto simp: replace_range_def REDACTED_def)
qed simp

declare redact_bearer.simps [simp del]

definition quote_char :: "char \<Rightarrow> bool" where
  "quote_char c = (c = CHR 0x22 \<or> c = CHR 0x27)"

text \<open>The number of bytes of white space and quotes at the beginning.\<close>

function blank_bytes :: "string \<Rightarrow> nat" where
  "blank_bytes s =
     (if leading_white s \<noteq> 0 then leading_white s + blank_bytes (drop (leading_white s) s)
      else (case s of [] \<Rightarrow> 0 | c # r \<Rightarrow> if quote_char c then Suc (blank_bytes r) else 0))"
  by pat_completeness auto
termination
proof (relation "measure length")
  fix s :: string
  assume "leading_white s \<noteq> 0"
  then show "(drop (leading_white s) s, s) \<in> measure length" using leading_white_le [of s] by simp
qed auto

declare blank_bytes.simps [simp del]

fun value_bytes :: "string \<Rightarrow> nat" where
  "value_bytes [] = 0"
| "value_bytes (c # s) =
     (if leading_white (c # s) \<noteq> 0 \<or> quote_char c \<or> c \<in> set '',;}]'' then 0 else Suc (value_bytes s))"

definition secret_assignment_bounds :: "string \<Rightarrow> string \<Rightarrow> nat \<Rightarrow> (nat \<times> nat) option" where
  "secret_assignment_bounds s marker marker_end =
     (let d = marker_end + blank_bytes (drop marker_end s) in
      if length s \<le> d \<or> s ! d \<notin> set '':='' then None
      else
        (let first_byte = Suc d + blank_bytes (drop (Suc d) s);
             last_byte = (if marker = ''authorization'' then length s else first_byte + value_bytes (drop first_byte s))
         in if first_byte < last_byte then Some (first_byte, last_byte) else None))"

lemma blank_bytes_le: "blank_bytes s \<le> length s"
proof (induction s rule: blank_bytes.induct)
  case (1 s)
  show ?case
  proof (cases "leading_white s = 0")
    case True
    then show ?thesis using 1(2) by (subst blank_bytes.simps) (auto split: list.split)
  next
    case False
    then show ?thesis using 1(1) leading_white_le [of s] by (subst blank_bytes.simps) simp
  qed
qed

lemma value_bytes_le: "value_bytes s \<le> length s"
  by (induction s) auto

lemma assignment_bounds:
  assumes "secret_assignment_bounds s marker m = Some (f, l)"
  shows "m < f" "f < l" "l \<le> length s"
proof -
  define d where "d = m + blank_bytes (drop m s)"
  define g where "g = Suc d + blank_bytes (drop (Suc d) s)"
  have "d < length s" "f = g" and l: "l = (if marker = ''authorization'' then length s else f + value_bytes (drop f s))" "f < l"
    using assms unfolding secret_assignment_bounds_def Let_def d_def [symmetric] g_def [symmetric]
    by (auto split: if_split_asm)
  moreover have "g \<le> length s" using blank_bytes_le [of "drop (Suc d) s"] \<open>d < length s\<close> by (simp add: g_def)
  moreover have "m \<le> d" "d < g" by (simp_all add: d_def g_def)
  ultimately show "m < f" "f < l" "l \<le> length s" using value_bytes_le [of "drop f s"] by (auto split: if_split_asm)
qed

function redact_marker :: "string \<Rightarrow> string \<Rightarrow> nat \<Rightarrow> string option" where
  "redact_marker marker s from_byte =
     (if length s < from_byte \<or> \<not> is_char_boundary s from_byte \<or> marker = [] then None
      else
        (case find_sub marker (to_ascii_lowercase (drop from_byte s)) of
           None \<Rightarrow> Some s
         | Some relative \<Rightarrow>
             (let marker_end = from_byte + relative + length marker in
              case secret_assignment_bounds s marker marker_end of
                None \<Rightarrow> redact_marker marker s marker_end
              | Some (first_byte, last_byte) \<Rightarrow> redact_marker marker (replace_range first_byte last_byte s) (first_byte + 10))))"
  by pat_completeness auto
termination
proof (relation "measure (\<lambda>(marker, s, i). length s - i)")
  fix marker s :: string and i r m
  assume i: "\<not> (length s < i \<or> \<not> is_char_boundary s i \<or> marker = [])" and r: "find_sub marker (to_ascii_lowercase (drop i s)) = Some r"
    and m: "m = i + r + length marker"
  have "r + length marker \<le> length s - i" using find_sub_le [OF r] by (simp add: to_ascii_lowercase_def)
  then show "((marker, s, m), marker, s, i) \<in> measure (\<lambda>(marker, s, i). length s - i)"
    using i m by (cases marker) auto
  fix p f l
  assume "secret_assignment_bounds s marker m = Some p" and p: "(f, l) = p"
  then have "m < f" "f < l" "l \<le> length s" using assignment_bounds by blast+
  then show "((marker, replace_range f l s, f + 10), marker, s, i) \<in> measure (\<lambda>(marker, s, i). length s - i)"
    using m by (simp add: replace_range_def REDACTED_def)
qed simp

declare redact_marker.simps [simp del]

definition MARKERS :: "string list" where
  "MARKERS = [''authorization'', ''api_key'', ''api-key'', ''apikey'', ''cookie'', ''credential'', ''secret'', ''token'']"

definition redact_secret_values :: "string \<Rightarrow> string option" where
  "redact_secret_values s =
     fold (\<lambda>marker r. Option.bind r (\<lambda>s. redact_marker marker s 0)) MARKERS (redact_bearer s 0)"

section \<open>Public texts\<close>

definition private_payload_labels :: "string list" where
  "private_payload_labels = [''prompt:'', ''prompt='', ''usermessage:'', ''usermessage='', ''user_message:'', ''user_message='',
      ''toolinput:'', ''toolinput='', ''tool_input:'', ''tool_input='', ''tooloutput:'', ''tooloutput='', ''tool_output:'',
      ''tool_output='']"

definition contains_private_payload_label :: "string \<Rightarrow> bool" where
  "contains_private_payload_label line =
     contains_any (filter (\<lambda>c. \<not> quote_char c \<and> c \<noteq> CHR 0x5C) (concat (split_whitespace [] (to_ascii_lowercase line))))
       private_payload_labels"

definition redact_private_runtime_paths :: "string \<Rightarrow> string" where
  "redact_private_runtime_paths s =
     str_replace ''runtime-private'' ''<private-runtime>'' (str_replace ''.runtime-private'' ''<private-runtime>''
       (str_replace ''<runtime-private>'' ''<private-runtime>'' s))"

text \<open>The ways a sensitive path may be written.\<close>

definition path_alias :: "string \<Rightarrow> string option" where
  "path_alias p =
     (case strip_prefix ''/private/'' p of
        Some rest \<Rightarrow> Some (''/'' @ rest)
      | None \<Rightarrow> if prefix ''/var/'' p \<or> prefix ''/tmp/'' p then Some (''/private'' @ p) else None)"

definition sensitive_path_variants :: "(string \<Rightarrow> string option) \<Rightarrow> string \<Rightarrow> string \<Rightarrow> (string \<times> string) list" where
  "sensitive_path_variants canonicalize path replacement =
     (let variants = path # (case canonicalize path of None \<Rightarrow> [] | Some c \<Rightarrow> [c]) in
      map (\<lambda>p. (p, replacement)) (filter (\<lambda>p. p \<noteq> []) (variants @ List.map_filter path_alias variants)))"

fun dedup_by_key :: "('a \<times> 'b) list \<Rightarrow> ('a \<times> 'b) list" where
  "dedup_by_key [] = []"
| "dedup_by_key [x] = [x]"
| "dedup_by_key (x # y # xs) = (if fst x = fst y then dedup_by_key (x # xs) else x # dedup_by_key (y # xs))"

record FailureHost =
  host_canonicalize :: "string \<Rightarrow> string option"
  host_home :: "string option"
  host_temp :: string

definition path_replacements :: "FailureHost \<Rightarrow> (string \<times> string) list \<Rightarrow> (string \<times> string) list" where
  "path_replacements host sensitive_paths =
     (let variants = sensitive_path_variants (host_canonicalize host) in
      dedup_by_key (sort_key (\<lambda>e. - int (length (fst e)))
        (concat (map (\<lambda>(path, replacement). variants path replacement) sensitive_paths)
         @ (case host_home host of None \<Rightarrow> [] | Some home \<Rightarrow> variants home ''<home>'')
         @ variants (host_temp host) ''<temp>'')))"

definition redact_paths :: "(string \<times> string) list \<Rightarrow> string \<Rightarrow> string" where
  "redact_paths paths s = fold (\<lambda>(path, replacement) s. if path \<noteq> [] then str_replace path replacement s else s) paths s"

definition sanitize_line :: "(string \<times> string) list \<Rightarrow> string \<Rightarrow> string option" where
  "sanitize_line paths collapsed = redact_secret_values (redact_private_runtime_paths (redact_paths paths collapsed))"

fun sanitize_lines :: "(string \<times> string) list \<Rightarrow> nat \<Rightarrow> string list \<Rightarrow> string list option" where
  "sanitize_lines paths room [] = Some []"
| "sanitize_lines paths room (raw_line # raw_lines) =
     (let collapsed = join_with '' '' (split_whitespace [] raw_line) in
      if collapsed = [] \<or> contains_private_payload_label collapsed then sanitize_lines paths room raw_lines
      else
        (case sanitize_line paths collapsed of
           None \<Rightarrow> None
         | Some redacted \<Rightarrow>
             if trim redacted = [] then (if room = 0 then Some [] else sanitize_lines paths room raw_lines)
             else if room \<le> 1 then Some [redacted]
             else map_option (\<lambda>more. redacted # more) (sanitize_lines paths (room - 1) raw_lines)))"

definition truncate_chars :: "string \<Rightarrow> nat \<Rightarrow> string" where
  "truncate_chars s limit = (if char_count s \<le> limit then s else take_chars (limit - 1) s @ ellipsis)"

definition sanitize_public_runtime_error :: "FailureHost \<Rightarrow> string \<Rightarrow> (string \<times> string) list \<Rightarrow> string option option" where
  "sanitize_public_runtime_error host raw sensitive_paths =
     map_option (\<lambda>lines. let bounded = truncate_chars (join_with [newline] lines) PUBLIC_RUNTIME_ERROR_MAX_CHARS in
         if trim bounded = [] then None else Some bounded)
       (sanitize_lines (path_replacements host sensitive_paths) PUBLIC_RUNTIME_ERROR_MAX_LINES
         (split_on (\<lambda>c. c = newline) (strip_ansi_and_controls raw)))"

section \<open>Classification\<close>

fun runtime_display_name :: "AdapterKind \<Rightarrow> string" where
  "runtime_display_name CodexCli = ''Codex CLI''"
| "runtime_display_name Pi = ''Pi Coding Agent''"
| "runtime_display_name OpencodeCli = ''OpenCode''"
| "runtime_display_name CopilotCli = ''GitHub Copilot CLI''"
| "runtime_display_name ClaudeCodeCli = ''Claude Code''"
| "runtime_display_name KiroCli = ''Kiro CLI''"
| "runtime_display_name QoderCli = ''Qoder CLI''"
| "runtime_display_name CodebuddyCli = ''CodeBuddy CLI''"
| "runtime_display_name QwenCode = ''Qwen Code''"
| "runtime_display_name TraeCnCli = ''TRAE CLI''"
| "runtime_display_name CursorAgent = ''Cursor Agent''"
| "runtime_display_name KimiCodeCli = ''Kimi Code''"
| "runtime_display_name MinimaxCodeCli = ''MiniMax Code''"
| "runtime_display_name HermesCli = ''Hermes Agent''"
| "runtime_display_name GrokBuild = ''Grok Build''"
| "runtime_display_name DeepseekHarness = ''DeepSeek Harness''"
| "runtime_display_name ClineCli = ''Cline''"
| "runtime_display_name CommandCodeCli = ''Command Code''"
| "runtime_display_name AntigravityApp = ''Antigravity''"
| "runtime_display_name ZcodeApp = ''ZCode''"

type_synonym classification = "RuntimeFailurePhase \<times> string \<times> string \<times> bool"

text \<open>The phase, code, summary and retry of a failure whose origin is the runtime, from its output in lower case.\<close>

definition classify_high_value_runtime_error ::
    "AdapterKind \<Rightarrow> RuntimeFailurePhase \<Rightarrow> string \<Rightarrow> string \<Rightarrow> string \<Rightarrow> bool \<Rightarrow> classification" where
  "classify_high_value_runtime_error kind phase default_code default_summary lower retryable =
     (if kind = DeepseekHarness \<and> contains_any lower [''no api key for provider route'', ''no credential for provider route'']
      then (AuthenticationPhase, ''runtime_authentication_required'', ''DeepSeek Harness '' @ [CHR 0xE9, CHR 0x9C, CHR 0x80,
      CHR 0xE8, CHR 0xA6, CHR 0x81, CHR 0xE9, CHR 0x85, CHR 0x8D, CHR 0xE7, CHR 0xBD, CHR 0xAE] @ '' Provider '' @ [CHR 0xE5, CHR 0x87,
      CHR 0xAD, CHR 0xE6, CHR 0x8D, CHR 0xAE], False)
      else if contains_any lower [''not logged in'', ''not authenticated'', ''login required'', ''log in required'',
      ''please log in'', ''authentication required'', ''authentication failed'', ''unauthorized'', ''credential expired'',
      ''credentials expired'', ''token expired'']
      then (AuthenticationPhase, ''runtime_authentication_required'', runtime_display_name kind @ '' '' @ [CHR 0xE8, CHR 0xAE,
      CHR 0xA4, CHR 0xE8, CHR 0xAF, CHR 0x81, CHR 0xE6, CHR 0x9C, CHR 0xAA, CHR 0xE9, CHR 0x80, CHR 0x9A, CHR 0xE8, CHR 0xBF,
      CHR 0x87], True)
      else if kind = ZcodeApp \<and> str_contains lower ''zcode account concurrency limit exceeded''
      then (phase, ''runtime_rate_limited'', [CHR 0xE8, CHR 0xB4, CHR 0xA6, CHR 0xE5, CHR 0x8F, CHR 0xB7, CHR 0xE5, CHR 0xB9,
      CHR 0xB6, CHR 0xE5, CHR 0x8F, CHR 0x91, CHR 0xE5, CHR 0xB7, CHR 0xB2, CHR 0xE8, CHR 0xBE, CHR 0xBE, CHR 0xE4, CHR 0xB8, CHR 0x8A,
      CHR 0xE9, CHR 0x99, CHR 0x90, CHR 0xEF, CHR 0xBC, CHR 0x8C, CHR 0xE8, CHR 0xAF, CHR 0xB7, CHR 0xE7, CHR 0xA8, CHR 0x8D, CHR 0xE5,
      CHR 0x90, CHR 0x8E, CHR 0xE9, CHR 0x87, CHR 0x8D, CHR 0xE8, CHR 0xAF, CHR 0x95], True)
      else if contains_any lower [''rate limit'', ''rate-limit'', ''too many requests'', ''status 429'', ''http 429'']
      then (phase, ''runtime_rate_limited'', [CHR 0xE8, CHR 0xAF, CHR 0xB7, CHR 0xE6, CHR 0xB1, CHR 0x82, CHR 0xE8, CHR 0xBF,
      CHR 0x87, CHR 0xE4, CHR 0xBA, CHR 0x8E, CHR 0xE9, CHR 0xA2, CHR 0x91, CHR 0xE7, CHR 0xB9, CHR 0x81], True)
      else if contains_any lower [''at capacity'', ''server overloaded'', ''serveroverloaded'']
      then (phase, ''runtime_server_overloaded'', ''Runtime '' @ [CHR 0xE6, CHR 0x9C, CHR 0x8D, CHR 0xE5, CHR 0x8A, CHR 0xA1,
      CHR 0xE6, CHR 0x9A, CHR 0x82, CHR 0xE6, CHR 0x97, CHR 0xB6, CHR 0xE7, CHR 0xB9, CHR 0x81, CHR 0xE5, CHR 0xBF, CHR 0x99], True)
      else if contains_any lower [''quota exceeded'', ''quota exhausted'', ''insufficient quota'', ''insufficient balance'',
      ''credit balance'', ''insufficient credits'', ''billing limit'', ''quota limit'']
      then (phase, ''runtime_quota_exceeded'', [CHR 0xE8, CHR 0xB4, CHR 0xA6, CHR 0xE6, CHR 0x88, CHR 0xB7, CHR 0xE9, CHR 0x85,
      CHR 0x8D, CHR 0xE9, CHR 0xA2, CHR 0x9D, CHR 0xE4, CHR 0xB8, CHR 0x8D, CHR 0xE8, CHR 0xB6, CHR 0xB3], False)
      else if str_contains lower ''model'' \<and> contains_any lower [''not found'', ''does not exist'', ''not available'',
      ''unavailable'', ''no access'', ''access denied'', ''permission'', ''unsupported model'']
      then (phase, ''runtime_model_unavailable'', [CHR 0xE6, CHR 0x89, CHR 0x80, CHR 0xE9, CHR 0x80, CHR 0x89, CHR 0xE6,
      CHR 0xA8, CHR 0xA1, CHR 0xE5, CHR 0x9E, CHR 0x8B, CHR 0xE4, CHR 0xB8, CHR 0x8D, CHR 0xE5, CHR 0x8F, CHR 0xAF, CHR 0xE7, CHR 0x94,
      CHR 0xA8, CHR 0xE6, CHR 0x88, CHR 0x96, CHR 0xE6, CHR 0x97, CHR 0xA0, CHR 0xE6, CHR 0x9D, CHR 0x83, CHR 0xE8, CHR 0xAE, CHR 0xBF,
      CHR 0xE9, CHR 0x97, CHR 0xAE], False)
      else if contains_any lower [''permission denied'', ''access denied'', ''operation not permitted'']
      then (phase, ''runtime_permission_denied'', runtime_display_name kind @ '' '' @ [CHR 0xE6, CHR 0x8B, CHR 0x92, CHR 0xE7,
      CHR 0xBB, CHR 0x9D, CHR 0xE4, CHR 0xBA, CHR 0x86, CHR 0xE8, CHR 0xAE, CHR 0xBF, CHR 0xE9, CHR 0x97, CHR 0xAE, CHR 0xE8, CHR 0xAF,
      CHR 0xB7, CHR 0xE6, CHR 0xB1, CHR 0x82], False)
      else if classify_network_failure None (Some default_code) (Some lower) \<noteq> None
      then (phase, ''runtime_network_interrupted'', [CHR 0xE7, CHR 0xBD, CHR 0x91, CHR 0xE7, CHR 0xBB, CHR 0x9C, CHR 0xE8,
      CHR 0xBF, CHR 0x9E, CHR 0xE6, CHR 0x8E, CHR 0xA5, CHR 0xE4, CHR 0xB8, CHR 0xAD, CHR 0xE6, CHR 0x96, CHR 0xAD], True)
      else (phase, default_code, default_summary, retryable))"

definition context_payload_too_large_failure :: "AdapterKind \<Rightarrow> RuntimeFailureView" where
  "context_payload_too_large_failure kind =
     failure kind RovaiOrigin ExecutionPhase ''context_payload_too_large'' ([CHR 0xE8, CHR 0xBE, CHR 0x93, CHR 0xE5, CHR 0x85,
      CHR 0xA5, CHR 0xE5, CHR 0x86, CHR 0x85, CHR 0xE5, CHR 0xAE, CHR 0xB9, CHR 0xE8, CHR 0xBF, CHR 0x87, CHR 0xE5, CHR 0xA4, CHR 0xA7,
      CHR 0xEF, CHR 0xBC, CHR 0x8C, CHR 0xE6, CHR 0x9C, CHR 0xAA, CHR 0xE5, CHR 0xBC, CHR 0x80, CHR 0xE5, CHR 0xA7, CHR 0x8B, CHR 0xE6,
      CHR 0x89, CHR 0xA7, CHR 0xE8, CHR 0xA1, CHR 0x8C, CHR 0xE3, CHR 0x80, CHR 0x82])
       (Some ([CHR 0xE6, CHR 0x9C, CHR 0xAC, CHR 0xE6, CHR 0xAC, CHR 0xA1, CHR 0xE5, CHR 0xAE, CHR 0x8C, CHR 0xE6, CHR 0x95,
      CHR 0xB4, CHR 0xE8, CHR 0xBE, CHR 0x93, CHR 0xE5, CHR 0x85, CHR 0xA5, CHR 0xE8, CHR 0xB6, CHR 0x85, CHR 0xE8, CHR 0xBF, CHR 0x87,
      CHR 0xE6, CHR 0x89, CHR 0xA7, CHR 0xE8, CHR 0xA1, CHR 0x8C, CHR 0xE5, CHR 0xAE, CHR 0xB9, CHR 0xE9, CHR 0x87, CHR 0x8F, CHR 0xEF,
      CHR 0xBC, CHR 0x8C, CHR 0xE6, CHR 0x9C, CHR 0xAA, CHR 0xE5, CHR 0xBC, CHR 0x80, CHR 0xE5, CHR 0xA7, CHR 0x8B, CHR 0xE6, CHR 0x89,
      CHR 0xA7, CHR 0xE8, CHR 0xA1, CHR 0x8C, CHR 0xE3, CHR 0x80, CHR 0x82, CHR 0xE5, CHR 0xB7, CHR 0xB2, CHR 0xE4, CHR 0xBF, CHR 0x9D,
      CHR 0xE5, CHR 0xAD, CHR 0x98, CHR 0xE7, CHR 0x9A, CHR 0x84, CHR 0xE9, CHR 0x98, CHR 0x9F, CHR 0xE5, CHR 0x91, CHR 0x98, CHR 0xE8,
      CHR 0xB5, CHR 0x84, CHR 0xE6, CHR 0x96, CHR 0x99, CHR 0xE5, CHR 0x92, CHR 0x8C, CHR 0xE5, CHR 0xB7, CHR 0xB2, CHR 0xE6, CHR 0x8F,
      CHR 0x90, CHR 0xE4, CHR 0xBA, CHR 0xA4, CHR 0xE6, CHR 0xB6, CHR 0x88, CHR 0xE6, CHR 0x81, CHR 0xAF, CHR 0xE4, CHR 0xBF, CHR 0x9D,
      CHR 0xE7, CHR 0x95, CHR 0x99, CHR 0xE3, CHR 0x80, CHR 0x82, CHR 0xE8, CHR 0xAF, CHR 0xB7, CHR 0xE7, CHR 0xB2, CHR 0xBE, CHR 0xE7,
      CHR 0xAE, CHR 0x80, CHR 0xE5, CHR 0xBD, CHR 0x93, CHR 0xE5, CHR 0x89, CHR 0x8D, CHR 0xE8, CHR 0xBE, CHR 0x93, CHR 0xE5, CHR 0x85,
      CHR 0xA5, CHR 0xE6, CHR 0x88, CHR 0x96, CHR 0xE4, CHR 0xB8, CHR 0x93, CHR 0xE4, CHR 0xB8, CHR 0x9A, CHR 0xE8, CHR 0x81, CHR 0x8C,
      CHR 0xE8, CHR 0xB4, CHR 0xA3, CHR 0xE5, CHR 0x90, CHR 0x8E, CHR 0xE9, CHR 0x87, CHR 0x8D, CHR 0xE6, CHR 0x96, CHR 0xB0, CHR 0xE6,
      CHR 0x8F, CHR 0x90, CHR 0xE4, CHR 0xBA, CHR 0xA4, CHR 0xEF, CHR 0xBC, CHR 0x9B, CHR 0xE8, CHR 0x8B, CHR 0xA5, CHR 0xE9, CHR 0x9C,
      CHR 0x80, CHR 0xE7, CHR 0xB2, CHR 0xBE, CHR 0xE7, CHR 0xAE, CHR 0x80, CHR 0xE6, CHR 0x9C, CHR 0xAC, CHR 0xE5, CHR 0xAF, CHR 0xB9,
      CHR 0xE8, CHR 0xAF, CHR 0x9D, CHR 0xE5, CHR 0xB7, CHR 0xB2, CHR 0xE5, CHR 0x9B, CHR 0xBA, CHR 0xE5, CHR 0xAE, CHR 0x9A, CHR 0xE7,
      CHR 0x9A, CHR 0x84, CHR 0xE5, CHR 0x9B, CHR 0xA2, CHR 0xE9, CHR 0x98, CHR 0x9F, CHR 0xE6, CHR 0x8C, CHR 0x87, CHR 0xE5, CHR 0xBC,
      CHR 0x95, CHR 0xEF, CHR 0xBC, CHR 0x8C, CHR 0xE8, CHR 0xAF, CHR 0xB7, CHR 0xE4, CHR 0xBD, CHR 0xBF, CHR 0xE7, CHR 0x94, CHR 0xA8,
      CHR 0xE7, CHR 0xB2, CHR 0xBE, CHR 0xE7, CHR 0xAE, CHR 0x80, CHR 0xE5, CHR 0x90, CHR 0x8E, CHR 0xE7, CHR 0x9A, CHR 0x84, CHR 0xE6,
      CHR 0x8C, CHR 0x87, CHR 0xE5, CHR 0xBC, CHR 0x95, CHR 0xE6, CHR 0x96, CHR 0xB0, CHR 0xE5, CHR 0xBB, CHR 0xBA, CHR 0xE5, CHR 0xAF,
      CHR 0xB9, CHR 0xE8, CHR 0xAF, CHR 0x9D, CHR 0xE5, CHR 0xB9, CHR 0xB6, CHR 0xE9, CHR 0x87, CHR 0x8D, CHR 0xE6, CHR 0x96, CHR 0xB0,
      CHR 0xE6, CHR 0x8F, CHR 0x90, CHR 0xE4, CHR 0xBA, CHR 0xA4, CHR 0xE3, CHR 0x80, CHR 0x82])) False"

text \<open>The outcome is \<open>None\<close> where the sanitizer panics.\<close>

definition public_runtime_failure_from_output ::
    "FailureHost \<Rightarrow> AdapterKind \<Rightarrow> RuntimeFailureOrigin \<Rightarrow> RuntimeFailurePhase \<Rightarrow> string \<Rightarrow> string \<Rightarrow> string option \<Rightarrow>
     (string \<times> string) list \<Rightarrow> bool \<Rightarrow> RuntimeFailureView option" where
  "public_runtime_failure_from_output host kind origin phase default_code default_summary raw_detail sensitive_paths retryable =
     (let lower = to_ascii_lowercase (case raw_detail of None \<Rightarrow> [] | Some d \<Rightarrow> d);
          (phase, code, summary, retryable) =
            (if origin = RuntimeOrigin then classify_high_value_runtime_error kind phase default_code default_summary lower retryable
             else (phase, default_code, default_summary, retryable)) in
      map_option (\<lambda>detail. failure kind origin phase code summary detail retryable)
        (case raw_detail of None \<Rightarrow> Some None | Some d \<Rightarrow> sanitize_public_runtime_error host d sensitive_paths))"

fun as_u64 :: "Value \<Rightarrow> nat option" where
  "as_u64 (Number (PosInt n)) = Some n"
| "as_u64 v = None"

definition codex_status :: "Value \<Rightarrow> nat option" where
  "codex_status info =
     find_map (\<lambda>variant. Option.bind (Option.bind (get info variant) (\<lambda>v. get v ''httpStatusCode'')) as_u64)
       [''httpConnectionFailed'', ''responseStreamConnectionFailed'', ''responseStreamDisconnected'', ''responseTooManyFailedAttempts'']"

definition codex_detail :: "Value option \<Rightarrow> string option" where
  "codex_detail error =
     Option.bind error (\<lambda>v. case as_str v of Some s \<Rightarrow> Some s | None \<Rightarrow> get_str v ''message'')"

definition codex_info :: "Value option \<Rightarrow> Value option" where
  "codex_info error = (case Option.bind error (\<lambda>v. get v ''codexErrorInfo'') of Some Null \<Rightarrow> None | i \<Rightarrow> i)"

definition authentication_refused :: string where "authentication_refused = [CHR 0xE6, CHR 0x9C, CHR 0xAC, CHR 0xE6, CHR 0xAC,
      CHR 0xA1, CHR 0xE8, CHR 0xBF, CHR 0x90, CHR 0xE8, CHR 0xA1, CHR 0x8C, CHR 0xE6, CHR 0x97, CHR 0xB6, CHR 0xE8, CHR 0xAE, CHR 0xA4,
      CHR 0xE8, CHR 0xAF, CHR 0x81, CHR 0xE8, CHR 0xA2, CHR 0xAB, CHR 0xE6, CHR 0x8B, CHR 0x92, CHR 0xE7, CHR 0xBB, CHR 0x9D, CHR 0xE3,
      CHR 0x80, CHR 0x82]"
definition codex_failed :: string where "codex_failed = ''Codex CLI '' @ [CHR 0xE6, CHR 0x9C, CHR 0xAA, CHR 0xE8, CHR 0x83,
      CHR 0xBD, CHR 0xE5, CHR 0xAE, CHR 0x8C, CHR 0xE6, CHR 0x88, CHR 0x90, CHR 0xE8, CHR 0xBF, CHR 0x90, CHR 0xE8, CHR 0xA1, CHR 0x8C]"

definition public_codex_terminal_failure ::
    "FailureHost \<Rightarrow> string \<Rightarrow> Value option \<Rightarrow> (string \<times> string) list \<Rightarrow> RuntimeFailureView option" where
  "public_codex_terminal_failure host default_code error sensitive_paths =
     (let detail = codex_detail error; info = codex_info error; status = Option.bind info codex_status;
          public = (case detail of None \<Rightarrow> Some None | Some d \<Rightarrow> sanitize_public_runtime_error host d sensitive_paths) in
      if Option.bind info as_str = Some ''unauthorized'' \<or> status = Some 401 then
        map_option (\<lambda>d. failure CodexCli RuntimeOrigin AuthenticationPhase ''runtime_authentication_required''
            authentication_refused d True) public
      else
        (case info of
           Some i \<Rightarrow>
             (let (code, summary) =
                (if as_str i = Some ''usageLimitExceeded'' then (''runtime_quota_exceeded'', [CHR 0xE8, CHR 0xBF, CHR 0x90,
      CHR 0xE8, CHR 0xA1, CHR 0x8C, CHR 0xE6, CHR 0x97, CHR 0xB6, CHR 0xE9, CHR 0xA2, CHR 0x9D, CHR 0xE5, CHR 0xBA, CHR 0xA6, CHR 0xE4,
      CHR 0xB8, CHR 0x8D, CHR 0xE8, CHR 0xB6, CHR 0xB3])
                 else if status = Some 429 then (''runtime_rate_limited'', [CHR 0xE8, CHR 0xAF, CHR 0xB7, CHR 0xE6, CHR 0xB1,
      CHR 0x82, CHR 0xE8, CHR 0xBF, CHR 0x87, CHR 0xE4, CHR 0xBA, CHR 0x8E, CHR 0xE9, CHR 0xA2, CHR 0x91, CHR 0xE7, CHR 0xB9, CHR 0x81])
                 else (default_code, codex_failed)) in
              map_option (\<lambda>d. failure CodexCli RuntimeOrigin ExecutionPhase code summary d True) public)
         | None \<Rightarrow>
             map_option (\<lambda>f. if failure_code f = ''runtime_authentication_required''
                 then f\<lparr>failure_summary := authentication_refused\<rparr> else f)
               (public_runtime_failure_from_output host CodexCli RuntimeOrigin ExecutionPhase default_code codex_failed detail
                 sensitive_paths True)))"

end
