(* ===== verification/Utf8_Text.thy ===== *)
theory Utf8_Text
  imports Runtime_Failure
begin

text \<open>
  Texts in UTF-8 as the sequences of their characters: where a character ends, what a search for a text finds, and
  the contract of the edits that replace a part of a line by a word.
\<close>

section \<open>Characters\<close>

definition char_ok :: "string \<Rightarrow> bool" where
  "char_ok g = (g \<noteq> [] \<and> first_char (hd g) (tl g) = (length g, True))"

definition utf8 :: "string \<Rightarrow> bool" where
  "utf8 s = list_all char_ok (char_groups s)"

lemma concat_char_groups [simp]: "concat (char_groups s) = s"
  by (induction s) (auto split: list.splits)

lemma char_groups_nonempty: "g \<in> set (char_groups s) \<Longrightarrow> g \<noteq> []"
  by (induction s arbitrary: g) (auto split: list.splits if_split_asm)

lemma char_groups_Nil [simp]: "char_groups s = [] \<longleftrightarrow> s = []"
  by (cases s) (auto split: list.splits)

lemma continuation: "128 \<le> byte c \<Longrightarrow> byte c \<le> 191 \<Longrightarrow> \<not> begins_char c"
  by (simp add: begins_char_def byte_def)

lemma second_byte_range: "second_byte b = (lo, hi) \<Longrightarrow> 128 \<le> lo \<and> hi \<le> 191"
  by (auto simp: second_byte_def split: if_split_asm)

lemma first_char_cases:
  assumes "first_char c s = (n, True)"
  shows "n = utf8_width (byte c)" "0 < n" "n \<le> Suc (length s)" "list_all (\<lambda>c. \<not> begins_char c) (take (n - 1) s)"
proof -
  obtain lo hi where range: "second_byte (byte c) = (lo, hi)" by fastforce
  with second_byte_range have between: "128 \<le> lo" "hi \<le> 191" by blast+
  from assms range have n: "n = utf8_width (byte c) \<and> (n = 1 \<or> n = 2 \<and> continues s lo hi
      \<or> n = 3 \<and> continues s lo hi \<and> continues (drop 1 s) 128 191
      \<or> n = 4 \<and> continues s lo hi \<and> continues (drop 1 s) 128 191 \<and> continues (drop 2 s) 128 191)"
    by (auto simp: first_char_def Let_def utf8_width_def split: if_split_asm)
  then show "n = utf8_width (byte c)" "0 < n" by auto
  have first: "continues s lo hi \<longleftrightarrow> (\<exists>x t. s = x # t \<and> lo \<le> byte x \<and> byte x \<le> hi)" for s lo hi
    by (cases s) (auto simp: continues_def)
  have "begins_char x = False" if "lo \<le> byte x \<and> byte x \<le> hi \<or> 128 \<le> byte x \<and> byte x \<le> 191" for x
    using that between continuation [of x] by auto
  then show "n \<le> Suc (length s)" "list_all (\<lambda>c. \<not> begins_char c) (take (n - 1) s)"
    using n unfolding first by (elim conjE disjE exE; force simp: drop_Suc numeral_2_eq_2)+
qed

lemma first_char_local:
  assumes "first_char c s = (n, True)" and "take (n - 1) t = take (n - 1) s"
  shows "first_char c t = (n, True)"
proof -
  obtain lo hi where range: "second_byte (byte c) = (lo, hi)" by fastforce
  have n: "n = utf8_width (byte c)" "n \<le> Suc (length s)" using first_char_cases [OF assms(1)] by blast+
  have "length (take (n - 1) t) = length (take (n - 1) s)" by (simp only: assms(2))
  with n have long: "n - 1 \<le> length s" "n - 1 \<le> length t" by simp_all
  have "continues (drop i t) a b = continues (drop i s) a b" if "i < n - 1" for i a b
  proof -
    have "t ! i = s ! i" using arg_cong [OF assms(2), of "\<lambda>x. x ! i"] that by simp
    then show ?thesis using that long by (simp add: continues_def hd_drop_conv_nth)
  qed
  from this [of 0] this [of 1] this [of 2]
  have "1 < n \<Longrightarrow> continues t a b = continues s a b" "2 < n \<Longrightarrow> continues (drop 1 t) a b = continues (drop 1 s) a b"
      "3 < n \<Longrightarrow> continues (drop 2 t) a b = continues (drop 2 s) a b" for a b by simp_all
  note same = this
  have w: "first_char c s = (n, True)" "n = utf8_width (byte c)" using assms(1) n(1) by simp_all
  show ?thesis
    using w same unfolding first_char_def Let_def range prod.case
    by (cases "n = 1"; cases "n = 2"; cases "n = 3"; cases "n = 4"; simp split: if_split_asm)
qed

lemma char_ok_begins: "char_ok g \<Longrightarrow> begins_char (hd g)"
  using first_char_cases(1,2) [of "hd g" "tl g" "length g"]
  by (auto simp: char_ok_def begins_char_def utf8_width_def byte_def split: if_split_asm)

lemma char_ok_tl: "char_ok g \<Longrightarrow> list_all (\<lambda>c. \<not> begins_char c) (tl g)"
  using first_char_cases(4) [of "hd g" "tl g" "length g"] by (simp add: char_ok_def)

lemma char_ok_length: "char_ok g \<Longrightarrow> length g = utf8_width (byte (hd g))"
  using first_char_cases(1) [of "hd g" "tl g" "length g"] by (simp add: char_ok_def)

lemma char_ok_ascii [simp]: "byte c < 128 \<Longrightarrow> char_ok [c]"
  by (simp add: char_ok_def first_char_def utf8_width_def)

lemma char_ok_ascii_hd: "char_ok (c # g) \<Longrightarrow> byte c < 128 \<Longrightarrow> g = []"
  using char_ok_length [of "c # g"] by (simp add: utf8_width_def)

text \<open>Decoding is unique.\<close>

lemma char_groups_append:
  "char_ok g \<Longrightarrow> s = [] \<or> begins_char (hd s) \<Longrightarrow> char_groups (g @ s) = g # char_groups s"
proof -
  assume g: "char_ok g" and s: "s = [] \<or> begins_char (hd s)"
  have hds: "begins_char (hd (hd (char_groups s)))" if "s \<noteq> []"
    using s that by (cases s) (auto split: list.splits)
  have "char_groups (c # t @ s) = (c # t) # char_groups s" if "list_all (\<lambda>c. \<not> begins_char c) t" for c t
    using that
  proof (induction t arbitrary: c)
    case Nil
    then show ?case using hds by (cases s) (auto split: list.splits)
  qed (auto split: list.splits)
  with char_ok_tl [OF g] g show ?thesis by (cases g) (simp_all add: char_ok_def)
qed

lemma concat_begins: "list_all char_ok gs \<Longrightarrow> concat gs = [] \<or> begins_char (hd (concat gs))"
  by (cases gs) (auto simp: char_ok_begins char_ok_def)

lemma char_groups_concat: "list_all char_ok gs \<Longrightarrow> char_groups (concat gs) = gs"
proof (induction gs)
  case (Cons g gs)
  then have "list_all char_ok gs" "char_ok g" by simp_all
  with Cons.IH char_groups_append [OF _ concat_begins] show ?case by (metis concat.simps(2))
qed simp

lemma utf8_concat: "list_all char_ok gs \<Longrightarrow> utf8 (concat gs)"
  by (simp add: utf8_def char_groups_concat)

lemma utf8_Nil [simp]: "utf8 []"
  by (simp add: utf8_def)

lemma utf8_groups: "utf8 s \<Longrightarrow> list_all char_ok (char_groups s)"
  by (simp add: utf8_def)

lemma groups_append: "utf8 x \<Longrightarrow> utf8 y \<Longrightarrow> char_groups (x @ y) = char_groups x @ char_groups y"
  using char_groups_concat [of "char_groups x @ char_groups y"] by (simp add: utf8_def)

lemma utf8_append [simp, intro]: "utf8 x \<Longrightarrow> utf8 y \<Longrightarrow> utf8 (x @ y)"
  by (simp add: groups_append utf8_def)

lemma ascii_groups: "list_all (\<lambda>c. byte c < 128) s \<Longrightarrow> char_groups s = map (\<lambda>c. [c]) s"
  using char_groups_concat [of "map (\<lambda>c. [c]) s"] by (simp add: list_all_iff)

lemma utf8_ascii: "list_all (\<lambda>c. byte c < 128) s \<Longrightarrow> utf8 s"
  by (simp add: utf8_def ascii_groups list_all_iff)

lemma same_char:
  assumes "char_ok g" "char_ok h" "g @ x = h @ y"
  shows "g = h" "x = y"
proof -
  have "hd g = hd h" using assms by (metis char_ok_def hd_append2)
  then have "length g = length h" using assms by (simp add: char_ok_length)
  then show "g = h" "x = y" using assms(3) by (simp_all add: append_eq_append_conv)
qed

lemma utf8_cancel: "utf8 (x @ y) \<Longrightarrow> utf8 x \<Longrightarrow> utf8 y"
proof -
  have "list_all char_ok gs \<Longrightarrow> list_all char_ok hs \<Longrightarrow> concat gs @ y = concat hs \<Longrightarrow> utf8 y" for gs hs
  proof (induction gs arbitrary: hs)
    case Nil
    then show ?case by (simp add: utf8_concat)
  next
    case (Cons g gs)
    then have "hs \<noteq> []" by (auto simp: char_ok_def)
    then obtain h hs' where hs: "hs = h # hs'" by (cases hs) auto
    with Cons.prems have "char_ok g" "char_ok h" "g @ (concat gs @ y) = h @ concat hs'" by simp_all
    then have "concat gs @ y = concat hs'" by (rule same_char(2))
    moreover have "list_all char_ok gs" "list_all char_ok hs'" using Cons.prems hs by simp_all
    ultimately show ?case using Cons.IH by blast
  qed
  from this [of "char_groups x" "char_groups (x @ y)"] show "utf8 (x @ y) \<Longrightarrow> utf8 x \<Longrightarrow> utf8 y"
    by (simp add: utf8_def)
qed

lemma utf8_cut: "utf8 s \<Longrightarrow> is_char_boundary s i \<Longrightarrow> utf8 (take i s) \<and> utf8 (drop i s)"
proof -
  have "list_all char_ok gs \<Longrightarrow> is_char_boundary (concat gs) i \<Longrightarrow> utf8 (take i (concat gs)) \<and> utf8 (drop i (concat gs))" for gs
  proof (induction gs arbitrary: i)
    case (Cons g gs)
    consider "i = 0" | "0 < i" "i < length g" | "length g \<le> i" by linarith
    then show ?case
    proof cases
      case 2
      then have "concat (g # gs) ! i = tl g ! (i - 1)" "i - 1 < length (tl g)" by (simp_all add: nth_append nth_tl)
      moreover have "list_all (\<lambda>c. \<not> begins_char c) (tl g)" using Cons.prems by (intro char_ok_tl) simp
      ultimately have "\<not> begins_char (concat (g # gs) ! i)" by (metis list_all_length)
      moreover have "i < length (concat (g # gs))" using 2 by simp
      ultimately show ?thesis using Cons.prems(2) 2(1) by (simp only: is_char_boundary_def) simp
    next
      case 3
      with Cons.prems have "is_char_boundary (concat gs) (i - length g)"
        by (auto simp: is_char_boundary_def nth_append)
      moreover have "utf8 g" using utf8_concat [of "[g]"] Cons.prems by simp
      ultimately show ?thesis using Cons 3 by auto
    qed (use Cons.prems utf8_concat [of "g # gs"] in auto)
  qed simp
  from this [of "char_groups s"] show "utf8 s \<Longrightarrow> is_char_boundary s i \<Longrightarrow> utf8 (take i s) \<and> utf8 (drop i s)"
    by (simp add: utf8_def)
qed

lemmas utf8_take = utf8_cut [THEN conjunct1]
lemmas utf8_drop = utf8_cut [THEN conjunct2]

lemma utf8_boundary: "utf8 (drop i s) \<Longrightarrow> i \<le> length s \<Longrightarrow> is_char_boundary s i"
proof -
  assume u: "utf8 (drop i s)" and i: "i \<le> length s"
  show ?thesis
  proof (cases "i = length s")
    case False
    with i have "drop i s \<noteq> []" "i < length s" by simp_all
    moreover from this u have "begins_char (hd (drop i s))"
      using concat_begins [of "char_groups (drop i s)"] by (simp add: utf8_def)
    ultimately show ?thesis by (simp add: is_char_boundary_def hd_drop_conv_nth)
  qed (simp add: is_char_boundary_def)
qed

text \<open>A character ends behind each byte of ASCII.\<close>

lemma ascii_boundary:
  assumes "utf8 s" "i < length s" "byte (s ! i) < 128"
  shows "is_char_boundary s (Suc i)"
proof -
  have "is_char_boundary s i" using assms(2,3) by (simp add: is_char_boundary_def begins_char_def byte_def)
  with assms have "utf8 (drop i s)" by (simp add: utf8_drop)
  moreover have "drop i s = [s ! i] @ drop (Suc i) s" using assms(2) by (simp add: Cons_nth_drop_Suc)
  moreover have "utf8 [s ! i]" using assms(3) by (intro utf8_ascii) simp
  ultimately have "utf8 (drop (Suc i) s)" by (metis utf8_cancel)
  then show ?thesis using assms(2) by (intro utf8_boundary) simp_all
qed

section \<open>White space\<close>

definition white :: "string \<Rightarrow> bool" where
  "white g = (g \<in> set utf8_white_space)"

lemma white_ok: "white g \<Longrightarrow> char_ok g"
proof -
  have "list_all char_ok utf8_white_space" by code_simp
  then show "white g \<Longrightarrow> char_ok g" by (simp add: white_def list_all_iff)
qed

lemma leading_white_iff: "leading_white s \<noteq> 0 \<longleftrightarrow> (\<exists>w. white w \<and> prefix w s)"
proof (cases "find (\<lambda>w. prefix w s) utf8_white_space")
  case None
  then have "leading_white s = 0" by (simp add: leading_white_def)
  moreover from None have "\<not> (\<exists>w. white w \<and> prefix w s)" by (auto simp: find_None_iff white_def)
  ultimately show ?thesis by simp
next
  case (Some w)
  then have "white w" "prefix w s" by (auto simp: find_Some_iff white_def)
  moreover from this white_ok [of w] have "w \<noteq> []" by (simp add: char_ok_def)
  ultimately show ?thesis using Some by (auto simp: leading_white_def)
qed

lemma leading_white_prefix:
  assumes "leading_white s \<noteq> 0"
  obtains w where "white w" "prefix w s" "leading_white s = length w"
proof (cases "find (\<lambda>w. prefix w s) utf8_white_space")
  case (Some w)
  then have "white w" "prefix w s" by (auto simp: find_Some_iff white_def)
  then show ?thesis using Some that by (simp add: leading_white_def)
qed (use assms in \<open>simp add: leading_white_def\<close>)

text \<open>In a text a character is white space as a whole or not at all.\<close>

lemma leading_white_char:
  assumes "char_ok g"
  shows "leading_white (g @ s) = (if white g then length g else 0)"
proof (cases "leading_white (g @ s) = 0")
  case True
  then have "\<not> white g" using leading_white_iff [of "g @ s"] by auto
  with True show ?thesis by simp
next
  case False
  then obtain w where w: "white w" "prefix w (g @ s)" "leading_white (g @ s) = length w" by (rule leading_white_prefix)
  then obtain r where "g @ s = w @ r" by (auto simp: prefix_def)
  with assms white_ok [OF w(1)] have "g = w" by (rule same_char(1))
  with w show ?thesis by simp
qed

lemma leading_white_Nil [simp]: "leading_white [] = 0"
  using leading_white_le [of "[]"] by simp

lemma white_begins: "leading_white s \<noteq> 0 \<Longrightarrow> s \<noteq> [] \<and> begins_char (hd s)"
proof (elim leading_white_prefix)
  fix w
  assume "white w" "prefix w s"
  moreover from this white_ok have "char_ok w" by blast
  ultimately show "s \<noteq> [] \<and> begins_char (hd s)" using char_ok_begins [of w] by (auto simp: prefix_def char_ok_def)
qed

lemma white_utf8: "leading_white s \<noteq> 0 \<Longrightarrow> utf8 s \<Longrightarrow> utf8 (drop (leading_white s) s)"
proof (elim leading_white_prefix)
  fix w
  assume w: "white w" "prefix w s" "leading_white s = length w" and s: "utf8 s"
  from w(2) obtain r where r: "s = w @ r" by (auto simp: prefix_def)
  have "utf8 w" using white_ok [OF w(1)] utf8_concat [of "[w]"] by simp
  with s r have "utf8 r" by (metis utf8_cancel)
  with r w(3) show ?thesis by simp
qed

lemma leading_white_utf8:
  assumes "utf8 s" "s \<noteq> []"
  shows "leading_white s \<noteq> 0 \<longleftrightarrow> white (hd (char_groups s))"
proof -
  obtain g gs where g: "char_groups s = g # gs" using assms(2) by (cases "char_groups s") auto
  then have "char_ok g" "s = g @ concat gs" using assms(1) concat_char_groups [of s] by (simp_all add: utf8_def)
  with g leading_white_char [of g "concat gs"] show ?thesis by (auto simp: char_ok_def)
qed

lemma leading_white_mono: "leading_white x \<noteq> 0 \<Longrightarrow> leading_white (x @ y) \<noteq> 0"
  unfolding leading_white_iff by auto

section \<open>Lines and edits\<close>

text \<open>
  A line as it is redacted: a text whose characters are no controls, and in which a white space is never followed by
  another one or by the end. A word is visible text in ASCII.
\<close>

fun spaced :: "string list \<Rightarrow> bool" where
  "spaced [] = True"
| "spaced (g # gs) = ((white g \<longrightarrow> gs \<noteq> [] \<and> \<not> white (hd gs)) \<and> spaced gs)"

definition line_ok :: "string \<Rightarrow> bool" where
  "line_ok s = (utf8 s \<and> spaced (char_groups s) \<and> list_all (\<lambda>g. \<not> control_group g) (char_groups s))"

definition word_ok :: "string \<Rightarrow> bool" where
  "word_ok w = (w \<noteq> [] \<and> list_all (\<lambda>c. 33 \<le> byte c \<and> byte c \<le> 126) w)"

lemma word_utf8: "word_ok w \<Longrightarrow> utf8 w"
  by (rule utf8_ascii) (auto simp: word_ok_def list_all_iff)

lemma visible_not_white: "33 \<le> byte c \<Longrightarrow> byte c \<le> 126 \<Longrightarrow> \<not> white [c]"
  by (auto simp: white_def utf8_white_space_def byte_def)

lemma word_groups:
  assumes "word_ok w"
  shows "char_groups w \<noteq> []" "list_all (\<lambda>g. \<not> white g \<and> \<not> control_group g) (char_groups w)"
proof -
  have "char_groups w = map (\<lambda>c. [c]) w" using assms by (intro ascii_groups) (auto simp: word_ok_def list_all_iff)
  then show "char_groups w \<noteq> []" "list_all (\<lambda>g. \<not> white g \<and> \<not> control_group g) (char_groups w)"
    using assms visible_not_white by (auto simp: word_ok_def list_all_iff control_group_def byte_def)
qed

lemma spaced_appendD: "spaced (a @ b) \<Longrightarrow> spaced b"
  by (induction a) auto

lemma spaced_no_white: "list_all (\<lambda>g. \<not> white g) w \<Longrightarrow> spaced b \<Longrightarrow> spaced (w @ b)"
  by (induction w) auto

lemma spaced_edit:
  "spaced (a @ b) \<Longrightarrow> w \<noteq> [] \<Longrightarrow> list_all (\<lambda>g. \<not> white g) w \<Longrightarrow> spaced c \<Longrightarrow> spaced (a @ w @ c)"
proof (induction a)
  case Nil
  then show ?case using spaced_no_white [of w c] by simp
next
  case (Cons g a)
  then show ?case by (cases a; cases w) auto
qed

lemma word_REDACTED [simp]: "word_ok REDACTED"
  by code_simp

lemma line_edit:
  assumes "line_ok (x @ y @ z)" "utf8 x" "utf8 z" "word_ok w"
  shows "line_ok (x @ w @ z)"
proof -
  have w: "utf8 w" "list_all (\<lambda>g. \<not> white g) (char_groups w)" "list_all (\<lambda>g. \<not> control_group g) (char_groups w)"
      "char_groups w \<noteq> []"
    using assms(4) word_utf8 word_groups [OF assms(4)] by (auto simp: list_all_iff)
  have all: "utf8 (x @ y @ z)" using assms(1) by (simp add: line_ok_def)
  from all assms(2) have yz: "utf8 (y @ z)" by (rule utf8_cancel)
  obtain gy where gy: "char_groups (y @ z) = gy @ char_groups z" "list_all char_ok gy"
  proof -
    have "is_char_boundary (y @ z) (length y)" using assms(3) utf8_boundary [of "length y" "y @ z"] by simp
    then have "utf8 y" using utf8_take [OF yz, of "length y"] by simp
    then show ?thesis using that [of "char_groups y"] assms(3) by (simp add: groups_append utf8_def)
  qed
  have whole: "char_groups (x @ y @ z) = char_groups x @ gy @ char_groups z"
    using assms(2) yz gy by (simp add: groups_append)
  with assms(1) have "spaced (char_groups x @ gy @ char_groups z)"
      "list_all (\<lambda>g. \<not> control_group g) (char_groups x @ gy @ char_groups z)"
    by (simp_all add: line_ok_def)
  then have "spaced (char_groups x @ char_groups w @ char_groups z)"
      "list_all (\<lambda>g. \<not> control_group g) (char_groups x @ char_groups w @ char_groups z)"
    using spaced_edit [OF _ w(4,2)] spaced_appendD [of "char_groups x @ gy"] w(3) by (force, simp)
  moreover have "char_groups (x @ w @ z) = char_groups x @ char_groups w @ char_groups z" "utf8 (x @ w @ z)"
    using assms(2,3) w(1) by (simp_all add: groups_append utf8_append)
  ultimately show ?thesis by (simp add: line_ok_def)
qed

end
