(* ===== verification/Failure_Safety.thy ===== *)
theory Failure_Safety
  imports Utf8_Text
begin

text \<open>
  What is proved of the public texts of failures: the redaction of a line always ends with a text and keeps it free
  of controls, and the failures that are made public satisfy their own contract.
\<close>

section \<open>Searches end at characters\<close>

lemma find_sub_take: "find_sub pat s = Some i \<Longrightarrow> take (length pat) (drop i s) = pat"
  by (induction s arbitrary: i) (auto split: if_split_asm simp: prefix_def)

lemma ascii_lower_ascii: "byte (ascii_lower c) < 128 \<Longrightarrow> byte c < 128"
  by (auto simp: ascii_lower_def byte_def split: if_split_asm)

lemma ascii_lower_space: "ascii_lower c = CHR 0x20 \<Longrightarrow> c = CHR 0x20"
  by (auto simp: ascii_lower_def of_char_of char_of_eq_iff take_bit_eq_mod split: if_split_asm)

definition ascii_text :: "string \<Rightarrow> bool" where
  "ascii_text s = (s \<noteq> [] \<and> list_all (\<lambda>c. byte c < 128) s)"

text \<open>The last byte of what is found.\<close>

lemma find_sub_last:
  assumes "find_sub pat (to_ascii_lowercase (drop i s)) = Some r" "pat \<noteq> []" "i \<le> length s"
  shows "i + r + length pat \<le> length s" "ascii_lower (s ! (i + r + length pat - 1)) = last pat"
proof -
  show len: "i + r + length pat \<le> length s" using find_sub_le [OF assms(1)] assms(3) by (simp add: to_ascii_lowercase_def)
  have "map ascii_lower (take (length pat) (drop r (drop i s))) = pat"
    using find_sub_take [OF assms(1)] by (simp add: to_ascii_lowercase_def take_map drop_map)
  then have "last pat = map ascii_lower (take (length pat) (drop r (drop i s))) ! (length pat - 1)"
    using assms(2) by (simp add: last_conv_nth)
  also have "\<dots> = ascii_lower (drop (i + r) s ! (length pat - 1))"
    using len assms(2) by (cases pat) (simp_all add: add.commute)
  also have "drop (i + r) s ! (length pat - 1) = s ! (i + r + (length pat - 1))"
    using len by (intro nth_drop) simp
  also have "i + r + (length pat - 1) = i + r + length pat - 1" using assms(2) by (cases pat) simp_all
  finally show "ascii_lower (s ! (i + r + length pat - 1)) = last pat" by simp
qed

lemma found_boundary:
  assumes "utf8 s" "is_char_boundary s i" "ascii_text pat" "find_sub pat (to_ascii_lowercase (drop i s)) = Some r"
  shows "is_char_boundary s (i + r + length pat)"
proof -
  have "i \<le> length s" "pat \<noteq> []" "byte (last pat) < 128"
    using assms(2,3) by (auto simp: is_char_boundary_def ascii_text_def list_all_iff)
  with find_sub_last [OF assms(4)] have len: "i + r + length pat \<le> length s"
      and "byte (s ! (i + r + length pat - 1)) < 128" by (simp_all add: ascii_lower_ascii)
  moreover have "Suc (i + r + length pat - 1) = i + r + length pat" using \<open>pat \<noteq> []\<close> by (cases pat) simp_all
  moreover have "i + r + length pat - 1 < length s" using len \<open>pat \<noteq> []\<close> by (cases pat) simp_all
  ultimately show ?thesis using ascii_boundary [OF assms(1), of "i + r + length pat - 1"] by simp
qed

lemma drop_boundary:
  assumes "utf8 s" "is_char_boundary s i" "is_char_boundary (drop i s) j"
  shows "is_char_boundary s (i + j)"
proof -
  have len: "i \<le> length s" "j \<le> length (drop i s)" using assms(2,3) by (auto simp: is_char_boundary_def)
  have "utf8 (drop j (drop i s))" using assms by (intro utf8_drop)
  with len show ?thesis using utf8_boundary [of "i + j" s] by (simp add: add.commute)
qed

lemma boundary_le: "is_char_boundary s i \<Longrightarrow> i \<le> length s"
  by (auto simp: is_char_boundary_def)

lemma white_from_stop: "white_from s < length s \<Longrightarrow> leading_white (drop (white_from s) s) \<noteq> 0"
  by (induction s) (auto split: if_split_asm)

lemma stop_boundary: "i \<le> length s \<Longrightarrow> i < length s \<Longrightarrow> leading_white (drop i s) \<noteq> 0 \<Longrightarrow> is_char_boundary s i"
  using white_begins [of "drop i s"] by (simp add: is_char_boundary_def hd_drop_conv_nth)

lemma white_from_boundary: "is_char_boundary s (white_from s)"
proof (cases "white_from s < length s")
  case True
  then show ?thesis using white_from_stop [OF True] by (intro stop_boundary) simp_all
next
  case False
  then show ?thesis using white_from_le [of s] by (simp add: is_char_boundary_def)
qed

lemma value_bytes_boundary: "is_char_boundary s (value_bytes s)"
proof (cases "value_bytes s < length s")
  case True
  then have "leading_white (drop (value_bytes s) s) \<noteq> 0 \<or> quote_char (s ! value_bytes s) \<or> s ! value_bytes s \<in> set '',;}]''"
    by (induction s) (auto split: if_split_asm)
  moreover have "begins_char c" if "quote_char c \<or> c \<in> set '',;}]''" for c
    using that by (auto simp: quote_char_def begins_char_def)
  ultimately show ?thesis using True stop_boundary [of "value_bytes s" s] by (auto simp: is_char_boundary_def)
next
  case False
  then show ?thesis using value_bytes_le [of s] by (simp add: is_char_boundary_def)
qed

lemma blank_bytes_boundary: "utf8 s \<Longrightarrow> is_char_boundary s (blank_bytes s)"
proof (induction s rule: blank_bytes.induct)
  case (1 s)
  show ?case
  proof (cases "leading_white s = 0")
    case False
    then have "utf8 (drop (leading_white s) s)" using "1.prems" by (rule white_utf8)
    moreover from this have "is_char_boundary s (leading_white s)" using leading_white_le by (rule utf8_boundary)
    ultimately show ?thesis using "1.IH"(1) [OF False] "1.prems" False drop_boundary by (subst blank_bytes.simps) simp
  next
    case True
    consider c r where "s = c # r" "quote_char c" | "s = [] \<or> \<not> quote_char (hd s)" by (cases s) auto
    then show ?thesis
    proof cases
      case 1
      then have c: "byte c < 128" "begins_char c" by (auto simp: quote_char_def byte_def begins_char_def)
      then have "utf8 [c]" by (intro utf8_ascii) simp
      then have "utf8 r" using "1.prems" 1 by (metis append_Cons append_Nil utf8_cancel)
      then have "is_char_boundary (drop 1 s) (blank_bytes r)" using "1.IH"(2) [of c r] True 1 by simp
      moreover have "is_char_boundary s 1" using 1 c ascii_boundary [OF "1.prems", of 0] by simp
      ultimately have "is_char_boundary s (1 + blank_bytes r)" using "1.prems" drop_boundary by blast
      then show ?thesis using True 1 by (subst blank_bytes.simps) simp
    next
      case 2
      then show ?thesis using True by (subst blank_bytes.simps) (auto simp: is_char_boundary_def split: list.split)
    qed
  qed
qed

text \<open>The bounds of a value are ends of characters.\<close>

lemma assignment_boundary:
  assumes "utf8 s" "is_char_boundary s m" "secret_assignment_bounds s marker m = Some (f, l)"
  shows "is_char_boundary s f" "is_char_boundary s l"
proof -
  define d where "d = m + blank_bytes (drop m s)"
  have d: "d < length s" "s ! d \<in> set '':=''" and f: "f = Suc d + blank_bytes (drop (Suc d) s)"
    and l: "l = length s \<or> l = f + value_bytes (drop f s)"
    using assms(3) unfolding secret_assignment_bounds_def Let_def d_def [symmetric] by (auto split: if_split_asm)
  from d(2) have "byte (s ! d) < 128" by (auto simp: byte_def)
  with assms(1) d(1) have "is_char_boundary s (Suc d)" by (rule ascii_boundary)
  then show "is_char_boundary s f" unfolding f using assms(1) drop_boundary utf8_drop blank_bytes_boundary by blast
  then show "is_char_boundary s l"
    using l drop_boundary [OF assms(1) _ value_bytes_boundary] by (auto simp: is_char_boundary_def [of s "length s"])
qed

section \<open>Edited lines\<close>

text \<open>The contract of a property of lines that the replacement of a part by a word keeps.\<close>

locale edited_text =
  fixes ok :: "string \<Rightarrow> bool"
  assumes ok_utf8: "ok s \<Longrightarrow> utf8 s"
    and ok_edit: "ok (x @ y @ z) \<Longrightarrow> utf8 x \<Longrightarrow> utf8 z \<Longrightarrow> word_ok w \<Longrightarrow> ok (x @ w @ z)"
begin

lemma str_replace_ok:
  assumes "utf8 pat" "pat \<noteq> []" "word_ok w" "ok (x @ s)"
  shows "ok (x @ str_replace pat w s)"
  using assms
proof (induction pat w s arbitrary: x rule: str_replace.induct)
  case (1 pat w s)
  show ?case
  proof (cases "strip_prefix pat s")
    case (Some t)
    then have s: "s = pat @ t" by (simp add: strip_prefix_Some)
    have all: "utf8 (x @ s)" using "1.prems"(4) by (rule ok_utf8)
    have "begins_char (hd pat)"
      using concat_begins [of "char_groups pat"] "1.prems"(1,2) by (simp add: utf8_def)
    then have "is_char_boundary (x @ s) (length x)" using s "1.prems"(2) by (cases pat) (simp_all add: is_char_boundary_def)
    then have x: "utf8 x" "utf8 s" using utf8_take [OF all, of "length x"] utf8_drop [OF all, of "length x"] by simp_all
    then have "utf8 t" using s "1.prems"(1) by (metis utf8_cancel)
    moreover have "ok (x @ pat @ t)" using "1.prems"(4) by (simp add: s)
    ultimately have "ok (x @ w @ t)" using x(1) "1.prems"(3) by (blast intro: ok_edit)
    then have "ok ((x @ w) @ str_replace pat w t)" using "1.IH"(2) [OF "1.prems"(2) Some "1.prems"(1-3), of "x @ w"] by simp
    then show ?thesis using Some "1.prems"(2) by (subst str_replace.simps) simp
  next
    case None
    show ?thesis
    proof (cases s)
      case Nil
      then show ?thesis using None "1.prems" by (subst str_replace.simps) simp
    next
      case (Cons c cs)
      then have "ok ((x @ [c]) @ str_replace pat w cs)"
        using "1.IH"(1) [OF "1.prems"(2) None Cons "1.prems"(1-3), of "x @ [c]"] "1.prems"(4) by simp
      then show ?thesis using None Cons "1.prems"(2) by (subst str_replace.simps) simp
    qed
  qed
qed

lemma redact_paths_ok:
  assumes "list_all (\<lambda>(p, w). utf8 p \<and> word_ok w) paths" "ok s"
  shows "ok (redact_paths paths s)"
  using assms
proof (induction paths arbitrary: s)
  case (Cons e paths)
  then show ?case using str_replace_ok [where x = "[]"] by (cases e) (simp add: redact_paths_def)
qed (simp add: redact_paths_def)

lemma private_paths_ok: "ok s \<Longrightarrow> ok (redact_private_runtime_paths s)"
proof -
  have "utf8 ''<runtime-private>''" "utf8 ''.runtime-private''" "utf8 ''runtime-private''"
    by (rule utf8_ascii; simp add: byte_def)+
  moreover have "word_ok ''<private-runtime>''" by code_simp
  ultimately show "ok s \<Longrightarrow> ok (redact_private_runtime_paths s)"
    unfolding redact_private_runtime_paths_def using str_replace_ok [where x = "[]"] by simp
qed

lemma replace_range_ok:
  assumes "ok s" "is_char_boundary s f" "is_char_boundary s l" "f \<le> l"
  shows "ok (replace_range f l s)" "is_char_boundary (replace_range f l s) (f + 10)"
proof -
  have u: "utf8 s" using assms(1) by (rule ok_utf8)
  have "s = take f s @ take (l - f) (drop f s) @ drop l s"
    using assms(4) by (metis append_take_drop_id drop_drop le_add_diff_inverse2)
  then have "ok (take f s @ take (l - f) (drop f s) @ drop l s)" using assms(1) by simp
  then show "ok (replace_range f l s)" unfolding replace_range_def
    by (rule ok_edit) (use u assms utf8_take utf8_drop in simp_all)
  have "f \<le> length s" using assms(2) by (rule boundary_le)
  then have "drop (f + 10) (replace_range f l s) = drop l s" "f + 10 \<le> length (replace_range f l s)"
    by (simp_all add: replace_range_def REDACTED_def)
  with u assms(3) utf8_boundary show "is_char_boundary (replace_range f l s) (f + 10)" by (metis utf8_drop)
qed

lemma redact_marker_ok:
  assumes "ascii_text marker" "ok s" "is_char_boundary s i"
  shows "\<exists>t. redact_marker marker s i = Some t \<and> ok t"
  using assms
proof (induction marker s i rule: redact_marker.induct)
  case (1 marker s i)
  have i: "\<not> (length s < i \<or> \<not> is_char_boundary s i \<or> marker = [])"
    using "1.prems"(1,3) boundary_le [of s i] by (auto simp: ascii_text_def)
  show ?case
  proof (cases "find_sub marker (to_ascii_lowercase (drop i s))")
    case None
    then show ?thesis using i "1.prems"(2) by (subst redact_marker.simps) simp
  next
    case (Some r)
    let ?m = "i + r + length marker"
    have m: "is_char_boundary s ?m" using "1.prems" Some ok_utf8 by (intro found_boundary) auto
    show ?thesis
    proof (cases "secret_assignment_bounds s marker ?m")
      case None
      then have "\<exists>t. redact_marker marker s ?m = Some t \<and> ok t"
        using "1.IH"(1) [OF i Some refl None] "1.prems" m by simp
      then show ?thesis using i Some None by (subst redact_marker.simps) simp
    next
      case bounds: (Some p)
      obtain f l where p: "p = (f, l)" by (cases p)
      with bounds have b: "secret_assignment_bounds s marker ?m = Some (f, l)" by simp
      have "is_char_boundary s f" "is_char_boundary s l" "f \<le> l"
        using assignment_boundary [OF ok_utf8 [OF "1.prems"(2)] m b] assignment_bounds(2) [OF b] by simp_all
      with "1.prems"(2) have "ok (replace_range f l s)" "is_char_boundary (replace_range f l s) (f + 10)"
        by (rule replace_range_ok)+
      then have "\<exists>t. redact_marker marker (replace_range f l s) (f + 10) = Some t \<and> ok t"
        using "1.IH"(2) [OF i Some refl bounds p [symmetric]] "1.prems"(1) by simp
      then show ?thesis using i Some b by (subst redact_marker.simps) (simp add: Let_def)
    qed
  qed
qed

end

lemma line_utf8: "line_ok s \<Longrightarrow> utf8 s"
  by (simp add: line_ok_def)

interpretation lines: edited_text line_ok
  by unfold_locales (blast intro: line_utf8 line_edit)+

section \<open>Redaction always ends with a text\<close>

lemma char_groups_Cons_ascii: "utf8 (c # s) \<Longrightarrow> byte c < 128 \<Longrightarrow> char_groups (c # s) = [c] # char_groups s \<and> utf8 s"
proof -
  assume c: "utf8 (c # s)" "byte c < 128"
  then have "utf8 [c]" by (intro utf8_ascii) simp
  moreover from this c have "utf8 s" by (metis append_Cons append_Nil utf8_cancel)
  moreover have "char_groups [c] = [[c]]" by simp
  ultimately show ?thesis using groups_append [of "[c]" s] by simp
qed

text \<open>Behind a space of a line there is another character.\<close>

lemma behind_space:
  assumes "line_ok s" "i < length s" "s ! i = CHR 0x20"
  shows "Suc i < length s" "leading_white (drop (Suc i) s) = 0"
proof -
  have u: "utf8 s" and sp: "spaced (char_groups s)" using assms(1) by (simp_all add: line_ok_def)
  have "is_char_boundary s i" using assms(2,3) by (simp add: is_char_boundary_def begins_char_def)
  with u have cut: "utf8 (take i s)" "utf8 (drop i s)" using utf8_take utf8_drop by blast+
  moreover have d: "drop i s = CHR 0x20 # drop (Suc i) s" using assms(2,3) by (simp add: Cons_nth_drop_Suc [symmetric])
  ultimately have tail: "char_groups (drop i s) = '' '' # char_groups (drop (Suc i) s)" "utf8 (drop (Suc i) s)"
    using char_groups_Cons_ascii [of "CHR 0x20" "drop (Suc i) s"] by (simp_all add: byte_def)
  have "char_groups s = char_groups (take i s) @ char_groups (drop i s)" using cut groups_append [of "take i s" "drop i s"] by simp
  with sp tail have "spaced ('' '' # char_groups (drop (Suc i) s))" using spaced_appendD by metis
  then have "drop (Suc i) s \<noteq> []" "\<not> white (hd (char_groups (drop (Suc i) s)))"
    by (simp_all add: white_def utf8_white_space_def)
  with leading_white_utf8 [OF tail(2)] show "Suc i < length s" "leading_white (drop (Suc i) s) = 0" by auto
qed

text \<open>The bounds of what stands behind the prefix.\<close>

lemma bearer_value_bounds:
  assumes "line_ok s" "is_char_boundary s i" "find_sub ''bearer '' (to_ascii_lowercase (drop i s)) = Some r"
    and "l = i + r + 7 + white_from (drop (i + r + 7) s)"
  shows "is_char_boundary s (i + r + 7)" "i + r + 7 < l" "is_char_boundary s l"
proof -
  let ?f = "i + r + 7"
  have u: "utf8 s" using assms(1) by (simp add: line_ok_def)
  have "ascii_text ''bearer ''" by code_simp
  then have "is_char_boundary s (i + r + length ''bearer '')" using found_boundary [OF u assms(2) _ assms(3)] by blast
  then show f: "is_char_boundary s ?f" by (simp add: eval_nat_numeral)
  with find_sub_last [OF assms(3) _ boundary_le [OF assms(2)]]
  have len: "?f \<le> length s" and "ascii_lower (s ! (i + r + 6)) = CHR 0x20" by (simp_all add: eval_nat_numeral)
  then have "s ! (i + r + 6) = CHR 0x20" "i + r + 6 < length s" by (simp_all add: ascii_lower_space)
  with behind_space [OF assms(1)] have "?f < length s" "leading_white (drop ?f s) = 0" by (simp_all add: eval_nat_numeral)
  then show "?f < l" unfolding assms(4) by (cases "drop ?f s") simp_all
  show "is_char_boundary s l" unfolding assms(4) using u f white_from_boundary by (rule drop_boundary)
qed

lemma redact_bearer_ok:
  assumes "line_ok s" "is_char_boundary s i"
  shows "\<exists>t. redact_bearer s i = Some t \<and> line_ok t"
  using assms
proof (induction s i rule: redact_bearer.induct)
  case (1 s i)
  have i: "\<not> (length s < i \<or> \<not> is_char_boundary s i)" using "1.prems"(2) boundary_le [of s i] by auto
  show ?case
  proof (cases "find_sub ''bearer '' (to_ascii_lowercase (drop i s))")
    case None
    then show ?thesis using i "1.prems"(1) by (subst redact_bearer.simps) simp
  next
    case (Some r)
    let ?f = "i + r + 7"
    let ?l = "?f + white_from (drop ?f s)"
    have f: "is_char_boundary s ?f" and less: "?f < ?l" and "is_char_boundary s ?l"
      using bearer_value_bounds [OF "1.prems"(1,2) Some] by simp_all
    with "1.prems"(1) f have next_line: "line_ok (replace_range ?f ?l s)" "is_char_boundary (replace_range ?f ?l s) (?f + 10)"
      using less by (intro lines.replace_range_ok; simp)+
    then have "\<exists>t. redact_bearer (replace_range ?f ?l s) (?f + 10) = Some t \<and> line_ok t"
      using "1.IH" [OF i Some refl refl] less by simp
    then show ?thesis using i Some less by (subst redact_bearer.simps) (simp add: Let_def)
  qed
qed

lemma redact_secret_values_ok:
  assumes "line_ok s"
  shows "\<exists>t. redact_secret_values s = Some t \<and> line_ok t"
proof -
  have "\<exists>t. fold (\<lambda>marker r. Option.bind r (\<lambda>s. redact_marker marker s 0)) markers (Some s) = Some t \<and> line_ok t"
    if "list_all ascii_text markers" "line_ok s" for markers s
    using that
  proof (induction markers arbitrary: s)
    case (Cons marker markers)
    then obtain t where "redact_marker marker s 0 = Some t" "line_ok t"
      using lines.redact_marker_ok [of marker s 0] by (auto simp: is_char_boundary_def)
    with Cons show ?case by simp
  qed simp
  moreover obtain t where "redact_bearer s 0 = Some t" "line_ok t"
    using redact_bearer_ok [OF assms, of 0] by (auto simp: is_char_boundary_def)
  moreover have "list_all ascii_text MARKERS" by code_simp
  ultimately show ?thesis by (simp add: redact_secret_values_def)
qed

section \<open>From a raw text to lines\<close>

lemma lossy_ok: "list_all char_ok (lossy_chars s)"
proof (induction s rule: lossy_chars.induct)
  case (1 s)
  show ?case
  proof (cases s)
    case Nil
    then show ?thesis by (subst lossy_chars.simps) simp
  next
    case (Cons c r)
    obtain n complete where first: "first_char c r = (n, complete)" by fastforce
    have "char_ok (if complete then take n s else replacement_character)"
    proof (cases complete)
      case True
      with first have f: "first_char c r = (n, True)" by simp
      then have n: "0 < n" "n \<le> Suc (length r)" using first_char_cases by blast+
      then have "take n s = c # take (n - 1) r" using Cons by (cases n) simp_all
      moreover have "first_char c (take (n - 1) r) = (n, True)" using f by (rule first_char_local) simp
      ultimately show ?thesis using True n by (simp add: char_ok_def)
    next
      case False
      moreover have "char_ok replacement_character" by code_simp
      ultimately show ?thesis by simp
    qed
    moreover have "list_all char_ok (lossy_chars (drop (n - 1) r))" using 1 [OF Cons first [symmetric] refl] .
    ultimately show ?thesis using Cons first by (subst lossy_chars.simps) simp
  qed
qed

lemma stripped_groups:
  "list_all char_ok (char_groups (strip_ansi_and_controls raw))"
  "list_all (\<lambda>g. control_group g \<longrightarrow> g = [newline]) (char_groups (strip_ansi_and_controls raw))"
proof -
  define gs where "gs = filter (\<lambda>g. \<not> control_group g \<or> g = [newline]) (lossy_chars (strip_escapes raw))"
  have strip: "strip_ansi_and_controls raw = concat gs" by (simp add: strip_ansi_and_controls_def gs_def)
  have "list_all char_ok gs" "list_all (\<lambda>g. control_group g \<longrightarrow> g = [newline]) gs"
    using lossy_ok [of "strip_escapes raw"] by (auto simp: gs_def list_all_iff)
  then show "list_all char_ok (char_groups (strip_ansi_and_controls raw))"
      "list_all (\<lambda>g. control_group g \<longrightarrow> g = [newline]) (char_groups (strip_ansi_and_controls raw))"
    by (simp_all add: strip char_groups_concat)
qed

text \<open>A piece of a text without controls.\<close>

definition piece_ok :: "string \<Rightarrow> bool" where
  "piece_ok s = (utf8 s \<and> list_all (\<lambda>g. \<not> control_group g) (char_groups s))"

lemma piece_append: "piece_ok x \<Longrightarrow> piece_ok y \<Longrightarrow> piece_ok (x @ y)"
  by (simp add: piece_ok_def groups_append utf8_append)

lemma piece_char: "char_ok g \<Longrightarrow> \<not> control_group g \<Longrightarrow> piece_ok g"
  using char_groups_concat [of "[g]"] by (simp add: piece_ok_def utf8_def)

lemma split_on_some: "split_on P s \<noteq> []"
  by (cases s) (auto split: list.splits)

lemma split_on_absent: "list_all (\<lambda>c. \<not> P c) g \<Longrightarrow> split_on P (g @ s) = (g @ hd (split_on P s)) # tl (split_on P s)"
proof (induction g)
  case Nil
  show ?case using split_on_some [of P s] by simp
qed (auto split: list.splits)

lemma char_without_newline: "char_ok g \<Longrightarrow> g \<noteq> [newline] \<Longrightarrow> list_all (\<lambda>c. c \<noteq> newline) g"
proof -
  assume g: "char_ok g" "g \<noteq> [newline]"
  then obtain c r where cr: "g = c # r" by (cases g) (auto simp: char_ok_def)
  with g char_ok_ascii_hd [of c r] have "c \<noteq> newline" by (auto simp: newline_def byte_def)
  moreover have "begins_char newline" by (simp add: newline_def begins_char_def)
  ultimately show ?thesis using char_ok_tl [OF g(1)] cr by (auto simp: list_all_iff)
qed

lemma split_lines_ok:
  assumes "list_all char_ok gs" "list_all (\<lambda>g. control_group g \<longrightarrow> g = [newline]) gs"
  shows "list_all piece_ok (split_on (\<lambda>c. c = newline) (concat gs))"
  using assms
proof (induction gs)
  case Nil
  show ?case by (simp add: piece_ok_def)
next
  case (Cons g gs)
  let ?rest = "split_on (\<lambda>c. c = newline) (concat gs)"
  have ih: "list_all piece_ok ?rest" using Cons by simp
  have some: "?rest \<noteq> []" by (rule split_on_some)
  show ?case
  proof (cases "g = [newline]")
    case True
    have "piece_ok []" by (simp add: piece_ok_def)
    with True show ?thesis using ih by simp
  next
    case False
    with Cons.prems have g: "char_ok g" "\<not> control_group g" by auto
    with False have "split_on (\<lambda>c. c = newline) (concat (g # gs)) = (g @ hd ?rest) # tl ?rest"
      by (simp add: split_on_absent char_without_newline)
    moreover have "piece_ok (g @ hd ?rest)" "list_all piece_ok (tl ?rest)"
      using ih some g piece_append [OF piece_char] by (cases ?rest; simp)+
    ultimately show ?thesis by simp
  qed
qed

text \<open>The words of a text.\<close>

definition visible_piece :: "string \<Rightarrow> bool" where
  "visible_piece w = (w \<noteq> [] \<and> piece_ok w \<and> list_all (\<lambda>g. \<not> white g) (char_groups w))"

lemma no_white_groups:
  assumes "list_all char_ok gs" "\<And>i. i < length (concat gs) \<Longrightarrow> leading_white (drop i (concat gs)) = 0"
  shows "list_all (\<lambda>g. \<not> white g) gs"
  using assms
proof (induction gs)
  case (Cons g gs)
  then have g: "char_ok g" "g \<noteq> []" by (auto simp: char_ok_def)
  then have "leading_white (g @ concat gs) = 0" using Cons.prems(2) [of 0] by simp
  with g leading_white_char [of g "concat gs"] have "\<not> white g" by auto
  moreover have "leading_white (drop i (concat gs)) = 0" if "i < length (concat gs)" for i
    using Cons.prems(2) [of "length g + i"] that by simp
  ultimately show ?case using Cons by simp
qed simp

lemma piece_cut: "piece_ok (x @ y) \<Longrightarrow> utf8 x \<Longrightarrow> piece_ok x \<and> piece_ok y"
  using utf8_cancel [of x y] by (simp add: piece_ok_def groups_append)

lemma split_whitespace_pieces:
  assumes "piece_ok (word @ s)" "\<And>i. i < length word \<Longrightarrow> leading_white (drop i (word @ s)) = 0"
  shows "list_all visible_piece (split_whitespace word s)"
  using assms
proof (induction word s rule: split_whitespace.induct)
  case (1 word s)
  have visible: "visible_piece word" if "word \<noteq> []" "piece_ok word"
  proof -
    have "leading_white (drop i word) = 0" if "i < length word" for i
      using "1.prems"(2) [OF that] leading_white_mono [of "drop i word" s] that by auto
    then have "list_all (\<lambda>g. \<not> white g) (char_groups word)"
      using that by (intro no_white_groups) (simp_all add: piece_ok_def utf8_def)
    with that show ?thesis by (simp add: visible_piece_def)
  qed
  show ?case
  proof (cases s)
    case Nil
    then show ?thesis using visible "1.prems"(1) by (subst split_whitespace.simps) simp
  next
    case (Cons c cs)
    show ?thesis
    proof (cases "leading_white s = 0")
      case True
      have "leading_white (drop i ((word @ [c]) @ cs)) = 0" if "i < length (word @ [c])" for i
        using "1.prems"(2) [of i] that True Cons by (cases "i < length word") (auto simp: not_less less_Suc_eq)
      then have "list_all visible_piece (split_whitespace (word @ [c]) cs)"
        using "1.IH"(1) [OF Cons True] "1.prems"(1) Cons by simp
      then show ?thesis using True Cons by (subst split_whitespace.simps) simp
    next
      case False
      have u: "utf8 (word @ s)" using "1.prems"(1) by (simp add: piece_ok_def)
      have "is_char_boundary (word @ s) (length word)"
        using white_begins [OF False] Cons by (simp add: is_char_boundary_def)
      with u utf8_take [of "word @ s" "length word"] have "utf8 word" by simp
      with "1.prems"(1) have cut: "piece_ok word" "piece_ok s" using piece_cut by blast+
      have "utf8 (drop (leading_white s) s)" using False cut(2) white_utf8 by (simp add: piece_ok_def)
      moreover from this have "utf8 (take (leading_white s) s)"
        using cut(2) utf8_boundary [OF _ leading_white_le] utf8_take by (simp add: piece_ok_def)
      ultimately have "piece_ok (drop (leading_white s) s)"
        using piece_cut [of "take (leading_white s) s" "drop (leading_white s) s"] cut(2) by simp
      then have "list_all visible_piece (split_whitespace [] (drop (leading_white s) s))"
        using "1.IH"(2) [OF Cons False] by simp
      then show ?thesis using False Cons visible cut(1) by (subst split_whitespace.simps) simp
    qed
  qed
qed

lemma collapsed_ok:
  assumes "list_all visible_piece ws"
  shows "line_ok (join_with '' '' ws)"
proof -
  have space: "utf8 '' ''" "char_groups '' '' = ['' '']" "\<not> control_group '' ''" "white '' ''" by code_simp+
  have "line_ok (join_with '' '' ws) \<and> (ws \<noteq> [] \<longrightarrow> join_with '' '' ws \<noteq> [] \<and> \<not> white (hd (char_groups (join_with '' '' ws))))"
    using assms
  proof (induction "'' ''" ws rule: join_with.induct)
    case 1
    show ?case by (simp add: line_ok_def)
  next
    case (2 x)
    then have "list_all (\<lambda>g. \<not> white g) (char_groups x)" "char_groups x \<noteq> []" "x \<noteq> []" by (auto simp: visible_piece_def)
    then show ?case using 2 spaced_no_white [of "char_groups x" "[]"]
      by (cases "char_groups x") (auto simp: line_ok_def visible_piece_def piece_ok_def)
  next
    case (3 x y ws)
    let ?rest = "join_with '' '' (y # ws)"
    have rest: "line_ok ?rest" "?rest \<noteq> []" "\<not> white (hd (char_groups ?rest))" using 3 by simp_all
    have x: "x \<noteq> []" "utf8 x" "list_all (\<lambda>g. \<not> control_group g) (char_groups x)" "list_all (\<lambda>g. \<not> white g) (char_groups x)"
      using "3.prems" by (simp_all add: visible_piece_def piece_ok_def)
    have groups: "char_groups (x @ '' '' @ ?rest) = char_groups x @ '' '' # char_groups ?rest" "utf8 (x @ '' '' @ ?rest)"
      using x(2) space rest(1) groups_append [of x "'' '' @ ?rest"] groups_append [of "'' ''" ?rest] utf8_append [of "'' ''" ?rest]
      by (simp_all add: line_ok_def del: char_groups.simps)
    have "spaced ('' '' # char_groups ?rest)" using rest by (simp add: line_ok_def)
    with x(4) have "spaced (char_groups x @ '' '' # char_groups ?rest)" by (rule spaced_no_white)
    moreover have "char_groups x \<noteq> []" "\<not> white (hd (char_groups x))" using x(1,4) by (cases "char_groups x"; auto)+
    ultimately show ?case using groups x rest(1) space(3) by (simp add: line_ok_def del: char_groups.simps)
  qed
  then show ?thesis by blast
qed

lemma line_collapsed: "piece_ok raw_line \<Longrightarrow> line_ok (join_with '' '' (split_whitespace [] raw_line))"
  by (intro collapsed_ok split_whitespace_pieces) simp_all

section \<open>Public texts\<close>

definition path_ok :: "string \<times> string \<Rightarrow> bool" where
  "path_ok e = (utf8 (fst e) \<and> word_ok (snd e))"

text \<open>Paths are texts; so are the directories of the host and what paths resolve to.\<close>

definition host_ok :: "FailureHost \<Rightarrow> bool" where
  "host_ok host = ((\<forall>p c. host_canonicalize host p = Some c \<longrightarrow> utf8 c)
      \<and> (\<forall>home. host_home host = Some home \<longrightarrow> utf8 home) \<and> utf8 (host_temp host))"

lemma path_alias_ok: "path_alias p = Some q \<Longrightarrow> utf8 p \<Longrightarrow> utf8 q"
proof -
  assume q: "path_alias p = Some q" and p: "utf8 p"
  have ascii: "utf8 ''/private/''" "utf8 ''/''" "utf8 ''/private''" by code_simp+
  show ?thesis
  proof (cases "strip_prefix ''/private/'' p")
    case (Some rest)
    then have "p = ''/private/'' @ rest" by (simp add: strip_prefix_Some)
    with p have "utf8 rest" using utf8_cancel ascii(1) by blast
    with q Some ascii(2) utf8_append [of "''/''" rest] show ?thesis by (simp add: path_alias_def)
  next
    case None
    with q have "q = ''/private'' @ p" by (simp add: path_alias_def split: if_split_asm)
    with ascii(3) p show ?thesis by (simp only: utf8_append)
  qed
qed

lemma variants_ok:
  assumes "host_ok host" "utf8 p" "word_ok w"
  shows "list_all path_ok (sensitive_path_variants (host_canonicalize host) p w)"
proof -
  define ps where "ps = p # (case host_canonicalize host p of None \<Rightarrow> [] | Some c \<Rightarrow> [c])"
  have "list_all utf8 ps" using assms by (auto simp: host_ok_def ps_def split: option.split)
  moreover have "list_all utf8 (List.map_filter path_alias ps)" if "list_all utf8 ps" for ps
    using that path_alias_ok by (auto simp: list_all_iff List.map_filter_def)
  ultimately show ?thesis using assms(3)
    by (auto simp: sensitive_path_variants_def Let_def list_all_iff path_ok_def simp flip: ps_def)
qed

lemma dedup_set: "set (dedup_by_key xs) \<subseteq> set xs"
  by (induction xs rule: dedup_by_key.induct) auto

lemma path_replacements_ok:
  assumes "host_ok host" "list_all path_ok sensitive_paths"
  shows "list_all path_ok (path_replacements host sensitive_paths)"
proof -
  have words: "word_ok ''<home>''" "word_ok ''<temp>''" by code_simp+
  let ?all = "concat (map (\<lambda>(path, replacement). sensitive_path_variants (host_canonicalize host) path replacement) sensitive_paths)
      @ (case host_home host of None \<Rightarrow> [] | Some home \<Rightarrow> sensitive_path_variants (host_canonicalize host) home ''<home>'')
      @ sensitive_path_variants (host_canonicalize host) (host_temp host) ''<temp>''"
  have "list_all path_ok (concat (map (\<lambda>(path, replacement). sensitive_path_variants (host_canonicalize host) path replacement) sensitive_paths))"
    using assms(2)
  proof (induction sensitive_paths)
    case (Cons e es)
    then have "utf8 (fst e)" "word_ok (snd e)" by (simp_all add: path_ok_def)
    then have "list_all path_ok (sensitive_path_variants (host_canonicalize host) (fst e) (snd e))"
      by (rule variants_ok [OF assms(1)])
    with Cons show ?case by (cases e) simp
  qed simp
  moreover have "utf8 (host_temp host)" "host_home host = Some home \<Longrightarrow> utf8 home" for home
    using assms(1) by (auto simp: host_ok_def)
  ultimately have "list_all path_ok ?all" using words assms(1) variants_ok by (auto split: option.split)
  then show ?thesis using dedup_set [of "sort_key (\<lambda>e. - int (length (fst e))) ?all"]
    by (auto simp: path_replacements_def Let_def list_all_iff)
qed

lemma sanitize_line_ok:
  assumes "list_all path_ok paths" "line_ok s"
  shows "\<exists>t. sanitize_line paths s = Some t \<and> line_ok t"
proof -
  have "list_all (\<lambda>(p, w). utf8 p \<and> word_ok w) paths" using assms(1) by (auto simp: list_all_iff path_ok_def)
  then have "line_ok (redact_private_runtime_paths (redact_paths paths s))"
    using assms(2) by (intro lines.private_paths_ok lines.redact_paths_ok)
  then show ?thesis unfolding sanitize_line_def by (rule redact_secret_values_ok)
qed

lemma sanitize_lines_ok:
  assumes "list_all path_ok paths" "list_all piece_ok raw_lines" "0 < room"
  shows "\<exists>ls. sanitize_lines paths room raw_lines = Some ls \<and> list_all line_ok ls \<and> length ls \<le> room"
  using assms(2,3)
proof (induction raw_lines arbitrary: room)
  case (Cons raw_line raw_lines)
  let ?collapsed = "join_with '' '' (split_whitespace [] raw_line)"
  have "line_ok ?collapsed" using Cons.prems line_collapsed by simp
  with assms(1) obtain t where t: "sanitize_line paths ?collapsed = Some t" "line_ok t" using sanitize_line_ok by blast
  obtain ls where ls: "sanitize_lines paths room raw_lines = Some ls" "list_all line_ok ls" "length ls \<le> room"
    using Cons.IH [of room] Cons.prems by auto
  have "\<exists>ls. sanitize_lines paths (room - 1) raw_lines = Some ls \<and> list_all line_ok ls \<and> length ls \<le> room - 1" if "\<not> room \<le> 1"
    using Cons.IH [of "room - 1"] Cons.prems that by auto
  with t ls Cons.prems(2) show ?case by (auto simp: Let_def)
qed simp

lemma join_lines_groups:
  "list_all line_ok ls \<Longrightarrow>
    utf8 (join_with [newline] ls) \<and> list_all (\<lambda>g. control_group g \<longrightarrow> g = [newline]) (char_groups (join_with [newline] ls))"
proof (induction "[newline]" ls rule: join_with.induct)
  case (3 x y ws)
  have nl: "utf8 [newline]" "char_groups [newline] = [[newline]]" by code_simp+
  have x: "utf8 x" "list_all (\<lambda>g. control_group g \<longrightarrow> g = [newline]) (char_groups x)"
    using 3 by (auto simp: line_ok_def list_all_iff)
  moreover have "utf8 ([newline] @ join_with [newline] (y # ws))" using 3 nl by (intro utf8_append) auto
  ultimately show ?case using 3 nl groups_append [of x "[newline] @ join_with [newline] (y # ws)"]
      groups_append [of "[newline]" "join_with [newline] (y # ws)"] utf8_append
    by (simp del: append.simps char_groups.simps)
qed (auto simp: line_ok_def list_all_iff)

lemma take_chars_groups: "list_all char_ok gs \<Longrightarrow> take_chars n (concat gs) = concat (take n gs)"
proof (induction gs arbitrary: n)
  case (Cons g gs)
  then obtain c r where g: "g = c # r" "begins_char c" "list_all (\<lambda>c. \<not> begins_char c) r"
    using char_ok_begins [of g] char_ok_tl [of g] by (cases g) (auto simp: char_ok_def)
  from g(3) have "take_chars m (r @ s) = r @ take_chars m s" for m s by (induction r) auto
  with g Cons show ?case by (cases n) auto
qed simp

lemma truncated_ok:
  assumes "utf8 s" "list_all (\<lambda>g. control_group g \<longrightarrow> g = [newline]) (char_groups s)" "0 < limit"
  shows "char_count (truncate_chars s limit) \<le> limit"
    "list_all (\<lambda>g. control_group g \<longrightarrow> g = [newline]) (char_groups (truncate_chars s limit))"
proof -
  have e: "utf8 ellipsis" "char_groups ellipsis = [ellipsis]" "\<not> control_group ellipsis" "char_count ellipsis = 1" by code_simp+
  have gs: "list_all char_ok (char_groups s)" using assms(1) by (simp add: utf8_def)
  have "char_count (take_chars (limit - 1) s @ ellipsis) = char_count (take_chars (limit - 1) s) + 1"
    using e(4) by (simp add: char_count_def)
  with take_chars_count [of "limit - 1" s] assms(3) have "char_count (take_chars (limit - 1) s @ ellipsis) \<le> limit" by simp
  then show "char_count (truncate_chars s limit) \<le> limit" by (simp add: truncate_chars_def)
  have "list_all char_ok (take (limit - 1) (char_groups s))" using gs by (auto simp: list_all_iff dest: in_set_takeD)
  then have "char_groups (take_chars (limit - 1) s) = take (limit - 1) (char_groups s)" "utf8 (take_chars (limit - 1) s)"
    using take_chars_groups [OF gs, of "limit - 1"] by (simp_all add: char_groups_concat utf8_concat)
  with e assms(2) show "list_all (\<lambda>g. control_group g \<longrightarrow> g = [newline]) (char_groups (truncate_chars s limit))"
    by (auto simp: truncate_chars_def groups_append list_all_iff dest: in_set_takeD)
qed

lemma sanitized_ok:
  assumes "host_ok host" "list_all path_ok sensitive_paths"
  shows "\<exists>d. sanitize_public_runtime_error host raw sensitive_paths = Some d
    \<and> (case d of None \<Rightarrow> True | Some d \<Rightarrow> failure_detail_valid d)"
proof -
  have "list_all piece_ok (split_on (\<lambda>c. c = newline) (strip_ansi_and_controls raw))"
    using split_lines_ok [OF stripped_groups [of raw]] by simp
  moreover have "0 < PUBLIC_RUNTIME_ERROR_MAX_LINES" by (simp add: PUBLIC_RUNTIME_ERROR_MAX_LINES_def)
  ultimately obtain ls where ls: "sanitize_lines (path_replacements host sensitive_paths) PUBLIC_RUNTIME_ERROR_MAX_LINES
      (split_on (\<lambda>c. c = newline) (strip_ansi_and_controls raw)) = Some ls" "list_all line_ok ls"
    using sanitize_lines_ok [OF path_replacements_ok [OF assms]] by blast
  let ?d = "truncate_chars (join_with [newline] ls) PUBLIC_RUNTIME_ERROR_MAX_CHARS"
  have "0 < PUBLIC_RUNTIME_ERROR_MAX_CHARS" by (simp add: PUBLIC_RUNTIME_ERROR_MAX_CHARS_def)
  with join_lines_groups [OF ls(2)] have "char_count ?d \<le> PUBLIC_RUNTIME_ERROR_MAX_CHARS"
      "list_all (\<lambda>g. control_group g \<longrightarrow> g = [newline]) (char_groups ?d)"
    using truncated_ok by blast+
  with ls(1) show ?thesis by (simp add: sanitize_public_runtime_error_def Let_def failure_detail_valid_def)
qed

section \<open>Public failures\<close>

text \<open>The code and the summary of a failure can be shown.\<close>

definition labels_ok :: "string \<Rightarrow> string \<Rightarrow> bool" where
  "labels_ok code summary =
     (trim code \<noteq> [] \<and> length code \<le> 120 \<and> list_all failure_code_char code
      \<and> trim summary \<noteq> [] \<and> char_count summary \<le> PUBLIC_RUNTIME_ERROR_SUMMARY_MAX_CHARS
      \<and> \<not> list_ex control_group (char_groups summary))"

lemma validate_labels:
  "validate_failure f = None \<longleftrightarrow> labels_ok (failure_code f) (failure_summary f)
     \<and> (case failure_detail f of None \<Rightarrow> True | Some d \<Rightarrow> failure_detail_valid d)"
  by (auto simp: validate_failure_def labels_ok_def not_less split: option.split)

definition labelled :: "classification \<Rightarrow> bool" where
  "labelled t = labels_ok (fst (snd t)) (fst (snd (snd t)))"

lemma labelled_if: "labelled a \<Longrightarrow> labelled b \<Longrightarrow> labelled (if c then a else b)"
  by simp

lemma labelled_tuple: "labels_ok code summary \<Longrightarrow> labelled (phase, code, summary, retryable)"
  by (simp add: labelled_def)

lemma authentication_labels: "labels_ok ''runtime_authentication_required''
    (runtime_display_name kind @ '' '' @ [CHR 0xE8, CHR 0xAE, CHR 0xA4, CHR 0xE8, CHR 0xAF, CHR 0x81, CHR 0xE6,
      CHR 0x9C, CHR 0xAA, CHR 0xE9, CHR 0x80, CHR 0x9A, CHR 0xE8, CHR 0xBF, CHR 0x87])"
  by (induction kind; code_simp)

lemma permission_labels: "labels_ok ''runtime_permission_denied''
    (runtime_display_name kind @ '' '' @ [CHR 0xE6, CHR 0x8B, CHR 0x92, CHR 0xE7, CHR 0xBB, CHR 0x9D, CHR 0xE4,
      CHR 0xBA, CHR 0x86, CHR 0xE8, CHR 0xAE, CHR 0xBF, CHR 0xE9, CHR 0x97, CHR 0xAE, CHR 0xE8, CHR 0xAF, CHR 0xB7,
      CHR 0xE6, CHR 0xB1, CHR 0x82])"
  by (induction kind; code_simp)

lemma classified_labels:
  assumes "labels_ok code summary"
  shows "labelled (classify_high_value_runtime_error kind phase code summary lower retryable)"
  unfolding classify_high_value_runtime_error_def
  by (intro labelled_if labelled_tuple assms authentication_labels permission_labels; code_simp)

lemma codex_labels:
  assumes "labels_ok code summary"
  shows "labels_ok ''runtime_authentication_required'' authentication_refused"
    "labels_ok code codex_failed"
    "labels_ok ''runtime_quota_exceeded'' [CHR 0xE8, CHR 0xBF, CHR 0x90, CHR 0xE8, CHR 0xA1, CHR 0x8C, CHR 0xE6, CHR 0x97, CHR 0xB6, CHR 0xE9, CHR 0xA2,
      CHR 0x9D, CHR 0xE5, CHR 0xBA, CHR 0xA6, CHR 0xE4, CHR 0xB8, CHR 0x8D, CHR 0xE8, CHR 0xB6, CHR 0xB3]"
    "labels_ok ''runtime_rate_limited'' [CHR 0xE8, CHR 0xAF, CHR 0xB7, CHR 0xE6, CHR 0xB1, CHR 0x82, CHR 0xE8, CHR 0xBF, CHR 0x87, CHR 0xE4, CHR 0xBA,
      CHR 0x8E, CHR 0xE9, CHR 0xA2, CHR 0x91, CHR 0xE7, CHR 0xB9, CHR 0x81]"
proof -
  have "labels_ok ''x'' codex_failed" by code_simp
  with assms show "labels_ok code codex_failed" by (simp add: labels_ok_def)
qed code_simp+

text \<open>
  C32: The sanitizer of runtime errors always returns: whatever bytes a runtime wrote, no slice of a text is
  taken inside a character or behind its end, so none of the loops that redact it panics, provided that the paths
  are texts and their replacements visible words.
\<close>

theorem sanitizer_returns:
  assumes "host_ok host" and "list_all path_ok sensitive_paths"
  shows "sanitize_public_runtime_error host raw sensitive_paths \<noteq> None"
  using sanitized_ok [OF assms, of raw] by auto

definition a_host :: FailureHost where
  "a_host = \<lparr>host_canonicalize = (\<lambda>p. None), host_home = Some ''/home/ada'', host_temp = ''/tmp''\<rparr>"

lemma a_host_ok: "host_ok a_host"
proof -
  have "utf8 ''/home/ada''" "utf8 ''/tmp''" by code_simp+
  then show ?thesis by (simp add: host_ok_def a_host_def)
qed

lemma project_ok: "list_all path_ok [(''/srv/app'', ''<project>'')]"
  by code_simp

theorem sanitizer_returns_witness:
  "sanitize_public_runtime_error a_host ''bearer '' [(''/srv/app'', ''<project>'')] \<noteq> None"
  by (rule sanitizer_returns [OF a_host_ok project_ok])

text \<open>The loop on its own does not: behind a prefix at the very end of a text there is nothing to search.\<close>

lemma bearer_at_end_panics: "redact_secret_values ''bearer '' = None"
proof -
  have "redact_bearer ''bearer '' 17 = None" by (subst redact_bearer.simps) simp
  moreover have "find_sub ''bearer '' (to_ascii_lowercase (drop 0 ''bearer '')) = Some 0" by code_simp
  ultimately have "redact_bearer ''bearer '' 0 = None" by (subst redact_bearer.simps) (simp add: is_char_boundary_def Let_def)
  moreover have "fold (\<lambda>marker r. Option.bind r f) ms None = None" for f :: "string \<Rightarrow> string option" and ms
    by (induction ms) simp_all
  moreover have "fold (\<lambda>marker r. Option.bind r (\<lambda>s. redact_marker marker s 0)) ms None = None" for ms
    by (induction ms) simp_all
  ultimately show ?thesis by (simp add: redact_secret_values_def)
qed

text \<open>
  C33: A failure made public from the output of a runtime, and one made public from the terminal error of a Codex
  turn, is a well-formed public failure: its code, its summary and its detail satisfy \<open>RuntimeFailureView::validate\<close>
  whenever the defaults of the caller do.
\<close>

theorem public_failures_validate:
  assumes "host_ok host" and "list_all path_ok sensitive_paths"
    and "validate_failure (failure kind origin phase code summary None retryable) = None"
  shows "(\<exists>f. public_runtime_failure_from_output host kind origin phase code summary raw sensitive_paths retryable = Some f
      \<and> validate_failure f = None)
    \<and> (\<exists>f. public_codex_terminal_failure host code error sensitive_paths = Some f \<and> validate_failure f = None)"
proof
  have labels: "labels_ok code summary" using assms(3) by (simp add: validate_labels)
  have details: "\<exists>d. (case raw of None \<Rightarrow> Some None | Some t \<Rightarrow> sanitize_public_runtime_error host t sensitive_paths) = Some d
      \<and> (case d of None \<Rightarrow> True | Some d \<Rightarrow> failure_detail_valid d)" for raw
    using sanitized_ok [OF assms(1,2)] by (cases raw) auto
  have from_output: "\<exists>f. public_runtime_failure_from_output host kind origin phase code summary raw sensitive_paths retryable = Some f
      \<and> validate_failure f = None" if "labels_ok code summary" for kind origin phase summary raw retryable
  proof -
    obtain d where d: "(case raw of None \<Rightarrow> Some None | Some t \<Rightarrow> sanitize_public_runtime_error host t sensitive_paths) = Some d"
        "case d of None \<Rightarrow> True | Some d \<Rightarrow> failure_detail_valid d"
      using details by blast
    let ?lower = "to_ascii_lowercase (case raw of None \<Rightarrow> [] | Some d \<Rightarrow> d)"
    obtain p c s r where t: "(if origin = RuntimeOrigin then classify_high_value_runtime_error kind phase code summary ?lower retryable
        else (phase, code, summary, retryable)) = (p, c, s, r)" by (metis prod_cases4)
    have "labelled (if origin = RuntimeOrigin then classify_high_value_runtime_error kind phase code summary ?lower retryable
        else (phase, code, summary, retryable))"
      by (intro labelled_if labelled_tuple classified_labels that)
    then have "labels_ok c s" by (simp add: t labelled_def)
    then show ?thesis using d
      unfolding public_runtime_failure_from_output_def Let_def t prod.case by (simp add: validate_labels)
  qed
  from from_output [OF labels]
  show "\<exists>f. public_runtime_failure_from_output host kind origin phase code summary raw sensitive_paths retryable = Some f
      \<and> validate_failure f = None" .
  show "\<exists>f. public_codex_terminal_failure host code error sensitive_paths = Some f \<and> validate_failure f = None"
  proof -
    define public where "public = (case codex_detail error of None \<Rightarrow> Some None
      | Some t \<Rightarrow> sanitize_public_runtime_error host t sensitive_paths)"
    obtain d where d: "public = Some d" "case d of None \<Rightarrow> True | Some d \<Rightarrow> failure_detail_valid d"
      using details [of "codex_detail error"] unfolding public_def by blast
    obtain f where f: "public_runtime_failure_from_output host CodexCli RuntimeOrigin ExecutionPhase code codex_failed
        (codex_detail error) sensitive_paths True = Some f" "validate_failure f = None"
      using from_output [OF codex_labels(2) [OF labels]] by blast
    have "validate_failure (f\<lparr>failure_summary := authentication_refused\<rparr>) = None"
      if "failure_code f = ''runtime_authentication_required''"
      using f(2) codex_labels(1) [OF labels] that by (simp add: validate_labels)
    moreover have "validate_failure (failure CodexCli RuntimeOrigin phase c s d True) = None" if "labels_ok c s" for phase c s
      using that d(2) by (simp add: validate_labels)
    ultimately show ?thesis using codex_labels [OF labels] f d(1)
      unfolding public_codex_terminal_failure_def Let_def public_def [symmetric]
      by (auto split: option.split)
  qed
qed

theorem public_failures_validate_witness:
  "(\<exists>f. public_runtime_failure_from_output a_host HermesCli RuntimeOrigin TerminalPhase ''runtime_failed'' ''failed''
        (Some ''/srv/app: rate limit'') [(''/srv/app'', ''<project>'')] True = Some f \<and> validate_failure f = None)
    \<and> (\<exists>f. public_codex_terminal_failure a_host ''runtime_failed'' (Some (JString ''token expired''))
        [(''/srv/app'', ''<project>'')] = Some f \<and> validate_failure f = None)"
proof (rule public_failures_validate [OF a_host_ok project_ok])
  show "validate_failure (failure HermesCli RuntimeOrigin TerminalPhase ''runtime_failed'' ''failed'' None True) = None"
    by code_simp
qed

end
