(* ===== verification/Failure_Redaction.thy ===== *)
theory Failure_Redaction
  imports Failure_Safety
begin

text \<open>
  What the redaction leaves of the tokens behind \<^verbatim>\<open>bearer\<close>: nothing. A text is guarded when each
  occurrence of the prefix, in any case, is followed by the replacement; the search for the prefix makes a line
  guarded, and the searches for the other markers keep it so.
\<close>

section \<open>Occurrences\<close>

definition bearer_at :: "string \<Rightarrow> nat \<Rightarrow> bool" where
  "bearer_at s i = (take 7 (drop i (to_ascii_lowercase s)) = ''bearer '')"

definition guarded :: "string \<Rightarrow> nat \<Rightarrow> bool" where
  "guarded s n = (\<forall>i < n. bearer_at s i \<longrightarrow> take 10 (drop (i + 7) s) = REDACTED)"

lemma bearer_nth: "bearer_at s i \<Longrightarrow> k < 7 \<Longrightarrow> i + k < length s \<and> ascii_lower (s ! (i + k)) = ''bearer '' ! k"
proof -
  assume occ: "bearer_at s i" and k: "k < 7"
  have "length (take 7 (drop i (to_ascii_lowercase s))) = 7" using occ by (simp add: bearer_at_def)
  then have len: "i + 7 \<le> length s" by simp
  have "take 7 (drop i (to_ascii_lowercase s)) ! k = ascii_lower (s ! (i + k))"
    using len k by (simp add: to_ascii_lowercase_def)
  with occ len k show ?thesis by (simp add: bearer_at_def)
qed

lemma bearer_chars: "bearer_at s i \<Longrightarrow> i \<le> p \<Longrightarrow> p < i + 7 \<Longrightarrow> ascii_lower (s ! p) \<in> set ''bear ''"
proof -
  assume occ: "bearer_at s i" and p: "i \<le> p" "p < i + 7"
  have "ascii_lower (s ! p) = ''bearer '' ! (p - i)" using bearer_nth [OF occ, of "p - i"] p by simp
  moreover have "''bearer '' ! k \<in> set ''bear ''" if "k < 7" for k
  proof -
    have "''bearer '' ! k \<in> set ''bearer ''" using that by (intro nth_mem) simp
    then show ?thesis by auto
  qed
  ultimately show ?thesis using p by simp
qed

lemma bearer_first: "bearer_at s i \<Longrightarrow> ascii_lower (s ! i) = CHR ''b''"
  using bearer_nth [of s i 0] by simp

lemma bearer_inside: "bearer_at s i \<Longrightarrow> 0 < k \<Longrightarrow> k < 7 \<Longrightarrow> ascii_lower (s ! (i + k)) \<noteq> CHR ''b''"
proof -
  assume occ: "bearer_at s i" and k: "0 < k" "k < 7"
  then consider "k = 1" | "k = 2" | "k = 3" | "k = 4" | "k = 5" | "k = 6" by linarith
  then show ?thesis using bearer_nth [OF occ k(2)] by cases simp_all
qed

lemma redacted_nth:
  assumes "take 10 (drop i s) = REDACTED" "k < 10"
  shows "s ! (i + k) = REDACTED ! k" "i + k < length s"
proof -
  have "length (take 10 (drop i s)) = 10" using assms(1) by (simp add: REDACTED_def)
  then have len: "i + 10 \<le> length s" by simp
  with assms(2) show "i + k < length s" by simp
  have "take 10 (drop i s) ! k = s ! (i + k)" using len assms(2) by simp
  with assms(1) show "s ! (i + k) = REDACTED ! k" by simp
qed

lemma REDACTED_chars: "k < 10 \<Longrightarrow> REDACTED ! k \<in> set ''[redacted]''"
  using nth_mem [of k REDACTED] by (simp add: REDACTED_def)

lemma redacted_not_b: "c \<in> set ''[redacted]'' \<Longrightarrow> ascii_lower c \<noteq> CHR ''b''"
  by (auto simp: ascii_lower_def)

text \<open>Between a guarded occurrence and the end of its replacement no other one begins.\<close>

lemma bearer_gap:
  assumes "bearer_at s j" "take 10 (drop (j + 7) s) = REDACTED" "bearer_at s p" "j < p"
  shows "j + 17 \<le> p"
proof (rule ccontr)
  assume "\<not> j + 17 \<le> p"
  then consider "p < j + 7" | "j + 7 \<le> p" "p < j + 17" by linarith
  then show False
  proof cases
    case 1
    then have "0 < p - j" "p - j < 7" "j + (p - j) = p" using assms(4) by simp_all
    then show False using bearer_inside [OF assms(1), of "p - j"] bearer_first [OF assms(3)] by simp
  next
    case 2
    then have "s ! p = REDACTED ! (p - (j + 7))" using redacted_nth(1) [OF assms(2), of "p - (j + 7)"] by simp
    then have "s ! p \<in> set ''[redacted]''" using REDACTED_chars [of "p - (j + 7)"] 2 by simp
    then show False using redacted_not_b bearer_first [OF assms(3)] by blast
  qed
qed

section \<open>Replacements\<close>

lemma lower_append: "to_ascii_lowercase (x @ y) = to_ascii_lowercase x @ to_ascii_lowercase y"
  by (simp add: to_ascii_lowercase_def)

lemma lower_drop: "to_ascii_lowercase (drop n s) = drop n (to_ascii_lowercase s)"
  by (simp add: to_ascii_lowercase_def drop_map)

lemma bearer_in_front: "i + 7 \<le> length x \<Longrightarrow> bearer_at (x @ y) i = bearer_at x i"
  by (simp add: bearer_at_def lower_append)

lemma bearer_behind: "bearer_at (x @ y) (length x + i) = bearer_at y i"
  by (simp add: bearer_at_def lower_append)

text \<open>No occurrence reaches into the replacement.\<close>

lemma bearer_not_across:
  assumes "length x < i + 7" "i < length x + 10"
  shows "\<not> bearer_at (x @ REDACTED @ z) i"
proof
  assume occ: "bearer_at (x @ REDACTED @ z) i"
  show False
  proof (cases "length x \<le> i")
    case True
    moreover have "length REDACTED = 10" by (simp add: REDACTED_def)
    moreover have "i - length x < 10" using assms(2) by simp
    ultimately have "(x @ REDACTED @ z) ! i = REDACTED ! (i - length x)" by (simp add: nth_append)
    then have "(x @ REDACTED @ z) ! i \<in> set ''[redacted]''" using REDACTED_chars [of "i - length x"] assms(2) True by simp
    then show False using redacted_not_b bearer_first [OF occ] by blast
  next
    case False
    then have "ascii_lower ((x @ REDACTED @ z) ! length x) \<in> set ''bear ''"
      using bearer_chars [OF occ, of "length x"] assms(1) by simp
    then show False by (simp add: REDACTED_def ascii_lower_def)
  qed
qed

lemma guarded_replace:
  assumes "f \<le> length s" "l \<le> length s" "f \<le> l"
    and front: "\<And>i. i + 7 \<le> f \<Longrightarrow> bearer_at s i \<Longrightarrow> i + 7 = f \<or> take 10 (drop (i + 7) s) = REDACTED \<and> i + 17 \<le> f"
    and behind: "\<And>i. l \<le> i \<Longrightarrow> i < l + n \<Longrightarrow> bearer_at s i \<Longrightarrow> take 10 (drop (i + 7) s) = REDACTED"
  shows "guarded (replace_range f l s) (f + 10 + n)"
  unfolding guarded_def
proof (intro allI impI)
  fix i
  assume i: "i < f + 10 + n" and occ: "bearer_at (replace_range f l s) i"
  define x where "x = take f s"
  have x: "length x = f" "s = x @ drop f s" "replace_range f l s = x @ REDACTED @ drop l s" "length REDACTED = 10"
    using assms(1) by (simp_all add: x_def replace_range_def REDACTED_def)
  consider "i + 7 \<le> f" | "f < i + 7" "i < f + 10" | "f + 10 \<le> i" by linarith
  then show "take 10 (drop (i + 7) (replace_range f l s)) = REDACTED"
  proof cases
    case 1
    with occ x have "bearer_at x i" using bearer_in_front [of i x] by simp
    then have "bearer_at s i" using bearer_in_front [of i x "drop f s"] x(1,2) 1 by simp
    then consider "i + 7 = f" | "take 10 (drop (i + 7) s) = REDACTED" "i + 17 \<le> f" using front 1 by blast
    then show ?thesis
    proof cases
      case 1
      then show ?thesis using x by simp
    next
      case 2
      then have "take 10 (drop (i + 7) x) = take 10 (drop (i + 7) s)" by (simp add: x_def drop_take)
      moreover have "10 \<le> length x - (i + 7)" "i + 7 \<le> length x" using x(1) 2(2) by simp_all
      then have "take 10 (drop (i + 7) (x @ REDACTED @ drop l s)) = take 10 (drop (i + 7) x)" by simp
      ultimately show ?thesis using x(3) 2(1) by argo
    qed
  next
    case 2
    then show ?thesis using occ x bearer_not_across [of x i "drop l s"] by simp
  next
    case 3
    define j where "j = i - (f + 10)"
    have ij: "i = length (x @ REDACTED) + j" using 3 x(1,4) by (simp add: j_def)
    have "bearer_at (drop l s) j" using occ bearer_behind [of "x @ REDACTED" "drop l s" j] x(3) ij by simp
    then have "bearer_at s (l + j)" using assms(2) bearer_behind [of "take l s" "drop l s" j] by simp
    moreover have "j < n" using i 3 by (simp add: j_def)
    ultimately have "take 10 (drop (l + j + 7) s) = REDACTED" using behind [of "l + j"] by simp
    moreover have "drop (i + 7) (replace_range f l s) = drop (l + j + 7) s" using x ij by (simp add: ac_simps)
    ultimately show ?thesis by simp
  qed
qed

section \<open>The search for the prefix\<close>

lemma find_sub_first: "find_sub pat s = Some r \<Longrightarrow> j < r \<Longrightarrow> take (length pat) (drop j s) \<noteq> pat"
proof (induction s arbitrary: r j)
  case (Cons c s)
  then show ?case by (cases j) (auto split: if_split_asm simp: prefix_def, metis append_take_drop_id)
qed (auto split: if_split_asm)

lemma find_sub_absent: "find_sub pat s = None \<Longrightarrow> take (length pat) (drop j s) \<noteq> pat"
proof (induction s arbitrary: j)
  case (Cons c s)
  then show ?case by (cases j) (auto split: if_split_asm simp: prefix_def, metis append_take_drop_id)
qed (auto split: if_split_asm)

lemma found_bearer: "find_sub ''bearer '' (to_ascii_lowercase (drop i s)) = Some r \<Longrightarrow> bearer_at s (i + r)"
  using find_sub_take [of "''bearer ''" "to_ascii_lowercase (drop i s)" r] by (simp add: bearer_at_def lower_drop add.commute eval_nat_numeral)

lemma before_found:
  assumes "find_sub ''bearer '' (to_ascii_lowercase (drop i s)) = Some r" "i \<le> p" "p < i + r"
  shows "\<not> bearer_at s p"
  using find_sub_first [OF assms(1), of "p - i"] assms(2,3) by (simp add: bearer_at_def lower_drop eval_nat_numeral)

lemma nowhere_found:
  assumes "find_sub ''bearer '' (to_ascii_lowercase (drop i s)) = None" "i \<le> p"
  shows "\<not> bearer_at s p"
  using find_sub_absent [OF assms(1), of "p - i"] assms(2) by (simp add: bearer_at_def lower_drop eval_nat_numeral)

lemma redact_bearer_guards:
  assumes "redact_bearer s i = Some t" "line_ok s" "is_char_boundary s i" "guarded s i"
  shows "guarded t n"
  using assms
proof (induction s i arbitrary: t rule: redact_bearer.induct)
  case (1 s i)
  have i: "\<not> (length s < i \<or> \<not> is_char_boundary s i)" using "1.prems"(3) boundary_le [of s i] by auto
  show ?case
  proof (cases "find_sub ''bearer '' (to_ascii_lowercase (drop i s))")
    case None
    then have "t = s" using i "1.prems"(1) by (subst (asm) redact_bearer.simps) simp
    moreover have "guarded s n" using "1.prems"(4) nowhere_found [OF None] by (auto simp: guarded_def) (metis not_le)
    ultimately show ?thesis by simp
  next
    case (Some r)
    let ?f = "i + r + 7"
    let ?l = "?f + white_from (drop ?f s)"
    obtain f: "is_char_boundary s ?f" "?f < ?l" "is_char_boundary s ?l"
      using bearer_value_bounds [OF "1.prems"(2,3) Some] by blast
    with "1.prems"(2) have next_line: "line_ok (replace_range ?f ?l s)" "is_char_boundary (replace_range ?f ?l s) (?f + 10)"
      by (intro lines.replace_range_ok; simp)+
    have "guarded (replace_range ?f ?l s) (?f + 10 + 0)"
    proof (rule guarded_replace)
      fix p
      assume p: "p + 7 \<le> ?f" "bearer_at s p"
      consider "p < i" | "i \<le> p" "p < i + r" | "p = i + r" using p(1) by linarith
      then show "p + 7 = ?f \<or> take 10 (drop (p + 7) s) = REDACTED \<and> p + 17 \<le> ?f"
      proof cases
        case 1
        then have "take 10 (drop (p + 7) s) = REDACTED" using "1.prems"(4) p(2) by (simp add: guarded_def)
        moreover from this have "p + 17 \<le> i + r" using bearer_gap [OF p(2) _ found_bearer [OF Some]] 1 by simp
        ultimately show ?thesis by simp
      qed (use p before_found [OF Some] in auto)
    qed (use f boundary_le in auto)
    then have "guarded t n" if "redact_bearer (replace_range ?f ?l s) (?f + 10) = Some t"
      using "1.IH" [OF i Some refl refl] f(2) next_line that by simp
    then show ?thesis using i Some f(2) "1.prems"(1) by (subst (asm) redact_bearer.simps) (simp add: Let_def)
  qed
qed

section \<open>The searches for the other markers\<close>

definition blank_byte :: "char \<Rightarrow> bool" where
  "blank_byte c = (quote_char c \<or> c \<in> set (concat utf8_white_space))"

lemma blank_bytes_nth: "k < blank_bytes s \<Longrightarrow> blank_byte (s ! k)"
proof (induction s arbitrary: k rule: blank_bytes.induct)
  case (1 s)
  show ?case
  proof (cases "leading_white s = 0")
    case False
    then obtain w where w: "white w" "prefix w s" "leading_white s = length w" by (rule leading_white_prefix)
    from w(2) obtain r where r: "s = w @ r" by (auto simp: prefix_def)
    have k: "k < length w + blank_bytes r" using "1.prems" False w(3) r by (subst (asm) blank_bytes.simps) simp
    show ?thesis
    proof (cases "k < length w")
      case True
      then have "s ! k \<in> set w" by (simp add: r nth_append)
      with w(1) show ?thesis by (auto simp: blank_byte_def white_def)
    next
      case inside: False
      then have "blank_byte (r ! (k - length w))" using "1.IH"(1) [OF False, of "k - length w"] k w(3) r by simp
      with inside show ?thesis by (simp add: r nth_append)
    qed
  next
    case True
    with "1.prems" obtain c r where c: "s = c # r" "quote_char c"
      by (subst (asm) blank_bytes.simps) (auto split: list.splits if_split_asm)
    have "k < Suc (blank_bytes r)" using "1.prems" True c by (subst (asm) blank_bytes.simps) simp
    then show ?thesis using "1.IH"(2) [OF _ c, of "k - 1"] True c by (cases k) (simp_all add: blank_byte_def)
  qed
qed

lemma not_blank: "blank_byte c \<Longrightarrow> c \<notin> set ''[redacte'' \<and> ascii_lower c \<noteq> CHR ''r''"
proof -
  have "list_all (\<lambda>c. c \<notin> set ''[redacte'' \<and> ascii_lower c \<noteq> CHR ''r'') (CHR 0x22 # CHR 0x27 # concat utf8_white_space)"
    by code_simp
  then show "blank_byte c \<Longrightarrow> c \<notin> set ''[redacte'' \<and> ascii_lower c \<noteq> CHR ''r''"
    by (auto simp: blank_byte_def quote_char_def list_all_iff)
qed

text \<open>A value begins behind a delimiter and blanks, so not inside a replacement and not right behind the prefix.\<close>

lemma value_not_inside:
  assumes "secret_assignment_bounds s marker m = Some (f, l)" "bearer_at s p" "take 10 (drop (p + 7) s) = REDACTED" "p + 7 \<le> f"
  shows "p + 17 \<le> f"
proof (rule ccontr)
  assume near: "\<not> p + 17 \<le> f"
  define d where "d = m + blank_bytes (drop m s)"
  have d: "s ! d \<in> set '':=''" "f = Suc d + blank_bytes (drop (Suc d) s)" "d < length s"
    using assms(1) unfolding secret_assignment_bounds_def Let_def d_def [symmetric] by (auto split: if_split_asm)
  have blank: "s ! q \<in> set '':='' \<or> blank_byte (s ! q)" if "d \<le> q" "q < f" for q
  proof (cases "q = d")
    case False
    with that have "blank_byte (drop (Suc d) s ! (q - Suc d))" using d(2) by (intro blank_bytes_nth) simp
    then show ?thesis using that False d(3) by simp
  qed (use d(1) in simp)
  have delimiter: "c \<notin> set ''[redacte'' \<and> ascii_lower c \<noteq> CHR ''r''" if "c \<in> set '':='' \<or> blank_byte c" for c
  proof (cases "blank_byte c")
    case False
    with that have "c = CHR '':'' \<or> c = CHR ''=''" by auto
    then show ?thesis by (auto simp: ascii_lower_def)
  qed (rule not_blank)
  have last_byte: "d \<le> f - 1" "f - 1 < f" using d(2) by simp_all
  show False
  proof (cases "f = p + 7")
    case True
    have "ascii_lower (s ! (p + 6)) = CHR 0x20" "ascii_lower (s ! (p + 5)) = CHR ''r''"
      using bearer_nth [OF assms(2), of 6] bearer_nth [OF assms(2), of 5] by simp_all
    moreover from this(1) have "d \<noteq> p + 6" using d(1) by (auto simp: ascii_lower_def)
    then have "d \<le> p + 5" using d(2) True by simp
    ultimately show False using delimiter [OF blank [of "p + 5"]] True by simp
  next
    case False
    then have k: "f - 1 - (p + 7) < 9" "p + 7 + (f - 1 - (p + 7)) = f - 1" using near assms(4) by simp_all
    then have "s ! (f - 1) = REDACTED ! (f - 1 - (p + 7))" using redacted_nth(1) [OF assms(3), of "f - 1 - (p + 7)"] by simp
    moreover have "REDACTED ! q \<in> set ''[redacte''" if "q < 9" for q
    proof -
      have "REDACTED ! q = ''[redacted'' ! q" using that nth_append [of "''[redacted''" "'']''" q] by (simp add: REDACTED_def)
      moreover have "''[redacted'' ! q \<in> set ''[redacted''" using that by (intro nth_mem) simp
      ultimately show ?thesis by auto
    qed
    ultimately show False using delimiter [OF blank [OF last_byte]] k(1) by simp
  qed
qed

lemma redact_marker_guards:
  assumes "redact_marker marker s i = Some t" "\<And>n. guarded s n"
  shows "guarded t n"
  using assms
proof (induction marker s i arbitrary: t rule: redact_marker.induct)
  case (1 marker s i)
  have i: "\<not> (length s < i \<or> \<not> is_char_boundary s i \<or> marker = [])"
    using "1.prems"(1) by (subst (asm) redact_marker.simps) (auto split: if_split_asm)
  show ?case
  proof (cases "find_sub marker (to_ascii_lowercase (drop i s))")
    case None
    then show ?thesis using i "1.prems" by (subst (asm) redact_marker.simps) simp
  next
    case (Some r)
    let ?m = "i + r + length marker"
    show ?thesis
    proof (cases "secret_assignment_bounds s marker ?m")
      case None
      then have "redact_marker marker s ?m = Some t" using i Some "1.prems"(1) by (subst (asm) redact_marker.simps) simp
      then show ?thesis using "1.IH"(1) [OF i Some refl None] "1.prems"(2) by blast
    next
      case bounds: (Some p)
      obtain f l where p: "p = (f, l)" by (cases p)
      with bounds have b: "secret_assignment_bounds s marker ?m = Some (f, l)" by simp
      then have rest: "redact_marker marker (replace_range f l s) (f + 10) = Some t"
        using i Some "1.prems"(1) by (subst (asm) redact_marker.simps) (simp add: Let_def)
      have every: "take 10 (drop (q + 7) s) = REDACTED" if "bearer_at s q" for q
        using "1.prems"(2) [of "Suc q"] that by (simp add: guarded_def)
      have "guarded (replace_range f l s) (f + 10 + n)" for n
      proof (rule guarded_replace)
        show "f \<le> length s" "l \<le> length s" "f \<le> l" using assignment_bounds [OF b] by simp_all
        show "q + 7 = f \<or> take 10 (drop (q + 7) s) = REDACTED \<and> q + 17 \<le> f" if "q + 7 \<le> f" "bearer_at s q" for q
          using every [OF that(2)] value_not_inside [OF b that(2) every [OF that(2)] that(1)] by simp
      qed (rule every)
      then have "guarded (replace_range f l s) n" for n unfolding guarded_def by (meson trans_less_add2)
      then show ?thesis using "1.IH"(2) [OF i Some refl bounds p [symmetric]] rest by blast
    qed
  qed
qed

lemma redact_secret_values_guards:
  assumes "redact_secret_values s = Some t" "line_ok s"
  shows "guarded t n"
proof -
  have "fold (\<lambda>marker r. Option.bind r (\<lambda>s. redact_marker marker s 0)) markers r = Some t \<Longrightarrow>
      \<exists>u. r = Some u \<and> ((\<forall>n. guarded u n) \<longrightarrow> guarded t n)" for markers r
  proof (induction markers arbitrary: r)
    case (Cons marker markers)
    then obtain u where u: "Option.bind r (\<lambda>s. redact_marker marker s 0) = Some u" "(\<forall>n. guarded u n) \<longrightarrow> guarded t n"
      by fastforce
    then obtain v where "r = Some v" "redact_marker marker v 0 = Some u" by (auto simp: bind_eq_Some_conv)
    with u(2) redact_marker_guards show ?case by blast
  qed simp
  with assms(1) obtain u where u: "redact_bearer s 0 = Some u" "(\<forall>n. guarded u n) \<longrightarrow> guarded t n"
    unfolding redact_secret_values_def by blast
  have "guarded u n" for n
    by (rule redact_bearer_guards [OF u(1) assms(2)]) (simp_all add: is_char_boundary_def guarded_def)
  with u(2) show ?thesis by blast
qed

text \<open>
  C34: No bearer token is made public: in every line that the sanitizer keeps, each occurrence of
  \<open>bearer\<close> and a space, in upper or lower case, is followed by the replacement, whatever the other markers
  and the paths in the line are.
\<close>

theorem no_bearer_token:
  assumes "list_all path_ok paths" and "piece_ok raw_line"
    and "sanitize_line paths (join_with '' '' (split_whitespace [] raw_line)) = Some t"
    and "take 7 (drop i (to_ascii_lowercase t)) = ''bearer ''"
  shows "take 10 (drop (i + 7) t) = REDACTED"
proof -
  have "list_all (\<lambda>(p, w). utf8 p \<and> word_ok w) paths" using assms(1) by (auto simp: list_all_iff path_ok_def)
  then have "line_ok (redact_private_runtime_paths (redact_paths paths (join_with '' '' (split_whitespace [] raw_line))))"
    using line_collapsed [OF assms(2)] by (intro lines.private_paths_ok lines.redact_paths_ok)
  with assms(3) have "guarded t (Suc i)" unfolding sanitize_line_def by (rule redact_secret_values_guards)
  with assms(4) show ?thesis by (simp add: guarded_def bearer_at_def)
qed

theorem no_bearer_token_witness:
  "sanitize_line [(''/srv/app'', ''<project>'')] (join_with '' '' (split_whitespace [] ''Bearer  s3cret at /srv/app''))
      = Some ''Bearer [redacted] at <project>''
    \<and> take 10 (drop (0 + 7) ''Bearer [redacted] at <project>'') = REDACTED"
proof -
  have run: "sanitize_line [(''/srv/app'', ''<project>'')] (join_with '' '' (split_whitespace [] ''Bearer  s3cret at /srv/app''))
      = Some ''Bearer [redacted] at <project>''"
    by code_simp
  moreover have "piece_ok ''Bearer  s3cret at /srv/app''" by code_simp
  moreover have "take 7 (drop 0 (to_ascii_lowercase ''Bearer [redacted] at <project>'')) = ''bearer ''" by code_simp
  ultimately show ?thesis using no_bearer_token [OF project_ok _ run, of 0] by blast
qed

text \<open>
  The values behind the other markers end at the first separator: of a cookie header with two cookies only the
  first is redacted.
\<close>

lemma cookie_value_survives: "redact_secret_values ''cookie: a=1; b=2'' = Some ''cookie: [redacted]; b=2''"
  by code_simp

end
