(* ===== verification/Thread_Id.thy ===== *)
theory Thread_Id
  imports Prelude "HOL-Library.Word"
begin

unbundle bit_operations_syntax

text \<open>
  The identity of a conversation, from \<^verbatim>\<open>crates/rovai-core/src/camp_id.rs\<close>: the text of a UUID of version 7 in
  the alphabet of Crockford, and its parser. What the crate \<^verbatim>\<open>uuid\<close> says of the 128 bits, their version and whether
  they have the variant of RFC 4122, are arguments.
\<close>

section \<open>Texts and numbers\<close>

definition thread_id_prefix :: string where "thread_id_prefix = ''rvcamp_''"
definition SUFFIX_LENGTH :: nat where "SUFFIX_LENGTH = 26"
definition TOTAL_LENGTH :: nat where "TOTAL_LENGTH = length thread_id_prefix + SUFFIX_LENGTH"
definition CROCKFORD :: string where "CROCKFORD = ''0123456789abcdefghjkmnpqrstvwxyz''"

definition crockford_value :: "char \<Rightarrow> nat option" where
  "crockford_value c = map_option fst (find (\<lambda>(i, d). d = c) (enumerate 0 CROCKFORD))"

fun decode_suffix :: "nat \<Rightarrow> 128 word \<Rightarrow> string \<Rightarrow> string + 128 word" where
  "decode_suffix index decoded [] = Inr decoded"
| "decode_suffix index decoded (c # cs) =
     (case crockford_value c of
        None \<Rightarrow> Inl ''suffix is not canonical lower-case Crockford Base32''
      | Some digit \<Rightarrow>
          if index = 0 \<and> 7 < digit then Inl ''suffix overflows 128 bits''
          else decode_suffix (Suc index) (push_bit 5 decoded OR word_of_nat digit) cs)"

definition parse_thread_id :: "(128 word \<Rightarrow> nat) \<Rightarrow> (128 word \<Rightarrow> bool) \<Rightarrow> string \<Rightarrow> string + string" where
  "parse_thread_id version rfc4122 value =
     (if length value \<noteq> TOTAL_LENGTH \<or> \<not> prefix thread_id_prefix value
      then Inl ''expected rvcamp_ followed by 26 canonical base32 characters''
      else
        (case decode_suffix 0 0 (drop (length thread_id_prefix) value) of
           Inl e \<Rightarrow> Inl e
         | Inr uuid \<Rightarrow>
             if version uuid \<noteq> 7 then Inl ''payload is not UUIDv7''
             else if \<not> rfc4122 uuid then Inl ''payload does not use the RFC 4122 variant''
             else Inr value))"

text \<open>The digits from the last one to the first, in the order of the text.\<close>

fun encode_digits :: "nat \<Rightarrow> 128 word \<Rightarrow> string" where
  "encode_digits 0 v = []"
| "encode_digits (Suc n) v = encode_digits n (drop_bit 5 v) @ [CROCKFORD ! unat (v AND 31)]"

definition encode_uuid :: "128 word \<Rightarrow> string" where
  "encode_uuid uuid = encode_digits SUFFIX_LENGTH uuid"

definition from_uuid_v7 :: "128 word \<Rightarrow> string" where
  "from_uuid_v7 uuid = thread_id_prefix @ encode_uuid uuid"

section \<open>The alphabet\<close>

lemma crockford_table: "list_all (\<lambda>i. crockford_value (CROCKFORD ! i) = Some i) [0..<32]"
  by code_simp

lemma crockford_nth: "i < 32 \<Longrightarrow> crockford_value (CROCKFORD ! i) = Some i"
  using crockford_table by (simp add: list_all_iff)

lemma crockford_length: "length CROCKFORD = 32"
  by (simp add: CROCKFORD_def)

lemma crockford_Some: "crockford_value c = Some i \<Longrightarrow> i < 32 \<and> CROCKFORD ! i = c"
proof -
  assume "crockford_value c = Some i"
  then obtain j d where "find (\<lambda>(i, d). d = c) (enumerate 0 CROCKFORD) = Some (j, d)" "j = i"
    by (auto simp: crockford_value_def)
  then have "(i, d) \<in> set (enumerate 0 CROCKFORD)" "d = c"
    unfolding find_Some_iff by (auto simp del: nth_enumerate_eq) (metis length_enumerate nth_mem)
  then show ?thesis by (auto simp: in_set_enumerate_eq crockford_length)
qed

lemma low_digit: "v AND 31 = take_bit 5 (v :: 128 word)"
  by (simp add: take_bit_eq_mask mask_eq_exp_minus_1)

lemma digit_less: "unat (v AND 31 :: 128 word) < 32"
  by (simp only: low_digit unsigned_take_bit_eq, simp add: take_bit_eq_mod)

section \<open>Decoding what was encoded\<close>

lemma decode_append:
  "decode_suffix i acc (xs @ ys) = (case decode_suffix i acc xs of Inl e \<Rightarrow> Inl e | Inr w \<Rightarrow> decode_suffix (i + length xs) w ys)"
proof (induction xs arbitrary: i acc)
  case (Cons c xs)
  have "Suc i + length xs = i + length (c # xs)" by simp
  then show ?case using Cons.IH [of "Suc i"] by (auto split: option.split sum.split)
qed simp

lemma encode_length [simp]: "length (encode_digits n v) = n"
  by (induction n arbitrary: v) simp_all

lemma shift_in: "push_bit 5 (push_bit (5 * n) acc OR take_bit (5 * n) (drop_bit 5 v)) OR (v AND 31)
    = push_bit (5 * Suc n) acc OR take_bit (5 * Suc n) (v :: 128 word)"
  unfolding low_digit by (intro bit_word_eqI) (auto simp: bit_simps)

lemma decode_digits:
  "0 < i \<Longrightarrow> decode_suffix i acc (encode_digits n v) = Inr (push_bit (5 * n) acc OR take_bit (5 * n) v)"
proof (induction n arbitrary: v)
  case (Suc n)
  have "crockford_value (CROCKFORD ! unat (v AND 31)) = Some (unat (v AND 31))"
    using digit_less by (rule crockford_nth)
  with Suc have "decode_suffix i acc (encode_digits (Suc n) v) =
      Inr (push_bit 5 (push_bit (5 * n) acc OR take_bit (5 * n) (drop_bit 5 v)) OR (v AND 31))"
    by (simp add: decode_append)
  then show ?case by (simp only: shift_in)
qed simp

lemma encode_first: "encode_digits (Suc n) v = CROCKFORD ! unat (drop_bit (5 * n) v AND 31) # encode_digits n v"
proof (induction n arbitrary: v)
  case (Suc n)
  have "encode_digits (Suc (Suc n)) v = encode_digits (Suc n) (drop_bit 5 v) @ [CROCKFORD ! unat (v AND 31)]" by simp
  also have "encode_digits (Suc n) (drop_bit 5 v)
      = CROCKFORD ! unat (drop_bit (5 * n) (drop_bit 5 v) AND 31) # encode_digits n (drop_bit 5 v)" by (rule Suc.IH)
  also have "drop_bit (5 * n) (drop_bit 5 v) = drop_bit (5 * Suc n) v" by (simp add: add.commute)
  finally show ?case by simp
qed simp

lemma top_digit: "unat (drop_bit 125 v AND 31 :: 128 word) \<le> 7" "drop_bit 125 v AND 31 = drop_bit 125 (v :: 128 word)"
proof -
  show same: "drop_bit 125 v AND 31 = drop_bit 125 v"
    unfolding low_digit by (intro bit_word_eqI) (auto simp: bit_simps dest: bit_imp_le_length)
  have "drop_bit 125 v = take_bit 3 (drop_bit 125 v)"
    by (intro bit_word_eqI) (auto simp: bit_simps dest: bit_imp_le_length)
  then have "unat (drop_bit 125 v) = take_bit 3 (unat (drop_bit 125 v))" by (metis unsigned_take_bit_eq)
  also have "\<dots> < 8" by (simp add: take_bit_eq_mod)
  finally show "unat (drop_bit 125 v AND 31) \<le> 7" by (simp add: same)
qed

lemma decode_encode: "decode_suffix 0 0 (encode_uuid v) = Inr v"
proof -
  let ?d = "unat (drop_bit 125 v AND 31)"
  have "encode_uuid v = CROCKFORD ! ?d # encode_digits 25 v"
    using encode_first [of 25 v] by (simp add: encode_uuid_def SUFFIX_LENGTH_def eval_nat_numeral del: encode_digits.simps)
  moreover have "crockford_value (CROCKFORD ! ?d) = Some ?d" using digit_less by (rule crockford_nth)
  moreover have "push_bit 125 (drop_bit 125 v) OR take_bit 125 v = v"
    by (intro bit_word_eqI) (auto simp: bit_simps)
  ultimately show ?thesis using top_digit [of v] decode_digits [of 1 "drop_bit 125 v" 25 v] by simp
qed

section \<open>Encoding what was decoded\<close>

lemma small_bits: "d < 2 ^ m \<Longrightarrow> bit (d :: nat) k \<Longrightarrow> k < m"
proof -
  assume d: "d < 2 ^ m" and b: "bit d k"
  have "take_bit m d = d" using d by (simp add: take_bit_nat_eq_self)
  then show "k < m" using b by (metis bit_take_bit_iff)
qed

lemma encode_low_bits: "take_bit (5 * m) x = take_bit (5 * m) y \<Longrightarrow> encode_digits m x = encode_digits m y"
proof (induction m arbitrary: x y)
  case (Suc m)
  have low: "bit x k = bit y k" if "k < 5 * Suc m" for k
  proof -
    have "bit (take_bit (5 * Suc m) x) k = bit (take_bit (5 * Suc m) y) k" by (simp only: Suc.prems)
    with that show ?thesis by (simp add: bit_take_bit_iff)
  qed
  have "take_bit 5 x = take_bit 5 y"
  proof (rule bit_word_eqI)
    fix n
    show "bit (take_bit 5 x) n = bit (take_bit 5 y) n" using low [of n] by (auto simp: bit_take_bit_iff)
  qed
  then have "x AND 31 = y AND 31" by (simp only: low_digit)
  moreover have "take_bit (5 * m) (drop_bit 5 x) = take_bit (5 * m) (drop_bit 5 y)"
  proof (rule bit_word_eqI)
    fix n
    show "bit (take_bit (5 * m) (drop_bit 5 x)) n = bit (take_bit (5 * m) (drop_bit 5 y)) n"
      using low [of "5 + n"] by (auto simp: bit_take_bit_iff bit_drop_bit_eq)
  qed
  then have "encode_digits m (drop_bit 5 x) = encode_digits m (drop_bit 5 y)" by (rule Suc.IH)
  ultimately show ?case by (simp only: encode_digits.simps)
qed simp

lemma decode_bits:
  assumes "decode_suffix i acc cs = Inr w" "0 < i" "length cs \<le> 25"
  shows "w = push_bit (5 * length cs) acc OR take_bit (5 * length cs) w \<and> encode_digits (length cs) w = cs"
  using assms
proof (induction cs arbitrary: w rule: rev_induct)
  case (snoc c cs)
  let ?n = "length cs"
  obtain u where u: "decode_suffix i acc cs = Inr u" using snoc.prems(1) by (auto simp: decode_append split: sum.splits)
  obtain d where d: "crockford_value c = Some d" "w = push_bit 5 u OR word_of_nat d"
    using snoc.prems(1,2) u by (auto simp: decode_append split: option.splits)
  have c: "d < 32" "CROCKFORD ! d = c" using crockford_Some [OF d(1)] by simp_all
  have ih: "u = push_bit (5 * ?n) acc OR take_bit (5 * ?n) u" "encode_digits ?n u = cs"
    using snoc.IH [OF u snoc.prems(2)] snoc.prems(3) by simp_all
  have dw: "unat (word_of_nat d :: 128 word) = d" using c(1) by (simp add: unat_of_nat)
  have small: "bit d k \<Longrightarrow> k < 5" for k using small_bits [of d 5] c(1) by simp
  have "w AND 31 = word_of_nat d"
    unfolding low_digit d(2) by (intro bit_word_eqI) (auto simp: bit_simps dest: small)
  then have last_digit: "CROCKFORD ! unat (w AND 31) = c" using c dw by simp
  have shifted: "take_bit (5 * ?n) (drop_bit 5 w) = take_bit (5 * ?n) u"
    unfolding d(2) using snoc.prems(3) by (intro bit_word_eqI) (auto simp: bit_simps dest: small)
  have "encode_digits (length (cs @ [c])) w = cs @ [c]" using ih(2) encode_low_bits [OF shifted] last_digit by simp
  moreover have "w = push_bit 5 (push_bit (5 * ?n) acc OR take_bit (5 * ?n) (drop_bit 5 w)) OR (w AND 31)"
    using ih(1) \<open>w AND 31 = word_of_nat d\<close> shifted d(2) by metis
  then have "w = push_bit (5 * Suc ?n) acc OR take_bit (5 * Suc ?n) w" by (simp only: shift_in)
  ultimately show ?case by simp
qed simp

lemma encode_decode:
  assumes "decode_suffix 0 0 cs = Inr w" "length cs = SUFFIX_LENGTH"
  shows "encode_uuid w = cs"
proof -
  obtain c rest where cs: "cs = c # rest" "length rest = 25" using assms(2) by (cases cs) (auto simp: SUFFIX_LENGTH_def)
  then obtain d where d: "crockford_value c = Some d" "d \<le> 7" "decode_suffix 1 (word_of_nat d) rest = Inr w"
    using assms(1) by (auto split: option.splits if_split_asm)
  have b: "w = push_bit 125 (word_of_nat d) OR take_bit 125 w" "encode_digits 25 w = rest"
    using decode_bits [OF d(3)] cs(2) by simp_all
  have "unat (word_of_nat d :: 128 word) = d" using d(2) by (simp add: unat_of_nat)
  moreover have "drop_bit 125 w AND 31 = word_of_nat d"
  proof -
    define D where "D = (word_of_nat d :: 128 word)"
    have small: "k < 3" if "bit D k" for k
      using that small_bits [of d 3 k] d(2) by (simp add: D_def bit_simps)
    have w: "bit w n = bit (push_bit 125 D OR take_bit 125 w) n" for n using b(1) by (simp only: D_def)
    have "bit (take_bit 5 (drop_bit 125 w)) n = bit D n" if "n < LENGTH(128)" for n
      using w [of "125 + n"] small [of n] that
      by (auto simp: bit_take_bit_iff bit_drop_bit_eq bit_or_iff bit_push_bit_iff dest: bit_imp_le_length)
    then show ?thesis unfolding low_digit D_def by (intro bit_word_eqI) blast
  qed
  ultimately have "CROCKFORD ! unat (drop_bit 125 w AND 31) = c" using crockford_Some [OF d(1)] by simp
  then show ?thesis
    using encode_first [of 25 w] b(2) cs(1) by (simp add: encode_uuid_def SUFFIX_LENGTH_def eval_nat_numeral del: encode_digits.simps)
qed

lemma encode_length_uuid: "length (encode_uuid v) = SUFFIX_LENGTH"
  by (simp add: encode_uuid_def)

text \<open>
  C35: A text is the identity of a conversation exactly if it is the one spelling of a UUID that has version 7 and the
  variant of RFC 4122; the parser returns it unchanged, and different UUIDs have different spellings.
\<close>

theorem thread_id_exact:
  "(parse_thread_id version rfc4122 s = Inr t
      \<longleftrightarrow> t = s \<and> (\<exists>v. version v = 7 \<and> rfc4122 v \<and> s = from_uuid_v7 v))
    \<and> inj from_uuid_v7"
proof
  show "parse_thread_id version rfc4122 s = Inr t \<longleftrightarrow> t = s \<and> (\<exists>v. version v = 7 \<and> rfc4122 v \<and> s = from_uuid_v7 v)"
  proof
    assume ok: "parse_thread_id version rfc4122 s = Inr t"
    then have s: "length s = TOTAL_LENGTH" "prefix thread_id_prefix s"
      by (simp_all add: parse_thread_id_def split: if_split_asm)
    then obtain cs where cs: "s = thread_id_prefix @ cs" by (auto simp: prefix_def)
    with ok s obtain v where v: "decode_suffix 0 0 cs = Inr v" "version v = 7" "rfc4122 v" "t = s"
      by (auto simp: parse_thread_id_def split: sum.splits if_split_asm)
    moreover have "length cs = SUFFIX_LENGTH" using s(1) cs by (simp add: TOTAL_LENGTH_def)
    ultimately show "t = s \<and> (\<exists>v. version v = 7 \<and> rfc4122 v \<and> s = from_uuid_v7 v)"
      using cs encode_decode by (auto simp: from_uuid_v7_def)
  next
    assume "t = s \<and> (\<exists>v. version v = 7 \<and> rfc4122 v \<and> s = from_uuid_v7 v)"
    then show "parse_thread_id version rfc4122 s = Inr t"
      by (auto simp: parse_thread_id_def from_uuid_v7_def TOTAL_LENGTH_def encode_length_uuid decode_encode)
  qed
  show "inj from_uuid_v7"
    by (rule injI) (metis decode_encode from_uuid_v7_def same_append_eq sum.inject(2))
qed

lemma uuid_example: "from_uuid_v7 0x0192A3B4C5D67ABC8123456789ABCDEF = ''rvcamp_01jahv9hepfay828t5cy4tqkff''"
  by code_simp

end
