(* ===== verification/Runtime_Pricing.thy ===== *)
theory Runtime_Pricing
  imports Prelude
begin

text \<open>
  What a run of Codex would have cost, from \<^verbatim>\<open>crates/rovai-core/src/runtime_pricing.rs\<close>: the catalogue of rates by
  model, tier and date, and the estimate in dollars, exact to the nanodollar. A date is year, month and day.
\<close>

section \<open>Catalogue\<close>

definition NANODOLLARS_PER_DOLLAR :: nat where "NANODOLLARS_PER_DOLLAR = 1000000000"

record CodexTokenBuckets =
  uncached_input :: int
  cache_read :: int
  cache_write :: int
  output_count :: int

record PriceEstimate =
  amount_decimal :: string
  catalog_version :: string

datatype PricingTier = Standard | Fast

type_synonym date = "int \<times> nat \<times> nat"

record CatalogRate =
  model_keys :: "string list"
  effective_date :: date
  rate_tier :: PricingTier
  uncached_input_nanos_per_token :: nat
  cache_read_nanos_per_token :: nat
  cache_write_nanos_per_token :: nat
  output_nanos_per_token :: nat
  rate_version :: string

abbreviation catalog_rate ::
    "string list \<Rightarrow> date \<Rightarrow> PricingTier \<Rightarrow> nat \<Rightarrow> nat \<Rightarrow> nat \<Rightarrow> nat \<Rightarrow> string \<Rightarrow> CatalogRate" where
  "catalog_rate keys d tier i r w out v \<equiv>
     \<lparr>model_keys = keys, effective_date = d, rate_tier = tier, uncached_input_nanos_per_token = i,
      cache_read_nanos_per_token = r, cache_write_nanos_per_token = w, output_nanos_per_token = out, rate_version = v\<rparr>"

definition CODEX_PRICING_CATALOG :: "CatalogRate list" where
  "CODEX_PRICING_CATALOG =
    [
     catalog_rate [''gpt-5.4'', ''gpt-5.4-2026-03-05''] (2026, 3, 5) Standard 2500 250 2500 15000 ''openai-api-standard-2026-03-05-gpt-5.4'',
     catalog_rate [''gpt-5.4-mini'', ''gpt-5.4-mini-2026-03-17''] (2026, 3, 17) Standard 750 75 750 4500 ''openai-api-standard-2026-03-17-gpt-5.4-mini'',
     catalog_rate [''gpt-5.5'', ''gpt-5.5-2026-04-23''] (2026, 4, 23) Standard 5000 500 5000 30000 ''openai-api-standard-2026-04-23-gpt-5.5'',
     catalog_rate [''gpt-5.6'', ''gpt-5.6-sol''] (2026, 7, 9) Standard 5000 500 6250 30000 ''openai-api-standard-2026-07-09-gpt-5.6-sol'',
     catalog_rate [''gpt-5.6-terra''] (2026, 7, 9) Standard 2500 250 3125 15000 ''openai-api-standard-2026-07-09-gpt-5.6-terra'',
     catalog_rate [''gpt-5.6-luna''] (2026, 7, 9) Standard 1000 100 1250 6000 ''openai-api-standard-2026-07-09-gpt-5.6-luna'',
     catalog_rate [''gpt-5.6-terra''] (2026, 7, 30) Standard 2000 200 2500 12000 ''openai-api-standard-2026-07-30-gpt-5.6-terra'',
     catalog_rate [''gpt-5.6-luna''] (2026, 7, 30) Standard 200 20 250 1200 ''openai-api-standard-2026-07-30-gpt-5.6-luna'',
     catalog_rate [''gpt-5.6'', ''gpt-5.6-sol''] (2026, 7, 30) Fast 10000 1000 12500 60000 ''openai-api-fast-2026-07-30-gpt-5.6-sol'',
     catalog_rate [''gpt-5.6-terra''] (2026, 7, 30) Fast 4000 400 5000 24000 ''openai-api-fast-2026-07-30-gpt-5.6-terra'',
     catalog_rate [''gpt-5.6-luna''] (2026, 7, 30) Fast 400 40 500 2400 ''openai-api-fast-2026-07-30-gpt-5.6-luna'',
     catalog_rate [''gpt-5.5'', ''gpt-5.5-2026-04-23''] (2026, 7, 30) Fast 12500 1250 12500 75000 ''openai-api-fast-2026-07-30-gpt-5.5'',
     catalog_rate [''gpt-5.4'', ''gpt-5.4-2026-03-05''] (2026, 7, 30) Fast 5000 500 5000 30000 ''openai-api-fast-2026-07-30-gpt-5.4'',
     catalog_rate [''gpt-5.4-mini'', ''gpt-5.4-mini-2026-03-17''] (2026, 7, 30) Fast 1500 150 1500 9000 ''openai-api-fast-2026-07-30-gpt-5.4-mini'']"

section \<open>Rates\<close>

text \<open>Dates in the order of the calendar.\<close>

definition date_le :: "date \<Rightarrow> date \<Rightarrow> bool" where
  "date_le a b =
     (case (a, b) of ((y, m, d), (y', m', d')) \<Rightarrow> y < y' \<or> y = y' \<and> (m < m' \<or> m = m' \<and> d \<le> d'))"

definition tier_of :: "string option \<Rightarrow> PricingTier option" where
  "tier_of service_tier =
     (case service_tier of
        None \<Rightarrow> None
      | Some t \<Rightarrow>
          if trim t \<in> {''standard'', ''default''} then Some Standard
          else if trim t \<in> {''fast'', ''priority''} then Some Fast
          else None)"

text \<open>\<open>Iterator::max_by_key\<close> gives the last of the greatest.\<close>

fun latest_rate :: "CatalogRate list \<Rightarrow> CatalogRate option" where
  "latest_rate [] = None"
| "latest_rate (r # rs) =
     (case latest_rate rs of
        None \<Rightarrow> Some r
      | Some s \<Rightarrow> if date_le (effective_date r) (effective_date s) then Some s else Some r)"

definition rate_for :: "string option \<Rightarrow> string option \<Rightarrow> date \<Rightarrow> CatalogRate option" where
  "rate_for model_key service_tier at_date =
     (case (model_key, tier_of service_tier) of
        (Some m, Some tier) \<Rightarrow>
          latest_rate (filter (\<lambda>r. rate_tier r = tier \<and> trim m \<in> set (model_keys r) \<and> date_le (effective_date r) at_date)
            CODEX_PRICING_CATALOG)
      | _ \<Rightarrow> None)"

definition supports_codex_price_estimate :: "string option \<Rightarrow> string option \<Rightarrow> date \<Rightarrow> bool" where
  "supports_codex_price_estimate model_key service_tier at_date = (rate_for model_key service_tier at_date \<noteq> None)"

section \<open>Estimates\<close>

text \<open>\<open>trim_end_matches\<close> and the format with nine digits\<close>

definition trim_zeros :: "string \<Rightarrow> string" where
  "trim_zeros s = rev (dropWhile (\<lambda>c. c = CHR ''0'') (rev s))"

definition pad_nine :: "nat \<Rightarrow> string" where
  "pad_nine n = replicate (9 - length (dec n)) CHR ''0'' @ dec n"

definition format_usd_nanos :: "nat \<Rightarrow> string" where
  "format_usd_nanos value =
     (let whole = value div NANODOLLARS_PER_DOLLAR; remainder = value mod NANODOLLARS_PER_DOLLAR in
      if remainder = 0 then dec whole else dec whole @ ''.'' @ trim_zeros (pad_nine remainder))"

definition checked_u128 :: "nat \<Rightarrow> nat option" where
  "checked_u128 n = (if n < 2 ^ 128 then Some n else None)"

fun total_nanos :: "nat \<Rightarrow> (int \<times> nat) list \<Rightarrow> nat option" where
  "total_nanos acc [] = Some acc"
| "total_nanos acc ((tokens, nanos_per_token) # cs) =
     (if tokens < 0 then None
      else Option.bind (checked_u128 (nat tokens * nanos_per_token)) (\<lambda>p.
        Option.bind (checked_u128 (acc + p)) (\<lambda>t. total_nanos t cs)))"

definition estimate_codex_api_price ::
    "string option \<Rightarrow> string option \<Rightarrow> date \<Rightarrow> CodexTokenBuckets \<Rightarrow> PriceEstimate option" where
  "estimate_codex_api_price model_key service_tier at_date tokens =
     Option.bind (rate_for model_key service_tier at_date) (\<lambda>rate.
       map_option (\<lambda>total. \<lparr>amount_decimal = format_usd_nanos total, catalog_version = rate_version rate\<rparr>)
         (total_nanos 0
           [(uncached_input tokens, uncached_input_nanos_per_token rate), (cache_read tokens, cache_read_nanos_per_token rate),
            (cache_write tokens, cache_write_nanos_per_token rate), (output_count tokens, output_nanos_per_token rate)]))"

section \<open>The rate in force\<close>

lemma date_le_refl: "date_le a a"
  by (cases a) (simp add: date_le_def)

lemma date_le_trans: "date_le a b \<Longrightarrow> date_le b c \<Longrightarrow> date_le a c"
  by (cases a; cases b; cases c) (auto simp: date_le_def)

lemma date_le_linear: "date_le a b \<or> date_le b a"
  by (cases a; cases b) (auto simp: date_le_def)

lemma latest_rate_None: "latest_rate rs = None \<longleftrightarrow> rs = []"
  by (cases rs) (auto split: option.splits)

lemma latest_rate_Some:
  "latest_rate rs = Some r \<Longrightarrow> r \<in> set rs \<and> (\<forall>s \<in> set rs. date_le (effective_date s) (effective_date r))"
proof (induction rs arbitrary: r)
  case (Cons s rs)
  show ?case
  proof (cases "latest_rate rs")
    case None
    with Cons.prems show ?thesis by (simp add: latest_rate_None date_le_refl)
  next
    case (Some t)
    note t = Cons.IH [OF Some]
    show ?thesis
    proof (cases "date_le (effective_date s) (effective_date t)")
      case True
      with Cons.prems Some t show ?thesis by simp
    next
      case False
      then have "date_le (effective_date t) (effective_date s)" using date_le_linear by blast
      with Cons.prems Some t False show ?thesis by (auto intro: date_le_trans date_le_refl)
    qed
  qed
qed simp

lemma catalog_rates: "list_all (\<lambda>r. uncached_input_nanos_per_token r < 2 ^ 17 \<and> cache_read_nanos_per_token r < 2 ^ 17
    \<and> cache_write_nanos_per_token r < 2 ^ 17 \<and> output_nanos_per_token r < 2 ^ 17) CODEX_PRICING_CATALOG"
  by (simp add: CODEX_PRICING_CATALOG_def)

section \<open>Decimal amounts\<close>

text \<open>The nanodollars that a decimal amount of dollars means.\<close>

definition usd_nanos :: "string \<Rightarrow> nat" where
  "usd_nanos s =
     (let whole = takeWhile (\<lambda>c. c \<noteq> CHR ''.'') s; fraction = drop 1 (dropWhile (\<lambda>c. c \<noteq> CHR ''.'') s) in
      digits_value whole * NANODOLLARS_PER_DOLLAR + digits_value (fraction @ replicate (9 - length fraction) CHR ''0''))"

lemma digits_value_append: "digits_value (s @ t) = digits_value s * 10 ^ length t + digits_value t"
proof (induction t rule: rev_induct)
  case (snoc c t)
  have "digits_value (s @ t @ [c]) = 10 * digits_value (s @ t) + (of_char c - 48)"
    using digits_value_snoc [of "s @ t" c] by simp
  with snoc show ?case by (simp add: digits_value_snoc algebra_simps)
qed (simp add: digits_value_def)

lemma digits_value_zeros: "digits_value (replicate n CHR ''0'') = 0"
  by (induction n) (simp_all add: digits_value_def)

lemma trim_zeros_pad:
  "length s = n \<Longrightarrow> trim_zeros s @ replicate (n - length (trim_zeros s)) CHR ''0'' = s"
proof -
  assume n: "length s = n"
  define z where "z = takeWhile (\<lambda>c. c = CHR ''0'') (rev s)"
  have "list_all (\<lambda>c. c = CHR ''0'') z" by (auto simp: z_def list_all_iff dest: set_takeWhileD)
  then have "z = replicate (length z) CHR ''0''" by (induction z) auto
  moreover have "s = trim_zeros s @ rev z"
    unfolding trim_zeros_def z_def by (metis rev_append rev_rev_ident takeWhile_dropWhile_id)
  ultimately show ?thesis using n by (metis add_diff_cancel_left' length_append length_rev rev_replicate)
qed

lemma usd_roundtrip: "usd_nanos (format_usd_nanos n) = n"
proof -
  let ?w = "n div NANODOLLARS_PER_DOLLAR" and ?r = "n mod NANODOLLARS_PER_DOLLAR"
  have digits: "c \<noteq> CHR ''.''" if "c \<in> set (dec m)" for c m
    using dec_digits [of m] that by (auto simp: list_all_iff is_ascii_digit_def)
  have n: "?w * NANODOLLARS_PER_DOLLAR + ?r = n" by simp
  show ?thesis
  proof (cases "?r = 0")
    case True
    have parts: "takeWhile (\<lambda>c. c \<noteq> CHR ''.'') (dec ?w) = dec ?w" "dropWhile (\<lambda>c. c \<noteq> CHR ''.'') (dec ?w) = []"
      unfolding takeWhile_eq_all_conv dropWhile_eq_Nil_conv using digits by blast+
    have "format_usd_nanos n = dec ?w" using True by (simp add: format_usd_nanos_def Let_def)
    then show ?thesis unfolding usd_nanos_def Let_def parts using True n
      by (simp only: parts) (simp add: digits_value_dec digits_value_zeros)
  next
    case False
    let ?f = "trim_zeros (pad_nine ?r)"
    have "?r < 10 ^ 9" by (simp add: NANODOLLARS_PER_DOLLAR_def)
    then have "length (pad_nine ?r) = 9" using dec_length [of 9 ?r] by (simp add: pad_nine_def)
    then have "?f @ replicate (9 - length ?f) CHR ''0'' = pad_nine ?r" by (rule trim_zeros_pad)
    moreover have "digits_value (pad_nine ?r) = ?r"
      by (simp add: pad_nine_def digits_value_append digits_value_zeros digits_value_dec)
    ultimately have fraction: "digits_value (?f @ replicate (9 - length ?f) CHR ''0'') = ?r" by simp
    have parts: "takeWhile (\<lambda>c. c \<noteq> CHR ''.'') (dec ?w @ ''.'' @ ?f) = dec ?w"
        "dropWhile (\<lambda>c. c \<noteq> CHR ''.'') (dec ?w @ ''.'' @ ?f) = ''.'' @ ?f"
      using digits by (simp_all add: takeWhile_append dropWhile_append)
    have "format_usd_nanos n = dec ?w @ ''.'' @ ?f" using False by (simp add: format_usd_nanos_def Let_def)
    then have "usd_nanos (format_usd_nanos n) = digits_value (dec ?w) * NANODOLLARS_PER_DOLLAR
        + digits_value (?f @ replicate (9 - length ?f) CHR ''0'')"
      unfolding usd_nanos_def Let_def by (simp only: parts) simp
    then show ?thesis using n by (simp only: fraction digits_value_dec)
  qed
qed

section \<open>Exactness\<close>

definition exact_nanos :: "CatalogRate \<Rightarrow> CodexTokenBuckets \<Rightarrow> int" where
  "exact_nanos r t = uncached_input t * int (uncached_input_nanos_per_token r) + cache_read t * int (cache_read_nanos_per_token r)
     + cache_write t * int (cache_write_nanos_per_token r) + output_count t * int (output_nanos_per_token r)"

definition i64_tokens :: "CodexTokenBuckets \<Rightarrow> bool" where
  "i64_tokens t = list_all (\<lambda>n. - (2 ^ 63) \<le> n \<and> n < 2 ^ 63) [uncached_input t, cache_read t, cache_write t, output_count t]"

definition no_negative :: "CodexTokenBuckets \<Rightarrow> bool" where
  "no_negative t = list_all (\<lambda>n. 0 \<le> n) [uncached_input t, cache_read t, cache_write t, output_count t]"

lemma total_nanos_exact:
  assumes "list_all (\<lambda>(n, p). n < 2 ^ 63 \<and> p < 2 ^ 17) cs" "acc + length cs * 2 ^ 80 < 2 ^ 128"
  shows "total_nanos acc cs =
    (if list_all (\<lambda>(n, p). 0 \<le> n) cs then Some (nat (int acc + sum_list (map (\<lambda>(n, p). n * int p) cs))) else None)"
  using assms
proof (induction cs arbitrary: acc)
  case (Cons c cs)
  obtain n p where c: "c = (n, p)" by (cases c)
  show ?case
  proof (cases "n < 0")
    case False
    with Cons.prems c have n: "nat n < 2 ^ 63" "p < 2 ^ 17" by auto
    then have "nat n * p \<le> 2 ^ 63 * 2 ^ 17" by (intro mult_le_mono) simp_all
    then have "nat n * p \<le> 2 ^ 80" by simp
    moreover have "acc + 2 ^ 80 + length cs * 2 ^ 80 < 2 ^ 128" using Cons.prems(2) by simp
    ultimately have small: "nat n * p < 2 ^ 128" "acc + nat n * p < 2 ^ 128" "acc + nat n * p + length cs * 2 ^ 80 < 2 ^ 128"
      by linarith+
    have "int (acc + nat n * p) = int acc + n * int p" using False by simp
    with Cons.IH [OF _ small(3)] Cons.prems(1) c False small(1,2) show ?thesis
      by (simp add: checked_u128_def add.assoc)
  qed (use c in simp)
qed simp

lemma rate_in_catalog: "rate_for m s d = Some r \<Longrightarrow> r \<in> set CODEX_PRICING_CATALOG"
  by (auto simp: rate_for_def split: option.splits dest!: latest_rate_Some)

text \<open>
  C36: An estimate is exact: for any counts of 64 bits there is one exactly if a rate is in force and no count is
  negative, it names the version of that rate, and its decimal text means the products of the counts and the rates, to
  the nanodollar; no intermediate result overflows.
\<close>

theorem price_exact:
  assumes "i64_tokens t"
  shows "case rate_for m s d of
      None \<Rightarrow> estimate_codex_api_price m s d t = None
    | Some r \<Rightarrow>
        if no_negative t
        then \<exists>e. estimate_codex_api_price m s d t = Some e \<and> catalog_version e = rate_version r
          \<and> int (usd_nanos (amount_decimal e)) = exact_nanos r t
        else estimate_codex_api_price m s d t = None"
proof (cases "rate_for m s d")
  case None
  then show ?thesis by (simp add: estimate_codex_api_price_def)
next
  case (Some r)
  let ?cs = "[(uncached_input t, uncached_input_nanos_per_token r), (cache_read t, cache_read_nanos_per_token r),
      (cache_write t, cache_write_nanos_per_token r), (output_count t, output_nanos_per_token r)]"
  have "list_all (\<lambda>(n, p). n < 2 ^ 63 \<and> p < 2 ^ 17) ?cs"
    using assms catalog_rates rate_in_catalog [OF Some] by (simp add: i64_tokens_def list_all_iff)
  then have "total_nanos 0 ?cs = (if list_all (\<lambda>(n, p). 0 \<le> n) ?cs
      then Some (nat (int 0 + sum_list (map (\<lambda>(n, p). n * int p) ?cs))) else None)"
    by (rule total_nanos_exact) simp
  also have "\<dots> = (if no_negative t then Some (nat (exact_nanos r t)) else None)"
    by (simp add: no_negative_def exact_nanos_def add.assoc)
  finally have exact: "total_nanos 0 ?cs = (if no_negative t then Some (nat (exact_nanos r t)) else None)" .
  have "0 \<le> exact_nanos r t" if "no_negative t" using that by (simp add: no_negative_def exact_nanos_def)
  then show ?thesis using Some exact by (simp add: estimate_codex_api_price_def usd_roundtrip)
qed

text \<open>No two rates of the catalogue are for the same model, tier and date.\<close>

fun unambiguous :: "CatalogRate list \<Rightarrow> bool" where
  "unambiguous [] = True"
| "unambiguous (r # rs) =
     (list_all (\<lambda>q. effective_date q \<noteq> effective_date r \<or> rate_tier q \<noteq> rate_tier r \<or> list_all (\<lambda>k. k \<notin> set (model_keys q)) (model_keys r)) rs
      \<and> unambiguous rs)"

lemma catalog_unambiguous: "unambiguous CODEX_PRICING_CATALOG"
  by (simp add: CODEX_PRICING_CATALOG_def)

lemma unambiguous_eq:
  "unambiguous rs \<Longrightarrow> q \<in> set rs \<Longrightarrow> r \<in> set rs \<Longrightarrow> effective_date q = effective_date r \<Longrightarrow> rate_tier q = rate_tier r
    \<Longrightarrow> k \<in> set (model_keys q) \<Longrightarrow> k \<in> set (model_keys r) \<Longrightarrow> q = r"
  by (induction rs) (auto simp: list_all_iff)

lemma date_le_antisym: "date_le a b \<Longrightarrow> date_le b a \<Longrightarrow> a = b"
  by (cases a; cases b) (auto simp: date_le_def)

definition effective :: "PricingTier \<Rightarrow> string \<Rightarrow> date \<Rightarrow> CatalogRate \<Rightarrow> bool" where
  "effective tier m d r = (r \<in> set CODEX_PRICING_CATALOG \<and> rate_tier r = tier \<and> trim m \<in> set (model_keys r)
     \<and> date_le (effective_date r) d)"

lemma effective_unique:
  assumes "effective tier m d q" "effective tier m d r" "effective_date q = effective_date r"
  shows "q = r"
  using assms by (intro unambiguous_eq [OF catalog_unambiguous, where k = "trim m"]) (simp_all add: effective_def)

text \<open>
  The rate in force is the newest of the catalogue for the model and the tier, and there is no doubt which one that
  is: it is found exactly if it is listed, fits, is effective, and any other one that is effective is older.
\<close>

theorem rate_in_force:
  assumes "tier_of s = Some tier"
  shows "rate_for (Some m) s d = Some r \<longleftrightarrow>
    effective tier m d r \<and> (\<forall>q. effective tier m d q \<longrightarrow> date_le (effective_date q) (effective_date r))"
proof -
  let ?rs = "filter (\<lambda>r. rate_tier r = tier \<and> trim m \<in> set (model_keys r) \<and> date_le (effective_date r) d) CODEX_PRICING_CATALOG"
  have found: "rate_for (Some m) s d = latest_rate ?rs" using assms by (simp add: rate_for_def)
  have fits: "q \<in> set ?rs \<longleftrightarrow> effective tier m d q" for q by (auto simp: effective_def)
  show ?thesis
  proof
    assume "rate_for (Some m) s d = Some r"
    with found have "latest_rate ?rs = Some r" by simp
    from latest_rate_Some [OF this]
    show "effective tier m d r \<and> (\<forall>q. effective tier m d q \<longrightarrow> date_le (effective_date q) (effective_date r))"
      unfolding fits [symmetric] by blast
  next
    assume r: "effective tier m d r \<and> (\<forall>q. effective tier m d q \<longrightarrow> date_le (effective_date q) (effective_date r))"
    then have "r \<in> set ?rs" using fits by blast
    then have "?rs \<noteq> []" by (metis empty_iff empty_set)
    then obtain q where q: "latest_rate ?rs = Some q" using latest_rate_None [of ?rs] by blast
    from latest_rate_Some [OF q] have "effective tier m d q" "date_le (effective_date r) (effective_date q)"
      using fits \<open>r \<in> set ?rs\<close> by blast+
    moreover from this r have "date_le (effective_date q) (effective_date r)" by blast
    ultimately have "q = r" using r effective_unique date_le_antisym by blast
    with q found show "rate_for (Some m) s d = Some r" by simp
  qed
qed

section \<open>An estimate\<close>

definition a_run :: CodexTokenBuckets where
  "a_run = \<lparr>uncached_input = 1000, cache_read = 0, cache_write = 0, output_count = 3\<rparr>"

definition luna_rate :: CatalogRate where
  "luna_rate = catalog_rate [''gpt-5.6-luna''] (2026, 7, 30) Standard 200 20 250 1200 ''openai-api-standard-2026-07-30-gpt-5.6-luna''"

lemma luna_rate: "rate_for (Some '' gpt-5.6-luna'') (Some ''default'') (2026, 8, 1) = Some luna_rate"
proof -
  have "trim '' gpt-5.6-luna'' = ''gpt-5.6-luna''" "tier_of (Some ''default'') = Some Standard" by code_simp+
  then show ?thesis by (simp add: rate_for_def CODEX_PRICING_CATALOG_def date_le_def luna_rate_def)
qed

theorem price_exact_witness:
  "\<exists>e. estimate_codex_api_price (Some '' gpt-5.6-luna'') (Some ''default'') (2026, 8, 1) a_run = Some e
    \<and> int (usd_nanos (amount_decimal e)) = 203600"
proof -
  have "i64_tokens a_run" by (simp add: i64_tokens_def a_run_def)
  from price_exact [OF this, of "Some '' gpt-5.6-luna''" "Some ''default''" "(2026, 8, 1)"] luna_rate
  show ?thesis by (auto simp: no_negative_def a_run_def exact_nanos_def luna_rate_def)
qed

theorem rate_in_force_witness:
  "effective Standard '' gpt-5.6-luna'' (2026, 8, 1) luna_rate"
proof -
  have "tier_of (Some ''default'') = Some Standard" by code_simp
  from rate_in_force [OF this, of "'' gpt-5.6-luna''" "(2026, 8, 1)" luna_rate] luna_rate show ?thesis by blast
qed

end
