(* ===== verification/Zcode_Events.thy ===== *)
theory Zcode_Events
  imports Execution_Text Runtime_Failure
begin

text \<open>
  The events of a ZCode session, from \<^verbatim>\<open>crates/rovai-core/src/zcode/events.rs\<close>: one input at a time, the turn that
  answers it, its tools, the tasks it leaves in the background, inputs steered into it, and the messages that are passed on.
  A call gives an answer or an error, and the state it leaves. After an error of \<open>receive\<close> or \<open>finish\<close> the host
  gives up the process, so histories hold calls that went well.
\<close>

section \<open>Reading values\<close>

fun pointer_path :: "Value \<Rightarrow> string list \<Rightarrow> Value option" where
  "pointer_path v [] = Some v"
| "pointer_path v (k # ks) = Option.bind (get v k) (\<lambda>w. pointer_path w ks)"

definition path_str :: "Value \<Rightarrow> string list \<Rightarrow> string option" where
  "path_str v ks = Option.bind (pointer_path v ks) as_str"

fun as_i64 :: "Value \<Rightarrow> int option" where
  "as_i64 (Number (PosInt n)) = (if n < 2 ^ 63 then Some (int n) else None)"
| "as_i64 (Number (NegInt i)) = Some i"
| "as_i64 v = None"

definition or_null :: "Value option \<Rightarrow> Value" where
  "or_null v = (case v of None \<Rightarrow> Null | Some w \<Rightarrow> w)"

definition str_at :: "Value \<Rightarrow> string \<Rightarrow> string" where
  "str_at v k = (case get_str v k of None \<Rightarrow> [] | Some s \<Rightarrow> s)"

section \<open>Failures\<close>

definition RUNTIME_HEADERS_UNAVAILABLE :: string where
  "RUNTIME_HEADERS_UNAVAILABLE = ''ZCode authentication failed: Start Plan requires per-request captcha verification from the official ZCode App, which the current Rovai host cannot provide; use Start Plan in the official App, or configure a Coding Plan/API-key provider in ZCode''"

definition failure_from_payload :: "Value \<Rightarrow> string" where
  "failure_from_payload payload =
     (let error = field_or_null payload ''error'';
          auth = path_str error [''attribution'', ''reason''] = Some ''auth_failed'';
          captcha = (case pointer_path error [''attribution'', ''providerErrorCode''] of
              None \<Rightarrow> False | Some code \<Rightarrow> as_str code = Some ''3007'' \<or> as_i64 code = Some 3007);
          says = (\<lambda>text'. list_ex (\<lambda>field. get_str error field = Some text') [''message'', ''underlyingErrorMessage'']) in
      if get_str error ''message'' = Some RUNTIME_HEADERS_UNAVAILABLE \<or> auth \<and> captcha then RUNTIME_HEADERS_UNAVAILABLE
      else if auth then ''ZCode authentication failed; check the official native account or provider configuration''
      else if says ''Concurrency limit exceeded for account, please retry later''
      then ''ZCode account concurrency limit exceeded; reduce parallel requests or try again later''
      else if says ''Our servers are currently overloaded. Please try again later.''
      then ''ZCode model service is overloaded; try again later''
      else ''Official ZCode Turn failed'')"

section \<open>State\<close>

record GuideInput =
  guide_text :: string
  guide_pending :: "string option"

record BackgroundTool =
  background_tool :: Value
  background_task :: string
  background_input :: string
  background_turn :: string

record SessionEvents =
  event_sequence :: nat
  current_input :: "string option"
  current_turn :: "string option"
  tools :: "(string \<times> Value) list"
  seen_tools :: "string list"
  background :: "(string \<times> BackgroundTool) list"
  pending_background :: "string list"
  final_suffix :: string
  final_message :: "string option"
  terminal_seen :: bool
  headers_rejected :: bool
  guides :: "(string \<times> GuideInput) list"

record Translated =
  translated_messages :: "Value list"
  translated_terminal :: "(string + Value) option"
  translated_context_refresh :: bool
  translated_steering :: "string list"

definition no_translation :: Translated where
  "no_translation = \<lparr>translated_messages = [], translated_terminal = None, translated_context_refresh = False, translated_steering = []\<rparr>"

definition new_session_events :: "nat \<Rightarrow> SessionEvents" where
  "new_session_events n =
     \<lparr>event_sequence = n, current_input = None, current_turn = None, tools = [], seen_tools = [], background = [],
      pending_background = [], final_suffix = [], final_message = None, terminal_seen = False, headers_rejected = False,
      guides = []\<rparr>"

definition begin_input :: "string \<Rightarrow> SessionEvents \<Rightarrow> string + SessionEvents" where
  "begin_input input s =
     (if current_input s \<noteq> None then Inl ''ZCode input still active''
      else Inr (s\<lparr>current_input := Some input, current_turn := None, tools := [], seen_tools := [], final_suffix := [],
             final_message := None, terminal_seen := False, headers_rejected := False, guides := []\<rparr>))"

definition begin_steer :: "string \<Rightarrow> string \<Rightarrow> string \<Rightarrow> SessionEvents \<Rightarrow> string + SessionEvents" where
  "begin_steer expected_input input text' s =
     (if current_input s \<noteq> Some expected_input \<or> current_turn s = None \<or> terminal_seen s then Inl ''active input not accepted''
      else if map_of (guides s) input \<noteq> None then Inl ''ZCode steering source already submitted''
      else Inr (s\<lparr>guides := AList.update input \<lparr>guide_text = text', guide_pending = None\<rparr> (guides s)\<rparr>))"

definition owns_turn :: "string option \<Rightarrow> SessionEvents \<Rightarrow> bool" where
  "owns_turn turn s = (current_input s \<noteq> None \<and> turn \<noteq> None \<and> current_turn s = turn)"

definition reject_runtime_headers :: "string option \<Rightarrow> SessionEvents \<Rightarrow> SessionEvents" where
  "reject_runtime_headers turn s = (if owns_turn turn s then s\<lparr>headers_rejected := True\<rparr> else s)"

definition has_pending_steering :: "SessionEvents \<Rightarrow> bool" where
  "has_pending_steering s = (guides s \<noteq> [])"

definition background_tasks_for_input :: "string option \<Rightarrow> SessionEvents \<Rightarrow> string list" where
  "background_tasks_for_input input s =
     map (background_task \<circ> snd) (filter (\<lambda>(_, t). Some (background_input t) = input) (background s))"

section \<open>Messages\<close>

definition update_message :: "string \<Rightarrow> Value \<Rightarrow> Value" where
  "update_message session u =
     Object [(''method'', JString ''session/update''), (''params'', Object [(''sessionId'', JString session), (''update'', u)])]"

text \<open>A structured patch as the text of a unified diff.\<close>

record PatchState =
  patch_text :: string
  patch_added :: nat
  patch_deleted :: nat
  seen_old :: nat
  seen_new :: nat

definition MAX_PATCH_BYTES :: nat where "MAX_PATCH_BYTES = 512 * 1024"

definition single_line :: "string \<Rightarrow> bool" where
  "single_line s = list_all (\<lambda>c. c \<noteq> CHR 0x0A \<and> c \<noteq> CHR 0x0D \<and> c \<noteq> CHR 0x00) s"

definition count_line :: "string \<Rightarrow> PatchState \<Rightarrow> PatchState option" where
  "count_line line p =
     (case line of
        [] \<Rightarrow> None
      | c # _ \<Rightarrow>
          if c = CHR '' '' then Some (p\<lparr>seen_old := seen_old p + 1, seen_new := seen_new p + 1\<rparr>)
          else if c = CHR ''-'' then Some (p\<lparr>seen_old := seen_old p + 1, patch_deleted := patch_deleted p + 1\<rparr>)
          else if c = CHR ''+'' then Some (p\<lparr>seen_new := seen_new p + 1, patch_added := patch_added p + 1\<rparr>)
          else if line = CHR 0x5C # '' No newline at end of file'' then Some p
          else None)"

fun patch_lines :: "Value list \<Rightarrow> PatchState \<Rightarrow> PatchState option" where
  "patch_lines [] p = Some p"
| "patch_lines (v # vs) p =
     (case as_str v of
        None \<Rightarrow> None
      | Some line \<Rightarrow>
          if \<not> single_line line then None
          else
            (case count_line line p of
               None \<Rightarrow> None
             | Some p \<Rightarrow>
                 (let p = p\<lparr>patch_text := patch_text p @ line @ [CHR 0x0A]\<rparr> in
                  if MAX_PATCH_BYTES < length (patch_text p) then None else patch_lines vs p)))"

definition patch_hunk_header :: "nat \<Rightarrow> nat \<Rightarrow> nat \<Rightarrow> nat \<Rightarrow> string" where
  "patch_hunk_header old_start old_len new_start new_len =
     ''@@ -'' @ dec old_start @ '','' @ dec old_len @ '' +'' @ dec new_start @ '','' @ dec new_len @ '' @@'' @ [CHR 0x0A]"

fun patch_hunks :: "Value list \<Rightarrow> nat \<Rightarrow> nat \<Rightarrow> PatchState \<Rightarrow> PatchState option" where
  "patch_hunks [] old_end new_end p = Some p"
| "patch_hunks (h # hs) old_end new_end p =
     (let n = (\<lambda>k. as_u64 (field_or_null h k)) in
      case (n ''oldStart'', n ''oldLines'', n ''newStart'', n ''newLines'') of
        (Some old_start, Some old_len, Some new_start, Some new_len) \<Rightarrow>
          if old_start < old_end \<or> new_start < new_end then None
          else
            (case (checked_add old_start old_len, checked_add new_start new_len, as_array (field_or_null h ''lines'')) of
               (Some old_end, Some new_end, Some vs) \<Rightarrow>
                 (case patch_lines vs
                     (p\<lparr>patch_text := patch_text p @ patch_hunk_header old_start old_len new_start new_len, seen_old := 0, seen_new := 0\<rparr>) of
                    None \<Rightarrow> None
                  | Some p \<Rightarrow>
                      if seen_old p \<noteq> old_len \<or> seen_new p \<noteq> new_len then None else patch_hunks hs old_end new_end p)
             | _ \<Rightarrow> None)
      | _ \<Rightarrow> None)"

definition patch_header :: "string \<Rightarrow> string" where
  "patch_header path = ''--- '' @ path @ [CHR 0x0A] @ ''+++ '' @ path @ [CHR 0x0A]"

definition structured_patch :: "string \<Rightarrow> Value \<Rightarrow> string option" where
  "structured_patch path display =
     (if get_str display ''kind'' \<noteq> Some ''file_diff'' \<or> get_str display ''filePath'' \<noteq> Some path
        \<or> get display ''truncated'' \<noteq> Some (Bool False) \<or> \<not> single_line path then None
      else
        (case as_array (field_or_null display ''structuredPatch'') of
           None \<Rightarrow> None
         | Some hunks \<Rightarrow>
             if hunks = [] \<or> 4096 < length hunks then None
             else
               (case patch_hunks hunks 0 0
                   \<lparr>patch_text = patch_header path, patch_added = 0, patch_deleted = 0, seen_old = 0, seen_new = 0\<rparr> of
                  None \<Rightarrow> None
                | Some p \<Rightarrow>
                    if as_u64 (field_or_null display ''additions'') = Some (patch_added p)
                      \<and> as_u64 (field_or_null display ''deletions'') = Some (patch_deleted p)
                      \<and> 0 < patch_added p + patch_deleted p
                    then Some (patch_text p) else None)))"

definition tool_kind :: "string \<Rightarrow> string" where
  "tool_kind name =
     (if name = ''Read'' then ''read'' else if name = ''Write'' then ''write'' else if name = ''Edit'' then ''edit''
      else if name = ''Bash'' then ''execute'' else if name \<in> {''Grep'', ''Glob''} then ''search'' else ''other'')"

definition tool_path :: "string \<Rightarrow> Value \<Rightarrow> string option" where
  "tool_path name input = (if name \<in> {''Read'', ''Write'', ''Edit''} then get_str input ''file_path'' else None)"

definition base_update :: "string \<Rightarrow> Value \<Rightarrow> string \<Rightarrow> Value" where
  "base_update stage tool name =
     (let input = field_or_null tool ''input'' in
      Object [(''sessionUpdate'', JString stage), (''toolCallId'', field_or_null tool ''toolCallId''), (''toolName'', JString name),
        (''title'', JString name), (''kind'', JString (tool_kind name)), (''rawInput'', input), (''status'', JString ''in_progress''),
        (''locations'', Array (case tool_path name input of None \<Rightarrow> [] | Some p \<Rightarrow> [Object [(''path'', JString p)]]))])"

definition result_succeeded :: "Value \<Rightarrow> bool" where
  "result_succeeded result =
     (get result ''success'' = Some (Bool True)
      \<and> \<not> (case Option.bind (pointer_path result [''perf'', ''detail'', ''command'', ''exitCode'']) as_i64 of
            None \<Rightarrow> False | Some code \<Rightarrow> code \<noteq> 0)
      \<and> pointer_path result [''perf'', ''detail'', ''command'', ''timedOut''] \<noteq> Some (Bool True))"

definition result_status :: "Value \<Rightarrow> string" where
  "result_status result =
     (if path_str result [''perf'', ''detail'', ''command'', ''status''] = Some ''backgrounded'' then ''in_progress''
      else if result_succeeded result then ''completed'' else ''failed'')"

definition raw_output :: "Value \<Rightarrow> Value" where
  "raw_output result =
     (let command = (\<lambda>k. pointer_path result [''perf'', ''detail'', ''command'', k]) in
      Object [(''exitCode'', case Option.bind (command ''exitCode'') as_i64 of None \<Rightarrow> Null | Some i \<Rightarrow> int_number i),
        (''output'', field_or_null result ''content''), (''truncated'', field_or_null result ''truncated''),
        (''artifactPath'', field_or_null result ''artifactPath''), (''budgetStrategy'', field_or_null result ''budgetStrategy''),
        (''commandStatus'', or_null (command ''status'')), (''outputBytes'', or_null (command ''outputBytes''))])"

definition tool_update :: "Value \<Rightarrow> Value option \<Rightarrow> string + Value" where
  "tool_update tool result =
     (case get_str tool ''toolName'' of
        None \<Rightarrow> Inl ''ZCode Tool name missing''
      | Some name \<Rightarrow>
          Inr (case result of
             None \<Rightarrow> base_update ''tool_call'' tool name
           | Some r \<Rightarrow>
               (let u = set_field ''content'' (Array [Object [(''type'', JString ''content''), (''content'',
                      Object [(''type'', JString ''text''), (''text'', JString (str_at r ''content''))])]])
                    (set_field ''rawOutput'' (raw_output r)
                      (set_field ''status'' (JString (result_status r)) (base_update ''tool_call_update'' tool name))) in
                case (if result_succeeded r \<and> name = ''Edit''
                      then Option.bind (tool_path name (field_or_null tool ''input'')) (\<lambda>path.
                        map_option (\<lambda>patch. (path, patch)) (structured_patch path (field_or_null r ''display''))) else None) of
                  None \<Rightarrow> u
                | Some (path, patch) \<Rightarrow>
                    set_field ''_meta'' (Object [(''zcodeDiff'', Array [Object [(''path'', JString path),
                      (''changeKind'', JString ''update''), (''diff'', JString patch)]])]) u)))"

section \<open>Background tasks\<close>

definition background_terminal :: "string \<Rightarrow> bool" where
  "background_terminal status = (status \<in> {''completed'', ''failed'', ''cancelled'', ''lost''})"

definition job_result :: "Value \<Rightarrow> string \<Rightarrow> Value" where
  "job_result job status =
     Object [(''success'', Bool (status = ''completed'')), (''content'', JString (str_at job ''stdoutTail'')),
       (''truncated'', field_or_null job ''outputTruncated''), (''budgetStrategy'', JString ''artifact''),
       (''artifactPath'', field_or_null job ''stdoutPersistedOutputPath''),
       (''perf'', Object [(''detail'', Object [(''command'', Object
          [(''status'', JString (if background_terminal status \<and> status \<noteq> ''lost'' then status else ''backgrounded'')),
           (''exitCode'', field_or_null job ''exitCode''), (''outputBytes'', field_or_null job ''outputBytes'')])])])]"

definition background_message :: "string \<Rightarrow> Value \<Rightarrow> string \<Rightarrow> string \<Rightarrow> BackgroundTool \<Rightarrow> string \<Rightarrow> Value" where
  "background_message session u task_id call t status =
     Object [(''method'', JString ''_zcode/background''), (''params'', Object [(''sessionId'', JString session), (''update'', u),
       (''background'', Object [(''taskId'', JString task_id), (''toolCallId'', JString call),
          (''inputId'', JString (background_input t)), (''turnId'', JString (background_turn t)), (''status'', JString status)])])]"

text \<open>The job becomes a task of the background with its first report, if its tool is known.\<close>

definition admit_job :: "string \<Rightarrow> string \<Rightarrow> Value \<Rightarrow> SessionEvents \<Rightarrow> string + SessionEvents option" where
  "admit_job call task_id job s =
     (if map_of (background s) call \<noteq> None then Inr (Some s)
      else
        (case map_of (tools s) call of
           None \<Rightarrow> Inr None
         | Some tool \<Rightarrow>
             if \<not> value_eq (field_or_null tool ''toolName'') (field_or_null job ''toolName'') then Inr None
             else if 4096 \<le> length (background s) then Inl ''ZCode background task limit exceeded''
             else
               (case (current_input s, current_turn s) of
                  (None, _) \<Rightarrow> Inl ''ZCode background Input missing''
                | (Some _, None) \<Rightarrow> Inl ''ZCode background Turn missing''
                | (Some input, Some turn) \<Rightarrow>
                    Inr (Some (s\<lparr>background := AList.update call \<lparr>background_tool = tool, background_task = task_id,
                       background_input = input, background_turn = turn\<rparr> (background s)\<rparr>)))))"

definition settle_job :: "string \<Rightarrow> string \<Rightarrow> SessionEvents \<Rightarrow> SessionEvents" where
  "settle_job call status s =
     (let s = (if background_terminal status \<and> status \<noteq> ''lost'' then s\<lparr>background := AList.delete call (background s)\<rparr> else s) in
      if call \<in> set (pending_background s)
      then s\<lparr>pending_background := removeAll call (pending_background s), tools := AList.delete call (tools s)\<rparr> else s)"

definition background_result :: "string \<Rightarrow> Value \<Rightarrow> SessionEvents \<Rightarrow> (string + Value option) \<times> SessionEvents" where
  "background_result session job s =
     (case (get_str job ''toolCallId'', get_str job ''taskId'', get_str job ''status'') of
        (Some call, Some task_id, Some status) \<Rightarrow>
          if task_id = [] \<or> get_str job ''taskKind'' \<notin> {Some ''bash'', Some ''subagent''} then (Inr None, s)
          else
            (case admit_job call task_id job s of
               Inl e \<Rightarrow> (Inl e, s)
             | Inr None \<Rightarrow> (Inr None, s)
             | Inr (Some s) \<Rightarrow>
                 (case map_of (background s) call of
                    None \<Rightarrow> (Inr None, s)
                  | Some t \<Rightarrow>
                      if background_task t \<noteq> task_id then (Inl ''ZCode background task identity changed'', s)
                      else if \<not> background_terminal status \<and> status \<noteq> ''running'' then (Inl ''ZCode background state unsupported'', s)
                      else
                        (case tool_update (background_tool t) (Some (job_result job status)) of
                           Inl e \<Rightarrow> (Inl e, s)
                         | Inr u \<Rightarrow> (Inr (Some (background_message session u task_id call t status)), settle_job call status s))))
      | _ \<Rightarrow> (Inr None, s))"

fun background_results :: "string \<Rightarrow> Value list \<Rightarrow> SessionEvents \<Rightarrow> (string + Value list) \<times> SessionEvents" where
  "background_results session [] s = (Inr [], s)"
| "background_results session (job # jobs) s =
     (case background_result session job s of
        (Inl e, s) \<Rightarrow> (Inl e, s)
      | (Inr m, s) \<Rightarrow>
          (case background_results session jobs s of
             (Inl e, s) \<Rightarrow> (Inl e, s)
           | (Inr ms, s) \<Rightarrow> (Inr ((case m of None \<Rightarrow> [] | Some m \<Rightarrow> [m]) @ ms), s)))"

definition finish_input :: "string \<Rightarrow> Value list \<Rightarrow> SessionEvents \<Rightarrow> (string + Value list) \<times> SessionEvents" where
  "finish_input session jobs s =
     (case background_results session jobs s of
        (Inl e, s) \<Rightarrow> (Inl e, s)
      | (Inr ms, s) \<Rightarrow>
          if tools s \<noteq> [] \<or> pending_background s \<noteq> [] then (Inl ''ZCode terminal left Tool results unresolved'', s)
          else (Inr ms, s\<lparr>current_input := None, guides := []\<rparr>))"

section \<open>Events\<close>

definition event_kind_of :: "Value \<Rightarrow> string" where
  "event_kind_of event = str_at event ''type''"

definition payload_of :: "Value \<Rightarrow> Value" where
  "payload_of event = field_or_null event ''payload''"

definition with_messages :: "Value list \<Rightarrow> Translated" where
  "with_messages ms = no_translation\<lparr>translated_messages := ms\<rparr>"

text \<open>A finished compaction: the operation and its boundary, both named.\<close>

definition compaction_of :: "Value \<Rightarrow> (string \<times> string) option" where
  "compaction_of event =
     (let payload = payload_of event in
      if event_kind_of event = ''session.updated'' \<and> get_str payload ''status'' = Some ''completed''
        \<and> get_str payload ''trigger'' \<in> {Some ''manual'', Some ''auto'', Some ''reactive''}
      then
        (case (get_str payload ''operationId'', get_str payload ''boundaryId'') of
           (Some operation, Some boundary) \<Rightarrow> if operation \<noteq> [] \<and> boundary \<noteq> [] then Some (operation, boundary) else None
         | _ \<Rightarrow> None)
      else None)"

definition compaction_message :: "string \<Rightarrow> Value \<Rightarrow> string \<Rightarrow> string \<Rightarrow> Value" where
  "compaction_message session payload operation boundary =
     Object [(''method'', JString ''_zcode/compaction''), (''params'', Object [(''sessionId'', JString session),
       (''operationId'', JString boundary), (''nativeOperationId'', JString operation), (''status'', JString ''completed''),
       (''trigger'', field_or_null payload ''trigger''), (''phase'', field_or_null payload ''phase'')])]"

text \<open>A report on a background task, by the turn that owns it.\<close>

definition reports_job :: "Value \<Rightarrow> SessionEvents \<Rightarrow> bool" where
  "reports_job event s =
     (event_kind_of event = ''session.updated'' \<and> get_str (payload_of event) ''taskId'' \<noteq> None
      \<and> (case get_str event ''turnId'' of
           None \<Rightarrow> False
         | Some turn \<Rightarrow>
             (case Option.bind (get_str (payload_of event) ''toolCallId'') (map_of (background s)) of
                None \<Rightarrow> owns_turn (Some turn) s
              | Some t \<Rightarrow> background_turn t = turn)))"

definition turn_started :: "string \<Rightarrow> Value \<Rightarrow> SessionEvents \<Rightarrow> (string + Translated) \<times> SessionEvents" where
  "turn_started session event s =
     (let payload = payload_of event in
      if (case get_str payload ''inputId'' of None \<Rightarrow> False | Some input \<Rightarrow> map_of (guides s) input \<noteq> None)
      then (Inl ''ZCode guide unexpectedly started a new Turn'', s)
      else if get_str payload ''inputId'' \<noteq> current_input s then (Inr no_translation, s)
      else
        (case get_str event ''turnId'' of
           None \<Rightarrow> (Inl ''ZCode Turn identity missing'', s)
         | Some turn \<Rightarrow>
             if current_turn s \<noteq> None \<and> current_turn s \<noteq> Some turn then (Inl ''ZCode input changed Turn identity'', s)
             else
               (Inr (with_messages [Object [(''method'', JString ''_zcode/inputAccepted''), (''params'',
                  Object [(''sessionId'', JString session), (''inputId'', field_or_null payload ''inputId'')])]]),
                s\<lparr>current_turn := Some turn\<rparr>)))"

text \<open>An input that fails before its turn was started still owns its end.\<close>

definition adopt_turn :: "Value \<Rightarrow> SessionEvents \<Rightarrow> SessionEvents" where
  "adopt_turn event s =
     (if current_turn s = None \<and> event_kind_of event \<in> {''turn.completed'', ''turn.failed''}
        \<and> get_str (payload_of event) ''inputId'' = current_input s
      then
        (case get_str event ''turnId'' of
           None \<Rightarrow> s
         | Some turn \<Rightarrow> if turn = [] then s else s\<lparr>current_turn := Some turn\<rparr>)
      else s)"

definition steer_queued :: "Value \<Rightarrow> SessionEvents \<Rightarrow> string list \<times> SessionEvents" where
  "steer_queued event s =
     (let payload = payload_of event in
      if event_kind_of event = ''turn.steerQueued'' \<and> get_str payload ''targetTurnId'' = current_turn s
        \<and> get_str payload ''delivery'' = Some ''guide''
      then
        (case (get_str payload ''inputId'', get_str payload ''pendingInputId'') of
           (Some input, Some pending) \<Rightarrow>
             (case map_of (guides s) input of
                None \<Rightarrow> ([], s)
              | Some g \<Rightarrow>
                  if pending \<noteq> [] \<and> get_str payload ''input'' = Some (guide_text g) then
                    (if guide_pending g = None then [input] else [],
                     s\<lparr>guides := AList.update input (g\<lparr>guide_pending := Some pending\<rparr>) (guides s)\<rparr>)
                  else ([], s))
         | _ \<Rightarrow> ([], s))
      else ([], s))"

definition guide_drained :: "Value \<Rightarrow> Value list \<Rightarrow> string \<Rightarrow> GuideInput \<Rightarrow> bool" where
  "guide_drained payload drained input g =
     (case guide_pending g of
        None \<Rightarrow> False
      | Some pending \<Rightarrow>
          (case as_array (field_or_null payload ''pendingInputIds'') of
             None \<Rightarrow> False | Some ids \<Rightarrow> list_ex (\<lambda>i. as_str i = Some pending) ids)
          \<and> (case as_array (field_or_null payload ''queryIds'') of
               None \<Rightarrow> False | Some ids \<Rightarrow> list_ex (\<lambda>q. as_str q = Some input) ids)
          \<and> list_ex (\<lambda>item. get_str item ''pendingInputId'' = Some pending \<and> get_str item ''delivery'' = Some ''guide''
              \<and> get_str item ''text'' = Some (guide_text g)) drained)"

definition steer_drained :: "Value \<Rightarrow> SessionEvents \<Rightarrow> SessionEvents" where
  "steer_drained event s =
     (let payload = payload_of event in
      if event_kind_of event = ''turn.steerDrained'' \<and> get_str payload ''targetTurnId'' = current_turn s then
        (case as_array (field_or_null payload ''drainedInputs'') of
           None \<Rightarrow> s
         | Some drained \<Rightarrow> s\<lparr>guides := filter (\<lambda>(input, g). \<not> guide_drained payload drained input g) (guides s)\<rparr>)
      else s)"

definition needs_context :: "Value \<Rightarrow> bool" where
  "needs_context event =
     (event_kind_of event = ''session.updated'' \<and> get (payload_of event) ''usage'' \<noteq> None
      \<and> (case get_str (payload_of event) ''querySource'' of None \<Rightarrow> True | Some source \<Rightarrow> source = ''main_turn''))"

text \<open>The messages of an event of the turn.\<close>

definition MAX_ASSISTANT_BYTES :: nat where "MAX_ASSISTANT_BYTES = 4 * 1024 * 1024"

definition text_chunk :: "string \<Rightarrow> string \<Rightarrow> string \<Rightarrow> Value" where
  "text_chunk stage message text' =
     Object [(''sessionUpdate'', JString stage), (''messageId'', JString message),
       (''content'', Object [(''type'', JString ''text''), (''text'', JString text')])]"

definition text_delta :: "string \<Rightarrow> Value \<Rightarrow> SessionEvents \<Rightarrow> (string + Value list) \<times> SessionEvents" where
  "text_delta session payload s =
     (case (get_str payload ''delta'', get_str payload ''assistantMessageId'') of
        (None, _) \<Rightarrow> (Inl ''ZCode text delta invalid'', s)
      | (Some _, None) \<Rightarrow> (Inl ''ZCode assistant identity missing'', s)
      | (Some delta, Some message) \<Rightarrow>
          (let s = (if final_message s \<noteq> Some message then s\<lparr>final_suffix := [], final_message := Some message\<rparr> else s);
               s = s\<lparr>final_suffix := final_suffix s @ delta\<rparr> in
           if MAX_ASSISTANT_BYTES < length (final_suffix s) then (Inl ''ZCode assistant output exceeds limit'', s)
           else (Inr [update_message session (text_chunk ''agent_message_chunk'' message delta)], s)))"

definition reasoning_delta :: "string \<Rightarrow> Value \<Rightarrow> Value list" where
  "reasoning_delta session payload =
     (case (get_str payload ''assistantMessageId'', get_str payload ''delta'') of
        (Some message, Some delta) \<Rightarrow>
          if message \<noteq> [] then [update_message session (text_chunk ''agent_thought_chunk'' message delta)] else []
      | _ \<Rightarrow> [])"

definition result_messages :: "string \<Rightarrow> string + Value \<Rightarrow> string + Value list" where
  "result_messages session u = (case u of Inl e \<Rightarrow> Inl e | Inr u \<Rightarrow> Inr [update_message session u])"

definition tool_called :: "string \<Rightarrow> Value \<Rightarrow> SessionEvents \<Rightarrow> (string + Value list) \<times> SessionEvents" where
  "tool_called session payload s =
     (case get_str payload ''toolCallId'' of
        None \<Rightarrow> (Inl ''ZCode Tool identity missing'', s)
      | Some call \<Rightarrow>
          if 4096 \<le> length (seen_tools s) then (Inl ''ZCode Tool count exceeds limit'', s)
          else if map_of (background s) call \<noteq> None \<or> call \<in> set (seen_tools s) then (Inl ''ZCode reused Tool identity'', s)
          else
            (result_messages session (tool_update payload None),
             s\<lparr>seen_tools := call # seen_tools s, tools := AList.update call payload (tools s), final_suffix := [],
               final_message := None\<rparr>))"

definition tool_result :: "string \<Rightarrow> Value \<Rightarrow> SessionEvents \<Rightarrow> (string + Value list) \<times> SessionEvents" where
  "tool_result session payload s =
     (case get_str payload ''toolCallId'' of
        None \<Rightarrow> (Inl ''ZCode Tool result identity missing'', s)
      | Some call \<Rightarrow>
          (case map_of (tools s) call of
             None \<Rightarrow> (Inr [], s)
           | Some tool \<Rightarrow>
               if map_of (background s) call \<noteq> None then (Inr [], s\<lparr>tools := AList.delete call (tools s)\<rparr>)
               else if path_str payload [''result'', ''perf'', ''detail'', ''command'', ''status''] = Some ''backgrounded''
               then (Inr [], s\<lparr>pending_background := List.insert call (pending_background s)\<rparr>)
               else
                 (case tool_update tool (Some (field_or_null payload ''result'')) of
                    Inl e \<Rightarrow> (Inl e, s)
                  | Inr u \<Rightarrow> (Inr [update_message session u], s\<lparr>tools := AList.delete call (tools s)\<rparr>))))"

text \<open>A tool that was denied or failed has no other result.\<close>

definition tool_ended :: "string \<Rightarrow> Value \<Rightarrow> string \<Rightarrow> SessionEvents \<Rightarrow> (string + Value list) \<times> SessionEvents" where
  "tool_ended session payload content s =
     (case Option.bind (get_str payload ''toolCallId'') (\<lambda>call. map_option (Pair call) (map_of (tools s) call)) of
        None \<Rightarrow> (Inr [], s)
      | Some (call, tool) \<Rightarrow>
          (result_messages session
             (tool_update tool (Some (Object [(''success'', Bool False), (''content'', JString content)]))),
           s\<lparr>tools := AList.delete call (tools s)\<rparr>))"

definition usage_messages :: "string \<Rightarrow> Value \<Rightarrow> Value list" where
  "usage_messages session event =
     (let payload = payload_of event in
      if path_str payload [''usage'', ''source''] = Some ''provider''
      then [update_message session (Object [(''sessionUpdate'', JString ''usage_update''), (''_meta'',
             Object [(''zcodeUsage'', field_or_null payload ''usage''), (''nativeTurnId'', field_or_null event ''turnId''),
               (''nativeEventId'', field_or_null event ''eventId'')])])]
      else [])"

definition turn_ended ::
    "string \<Rightarrow> Value \<Rightarrow> SessionEvents \<Rightarrow> (string + Value list \<times> (string + Value)) \<times> SessionEvents" where
  "turn_ended session event s =
     (let payload = payload_of event; usage = usage_messages session event; response = str_at payload ''response'';
          ended = s\<lparr>terminal_seen := True\<rparr> in
      if get_str payload ''inputId'' \<noteq> current_input s then (Inl ''ZCode terminal input mismatch'', s)
      else if get_str payload ''resultType'' = Some ''success'' \<and> event_kind_of event = ''turn.completed'' then
        (if final_suffix s = [] \<and> response \<noteq> [] then
           (Inr (usage @ [update_message session (text_chunk ''agent_message_chunk'' (str_at event ''turnId'' @ '':final'') response)],
              Inr (Object [(''stopReason'', JString ''end_turn'')])), ended)
         else if final_suffix s \<noteq> response then (Inl ''ZCode final response conflicts with streamed suffix'', s)
         else (Inr (usage, Inr (Object [(''stopReason'', JString ''end_turn'')])), ended))
      else if get_str payload ''resultType'' = Some ''cancelled''
      then (Inr (usage, Inr (Object [(''stopReason'', JString ''cancelled'')])), ended)
      else if headers_rejected s then (Inr (usage, Inl RUNTIME_HEADERS_UNAVAILABLE), ended)
      else (Inr (usage, Inl (failure_from_payload payload)), ended))"

definition turn_messages :: "string \<Rightarrow> Value \<Rightarrow> SessionEvents \<Rightarrow> (string + Value list \<times> (string + Value) option) \<times> SessionEvents" where
  "turn_messages session event s =
     (let payload = payload_of event; kind = event_kind_of event; sub = get_str payload ''kind'';
          plain_result = (\<lambda>(r, s). (case r of Inl e \<Rightarrow> Inl e | Inr ms \<Rightarrow> Inr (ms, None), s)) in
      if kind = ''model.streaming'' \<and> sub = Some ''text_delta'' then plain_result (text_delta session payload s)
      else if kind = ''model.streaming'' \<and> sub = Some ''reasoning_delta'' \<and> is_root_output event
      then (Inr (reasoning_delta session payload, None), s)
      else if kind = ''model.streaming'' \<and> sub = Some ''tool_call'' then plain_result (tool_called session payload s)
      else if kind = ''tool.updated'' \<and> sub = Some ''result'' then plain_result (tool_result session payload s)
      else if kind = ''permission.resolved'' \<and> get_str payload ''decision'' = Some ''deny''
      then plain_result (tool_ended session payload ''Permission denied'' s)
      else if kind = ''tool.updated'' \<and> sub = Some ''error''
      then plain_result (tool_ended session payload ''Native ZCode tool failed'' s)
      else if kind \<in> {''turn.completed'', ''turn.failed''} then
        (case turn_ended session event s of
           (Inl e, s) \<Rightarrow> (Inl e, s) | (Inr (ms, t), s) \<Rightarrow> (Inr (ms, Some t), s))
      else (Inr ([], None), s))"

text \<open>An event of the turn of the input.\<close>

definition receive_owned :: "string \<Rightarrow> Value \<Rightarrow> SessionEvents \<Rightarrow> (string + Translated) \<times> SessionEvents" where
  "receive_owned session event s =
     (case steer_queued event s of
        (received, s) \<Rightarrow>
          (case turn_messages session event (steer_drained event s) of
             (Inl e, s) \<Rightarrow> (Inl e, s)
           | (Inr (ms, t), s) \<Rightarrow>
               (Inr \<lparr>translated_messages = ms, translated_terminal = t, translated_context_refresh = needs_context event,
                  translated_steering = received\<rparr>, s)))"

text \<open>An event that is no compaction and no report on a task.\<close>

definition receive_for_input :: "string \<Rightarrow> Value \<Rightarrow> SessionEvents \<Rightarrow> (string + Translated) \<times> SessionEvents" where
  "receive_for_input session event s =
     (if current_input s = None \<or> terminal_seen s then (Inr no_translation, s)
      else if event_kind_of event = ''turn.started'' then turn_started session event s
      else
        (let s = adopt_turn event s in
         if \<not> owns_turn (get_str event ''turnId'') s then (Inr no_translation, s) else receive_owned session event s))"

definition receive_event :: "Value \<Rightarrow> SessionEvents \<Rightarrow> (string + Translated) \<times> SessionEvents" where
  "receive_event event s =
     (case Option.bind (get event ''seq'') as_u64 of
        None \<Rightarrow> (Inr no_translation, s)
      | Some seq \<Rightarrow>
          if seq \<le> event_sequence s then (Inr no_translation, s)
          else
            (let s = s\<lparr>event_sequence := seq\<rparr> in
             case get_str event ''sessionId'' of
               None \<Rightarrow> (Inl ''ZCode event Session missing'', s)
             | Some session \<Rightarrow>
                 (case compaction_of event of
                    Some (operation, boundary) \<Rightarrow>
                      (Inr ((with_messages [compaction_message session (payload_of event) operation boundary])
                         \<lparr>translated_context_refresh := current_input s \<noteq> None\<rparr>), s)
                  | None \<Rightarrow>
                      (case (if reports_job event s then background_result session (payload_of event) s else (Inr None, s)) of
                         (Inl e, s) \<Rightarrow> (Inl e, s)
                       | (Inr (Some m), s) \<Rightarrow> (Inr (with_messages [m]), s)
                       | (Inr None, s) \<Rightarrow> receive_for_input session event s))))"

end
