(* ===== verification/Zcode_Safety.thy ===== *)
theory Zcode_Safety
  imports Zcode_Events
begin

text \<open>
  What a ZCode session passes on, over any history of inputs, events and finished jobs: the order of the messages of
  an input, its tools, its end, and the text it ends with. The messages are read back from their JSON.
\<close>

section \<open>The messages of an input\<close>

datatype ZcodeMark =
  Announced string
| Settled string
| Reported string
| Said string string
| Thought string string
| Used
| Accepted
| Compacted
| Ended
| Unknown

text \<open>How a reader takes a message: what the input says and thinks, its tools, its costs, and what is reported beside it.\<close>

definition update_mark :: "Value \<Rightarrow> ZcodeMark" where
  "update_mark m =
     (let u = (\<lambda>ks. path_str m (''params'' # ''update'' # ks)); kind = u [''sessionUpdate''] in
      if kind = Some ''usage_update'' then Used
      else
        (case u [''toolCallId''] of
           Some c \<Rightarrow>
             if kind = Some ''tool_call'' then Announced c else if kind = Some ''tool_call_update'' then Settled c else Unknown
         | None \<Rightarrow>
             (case (u [''messageId''], u [''content'', ''text'']) of
                (Some i, Some t) \<Rightarrow>
                  if kind = Some ''agent_message_chunk'' then Said i t
                  else if kind = Some ''agent_thought_chunk'' then Thought i t else Unknown
              | _ \<Rightarrow> Unknown)))"

definition mark_of :: "Value \<Rightarrow> ZcodeMark" where
  "mark_of m =
     (let sort = get_str m ''method'' in
      if sort = Some ''session/update'' then update_mark m
      else if sort = Some ''_zcode/inputAccepted'' then Accepted
      else if sort = Some ''_zcode/compaction'' then Compacted
      else if sort = Some ''_zcode/background'' then
        (case path_str m [''params'', ''background'', ''toolCallId''] of None \<Rightarrow> Unknown | Some c \<Rightarrow> Reported c)
      else Unknown)"

definition marks :: "Translated \<Rightarrow> ZcodeMark list" where
  "marks t = map mark_of (translated_messages t) @ (if translated_terminal t = None then [] else [Ended])"

text \<open>The text a reader has before him: that of the last message, from the last tool on.\<close>

fun spoken_step :: "string \<times> string option \<Rightarrow> ZcodeMark \<Rightarrow> string \<times> string option" where
  "spoken_step (text', message) (Said i t) = (if message = Some i then text' @ t else t, Some i)"
| "spoken_step _ (Announced c) = ([], None)"
| "spoken_step a _ = a"

definition spoken :: "ZcodeMark list \<Rightarrow> string \<times> string option" where
  "spoken log = fold (\<lambda>m a. spoken_step a m) log ([], None)"

text \<open>
  What a message may follow: behind the end only compactions of the session and reports on tasks of the background.
\<close>

fun follows :: "ZcodeMark list \<Rightarrow> ZcodeMark \<Rightarrow> bool" where
  "follows log (Announced c) = (Announced c \<notin> set log \<and> Ended \<notin> set log)"
| "follows log (Settled c) = (Announced c \<in> set log \<and> Settled c \<notin> set log \<and> Ended \<notin> set log)"
| "follows log (Said i t) = (Ended \<notin> set log)"
| "follows log (Thought i t) = (Ended \<notin> set log)"
| "follows log Used = (Ended \<notin> set log)"
| "follows log Accepted = (Ended \<notin> set log)"
| "follows log Ended = (Ended \<notin> set log)"
| "follows log (Reported c) = True"
| "follows log Compacted = True"
| "follows log Unknown = False"

definition orderly :: "ZcodeMark list \<Rightarrow> bool" where
  "orderly log = (\<forall>n < length log. follows (take n log) (log ! n))"

lemma orderly_Nil [simp]: "orderly []"
  by (simp add: orderly_def)

lemma orderly_snoc [simp]: "orderly (log @ [m]) \<longleftrightarrow> orderly log \<and> follows log m"
  by (auto simp: orderly_def less_Suc_eq nth_append)

lemma orderly_settled: "orderly log \<Longrightarrow> Settled c \<in> set log \<Longrightarrow> Announced c \<in> set log"
  by (induction log rule: rev_induct) auto

lemma spoken_Nil [simp]: "spoken [] = ([], None)"
  by (simp add: spoken_def)

lemma spoken_snoc [simp]: "spoken (log @ [m]) = spoken_step (spoken log) m"
  by (simp add: spoken_def)

lemma orderly_two [simp]: "orderly (log @ [m, n]) \<longleftrightarrow> orderly log \<and> follows log m \<and> follows (log @ [m]) n"
  using orderly_snoc [of "log @ [m]" n] by simp

lemma spoken_two [simp]: "spoken (log @ [m, n]) = spoken_step (spoken_step (spoken log) m) n"
  using spoken_snoc [of "log @ [m]" n] by simp

lemma spoken_Settled [simp]: "spoken_step a (Settled c) = a"
  by (cases a) simp

lemma spoken_beside [simp]:
  "spoken_step a (Reported c) = a" "spoken_step a (Thought i t) = a" "spoken_step a Used = a" "spoken_step a Accepted = a"
  "spoken_step a Compacted = a"
  by (cases a; simp)+

lemma spoken_Announced [simp]: "spoken_step a (Announced c) = ([], None)"
  by (cases a) simp

section \<open>Messages read back\<close>

named_theorems marked

lemmas mark_defs = mark_of_def update_mark_def update_message_def path_str_def get_str_def

lemma mark_chunk [marked]:
  "mark_of (update_message session (text_chunk ''agent_message_chunk'' i t)) = Said i t"
  "mark_of (update_message session (text_chunk ''agent_thought_chunk'' i t)) = Thought i t"
  by (simp_all add: mark_defs text_chunk_def)

lemma mark_usage [marked]:
  "mark_of (update_message session (Object [(''sessionUpdate'', JString ''usage_update''), (''_meta'', v)])) = Used"
  by (simp add: mark_defs)

lemma mark_compaction [marked]: "mark_of (compaction_message session payload operation boundary) = Compacted"
  by (simp add: mark_defs compaction_message_def)

lemma mark_accepted [marked]: "mark_of (Object [(''method'', JString ''_zcode/inputAccepted''), (''params'', v)]) = Accepted"
  by (simp add: mark_defs)

lemma mark_background [marked]: "mark_of (background_message session u task_id call t status) = Reported call"
  by (simp add: mark_defs background_message_def)

lemma field_or_null_str: "get_str t k = Some c \<Longrightarrow> field_or_null t k = JString c"
  by (cases "get t k"; cases "the (get t k)") (auto simp: get_str_def field_or_null_def)

lemma is_object_set_field [simp]: "is_object p \<Longrightarrow> is_object (set_field k v p)"
  by (cases p) simp_all

lemma get_object_set_field: "is_object p \<Longrightarrow> get (set_field k v p) k' = (if k' = k then Some v else get p k')"
  by (cases p) (simp_all add: update_conv')

lemma base_update_fields:
  "is_object (base_update stage tool name)"
  "get (base_update stage tool name) ''sessionUpdate'' = Some (JString stage)"
  "get (base_update stage tool name) ''toolCallId'' = Some (field_or_null tool ''toolCallId'')"
  by (simp_all add: base_update_def Let_def)

lemma tool_update_fields:
  assumes "tool_update tool result = Inr u"
  shows "get u ''sessionUpdate'' = Some (JString (if result = None then ''tool_call'' else ''tool_call_update''))
    \<and> get u ''toolCallId'' = Some (field_or_null tool ''toolCallId'')"
  using assms
  by (cases result) (auto simp: tool_update_def Let_def get_object_set_field base_update_fields split: option.splits)

lemma mark_update:
  assumes "get u ''sessionUpdate'' = Some (JString kind)" and "get u ''toolCallId'' = Some (JString c)"
  shows "mark_of (update_message session u) =
    (if kind = ''usage_update'' then Used else if kind = ''tool_call'' then Announced c
     else if kind = ''tool_call_update'' then Settled c else Unknown)"
  using assms by (simp add: mark_defs Let_def)

lemma mark_tool [marked]:
  "tool_update tool result = Inr u \<Longrightarrow> get_str tool ''toolCallId'' = Some c \<Longrightarrow>
   mark_of (update_message session u) = (if result = None then Announced c else Settled c)"
  by (frule tool_update_fields) (simp add: mark_update field_or_null_str split: if_splits)

section \<open>The invariant\<close>

text \<open>What holds of the tools, and what holds of the text and the end, given what was passed on for the input.\<close>

definition tools_inv :: "SessionEvents \<Rightarrow> ZcodeMark list \<Rightarrow> bool" where
  "tools_inv s log \<longleftrightarrow>
     hm_ok (tools s) \<and> hm_ok (background s) \<and> length (background s) \<le> 4096 \<and> length (seen_tools s) \<le> 4096
     \<and> (current_input s = None \<longrightarrow> tools s = [] \<and> pending_background s = [])
     \<and> (\<forall>c t. map_of (tools s) c = Some t \<longrightarrow>
          get_str t ''toolCallId'' = Some c \<and> c \<in> set (seen_tools s) \<and> Settled c \<notin> set log)
     \<and> (\<forall>c. Announced c \<in> set log \<longleftrightarrow> c \<in> set (seen_tools s))
     \<and> (\<forall>c \<in> set (seen_tools s). map_of (tools s) c = None \<longrightarrow> Settled c \<in> set log \<or> Reported c \<in> set log)
     \<and> (\<forall>c \<in> set (seen_tools s). map_of (background s) c \<noteq> None \<longrightarrow> Reported c \<in> set log)"

definition talk_inv :: "SessionEvents \<Rightarrow> ZcodeMark list \<Rightarrow> bool" where
  "talk_inv s log \<longleftrightarrow>
     length (final_suffix s) \<le> MAX_ASSISTANT_BYTES \<and> (Ended \<in> set log \<longleftrightarrow> terminal_seen s)
     \<and> (\<not> terminal_seen s \<longrightarrow> spoken log = (final_suffix s, final_message s))"

definition zcode_inv :: "SessionEvents \<Rightarrow> ZcodeMark list \<Rightarrow> bool" where
  "zcode_inv s log \<longleftrightarrow> tools_inv s log \<and> talk_inv s log \<and> orderly log"

lemma length_update_le: "length (AList.update k v m) \<le> Suc (length m)"
  by (induction m) auto

lemma length_update_new: "map_of m k = None \<Longrightarrow> length (AList.update k v m) = Suc (length m)"
  by (induction m) (auto split: if_splits)

lemmas store_simps = hm.ok_put hm.ok_del update_conv' delete_conv' length_update_new

lemma zcode_inv_new: "zcode_inv (new_session_events n) []"
  by (simp add: zcode_inv_def tools_inv_def talk_inv_def new_session_events_def hm_ok_def)

lemma zcode_inv_reject: "zcode_inv s log \<Longrightarrow> zcode_inv (reject_runtime_headers turn s) log"
  by (auto simp: reject_runtime_headers_def zcode_inv_def tools_inv_def talk_inv_def)

text \<open>Changes of the sequence, the turn and the guides mean nothing here.\<close>

lemma zcode_inv_frame [simp]:
  "zcode_inv (s\<lparr>event_sequence := n\<rparr>) log = zcode_inv s log"
  "zcode_inv (s\<lparr>guides := g\<rparr>) log = zcode_inv s log"
  "zcode_inv (s\<lparr>current_turn := turn\<rparr>) log = zcode_inv s log"
  by (simp_all add: zcode_inv_def tools_inv_def talk_inv_def)

lemma zcode_inv_begin:
  assumes "begin_input input s = Inr s'" and "zcode_inv s log"
  shows "zcode_inv s' []"
proof -
  have "s' = s\<lparr>current_input := Some input, current_turn := None, tools := [], seen_tools := [], final_suffix := [],
      final_message := None, terminal_seen := False, headers_rejected := False, guides := []\<rparr>"
    using assms(1) by (simp add: begin_input_def split: if_split_asm)
  moreover have "hm_ok (background s)" "length (background s) \<le> 4096"
    using assms(2) by (simp_all add: zcode_inv_def tools_inv_def)
  ultimately show ?thesis by (simp add: zcode_inv_def tools_inv_def talk_inv_def hm_ok_def)
qed

lemma zcode_inv_steer: "begin_steer expected input text' s = Inr s' \<Longrightarrow> zcode_inv s log \<Longrightarrow> zcode_inv s' log"
  by (auto simp: begin_steer_def split: if_split_asm)

lemma zcode_inv_compacted [simp]: "zcode_inv s (log @ [Compacted]) = zcode_inv s log"
  by (auto simp: zcode_inv_def tools_inv_def talk_inv_def)

text \<open>Thoughts, costs and the acceptance of the input come before its end.\<close>

lemma zcode_inv_beside:
  assumes "zcode_inv s log" and "\<not> terminal_seen s"
  shows "zcode_inv s (log @ [Thought i t])" "zcode_inv s (log @ [Used])" "zcode_inv s (log @ [Accepted])"
  using assms by (auto simp: zcode_inv_def tools_inv_def talk_inv_def)

lemma zcode_inv_reported: "zcode_inv s log \<Longrightarrow> zcode_inv s (log @ [Reported c])"
  by (auto simp: zcode_inv_def tools_inv_def talk_inv_def)

section \<open>Background tasks\<close>

lemma admit_job_cases:
  assumes "admit_job call task_id job s = Inr (Some s')"
  obtains "s' = s" "map_of (background s) call \<noteq> None"
  | b where "s' = s\<lparr>background := AList.update call b (background s)\<rparr>" "map_of (background s) call = None"
    "length (background s) < 4096"
  using assms by (auto simp: admit_job_def split: if_split_asm option.split_asm)

lemma admit_job_inv:
  assumes "zcode_inv s log" and "admit_job call task_id job s = Inr (Some s')"
  shows "zcode_inv s' (log @ [Reported call]) \<and> map_of (background s') call \<noteq> None"
  using assms(2)
proof (cases rule: admit_job_cases)
  case 1
  then show ?thesis using zcode_inv_reported [OF assms(1)] by simp
next
  case (2 b)
  then show ?thesis using assms(1) by (auto simp: zcode_inv_def tools_inv_def talk_inv_def store_simps)
qed

lemma settle_job_inv:
  assumes "zcode_inv s log" and "Reported call \<in> set log"
  shows "zcode_inv (settle_job call status s) log"
proof -
  have "length (AList.delete call (background s)) \<le> length (background s)" by (rule length_delete_le)
  with assms show ?thesis
    by (auto simp: settle_job_def Let_def zcode_inv_def tools_inv_def talk_inv_def store_simps)
qed

lemma background_result_inv:
  assumes "zcode_inv s log" and "background_result session job s = (Inr m, s')"
  shows "zcode_inv s' (log @ map mark_of (case m of None \<Rightarrow> [] | Some m \<Rightarrow> [m]))"
proof -
  have "zcode_inv t (log @ [Reported c]) \<Longrightarrow> zcode_inv (settle_job c st t) (log @ [Reported c])" for c st t
    by (rule settle_job_inv) auto
  with assms show ?thesis
    by (auto simp: background_result_def marked dest: admit_job_inv split: option.splits sum.splits if_splits)
qed

lemma background_results_inv:
  "zcode_inv s log \<Longrightarrow> background_results session jobs s = (Inr ms, s') \<Longrightarrow> zcode_inv s' (log @ map mark_of ms)"
proof (induction jobs arbitrary: s log ms)
  case (Cons job jobs)
  from Cons.prems obtain m s1 ns where
    1: "background_result session job s = (Inr m, s1)" and 2: "background_results session jobs s1 = (Inr ns, s')"
    and ms: "ms = (case m of None \<Rightarrow> [] | Some m \<Rightarrow> [m]) @ ns"
    by (auto split: prod.splits sum.splits)
  show ?case using Cons.IH [OF background_result_inv [OF Cons.prems(1) 1] 2] by (simp add: ms)
qed simp

lemma zcode_inv_finish:
  assumes "zcode_inv s log" and "finish_input session jobs s = (Inr ms, s')"
  shows "zcode_inv s' (log @ map mark_of ms)"
proof -
  from assms(2) obtain t where "background_results session jobs s = (Inr ms, t)" "tools t = []" "pending_background t = []"
    "s' = t\<lparr>current_input := None, guides := []\<rparr>"
    by (auto simp: finish_input_def split: prod.splits sum.splits if_splits)
  with background_results_inv [OF assms(1)] show ?thesis
    by (fastforce simp: zcode_inv_def tools_inv_def talk_inv_def)
qed

section \<open>Events\<close>

lemma text_delta_inv:
  assumes "zcode_inv s log" and "\<not> terminal_seen s" and "text_delta session payload s = (Inr ms, s')"
  shows "zcode_inv s' (log @ map mark_of ms)"
proof -
  obtain delta message where given: "get_str payload ''delta'' = Some delta" "get_str payload ''assistantMessageId'' = Some message"
    using assms(3) by (auto simp: text_delta_def split: option.split_asm)
  let ?kept = "if final_message s = Some message then final_suffix s else []"
  have "s' = s\<lparr>final_suffix := ?kept @ delta, final_message := Some message\<rparr>"
    and ms: "map mark_of ms = [Said message delta]" and fits: "length (?kept @ delta) \<le> MAX_ASSISTANT_BYTES"
    using assms(3) given by (auto simp: text_delta_def Let_def marked split: if_split_asm)
  then show ?thesis using assms(1,2) unfolding ms by (auto simp: zcode_inv_def tools_inv_def talk_inv_def)
qed

lemma reasoning_marks:
  "map mark_of (reasoning_delta session payload) = [] \<or> (\<exists>i t. map mark_of (reasoning_delta session payload) = [Thought i t])"
  by (auto simp: reasoning_delta_def marked split: option.splits)

lemma usage_marks: "map mark_of (usage_messages session event) \<in> {[], [Used]}"
  by (auto simp: usage_messages_def Let_def marked)

lemma tool_called_inv:
  assumes "zcode_inv s log" and "\<not> terminal_seen s" and "current_input s \<noteq> None"
    and "tool_called session payload s = (Inr ms, s')"
  shows "zcode_inv s' (log @ map mark_of ms)"
proof -
  obtain c where c: "get_str payload ''toolCallId'' = Some c" "c \<notin> set (seen_tools s)" "map_of (background s) c = None"
    and "length (seen_tools s) < 4096" "map mark_of ms = [Announced c]"
    and "s' = s\<lparr>seen_tools := c # seen_tools s, tools := AList.update c payload (tools s), final_suffix := [], final_message := None\<rparr>"
    using assms(4) by (auto simp: tool_called_def result_messages_def marked split: option.split_asm if_split_asm sum.split_asm)
  moreover have "Settled c \<notin> set log"
    using assms(1) c(2) orderly_settled [of log c] by (auto simp: zcode_inv_def tools_inv_def)
  ultimately show ?thesis using assms(1-3)
    by (auto simp: store_simps zcode_inv_def tools_inv_def talk_inv_def)
qed

lemma tool_settled_inv:
  assumes "zcode_inv s log" and "\<not> terminal_seen s" and "map_of (tools s) c = Some tool"
    and "tool_update tool (Some r) = Inr u"
  shows "zcode_inv (s\<lparr>tools := AList.delete c (tools s)\<rparr>) (log @ [mark_of (update_message session u)])"
  using assms
  by (auto simp: marked store_simps zcode_inv_def tools_inv_def talk_inv_def)

lemma tool_result_inv:
  assumes "zcode_inv s log" and "\<not> terminal_seen s" and "current_input s \<noteq> None"
    and "tool_result session payload s = (Inr ms, s')"
  shows "zcode_inv s' (log @ map mark_of ms)"
proof -
  have reported: "zcode_inv (s\<lparr>tools := AList.delete c (tools s)\<rparr>) log"
    if "map_of (background s) c \<noteq> None" for c
    using assms(1) that by (auto simp: store_simps zcode_inv_def tools_inv_def talk_inv_def)
  have pending: "zcode_inv (s\<lparr>pending_background := p\<rparr>) log" for p
    using assms(1,3) by (auto simp: zcode_inv_def tools_inv_def talk_inv_def)
  show ?thesis
    using assms(4) reported pending assms(1) tool_settled_inv [OF assms(1,2)]
    by (auto simp: tool_result_def split: option.splits if_splits sum.splits)
qed

lemma tool_ended_inv:
  assumes "zcode_inv s log" and "\<not> terminal_seen s" and "tool_ended session payload content s = (Inr ms, s')"
  shows "zcode_inv s' (log @ map mark_of ms)"
  using assms tool_settled_inv [OF assms(1,2)]
  by (auto simp: tool_ended_def result_messages_def bind_eq_Some_conv split: option.splits sum.splits)

lemma turn_ended_inv:
  assumes inv: "zcode_inv s log" and "\<not> terminal_seen s" and "turn_ended session event s = (Inr (ms, t), s')"
  shows "zcode_inv s' (log @ map mark_of ms @ [Ended])"
proof -
  have ends: "zcode_inv (s\<lparr>terminal_seen := True\<rparr>) (log @ [Ended])"
    if "zcode_inv s log" for log
    using that assms(2) by (auto simp: zcode_inv_def tools_inv_def talk_inv_def)
  have says: "zcode_inv (s\<lparr>terminal_seen := True\<rparr>) (log @ [Said i x, Ended])"
    if "zcode_inv s log" for log i x
    using that assms(2) by (auto simp: zcode_inv_def tools_inv_def talk_inv_def)
  from usage_marks [of session event] show ?thesis
    using assms(3) ends [OF inv] ends [OF zcode_inv_beside(2) [OF inv assms(2)]] says [OF inv]
      says [OF zcode_inv_beside(2) [OF inv assms(2)]] inv
    by (auto simp: turn_ended_def Let_def marked split: if_splits)
qed

lemma plain_result_Inr:
  "(case x of (r, s) \<Rightarrow> (case r of Inl e \<Rightarrow> Inl e | Inr ms \<Rightarrow> Inr (ms, None), s)) = (Inr (ms, t), s')
     \<longleftrightarrow> x = (Inr ms, s') \<and> t = None"
  by (cases x) (auto split: sum.split)

lemma end_result_Inr:
  "(case x of (Inl e, s) \<Rightarrow> (Inl e, s) | (Inr (ms, t), s) \<Rightarrow> (Inr (ms, Some t), s)) = (Inr (ms, t), s')
     \<longleftrightarrow> (\<exists>r. x = (Inr (ms, r), s') \<and> t = Some r)"
  by (cases x) (auto split: sum.split)

lemma turn_messages_cases:
  assumes "turn_messages session event s = (Inr (ms, t), s')"
  obtains p where "text_delta session p s = (Inr ms, s')" "t = None"
  | p where "ms = reasoning_delta session p" "s' = s" "t = None"
  | p where "tool_called session p s = (Inr ms, s')" "t = None"
  | p where "tool_result session p s = (Inr ms, s')" "t = None"
  | p c where "tool_ended session p c s = (Inr ms, s')" "t = None"
  | r where "turn_ended session event s = (Inr (ms, r), s')" "t = Some r"
  | "ms = []" "s' = s" "t = None"
proof -
  have eq: "(if c then a else b) = d \<longleftrightarrow> (if c then a = d else b = d)"
    for c and a b d :: "(string + Value list \<times> (string + Value) option) \<times> SessionEvents"
    by simp
  have case_if: "(if c then p else q) \<Longrightarrow> (p \<Longrightarrow> R) \<Longrightarrow> (q \<Longrightarrow> R) \<Longrightarrow> R" for c p q R by (cases c) simp_all
  from assms [unfolded turn_messages_def Let_def eq plain_result_Inr end_result_Inr] show thesis
    by (elim case_if) (auto intro: that)
qed

lemma turn_messages_inv:
  assumes "zcode_inv s log" and "\<not> terminal_seen s" and "current_input s \<noteq> None"
    and "turn_messages session event s = (Inr (ms, t), s')"
  shows "zcode_inv s' (log @ map mark_of ms @ (if t = None then [] else [Ended]))"
  using assms(4)
proof (cases rule: turn_messages_cases)
  case (1 p)
  then show ?thesis using text_delta_inv [OF assms(1,2)] by simp
next
  case (2 p)
  then show ?thesis using reasoning_marks [of session p] assms(1) zcode_inv_beside(1) [OF assms(1,2)] by auto
next
  case (3 p)
  then show ?thesis using tool_called_inv [OF assms(1-3)] by simp
next
  case (4 p)
  then show ?thesis using tool_result_inv [OF assms(1-3)] by simp
next
  case (5 p c)
  then show ?thesis using tool_ended_inv [OF assms(1,2)] by simp
next
  case (6 r)
  then show ?thesis using turn_ended_inv [OF assms(1,2)] by simp
next
  case 7
  then show ?thesis using assms(1) by simp
qed

lemma steer_queued_frame: "\<exists>g. snd (steer_queued event s) = s\<lparr>guides := g\<rparr>"
proof -
  have "\<exists>g. s = s\<lparr>guides := g\<rparr>" by (rule exI [of _ "guides s"]) simp
  then show ?thesis by (simp add: steer_queued_def Let_def split: option.split) blast
qed

lemma steer_drained_frame: "\<exists>g. steer_drained event s = s\<lparr>guides := g\<rparr>"
  by (auto simp: steer_drained_def Let_def split: option.splits) (metis SessionEvents.surjective SessionEvents.update_convs(12))+

lemma guides_frame:
  "current_input (s\<lparr>guides := g\<rparr>) = current_input s" "terminal_seen (s\<lparr>guides := g\<rparr>) = terminal_seen s"
  by simp_all

lemma receive_owned_inv:
  assumes "zcode_inv s log" and "\<not> terminal_seen s" and "current_input s \<noteq> None"
    and "receive_owned session event s = (Inr t, s')"
  shows "zcode_inv s' (log @ marks t)"
proof -
  obtain g where g: "snd (steer_queued event s) = s\<lparr>guides := g\<rparr>" using steer_queued_frame by blast
  obtain h where h: "steer_drained event (s\<lparr>guides := g\<rparr>) = (s\<lparr>guides := g\<rparr>)\<lparr>guides := h\<rparr>" using steer_drained_frame by blast
  let ?s = "(s\<lparr>guides := g\<rparr>)\<lparr>guides := h\<rparr>"
  from assms(4) obtain ms e where "turn_messages session event ?s = (Inr (ms, e), s')"
    and t: "translated_messages t = ms" "translated_terminal t = e"
    using g h by (auto simp: receive_owned_def split: prod.splits sum.splits)
  then have "zcode_inv s' (log @ map mark_of ms @ (if e = None then [] else [Ended]))"
    by (intro turn_messages_inv [of ?s]) (use assms in simp_all)
  then show ?thesis by (simp add: marks_def t)
qed

lemma marks_none [simp]: "marks no_translation = []"
  by (simp add: marks_def no_translation_def)

lemma marks_with [simp]: "marks (with_messages ms) = map mark_of ms"
  by (simp add: marks_def with_messages_def no_translation_def)

lemma adopt_turn_frame: "\<exists>turn. adopt_turn event s = s\<lparr>current_turn := turn\<rparr>"
  by (auto simp: adopt_turn_def split: option.splits) (metis SessionEvents.surjective SessionEvents.update_convs(3))+

lemma receive_for_input_inv:
  assumes "zcode_inv s log" and "receive_for_input session event s = (Inr t, s')"
  shows "zcode_inv s' (log @ marks t)"
proof -
  obtain turn where turn: "adopt_turn event s = s\<lparr>current_turn := turn\<rparr>" using adopt_turn_frame by blast
  have started: "zcode_inv s' (log @ marks t)" if "turn_started session event s = (Inr t, s')" "\<not> terminal_seen s"
    using that assms(1) zcode_inv_beside(3) [OF assms(1) that(2)]
    by (auto simp: turn_started_def Let_def marked split: if_splits option.splits)
  have owned: "zcode_inv s' (log @ marks t)"
    if "receive_owned session event (s\<lparr>current_turn := turn\<rparr>) = (Inr t, s')" "current_input s \<noteq> None" "\<not> terminal_seen s"
    using assms(1) that by (intro receive_owned_inv [OF _ _ _ that(1)]) simp_all
  show ?thesis
    using assms started owned by (simp add: receive_for_input_def turn Let_def split: if_splits) auto
qed

lemma zcode_inv_receive:
  assumes "zcode_inv s log" and "receive_event event s = (Inr t, s')"
  shows "zcode_inv s' (log @ marks t)"
proof (cases "Option.bind (get event ''seq'') as_u64")
  case None
  then show ?thesis using assms by (simp add: receive_event_def)
next
  case (Some n)
  let ?s = "s\<lparr>event_sequence := n\<rparr>"
  have inv: "zcode_inv ?s log" using assms(1) by simp
  have refresh: "marks ((with_messages ms)\<lparr>translated_context_refresh := b\<rparr>) = map mark_of ms" for ms b
    by (simp add: marks_def with_messages_def no_translation_def)
  show ?thesis
  proof (cases "n \<le> event_sequence s \<or> get_str event ''sessionId'' = None \<or> compaction_of event \<noteq> None")
    case True
    then show ?thesis using assms Some inv
      by (auto simp: receive_event_def Let_def refresh marked split: if_splits option.splits prod.splits)
  next
    case False
    then have "compaction_of event = None" by (cases "compaction_of event") auto
    moreover from False obtain session where "get_str event ''sessionId'' = Some session" by auto
    ultimately have r: "(case (if reports_job event ?s then background_result session (payload_of event) ?s else (Inr None, ?s)) of
            (Inl e, s) \<Rightarrow> (Inl e, s)
          | (Inr (Some m), s) \<Rightarrow> (Inr (with_messages [m]), s)
          | (Inr None, s) \<Rightarrow> receive_for_input session event s) = (Inr t, s')"
      using assms(2) Some False by (simp add: receive_event_def Let_def)
    then obtain m u where
      m: "(if reports_job event ?s then background_result session (payload_of event) ?s else (Inr None, ?s)) = (Inr m, u)"
      by (auto split: prod.splits sum.splits)
    then have u: "zcode_inv u (log @ map mark_of (case m of None \<Rightarrow> [] | Some m \<Rightarrow> [m]))"
      using background_result_inv [OF inv] inv by (auto split: if_splits)
    show ?thesis
    proof (cases m)
      case None
      with r m u receive_for_input_inv show ?thesis by simp
    next
      case (Some x)
      with r m u show ?thesis by auto
    qed
  qed
qed

section \<open>Where an end comes from\<close>

abbreviation end_turn :: Value where
  "end_turn \<equiv> Object [(''stopReason'', JString ''end_turn'')]"

lemma spoken_append: "spoken (log @ xs) = fold (\<lambda>m a. spoken_step a m) xs (spoken log)"
  by (simp add: spoken_def)

lemma turn_ended_text:
  assumes "zcode_inv s log" and "\<not> terminal_seen s" and "turn_ended session event s = (Inr (ms, Inr end_turn), s')"
  shows "fst (spoken (log @ map mark_of ms @ [Ended])) = str_at (payload_of event) ''response''"
proof -
  let ?usage = "usage_messages session event" and ?response = "str_at (payload_of event) ''response''"
  have now: "spoken log = (final_suffix s, final_message s)" using assms(1,2) by (simp add: zcode_inv_def talk_inv_def)
  have usage: "fold (\<lambda>m a. spoken_step a m) (map mark_of ?usage) a = a" for a
    using usage_marks [of session event] by (cases a) auto
  have "final_suffix s = [] \<and> (\<exists>i. ms = ?usage @ [update_message session (text_chunk ''agent_message_chunk'' i ?response)])
      \<or> ms = ?usage \<and> final_suffix s = ?response"
    using assms(3) unfolding turn_ended_def Let_def by (auto split: if_splits)
  then show ?thesis
    by (elim disjE conjE exE) (simp_all add: spoken_append now usage marked)
qed

lemma turn_messages_end:
  assumes "turn_messages session event s = (Inr (ms, Some r), s')"
  shows "turn_ended session event s = (Inr (ms, r), s')"
  using assms by (cases rule: turn_messages_cases) simp_all

definition ends_with :: "string \<Rightarrow> Value \<Rightarrow> ZcodeMark list \<Rightarrow> Translated \<Rightarrow> string + Value \<Rightarrow> SessionEvents \<Rightarrow> bool" where
  "ends_with session event log t r s' \<longleftrightarrow>
     (\<exists>u. zcode_inv u log \<and> \<not> terminal_seen u \<and> turn_ended session event u = (Inr (translated_messages t, r), s'))"

lemma receive_owned_end:
  assumes "zcode_inv s log" and "\<not> terminal_seen s" and "receive_owned session event s = (Inr t, s')"
    and "translated_terminal t = Some r"
  shows "ends_with session event log t r s'"
proof -
  obtain g where g: "snd (steer_queued event s) = s\<lparr>guides := g\<rparr>" using steer_queued_frame by blast
  obtain h where h: "steer_drained event (s\<lparr>guides := g\<rparr>) = (s\<lparr>guides := g\<rparr>)\<lparr>guides := h\<rparr>" using steer_drained_frame by blast
  let ?s = "(s\<lparr>guides := g\<rparr>)\<lparr>guides := h\<rparr>"
  from assms(3,4) have "turn_messages session event ?s = (Inr (translated_messages t, Some r), s')"
    using g h by (auto simp: receive_owned_def split: prod.splits sum.splits)
  then have "turn_ended session event ?s = (Inr (translated_messages t, r), s')" by (rule turn_messages_end)
  moreover have "zcode_inv ?s log" "\<not> terminal_seen ?s" using assms(1,2) by simp_all
  ultimately show ?thesis unfolding ends_with_def by blast
qed

lemma quiet [simp]: "translated_terminal no_translation = None" "translated_terminal (with_messages ms) = None"
  by (simp_all add: no_translation_def with_messages_def)

lemma receive_for_input_end:
  assumes "zcode_inv s log" and "receive_for_input session event s = (Inr t, s')" and "translated_terminal t = Some r"
  shows "ends_with session event log t r s'"
proof -
  obtain turn where turn: "adopt_turn event s = s\<lparr>current_turn := turn\<rparr>" using adopt_turn_frame by blast
  have "turn_started session event s \<noteq> (Inr t, s')"
    using assms(3) by (auto simp: turn_started_def Let_def split: if_splits option.splits)
  with assms have "receive_owned session event (s\<lparr>current_turn := turn\<rparr>) = (Inr t, s')" "\<not> terminal_seen s"
    by (auto simp: receive_for_input_def turn Let_def split: if_splits)
  then show ?thesis using assms(1,3) by (intro receive_owned_end) simp_all
qed

lemma receive_event_end:
  assumes "zcode_inv s log" and "receive_event event s = (Inr t, s')" and "translated_terminal t = Some r"
  shows "\<exists>session. ends_with session event log t r s'"
proof -
  from assms(2,3) obtain n session where
    r: "(case (if reports_job event (s\<lparr>event_sequence := n\<rparr>)
               then background_result session (payload_of event) (s\<lparr>event_sequence := n\<rparr>)
               else (Inr None, s\<lparr>event_sequence := n\<rparr>)) of
            (Inl e, s) \<Rightarrow> (Inl e, s)
          | (Inr (Some m), s) \<Rightarrow> (Inr (with_messages [m]), s)
          | (Inr None, s) \<Rightarrow> receive_for_input session event s) = (Inr t, s')"
    by (auto simp: receive_event_def Let_def split: option.splits if_splits)
  then obtain m u where
    m: "(if reports_job event (s\<lparr>event_sequence := n\<rparr>)
         then background_result session (payload_of event) (s\<lparr>event_sequence := n\<rparr>)
         else (Inr None, s\<lparr>event_sequence := n\<rparr>)) = (Inr m, u)"
    by (auto split: prod.splits sum.splits)
  with r assms(3) have none: "m = None" by (cases m) auto
  moreover have inv: "zcode_inv (s\<lparr>event_sequence := n\<rparr>) log" using assms(1) by simp
  ultimately have "zcode_inv u log" using m background_result_inv [OF inv, of session "payload_of event" None u]
    by (auto split: if_splits)
  then show ?thesis using r m none assms(3) receive_for_input_end by fastforce
qed

section \<open>The sequence\<close>

lemma settle_job_sequence [simp]: "event_sequence (settle_job call status s) = event_sequence s"
  by (simp add: settle_job_def Let_def)

lemma admit_job_sequence: "admit_job call task_id job s = Inr (Some s') \<Longrightarrow> event_sequence s' = event_sequence s"
  by (erule admit_job_cases) simp_all

lemma background_result_sequence: "event_sequence (snd (background_result session job s)) = event_sequence s"
proof -
  have "background_result session job s = (r, s') \<Longrightarrow> event_sequence s' = event_sequence s" for r s'
    by (auto simp: background_result_def dest: admit_job_sequence split: option.split_asm sum.split_asm if_split_asm)
  then show ?thesis by (metis prod.collapse)
qed

lemma background_results_sequence:
  "background_results session jobs s = (r, s') \<Longrightarrow> event_sequence s' = event_sequence s"
proof (induction jobs arbitrary: s r)
  case (Cons job jobs)
  then show ?case using background_result_sequence [of session job s]
    by (fastforce split: prod.splits sum.splits)
qed simp

lemma finish_sequence: "finish_input session jobs s = (r, s') \<Longrightarrow> event_sequence s' = event_sequence s"
  by (auto simp: finish_input_def split: prod.splits sum.splits if_splits dest: background_results_sequence)

lemma handler_sequences:
  "event_sequence (snd (text_delta session payload s)) = event_sequence s"
  "event_sequence (snd (tool_called session payload s)) = event_sequence s"
  "event_sequence (snd (tool_result session payload s)) = event_sequence s"
  "event_sequence (snd (tool_ended session payload content s)) = event_sequence s"
  by (simp_all add: text_delta_def tool_called_def tool_result_def tool_ended_def Let_def split: option.split sum.split)

lemma turn_ended_sequence: "event_sequence (snd (turn_ended session event s)) = event_sequence s"
  unfolding turn_ended_def Let_def by simp

lemma turn_messages_sequence: "event_sequence (snd (turn_messages session event s)) = event_sequence s"
proof -
  have plain: "snd (case x of (r, s) \<Rightarrow> (case r of Inl e \<Rightarrow> Inl e | Inr ms \<Rightarrow> Inr (ms, None), s)) = snd x"
    for x :: "(string + Value list) \<times> SessionEvents"
    by (cases x) simp
  have ending: "snd (case x of (Inl e, s) \<Rightarrow> (Inl e, s) | (Inr (ms, t), s) \<Rightarrow> (Inr (ms, Some t), s)) = snd x"
    for x :: "(string + Value list \<times> (string + Value)) \<times> SessionEvents"
    by (cases x) (simp split: sum.split prod.split)
  show ?thesis
    unfolding turn_messages_def Let_def
    by (simp only: if_distrib [of snd] if_distrib [of event_sequence] plain ending snd_conv handler_sequences turn_ended_sequence if_cancel)
qed

lemma receive_for_input_sequence: "event_sequence (snd (receive_for_input session event s)) = event_sequence s"
proof -
  obtain turn where turn: "adopt_turn event s = s\<lparr>current_turn := turn\<rparr>" using adopt_turn_frame by blast
  have "event_sequence (snd (turn_started session event s)) = event_sequence s"
    by (auto simp: turn_started_def Let_def split: option.splits)
  moreover have "event_sequence (snd (receive_owned session event s)) = event_sequence s" for s
  proof -
    obtain g where g: "snd (steer_queued event s) = s\<lparr>guides := g\<rparr>" using steer_queued_frame by blast
    obtain h where h: "steer_drained event (s\<lparr>guides := g\<rparr>) = (s\<lparr>guides := g\<rparr>)\<lparr>guides := h\<rparr>" using steer_drained_frame by blast
    show ?thesis using turn_messages_sequence [of session event "(s\<lparr>guides := g\<rparr>)\<lparr>guides := h\<rparr>"] g h
      by (auto simp: receive_owned_def split: prod.splits sum.splits)
  qed
  ultimately show ?thesis by (simp add: receive_for_input_def turn Let_def)
qed

lemma after_report_sequence:
  "event_sequence (snd (case p of
      (Inl e, s) \<Rightarrow> (Inl e, s)
    | (Inr (Some m), s) \<Rightarrow> (Inr (with_messages [m]), s)
    | (Inr None, s) \<Rightarrow> receive_for_input session event s)) = event_sequence (snd p)"
  by (cases p) (simp add: receive_for_input_sequence split: sum.split option.split)

lemma receive_sequence:
  "event_sequence (snd (receive_event event s)) =
   (case Option.bind (get event ''seq'') as_u64 of None \<Rightarrow> event_sequence s | Some n \<Rightarrow> max n (event_sequence s))"
proof (cases "Option.bind (get event ''seq'') as_u64")
  case None
  then show ?thesis by (simp add: receive_event_def)
next
  case (Some n)
  then show ?thesis
    by (simp add: receive_event_def Let_def after_report_sequence [unfolded case_prod_unfold] background_result_sequence
      receive_for_input_sequence case_prod_unfold split: option.split)
qed

section \<open>Histories\<close>

text \<open>
  What the host does with the session, and what was passed on since the input began. A call that fails is not in a
  history: the host gives up the process then.
\<close>

inductive zcode_step :: "SessionEvents \<times> ZcodeMark list \<Rightarrow> SessionEvents \<times> ZcodeMark list \<Rightarrow> bool" where
  step_begins: "begin_input input s = Inr s' \<Longrightarrow> zcode_step (s, log) (s', [])"
| step_steers: "begin_steer expected input text' s = Inr s' \<Longrightarrow> zcode_step (s, log) (s', log)"
| step_rejects: "zcode_step (s, log) (reject_runtime_headers turn s, log)"
| step_receives: "receive_event event s = (Inr t, s') \<Longrightarrow> zcode_step (s, log) (s', log @ marks t)"
| step_finishes: "finish_input session jobs s = (Inr ms, s') \<Longrightarrow> zcode_step (s, log) (s', log @ map mark_of ms)"

inductive_cases zcode_stepE: "zcode_step p q"

definition zcode_start :: "SessionEvents \<times> ZcodeMark list \<Rightarrow> bool" where
  "zcode_start p \<longleftrightarrow> (\<exists>n. p = (new_session_events n, []))"

lemma zcode_step_inv: "zcode_step p q \<Longrightarrow> zcode_inv (fst p) (snd p) \<Longrightarrow> zcode_inv (fst q) (snd q)"
  by (erule zcode_stepE)
    (auto intro: zcode_inv_begin zcode_inv_steer zcode_inv_reject zcode_inv_receive zcode_inv_finish)

lemma zcode_step_sequence: "zcode_step p q \<Longrightarrow> event_sequence (fst p) \<le> event_sequence (fst q)"
proof (erule zcode_stepE)
  fix event s t s' log
  assume "receive_event event s = (Inr t, s')" "p = (s, log)" "q = (s', log @ marks t)"
  then show "event_sequence (fst p) \<le> event_sequence (fst q)"
    using receive_sequence [of event s] by (auto split: option.splits)
qed (auto simp: begin_input_def begin_steer_def reject_runtime_headers_def dest: finish_sequence split: if_splits)

interpretation zcode_system: monotone_system zcode_start zcode_step "\<lambda>p. zcode_inv (fst p) (snd p)" "\<lambda>p. event_sequence (fst p)"
  by unfold_locales (auto simp: zcode_start_def zcode_inv_new zcode_step_sequence intro: zcode_step_inv)

text \<open>An input and an edit, for the examples.\<close>

definition zcode_event :: "nat \<Rightarrow> string \<Rightarrow> (string \<times> Value) list \<Rightarrow> Value" where
  "zcode_event n kind payload =
     Object [(''seq'', Number (PosInt n)), (''sessionId'', JString ''s''), (''turnId'', JString ''t''), (''type'', JString kind),
       (''payload'', Object payload)]"

definition said_hello :: Value where
  "said_hello = zcode_event 2 ''model.streaming''
     [(''kind'', JString ''text_delta''), (''delta'', JString ''hello''), (''assistantMessageId'', JString ''m'')]"

definition said_all :: Value where
  "said_all = zcode_event 3 ''turn.completed''
     [(''inputId'', JString ''i''), (''resultType'', JString ''success''), (''response'', JString ''hello'')]"

definition hello_start :: SessionEvents where
  "hello_start = (new_session_events 0)\<lparr>current_input := Some ''i''\<rparr>"

definition hello_turn :: SessionEvents where
  "hello_turn = hello_start\<lparr>event_sequence := 1, current_turn := Some ''t''\<rparr>"

definition hello_said :: SessionEvents where
  "hello_said = hello_turn\<lparr>event_sequence := 2, final_suffix := ''hello'', final_message := Some ''m''\<rparr>"

definition passes :: "Value \<Rightarrow> SessionEvents \<Rightarrow> SessionEvents \<Rightarrow> ZcodeMark list \<Rightarrow> (string + Value) option \<Rightarrow> bool" where
  "passes event s s' ms stop =
     (case receive_event event s of (Inl e, u) \<Rightarrow> False | (Inr t, u) \<Rightarrow> u = s' \<and> marks t = ms \<and> translated_terminal t = stop)"

lemma passesE:
  assumes "passes event s s' ms stop"
  obtains t where "receive_event event s = (Inr t, s')" "marks t = ms" "translated_terminal t = stop"
  using assms by (auto simp: passes_def split: prod.splits sum.splits)

lemmas run_simps = passes_def Let_def zcode_event_def payload_of_def event_kind_of_def receive_event_def
  receive_for_input_def turn_started_def receive_owned_def turn_messages_def text_delta_def turn_ended_def compaction_of_def
  reports_job_def adopt_turn_def owns_turn_def steer_queued_def steer_drained_def needs_context_def usage_messages_def
  hello_start_def hello_turn_def new_session_events_def MAX_ASSISTANT_BYTES_def marks_def marked get_str_def path_str_def
  str_at_def field_or_null_def with_messages_def no_translation_def

lemma hello_steps:
  "begin_input ''i'' (new_session_events 0) = Inr hello_start"
  "passes (zcode_event 1 ''turn.started'' [(''inputId'', JString ''i'')]) hello_start hello_turn [Accepted] None"
  "passes said_hello hello_turn hello_said [Said ''m'' ''hello''] None"
  "passes said_all hello_said (hello_said\<lparr>event_sequence := 3, terminal_seen := True\<rparr>) [Ended] (Some (Inr end_turn))"
  by (simp_all add: run_simps begin_input_def hello_said_def said_hello_def said_all_def)

text \<open>A second run uses a tool.\<close>

definition called_read :: Value where
  "called_read = zcode_event 2 ''model.streaming''
     [(''kind'', JString ''tool_call''), (''toolCallId'', JString ''c''), (''toolName'', JString ''Read'')]"

definition read_result :: Value where
  "read_result = zcode_event 3 ''tool.updated''
     [(''kind'', JString ''result''), (''toolCallId'', JString ''c''), (''result'', Object [(''success'', Bool True)])]"

definition read_done :: Value where
  "read_done = zcode_event 4 ''turn.completed''
     [(''inputId'', JString ''i''), (''resultType'', JString ''success'')]"

definition read_called :: SessionEvents where
  "read_called = hello_turn\<lparr>event_sequence := 2, seen_tools := [''c''], tools := [(''c'', payload_of called_read)]\<rparr>"

definition read_settled :: SessionEvents where
  "read_settled = hello_turn\<lparr>event_sequence := 3, seen_tools := [''c'']\<rparr>"

lemma read_steps:
  "passes called_read hello_turn read_called [Announced ''c''] None"
  "passes read_result read_called read_settled [Settled ''c''] None"
  "passes read_done read_settled (read_settled\<lparr>event_sequence := 4, terminal_seen := True\<rparr>) [Ended] (Some (Inr end_turn))"
  "finish_input ''s'' [] (read_settled\<lparr>event_sequence := 4, terminal_seen := True\<rparr>) =
     (Inr [], read_settled\<lparr>event_sequence := 4, terminal_seen := True, current_input := None\<rparr>)"
  by (simp_all add: run_simps called_read_def read_result_def read_done_def read_called_def read_settled_def tool_called_def
    tool_result_def result_messages_def tool_update_def base_update_def result_succeeded_def mark_of_def update_mark_def update_message_def
    result_status_def finish_input_def)

lemma passes_step: "passes event s s' ms stop \<Longrightarrow> zcode_step\<^sup>*\<^sup>* p (s, log) \<Longrightarrow> zcode_step\<^sup>*\<^sup>* p (s', log @ ms)"
  by (elim passesE) (auto intro: rtranclp.rtrancl_into_rtrancl step_receives)

lemma hello_run:
  "zcode_step\<^sup>*\<^sup>* (new_session_events 0, []) (hello_turn, [Accepted])"
  "zcode_step\<^sup>*\<^sup>* (new_session_events 0, []) (hello_said, [Accepted, Said ''m'' ''hello''])"
proof -
  have "zcode_step\<^sup>*\<^sup>* (new_session_events 0, []) (hello_start, [])"
    using step_begins [OF hello_steps(1)] by (rule r_into_rtranclp)
  from passes_step [OF hello_steps(2) this] show 1: "zcode_step\<^sup>*\<^sup>* (new_session_events 0, []) (hello_turn, [Accepted])" by simp
  from passes_step [OF hello_steps(3) 1]
  show "zcode_step\<^sup>*\<^sup>* (new_session_events 0, []) (hello_said, [Accepted, Said ''m'' ''hello''])" by simp
qed

lemma read_run:
  "zcode_step\<^sup>*\<^sup>* (new_session_events 0, [])
     (read_settled\<lparr>event_sequence := 4, terminal_seen := True, current_input := None\<rparr>,
      [Accepted, Announced ''c'', Settled ''c'', Ended])"
proof -
  let ?ended = "read_settled\<lparr>event_sequence := 4, terminal_seen := True\<rparr>"
  have "zcode_step\<^sup>*\<^sup>* (new_session_events 0, []) (?ended, [Accepted, Announced ''c'', Settled ''c'', Ended])"
    using passes_step [OF read_steps(3) passes_step [OF read_steps(2) passes_step [OF read_steps(1) hello_run(1)]]] by simp
  from rtranclp.rtrancl_into_rtrancl [OF this step_finishes [OF read_steps(4)]] show ?thesis by simp
qed

lemma new_start [simp]: "zcode_start (new_session_events n, [])"
  by (auto simp: zcode_start_def)

section \<open>What a session promises\<close>

text \<open>
  C37: when an input ends well, the text the reader has before him, which is that of the last message after the last
  tool, is the final response, whatever was streamed before and in however many messages: nothing of it is missing,
  doubled or from another message.
\<close>

theorem final_text_is_response:
  assumes "zcode_start p" and "zcode_step\<^sup>*\<^sup>* p (s, log)" and "receive_event event s = (Inr t, s')"
    and "translated_terminal t = Some (Inr end_turn)"
  shows "fst (spoken (log @ marks t)) = str_at (payload_of event) ''response''"
proof -
  have "zcode_inv s log" using zcode_system.inv_reachable [OF assms(1,2)] by simp
  from receive_event_end [OF this assms(3,4)] obtain session u where "zcode_inv u log" "\<not> terminal_seen u"
    "turn_ended session event u = (Inr (translated_messages t, Inr end_turn), s')"
    by (auto simp: ends_with_def)
  from turn_ended_text [OF this] show ?thesis using assms(4) by (simp add: marks_def)
qed

theorem final_text_is_response_witness:
  "\<exists>t. receive_event said_all hello_said = (Inr t, hello_said\<lparr>event_sequence := 3, terminal_seen := True\<rparr>)
     \<and> fst (spoken ([Accepted, Said ''m'' ''hello''] @ marks t)) = ''hello''"
proof -
  obtain t where t: "receive_event said_all hello_said = (Inr t, hello_said\<lparr>event_sequence := 3, terminal_seen := True\<rparr>)"
    "translated_terminal t = Some (Inr end_turn)"
    using hello_steps(4) by (rule passesE)
  from final_text_is_response [OF new_start hello_run(2) t] t(1) show ?thesis
    by (simp add: said_all_def zcode_event_def payload_of_def str_at_def get_str_def field_or_null_def)
qed

text \<open>
  C38: over any history, a tool is announced once and settled at most once, after it was announced. An input ends at
  most once, and behind its end nothing of it is passed on any more, neither what it says or thinks nor a tool, a
  usage or an acceptance: only compactions of the session and reports on tasks of the background come
  then. No message of any other sort is passed on. Between inputs every tool of the last one is settled or was reported
  as a task of the background, and the tools and the tasks stay within their limits.
\<close>

theorem tools_are_answered:
  assumes "zcode_start p" and "zcode_step\<^sup>*\<^sup>* p (s, log)"
  shows "orderly log
    \<and> (current_input s = None \<longrightarrow> (\<forall>c. Announced c \<in> set log \<longrightarrow> Settled c \<in> set log \<or> Reported c \<in> set log))
    \<and> length (seen_tools s) \<le> 4096 \<and> length (background s) \<le> 4096 \<and> length (final_suffix s) \<le> MAX_ASSISTANT_BYTES"
  using zcode_system.inv_reachable [OF assms] by (auto simp: zcode_inv_def tools_inv_def talk_inv_def)

theorem tools_are_answered_witness:
  "orderly [Accepted, Announced ''c'', Settled ''c'', Ended]
    \<and> Settled ''c'' \<in> set [Accepted, Announced ''c'', Settled ''c'', Ended]"
  using tools_are_answered [OF new_start read_run] by simp

text \<open>
  C39: an event that was received once is never acted on again: at any later point of the history, receiving it
  passes nothing on and leaves the state as it is.
\<close>

theorem replays_change_nothing:
  assumes "zcode_start p" and "zcode_step\<^sup>*\<^sup>* p (s, log)" and "receive_event event s = (Inr t, s1)"
    and "zcode_step\<^sup>*\<^sup>* (s1, log @ marks t) (s2, log2)"
  shows "receive_event event s2 = (Inr no_translation, s2)"
proof -
  have "zcode_inv s log" using zcode_system.inv_reachable [OF assms(1,2)] by simp
  from zcode_inv_receive [OF this assms(3)] have "event_sequence s1 \<le> event_sequence s2"
    using zcode_system.rank_steps [OF assms(4)] by simp
  moreover have "event_sequence s1 =
      (case Option.bind (get event ''seq'') as_u64 of None \<Rightarrow> event_sequence s | Some n \<Rightarrow> max n (event_sequence s))"
    using receive_sequence [of event s] by (simp only: assms(3) snd_conv)
  ultimately show ?thesis
    by (cases "Option.bind (get event ''seq'') as_u64") (simp_all add: receive_event_def)
qed

theorem replays_change_nothing_witness:
  "receive_event said_hello (hello_said\<lparr>event_sequence := 3, terminal_seen := True\<rparr>) =
     (Inr no_translation, hello_said\<lparr>event_sequence := 3, terminal_seen := True\<rparr>)"
proof -
  obtain t where t: "receive_event said_hello hello_turn = (Inr t, hello_said)" using hello_steps(3) by (rule passesE)
  obtain u where u: "receive_event said_all hello_said = (Inr u, hello_said\<lparr>event_sequence := 3, terminal_seen := True\<rparr>)"
    using hello_steps(4) by (rule passesE)
  from replays_change_nothing [OF new_start hello_run(1) t r_into_rtranclp [of zcode_step, OF step_receives [OF u]]]
  show ?thesis .
qed

end
