(* ===== verification/Zcode_Patch.thy ===== *)
theory Zcode_Patch
  imports Zcode_Events Diff_Admission Diff_Roundtrip
begin

text \<open>
  A structured patch of ZCode on its way through the host: the event of the tool turns it into a unified diff
  (\<^verbatim>\<open>zcode/events.rs\<close>), the application makes a candidate of it (\<^verbatim>\<open>application.rs\<close>), and the admission of
  \<^verbatim>\<open>runtime_diff.rs\<close> reads it again.
\<close>

section \<open>Candidates\<close>

definition zcode_candidate :: "Value \<Rightarrow> Value" where
  "zcode_candidate entries =
     Object [(''adapterKind'', JString (Adapter.as_str ZcodeApp)), (''protocolFamily'', JString PROTOCOL),
       (''sourceEventKind'', JString ''tool.updated.result''), (''semanticKind'', JString ''zcode_edit_patch''), (''entries'', entries)]"

section \<open>Lines of a patch\<close>

abbreviation lined :: "string list \<Rightarrow> string" where
  "lined ls \<equiv> concat (map (\<lambda>l. l @ [NL]) ls)"

definition one_line :: "string \<Rightarrow> bool" where
  "one_line l \<longleftrightarrow> l \<noteq> [] \<and> NL \<notin> set l \<and> CR \<notin> set l"

definition hunk_line :: "string \<Rightarrow> bool" where
  "hunk_line l \<longleftrightarrow> one_line l \<and> hd l \<in> {CHR '' '', CHR ''-'', CHR ''+'', CHR 0x5C}"

definition starting :: "char \<Rightarrow> string list \<Rightarrow> nat" where
  "starting c ls = length (filter (\<lambda>l. hd l = c) ls)"

lemma starting_simps [simp]:
  "starting c [] = 0" "starting c (l # ls) = of_bool (hd l = c) + starting c ls"
  "starting c (ks @ ls) = starting c ks + starting c ls"
  by (simp_all add: starting_def)

lemma shown_line: "one_line l \<Longrightarrow> shown (l @ [NL]) = l"
  by (auto simp: shown_def strip_last_def one_line_def dest: last_in_set)

lemma lined_text: "list_all one_line ls \<Longrightarrow> text_lines (lined ls) = ls"
proof -
  assume ok: "list_all one_line ls"
  then have "list_all full_line (map (\<lambda>l. l @ [NL]) ls)"
    by (auto simp: list_all_iff one_line_def full_line_def line_like_def butlast_append)
  then have "text_lines (lined ls) = map shown (map (\<lambda>l. l @ [NL]) ls)" by (rule text_lines_full)
  also have "map shown (map (\<lambda>l. l @ [NL]) ls) = ls"
    using ok by (simp add: list_all_iff shown_line map_idI)
  finally show ?thesis .
qed

text \<open>Inside a hunk the counter of the admission counts as the translation does.\<close>

lemma count_hunk_lines:
  "list_all hunk_line ls \<Longrightarrow> \<exists>x y. count_lines (ls @ ms) True a d = count_lines ms True x y
     \<and> unat x = saturate (unat a + starting (CHR ''+'') ls) \<and> unat y = saturate (unat d + starting (CHR ''-'') ls)"
proof (induction ls arbitrary: a d)
  case Nil
  show ?case by (intro exI [of _ a] exI [of _ d]) (simp add: saturate_unat)
next
  case (Cons l ls)
  then obtain w where l: "l = hd l # w" "hd l \<in> {CHR '' '', CHR ''-'', CHR ''+'', CHR 0x5C}"
    by (auto simp: hunk_line_def one_line_def) (metis list.exhaust_sel)+
  then have "count_lines ((l # ls) @ ms) True a d = count_lines (ls @ ms) True
      (if hd l = CHR ''+'' then saturating_add a 1 else a) (if hd l = CHR ''-'' then saturating_add d 1 else d)"
    by (cases l) auto
  moreover from Cons.prems have "list_all hunk_line ls" by simp
  from Cons.IH [OF this, of "if hd l = CHR ''+'' then saturating_add a 1 else a" "if hd l = CHR ''-'' then saturating_add d 1 else d"]
  obtain x y where "count_lines (ls @ ms) True (if hd l = CHR ''+'' then saturating_add a 1 else a)
      (if hd l = CHR ''-'' then saturating_add d 1 else d) = count_lines ms True x y"
    "unat x = saturate (unat (if hd l = CHR ''+'' then saturating_add a 1 else a) + starting (CHR ''+'') ls)"
    "unat y = saturate (unat (if hd l = CHR ''-'' then saturating_add d 1 else d) + starting (CHR ''-'') ls)"
    by blast
  ultimately show ?case by (intro exI [of _ x] exI [of _ y]) (auto simp: unat_bump)
qed

section \<open>The translation\<close>

lemma count_line_spec:
  assumes "count_line line p = Some r" and "single_line line"
  shows "hunk_line line \<and> patch_text r = patch_text p
    \<and> patch_added r = patch_added p + of_bool (hd line = CHR ''+'')
    \<and> patch_deleted r = patch_deleted p + of_bool (hd line = CHR ''-'')"
proof (cases line)
  case Nil
  with assms(1) show ?thesis by (simp add: count_line_def)
next
  case (Cons c w)
  have "one_line line" using assms(2) by (auto simp: Cons one_line_def single_line_def list_all_iff)
  moreover have "c \<in> {CHR '' '', CHR ''-'', CHR ''+'', CHR 0x5C} \<and> patch_text r = patch_text p
      \<and> patch_added r = patch_added p + of_bool (c = CHR ''+'') \<and> patch_deleted r = patch_deleted p + of_bool (c = CHR ''-'')"
    using assms(1) unfolding count_line_def Cons list.case by (auto split: if_split_asm)
  ultimately show ?thesis by (simp add: hunk_line_def Cons)
qed

lemma patch_lines_spec:
  assumes "patch_lines vs p = Some q"
  shows "\<exists>ls. list_all hunk_line ls \<and> patch_text q = patch_text p @ lined ls
    \<and> patch_added q = patch_added p + starting (CHR ''+'') ls \<and> patch_deleted q = patch_deleted p + starting (CHR ''-'') ls
    \<and> length (patch_text q) \<le> max (length (patch_text p)) MAX_PATCH_BYTES
    \<and> (vs \<noteq> [] \<longrightarrow> length (patch_text p) \<le> MAX_PATCH_BYTES) \<and> (vs = [] \<longrightarrow> ls = [])"
  using assms
proof (induction vs arbitrary: p)
  case Nil
  then show ?case by (intro exI [of _ "[]"]) simp
next
  case (Cons v vs)
  then obtain line r where v: "Json.as_str v = Some line" "single_line line" "count_line line p = Some r"
    and fits: "\<not> MAX_PATCH_BYTES < length (patch_text r @ line @ [CHR 0x0A])"
    and rest: "patch_lines vs (r\<lparr>patch_text := patch_text r @ line @ [CHR 0x0A]\<rparr>) = Some q"
    by (auto simp: Let_def split: option.splits if_splits)
  have r: "hunk_line line" "patch_text r = patch_text p"
    "patch_added r = patch_added p + of_bool (hd line = CHR ''+'')" "patch_deleted r = patch_deleted p + of_bool (hd line = CHR ''-'')"
    using count_line_spec [OF v(3,2)] by simp_all
  let ?r = "r\<lparr>patch_text := patch_text r @ line @ [CHR 0x0A]\<rparr>"
  from Cons.IH [OF rest] obtain ls where "list_all hunk_line ls" "patch_text q = patch_text ?r @ lined ls"
    "patch_added q = patch_added ?r + starting (CHR ''+'') ls" "patch_deleted q = patch_deleted ?r + starting (CHR ''-'') ls"
    "length (patch_text q) \<le> max (length (patch_text ?r)) MAX_PATCH_BYTES"
    by blast
  with r fits show ?case by (intro exI [of _ "line # ls"]) (simp add: max_def)
qed

lemma patch_hunk_line:
  assumes "a < 2 ^ 64" "b < 2 ^ 64" "c < 2 ^ 64" "d < 2 ^ 64"
  shows "\<exists>h. patch_hunk_header a b c d = h @ [NL] \<and> one_line h \<and> prefix ''@@ '' h \<and> length h \<le> 91"
proof -
  let ?h = "''@@ -'' @ dec a @ '','' @ dec b @ '' +'' @ dec c @ '','' @ dec d @ '' @@''"
  have len: "length (dec n) \<le> 20" if "n < 2 ^ 64" for n
    using that by (intro dec_length) simp_all
  have digit: "x \<noteq> NL \<and> x \<noteq> CR" if "x \<in> set (dec n)" for x n
    using dec_digits [of n] that by (auto simp: list_all_iff is_ascii_digit_def)
  have "one_line ?h" using digit by (auto simp: one_line_def)
  moreover have "length ?h \<le> 91" using assms [THEN len] by simp
  ultimately show ?thesis by (intro exI [of _ ?h]) (simp add: patch_hunk_header_def)
qed

lemma count_hunk:
  assumes "prefix ''@@ '' h" and "list_all hunk_line ls"
  shows "\<exists>x y. count_lines ((h # ls) @ ms) b a d = count_lines ms True x y
     \<and> unat x = saturate (unat a + starting (CHR ''+'') ls) \<and> unat y = saturate (unat d + starting (CHR ''-'') ls)"
  using count_hunk_lines [OF assms(2), of ms a d] assms(1) by simp

text \<open>What the hunks add to the text, and how the admission counts it.\<close>

definition hunks_added :: "nat \<Rightarrow> PatchState \<Rightarrow> PatchState \<Rightarrow> string list \<Rightarrow> bool" where
  "hunks_added n p q ls \<longleftrightarrow>
     list_all one_line ls \<and> patch_text q = patch_text p @ lined ls \<and> (0 < n \<longrightarrow> ls \<noteq> [] \<and> prefix ''@@ '' (hd ls))
     \<and> length (patch_text q) \<le> max (length (patch_text p)) MAX_PATCH_BYTES + 92 * n
     \<and> patch_added p \<le> patch_added q \<and> patch_deleted p \<le> patch_deleted q
     \<and> patch_added q \<le> patch_added p + length ls \<and> patch_deleted q \<le> patch_deleted p + length ls
     \<and> (patch_added p + patch_deleted p < patch_added q + patch_deleted q \<longrightarrow> length (patch_text p) \<le> MAX_PATCH_BYTES)
     \<and> (\<forall>b a d. unat (fst (count_lines ls b a d)) = saturate (unat a + (patch_added q - patch_added p))
          \<and> unat (snd (count_lines ls b a d)) = saturate (unat d + (patch_deleted q - patch_deleted p)))"

lemma patch_hunks_spec:
  "patch_hunks hs old_end new_end p = Some q \<Longrightarrow> \<exists>ls. hunks_added (length hs) p q ls"
proof (induction hs arbitrary: old_end new_end p)
  case Nil
  then show ?case by (intro exI [of _ "[]"]) (simp add: hunks_added_def saturate_unat)
next
  case (Cons h hs)
  then obtain a b c d vs r where sums: "a + b < 2 ^ 64" "c + d < 2 ^ 64"
    and lines: "patch_lines vs (p\<lparr>patch_text := patch_text p @ patch_hunk_header a b c d, seen_old := 0, seen_new := 0\<rparr>) = Some r"
    and rest: "patch_hunks hs (a + b) (c + d) r = Some q"
    by (auto simp: Let_def checked_add_Some split: option.splits if_splits)
  from sums obtain t where t: "patch_hunk_header a b c d = t @ [NL]" "one_line t" "prefix ''@@ '' t" "length t \<le> 91"
    using patch_hunk_line [of a b c d] by auto
  from patch_lines_spec [OF lines] obtain ks where ks: "list_all hunk_line ks" "patch_text r = patch_text p @ t @ [NL] @ lined ks"
    "patch_added r = patch_added p + starting (CHR ''+'') ks" "patch_deleted r = patch_deleted p + starting (CHR ''-'') ks"
    "length (patch_text r) \<le> max (length (patch_text p) + length t + 1) MAX_PATCH_BYTES"
    "vs \<noteq> [] \<longrightarrow> length (patch_text p) + length t + 1 \<le> MAX_PATCH_BYTES" "vs = [] \<longrightarrow> ks = []"
    by (auto simp: t(1))
  from Cons.IH [OF rest] obtain ls where ls: "hunks_added (length hs) r q ls" by blast
  have "unat (fst (count_lines ((t # ks) @ ls) b' x y)) = saturate (unat x + (patch_added q - patch_added p))
      \<and> unat (snd (count_lines ((t # ks) @ ls) b' x y)) = saturate (unat y + (patch_deleted q - patch_deleted p))" for b' x y
  proof -
    obtain x' y' where xy: "count_lines ((t # ks) @ ls) b' x y = count_lines ls True x' y'"
      "unat x' = saturate (unat x + starting (CHR ''+'') ks)" "unat y' = saturate (unat y + starting (CHR ''-'') ks)"
      using count_hunk [OF t(3) ks(1), of ls b' x y] by blast
    have sums: "starting (CHR ''+'') ks + (patch_added q - patch_added r) = patch_added q - patch_added p"
      "starting (CHR ''-'') ks + (patch_deleted q - patch_deleted r) = patch_deleted q - patch_deleted p"
      using ls ks(3,4) by (simp_all add: hunks_added_def)
    have "unat (fst (count_lines ls True x' y')) = saturate (unat x' + (patch_added q - patch_added r))
        \<and> unat (snd (count_lines ls True x' y')) = saturate (unat y' + (patch_deleted q - patch_deleted r))"
      using ls unfolding hunks_added_def by blast
    then show ?thesis by (simp only: xy saturate_add add.assoc sums)
  qed
  moreover have "list_all one_line ks" using ks(1) by (auto simp: list_all_iff hunk_line_def)
  moreover have "starting (CHR ''+'') ks \<le> length ks" "starting (CHR ''-'') ks \<le> length ks" by (simp_all add: starting_def)
  ultimately have "hunks_added (length (h # hs)) p q ((t # ks) @ ls)"
    using ls ks(2-) t(2-) by (auto simp: hunks_added_def max_def split: if_splits)
  then show ?case by blast
qed

section \<open>The patch\<close>

definition diff_text :: "string \<Rightarrow> string \<Rightarrow> string list \<Rightarrow> string" where
  "diff_text x y ls = ''--- '' @ x @ [NL] @ ''+++ '' @ y @ [NL] @ lined ls"

lemma structured_patch_spec:
  assumes "structured_patch path display = Some patch"
  shows "\<exists>ls n m. patch = diff_text path path ls \<and> list_all one_line ls \<and> ls \<noteq> [] \<and> prefix ''@@ '' (hd ls)
    \<and> NL \<notin> set path \<and> CR \<notin> set path \<and> CHR 0x00 \<notin> set path \<and> length patch \<le> 1024 * 1024
    \<and> as_u64 (field_or_null display ''additions'') = Some n \<and> as_u64 (field_or_null display ''deletions'') = Some m
    \<and> 0 < n + m \<and> unat (fst (count_lines ls False 0 0)) = n \<and> unat (snd (count_lines ls False 0 0)) = m"
proof -
  let ?p = "\<lparr>patch_text = patch_header path, patch_added = 0, patch_deleted = 0, seen_old = 0, seen_new = 0\<rparr>"
  obtain hunks q where q: "patch_hunks hunks 0 0 ?p = Some q" "patch = patch_text q" "hunks \<noteq> []" "length hunks \<le> 4096"
    and given: "as_u64 (field_or_null display ''additions'') = Some (patch_added q)"
      "as_u64 (field_or_null display ''deletions'') = Some (patch_deleted q)" "0 < patch_added q + patch_deleted q"
    and path: "single_line path"
    using assms unfolding structured_patch_def by (auto split: option.splits if_splits)
  from patch_hunks_spec [OF q(1)] obtain ls where ls: "hunks_added (length hunks) ?p q ls" by blast
  then have whole: "patch = diff_text path path ls" by (simp add: hunks_added_def q(2) diff_text_def patch_header_def)
  have "length (patch_header path) \<le> MAX_PATCH_BYTES" using ls given(3) by (auto simp: hunks_added_def)
  moreover have "length (patch_text q) \<le> max (length (patch_text ?p)) MAX_PATCH_BYTES + 92 * length hunks"
    using ls unfolding hunks_added_def by blast
  ultimately have "length (patch_text q) \<le> MAX_PATCH_BYTES + 92 * length hunks" by (simp add: max_absorb2)
  with q(4) have size: "length patch \<le> 1024 * 1024" unfolding q(2) MAX_PATCH_BYTES_def by simp
  have "length ls \<le> length (lined ls)" by (induction ls) simp_all
  then have "length ls \<le> length patch" by (simp add: whole diff_text_def trans_le_add2)
  with size ls have "patch_added q < 2 ^ 64" "patch_deleted q < 2 ^ 64" by (simp_all add: hunks_added_def)
  with ls have "unat (fst (count_lines ls False 0 0)) = patch_added q" "unat (snd (count_lines ls False 0 0)) = patch_deleted q"
    by (simp_all add: hunks_added_def saturate_def)
  moreover have "NL \<notin> set path" "CR \<notin> set path" "CHR 0x00 \<notin> set path" using path by (auto simp: single_line_def list_all_iff)
  ultimately show ?thesis using whole size given ls q(3) by (auto simp: hunks_added_def)
qed

lemma diff_text_counts:
  assumes "NL \<notin> set x" and "NL \<notin> set y" and "list_all one_line ls"
  shows "unified_diff_counts (diff_text x y ls) = count_lines ls False 0 0"
proof -
  let ?ls = "(''--- '' @ x @ [NL]) # (''+++ '' @ y @ [NL]) # map (\<lambda>l. l @ [NL]) ls"
  have "list_all full_line ?ls"
    using assms by (auto simp: list_all_iff full_line_def line_like_def butlast_append one_line_def)
  from text_lines_full [OF this] have "text_lines (diff_text x y ls) = map shown ?ls" by (simp add: diff_text_def)
  moreover have "map shown (map (\<lambda>l. l @ [NL]) ls) = ls" using assms(3) by (simp add: list_all_iff shown_line map_idI)
  ultimately show ?thesis
    by (simp add: unified_diff_counts_def shown_def strip_last_def butlast_append)
qed

lemma split_once_line: "NL \<notin> set w \<Longrightarrow> split_once (w @ NL # t) = Some (w, t)"
  by (auto simp: split_once_def takeWhile_append dropWhile_append)

lemma normalize_diff_text:
  assumes "NL \<notin> set path" "CR \<notin> set path" "CHR 0x00 \<notin> set path" and "list_all one_line ls" "ls \<noteq> []" "prefix ''@@ '' (hd ls)"
    and "NL \<notin> set q" and "count_lines ls False 0 0 \<noteq> (0, 0)"
  shows "normalize_pi_edit_patch (diff_text path path ls) path q =
    Inr (diff_text (unified_diff_display_path q ''a'') (unified_diff_display_path q ''b'') ls)"
proof -
  have "\<not> list_ex (\<lambda>c. c = CR \<or> c = NL \<or> c = CHR 0x00) path" using assms(1-3) by (auto simp: list_ex_iff)
  moreover have "split_once (diff_text path path ls) = Some (''--- '' @ path, ''+++ '' @ path @ [NL] @ lined ls)"
    using split_once_line [of "''--- '' @ path"] assms(1) by (simp add: diff_text_def)
  moreover have "split_once (''+++ '' @ path @ [NL] @ lined ls) = Some (''+++ '' @ path, lined ls)"
    using split_once_line [of "''+++ '' @ path"] assms(1) by simp
  moreover have "list_ex (prefix ''@@ '') (text_lines (lined ls))"
    using assms(5,6) lined_text [OF assms(4)] by (cases ls) simp_all
  moreover have "NL \<notin> set (unified_diff_display_path q side)" if "NL \<notin> set side" for side
    using assms(7) that by (simp add: unified_diff_display_path_def)
  then have "unified_diff_counts (diff_text (unified_diff_display_path q ''a'') (unified_diff_display_path q ''b'') ls) \<noteq> (0, 0)"
    using diff_text_counts [OF _ _ assms(4)] assms(8) by simp
  ultimately show ?thesis
    by (simp add: normalize_pi_edit_patch_def and_then_def ok_or_def Let_def diff_text_def)
qed

section \<open>From the event to the evidence\<close>

lemma tool_update_diff:
  assumes "tool_update tool (Some result) = Inr u" and "pointer_path u [''_meta'', ''zcodeDiff''] = Some entries"
  shows "\<exists>path patch. get_str (field_or_null tool ''input'') ''file_path'' = Some path
    \<and> structured_patch path (field_or_null result ''display'') = Some patch
    \<and> entries = Array [Object [(''path'', JString path), (''changeKind'', JString ''update''), (''diff'', JString patch)]]"
proof -
  have plain: "get (base_update stage tool name) ''_meta'' = None" "is_object (base_update stage tool name)" for stage name
    by (simp_all add: base_update_def Let_def)
  have set: "is_object p \<Longrightarrow> get (set_field k v p) k' = (if k' = k then Some v else get p k')"
    "is_object p \<Longrightarrow> is_object (set_field k v p)" for p k v k'
    by (cases p; simp add: update_conv')+
  from assms show ?thesis
    by (auto simp: tool_update_def Let_def plain set tool_path_def bind_eq_Some_conv split: option.splits if_splits)
qed

text \<open>
  C40: a diff that ZCode reports is what the user is shown. When the update of a finished tool carries a diff, and the
  path of the tool has a place in the workspace, the admission accepts it: one entry, under the display path, and
  with exactly the additions and deletions the runtime claimed for it. A path below the managed output is refused
  instead. The display path is assumed to hold no newline and to be at most 4096 bytes long.
\<close>

theorem reported_edit_is_admitted:
  assumes "tool_update tool (Some result) = Inr u" and "pointer_path u [''_meta'', ''zcodeDiff''] = Some entries"
    and "get_str (field_or_null tool ''input'') ''file_path'' = Some path"
    and "normalize_reported_path_for_display url root path = Some q" and "NL \<notin> set q" and "length q \<le> 4096"
  shows "if is_managed url root managed path
    then admit_candidate url (zcode_candidate entries) root (Some ''zcode-app'') operation managed = Inl RUNTIME_DIFF_MANAGED_OUTPUT_ROOT
    else \<exists>e v. admit_candidate url (zcode_candidate entries) root (Some ''zcode-app'') operation managed =
        Inr \<lparr>admitted_kind = ''unified_diff_snapshot'', admitted_entries = [e], evidence_entries = v\<rparr>
      \<and> entry_path e = q \<and> entry_change_kind e = ''update''
      \<and> as_u64 (field_or_null (field_or_null result ''display'') ''additions'') = Some (unat (entry_additions e))
      \<and> as_u64 (field_or_null (field_or_null result ''display'') ''deletions'') = Some (unat (entry_deletions e))"
proof -
  let ?d = "field_or_null result ''display''"
  obtain patch where patch: "structured_patch path ?d = Some patch"
    and entries: "entries = Array [Object [(''path'', JString path), (''changeKind'', JString ''update''), (''diff'', JString patch)]]"
    using tool_update_diff [OF assms(1,2)] assms(3) by auto
  obtain ls n m where ls: "patch = diff_text path path ls" "list_all one_line ls" "ls \<noteq> []" "prefix ''@@ '' (hd ls)"
    "NL \<notin> set path" "CR \<notin> set path" "CHR 0x00 \<notin> set path" "length patch \<le> 1024 * 1024"
    "as_u64 (field_or_null ?d ''additions'') = Some n" "as_u64 (field_or_null ?d ''deletions'') = Some m" "0 < n + m"
    "unat (fst (count_lines ls False 0 0)) = n" "unat (snd (count_lines ls False 0 0)) = m"
    using structured_patch_spec [OF patch] by (elim exE conjE) (rule that)
  let ?n = "diff_text (unified_diff_display_path q ''a'') (unified_diff_display_path q ''b'') ls"
  have "count_lines ls False 0 0 \<noteq> (0, 0)" using ls(11-13) by auto
  then have normal: "normalize_pi_edit_patch patch path q = Inr ?n"
    unfolding ls(1) by (intro normalize_diff_text ls(2-7) assms(5))
  have display: "length (unified_diff_display_path q side) \<le> 4100" "NL \<notin> set (unified_diff_display_path q side)"
    if "side \<in> {''a'', ''b''}" for side
    using assms(5,6) that by (auto simp: unified_diff_display_path_def)
  have "length (unified_diff_display_path q ''a'') \<le> 4100" "length (unified_diff_display_path q ''b'') \<le> 4100"
    by (intro display(1); simp)+
  with ls(8) have size: "length ?n \<le> 2 * 1024 * 1024" "?n \<noteq> []" by (simp_all add: ls(1) diff_text_def)
  have counts: "unified_diff_counts ?n = count_lines ls False 0 0"
    using display(2) by (intro diff_text_counts ls(2)) simp_all
  have source: "adapter_from_str ''zcode-app'' = Some ZcodeApp" "admitted_source ZcodeApp PROTOCOL ''tool.updated.result'' ''zcode_edit_patch''"
    by (code_simp, simp add: admitted_source_def)
  have small: "\<not> MAX_SINGLE_DIFF_BYTES < length patch" "\<not> MAX_SINGLE_DIFF_BYTES < length ?n" "charge 0 (length ?n) = Inr (length ?n)"
    using ls(8) size(1) by (simp_all add: MAX_SINGLE_DIFF_BYTES_def MAX_DIFF_BYTES_def charge_def checked_add_def and_then_def ok_or_def)
  let ?e = "\<lparr>entry_path = q, entry_change_kind = ''update'', entry_additions = fst (unified_diff_counts ?n),
    entry_deletions = snd (unified_diff_counts ?n), entry_diff = ?n\<rparr>"
  have "admit_candidate url (zcode_candidate entries) root (Some ''zcode-app'') operation managed =
      (if is_managed url root managed path then Inl RUNTIME_DIFF_MANAGED_OUTPUT_ROOT
       else Inr \<lparr>admitted_kind = ''unified_diff_snapshot'', admitted_entries = [?e],
         evidence_entries = Array [unified_diff_value q ''update'' ?n]\<rparr>)"
    using assms(4) normal small source size(2)
    by (simp add: admit_candidate_def zcode_candidate_def entries get_str_def and_then_def ok_or_def MAX_DIFF_FILES_def
      admit_change_def reported_move_path_def pointer_def normalized_change_kind_def native_patch_def native_content_def
      native_diff_def no_admission_def add_entry_def)
  with ls(9,10,12,13) show ?thesis by (auto simp: counts)
qed

text \<open>
  With a newline in the display path the counts are not the claimed ones. The normalisation looks for a newline in the
  reported path only, and the path that a URL stands for may hold one: here the headers of the patch are
  counted as three added lines.
\<close>

lemma newline_in_path_inflates_counts:
  fixes tail reported :: string
  defines "tail \<equiv> ''x'' @ [NL] @ ''@@ '' @ [NL] @ ''+1''" and "reported \<equiv> ''file:///r/x%0A@@%20%0A+1''"
  assumes "url reported = Some (''/r/'' @ tail)"
  shows "normalize_reported_path_for_display url ''/r'' reported = Some tail
    \<and> unified_diff_counts (diff_text reported reported [''@@ -1,1 +1,1 @@'', ''-x'', ''+y'']) = (1, 1)
    \<and> (\<exists>n. normalize_pi_edit_patch (diff_text reported reported [''@@ -1,1 +1,1 @@'', ''-x'', ''+y'']) reported tail = Inr n
         \<and> unified_diff_counts n = (4, 1))"
proof -
  let ?ls = "[''@@ -1,1 +1,1 @@'', ''-x'', ''+y'']"
  let ?n = "diff_text (''a/'' @ tail) (''b/'' @ tail) ?ls"
  have ls: "list_all one_line ?ls" by (simp add: one_line_def)
  have one: "unified_diff_counts (diff_text reported reported ?ls) = (1, 1)"
    by (subst diff_text_counts [OF _ _ ls]) (simp_all add: reported_def saturating_add_def)
  have place: "normalize_reported_path_for_display url ''/r'' reported = Some tail"
  proof -
    have "normalize_reported_path_for_display (\<lambda>_. Some (''/r/'' @ tail)) ''/r'' reported = Some tail"
      unfolding tail_def reported_def by code_simp
    moreover have "resolve_reported_absolute_path url R reported = resolve_reported_absolute_path (\<lambda>_. Some (''/r/'' @ tail)) R reported" for R
      using assms(3) unfolding resolve_reported_absolute_path_def by (simp add: reported_def)
    ultimately show ?thesis unfolding normalize_reported_path_for_display_def by (simp only:)
  qed
  have "?n = lined ([''--- a/x'', ''@@ '', ''+1'', ''+++ b/x'', ''@@ '', ''+1''] @ ?ls)"
    by (simp add: diff_text_def tail_def)
  moreover have "list_all one_line ([''--- a/x'', ''@@ '', ''+1'', ''+++ b/x'', ''@@ '', ''+1''] @ ?ls)"
    by (simp add: one_line_def)
  ultimately have "text_lines ?n = [''--- a/x'', ''@@ '', ''+1'', ''+++ b/x'', ''@@ '', ''+1''] @ ?ls"
    by (simp only: lined_text)
  then have four: "unified_diff_counts ?n = (4, 1)"
    by (simp add: unified_diff_counts_def saturating_add_def)
  have "split_once (diff_text reported reported ?ls) = Some (''--- '' @ reported, ''+++ '' @ reported @ [NL] @ lined ?ls)"
    using split_once_line [of "''--- '' @ reported"] by (simp add: diff_text_def reported_def)
  moreover have "split_once (''+++ '' @ reported @ [NL] @ lined ?ls) = Some (''+++ '' @ reported, lined ?ls)"
    using split_once_line [of "''+++ '' @ reported"] by (simp add: reported_def)
  moreover have "list_ex (prefix ''@@ '') (text_lines (lined ?ls))" by (simp only: lined_text [OF ls]) simp
  moreover have "\<not> list_ex (\<lambda>c. c = CR \<or> c = NL \<or> c = CHR 0x00) reported" by (simp add: reported_def)
  moreover have "unified_diff_display_path tail ''a'' = ''a/'' @ tail" "unified_diff_display_path tail ''b'' = ''b/'' @ tail"
    by (simp_all add: unified_diff_display_path_def tail_def is_absolute_def)
  moreover have "''--- '' @ (''a/'' @ tail) @ [NL] @ ''+++ '' @ (''b/'' @ tail) @ [NL] @ lined ?ls = ?n" by (simp only: diff_text_def)
  ultimately have "normalize_pi_edit_patch (diff_text reported reported ?ls) reported tail = Inr ?n"
    using four unfolding normalize_pi_edit_patch_def by (simp add: and_then_def ok_or_def Let_def del: append.simps append_assoc)
  with one place four show ?thesis by blast
qed

definition edit_tool :: Value where
  "edit_tool = Object [(''toolCallId'', JString ''c''), (''toolName'', JString ''Edit''),
     (''input'', Object [(''file_path'', JString ''/r/a'')])]"

definition edit_display :: Value where
  "edit_display = Object [(''kind'', JString ''file_diff''), (''filePath'', JString ''/r/a''), (''truncated'', Bool False),
     (''additions'', Number (PosInt 1)), (''deletions'', Number (PosInt 1)),
     (''structuredPatch'', Array [Object [(''oldStart'', Number (PosInt 1)), (''oldLines'', Number (PosInt 1)),
        (''newStart'', Number (PosInt 1)), (''newLines'', Number (PosInt 1)),
        (''lines'', Array [JString ''-x'', JString ''+y''])]])]"

definition edit_result :: Value where
  "edit_result = Object [(''success'', Bool True), (''display'', edit_display)]"

definition edit_patch :: string where
  "edit_patch = ''--- /r/a'' @ [NL] @ ''+++ /r/a'' @ [NL] @ ''@@ -1,1 +1,1 @@'' @ [NL] @ ''-x'' @ [NL] @ ''+y'' @ [NL]"

definition edit_entries :: Value where
  "edit_entries = Array [Object [(''path'', JString ''/r/a''), (''changeKind'', JString ''update''), (''diff'', JString edit_patch)]]"

lemma edit_structured: "structured_patch ''/r/a'' edit_display = Some edit_patch"
proof -
  have "dec 1 = ''1''" by code_simp
  then show ?thesis
    by (simp add: structured_patch_def edit_display_def get_str_def field_or_null_def single_line_def Let_def checked_add_def
      count_line_def MAX_PATCH_BYTES_def patch_header_def patch_hunk_header_def edit_patch_def)
qed

lemma edit_update: "\<exists>u. tool_update edit_tool (Some edit_result) = Inr u \<and> pointer_path u [''_meta'', ''zcodeDiff''] = Some edit_entries"
proof -
  have "result_succeeded edit_result" by (simp add: result_succeeded_def edit_result_def)
  with edit_structured show ?thesis
    by (simp add: tool_update_def edit_tool_def get_str_def tool_path_def field_or_null_def base_update_def Let_def
      edit_result_def edit_entries_def)
qed

theorem reported_edit_is_admitted_witness:
  "\<exists>e v. admit_candidate (\<lambda>_. None) (zcode_candidate edit_entries) ''/r'' (Some ''zcode-app'') None None =
      Inr \<lparr>admitted_kind = ''unified_diff_snapshot'', admitted_entries = [e], evidence_entries = v\<rparr>
    \<and> entry_path e = ''a'' \<and> unat (entry_additions e) = 1 \<and> unat (entry_deletions e) = 1"
proof -
  obtain u where u: "tool_update edit_tool (Some edit_result) = Inr u" "pointer_path u [''_meta'', ''zcodeDiff''] = Some edit_entries"
    using edit_update by blast
  have path: "get_str (field_or_null edit_tool ''input'') ''file_path'' = Some ''/r/a''"
    by (simp add: edit_tool_def get_str_def field_or_null_def)
  have place: "normalize_reported_path_for_display (\<lambda>_. None) ''/r'' ''/r/a'' = Some ''a''" by code_simp
  from reported_edit_is_admitted [OF u path place, of None None] show ?thesis
    by (auto simp: is_managed_def edit_result_def edit_display_def field_or_null_def)
qed

end
