(* ===== verification/Spec2Isabelle.thy ===== *)
theory Spec2Isabelle
  imports Net_Recovery Steer_Policy Shutdown_World Web_Auth_Safety Fleet_Safety Claude_Options Activity_Safety Clocks
    Text_Safety Failure_Redaction Thread_Id Runtime_Pricing Zcode_Safety Zcode_Patch
begin

text \<open>
  The core of Rovai: a host on the user's computer that runs the coding agents of several vendors as processes,
  stores what they report in a database, and serves it to a desktop application and to browsers. These theories
  model the parts of \<^verbatim>\<open>crates/rovai-core\<close> and \<^verbatim>\<open>crates/rovai-web\<close> that decide something on their own: who may
  start or stop a process, which reports of a runtime are believed, what becomes of them, and what is shown.

  \<^bold>\<open>How the parts work together.\<close> A run is admitted by the planned shutdown coordinator and gets a process from
  the runtime fleet; the adapter catalogue tells which program that is. While it runs, the control channel carries
  permission requests and inputs (the steer policy says which runtimes take any), and events come back. Streamed
  text goes into the blocks of execution text; any other event is evidence, whose candidates (a diff, a file
  operation, a search) are admitted or refused, which is then classified and merged into the activity of its
  operation. A run that fails is classified: a network failure is queued for another attempt, and what the user is
  told is sanitized. Budgets and automations go by the clocks. Browsers log in to the web service.

  \<^bold>\<open>Conventions.\<close> A text is the list of its bytes in UTF-8, so lengths are those of the code; machine integers are
  \<open>nat\<close> or \<open>int\<close> with every saturation, wrap or range check of the code written out; times and durations are
  nanoseconds. A JSON value is a \<open>Value\<close>, its objects association lists without duplicates (\<open>Json\<close>). A \<open>BTreeMap\<close>
  is a sorted association list, a \<open>HashMap\<close> one without duplicates; both are instances of \<open>keyed_store\<close> in
  \<open>Prelude\<close>. An error is the left of a sum or a \<open>None\<close>; a panic is a \<open>None\<close> of its own. What a definition takes as
  an argument is no code of the repository: hashes, fresh identifiers, clocks, the text of a JSON scalar, the parsers of
  URLs, dates and JSON, and the answers of the file system, the database, pipes and processes. Code that awaits is cut at
  its suspension points: there is one definition for each stretch under a lock, and a step relation lets
  the stretches of any number of tasks interleave. A deadline may pass, and a call outside may fail, at any step.

  \<^bold>\<open>Shared interfaces\<close> (\<open>Prelude\<close>). \<open>keyed_store\<close>: what a lookup returns after an insertion or a removal;
  \<open>invariant_system\<close> and \<open>monotone_system\<close>: an invariant, and a quantity that never falls, for whole executions;
  \<open>wire_enum\<close>: names that are read back. They are interpreted on the maps, on the step relations of the queue, the
  shutdown, the sessions, the fleet, the control channel and the text, and on the enumerations. \<open>edited_text\<close> in \<open>Failure_Safety\<close>
  is the contract of a property of lines that redaction keeps.
\<close>

text \<open>
  \<^bold>\<open>Theories and sources.\<close> File names are those under \<^verbatim>\<open>crates/rovai-core/src\<close>; functions and types keep their
  names, with a prefix or suffix where HOL has the name already.

  \<^item> \<open>Net_Failure\<close>, \<open>Net_Recovery\<close>: \<^verbatim>\<open>network_recovery.rs\<close>. The classification is sound for every input. An entry
    of the queue changes only to a later attempt, and is woken at most once between two registrations.
  \<^item> \<open>Adapter\<close>, \<open>Steer_Policy\<close>: the catalogue of \<^verbatim>\<open>agent_profile.rs\<close>, \<^verbatim>\<open>steer.rs\<close> and the version parser of
    \<^verbatim>\<open>agent_runtime_adapter.rs\<close>. Input is steered into a run exactly if it fulfils every condition of the policy,
    among them a release of a table of releases, whose printed version the parser reads back.
  \<^item> \<open>Shutdown\<close>, \<open>Shutdown_World\<close>: \<^verbatim>\<open>planned_shutdown.rs\<close>. In every interleaving of launches, terminal reports and
    the shutdown, no launch begins behind the barrier, the phase only advances, a planned run has one terminal
    outcome, and nothing is admitted behind the cutoff.
  \<^item> \<open>Web_Auth\<close>, \<open>Web_Auth_Safety\<close>: \<^verbatim>\<open>auth.rs\<close> of \<^verbatim>\<open>crates/rovai-web\<close>. The registry stays within its bound, a
    restart restores what was stored, a failure to store changes nothing, a ticket is used once, logins are
    throttled, and a session that was revoked stays so.
  \<^item> \<open>Fleet\<close>, \<open>Fleet_World\<close>, \<open>Fleet_Inv\<close>, \<open>Fleet_Steps\<close>, \<open>Fleet_Safety\<close>: \<^verbatim>\<open>runtime_fleet.rs\<close>. The operations, the
    startup and stop tasks between them, the invariant of the indices, what each stretch does to it, and the
    properties: a lease is held by one process, closed conversations stay closed, and a shutdown that
    reports every process reaped has left none, unless it reports its deadline as well.
  \<^item> \<open>Diff_Text\<close>, \<open>Diff_Paths\<close>, \<open>Diff_Evidence\<close>, \<open>Diff_Admission\<close>: \<^verbatim>\<open>runtime_diff.rs\<close>. \<open>Diff_Roundtrip\<close> reads a unified
    diff and applies it: the diffs the host builds give the new text. \<open>Diff_Safety\<close>: the limits, the admitted
    files, stored evidence, and how projections of one operation merge.
  \<^item> \<open>File_Operation\<close>, \<open>Ingest_Safety\<close>: \<^verbatim>\<open>runtime_file_operation.rs\<close> and the normalizers of
    \<^verbatim>\<open>execution_evidence.rs\<close>. What is read back from a stored payload is what was admitted.
  \<^item> \<open>Canonical_Json\<close>: the canonical text of \<^verbatim>\<open>command.rs\<close>; it determines the value.
  \<^item> \<open>Claude_Permission\<close>, \<open>Claude_Control\<close>, \<open>Claude_World\<close>, \<open>Claude_Safety\<close>, \<open>Claude_Options\<close>:
    \<^verbatim>\<open>claude_permission.rs\<close>, \<^verbatim>\<open>claude_control.rs\<close> and the permission options of \<^verbatim>\<open>action.rs\<close>. A decision that is
    written answers a request, an input reported as refused was not written, the end of a run is not missed.
  \<^item> \<open>Search_Operation\<close>, \<open>Search_Safety\<close>: \<^verbatim>\<open>runtime_search_operation.rs\<close>.
  \<^item> \<open>Thread_Compat\<close>: \<^verbatim>\<open>thread_compat.rs\<close> and the tool table of \<^verbatim>\<open>builtin_tool_transport.rs\<close>. An input under new
    names is stored under the old ones, with the digest it had before the names changed.
  \<^item> \<open>Activity_Mapping\<close>, \<open>Canonical_Activity\<close>, \<open>Activity_Safety\<close>: \<^verbatim>\<open>runtime_activity_mapping.rs\<close>,
    \<^verbatim>\<open>canonical_activity.rs\<close> and the table of activities in \<^verbatim>\<open>execution_evidence.rs\<close>. The row of an operation is the
    history of its own evidence, well formed, in order and without doubles.
  \<^item> \<open>Clocks\<close>: \<^verbatim>\<open>execution_budget.rs\<close>, \<^verbatim>\<open>automation_clock.rs\<close>.
  \<^item> \<open>Execution_Text\<close>, \<open>Text_Safety\<close>: \<^verbatim>\<open>execution_text.rs\<close>. Over every history of events, failures and maintenance,
    an open block holds what was streamed to it and a finished row that or the text the runtime called complete; the log
    of a history names the blocks whose file could not be cut back after a failed write, for which this may fail.
  \<^item> \<open>Runtime_Failure\<close>, \<open>Utf8_Text\<close>, \<open>Failure_Safety\<close>, \<open>Failure_Redaction\<close>: \<^verbatim>\<open>runtime_failure.rs\<close>. Every slice of a text
    that could panic is a \<open>None\<close>; sanitizing always returns, every failure made public satisfies its contract, and
    no bearer token survives.
  \<^item> \<open>Thread_Id\<close>: \<^verbatim>\<open>camp_id.rs\<close>. A text is accepted exactly if it is the one spelling of a UUID of version 7.
  \<^item> \<open>Runtime_Pricing\<close>: \<^verbatim>\<open>runtime_pricing.rs\<close>. Estimates are exact to the nanodollar, at the newest rate in force.
  \<^item> \<open>Zcode_Events\<close>, \<open>Zcode_Safety\<close>, \<open>Zcode_Patch\<close>: \<^verbatim>\<open>zcode/events.rs\<close>. Over every history of a session the text a
    reader is left with is the response, tools are announced and settled once, nothing of an input follows its end, and
    no event is acted on twice; a patch the translation passes on is admitted, with the counts the runtime claimed.
\<close>

text \<open>
  \<^bold>\<open>Loops and bounds.\<close> No definition uses fuel: every loop of the modelled code is a recursion over a list, or a
  \<open>function\<close> with a measure (the bytes left, the distance to the end of the text). The bounds of the code
  (64 KiB of text in memory, 128 open blocks, 4096 tools and background tasks, 2048 characters of a failure, the sizes of diffs, the sessions, the residents of
  the fleet) are constants with the values of the code.

  \<^bold>\<open>What modelling showed.\<close> Beside the properties, lemmas show where the code falls short of its intent:
  \<open>burst_eviction_overcommits\<close> (an idle burst process makes room it never took), \<open>backslash_display_escapes\<close> (a
  backslash of a name is displayed as a separator), \<open>completed_tool_call_refused\<close> (a search reported
  once, already ended, is dropped), \<open>third_end_decides\<close> (the mark of contradicting ends does not last),
  \<open>lost_row_blocks_settlement\<close> (a block without row blocks those behind it), \<open>uncut_frame_corrupts_text\<close> (a file that
  could not be cut back goes on being used), \<open>early_timeout_claims_all\<close> (a shutdown that never got the lock of the fleet
  counts nothing and calls it all reaped), \<open>newline_in_path_inflates_counts\<close> (a newline decoded from a URL gets into the
  headers of a diff), \<open>stale_decision_answers_reused_identifier\<close> (a decision may answer a later request of the same
  name) and \<open>cookie_value_survives\<close> (only the first of two cookies is redacted).

  \<^bold>\<open>Not modelled.\<close> The database schema and its migrations (\<^verbatim>\<open>db.rs\<close>), the command loop
  (\<^verbatim>\<open>application.rs\<close>), and the services whose work is a transaction of SQL statements
  (conversations, delivery queues, missions, members, the runtime service, channels, attachments, memory, read models,
  usage): their behaviour is that of the queries, which the engine executes; where such a
  service hands a row to one of the parts above, the row is an argument. The hosts of the other runtimes (ACP, Codex,
  Pi, Zcode and others) and the platform layer drive processes and sockets of third parties; what
  they report is modelled from where it is admitted. Context assembly, skills, the web routes and the command line put texts and
  files together and are left out, as are the front ends, which are not Rust. Of the fleet, the
  owner records on disk and the inspection of processes; of the web sessions, the semaphores of streams and downloads;
  of the diffs, the branches for Windows; of the Claude host, its process; of the ZCode host, its transport.
\<close>

end
